(* ===== verification/Go_Strings.thy ===== *)
theory Go_Strings
  imports Prelude
begin

text \<open>
  What the sources use of Go's \<open>strings\<close>, \<open>unicode/utf8\<close> and \<open>strconv\<close> packages, on byte strings.
  \<open>chunks\<close> is the rune-by-rune reading of a string (\<open>for _, r := range s\<close>): each element is a rune
  with the bytes it was decoded from, an ill-formed byte being U+FFFD of width one. \<open>TrimSpace\<close>,
  \<open>Fields\<close>, \<open>ToLower\<close> and \<open>strings.Map\<close> are defined on it. \<open>lower_rune\<close> is exact wherever the
  result is ASCII (A-Z, U+0130 and U+212A are the runes whose lower case is ASCII); it leaves the
  other non-ASCII runes as they are.
\<close>

section \<open>Runes\<close>

type_synonym rune = nat

definition code :: "char \<Rightarrow> nat" where
  "code c = of_char c"

definition cont :: "char \<Rightarrow> bool" where
  "cont c \<longleftrightarrow> 128 \<le> code c \<and> code c \<le> 191"

definition second_ok :: "nat \<Rightarrow> char \<Rightarrow> bool" where
  "second_ok n b \<longleftrightarrow>
     (if n = 224 then 160 \<le> code b \<and> code b \<le> 191
      else if n = 237 then 128 \<le> code b \<and> code b \<le> 159
      else if n = 240 then 144 \<le> code b \<and> code b \<le> 191
      else if n = 244 then 128 \<le> code b \<and> code b \<le> 143
      else cont b)"

definition rune_width :: "char \<Rightarrow> string \<Rightarrow> nat" where
  "rune_width a s =
     (if code a < 194 then 1
      else if code a \<le> 223 then (case s of b # _ \<Rightarrow> if cont b then 2 else 1 | _ \<Rightarrow> 1)
      else if code a \<le> 239 then
        (case s of b # c # _ \<Rightarrow> if second_ok (code a) b \<and> cont c then 3 else 1 | _ \<Rightarrow> 1)
      else if code a \<le> 244 then
        (case s of b # c # d # _ \<Rightarrow> if second_ok (code a) b \<and> cont c \<and> cont d then 4 else 1 | _ \<Rightarrow> 1)
      else 1)"

definition rune_error :: rune where "rune_error = 65533"

fun rune_value :: "string \<Rightarrow> rune" where
  "rune_value [a] = (if code a < 128 then code a else rune_error)"
| "rune_value [a, b] = (code a mod 32) * 64 + code b mod 64"
| "rune_value [a, b, c] = (code a mod 16) * 4096 + (code b mod 64) * 64 + code c mod 64"
| "rune_value [a, b, c, d] =
     (code a mod 8) * 262144 + (code b mod 64) * 4096 + (code c mod 64) * 64 + code d mod 64"
| "rune_value _ = rune_error"

function chunks :: "string \<Rightarrow> (rune \<times> string) list" where
  "chunks [] = []"
| "chunks (a # s) =
     (let n = rune_width a s; c = a # take (n - 1) s
      in (rune_value c, c) # chunks (drop (n - 1) s))"
  by pat_completeness auto
termination
  by (relation "measure length") auto

definition runes :: "string \<Rightarrow> rune list" where
  "runes s = map fst (chunks s)"

definition unchunk :: "(rune \<times> string) list \<Rightarrow> string" where
  "unchunk cs = concat (map snd cs)"

definition encode_rune :: "rune \<Rightarrow> string" where
  "encode_rune r =
     (if r < 128 then [char_of r]
      else if r < 2048 then [char_of (192 + r div 64), char_of (128 + r mod 64)]
      else if (55296 \<le> r \<and> r \<le> 57343) \<or> 1114111 < r then [CHR 0xEF, CHR 0xBF, CHR 0xBD]
      else if r < 65536 then
        [char_of (224 + r div 4096), char_of (128 + r div 64 mod 64), char_of (128 + r mod 64)]
      else
        [char_of (240 + r div 262144), char_of (128 + r div 4096 mod 64),
         char_of (128 + r div 64 mod 64), char_of (128 + r mod 64)])"

definition encode_runes :: "rune list \<Rightarrow> string" where
  "encode_runes rs = concat (map encode_rune rs)"

text \<open>A Unicode scalar value.\<close>

definition scalar :: "rune \<Rightarrow> bool" where
  "scalar r \<longleftrightarrow> r \<le> 1114111 \<and> \<not> (55296 \<le> r \<and> r \<le> 57343)"

text \<open>\<open>utf8.ValidString\<close>.\<close>

definition valid_utf8 :: "string \<Rightarrow> bool" where
  "valid_utf8 s \<longleftrightarrow> list_all (\<lambda>(r, c). c = encode_rune r) (chunks s)"

text \<open>\<open>strings.Map\<close>: \<open>None\<close> stands for a negative rune, which drops the character.\<close>

definition strings_Map :: "(rune \<Rightarrow> rune option) \<Rightarrow> string \<Rightarrow> string" where
  "strings_Map f s = encode_runes (List.map_filter f (runes s))"

section \<open>White space, case and substrings\<close>

definition is_space :: "rune \<Rightarrow> bool" where
  "is_space r \<longleftrightarrow> (9 \<le> r \<and> r \<le> 13) \<or> r = 32 \<or> r = 133 \<or> r = 160 \<or> r = 5760 \<or>
     (8192 \<le> r \<and> r \<le> 8202) \<or> r = 8232 \<or> r = 8233 \<or> r = 8239 \<or> r = 8287 \<or> r = 12288"

definition space_chunk :: "rune \<times> string \<Rightarrow> bool" where
  "space_chunk c \<longleftrightarrow> is_space (fst c)"

definition TrimSpace :: "string \<Rightarrow> string" where
  "TrimSpace s = unchunk (rev (dropWhile space_chunk (rev (dropWhile space_chunk (chunks s)))))"

fun split_fields :: "(rune \<times> string) list \<Rightarrow> (rune \<times> string) list \<Rightarrow> string list" where
  "split_fields acc [] = (if acc = [] then [] else [unchunk acc])"
| "split_fields acc (c # cs) =
     (if space_chunk c then (if acc = [] then [] else [unchunk acc]) @ split_fields [] cs
      else split_fields (acc @ [c]) cs)"

definition Fields :: "string \<Rightarrow> string list" where
  "Fields s = split_fields [] (chunks s)"

fun Join :: "string list \<Rightarrow> string \<Rightarrow> string" where
  "Join [] sep = []"
| "Join [x] sep = x"
| "Join (x # y # xs) sep = x @ sep @ Join (y # xs) sep"

definition lower_rune :: "rune \<Rightarrow> rune" where
  "lower_rune r =
     (if 65 \<le> r \<and> r \<le> 90 then r + 32 else if r = 304 then 105 else if r = 8490 then 107 else r)"

definition ToLower :: "string \<Rightarrow> string" where
  "ToLower s = strings_Map (\<lambda>r. Some (lower_rune r)) s"

text \<open>
  \<open>strings.EqualFold(s, t)\<close> for a literal \<open>t\<close> of lower-case ASCII letters other than k and s, whose
  only case variants are the two ASCII ones.
\<close>

definition lower_byte :: "char \<Rightarrow> char" where
  "lower_byte c = (if 65 \<le> code c \<and> code c \<le> 90 then char_of (code c + 32) else c)"

definition EqualFold :: "string \<Rightarrow> string \<Rightarrow> bool" where
  "EqualFold s t \<longleftrightarrow> map lower_byte s = map lower_byte t"

definition HasPrefix :: "string \<Rightarrow> string \<Rightarrow> bool" where
  "HasPrefix s p \<longleftrightarrow> take (length p) s = p"

definition HasSuffix :: "string \<Rightarrow> string \<Rightarrow> bool" where
  "HasSuffix s p \<longleftrightarrow> length p \<le> length s \<and> drop (length s - length p) s = p"

definition TrimPrefix :: "string \<Rightarrow> string \<Rightarrow> string" where
  "TrimPrefix s p = (if HasPrefix s p then drop (length p) s else s)"

definition TrimSuffix :: "string \<Rightarrow> string \<Rightarrow> string" where
  "TrimSuffix s p = (if HasSuffix s p then take (length s - length p) s else s)"

fun Contains :: "string \<Rightarrow> string \<Rightarrow> bool" where
  "Contains [] p \<longleftrightarrow> p = []"
| "Contains (c # s) p \<longleftrightarrow> HasPrefix (c # s) p \<or> Contains s p"

text \<open>\<open>strings.Index(s, "c")\<close> for a one-byte needle, \<open>None\<close> for -1.\<close>

fun index_byte :: "char \<Rightarrow> string \<Rightarrow> nat option" where
  "index_byte c [] = None"
| "index_byte c (x # xs) = (if x = c then Some 0 else map_option Suc (index_byte c xs))"

text \<open>\<open>strings.TrimRight(s, "\n")\<close>.\<close>

definition trim_right_nl :: "string \<Rightarrow> string" where
  "trim_right_nl s = rev (dropWhile (\<lambda>c. c = CHR 0x0A) (rev s))"

definition nl :: string where "nl = [CHR 0x0A]"
definition ellipsis :: string where "ellipsis = [CHR 0xE2, CHR 0x80, CHR 0xA6]"

section \<open>Decimal integers\<close>

function digits_of :: "nat \<Rightarrow> string" where
  "digits_of n = (if n < 10 then [char_of (48 + n)] else digits_of (n div 10) @ [char_of (48 + n mod 10)])"
  by pat_completeness auto
termination
  by (relation "measure id") auto

declare digits_of.simps [simp del]

definition show_int :: "int \<Rightarrow> string" where
  "show_int n = (if n < 0 then CHR 0x2D # digits_of (nat (- n)) else digits_of (nat n))"

definition is_digit :: "char \<Rightarrow> bool" where
  "is_digit c \<longleftrightarrow> 48 \<le> code c \<and> code c \<le> 57"

definition digits_value :: "string \<Rightarrow> nat" where
  "digits_value s = foldl (\<lambda>n c. 10 * n + (code c - 48)) 0 s"

text \<open>\<open>strconv.ParseInt(s, 10, 64)\<close>: an optional sign, digits only, and the range of \<open>int64\<close>.\<close>

definition parse_int64 :: "string \<Rightarrow> int option" where
  "parse_int64 s =
     (let neg = (s \<noteq> [] \<and> hd s = CHR 0x2D);
          ds = (if s \<noteq> [] \<and> (hd s = CHR 0x2D \<or> hd s = CHR 0x2B) then tl s else s);
          n = int (digits_value ds);
          v = (if neg then - n else n)
      in if ds = [] \<or> \<not> list_all is_digit ds then None
         else if - (2 ^ 63) \<le> v \<and> v < 2 ^ 63 then Some v else None)"

section \<open>Facts on runes\<close>

lemma code_char_of [simp]: "code (char_of n) = n mod 256"
  by (simp add: code_def)

lemma char_of_code [simp]: "char_of (code c) = c"
  by (simp add: code_def)

lemma code_lt [simp]: "code c < 256"
proof -
  have "code c = code c mod 256"
    using code_char_of [of "code c"] by simp
  then show ?thesis by (metis mod_less_divisor zero_less_numeral)
qed

lemma code_inj [simp]: "code a = code b \<longleftrightarrow> a = b"
  by (metis char_of_code)

lemma rune_width_pos [simp]: "0 < rune_width a s"
  by (auto simp: rune_width_def split: list.splits)

lemma rune_width_le: "rune_width a s \<le> Suc (length s)"
  by (auto simp: rune_width_def split: list.splits)

lemma unchunk_Nil [simp]: "unchunk [] = []"
  by (simp add: unchunk_def)

lemma unchunk_Cons [simp]: "unchunk (c # cs) = snd c @ unchunk cs"
  by (simp add: unchunk_def)

lemma unchunk_append [simp]: "unchunk (xs @ ys) = unchunk xs @ unchunk ys"
  by (simp add: unchunk_def)

lemma unchunk_chunks [simp]: "unchunk (chunks s) = s"
  by (induction s rule: chunks.induct) (simp_all add: Let_def)

lemma chunk_nonempty: "(r, c) \<in> set (chunks s) \<Longrightarrow> c \<noteq> []"
  by (induction s rule: chunks.induct) (auto simp: Let_def)

lemma encode_rune_cases:
  assumes "scalar r"
  obtains (one) "r < 128" "encode_rune r = [char_of r]"
  | (two) "128 \<le> r" "r < 2048"
      "encode_rune r = [char_of (192 + r div 64), char_of (128 + r mod 64)]"
  | (three) "2048 \<le> r" "r < 65536" "\<not> (55296 \<le> r \<and> r \<le> 57343)"
      "encode_rune r =
        [char_of (224 + r div 4096), char_of (128 + r div 64 mod 64), char_of (128 + r mod 64)]"
  | (four) "65536 \<le> r" "r \<le> 1114111"
      "encode_rune r =
        [char_of (240 + r div 262144), char_of (128 + r div 4096 mod 64),
         char_of (128 + r div 64 mod 64), char_of (128 + r mod 64)]"
  using assms unfolding scalar_def encode_rune_def
  by (cases "r < 128"; cases "r < 2048"; cases "r < 65536") auto

lemma mod_lt_64: "(128 + x mod 64) mod 256 = 128 + x mod (64::nat)"
  using mod_less_divisor [of 64 x] by simp

lemma base64_2: "r = r div 64 * 64 + r mod (64::nat)"
  by simp

lemma base64_3: "r = r div 4096 * 4096 + (r div 64 mod 64) * 64 + r mod (64::nat)"
proof -
  have "r div 64 = r div 4096 * 64 + r div 64 mod 64"
    using div_mult_mod_eq [of "r div 64" 64] by (simp add: div_mult2_eq [of r 64 64, simplified, symmetric])
  then show ?thesis using base64_2 [of r] by linarith
qed

lemma base64_4:
  "r = r div 262144 * 262144 + (r div 4096 mod 64) * 4096 + (r div 64 mod 64) * 64 + r mod (64::nat)"
proof -
  have "r div 4096 = r div 262144 * 64 + r div 4096 mod 64"
    using div_mult_mod_eq [of "r div 4096" 64]
    by (simp add: div_mult2_eq [of r 4096 64, simplified, symmetric])
  then show ?thesis using base64_3 [of r] by linarith
qed

lemma add_mod_tail: "m < 64 \<Longrightarrow> (128 + m) mod 64 = (m::nat)"
  using mod_mult_self1 [of m 2 64] by (simp add: add.commute)

lemma add_mod_lead:
  "q < 32 \<Longrightarrow> (192 + q) mod 32 = (q::nat)" "q < 16 \<Longrightarrow> (224 + q) mod 16 = q" "q < 8 \<Longrightarrow> (240 + q) mod 8 = q"
  using mod_mult_self1 [of q 6 32] mod_mult_self1 [of q 14 16] mod_mult_self1 [of q 30 8]
  by (simp_all add: add.commute)

lemma chunks_two:
  assumes "128 \<le> r" "r < 2048"
  shows "chunks (char_of (192 + r div 64) # char_of (128 + r mod 64) # s)
    = (r, [char_of (192 + r div 64), char_of (128 + r mod 64)]) # chunks s"
    (is "chunks (?a # ?b # s) = _")
proof -
  define q m where "q = r div 64" and "m = r mod 64"
  have r: "r = q * 64 + m" and m: "m < 64"
    unfolding q_def m_def by simp_all
  then have q: "2 \<le> q" "q < 32" using assms by linarith+
  have a: "code ?a = 192 + q" and b: "code ?b = 128 + m"
    using q m unfolding q_def [symmetric] m_def [symmetric] by simp_all
  have w: "rune_width ?a (?b # s) = 2"
    using q m by (simp add: rune_width_def cont_def a b del: code_char_of)
  have v: "rune_value [?a, ?b] = r"
    using q m by (simp add: a b r [symmetric] add_mod_lead add_mod_tail del: code_char_of)
  show ?thesis
    by (subst chunks.simps) (simp add: w v del: rune_value.simps)
qed

lemma chunks_three:
  assumes "2048 \<le> r" "r < 65536" "\<not> (55296 \<le> r \<and> r \<le> 57343)"
  shows "chunks (char_of (224 + r div 4096) # char_of (128 + r div 64 mod 64) # char_of (128 + r mod 64) # s)
    = (r, [char_of (224 + r div 4096), char_of (128 + r div 64 mod 64), char_of (128 + r mod 64)]) # chunks s"
    (is "chunks (?a # ?b # ?c # s) = _")
proof -
  define q k m where "q = r div 4096" and "k = r div 64 mod 64" and "m = r mod 64"
  have r: "r = q * 4096 + k * 64 + m"
    unfolding q_def k_def m_def by (rule base64_3)
  have m: "m < 64" "k < 64" unfolding m_def k_def by simp_all
  have q: "q < 16" using r assms by linarith
  have a: "code ?a = 224 + q" and b: "code ?b = 128 + k" and c: "code ?c = 128 + m"
    using q m unfolding q_def [symmetric] k_def [symmetric] m_def [symmetric] by simp_all
  have "q = 0 \<longrightarrow> 32 \<le> k" "q = 13 \<longrightarrow> k < 32"
    using assms r m by (linarith | intro impI, linarith)+
  then have "second_ok (224 + q) ?b"
    using m q unfolding second_ok_def cont_def b by auto
  then have w: "rune_width ?a (?b # ?c # s) = 3"
    using q m by (simp add: rune_width_def cont_def a c del: code_char_of)
  have v: "rune_value [?a, ?b, ?c] = r"
    using q m by (simp add: a b c r [symmetric] add_mod_lead add_mod_tail del: code_char_of)
  show ?thesis
    by (subst chunks.simps) (simp add: w v numeral_2_eq_2 del: rune_value.simps)
qed

lemma chunks_four:
  assumes "65536 \<le> r" "r \<le> 1114111"
  shows "chunks (char_of (240 + r div 262144) # char_of (128 + r div 4096 mod 64) #
      char_of (128 + r div 64 mod 64) # char_of (128 + r mod 64) # s)
    = (r, [char_of (240 + r div 262144), char_of (128 + r div 4096 mod 64),
      char_of (128 + r div 64 mod 64), char_of (128 + r mod 64)]) # chunks s"
    (is "chunks (?a # ?b # ?c # ?d # s) = _")
proof -
  define q j k m where "q = r div 262144" and "j = r div 4096 mod 64"
    and "k = r div 64 mod 64" and "m = r mod 64"
  have r: "r = q * 262144 + j * 4096 + k * 64 + m"
    unfolding q_def j_def k_def m_def by (rule base64_4)
  have m: "m < 64" "k < 64" "j < 64" unfolding m_def k_def j_def by simp_all
  have q: "q < 5" using r assms by linarith
  have a: "code ?a = 240 + q" and b: "code ?b = 128 + j" and c: "code ?c = 128 + k"
    and d: "code ?d = 128 + m"
    using q m unfolding q_def [symmetric] j_def [symmetric] k_def [symmetric] m_def [symmetric]
    by simp_all
  have "q = 0 \<longrightarrow> 16 \<le> j" "q = 4 \<longrightarrow> j < 16"
    using assms r m by (linarith | intro impI, linarith)+
  then have "second_ok (240 + q) ?b"
    using m q unfolding second_ok_def cont_def b by auto
  then have w: "rune_width ?a (?b # ?c # ?d # s) = 4"
    using q m by (simp add: rune_width_def cont_def a c d del: code_char_of)
  have v: "rune_value [?a, ?b, ?c, ?d] = r"
    using q m by (simp add: a b c d r [symmetric] add_mod_lead add_mod_tail del: code_char_of)
  show ?thesis
    by (subst chunks.simps) (simp add: w v numeral_3_eq_3 del: rune_value.simps)
qed

lemma chunks_encode_rune: "scalar r \<Longrightarrow> chunks (encode_rune r @ s) = (r, encode_rune r) # chunks s"
proof (erule encode_rune_cases)
  assume "r < 128" "encode_rune r = [char_of r]"
  then show ?thesis by (simp add: rune_width_def)
qed (simp_all add: chunks_two chunks_three chunks_four del: chunks.simps)

lemma runes_encode_runes: "list_all scalar rs \<Longrightarrow> runes (encode_runes rs) = rs"
  unfolding runes_def encode_runes_def
  by (induction rs) (simp_all add: chunks_encode_rune)

lemma valid_encode_runes: "list_all scalar rs \<Longrightarrow> valid_utf8 (encode_runes rs)"
  unfolding valid_utf8_def encode_runes_def
  by (induction rs) (simp_all add: chunks_encode_rune)

lemma encode_runes_runes: "valid_utf8 s \<Longrightarrow> encode_runes (runes s) = s"
proof -
  assume v: "valid_utf8 s"
  have "unchunk cs = encode_runes (map fst cs)" if "list_all (\<lambda>(r, c). c = encode_rune r) cs" for cs
    using that by (induction cs) (auto simp: encode_runes_def)
  from this [of "chunks s"] v show ?thesis
    by (simp add: valid_utf8_def runes_def)
qed

lemma rune_width_2: "rune_width a s = 2 \<Longrightarrow> \<exists>b t. s = b # t \<and> 194 \<le> code a \<and> code a \<le> 223 \<and> cont b"
  by (auto simp: rune_width_def split: list.splits if_splits)

lemma rune_width_3:
  "rune_width a s = 3 \<Longrightarrow>
    \<exists>b c t. s = b # c # t \<and> 224 \<le> code a \<and> code a \<le> 239 \<and> second_ok (code a) b \<and> cont c"
  by (auto simp: rune_width_def split: list.splits if_splits)

lemma rune_width_4:
  "rune_width a s = 4 \<Longrightarrow>
    \<exists>b c d t. s = b # c # d # t \<and> 240 \<le> code a \<and> code a \<le> 244 \<and> second_ok (code a) b \<and> cont c \<and> cont d"
  by (auto simp: rune_width_def split: list.splits if_splits)

lemma rune_width_range: "rune_width a s \<in> {1, 2, 3, 4}"
  by (auto simp: rune_width_def split: list.splits)

lemma sub_mod_tail: "128 \<le> n \<Longrightarrow> n \<le> 191 \<Longrightarrow> n mod 64 = n - (128::nat)"
  using add_mod_tail [of "n - 128"] by simp

lemma second_ok_range: "second_ok n b \<Longrightarrow> 128 \<le> code b \<and> code b \<le> 191"
  by (auto simp: second_ok_def cont_def split: if_splits)

lemma scalar_rune_value: "scalar (rune_value (a # take (rune_width a s - 1) s))"
proof -
  consider "rune_width a s = 1" | "rune_width a s = 2" | "rune_width a s = 3" | "rune_width a s = 4"
    using rune_width_range [of a s] by auto
  then show ?thesis
  proof cases
    case 1
    then show ?thesis by (simp add: scalar_def rune_error_def)
  next
    case 2
    then obtain b t where s: "s = b # t" and h: "194 \<le> code a" "code a \<le> 223" "cont b"
      using rune_width_2 by blast
    have "code a mod 32 < 32" "code b mod 64 < 64" by simp_all
    then have "code a mod 32 * 64 + code b mod 64 < 2048" by linarith
    with 2 s show ?thesis by (simp add: scalar_def)
  next
    case 3
    then obtain b c t where s: "s = b # c # t"
      and h: "224 \<le> code a" "code a \<le> 239" "second_ok (code a) b" "cont c"
      using rune_width_3 by blast
    have a: "code a mod 16 = code a - 224"
      using add_mod_lead(2) [of "code a - 224"] h by simp
    have b: "code b mod 64 = code b - 128" and b': "128 \<le> code b" "code b \<le> 191"
      using second_ok_range [OF h(3)] by (simp_all add: sub_mod_tail)
    have c: "code c mod 64 < 64" by simp
    have "code a = 237 \<longrightarrow> code b \<le> 159"
      using h(3) by (auto simp: second_ok_def)
    then have "scalar ((code a - 224) * 4096 + (code b - 128) * 64 + code c mod 64)"
      unfolding scalar_def using h b' c
      by (cases "code a < 237"; cases "code a = 237") (auto; linarith)+
    with 3 s show ?thesis by (simp add: a b numeral_2_eq_2)
  next
    case 4
    then obtain b c d t where s: "s = b # c # d # t"
      and h: "240 \<le> code a" "code a \<le> 244" "second_ok (code a) b" "cont c" "cont d"
      using rune_width_4 by blast
    have a: "code a mod 8 = code a - 240"
      using add_mod_lead(3) [of "code a - 240"] h by simp
    have b: "code b mod 64 = code b - 128" and b': "128 \<le> code b" "code b \<le> 191"
      using second_ok_range [OF h(3)] by (simp_all add: sub_mod_tail)
    have cd: "code c mod 64 < 64" "code d mod 64 < 64" by simp_all
    have "code a = 240 \<longrightarrow> 144 \<le> code b" "code a = 244 \<longrightarrow> code b \<le> 143"
      using h(3) by (auto simp: second_ok_def)
    then have "scalar ((code a - 240) * 262144 + (code b - 128) * 4096 + (code c mod 64) * 64 + code d mod 64)"
      unfolding scalar_def using h b' cd
      by (cases "code a = 240"; cases "code a = 244") (auto; linarith)+
    with 4 s show ?thesis by (simp add: a b numeral_3_eq_3)
  qed
qed

lemma scalar_runes: "list_all scalar (runes s)"
  unfolding runes_def
  by (induction s rule: chunks.induct) (simp_all add: Let_def scalar_rune_value [unfolded One_nat_def] del: rune_value.simps)

lemma runes_strings_Map:
  assumes "\<And>r r'. f r = Some r' \<Longrightarrow> scalar r \<Longrightarrow> scalar r'"
  shows "runes (strings_Map f s) = List.map_filter f (runes s)"
proof -
  have "list_all scalar (List.map_filter f (runes s))"
    using scalar_runes [of s] assms
    by (auto simp: list_all_iff List.map_filter_def)
  then show ?thesis by (simp add: strings_Map_def runes_encode_runes)
qed

lemma chunks_ascii: "list_all (\<lambda>c. code c < 128) s \<Longrightarrow> chunks s = map (\<lambda>c. (code c, [c])) s"
  by (induction s) (simp_all add: rune_width_def)

lemma runes_ascii: "list_all (\<lambda>c. code c < 128) s \<Longrightarrow> runes s = map code s"
  by (simp add: runes_def chunks_ascii)

lemma valid_ascii: "list_all (\<lambda>c. code c < 128) s \<Longrightarrow> valid_utf8 s"
  by (simp add: valid_utf8_def chunks_ascii list_all_iff encode_rune_def)

section \<open>Decimal round trip\<close>

lemma digits_of_digits: "list_all is_digit (digits_of n) \<and> digits_of n \<noteq> []"
proof (induction n rule: digits_of.induct)
  case (1 n)
  then show ?case
    by (subst (1 2) digits_of.simps) (auto simp: is_digit_def list_all_iff)
qed

lemma digits_value_snoc: "digits_value (s @ [c]) = 10 * digits_value s + (code c - 48)"
  by (simp add: digits_value_def)

lemma digits_value_digits_of: "digits_value (digits_of n) = n"
proof (induction n rule: digits_of.induct)
  case (1 n)
  then show ?case
    by (subst digits_of.simps) (auto simp: digits_value_snoc digits_value_def)
qed

lemma hd_digits_of: "is_digit (hd (digits_of n))"
  using digits_of_digits [of n] by (cases "digits_of n") auto

lemma parse_show_int: "- (2 ^ 63) \<le> n \<Longrightarrow> n < 2 ^ 63 \<Longrightarrow> parse_int64 (show_int n) = Some n"
proof -
  assume n: "- (2 ^ 63) \<le> n" "n < 2 ^ 63"
  have sign: "hd (digits_of (nat n)) \<noteq> CHR 0x2D" "hd (digits_of (nat n)) \<noteq> CHR 0x2B"
    using hd_digits_of [of "nat n"] by (auto simp: is_digit_def code_def)
  show ?thesis
    using n sign digits_of_digits [of "nat n"] digits_of_digits [of "nat (- n)"]
    by (auto simp: parse_int64_def show_int_def Let_def digits_value_digits_of)
qed

lemma show_int_inj: "show_int a = show_int b \<Longrightarrow> - (2 ^ 63) \<le> a \<Longrightarrow> a < 2 ^ 63 \<Longrightarrow>
    - (2 ^ 63) \<le> b \<Longrightarrow> b < 2 ^ 63 \<Longrightarrow> a = b"
  by (metis parse_show_int option.inject)

lemma HasPrefix_iff: "HasPrefix s p \<longleftrightarrow> prefix p s"
  unfolding HasPrefix_def
  by (metis append_eq_conv_conj prefix_def prefixE take_is_prefix)

lemma HasSuffix_iff: "HasSuffix s p \<longleftrightarrow> suffix p s"
  unfolding HasSuffix_def suffix_def
  by (metis append_eq_conv_conj append_take_drop_id diff_diff_cancel length_append length_drop le_add2 add_diff_cancel_right')

lemma HasPrefix_append [simp, string_simps]: "HasPrefix (p @ s) p"
  by (simp add: HasPrefix_def)

lemma HasSuffix_append [simp, string_simps]: "HasSuffix (s @ p) p"
  by (simp add: HasSuffix_def)

lemma TrimSuffix_append [simp, string_simps]: "TrimSuffix (s @ p) p = s"
  by (simp add: TrimSuffix_def)

lemma TrimPrefix_append [simp, string_simps]: "TrimPrefix (p @ s) p = s"
  by (simp add: TrimPrefix_def)

end
