(* ===== verification/Regex.thy ===== *)
theory Regex
  imports Go_Strings
begin

text \<open>
  The fragment of Go's \<open>regexp\<close> package the sources use, over the runes of the subject:
  character classes, concatenation, ordered alternation, greedy and lazy repetition, \<open>^\<close>, \<open>$\<close>
  and \<open>\b\<close>. A position is a pair of the runes before it (reversed) and the runes after it.
  \<open>ends r p\<close> lists the end positions of the matches of \<open>r\<close> at \<open>p\<close> in the order of preference
  of a leftmost-first matcher, so its head is the match Go reports; \<open>matches\<close> is the declarative
  reading, and \<open>ends_iff\<close> relates them. An iteration of a repetition that consumes nothing is
  dropped; no pattern of the sources repeats an expression that matches the empty string.
\<close>

datatype re =
    Eps
  | Cls bool "(rune \<times> rune) list"   \<comment> \<open>negated?, ranges\<close>
  | Seq re re
  | Alt re re
  | Star bool re                    \<comment> \<open>greedy?\<close>
  | Bot                             \<comment> \<open>\<open>^\<close>, \<open>\A\<close>\<close>
  | Eot                             \<comment> \<open>\<open>$\<close>, \<open>\z\<close>\<close>
  | WordB                           \<comment> \<open>\<open>\b\<close>\<close>

type_synonym pos = "rune list \<times> rune list"

definition in_cls :: "bool \<Rightarrow> (rune \<times> rune) list \<Rightarrow> rune \<Rightarrow> bool" where
  "in_cls neg rs x \<longleftrightarrow> neg \<noteq> list_ex (\<lambda>(a, b). a \<le> x \<and> x \<le> b) rs"

definition is_word :: "rune \<Rightarrow> bool" where
  "is_word r \<longleftrightarrow> (48 \<le> r \<and> r \<le> 57) \<or> (65 \<le> r \<and> r \<le> 90) \<or> r = 95 \<or> (97 \<le> r \<and> r \<le> 122)"

definition head_word :: "rune list \<Rightarrow> bool" where
  "head_word xs \<longleftrightarrow> (case xs of [] \<Rightarrow> False | x # _ \<Rightarrow> is_word x)"

function ends :: "re \<Rightarrow> pos \<Rightarrow> pos list" where
  "ends Eps p = [p]"
| "ends (Cls neg rs) p =
     (case snd p of [] \<Rightarrow> [] | x # xs \<Rightarrow> if in_cls neg rs x then [(x # fst p, xs)] else [])"
| "ends (Seq a b) p = concat (map (\<lambda>q. ends b q) (ends a p))"
| "ends (Alt a b) p = ends a p @ ends b p"
| "ends (Star greedy a) p =
     (let more = concat (map (\<lambda>q. if length (snd q) < length (snd p)
                                  then ends (Star greedy a) q else []) (ends a p))
      in if greedy then more @ [p] else p # more)"
| "ends Bot p = (if fst p = [] then [p] else [])"
| "ends Eot p = (if snd p = [] then [p] else [])"
| "ends WordB p = (if head_word (fst p) \<noteq> head_word (snd p) then [p] else [])"
  by pat_completeness auto
termination
  by (relation "measures [\<lambda>(r, p). size r, \<lambda>(r, p). length (snd p)]") auto

inductive matches :: "re \<Rightarrow> pos \<Rightarrow> pos \<Rightarrow> bool" where
  Eps: "matches Eps p p"
| Cls: "in_cls neg rs x \<Longrightarrow> matches (Cls neg rs) (l, x # xs) (x # l, xs)"
| Seq: "matches a p q \<Longrightarrow> matches b q t \<Longrightarrow> matches (Seq a b) p t"
| AltL: "matches a p q \<Longrightarrow> matches (Alt a b) p q"
| AltR: "matches b p q \<Longrightarrow> matches (Alt a b) p q"
| Star0: "matches (Star greedy a) p p"
| Star1: "matches a p q \<Longrightarrow> length (snd q) < length (snd p) \<Longrightarrow> matches (Star greedy a) q t \<Longrightarrow>
    matches (Star greedy a) p t"
| Bot: "matches Bot ([], xs) ([], xs)"
| Eot: "matches Eot (l, []) (l, [])"
| WordB: "head_word l \<noteq> head_word xs \<Longrightarrow> matches WordB (l, xs) (l, xs)"

inductive_cases EpsE [elim!]: "matches Eps p q"
inductive_cases ClsE [elim!]: "matches (Cls neg rs) p q"
inductive_cases SeqE [elim!]: "matches (Seq a b) p q"
inductive_cases AltE [elim!]: "matches (Alt a b) p q"
inductive_cases StarE: "matches (Star greedy a) p q"
inductive_cases BotE [elim!]: "matches Bot p q"
inductive_cases EotE [elim!]: "matches Eot p q"
inductive_cases WordBE [elim!]: "matches WordB p q"

text \<open>Leftmost search, \<open>MatchString\<close> and \<open>ReplaceAllString\<close> for patterns that consume input.\<close>

fun search_from :: "re \<Rightarrow> rune list \<Rightarrow> rune list \<Rightarrow> (pos \<times> pos) option" where
  "search_from r l [] = (case ends r (l, []) of [] \<Rightarrow> None | q # _ \<Rightarrow> Some ((l, []), q))"
| "search_from r l (x # xs) =
     (case ends r (l, x # xs) of [] \<Rightarrow> search_from r (x # l) xs | q # _ \<Rightarrow> Some ((l, x # xs), q))"

definition match_runes :: "re \<Rightarrow> rune list \<Rightarrow> bool" where
  "match_runes r xs \<longleftrightarrow> search_from r [] xs \<noteq> None"

definition MatchString :: "re \<Rightarrow> string \<Rightarrow> bool" where
  "MatchString r s \<longleftrightarrow> match_runes r (runes s)"

lemma search_from_len: "search_from r l xs = Some ((l', ys), q) \<Longrightarrow> length ys \<le> length xs"
  by (induction r l xs rule: search_from.induct) (auto split: list.splits)

function replace_from :: "re \<Rightarrow> rune list \<Rightarrow> rune list \<Rightarrow> rune list \<Rightarrow> rune list" where
  "replace_from r rep l xs =
     (case search_from r l xs of
        None \<Rightarrow> xs
      | Some ((l1, ys), (l2, zs)) \<Rightarrow>
          if length zs < length ys
          then take (length xs - length ys) xs @ rep @ replace_from r rep l2 zs
          else xs)"
  by pat_completeness auto
termination
  by (relation "measure (\<lambda>(r, rep, l, xs). length xs)") (auto dest: search_from_len)

declare replace_from.simps [simp del]

definition ReplaceAll :: "re \<Rightarrow> rune list \<Rightarrow> rune list \<Rightarrow> rune list" where
  "ReplaceAll r rep xs = replace_from r rep [] xs"

section \<open>Notation of the patterns\<close>

definition rx :: "char \<Rightarrow> re" where
  "rx c = Cls False [(code c, code c)]"

fun lits :: "string \<Rightarrow> re" where
  "lits [] = Eps"
| "lits [c] = rx c"
| "lits (c # d # s) = Seq (rx c) (lits (d # s))"

text \<open>A literal under \<open>(?i)\<close>: both ASCII cases, and the runes that fold to k and s.\<close>

definition ifold :: "char \<Rightarrow> (rune \<times> rune) list" where
  "ifold c =
     (let n = code c; lo = (if 65 \<le> n \<and> n \<le> 90 then n + 32 else n) in
      if 97 \<le> lo \<and> lo \<le> 122
      then [(lo, lo), (lo - 32, lo - 32)] @
           (if lo = 107 then [(8490, 8490)] else if lo = 115 then [(383, 383)] else [])
      else [(n, n)])"

definition irx :: "char \<Rightarrow> re" where
  "irx c = Cls False (ifold c)"

fun ilits :: "string \<Rightarrow> re" where
  "ilits [] = Eps"
| "ilits [c] = irx c"
| "ilits (c # d # s) = Seq (irx c) (ilits (d # s))"

fun seqs :: "re list \<Rightarrow> re" where
  "seqs [] = Eps"
| "seqs [r] = r"
| "seqs (r # s # rs) = Seq r (seqs (s # rs))"

fun alts :: "re list \<Rightarrow> re" where
  "alts [] = Cls False []"
| "alts [r] = r"
| "alts (r # s # rs) = Alt r (alts (s # rs))"

definition words :: "string list \<Rightarrow> re" where
  "words ws = alts (map lits ws)"

definition iwords :: "string list \<Rightarrow> re" where
  "iwords ws = alts (map ilits ws)"

definition ropt :: "re \<Rightarrow> re" where "ropt r = Alt r Eps"
definition rstar :: "re \<Rightarrow> re" where "rstar r = Star True r"
definition rplus :: "re \<Rightarrow> re" where "rplus r = Seq r (Star True r)"
definition sp :: re where "sp = Cls False [(9, 10), (12, 13), (32, 32)]"
definition nonsp :: re where "nonsp = Cls True [(9, 10), (12, 13), (32, 32)]"
definition dot :: re where "dot = Cls True [(10, 10)]"
definition anyc :: re where "anyc = Cls True []"

lemmas re_defs = words_def iwords_def ropt_def rstar_def rplus_def sp_def nonsp_def dot_def anyc_def
  rx_def irx_def ifold_def

section \<open>The matcher and its declarative reading\<close>

lemma ends_Star:
  "q \<in> set (ends (Star greedy a) p) \<longleftrightarrow>
    q = p \<or> (\<exists>t \<in> set (ends a p). length (snd t) < length (snd p) \<and> q \<in> set (ends (Star greedy a) t))"
  by (subst ends.simps(5)) (auto simp: Let_def simp del: ends.simps split: if_splits)

declare ends.simps(5) [simp del]

lemma ends_matches: "q \<in> set (ends r p) \<Longrightarrow> matches r p q"
proof (induction r p arbitrary: q rule: ends.induct)
  case (5 greedy a p)
  consider "q = p"
    | t where "t \<in> set (ends a p)" "length (snd t) < length (snd p)" "q \<in> set (ends (Star greedy a) t)"
    using iffD1 [OF ends_Star 5(3)] by blast
  then show ?case
  proof cases
    case 1
    then show ?thesis by (simp add: matches.Star0)
  next
    case 2
    with 5(1,2) show ?thesis by (blast intro: matches.Star1)
  qed
next
  case (2 neg rs p)
  then show ?case
    by (cases p) (auto split: list.splits if_splits intro: matches.Cls)
next
  case (3 a b p)
  from 3(3) obtain t where "t \<in> set (ends a p)" "q \<in> set (ends b t)" by auto
  with 3(1,2) show ?case by (blast intro: matches.Seq)
next
  case (6 p)
  then show ?case by (cases p) (auto split: if_splits intro: matches.Bot)
next
  case (7 p)
  then show ?case by (cases p) (auto split: if_splits intro: matches.Eot)
next
  case (8 p)
  then show ?case by (cases p) (auto split: if_splits intro: matches.WordB)
qed (auto intro: matches.Eps matches.Seq matches.AltL matches.AltR)

lemma matches_ends: "matches r p q \<Longrightarrow> q \<in> set (ends r p)"
proof (induction rule: matches.induct)
  case (Star0 greedy a p)
  show ?case by (rule iffD2 [OF ends_Star]) simp
next
  case (Star1 a p q greedy t)
  then show ?case by (intro iffD2 [OF ends_Star [of t greedy a p]]) blast
qed auto

theorem ends_iff: "q \<in> set (ends r p) \<longleftrightarrow> matches r p q"
  using ends_matches matches_ends by blast

text \<open>A match consumes a prefix of what follows its start.\<close>

lemma matches_shift: "matches r p q \<Longrightarrow> \<exists>w. snd p = w @ snd q \<and> fst q = rev w @ fst p"
proof (induction rule: matches.induct)
  case (Seq a p q b t)
  then obtain v w where "snd p = v @ snd q" "fst q = rev v @ fst p" "snd q = w @ snd t" "fst t = rev w @ fst q"
    by blast
  then show ?case by (intro exI [of _ "v @ w"]) simp
next
  case (Star1 a p q greedy t)
  then obtain v w where "snd p = v @ snd q" "fst q = rev v @ fst p" "snd q = w @ snd t" "fst t = rev w @ fst q"
    by blast
  then show ?case by (intro exI [of _ "v @ w"]) simp
qed auto

lemma search_from_None:
  "search_from r l xs = None \<longleftrightarrow> (\<forall>u v q. xs = u @ v \<longrightarrow> \<not> matches r (rev u @ l, v) q)"
proof (induction r l xs rule: search_from.induct)
  case (1 r l)
  then show ?case by (auto simp: ends_iff [symmetric] split: list.splits)
next
  case (2 r l x xs)
  show ?case
  proof (cases "ends r (l, x # xs)")
    case Nil
    then have no: "\<not> matches r (l, x # xs) q" for q
      by (simp add: ends_iff [symmetric])
    have "(\<forall>u v q. x # xs = u @ v \<longrightarrow> \<not> matches r (rev u @ l, v) q) \<longleftrightarrow>
        (\<forall>u v q. xs = u @ v \<longrightarrow> \<not> matches r (rev u @ x # l, v) q)"
    proof (intro iffI allI impI)
      fix u v q
      assume "\<forall>u v q. x # xs = u @ v \<longrightarrow> \<not> matches r (rev u @ l, v) q" "xs = u @ v"
      from this(1) [rule_format, of "x # u" v q] this(2) show "\<not> matches r (rev u @ x # l, v) q"
        by simp
    next
      fix u v q
      assume "\<forall>u v q. xs = u @ v \<longrightarrow> \<not> matches r (rev u @ x # l, v) q" "x # xs = u @ v"
      with no show "\<not> matches r (rev u @ l, v) q" by (cases u; cases q) auto
    qed
    with Nil 2 show ?thesis by simp
  next
    case (Cons q qs)
    then have "matches r (l, x # xs) q" by (simp add: ends_iff [symmetric])
    then have "\<exists>u v q. x # xs = u @ v \<and> matches r (rev u @ l, v) q"
      by (intro exI [of _ "[]"] exI [of _ "x # xs"] exI [of _ q]) simp
    with Cons show ?thesis by simp
  qed
qed

theorem match_runes_iff: "match_runes r xs \<longleftrightarrow> (\<exists>u v q. xs = u @ v \<and> matches r (rev u, v) q)"
  by (auto simp: match_runes_def search_from_None)

lemma match_runesI: "matches r (l, v) q \<Longrightarrow> l = rev u \<Longrightarrow> xs = u @ v \<Longrightarrow> match_runes r xs"
  unfolding match_runes_iff by (intro exI [of _ u] exI [of _ v] exI [of _ q]) simp

text \<open>A search for a class finds exactly a rune of the class.\<close>

lemma match_class: "match_runes (Cls neg rs) xs \<longleftrightarrow> list_ex (in_cls neg rs) xs"
proof
  assume "match_runes (Cls neg rs) xs"
  then show "list_ex (in_cls neg rs) xs"
    by (auto simp: match_runes_iff list_ex_iff)
next
  assume "list_ex (in_cls neg rs) xs"
  then obtain x u v where "in_cls neg rs x" "xs = u @ x # v"
    by (auto simp: list_ex_iff dest: split_list)
  then show "match_runes (Cls neg rs) xs"
    unfolding match_runes_iff by (blast intro: matches.Cls)
qed

lemma match_alt: "match_runes (Alt a b) xs \<longleftrightarrow> match_runes a xs \<or> match_runes b xs"
  unfolding match_runes_iff by (blast intro: matches.AltL matches.AltR)

end
