(* ===== verification/Diagnostic.thy ===== *)
theory Diagnostic
  imports Regex
begin

text \<open>
  \<open>skills/run_diagnostic_command/run_diagnostic_command.go\<close>: the gate for commands a model may run
  unattended. The first token must be allowlisted (or be a read-only PowerShell cmdlet) and the whole
  command must match none of the deny patterns. Running the shell is a parameter; the model of the
  tool returns the commands it hands to it, so that \<^emph>\<open>rejected means not executed\<close> can be stated.
\<close>

section \<open>Layer 1: the allowlist\<close>

definition firstToken :: "string \<Rightarrow> string" where
  "firstToken cmd = (case Fields cmd of [] \<Rightarrow> '''' | f # _ \<Rightarrow> ToLower f)"

definition readOnlyVerbs :: "string list" where
  "readOnlyVerbs = [''get'', ''measure'', ''select'', ''sort'', ''format'', ''compare'',
     ''find'', ''resolve'', ''test'', ''where'', ''foreach'', ''show'', ''read'',
     ''search'', ''convertto'', ''convertfrom'', ''out'', ''tee'']"

definition isPowerShellReadOnlyCmdlet :: "string \<Rightarrow> bool" where
  "isPowerShellReadOnlyCmdlet token =
     (case index_byte CHR ''-'' token of
        None \<Rightarrow> False
      | Some idx \<Rightarrow>
          if idx < 1 \<or> idx = length token - 1 then False
          else take idx token \<in> set readOnlyVerbs)"

definition diagnosticAllowlist :: "string list" where
  "diagnosticAllowlist =
     [''ps'', ''top'', ''htop'', ''pgrep'', ''pstree'', ''pidstat'',
      ''df'', ''du'', ''ls'', ''find'', ''stat'', ''file'', ''lsblk'', ''blkid'', ''findmnt'', ''mount'',
      ''grep'', ''egrep'', ''fgrep'', ''rgrep'', ''cat'', ''head'', ''tail'', ''less'', ''more'',
      ''awk'', ''sed'', ''sort'', ''uniq'', ''wc'', ''cut'', ''tr'', ''xargs'', ''column'',
      ''ss'', ''netstat'', ''ip'', ''ifconfig'', ''lsof'', ''ping'', ''traceroute'', ''tracepath'', ''mtr'',
      ''nslookup'', ''dig'', ''host'', ''curl'', ''wget'',
      ''journalctl'', ''dmesg'',
      ''uname'', ''hostname'', ''uptime'', ''free'', ''vmstat'', ''iostat'', ''mpstat'', ''sar'', ''dstat'',
      ''lscpu'', ''lspci'', ''lsusb'', ''dmidecode'', ''lsmod'', ''modinfo'',
      ''who'', ''w'', ''last'', ''lastlog'', ''id'', ''getent'',
      ''rpm'', ''dpkg'', ''apt-cache'', ''apt'', ''dnf'', ''yum'',
      ''systemctl'', ''service'',
      ''docker'', ''podman'', ''podman-compose'', ''docker-compose'', ''nerdctl'', ''crictl'',
      ''kubectl'', ''helm'', ''virsh'',
      ''smartctl'', ''hdparm'', ''nvme'',
      ''nfsstat'', ''nfsmount'', ''showmount'', ''mountstats'',
      ''date'', ''env'', ''printenv'', ''which'', ''whereis'', ''type'',
      ''powershell'', ''powershell.exe'', ''cmd'', ''cmd.exe'', ''wmic'', ''tasklist'', ''netsh'',
      ''ipconfig'', ''systeminfo'', ''sc'', ''wevtutil'', ''qwinsta'', ''query'']"

section \<open>Layer 2: the deny patterns\<close>

record denyPattern =
  dp_re :: re
  dp_reason :: string

definition deny :: "re \<Rightarrow> string \<Rightarrow> denyPattern" where
  "deny r why = \<lparr>dp_re = r, dp_reason = why\<rparr>"

definition wsp :: re where "wsp = rplus sp"
definition word :: "string \<Rightarrow> re" where "word w = seqs [WordB, lits w, WordB]"

definition shellPatterns :: "denyPattern list" where
  "shellPatterns =
     [deny (Seq (Alt Bot (Cls True [(60, 60), (48, 57)])) (Seq (rx CHR ''>'') (ropt (rx CHR ''>''))))
        ''output redirect writes to a file'',
      deny (Seq (rx CHR ''$'') (rx CHR ''('')) (''subshell execution via $('' @ ellipsis @ '')''),
      deny (rx CHR 0x60) ''subshell execution via backtick'',
      deny (seqs [rx CHR ''|'', rstar sp, words [''sh'', ''bash'', ''zsh'', ''dash'', ''ksh'', ''csh'', ''tcsh''], WordB])
        ''pipe to a shell interpreter'',
      deny (seqs [word ''find'', rplus dot, sp, rx CHR ''-'', words [''exec'', ''execdir'', ''delete''], WordB])
        ''find -exec / -execdir / -delete modifies the filesystem'',
      deny (seqs [word ''xargs'', rplus dot, WordB, words [''rm'', ''rmdir'', ''unlink'', ''shred'', ''truncate''], WordB])
        ''xargs piped to a destructive command'']"

definition systemctlVerbs :: "string list" where
  "systemctlVerbs = [''start'', ''stop'', ''restart'', ''reload'', ''enable'', ''disable'', ''mask'', ''unmask'',
     ''kill'', ''reset-failed'', ''set-property'', ''edit'']"

definition servicePatterns :: "denyPattern list" where
  "servicePatterns =
     [deny (seqs [word ''systemctl'', wsp, words systemctlVerbs, WordB])
        ''systemctl subcommand modifies service state'',
      deny (seqs [word ''service'', wsp, rplus nonsp, wsp,
          words [''start'', ''stop'', ''restart'', ''reload'', ''force-reload''], WordB])
        ''service command modifies service state'']"

definition packagePatterns :: "denyPattern list" where
  "packagePatterns =
     [deny (seqs [WordB, lits ''apt'', ropt (lits ''-get''), WordB, wsp,
          words [''install'', ''upgrade'', ''dist-upgrade'', ''full-upgrade'', ''remove'', ''purge'', ''autoremove''], WordB])
        ''apt/apt-get modifies installed packages'',
      deny (seqs [WordB, words [''dnf'', ''yum''], WordB, wsp,
          words [''install'', ''update'', ''upgrade'', ''remove'', ''erase'', ''autoremove'', ''swap'', ''distro-sync''], WordB])
        ''dnf/yum modifies installed packages'',
      deny (seqs [word ''dpkg'', wsp,
          words [''-i'', ''--install'', ''-r'', ''--remove'', ''-P'', ''--purge'', ''--configure'', ''--unpack''], WordB])
        ''dpkg modifies installed packages'',
      deny (seqs [word ''rpm'', wsp,
          words [''-i'', ''-U'', ''-F'', ''-e'', ''--install'', ''--upgrade'', ''--freshen'', ''--erase''], WordB])
        ''rpm modifies installed packages'',
      deny (seqs [word ''sed'', wsp, rstar (Seq (rplus nonsp) wsp), lits ''-i'', WordB])
        ''sed -i edits files in place'']"

definition transferPatterns :: "denyPattern list" where
  "transferPatterns =
     [deny (seqs [word ''curl'', rplus dot, lits ''-X'', rstar sp, words [''POST'', ''PUT'', ''DELETE'', ''PATCH''], WordB])
        ''curl -X flag with mutation method'',
      deny (seqs [word ''curl'', rplus dot, lits ''--'',
          alts [lits ''upload-file'', Seq (lits ''data'') (ropt (words [''-raw'', ''-binary'', ''-urlencode''])), lits ''json''],
          WordB])
        ''curl long-form flag indicates a write or upload request'',
      deny (seqs [word ''curl'', rstar dot, sp, rx CHR ''-'', Cls False [(100, 100), (84, 84), (70, 70)],
          Cls False [(9, 10), (12, 13), (32, 32), (61, 61)]])
        ''curl -d/-T/-F flag indicates a write or upload request'',
      deny (seqs [word ''wget'', rplus dot, lits ''--'',
          alts [lits ''post-data'', lits ''post-file'', Seq (lits ''method='') (words [''POST'', ''PUT'', ''DELETE''])]])
        ''wget flag indicates a write request'']"

definition containerPatterns :: "denyPattern list" where
  "containerPatterns =
     [deny (seqs [WordB, words [''docker'', ''podman'', ''nerdctl'', ''crictl''], wsp,
          alts (map lits [''run'', ''create'', ''start'', ''stop'', ''restart'', ''kill'', ''pause'', ''unpause'',
                 ''rm'', ''rmi'', ''exec'', ''build'', ''commit'', ''tag'', ''push'',
                 ''cp'', ''rename'', ''update'', ''login'', ''logout''] @
               [seqs [lits ''system'', wsp, lits ''prune''],
                seqs [lits ''container'', wsp, lits ''prune''],
                seqs [lits ''image'', wsp, words [''rm'', ''prune'', ''build'', ''push'', ''import'', ''load'']],
                seqs [lits ''network'', wsp, words [''create'', ''rm'', ''connect'', ''disconnect'', ''prune'']],
                seqs [lits ''volume'', wsp, words [''create'', ''rm'', ''prune'']]]),
          WordB])
        ''docker/podman subcommand modifies container or image state'',
      deny (seqs [WordB, words [''docker-compose'', ''podman-compose''], wsp,
          words [''up'', ''down'', ''start'', ''stop'', ''restart'', ''kill'', ''rm'', ''build'', ''push'', ''pull'',
            ''create'', ''run'', ''exec''], WordB])
        ''docker-compose/podman-compose subcommand modifies service state'',
      deny (seqs [WordB, lits ''kubectl'', wsp,
          alts (map lits [''apply'', ''create'', ''delete'', ''replace'', ''patch'', ''edit'', ''label'', ''annotate'',
                 ''scale'', ''taint'', ''drain'', ''cordon'', ''uncordon'', ''exec'', ''cp''] @
               [seqs [lits ''rollout'', wsp, words [''restart'', ''undo'']],
                seqs [lits ''set'', wsp, words [''image'', ''env'', ''resources'', ''selector'', ''serviceaccount'']]]),
          WordB])
        ''kubectl subcommand modifies cluster state'',
      deny (seqs [WordB, lits ''helm'', wsp,
          alts [lits ''install'', lits ''upgrade'', lits ''uninstall'', lits ''rollback'',
            seqs [lits ''repo'', wsp, lits ''add''], seqs [lits ''repo'', wsp, lits ''remove''],
            lits ''push'', lits ''package''],
          WordB])
        ''helm subcommand modifies release state'']"

definition windowsPatterns :: "denyPattern list" where
  "windowsPatterns =
     [deny (seqs [WordB, iwords [''Set'', ''Remove'', ''New'', ''Add'', ''Clear'', ''Copy'', ''Move'', ''Rename''], irx CHR ''-'',
          iwords [''Item'', ''Content'', ''Property'', ''Location'', ''Acl''], WordB])
        ''PowerShell cmdlet modifies filesystem or registry state'',
      deny (seqs [WordB, iwords [''Start'', ''Stop'', ''Restart'', ''Suspend'', ''Resume''], irx CHR ''-'',
          iwords [''Service'', ''Process''], WordB])
        ''PowerShell cmdlet modifies service or process state'',
      deny (seqs [WordB, iwords [''Install'', ''Uninstall''], irx CHR ''-'',
          iwords [''Module'', ''Package'', ''WindowsFeature'', ''WindowsOptionalFeature'', ''Script''], WordB])
        ''PowerShell cmdlet modifies installed packages or features'',
      deny (seqs [WordB, ilits ''Out-File'', WordB]) ''Out-File writes to a file'',
      deny (seqs [WordB, iwords [''Invoke-Expression'', ''iex''], WordB]) ''Invoke-Expression executes arbitrary code'',
      deny (seqs [WordB, ilits ''Set-ExecutionPolicy'', WordB])
        ''Set-ExecutionPolicy changes the PowerShell execution policy'',
      deny (seqs [WordB, lits ''sc'', ropt (lits ''.exe''), wsp,
          words [''start'', ''stop'', ''create'', ''delete'', ''config'', ''failure'', ''pause'', ''continue''], WordB])
        ''sc.exe subcommand modifies service state'']"

definition machinePatterns :: "denyPattern list" where
  "machinePatterns =
     [deny (seqs [word ''smartctl'', rstar dot, sp, rx CHR ''-'',
          Cls False [(116, 116), (115, 115), (84, 84), (111, 111), (83, 83)], WordB])
        ''smartctl flag triggers a drive self-test or changes SMART settings'',
      deny (seqs [WordB, lits ''virsh'', wsp,
          alts (map lits [''start'', ''shutdown'', ''destroy'', ''reboot'', ''reset'', ''suspend'', ''resume'',
                 ''create'', ''define'', ''undefine'', ''migrate''] @
               [Seq (lits ''attach-'') (words [''device'', ''disk'', ''interface'']),
                Seq (lits ''detach-'') (words [''device'', ''disk'', ''interface''])] @
               map lits [''snapshot-create'', ''snapshot-delete'', ''snapshot-revert'',
                 ''vol-create'', ''vol-delete'', ''vol-clone'',
                 ''net-start'', ''net-destroy'', ''net-define'', ''net-undefine'',
                 ''pool-start'', ''pool-destroy'', ''pool-define'', ''pool-undefine'']),
          WordB])
        ''virsh subcommand modifies VM or network state'']"

definition denyPatterns :: "denyPattern list" where
  "denyPatterns = shellPatterns @ servicePatterns @ packagePatterns @ transferPatterns @
     containerPatterns @ windowsPatterns @ machinePatterns"

section \<open>The check and the tool\<close>

datatype rejection =
    EmptyCommand
  | NotDiagnostic string     \<comment> \<open>echo and its PowerShell equivalents\<close>
  | NotAllowlisted string
  | Forbidden string         \<comment> \<open>the reason of the first deny pattern that matches\<close>

definition validateCommand :: "string \<Rightarrow> rejection option" where
  "validateCommand cmd =
     (let first = firstToken cmd in
      if first \<in> set [''echo'', ''write-output'', ''write-host''] then Some (NotDiagnostic first)
      else if first \<notin> set diagnosticAllowlist \<and> \<not> isPowerShellReadOnlyCmdlet first
      then Some (NotAllowlisted first)
      else map_option (\<lambda>p. Forbidden (dp_reason p)) (find_first (\<lambda>p. MatchString (dp_re p) cmd) denyPatterns))"

definition IsDiagnosticEligible :: "string \<Rightarrow> bool" where
  "IsDiagnosticEligible cmd \<longleftrightarrow> validateCommand cmd = None"

text \<open>
  The tool. \<open>runShell c\<close> is the combined output of the shell and the text of its error, if any. The
  first component of the result lists the commands passed to the shell.
\<close>

definition run_diagnostic_command ::
    "(string \<Rightarrow> string \<times> string option) \<Rightarrow> string \<Rightarrow> string list \<times> (rejection + string)" where
  "run_diagnostic_command runShell command =
     (let cmd = TrimSpace command in
      if cmd = '''' then ([], Inl EmptyCommand)
      else case validateCommand cmd of
        Some err \<Rightarrow> ([], Inl err)
      | None \<Rightarrow>
          let (out, execErr) = runShell cmd; output = trim_right_nl out in
          ([cmd],
           Inr (case execErr of
                  Some e \<Rightarrow> if output \<noteq> '''' then ''Command failed ('' @ e @ ''):'' @ nl @ output
                            else ''Command failed: '' @ e
                | None \<Rightarrow> if output = '''' then ''Command completed with no output.'' else output)))"

section \<open>Lemmas\<close>

lemma not_denied:
  "validateCommand cmd = None \<Longrightarrow> p \<in> set denyPatterns \<Longrightarrow> \<not> match_runes (dp_re p) (runes cmd)"
  by (auto simp: validateCommand_def Let_def MatchString_def split: if_splits)

lemma denied:
  assumes "p \<in> set denyPatterns" "match_runes (dp_re p) (runes cmd)"
  shows "validateCommand cmd \<noteq> None"
  using assms not_denied by blast

lemma matches_rx: "code c = n \<Longrightarrow> matches (rx c) (l, n # v) (n # l, v)"
  unfolding rx_def by (rule matches.Cls) (simp add: in_cls_def)

lemma no_redirect:
  assumes "validateCommand cmd = None" "runes cmd = u @ 62 # v"
  shows "u \<noteq> [] \<and> (last u = 60 \<or> (48 \<le> last u \<and> last u \<le> 57))"
proof (rule ccontr)
  assume neg: "\<not> ?thesis"
  define g where "g = Seq (rx CHR ''>'') (ropt (rx CHR ''>''))"
  have gt: "matches g (l, 62 # v) (62 # l, v)" for l
    unfolding g_def
    by (rule matches.Seq [OF matches_rx])
       (simp_all add: code_def ropt_def matches.AltR matches.Eps)
  have "match_runes (Seq (Alt Bot (Cls True [(60, 60), (48, 57)])) g) (runes cmd)"
  proof (cases "u = []")
    case True
    with assms(2) matches.Seq [OF matches.AltL [OF matches.Bot] gt [of "[]"]] show ?thesis
      by (intro match_runesI [where u = "[]"]) simp_all
  next
    case False
    then obtain a x where u: "u = a @ [x]" by (metis rev_exhaust)
    with neg have "in_cls True [(60, 60), (48, 57)] x" by (auto simp: in_cls_def)
    from matches.Seq [OF matches.AltR [OF matches.Cls [OF this]] gt [of "x # rev a"]] u assms(2)
    show ?thesis by (intro match_runesI [where u = a]) simp_all
  qed
  with not_denied [OF assms(1), of "denyPatterns ! 0"] show False
    by (simp add: denyPatterns_def shellPatterns_def deny_def g_def)
qed

lemma no_subshell:
  assumes "validateCommand cmd = None"
  shows "96 \<notin> set (runes cmd)" "runes cmd \<noteq> u @ 36 # 40 # v"
proof -
  have "\<not> match_runes (rx CHR 0x60) (runes cmd)"
    using not_denied [OF assms, of "denyPatterns ! 2"] by (simp add: denyPatterns_def shellPatterns_def deny_def)
  then show "96 \<notin> set (runes cmd)"
    by (auto simp: rx_def match_class list_ex_iff in_cls_def code_def)
  have no: "\<not> match_runes (Seq (rx CHR ''$'') (rx CHR ''('')) (runes cmd)"
    using not_denied [OF assms, of "denyPatterns ! 1"] by (simp add: denyPatterns_def shellPatterns_def deny_def)
  show "runes cmd \<noteq> u @ 36 # 40 # v"
  proof
    assume "runes cmd = u @ 36 # 40 # v"
    moreover have "matches (Seq (rx CHR ''$'') (rx CHR ''('')) (rev u, 36 # 40 # v) (40 # 36 # rev u, v)"
      by (rule matches.Seq [OF matches_rx matches_rx]) (simp_all add: code_def)
    ultimately show False using no match_runesI [where u = u] by simp
  qed
qed

text \<open>Positive facts on patterns built from words.\<close>

lemma matches_lits: "w \<noteq> [] \<Longrightarrow> matches (lits w) (l, map code w @ v) (rev (map code w) @ l, v)"
proof (induction w arbitrary: l rule: lits.induct)
  case (2 c)
  show ?case by (simp add: matches_rx)
next
  case (3 c d s)
  show ?case
    using matches.Seq [OF matches_rx [OF refl] 3(1)] by simp
qed simp

lemma matches_alts: "r \<in> set rs \<Longrightarrow> matches r p q \<Longrightarrow> matches (alts rs) p q"
  by (induction rs rule: alts.induct) (auto intro: matches.AltL matches.AltR)

lemma matches_words:
  "w \<in> set ws \<Longrightarrow> w \<noteq> [] \<Longrightarrow> matches (words ws) (l, map code w @ v) (rev (map code w) @ l, v)"
  unfolding words_def by (rule matches_alts [OF _ matches_lits]) auto

lemma matches_star_class:
  "list_all (in_cls neg rs) xs \<Longrightarrow> matches (Star True (Cls neg rs)) (l, xs @ v) (rev xs @ l, v)"
proof (induction xs arbitrary: l)
  case (Cons x xs)
  then have "matches (Cls neg rs) (l, x # xs @ v) (x # l, xs @ v)" by (simp add: matches.Cls)
  from matches.Star1 [OF this _ Cons.IH [of "x # l"]] Cons.prems show ?case by simp
qed (auto intro: matches.Star0)

lemma matches_wsp:
  assumes "list_all (in_cls False [(9, 10), (12, 13), (32, 32)]) xs" "xs \<noteq> []"
  shows "matches wsp (l, xs @ v) (rev xs @ l, v)"
proof -
  obtain y ys where xs: "xs = y # ys" using assms(2) by (cases xs) auto
  have "matches sp (l, xs @ v) (y # l, ys @ v)"
    using assms(1) by (simp add: xs sp_def matches.Cls)
  moreover have "matches (Star True sp) (y # l, ys @ v) (rev ys @ y # l, v)"
    using assms(1) unfolding sp_def xs by (intro matches_star_class) simp
  ultimately show ?thesis
    using matches.Seq by (fastforce simp: wsp_def rplus_def xs)
qed

lemma matches_word_boundary:
  "head_word l \<noteq> head_word v \<Longrightarrow> matches WordB (l, v) (l, v)"
  by (rule matches.WordB)

section \<open>What the gate guarantees\<close>

text \<open>
  C2: a command the gate accepts starts with an allowlisted binary or a read-only cmdlet, contains no
  backtick and no \<open>$(\<close>, and every \<open>>\<close> in it directly follows a digit or \<open><\<close>, so that no plain output
  redirect and no \<open>>>\<close> is accepted.
\<close>

theorem accepted_command_shape:
  assumes "IsDiagnosticEligible cmd"
  shows "(firstToken cmd \<in> set diagnosticAllowlist \<or> isPowerShellReadOnlyCmdlet (firstToken cmd)) \<and>
    firstToken cmd \<notin> set [''echo'', ''write-output'', ''write-host''] \<and>
    96 \<notin> set (runes cmd) \<and>
    (\<forall>u v. runes cmd \<noteq> u @ 36 # 40 # v) \<and>
    (\<forall>u v. runes cmd = u @ 62 # v \<longrightarrow> u \<noteq> [] \<and> (last u = 60 \<or> (48 \<le> last u \<and> last u \<le> 57)))"
proof -
  have none: "validateCommand cmd = None" using assms by (simp add: IsDiagnosticEligible_def)
  then have "firstToken cmd \<in> set diagnosticAllowlist \<or> isPowerShellReadOnlyCmdlet (firstToken cmd)"
    "firstToken cmd \<notin> set [''echo'', ''write-output'', ''write-host'']"
    by (auto simp: validateCommand_def Let_def simp del: set_simps split: if_splits)
  then show ?thesis using no_redirect [OF none] no_subshell [OF none] by blast
qed

theorem accepted_command_shape_witness:
  "IsDiagnosticEligible ''ls 2>x'' \<and> 96 \<notin> set (runes ''ls 2>x'')"
proof -
  have "IsDiagnosticEligible ''ls 2>x''" by code_simp
  then show ?thesis using accepted_command_shape [of "''ls 2>x''"] by blast
qed

text \<open>
  A \<open>systemctl\<close> subcommand that changes the state of a unit is rejected wherever it stands in the
  command: after any text that ends at a word boundary, with any white space between the two words,
  and whatever follows the subcommand at a word boundary.
\<close>

theorem systemctl_change_rejected:
  assumes "runes cmd = u @ map code ''systemctl'' @ ws @ map code verb @ v"
    and "verb \<in> set systemctlVerbs" and "u = [] \<or> \<not> is_word (last u)"
    and "ws \<noteq> []" "list_all (\<lambda>r. r \<in> {9, 10, 12, 13, 32}) ws" and "\<not> head_word v"
  shows "\<not> IsDiagnosticEligible cmd"
proof -
  define w where "w = map code ''systemctl''"
  have w: "head_word (rev w @ l)" "head_word (w @ l)" for l
    by (simp_all add: w_def head_word_def is_word_def code_def)
  have verb: "verb \<noteq> []" "head_word (rev (map code verb) @ l)" for l
    using assms(2) unfolding systemctlVerbs_def by (auto simp: head_word_def is_word_def code_def)
  have ws: "\<not> head_word (ws @ l)" "list_all (in_cls False [(9, 10), (12, 13), (32, 32)]) ws" for l
    using assms(4,5) by (cases ws; auto simp: head_word_def is_word_def list_all_iff in_cls_def)+
  have u: "\<not> head_word (rev u)"
    using assms(3) by (cases u rule: rev_cases) (auto simp: head_word_def)
  have "matches (lits ''systemctl'') (rev u, w @ ws @ map code verb @ v) (rev w @ rev u, ws @ map code verb @ v)"
    unfolding w_def by (rule matches_lits) simp
  then have "matches (word ''systemctl'') (rev u, w @ ws @ map code verb @ v) (rev w @ rev u, ws @ map code verb @ v)"
    using u w ws unfolding word_def seqs.simps
    by (intro matches.Seq [OF matches_word_boundary matches.Seq [OF _ matches_word_boundary]]) simp_all
  moreover have "matches (Seq (words systemctlVerbs) WordB) (rev ws @ rev w @ rev u, map code verb @ v)
      (rev (map code verb) @ rev ws @ rev w @ rev u, v)"
    using assms(6) verb by (intro matches.Seq [OF matches_words [OF assms(2)] matches_word_boundary]) simp_all
  ultimately have "matches (dp_re (servicePatterns ! 0)) (rev u, w @ ws @ map code verb @ v)
      (rev (map code verb) @ rev ws @ rev w @ rev u, v)"
    unfolding servicePatterns_def deny_def using matches.Seq [OF _ matches.Seq [OF matches_wsp [OF ws(2) assms(4)]]]
    by simp
  then have "match_runes (dp_re (servicePatterns ! 0)) (runes cmd)"
    using assms(1) by (intro match_runesI) (simp_all add: w_def)
  moreover have "servicePatterns ! 0 \<in> set denyPatterns"
    by (simp add: denyPatterns_def servicePatterns_def)
  ultimately show ?thesis using denied by (auto simp: IsDiagnosticEligible_def)
qed

theorem systemctl_change_rejected_witness:
  "\<not> IsDiagnosticEligible ''ls; systemctl  stop sshd''"
  by (rule systemctl_change_rejected
        [where u = "map code ''ls; ''" and ws = "[32, 32]" and verb = "''stop''" and v = "map code '' sshd''"])
     (simp_all add: runes_ascii code_def systemctlVerbs_def is_word_def head_word_def)

text \<open>
  The tool runs a command only if the gate accepts it: the shell receives either nothing, and
  the caller an error, or exactly the trimmed command, which is eligible and not empty.
\<close>

theorem only_eligible_commands_run:
  "case run_diagnostic_command runShell command of
     (executed, Inl _) \<Rightarrow> executed = [] \<and> \<not> (TrimSpace command \<noteq> '''' \<and> IsDiagnosticEligible (TrimSpace command))
   | (executed, Inr _) \<Rightarrow> executed = [TrimSpace command] \<and> TrimSpace command \<noteq> '''' \<and>
       IsDiagnosticEligible (TrimSpace command)"
  by (auto simp: run_diagnostic_command_def Let_def IsDiagnosticEligible_def split: option.split prod.split)

section \<open>Accepted commands that change state\<close>

text \<open>
  The deny patterns look for particular writers, and the allowlist looks at the first token only: a
  second command after a separator, a numbered redirect and a cmdlet that writes a file pass.
\<close>

lemma chained_command_accepted: "IsDiagnosticEligible ''ls -la /var; rm -rf /srv''"
  by code_simp

lemma numbered_redirect_accepted: "IsDiagnosticEligible ''cat a 1>/etc/hosts''"
  by code_simp

lemma tee_object_accepted: "IsDiagnosticEligible ''Get-Process | Tee-Object -FilePath x''"
  by code_simp

end
