(* ===== verification/Memory_Store.thy ===== *)
theory Memory_Store
  imports Go_Strings "HOL-Library.AList"
begin

text \<open>
  \<open>memory/memory.go\<close>: the agent's persistent memory. A \<open>DomainStore\<close> is a directory of timestamped
  snapshots (\<open><unix-nanoseconds>.json\<close>) with tiered retention; the \<open>AttrsStore\<close> is one file holding a
  key-value map; the \<open>Store\<close> owns both and a running byte count.

  A directory is the list of its entries in the order \<open>os.ReadDir\<close> returns them (by file name), or
  \<open>None\<close> when it does not exist. Content is of a type \<open>'d\<close> (JSON text as the typed value that was
  marshalled) with a length function \<open>len\<close>. The outcome of each system call that changes the disk is an
  argument (\<open>io\<close>), as is the clock. A store pointer is an \<open>option\<close>: \<open>None\<close> is Go's nil receiver.
\<close>

section \<open>Directories\<close>

datatype 'd node = Dir | File 'd

type_synonym 'd entries = "(string \<times> 'd node) list"
type_synonym 'd dir = "'d entries option"

fun str_less :: "string \<Rightarrow> string \<Rightarrow> bool" where
  "str_less [] ys \<longleftrightarrow> ys \<noteq> []"
| "str_less (x # xs) [] \<longleftrightarrow> False"
| "str_less (x # xs) (y # ys) \<longleftrightarrow> code x < code y \<or> (x = y \<and> str_less xs ys)"

text \<open>Replace the file of that name, or add it in name order.\<close>

definition dir_put :: "string \<Rightarrow> 'd node \<Rightarrow> 'd entries \<Rightarrow> 'd entries" where
  "dir_put n f es =
     (if n \<in> fst ` set es then map (\<lambda>e. if fst e = n then (n, f) else e) es
      else insert_by (\<lambda>a b. str_less (fst a) (fst b)) (n, f) es)"

definition dir_remove :: "string \<Rightarrow> 'd entries \<Rightarrow> 'd entries" where
  "dir_remove n es = filter (\<lambda>e. fst e \<noteq> n) es"

definition dir_size :: "('d \<Rightarrow> nat) \<Rightarrow> 'd entries \<Rightarrow> int" where
  "dir_size len es = (\<Sum>e \<leftarrow> es. case snd e of Dir \<Rightarrow> 0 | File d \<Rightarrow> int (len d))"

record io =
  mkdir_ok :: bool
  write_ok :: bool
  rename_ok :: bool
  remove_ok :: "string \<Rightarrow> bool"

definition io_ok :: io where
  "io_ok = \<lparr>mkdir_ok = True, write_ok = True, rename_ok = True, remove_ok = (\<lambda>_. True)\<rparr>"

section \<open>Snapshots and retention\<close>

record retentionTier =
  horizon :: duration
  bucket :: duration

definition retentionTiers :: "retentionTier list" where
  "retentionTiers =
     [\<lparr>horizon = 60 * minute, bucket = 5 * minute\<rparr>,
      \<lparr>horizon = 7 * 24 * hour, bucket = hour\<rparr>,
      \<lparr>horizon = 90 * 24 * hour, bucket = 24 * hour\<rparr>]"

definition maxAge :: duration where
  "maxAge = horizon (retentionTiers ! (length retentionTiers - 1))"

text \<open>\<open>time.Time.Sub\<close> saturates at the ends of \<open>int64\<close>.\<close>

definition time_Sub :: "instant \<Rightarrow> instant \<Rightarrow> duration" where
  "time_Sub a b = max (- (2 ^ 63)) (min (2 ^ 63 - 1) (a - b))"

definition json_ext :: string where "json_ext = ''.json''"

definition snapshot_name :: "instant \<Rightarrow> string" where
  "snapshot_name ns = show_int ns @ json_ext"

text \<open>The timestamp the loops parse from an entry; \<open>None\<close> where they \<open>continue\<close>.\<close>

definition entry_ns :: "string \<times> 'd node \<Rightarrow> instant option" where
  "entry_ns e =
     (if snd e = Dir \<or> \<not> HasSuffix (fst e) json_ext then None
      else parse_int64 (TrimSuffix (fst e) json_ext))"

type_synonym bucketKey = "nat \<times> int"

fun tier_key :: "nat \<Rightarrow> duration \<Rightarrow> retentionTier list \<Rightarrow> bucketKey" where
  "tier_key i age [] = (0, 0)"
| "tier_key i age (t # ts) =
     (if age \<le> horizon t then (i, quot age (bucket t)) else tier_key (i + 1) age ts)"

definition bucket_key :: "instant \<Rightarrow> instant \<Rightarrow> bucketKey" where
  "bucket_key now ns =
     (let age = time_Sub now ns in tier_key 0 (if age < 0 then 0 else age) retentionTiers)"

record snap_entry =
  se_path :: string
  se_ns :: instant
  se_size :: nat

type_synonym prune_state = "(bucketKey \<rightharpoonup> snap_entry) \<times> snap_entry list"

definition prune_step ::
    "('d \<Rightarrow> nat) \<Rightarrow> instant \<Rightarrow> string \<times> 'd node \<Rightarrow> prune_state \<Rightarrow> prune_state" where
  "prune_step len now e st =
     (case entry_ns e of
        None \<Rightarrow> st
      | Some ns \<Rightarrow>
          if HasSuffix (fst e) ''.tmp'' then st
          else
            let fe = \<lparr>se_path = fst e, se_ns = ns,
                      se_size = (case snd e of Dir \<Rightarrow> 0 | File d \<Rightarrow> len d)\<rparr>;
                (buckets, toDelete) = st
            in if time_Sub now ns > maxAge then (buckets, toDelete @ [fe])
               else
                 let key = bucket_key now ns in
                 (case buckets key of
                    None \<Rightarrow> (buckets(key \<mapsto> fe), toDelete)
                  | Some prev \<Rightarrow>
                      if ns > se_ns prev then (buckets(key \<mapsto> fe), toDelete @ [prev])
                      else (buckets, toDelete @ [fe])))"

definition remove_step :: "io \<Rightarrow> snap_entry \<Rightarrow> 'd entries \<times> nat \<Rightarrow> 'd entries \<times> nat" where
  "remove_step io f st =
     (if remove_ok io (se_path f) then (dir_remove (se_path f) (fst st), snd st + se_size f) else st)"

definition prune :: "('d \<Rightarrow> nat) \<Rightarrow> io \<Rightarrow> instant \<Rightarrow> 'd entries \<Rightarrow> 'd entries \<times> nat" where
  "prune len io now es =
     (let (buckets, toDelete) = fold (prune_step len now) es (Map.empty, [])
      in fold (remove_step io) toDelete (es, 0))"

section \<open>DomainStore\<close>

text \<open>
  \<open>writeLocked\<close> returns the error or unit, the directory, and the byte delta reported to the parent
  store. A failed \<open>WriteFile\<close> is taken to leave no temporary file behind.
\<close>

definition writeLocked ::
    "('d \<Rightarrow> nat) \<Rightarrow> io \<Rightarrow> instant \<Rightarrow> 'd \<Rightarrow> 'd dir \<Rightarrow> unit result \<times> 'd dir \<times> int" where
  "writeLocked len io now data d =
     (if \<not> mkdir_ok io then (Inl (IOError ''mkdir''), d, 0)
      else
        let es = (case d of None \<Rightarrow> [] | Some es \<Rightarrow> es); path = snapshot_name now in
        if \<not> write_ok io then (Inl (IOError ''write tmp''), Some es, 0)
        else
          let es = dir_remove (path @ ''.tmp'') es in
          if \<not> rename_ok io then (Inl (IOError ''rename''), Some es, 0)
          else
            let (es, pruned) = prune len io now (dir_put path (File data) es)
            in (Inr (), Some es, int (len data) - int pruned))"

definition newest_step :: "string \<times> 'd node \<Rightarrow> string \<times> instant \<Rightarrow> string \<times> instant" where
  "newest_step e best =
     (case entry_ns e of
        None \<Rightarrow> best
      | Some ns \<Rightarrow> if ns > snd best then (fst e, ns) else best)"

definition newestFile :: "'d dir \<Rightarrow> string result" where
  "newestFile d =
     (case d of
        None \<Rightarrow> Inl (NotFound ''no snapshots'')
      | Some es \<Rightarrow>
          let name = fst (fold newest_step es ('''', 0)) in
          if name = '''' then Inl (NotFound ''no snapshots'') else Inr name)"

definition read_file :: "'d dir \<Rightarrow> string \<Rightarrow> 'd result" where
  "read_file d name =
     (case d of
        None \<Rightarrow> Inl (IOError ''read'')
      | Some es \<Rightarrow> (case map_of es name of Some (File x) \<Rightarrow> Inr x | _ \<Rightarrow> Inl (IOError ''read'')))"

definition decode_as :: "('d \<Rightarrow> 'v option) \<Rightarrow> 'd \<Rightarrow> 'v result" where
  "decode_as dec x = (case dec x of None \<Rightarrow> Inl Corrupt | Some v \<Rightarrow> Inr v)"

definition readCurrentLocked :: "('d \<Rightarrow> 'v option) \<Rightarrow> 'd dir \<Rightarrow> 'v result" where
  "readCurrentLocked dec d =
     (case newestFile d of
        Inl e \<Rightarrow> Inl e
      | Inr name \<Rightarrow> (case read_file d name of Inl e \<Rightarrow> Inl e | Inr x \<Rightarrow> decode_as dec x))"

type_synonym 'd domain = "'d dir option"

definition Domain_Write ::
    "('d \<Rightarrow> nat) \<Rightarrow> io \<Rightarrow> instant \<Rightarrow> 'd \<Rightarrow> 'd domain \<Rightarrow> unit result \<times> 'd domain \<times> int" where
  "Domain_Write len io now data d =
     (case d of
        None \<Rightarrow> (Inr (), None, 0)
      | Some dir \<Rightarrow> (case writeLocked len io now data dir of (r, dir', n) \<Rightarrow> (r, Some dir', n)))"

definition Domain_ReadCurrent :: "('d \<Rightarrow> 'v option) \<Rightarrow> 'd domain \<Rightarrow> 'v result" where
  "Domain_ReadCurrent dec d = (case d of None \<Rightarrow> Inl NoStore | Some dir \<Rightarrow> readCurrentLocked dec dir)"

text \<open>
  \<open>Update\<close>: \<open>mutate\<close> sees the current value, or the initial value of \<open>dst\<close> when there is none or it
  does not decode.
\<close>

definition Domain_Update ::
    "('d \<Rightarrow> nat) \<Rightarrow> io \<Rightarrow> instant \<Rightarrow> ('d \<Rightarrow> 'v option) \<Rightarrow> ('v \<Rightarrow> 'd) \<Rightarrow> 'v \<Rightarrow> ('v \<Rightarrow> 'v result) \<Rightarrow>
      'd domain \<Rightarrow> unit result \<times> 'd domain \<times> int" where
  "Domain_Update len io now dec enc dst mutate d =
     (case d of
        None \<Rightarrow> (Inr (), None, 0)
      | Some dir \<Rightarrow>
          let cur = (case readCurrentLocked dec dir of Inl _ \<Rightarrow> dst | Inr v \<Rightarrow> v) in
          (case mutate cur of
             Inl e \<Rightarrow> (Inl e, d, 0)
           | Inr v \<Rightarrow> (case writeLocked len io now (enc v) dir of (r, dir', n) \<Rightarrow> (r, Some dir', n))))"

text \<open>Map mode: the snapshot is a key-value map.\<close>

definition Domain_SetKey ::
    "('d \<Rightarrow> nat) \<Rightarrow> io \<Rightarrow> instant \<Rightarrow> ('d \<Rightarrow> (string \<rightharpoonup> 'r) option) \<Rightarrow> ((string \<rightharpoonup> 'r) \<Rightarrow> 'd) \<Rightarrow>
      string \<Rightarrow> 'r \<Rightarrow> 'd domain \<Rightarrow> unit result \<times> 'd domain \<times> int" where
  "Domain_SetKey len io now dec enc key val d =
     Domain_Update len io now dec enc Map.empty (\<lambda>m. Inr (m(key \<mapsto> val))) d"

definition Domain_GetKey ::
    "('d \<Rightarrow> (string \<rightharpoonup> 'r) option) \<Rightarrow> ('r \<Rightarrow> 'v option) \<Rightarrow> string \<Rightarrow> 'd domain \<Rightarrow> 'v result" where
  "Domain_GetKey dec decv key d =
     (case Domain_ReadCurrent dec d of
        Inl e \<Rightarrow> Inl e
      | Inr m \<Rightarrow>
          (case m key of None \<Rightarrow> Inl (NotFound key) | Some val \<Rightarrow> decode_as decv val))"

definition Domain_AllKeys :: "('d \<Rightarrow> (string \<rightharpoonup> 'r) option) \<Rightarrow> 'd domain \<Rightarrow> (string \<rightharpoonup> 'r)" where
  "Domain_AllKeys dec d = (case Domain_ReadCurrent dec d of Inl _ \<Rightarrow> Map.empty | Inr m \<Rightarrow> m)"

definition read_snapshots :: "'d entries \<Rightarrow> (instant \<times> 'd) list" where
  "read_snapshots es =
     List.map_filter (\<lambda>e. case (entry_ns e, snd e) of (Some ns, File x) \<Rightarrow> Some (ns, x) | _ \<Rightarrow> None) es"

definition Domain_ReadHistory :: "'d domain \<Rightarrow> (instant \<times> 'd) list" where
  "Domain_ReadHistory d =
     (case d of
        None \<Rightarrow> []
      | Some None \<Rightarrow> []
      | Some (Some es) \<Rightarrow> sort_by (\<lambda>a b. fst a < fst b) (read_snapshots es))"

text \<open>Negation of an \<open>int64\<close>: the least value is its own negation.\<close>

definition neg64 :: "int \<Rightarrow> int" where
  "neg64 s = (if s = - (2 ^ 63) then s else - s)"

definition nearest_step ::
    "instant \<Rightarrow> string \<times> 'd node \<Rightarrow> (string \<times> instant \<times> duration) \<Rightarrow> (string \<times> instant \<times> duration)" where
  "nearest_step target e best =
     (case entry_ns e of
        None \<Rightarrow> best
      | Some ns \<Rightarrow>
          let s = time_Sub target ns; dist = (if s < 0 then neg64 s else s) in
          if fst best = '''' \<or> dist < snd (snd best) then (fst e, ns, dist) else best)"

definition Domain_ReadNearest :: "instant \<Rightarrow> 'd domain \<Rightarrow> (instant \<times> 'd) result" where
  "Domain_ReadNearest target d =
     (case d of
        None \<Rightarrow> Inl NoStore
      | Some None \<Rightarrow> Inl (IOError ''readdir'')
      | Some (Some es) \<Rightarrow>
          (case fold (nearest_step target) es ('''', 0, 0) of
             (name, ns, _) \<Rightarrow>
               if name = '''' then Inl (NotFound ''no snapshots'')
               else (case read_file (Some es) name of Inl e \<Rightarrow> Inl e | Inr x \<Rightarrow> Inr (ns, x))))"

section \<open>AttrsStore\<close>

datatype 'r attrs_file =
    Missing
  | Unreadable
  | Garbled nat                 \<comment> \<open>text that is not a JSON object, and its length\<close>
  | Attrs "string \<rightharpoonup> 'r"

definition attrs_size :: "((string \<rightharpoonup> 'r) \<Rightarrow> nat) \<Rightarrow> 'r attrs_file \<Rightarrow> nat" where
  "attrs_size mlen f = (case f of Attrs m \<Rightarrow> mlen m | Garbled n \<Rightarrow> n | _ \<Rightarrow> 0)"

text \<open>The map \<open>Set\<close> and \<open>Delete\<close> start from: parse errors are ignored.\<close>

definition attrs_map :: "'r attrs_file \<Rightarrow> (string \<rightharpoonup> 'r)" where
  "attrs_map f = (case f of Attrs m \<Rightarrow> m | _ \<Rightarrow> Map.empty)"

definition attrs_write ::
    "((string \<rightharpoonup> 'r) \<Rightarrow> nat) \<Rightarrow> io \<Rightarrow> (string \<rightharpoonup> 'r) \<Rightarrow> 'r attrs_file \<Rightarrow> unit result \<times> 'r attrs_file \<times> int" where
  "attrs_write mlen io m f =
     (if \<not> write_ok io then (Inl (IOError ''write attrs tmp''), f, 0)
      else if \<not> rename_ok io then (Inl (IOError ''rename attrs''), f, 0)
      else (Inr (), Attrs m, int (mlen m) - int (attrs_size mlen f)))"

definition Attrs_Set ::
    "((string \<rightharpoonup> 'r) \<Rightarrow> nat) \<Rightarrow> io \<Rightarrow> string \<Rightarrow> 'r \<Rightarrow> 'r attrs_file option \<Rightarrow>
      unit result \<times> 'r attrs_file option \<times> int" where
  "Attrs_Set mlen io key val a =
     (case a of
        None \<Rightarrow> (Inr (), None, 0)
      | Some f \<Rightarrow>
          if \<not> mkdir_ok io then (Inl (IOError ''mkdir''), a, 0)
          else (case attrs_write mlen io ((attrs_map f)(key \<mapsto> val)) f of (r, f', n) \<Rightarrow> (r, Some f', n)))"

definition Attrs_Delete ::
    "((string \<rightharpoonup> 'r) \<Rightarrow> nat) \<Rightarrow> io \<Rightarrow> string \<Rightarrow> 'r attrs_file option \<Rightarrow>
      unit result \<times> 'r attrs_file option \<times> int" where
  "Attrs_Delete mlen io key a =
     (case a of
        None \<Rightarrow> (Inr (), None, 0)
      | Some f \<Rightarrow>
          if attrs_map f key = None then (Inr (), a, 0)
          else (case attrs_write mlen io ((attrs_map f)(key := None)) f of (r, f', n) \<Rightarrow> (r, Some f', n)))"

definition Attrs_All :: "'r attrs_file option \<Rightarrow> (string \<rightharpoonup> 'r) result" where
  "Attrs_All a =
     (case a of
        None \<Rightarrow> Inr Map.empty
      | Some Missing \<Rightarrow> Inr Map.empty
      | Some Unreadable \<Rightarrow> Inl (IOError ''read attrs'')
      | Some (Garbled _) \<Rightarrow> Inl Corrupt
      | Some (Attrs m) \<Rightarrow> Inr m)"

definition Attrs_Get :: "('r \<Rightarrow> 'v option) \<Rightarrow> string \<Rightarrow> 'r attrs_file option \<Rightarrow> 'v result" where
  "Attrs_Get dec key a =
     (case a of
        None \<Rightarrow> Inl NoStore
      | Some Missing \<Rightarrow> Inl (IOError ''read attrs'')
      | Some Unreadable \<Rightarrow> Inl (IOError ''read attrs'')
      | Some (Garbled _) \<Rightarrow> Inl Corrupt
      | Some (Attrs m) \<Rightarrow>
          (case m key of None \<Rightarrow> Inl (NotFound key) | Some val \<Rightarrow> decode_as dec val))"

section \<open>Store\<close>

text \<open>
  The root directory: its subdirectories (the domains that exist on disk) and \<open>attrs.json\<close>, with the
  byte count the stores report their deltas to.
\<close>

record ('d, 'r) Store =
  s_doms :: "(string \<times> 'd entries) list"
  s_attrs :: "'r attrs_file"
  sizeBytes :: int

definition dirSize ::
    "('d \<Rightarrow> nat) \<Rightarrow> ((string \<rightharpoonup> 'r) \<Rightarrow> nat) \<Rightarrow> ('d, 'r) Store \<Rightarrow> int" where
  "dirSize len mlen s = (\<Sum>d \<leftarrow> s_doms s. dir_size len (snd d)) + int (attrs_size mlen (s_attrs s))"

definition Store_New ::
    "('d \<Rightarrow> nat) \<Rightarrow> ((string \<rightharpoonup> 'r) \<Rightarrow> nat) \<Rightarrow> ('d, 'r) Store \<Rightarrow> ('d, 'r) Store" where
  "Store_New len mlen disk = disk\<lparr>sizeBytes := dirSize len mlen disk\<rparr>"

definition Store_Domain :: "string \<Rightarrow> ('d, 'r) Store \<Rightarrow> 'd dir" where
  "Store_Domain name s = map_of (s_doms s) name"

definition set_domain :: "string \<Rightarrow> 'd dir \<Rightarrow> ('d, 'r) Store \<Rightarrow> ('d, 'r) Store" where
  "set_domain name d s =
     (case d of None \<Rightarrow> s | Some es \<Rightarrow> s\<lparr>s_doms := AList.update name es (s_doms s)\<rparr>)"

definition Store_Write ::
    "('d \<Rightarrow> nat) \<Rightarrow> io \<Rightarrow> instant \<Rightarrow> string \<Rightarrow> 'd \<Rightarrow> ('d, 'r) Store \<Rightarrow> unit result \<times> ('d, 'r) Store" where
  "Store_Write len io now name data s =
     (case writeLocked len io now data (Store_Domain name s) of
        (r, d, delta) \<Rightarrow> (r, (set_domain name d s)\<lparr>sizeBytes := sizeBytes s + delta\<rparr>))"

definition Store_AttrsSet ::
    "((string \<rightharpoonup> 'r) \<Rightarrow> nat) \<Rightarrow> io \<Rightarrow> string \<Rightarrow> 'r \<Rightarrow> ('d, 'r) Store \<Rightarrow> unit result \<times> ('d, 'r) Store" where
  "Store_AttrsSet mlen io key val s =
     (case Attrs_Set mlen io key val (Some (s_attrs s)) of
        (r, f, delta) \<Rightarrow> (r, s\<lparr>s_attrs := (case f of None \<Rightarrow> s_attrs s | Some g \<Rightarrow> g), sizeBytes := sizeBytes s + delta\<rparr>))"

definition Store_AttrsDelete ::
    "((string \<rightharpoonup> 'r) \<Rightarrow> nat) \<Rightarrow> io \<Rightarrow> string \<Rightarrow> ('d, 'r) Store \<Rightarrow> unit result \<times> ('d, 'r) Store" where
  "Store_AttrsDelete mlen io key s =
     (case Attrs_Delete mlen io key (Some (s_attrs s)) of
        (r, f, delta) \<Rightarrow> (r, s\<lparr>s_attrs := (case f of None \<Rightarrow> s_attrs s | Some g \<Rightarrow> g), sizeBytes := sizeBytes s + delta\<rparr>))"

text \<open>\<open>Clear\<close> tries every entry of the root; a failed \<open>RemoveAll\<close> leaves that entry as it was.\<close>

definition Store_Clear ::
    "('d \<Rightarrow> nat) \<Rightarrow> ((string \<rightharpoonup> 'r) \<Rightarrow> nat) \<Rightarrow> io \<Rightarrow> ('d, 'r) Store \<Rightarrow> unit result \<times> ('d, 'r) Store" where
  "Store_Clear len mlen io s =
     (let doms = filter (\<lambda>d. \<not> remove_ok io (fst d)) (s_doms s);
          attrs = (if remove_ok io ''attrs.json'' then Missing else s_attrs s);
          s' = s\<lparr>s_doms := doms, s_attrs := attrs\<rparr>
      in (if doms \<noteq> [] \<or> attrs \<noteq> Missing then Inl (IOError ''clear'') else Inr (),
          s'\<lparr>sizeBytes := dirSize len mlen s'\<rparr>))"

definition Store_Dump ::
    "('d, 'r) Store \<Rightarrow> ((string \<rightharpoonup> 'd) \<times> (string \<rightharpoonup> 'r)) result" where
  "Store_Dump s =
     (case Attrs_All (Some (s_attrs s)) of
        Inl e \<Rightarrow> Inl e
      | Inr attrs \<Rightarrow>
          Inr (\<lambda>name. case Store_Domain name s of
                 None \<Rightarrow> None
               | Some es \<Rightarrow> (case readCurrentLocked Some (Some es) of Inl _ \<Rightarrow> None | Inr x \<Rightarrow> Some x),
               attrs))"

section \<open>Lemmas on directories\<close>

lemma map_fst_dir_put_old: "n \<in> fst ` set es \<Longrightarrow> map fst (dir_put n f es) = map fst es"
  by (auto simp: dir_put_def)

lemma set_dir_put: "set (dir_put n f es) = insert (n, f) {e \<in> set es. fst e \<noteq> n}"
  by (auto simp: dir_put_def image_iff)

lemma fst_dir_put: "fst ` set (dir_put n f es) = insert n (fst ` set es)"
  by (auto simp: set_dir_put)

lemma distinct_dir_put: "distinct (map fst es) \<Longrightarrow> distinct (map fst (dir_put n f es))"
  by (cases "n \<in> fst ` set es")
     (simp_all add: map_fst_dir_put_old, simp add: dir_put_def distinct_insert_by)

lemma map_of_dir_put [simp]: "map_of (dir_put n f es) = (map_of es)(n \<mapsto> f)"
proof (cases "n \<in> fst ` set es")
  case True
  have "map_of (map (\<lambda>e. if fst e = n then (n, f) else e) es) k =
      (if k = n then Some f else map_of es k)" if "n \<in> fst ` set es \<or> k \<noteq> n" for k
    using that by (induction es) force+
  with True show ?thesis by (auto simp: dir_put_def fun_eq_iff)
next
  case False
  have "map_of (insert_by (\<lambda>a b. str_less (fst a) (fst b)) (n, f) es) = (map_of es)(n \<mapsto> f)"
    using False by (induction es) (auto simp: fun_eq_iff)
  with False show ?thesis by (simp add: dir_put_def)
qed

lemma dir_size_insert: "dir_size len (insert_by lt (n, File x) es) = dir_size len es + int (len x)"
  by (induction es) (auto simp: dir_size_def)

lemma dir_size_put_new:
  "n \<notin> fst ` set es \<Longrightarrow> dir_size len (dir_put n (File x) es) = dir_size len es + int (len x)"
  by (simp add: dir_put_def dir_size_insert)

lemma distinct_dir_remove: "distinct (map fst es) \<Longrightarrow> distinct (map fst (dir_remove n es))"
  by (induction es) (auto simp: dir_remove_def)

lemma set_dir_remove [simp]: "set (dir_remove n es) = {e \<in> set es. fst e \<noteq> n}"
  by (auto simp: dir_remove_def)

lemma dir_size_remove:
  "distinct (map fst es) \<Longrightarrow> (n, File x) \<in> set es \<Longrightarrow>
    dir_size len (dir_remove n es) = dir_size len es - int (len x)"
proof (induction es)
  case (Cons e es)
  show ?case
  proof (cases "fst e = n")
    case True
    with Cons.prems have "e = (n, File x)" and "\<forall>e' \<in> set es. fst e' \<noteq> n"
      by (auto simp: image_iff)
    then show ?thesis by (simp add: dir_remove_def dir_size_def filter_True)
  next
    case False
    with Cons show ?thesis by (auto simp: dir_remove_def dir_size_def)
  qed
qed simp

lemma entry_ns_snapshot:
  "- (2 ^ 63) \<le> ns \<Longrightarrow> ns < 2 ^ 63 \<Longrightarrow> entry_ns (snapshot_name ns, File x) = Some ns"
  by (simp add: entry_ns_def snapshot_name_def parse_show_int)

section \<open>Pruning keeps the newest snapshot of each bucket\<close>

lemma not_json_and_tmp: "HasSuffix n json_ext \<Longrightarrow> \<not> HasSuffix n ''.tmp''"
  by (auto simp: HasSuffix_iff json_ext_def suffix_def)

definition to_snap :: "('d \<Rightarrow> nat) \<Rightarrow> string \<times> 'd node \<Rightarrow> snap_entry option" where
  "to_snap len e =
     map_option (\<lambda>ns. \<lparr>se_path = fst e, se_ns = ns,
        se_size = (case snd e of Dir \<Rightarrow> 0 | File d \<Rightarrow> len d)\<rparr>) (entry_ns e)"

definition snaps :: "('d \<Rightarrow> nat) \<Rightarrow> 'd entries \<Rightarrow> snap_entry list" where
  "snaps len es = List.map_filter (to_snap len) es"

definition live :: "instant \<Rightarrow> snap_entry \<Rightarrow> bool" where
  "live now e \<longleftrightarrow> time_Sub now (se_ns e) \<le> maxAge"

definition same_bucket :: "instant \<Rightarrow> snap_entry \<Rightarrow> snap_entry \<Rightarrow> bool" where
  "same_bucket now e f \<longleftrightarrow> bucket_key now (se_ns e) = bucket_key now (se_ns f)"

text \<open>The retention policy: young enough, and the newest of its bucket.\<close>

definition retained :: "instant \<Rightarrow> snap_entry list \<Rightarrow> snap_entry \<Rightarrow> bool" where
  "retained now ss e \<longleftrightarrow>
     live now e \<and> (\<forall>f \<in> set ss. live now f \<and> same_bucket now e f \<longrightarrow> se_ns f \<le> se_ns e)"

definition prune_snap :: "instant \<Rightarrow> snap_entry \<Rightarrow> prune_state \<Rightarrow> prune_state" where
  "prune_snap now fe st =
     (case st of (buckets, toDelete) \<Rightarrow>
        if time_Sub now (se_ns fe) > maxAge then (buckets, toDelete @ [fe])
        else let key = bucket_key now (se_ns fe) in
          (case buckets key of
             None \<Rightarrow> (buckets(key \<mapsto> fe), toDelete)
           | Some prev \<Rightarrow>
               if se_ns fe > se_ns prev then (buckets(key \<mapsto> fe), toDelete @ [prev])
               else (buckets, toDelete @ [fe])))"

lemma prune_step_snap:
  "prune_step len now e st = (case to_snap len e of None \<Rightarrow> st | Some fe \<Rightarrow> prune_snap now fe st)"
  by (cases "entry_ns e"; cases st)
     (auto simp: prune_step_def to_snap_def prune_snap_def Let_def entry_ns_def not_json_and_tmp
        split: if_splits option.splits)

lemma fold_prune_snaps: "fold (prune_step len now) es st = fold (prune_snap now) (snaps len es) st"
  by (induction es arbitrary: st)
     (auto simp: snaps_def List.map_filter_simps prune_step_snap split: option.split)

definition buckets_ok :: "instant \<Rightarrow> snap_entry list \<Rightarrow> (bucketKey \<rightharpoonup> snap_entry) \<Rightarrow> bool" where
  "buckets_ok now ss b \<longleftrightarrow>
     (\<forall>k e. b k = Some e \<longleftrightarrow> e \<in> set ss \<and> retained now ss e \<and> bucket_key now (se_ns e) = k)"

lemma retained_exists:
  assumes "g \<in> set ss" "live now g"
  shows "\<exists>e \<in> set ss. retained now ss e \<and> same_bucket now e g"
proof -
  define B where "B = {f \<in> set ss. live now f \<and> same_bucket now f g}"
  have "finite B" "g \<in> B" using assms by (auto simp: B_def same_bucket_def)
  then obtain e where e: "e \<in> B" "\<forall>f \<in> B. se_ns f \<le> se_ns e"
    using Max_in [of "se_ns ` B"] Max_ge [of "se_ns ` B"] by (fastforce simp: image_iff)
  then show ?thesis by (auto simp: B_def retained_def same_bucket_def)
qed

lemma retained_snoc:
  assumes "distinct (map se_ns (ss @ [fe]))" "e \<in> set ss"
  shows "retained now (ss @ [fe]) e \<longleftrightarrow>
    retained now ss e \<and> \<not> (live now fe \<and> same_bucket now e fe \<and> se_ns e < se_ns fe)"
  using assms by (auto simp: retained_def)

lemma buckets_unchanged:
  assumes "buckets_ok now ss b" "set del = {e \<in> set ss. \<not> retained now ss e}"
    and old: "\<And>e. e \<in> set ss \<Longrightarrow> retained now (ss @ [fe]) e \<longleftrightarrow> retained now ss e"
    and new: "\<not> retained now (ss @ [fe]) fe"
  shows "buckets_ok now (ss @ [fe]) b \<and> set (del @ [fe]) = {e \<in> set (ss @ [fe]). \<not> retained now (ss @ [fe]) e}"
proof
  have "e \<in> set (ss @ [fe]) \<and> retained now (ss @ [fe]) e \<longleftrightarrow> e \<in> set ss \<and> retained now ss e" for e
    using old new by auto
  then show "buckets_ok now (ss @ [fe]) b" using assms(1) unfolding buckets_ok_def by (metis (full_types))
  show "set (del @ [fe]) = {e \<in> set (ss @ [fe]). \<not> retained now (ss @ [fe]) e}"
    using assms(2) old new by auto
qed

lemma buckets_replaced:
  assumes "buckets_ok now ss b" "set del = {e \<in> set ss. \<not> retained now ss e}" and fresh: "fe \<notin> set ss"
    and old: "\<And>e. e \<in> set ss \<Longrightarrow>
      retained now (ss @ [fe]) e \<longleftrightarrow> retained now ss e \<and> bucket_key now (se_ns e) \<noteq> bucket_key now (se_ns fe)"
    and new: "retained now (ss @ [fe]) fe"
    and gone: "set gone = {e \<in> set ss. retained now ss e \<and> bucket_key now (se_ns e) = bucket_key now (se_ns fe)}"
  shows "buckets_ok now (ss @ [fe]) (b(bucket_key now (se_ns fe) \<mapsto> fe)) \<and>
    set (del @ gone) = {e \<in> set (ss @ [fe]). \<not> retained now (ss @ [fe]) e}"
proof
  have "e \<in> set (ss @ [fe]) \<and> retained now (ss @ [fe]) e \<longleftrightarrow>
      e = fe \<or> e \<in> set ss \<and> retained now ss e \<and> bucket_key now (se_ns e) \<noteq> bucket_key now (se_ns fe)" for e
    using old new fresh by auto
  moreover have "b k = Some e \<longleftrightarrow> e \<in> set ss \<and> retained now ss e \<and> bucket_key now (se_ns e) = k" for k e
    using assms(1) unfolding buckets_ok_def by blast
  ultimately show "buckets_ok now (ss @ [fe]) (b(bucket_key now (se_ns fe) \<mapsto> fe))"
    unfolding buckets_ok_def using fresh by (simp del: split_paired_All) metis
  show "set (del @ gone) = {e \<in> set (ss @ [fe]). \<not> retained now (ss @ [fe]) e}"
    using assms(2) old new gone fresh by auto
qed

lemma prune_snap_invariant:
  "distinct (map se_ns ss) \<Longrightarrow> fold (prune_snap now) ss (Map.empty, []) = (b, del) \<Longrightarrow>
    buckets_ok now ss b \<and> set del = {e \<in> set ss. \<not> retained now ss e} \<and> distinct del"
proof (induction ss arbitrary: b del rule: rev_induct)
  case Nil
  then show ?case by (auto simp: buckets_ok_def)
next
  case (snoc fe ss)
  obtain b0 del0 where f0: "fold (prune_snap now) ss (Map.empty, []) = (b0, del0)" by fastforce
  have d: "distinct (map se_ns ss)" "\<And>e. e \<in> set ss \<Longrightarrow> se_ns e \<noteq> se_ns fe"
    using snoc.prems by (auto simp: image_iff)
  have b0: "b0 k = Some e \<longleftrightarrow> e \<in> set ss \<and> retained now ss e \<and> bucket_key now (se_ns e) = k" for k e
    using snoc.IH [OF d(1) f0] unfolding buckets_ok_def by blast
  have del0: "set del0 = {e \<in> set ss. \<not> retained now ss e}"
    using snoc.IH [OF d(1) f0] by simp
  have dist0: "distinct del0" using snoc.IH [OF d(1) f0] by simp
  have step: "prune_snap now fe (b0, del0) = (b, del)" using snoc.prems f0 by simp
  note rs = retained_snoc [OF snoc.prems(1)]
  have ok0: "buckets_ok now ss b0" using snoc.IH [OF d(1) f0] by simp
  have fresh: "fe \<notin> set ss" using d(2) by blast
  let ?k = "bucket_key now (se_ns fe)"
  consider (old) "\<not> live now fe" | (first) "live now fe" "b0 ?k = None"
    | (newer) prev where "live now fe" "b0 ?k = Some prev" "se_ns fe > se_ns prev"
    | (older) prev where "live now fe" "b0 ?k = Some prev" "\<not> se_ns fe > se_ns prev"
    by blast
  then show ?case
  proof cases
    case old
    then have "b = b0" "del = del0 @ [fe]" "\<not> retained now (ss @ [fe]) fe"
      using step by (auto simp: prune_snap_def live_def retained_def)
    then show ?thesis using buckets_unchanged [OF ok0 del0, of fe] rs old dist0 del0 fresh by auto
  next
    case first
    have none: "\<not> (live now g \<and> ?k = bucket_key now (se_ns g))" if gs: "g \<in> set ss" for g
    proof
      assume "live now g \<and> ?k = bucket_key now (se_ns g)"
      then obtain e where "e \<in> set ss" "retained now ss e" "bucket_key now (se_ns e) = ?k"
        using retained_exists [OF gs, of now] unfolding same_bucket_def by metis
      then have "b0 ?k = Some e" by (intro iffD2 [OF b0] conjI)
      with first show False by simp
    qed
    from first step have eqs: "b = b0(?k \<mapsto> fe)" "del = del0 @ []"
      by (auto simp: prune_snap_def live_def Let_def)
    have new: "retained now (ss @ [fe]) fe"
      using first none by (auto simp: retained_def same_bucket_def)
    have old: "retained now (ss @ [fe]) e \<longleftrightarrow> retained now ss e \<and> bucket_key now (se_ns e) \<noteq> ?k"
      if "e \<in> set ss" for e
      using rs [OF that] none [OF that] by (auto simp: retained_def same_bucket_def)
    have gone: "set [] = {e \<in> set ss. retained now ss e \<and> bucket_key now (se_ns e) = ?k}"
      using none by (force simp: retained_def)
    from buckets_replaced [OF ok0 del0 fresh old new gone] dist0 show ?thesis
      unfolding eqs append_Nil2 by blast
  next
    case newer
    have prev: "prev \<in> set ss" "retained now ss prev" "bucket_key now (se_ns prev) = ?k"
      using iffD1 [OF b0 newer(2)] by blast+
    have uniq: "e = prev" if "e \<in> set ss" "retained now ss e" "bucket_key now (se_ns e) = ?k" for e
      using b0 [of ?k e] that newer(2) by simp
    from newer step have eqs: "b = b0(?k \<mapsto> fe)" "del = del0 @ [prev]"
      by (auto simp: prune_snap_def live_def Let_def)
    have new: "retained now (ss @ [fe]) fe"
      using newer prev by (force simp: retained_def same_bucket_def)
    have old: "retained now (ss @ [fe]) e \<longleftrightarrow> retained now ss e \<and> bucket_key now (se_ns e) \<noteq> ?k"
      if "e \<in> set ss" for e
      using rs [OF that] uniq [OF that] newer by (auto simp: same_bucket_def)
    have gone: "set [prev] = {e \<in> set ss. retained now ss e \<and> bucket_key now (se_ns e) = ?k}"
      unfolding list.set using prev uniq by blast
    have "distinct (del0 @ [prev])" using dist0 del0 prev by simp
    with buckets_replaced [OF ok0 del0 fresh old new gone] show ?thesis unfolding eqs by blast
  next
    case older
    have prev: "prev \<in> set ss" "retained now ss prev" "bucket_key now (se_ns prev) = ?k"
      using iffD1 [OF b0 older(2)] by blast+
    with older d(2) [OF prev(1)] have lt: "se_ns fe < se_ns prev" by simp
    have uniq: "e = prev" if "e \<in> set ss" "retained now ss e" "bucket_key now (se_ns e) = ?k" for e
      using b0 [of ?k e] that older(2) by simp
    from older step have "b = b0" "del = del0 @ [fe]"
      by (auto simp: prune_snap_def live_def Let_def)
    moreover have "\<not> retained now (ss @ [fe]) fe"
      using prev lt by (force simp: retained_def same_bucket_def)
    moreover have "retained now (ss @ [fe]) e \<longleftrightarrow> retained now ss e" if "e \<in> set ss" for e
      using rs [OF that] uniq [OF that] lt unfolding same_bucket_def by (metis less_asym)
    ultimately show ?thesis using buckets_unchanged [OF ok0 del0, of fe] dist0 del0 fresh by simp
  qed
qed

lemma fold_remove_set:
  "set (fst (fold (remove_step io) del st)) =
    {e \<in> set (fst st). \<not> (\<exists>f \<in> set del. se_path f = fst e \<and> remove_ok io (se_path f))}"
  by (induction del arbitrary: st) (auto simp: remove_step_def)

lemma fold_remove_distinct:
  "distinct (map fst (fst st)) \<Longrightarrow> distinct (map fst (fst (fold (remove_step io) del st)))"
  by (induction del arbitrary: st) (auto simp: remove_step_def distinct_dir_remove)

lemma snaps_iff:
  "e \<in> set (snaps len es) \<longleftrightarrow>
    (\<exists>x. (se_path e, File x) \<in> set es \<and> entry_ns (se_path e, File x) = Some (se_ns e) \<and> se_size e = len x)"
proof
  assume "e \<in> set (snaps len es)"
  then obtain n nd ns where "(n, nd) \<in> set es" "entry_ns (n, nd) = Some ns"
    "e = \<lparr>se_path = n, se_ns = ns, se_size = (case nd of Dir \<Rightarrow> 0 | File d \<Rightarrow> len d)\<rparr>"
    by (auto simp: snaps_def to_snap_def List.map_filter_def)
  then show "\<exists>x. (se_path e, File x) \<in> set es \<and> entry_ns (se_path e, File x) = Some (se_ns e) \<and> se_size e = len x"
    by (cases nd) (auto simp: entry_ns_def split: if_splits)
next
  assume "\<exists>x. (se_path e, File x) \<in> set es \<and> entry_ns (se_path e, File x) = Some (se_ns e) \<and> se_size e = len x"
  then obtain x where "(se_path e, File x) \<in> set es" "to_snap len (se_path e, File x) = Some e"
    by (auto simp: to_snap_def)
  then show "e \<in> set (snaps len es)"
    by (force simp: snaps_def List.map_filter_def image_iff)
qed

text \<open>
  A well-formed snapshot directory: distinct file names, and no two names that spell the same
  timestamp (\<open>5.json\<close> and \<open>+5.json\<close>), which the store itself never creates.
\<close>

definition dir_ok :: "'d entries \<Rightarrow> bool" where
  "dir_ok es \<longleftrightarrow> distinct (map fst es) \<and>
     (\<forall>e \<in> set es. \<forall>f \<in> set es. entry_ns e \<noteq> None \<longrightarrow> entry_ns e = entry_ns f \<longrightarrow> e = f)"

lemma dir_okD:
  "dir_ok es \<Longrightarrow> e \<in> set es \<Longrightarrow> f \<in> set es \<Longrightarrow> entry_ns e = Some n \<Longrightarrow> entry_ns f = Some n \<Longrightarrow> e = f"
  unfolding dir_ok_def by (metis option.distinct(1))

lemma dir_ok_Cons: "dir_ok (e # es) \<Longrightarrow> dir_ok es \<and> e \<notin> set es"
  by (auto simp: dir_ok_def image_iff)

lemma distinct_snaps: "dir_ok es \<Longrightarrow> distinct (map se_ns (snaps len es))"
proof (induction es)
  case (Cons e es)
  then have IH: "distinct (map se_ns (snaps len es))" by (simp add: dir_ok_Cons)
  show ?case
  proof (cases "to_snap len e")
    case None
    with IH show ?thesis by (simp add: snaps_def List.map_filter_simps)
  next
    case (Some fe)
    have "se_ns fe \<noteq> se_ns g" if g: "g \<in> set (snaps len es)" for g
    proof
      assume eq: "se_ns fe = se_ns g"
      obtain x where x: "(se_path g, File x) \<in> set es" "entry_ns (se_path g, File x) = Some (se_ns g)"
        using iffD1 [OF snaps_iff g] by blast
      have "entry_ns e = Some (se_ns g)" using Some eq by (auto simp: to_snap_def)
      then have "e = (se_path g, File x)"
        using dir_okD [OF Cons.prems, of e "(se_path g, File x)"] x by simp
      with x(1) dir_ok_Cons [OF Cons.prems] show False by simp
    qed
    with IH Some show ?thesis by (auto simp: snaps_def List.map_filter_simps)
  qed
qed (simp add: snaps_def List.map_filter_simps)

lemma prune_eq:
  "\<exists>b del. fold (prune_snap now) (snaps len es) (Map.empty, []) = (b, del) \<and>
     prune len io now es = fold (remove_step io) del (es, 0)"
  by (cases "fold (prune_snap now) (snaps len es) (Map.empty, [])")
     (simp add: prune_def fold_prune_snaps)

lemma prune_set:
  assumes "dir_ok es"
  shows "set (fst (prune len io now es)) =
    {e \<in> set es. \<forall>f \<in> set (snaps len es). se_path f = fst e \<longrightarrow> remove_ok io (fst e) \<longrightarrow> retained now (snaps len es) f}"
proof -
  obtain b del where f: "fold (prune_snap now) (snaps len es) (Map.empty, []) = (b, del)"
    and p: "prune len io now es = fold (remove_step io) del (es, 0)"
    using prune_eq by blast
  have "set del = {e \<in> set (snaps len es). \<not> retained now (snaps len es) e}"
    using prune_snap_invariant [OF distinct_snaps [OF assms] f] by simp
  then show ?thesis unfolding p fold_remove_set by auto
qed

lemma fold_remove_size:
  assumes "distinct (map se_path del)" "distinct (map fst (fst st))"
    and "\<forall>f \<in> set del. \<exists>x. (se_path f, File x) \<in> set (fst st) \<and> se_size f = len x"
  shows "dir_size len (fst (fold (remove_step io) del st)) + int (snd (fold (remove_step io) del st))
    = dir_size len (fst st) + int (snd st)"
  using assms
proof (induction del arbitrary: st)
  case (Cons f del)
  obtain x where x: "(se_path f, File x) \<in> set (fst st)" "se_size f = len x"
    using Cons.prems(3) by auto
  define st' where "st' = remove_step io f st"
  have "distinct (map fst (fst st'))"
    using Cons.prems(2) by (simp add: st'_def remove_step_def distinct_dir_remove)
  moreover have "\<forall>g \<in> set del. \<exists>x. (se_path g, File x) \<in> set (fst st') \<and> se_size g = len x"
    using Cons.prems(1,3) by (auto simp: st'_def remove_step_def image_iff)
  ultimately have "dir_size len (fst (fold (remove_step io) del st')) + int (snd (fold (remove_step io) del st'))
      = dir_size len (fst st') + int (snd st')"
    using Cons.IH [of st'] Cons.prems(1) by simp
  also have "\<dots> = dir_size len (fst st) + int (snd st)"
    using dir_size_remove [OF Cons.prems(2) x(1), of len] x(2) by (simp add: st'_def remove_step_def)
  finally show ?case by (simp add: st'_def)
qed simp

lemma prune_size:
  assumes "dir_ok es"
  shows "dir_size len (fst (prune len io now es)) + int (snd (prune len io now es)) = dir_size len es"
proof -
  obtain b del where f: "fold (prune_snap now) (snaps len es) (Map.empty, []) = (b, del)"
    and p: "prune len io now es = fold (remove_step io) del (es, 0)"
    using prune_eq by blast
  have del: "set del \<subseteq> set (snaps len es)" "distinct del"
    using prune_snap_invariant [OF distinct_snaps [OF assms] f] by auto
  have "inj_on se_path (set (snaps len es))"
  proof (rule inj_onI)
    fix e f
    assume "e \<in> set (snaps len es)" "f \<in> set (snaps len es)" "se_path e = se_path f"
    then obtain x y where "(se_path f, File x) \<in> set es" "entry_ns (se_path f, File x) = Some (se_ns e)"
      "se_size e = len x" "(se_path f, File y) \<in> set es" "entry_ns (se_path f, File y) = Some (se_ns f)"
      "se_size f = len y"
      unfolding snaps_iff by metis
    moreover from this assms have "x = y" by (auto simp: dir_ok_def dest: eq_key_imp_eq_value)
    ultimately show "e = f" using \<open>se_path e = se_path f\<close> by simp
  qed
  then have "distinct (map se_path del)"
    using del by (simp add: distinct_map inj_on_subset)
  moreover have "\<forall>f \<in> set del. \<exists>x. (se_path f, File x) \<in> set es \<and> se_size f = len x"
    using del(1) snaps_iff [of _ len es] by blast
  ultimately show ?thesis
    using fold_remove_size [of del "(es, 0)" len io] assms unfolding p dir_ok_def by simp
qed

lemma dir_ok_subset:
  "dir_ok es \<Longrightarrow> set es' \<subseteq> set es \<Longrightarrow> distinct (map fst es') \<Longrightarrow> dir_ok es'"
  unfolding dir_ok_def by (meson subsetD)

lemma prune_subset: "set (fst (prune len io now es)) \<subseteq> set es"
proof -
  obtain b del where "prune len io now es = fold (remove_step io) del (es, 0)"
    using prune_eq by blast
  then show ?thesis using fold_remove_set [of io del "(es, 0)"] by auto
qed

lemma prune_dir_ok:
  assumes "dir_ok es" shows "dir_ok (fst (prune len io now es))"
proof (rule dir_ok_subset [OF assms prune_subset])
  obtain b del where "prune len io now es = fold (remove_step io) del (es, 0)"
    using prune_eq by blast
  then show "distinct (map fst (fst (prune len io now es)))"
    using assms fold_remove_distinct [of "(es, 0)"] by (simp add: dir_ok_def)
qed

section \<open>Writing and reading back\<close>

text \<open>The clock has moved past every snapshot in the directory and fits a positive \<open>int64\<close>.\<close>

definition clock_ahead :: "instant \<Rightarrow> 'd entries \<Rightarrow> bool" where
  "clock_ahead now es \<longleftrightarrow> 0 < now \<and> now < 2 ^ 63 \<and> list_all (\<lambda>e. case entry_ns e of None \<Rightarrow> True | Some ns \<Rightarrow> ns < now) es"

lemma entry_ns_new: "clock_ahead now es \<Longrightarrow> entry_ns (snapshot_name now, File x) = Some now"
  by (rule entry_ns_snapshot) (auto simp: clock_ahead_def)

lemma clock_aheadD: "clock_ahead now es \<Longrightarrow> e \<in> set es \<Longrightarrow> entry_ns e = Some ns \<Longrightarrow> ns < now"
  by (auto simp: clock_ahead_def list_all_iff)

definition put_snapshot :: "instant \<Rightarrow> 'd \<Rightarrow> 'd entries \<Rightarrow> 'd entries" where
  "put_snapshot now data es =
     dir_put (snapshot_name now) (File data) (dir_remove (snapshot_name now @ ''.tmp'') es)"

lemma set_put_snapshot:
  "set (put_snapshot now data es) = insert (snapshot_name now, File data)
     {e \<in> set es. fst e \<noteq> snapshot_name now \<and> fst e \<noteq> snapshot_name now @ ''.tmp''}"
  by (auto simp: put_snapshot_def set_dir_put)

lemma dir_ok_put_fresh:
  assumes "dir_ok es" and old: "\<forall>e \<in> set es. entry_ns e \<noteq> Some now"
    and new: "entry_ns (snapshot_name now, File data) = Some now"
  shows "dir_ok (put_snapshot now data es)"
proof -
  have "distinct (map fst (put_snapshot now data es))"
    using assms(1) by (simp add: put_snapshot_def dir_ok_def distinct_dir_put distinct_dir_remove)
  moreover have "e = f"
    if ef: "e \<in> set (put_snapshot now data es)" "f \<in> set (put_snapshot now data es)" and
      ns: "entry_ns e \<noteq> None" "entry_ns e = entry_ns f" for e f
  proof -
    let ?new = "(snapshot_name now, File data)"
    consider "e = ?new" "f = ?new" | "e = ?new" "f \<in> set es" | "e \<in> set es" "f = ?new"
      | "e \<in> set es" "f \<in> set es"
      using ef unfolding set_put_snapshot by blast
    then show ?thesis
    proof cases
      case 2 with ns old new show ?thesis by metis
    next
      case 3 with ns old new show ?thesis by metis
    next
      case 4 with ns dir_okD [OF assms(1), of e f] show ?thesis by force
    qed simp
  qed
  ultimately show ?thesis unfolding dir_ok_def by blast
qed

lemma dir_ok_put_snapshot:
  assumes "dir_ok es" "clock_ahead now es"
  shows "dir_ok (put_snapshot now data es)"
proof (rule dir_ok_put_fresh [OF assms(1) _ entry_ns_new [OF assms(2)]])
  show "\<forall>e \<in> set es. entry_ns e \<noteq> Some now" using clock_aheadD [OF assms(2)] by force
qed

lemma fold_newest:
  assumes "\<forall>e \<in> set es. \<forall>k. entry_ns e = Some k \<longrightarrow> k \<le> ns \<and> (k = ns \<longrightarrow> fst e = m)"
    and "best = (m, ns) \<or> (snd best < ns \<and> (\<exists>e \<in> set es. entry_ns e = Some ns))"
  shows "fold newest_step es best = (m, ns)"
  using assms
proof (induction es arbitrary: best)
  case (Cons e es)
  have "newest_step e best = (m, ns) \<or> (snd (newest_step e best) < ns \<and> (\<exists>e \<in> set es. entry_ns e = Some ns))"
  proof (cases "entry_ns e")
    case None
    then show ?thesis using Cons.prems by (auto simp: newest_step_def)
  next
    case (Some k)
    then have "k \<le> ns" "k = ns \<longrightarrow> fst e = m" using Cons.prems(1) by auto
    then show ?thesis using Some Cons.prems(2) by (auto simp: newest_step_def)
  qed
  then show ?case using Cons.IH [of "newest_step e best"] Cons.prems(1) by simp
qed auto

lemma newest_is_read:
  assumes "dir_ok es" "(snapshot_name now, File x) \<in> set es" "entry_ns (snapshot_name now, File x) = Some now" "0 < now"
    and "\<forall>e \<in> set es. \<forall>k. entry_ns e = Some k \<longrightarrow> k \<le> now"
  shows "readCurrentLocked dec (Some es) = decode_as dec x"
proof -
  have "\<forall>e \<in> set es. \<forall>k. entry_ns e = Some k \<longrightarrow> k \<le> now \<and> (k = now \<longrightarrow> fst e = snapshot_name now)"
    using assms(5) dir_okD [OF assms(1) _ assms(2) _ assms(3)] by fastforce
  then have "fold newest_step es ('''', 0) = (snapshot_name now, now)"
    using assms(2-4) by (intro fold_newest) auto
  moreover have "snapshot_name now \<noteq> ''''" by (simp add: snapshot_name_def json_ext_def)
  moreover have "map_of es (snapshot_name now) = Some (File x)"
    using assms(1,2) by (simp add: dir_ok_def map_of_is_SomeI)
  ultimately show ?thesis
    by (simp add: readCurrentLocked_def newestFile_def read_file_def Let_def)
qed

text \<open>The fresh snapshot survives the pruning that follows its write, whatever removals fail.\<close>

lemma fresh_survives:
  assumes "dir_ok es" "clock_ahead now es"
  shows "(snapshot_name now, File data) \<in> set (fst (prune len io now (put_snapshot now data es)))"
proof -
  let ?es = "put_snapshot now data es"
  have ok: "dir_ok ?es" by (rule dir_ok_put_snapshot [OF assms])
  have new: "entry_ns (snapshot_name now, File data) = Some now" by (rule entry_ns_new [OF assms(2)])
  have in_es: "(snapshot_name now, File data) \<in> set ?es" by (simp add: set_put_snapshot)
  have le: "se_ns g \<le> now" if "g \<in> set (snaps len ?es)" for g
    using iffD1 [OF snaps_iff that] new clock_aheadD [OF assms(2)] unfolding set_put_snapshot by fastforce
  have "retained now (snaps len ?es) f" if f: "f \<in> set (snaps len ?es)" "se_path f = snapshot_name now" for f
  proof -
    obtain x where "(snapshot_name now, File x) \<in> set ?es" "entry_ns (snapshot_name now, File x) = Some (se_ns f)"
      using iffD1 [OF snaps_iff f(1)] f(2) by auto
    then have "se_ns f = now" using entry_ns_new [OF assms(2), of x] by simp
    then show ?thesis
      using le by (auto simp: retained_def live_def time_Sub_def maxAge_def retentionTiers_def duration_defs)
  qed
  then show ?thesis unfolding prune_set [OF ok] using in_es by simp
qed

lemma writeLocked_ok:
  assumes "mkdir_ok io" "write_ok io" "rename_ok io"
  shows "writeLocked len io now data d =
    (let (es, pruned) = prune len io now (put_snapshot now data (case d of None \<Rightarrow> [] | Some es \<Rightarrow> es))
     in (Inr (), Some es, int (len data) - int pruned))"
  using assms by (simp add: writeLocked_def put_snapshot_def Let_def)

definition dir_entries :: "'d dir \<Rightarrow> 'd entries" where
  "dir_entries d = (case d of None \<Rightarrow> [] | Some es \<Rightarrow> es)"

lemma write_then_read:
  assumes "dir_ok (dir_entries d)" "clock_ahead now (dir_entries d)"
    and io: "mkdir_ok io" "write_ok io" "rename_ok io" and "dec data = Some v"
  shows "\<exists>es' n. writeLocked len io now data d = (Inr (), Some es', n) \<and> dir_ok es' \<and>
    readCurrentLocked dec (Some es') = Inr v"
proof -
  let ?es = "put_snapshot now data (dir_entries d)"
  let ?res = "prune len io now ?es"
  have ok: "dir_ok ?es" by (rule dir_ok_put_snapshot [OF assms(1,2)])
  have new: "entry_ns (snapshot_name now, File data) = Some now" by (rule entry_ns_new [OF assms(2)])
  have le: "\<forall>e \<in> set (fst ?res). \<forall>k. entry_ns e = Some k \<longrightarrow> k \<le> now"
    using prune_subset [of len io now ?es] new clock_aheadD [OF assms(2)] unfolding set_put_snapshot by fastforce
  have "0 < now" using assms(2) by (simp add: clock_ahead_def)
  then have "readCurrentLocked dec (Some (fst ?res)) = Inr v"
    using newest_is_read [OF prune_dir_ok [OF ok] fresh_survives [OF assms(1,2)] new _ le, of dec] assms(6)
    by (simp add: decode_as_def)
  moreover have "dir_ok (fst ?res)" by (rule prune_dir_ok [OF ok])
  ultimately show ?thesis
    using writeLocked_ok [OF io, of len now data d]
    by (auto simp: Let_def dir_entries_def split: prod.splits)
qed

section \<open>Theorems on the domain store\<close>

text \<open>
  C3: a value written to a domain is the value read back, provided the clock is ahead of the snapshots
  already there: \<open>Write\<close> succeeds, the directory stays well formed, and \<open>ReadCurrent\<close> decodes exactly the
  data written, even when some removals of the pruning fail.
\<close>

theorem write_read_current:
  assumes "dir_ok es" "clock_ahead now es" "mkdir_ok io" "write_ok io" "rename_ok io" "dec data = Some v"
  shows "\<exists>es' n. Domain_Write len io now data (Some (Some es)) = (Inr (), Some (Some es'), n) \<and> dir_ok es' \<and>
    Domain_ReadCurrent dec (Some (Some es')) = Inr v"
  using write_then_read [of "Some es" now io dec data v len] assms
  by (auto simp: Domain_Write_def Domain_ReadCurrent_def dir_entries_def)

theorem write_read_current_witness:
  "\<exists>es' n. Domain_Write (\<lambda>_. 1) io_ok 700 (8::nat) (Some (Some [(''5.json'', File 7), (''x.txt'', File 9)]))
      = (Inr (), Some (Some es'), n) \<and> dir_ok es' \<and> Domain_ReadCurrent Some (Some (Some es')) = Inr 8"
proof -
  have "dir_ok [(''5.json'', File 7), (''x.txt'', File (9::nat))]" by code_simp
  moreover have "clock_ahead 700 [(''5.json'', File 7), (''x.txt'', File (9::nat))]" by code_simp
  ultimately show ?thesis by (rule write_read_current) (simp_all add: io_ok_def)
qed

text \<open>
  C4: the retention policy. When every removal succeeds, a file survives a pruning exactly if it is
  not a snapshot, or it is at most 90 days old and the newest of its bucket: five minutes wide in the
  first hour, an hour wide in the first week, a day wide after that.
\<close>

theorem prune_retention:
  assumes "dir_ok es" "\<forall>n. remove_ok io n"
  shows "set (fst (prune len io now es)) =
    {e \<in> set es. \<forall>f \<in> set (snaps len es). se_path f = fst e \<longrightarrow> retained now (snaps len es) f}"
  using prune_set [OF assms(1), of len io now] assms(2) by simp

theorem prune_retention_witness:
  "(''30.json'', File 1) \<notin> set (fst (prune (\<lambda>_::nat. 1) io_ok 50 [(''30.json'', File 1), (''40.json'', File 2)]))"
proof -
  let ?es = "[(''30.json'', File (1::nat)), (''40.json'', File 2)]"
  have "dir_ok ?es" by code_simp
  then have "set (fst (prune (\<lambda>_. 1) io_ok 50 ?es)) =
    {e \<in> set ?es. \<forall>f \<in> set (snaps (\<lambda>_. 1) ?es). se_path f = fst e \<longrightarrow> retained 50 (snaps (\<lambda>_. 1) ?es) f}"
    by (rule prune_retention) (simp add: io_ok_def)
  moreover have "\<not> list_all (\<lambda>f. se_path f = ''30.json'' \<longrightarrow> retained 50 (snaps (\<lambda>_. 1) ?es) f) (snaps (\<lambda>_. 1) ?es)"
    by code_simp
  ultimately show ?thesis by (auto simp: list_all_iff)
qed

text \<open>
  In map mode, \<open>SetKey\<close> changes the key it is given and no other: the map read afterwards is the
  map read before with that key updated, whether or not the domain had a snapshot, given that the JSON
  encoding of a map decodes to the same map.
\<close>

theorem SetKey_updates_map:
  assumes "dir_ok (dir_entries dir)" "clock_ahead now (dir_entries dir)"
    and "mkdir_ok io" "write_ok io" "rename_ok io" and json: "\<And>m. dec (enc m) = Some m"
  shows "\<exists>dir' n. Domain_SetKey len io now dec enc key val (Some dir) = (Inr (), Some dir', n) \<and>
    Domain_AllKeys dec (Some dir') = (Domain_AllKeys dec (Some dir))(key \<mapsto> val)"
proof -
  define m where "m = (Domain_AllKeys dec (Some dir))(key \<mapsto> val)"
  obtain es' n where w: "writeLocked len io now (enc m) dir = (Inr (), Some es', n)"
    and r: "readCurrentLocked dec (Some es') = Inr m"
    using write_then_read [where dec = dec and data = "enc m" and v = m, OF assms(1-5) json] by blast
  have "Domain_SetKey len io now dec enc key val (Some dir) = (Inr (), Some (Some es'), n)"
    using w by (simp add: Domain_SetKey_def Domain_Update_def Domain_AllKeys_def Domain_ReadCurrent_def m_def)
  moreover have "Domain_AllKeys dec (Some (Some es')) = m"
    using r by (simp add: Domain_AllKeys_def Domain_ReadCurrent_def)
  ultimately show ?thesis unfolding m_def by blast
qed

theorem SetKey_updates_map_witness:
  "\<exists>dir' n. Domain_SetKey (\<lambda>_. 1) io_ok 9 Some id ''k'' (3::nat) (Some None) = (Inr (), Some dir', n) \<and>
    Domain_AllKeys Some (Some dir') = (Domain_AllKeys Some (Some None))(''k'' \<mapsto> 3)"
  by (rule SetKey_updates_map)
     (simp_all add: io_ok_def dir_entries_def dir_ok_def clock_ahead_def)

section \<open>What the retention keeps under regular writing\<close>

text \<open>A domain that is written every five minutes, from an empty store.\<close>

primrec every_five :: "('d \<Rightarrow> nat) \<Rightarrow> instant \<Rightarrow> (nat \<Rightarrow> 'd) \<Rightarrow> nat \<Rightarrow> 'd dir" where
  "every_five len t0 dat 0 = None"
| "every_five len t0 dat (Suc n) =
     fst (snd (writeLocked len io_ok (t0 + int n * (5 * minute)) (dat n) (every_five len t0 dat n)))"

definition tick_at :: "instant \<Rightarrow> nat \<Rightarrow> instant" where
  "tick_at t0 i = t0 + int i * (5 * minute)"

definition tick_entry :: "instant \<Rightarrow> (nat \<Rightarrow> 'd) \<Rightarrow> nat \<Rightarrow> string \<times> 'd node" where
  "tick_entry t0 dat i = (snapshot_name (tick_at t0 i), File (dat i))"

lemma bucket_key_tick:
  "j \<le> 14 \<Longrightarrow> bucket_key now (now - int j * (5 * minute)) = (if j \<le> 12 then (0, int j) else (1, 1))"
proof -
  assume "j \<le> 14"
  then consider "j \<le> 12" | "j = 13" | "j = 14" by linarith
  then show ?thesis
  proof cases
    case 1
    then have "int j * 300000000000 \<le> 3600000000000" by simp
    moreover have "time_Sub now (now - int j * 300000000000) = int j * 300000000000"
      using 1 by (simp add: time_Sub_def)
    ultimately show ?thesis
      using 1 by (simp add: bucket_key_def retentionTiers_def duration_defs quot_nonneg Let_def)
  qed (simp_all add: bucket_key_def time_Sub_def retentionTiers_def duration_defs quot_nonneg)
qed

lemma snapshot_name_inj:
  "snapshot_name a = snapshot_name b \<Longrightarrow> 0 < a \<Longrightarrow> a < 2 ^ 63 \<Longrightarrow> 0 < b \<Longrightarrow> b < 2 ^ 63 \<Longrightarrow> a = b"
  by (rule show_int_inj) (auto simp: snapshot_name_def)

lemma snapshot_name_not_tmp: "snapshot_name a \<noteq> snapshot_name b @ ''.tmp''"
proof
  assume eq: "snapshot_name a = snapshot_name b @ ''.tmp''"
  have "last (snapshot_name a) = CHR ''n''" by (simp add: snapshot_name_def json_ext_def)
  with eq show False by simp
qed

lemma tick_entry_ns:
  assumes "0 < t0" "tick_at t0 i < 2 ^ 63"
  shows "entry_ns (tick_entry t0 dat i) = Some (tick_at t0 i)"
proof -
  have "0 \<le> tick_at t0 i" using assms(1) by (simp add: tick_at_def minute_def second_def)
  with assms(2) show ?thesis unfolding tick_entry_def by (intro entry_ns_snapshot) simp_all
qed

lemma tick_less: "i < j \<longleftrightarrow> tick_at t0 i < tick_at t0 j"
  by (simp add: tick_at_def minute_def second_def)

lemma tick_back: "j \<le> n \<Longrightarrow> tick_at t0 j = tick_at t0 n - int (n - j) * (5 * minute)"
  by (simp add: tick_at_def of_nat_diff algebra_simps)

lemma tick_pos: "0 < t0 \<Longrightarrow> 0 < tick_at t0 i"
  by (simp add: tick_at_def minute_def second_def add_pos_nonneg)

definition recent :: "nat \<Rightarrow> nat \<Rightarrow> nat set" where
  "recent k n = {i. i < n \<and> n \<le> i + k}"

lemma tick_entry_inj:
  assumes "0 < t0" "tick_at t0 n < 2 ^ 63" "i \<le> n" "j \<le> n" "fst (tick_entry t0 dat i) = fst (tick_entry t0 dat j)"
  shows "i = j"
proof -
  have "tick_at t0 i \<le> tick_at t0 n" "tick_at t0 j \<le> tick_at t0 n"
    using assms(3,4) by (simp_all add: tick_at_def minute_def second_def)
  then have "tick_at t0 i = tick_at t0 j"
    using assms by (intro snapshot_name_inj) (auto simp: tick_entry_def tick_pos)
  then show ?thesis by (metis linorder_neq_iff tick_less)
qed

definition tick_snap :: "('d \<Rightarrow> nat) \<Rightarrow> instant \<Rightarrow> (nat \<Rightarrow> 'd) \<Rightarrow> nat \<Rightarrow> snap_entry" where
  "tick_snap len t0 dat i =
     \<lparr>se_path = fst (tick_entry t0 dat i), se_ns = tick_at t0 i, se_size = len (dat i)\<rparr>"

lemma snaps_ticks:
  assumes "0 < t0" "tick_at t0 n < 2 ^ 63" "set es = tick_entry t0 dat ` I" "I \<subseteq> {..n}"
  shows "set (snaps len es) = tick_snap len t0 dat ` I"
proof -
  have ns: "entry_ns (tick_entry t0 dat i) = Some (tick_at t0 i)" if "i \<in> I" for i
  proof (rule tick_entry_ns [OF assms(1)])
    have "tick_at t0 i \<le> tick_at t0 n" using that assms(4) by (auto simp: tick_at_def minute_def second_def)
    then show "tick_at t0 i < 2 ^ 63" using assms(2) by simp
  qed
  have "to_snap len (tick_entry t0 dat i) = Some (tick_snap len t0 dat i)" if "i \<in> I" for i
    using ns [OF that] by (simp add: to_snap_def tick_snap_def tick_entry_def)
  then show ?thesis
    using assms(3) by (force simp: snaps_def List.map_filter_def image_iff)
qed

lemma tick_bucket:
  assumes "i \<le> n" "n \<le> i + 14"
  shows "bucket_key (tick_at t0 n) (tick_at t0 i) = (if n \<le> i + 12 then (0, int (n - i)) else (1, 1))"
  using bucket_key_tick [of "n - i" "tick_at t0 n"] assms by (simp add: tick_back [of i n] le_diff_conv)

lemma tick_retained:
  assumes ss: "set ss = tick_snap len t0 dat ` {i. i \<le> n \<and> n \<le> i + 14}" and i: "i \<le> n" "n \<le> i + 14"
  shows "retained (tick_at t0 n) ss (tick_snap len t0 dat i) \<longleftrightarrow> n \<le> i + 13"
proof -
  have ns [simp]: "se_ns (tick_snap len t0 dat k) = tick_at t0 k" for k by (simp add: tick_snap_def)
  have live: "live (tick_at t0 n) (tick_snap len t0 dat k)" if "k \<le> n" "n \<le> k + 14" for k
  proof -
    have "int (n - k) \<le> 14" using that by simp
    then have "int (n - k) * 300000000000 \<le> 14 * 300000000000" by linarith
    then show ?thesis
      using tick_back [OF that(1), of t0]
      by (simp add: live_def time_Sub_def maxAge_def retentionTiers_def duration_defs)
  qed
  have same: "same_bucket (tick_at t0 n) (tick_snap len t0 dat i) (tick_snap len t0 dat k) \<longleftrightarrow>
      k = i \<or> (i + 12 < n \<and> k + 12 < n)" if "k \<le> n" "n \<le> k + 14" for k
    using that i tick_bucket [OF i, of t0] tick_bucket [OF that, of t0] by (auto simp: same_bucket_def)
  have le: "tick_at t0 k \<le> tick_at t0 i \<longleftrightarrow> k \<le> i" for k
    by (simp add: tick_at_def minute_def second_def)
  have "retained (tick_at t0 n) ss (tick_snap len t0 dat i) \<longleftrightarrow>
      (\<forall>k. k \<le> n \<and> n \<le> k + 14 \<longrightarrow> k = i \<or> (i + 12 < n \<and> k + 12 < n) \<longrightarrow> k \<le> i)"
    unfolding retained_def ss using live i same by (auto simp: le)
  also have "\<dots> \<longleftrightarrow> n \<le> i + 13"
  proof
    assume all: "\<forall>k. k \<le> n \<and> n \<le> k + 14 \<longrightarrow> k = i \<or> (i + 12 < n \<and> k + 12 < n) \<longrightarrow> k \<le> i"
    show "n \<le> i + 13" using all [rule_format, of "Suc i"] i by linarith
  qed (use i in auto)
  finally show ?thesis .
qed

lemma every_five_step:
  assumes t: "0 < t0" "tick_at t0 n < 2 ^ 63" and d: "dir_ok (dir_entries d)"
    and es: "set (dir_entries d) = tick_entry t0 dat ` {i. i < n \<and> n \<le> i + 14}"
  shows "\<exists>es'. fst (snd (writeLocked len io_ok (tick_at t0 n) (dat n) d)) = Some es' \<and> dir_ok es' \<and>
    set es' = tick_entry t0 dat ` {i. i \<le> n \<and> n \<le> i + 13}"
proof -
  let ?I = "{i. i \<le> n \<and> n \<le> i + 14}"
  let ?p = "put_snapshot (tick_at t0 n) (dat n) (dir_entries d)"
  have ns: "entry_ns (tick_entry t0 dat i) = Some (tick_at t0 i)" if "i \<le> n" for i
  proof (rule tick_entry_ns [OF t(1)])
    have "tick_at t0 i \<le> tick_at t0 n" using that by (simp add: tick_at_def minute_def second_def)
    then show "tick_at t0 i < 2 ^ 63" using t(2) by simp
  qed
  have ahead: "clock_ahead (tick_at t0 n) (dir_entries d)"
    using t tick_pos [OF t(1), of n] ns es tick_less by (fastforce simp: clock_ahead_def list_all_iff)
  have ok: "dir_ok ?p" by (rule dir_ok_put_snapshot [OF d ahead])
  have "fst (tick_entry t0 dat i) \<noteq> snapshot_name (tick_at t0 n)" if "i < n" for i
    using tick_entry_inj [OF t, of i n dat] that by (auto simp: tick_entry_def)
  then have p: "set ?p = tick_entry t0 dat ` ?I"
    unfolding set_put_snapshot es
    by (auto simp: image_iff tick_entry_def snapshot_name_not_tmp le_less)
  have snaps: "set (snaps len ?p) = tick_snap len t0 dat ` ?I"
    by (rule snaps_ticks [OF t p]) auto
  define Q where "Q e \<longleftrightarrow> (\<forall>f \<in> set (snaps len ?p). se_path f = fst e \<longrightarrow> retained (tick_at t0 n) (snaps len ?p) f)"
    for e :: "string \<times> 'a node"
  have iff: "Q (tick_entry t0 dat i) \<longleftrightarrow> n \<le> i + 13" if "i \<in> ?I" for i
    using that tick_retained [OF snaps] tick_entry_inj [OF t, of _ i dat]
    unfolding Q_def snaps by (auto simp: tick_snap_def)
  have "set (fst (prune len io_ok (tick_at t0 n) ?p)) = {e \<in> tick_entry t0 dat ` ?I. Q e}"
    unfolding prune_set [OF ok] p Q_def by (simp add: io_ok_def)
  also have "\<dots> = tick_entry t0 dat ` {i \<in> ?I. Q (tick_entry t0 dat i)}" by blast
  also have "{i \<in> ?I. Q (tick_entry t0 dat i)} = {i. i \<le> n \<and> n \<le> i + 13}" using iff by auto
  finally have "set (fst (prune len io_ok (tick_at t0 n) ?p)) = tick_entry t0 dat ` {i. i \<le> n \<and> n \<le> i + 13}" .
  moreover have "dir_ok (fst (prune len io_ok (tick_at t0 n) ?p))" by (rule prune_dir_ok [OF ok])
  ultimately show ?thesis
    using writeLocked_ok [of io_ok len "tick_at t0 n" "dat n" d]
    by (auto simp: io_ok_def dir_entries_def Let_def split_beta)
qed

lemma every_five_invariant:
  assumes "0 < t0" "tick_at t0 n < 2 ^ 63"
  shows "\<exists>es. every_five len t0 dat (Suc n) = Some es \<and> dir_ok es \<and>
    set es = tick_entry t0 dat ` {i. i \<le> n \<and> n \<le> i + 13}"
  using assms(2)
proof (induction n)
  case 0
  then show ?case
    using every_five_step [OF assms(1) 0, of None dat len] by (simp add: dir_entries_def dir_ok_def tick_at_def)
next
  case (Suc n)
  have "tick_at t0 n < 2 ^ 63" using Suc.prems by (simp add: tick_at_def minute_def second_def)
  from Suc.IH [OF this] obtain es where es: "every_five len t0 dat (Suc n) = Some es" "dir_ok es"
    "set es = tick_entry t0 dat ` {i. i \<le> n \<and> n \<le> i + 13}" by blast
  have "{i. i \<le> n \<and> n \<le> i + 13} = {i. i < Suc n \<and> Suc n \<le> i + 14}" by auto
  then show ?case
    using every_five_step [OF assms(1) Suc.prems, of "every_five len t0 dat (Suc n)" dat len] es
    by (simp add: dir_entries_def tick_at_def)
qed

text \<open>
  A domain written every five minutes never accumulates the hourly and daily history the tiers
  promise. However many writes there are, what is on disk is the last fourteen snapshots, so nothing
  older than 65 minutes: bucket numbers are computed from the age at each write, so the snapshot that
  has just left the first hour displaces the one before it from the hour bucket, every time.
\<close>

theorem five_minute_writes_keep_65_minutes:
  assumes "0 < t0" "t0 + int n * (5 * minute) < 2 ^ 63"
  shows "\<exists>es. every_five len t0 dat (Suc n) = Some es \<and>
    set es = (\<lambda>i. (snapshot_name (t0 + int i * (5 * minute)), File (dat i))) ` {i. i \<le> n \<and> n \<le> i + 13}"
  using every_five_invariant [OF assms(1), of n len dat] assms(2) unfolding tick_at_def tick_entry_def by blast

theorem five_minute_writes_keep_65_minutes_witness:
  "\<exists>es. every_five (\<lambda>_. 1) 1700000000000000000 (\<lambda>i. i) (Suc 500) = Some es \<and>
    set es = (\<lambda>i. (snapshot_name (1700000000000000000 + int i * (5 * minute)), File i)) ` {i. i \<le> 500 \<and> 500 \<le> i + 13}"
  by (rule five_minute_writes_keep_65_minutes) (simp_all add: duration_defs)

text \<open>
  If a snapshot in the directory carries a timestamp from the future (the clock was stepped
  back), the next write deletes its own snapshot: \<open>Write\<close> reports success and the value is gone, because
  ages below zero count as zero and the future snapshot wins the newest bucket.
\<close>

theorem write_loses_to_future_snapshot:
  assumes "dir_ok es" "(snapshot_name t, File x) \<in> set es" "now < t" "0 < now" "t < 2 ^ 63"
    and fresh: "\<forall>e \<in> set es. entry_ns e \<noteq> Some now"
  shows "\<exists>es' n. Domain_Write len io_ok now data (Some (Some es)) = (Inr (), Some (Some es'), n) \<and>
    snapshot_name now \<notin> fst ` set es'"
proof -
  let ?p = "put_snapshot now data es"
  have new: "entry_ns (snapshot_name now, File y) = Some now" for y
    using assms(3-5) by (intro entry_ns_snapshot) simp_all
  have fut: "entry_ns (snapshot_name t, File x) = Some t"
    using assms(3-5) by (intro entry_ns_snapshot) simp_all
  have ok: "dir_ok ?p" by (rule dir_ok_put_fresh [OF assms(1) fresh new])
  have t_in: "(snapshot_name t, File x) \<in> set ?p"
    using assms(2-5) snapshot_name_inj [of t now] by (auto simp: set_put_snapshot snapshot_name_not_tmp)
  define g where "g = \<lparr>se_path = snapshot_name t, se_ns = t, se_size = len x\<rparr>"
  define f where "f = \<lparr>se_path = snapshot_name now, se_ns = now, se_size = len data\<rparr>"
  have "g \<in> set (snaps len ?p)" unfolding snaps_iff g_def using t_in fut by auto
  moreover have "f \<in> set (snaps len ?p)" unfolding snaps_iff f_def using new by (auto simp: set_put_snapshot)
  moreover have "live now g" "same_bucket now f g" "se_ns f < se_ns g"
    using assms(3-5) by (auto simp: live_def same_bucket_def bucket_key_def time_Sub_def f_def g_def
      maxAge_def retentionTiers_def duration_defs Let_def)
  ultimately have "f \<in> set (snaps len ?p) \<and> \<not> retained now (snaps len ?p) f"
    by (auto simp: retained_def)
  then have "snapshot_name now \<notin> fst ` set (fst (prune len io_ok now ?p))"
    unfolding prune_set [OF ok] by (force simp: io_ok_def f_def)
  then show ?thesis
    using writeLocked_ok [of io_ok len now data "Some es"]
    by (auto simp: Domain_Write_def io_ok_def Let_def split_beta)
qed

theorem write_loses_to_future_snapshot_witness:
  "\<exists>es' n. Domain_Write (\<lambda>_. 1) io_ok 50 (2::nat) (Some (Some [(snapshot_name 60, File 1)]))
      = (Inr (), Some (Some es'), n) \<and> snapshot_name 50 \<notin> fst ` set es'"
  by (rule write_loses_to_future_snapshot [where t = 60 and x = 1])
     (simp_all add: dir_ok_def entry_ns_snapshot)

section \<open>The byte count\<close>

definition store_ok :: "('d, 'r) Store \<Rightarrow> bool" where
  "store_ok s \<longleftrightarrow> distinct (map fst (s_doms s)) \<and> list_all (\<lambda>d. dir_ok (snd d)) (s_doms s)"

text \<open>A clock reading no file of the domain carries, as name, temporary name or timestamp.\<close>

definition fresh_time :: "instant \<Rightarrow> 'd entries \<Rightarrow> bool" where
  "fresh_time now es \<longleftrightarrow> - (2 ^ 63) \<le> now \<and> now < 2 ^ 63 \<and>
     list_all (\<lambda>e. entry_ns e \<noteq> Some now \<and> fst e \<noteq> snapshot_name now \<and> fst e \<noteq> snapshot_name now @ ''.tmp'') es"

text \<open>The histories of a store: it measures the disk once and then runs any of its operations.\<close>

inductive store_reach :: "('d \<Rightarrow> nat) \<Rightarrow> ((string \<rightharpoonup> 'r) \<Rightarrow> nat) \<Rightarrow> ('d, 'r) Store \<Rightarrow> bool"
  for len :: "'d \<Rightarrow> nat" and mlen :: "(string \<rightharpoonup> 'r) \<Rightarrow> nat" where
  New: "store_ok disk \<Longrightarrow> store_reach len mlen (Store_New len mlen disk)"
| Write: "store_reach len mlen s \<Longrightarrow> fresh_time now (dir_entries (Store_Domain name s)) \<Longrightarrow>
    Store_Write len io now name data s = (r, s') \<Longrightarrow> store_reach len mlen s'"
| AttrsSet: "store_reach len mlen s \<Longrightarrow> Store_AttrsSet mlen io key val s = (r, s') \<Longrightarrow> store_reach len mlen s'"
| AttrsDelete: "store_reach len mlen s \<Longrightarrow> Store_AttrsDelete mlen io key s = (r, s') \<Longrightarrow> store_reach len mlen s'"
| Clear: "store_reach len mlen s \<Longrightarrow> Store_Clear len mlen io s = (r, s') \<Longrightarrow> store_reach len mlen s'"

lemma sum_list_update:
  fixes g :: "'b \<Rightarrow> int"
  assumes "distinct (map fst al)"
  shows "(\<Sum>d \<leftarrow> AList.update k v al. g (snd d)) =
    (\<Sum>d \<leftarrow> al. g (snd d)) - (case map_of al k of None \<Rightarrow> 0 | Some w \<Rightarrow> g w) + g v"
  using assms
proof (induction al)
  case (Cons d al)
  then show ?case by (cases d) (auto split: option.splits)
qed simp

lemma set_update_subset: "set (AList.update k v al) \<subseteq> insert (k, v) (set al)"
  by (induction al) auto

lemma writeLocked_accounts:
  assumes "dir_ok (dir_entries d)" "fresh_time now (dir_entries d)"
    and w: "writeLocked len io now data d = (r, d', delta)"
  shows "dir_size len (dir_entries d') = dir_size len (dir_entries d) + delta \<and> dir_ok (dir_entries d')"
proof -
  have rm: "dir_remove (snapshot_name now @ ''.tmp'') (dir_entries d) = dir_entries d"
    using assms(2) by (simp add: dir_remove_def fresh_time_def list_all_iff filter_True)
  show ?thesis
  proof (cases "mkdir_ok io \<and> write_ok io \<and> rename_ok io")
    case False
    then have "dir_entries d' = dir_entries d" "delta = 0"
      using w rm by (auto simp: writeLocked_def Let_def dir_entries_def split: if_splits option.splits)
    then show ?thesis using assms(1) by simp
  next
    case True
    let ?p = "put_snapshot now data (dir_entries d)"
    have new: "entry_ns (snapshot_name now, File data) = Some now"
      using assms(2) by (intro entry_ns_snapshot) (auto simp: fresh_time_def)
    have ok: "dir_ok ?p"
      using assms(2) by (intro dir_ok_put_fresh [OF assms(1) _ new]) (auto simp: fresh_time_def list_all_iff)
    have "snapshot_name now \<notin> fst ` set (dir_entries d)"
      using assms(2) by (auto simp: fresh_time_def list_all_iff)
    then have size: "dir_size len ?p = dir_size len (dir_entries d) + int (len data)"
      unfolding put_snapshot_def rm by (rule dir_size_put_new)
    have "d' = Some (fst (prune len io now ?p))" "delta = int (len data) - int (snd (prune len io now ?p))"
      using w writeLocked_ok [of io len now data d] True by (auto simp: dir_entries_def Let_def split_beta)
    then show ?thesis
      using prune_size [OF ok, of len io now] size prune_dir_ok [OF ok] by (simp add: dir_entries_def)
  qed
qed

lemma writeLocked_exists: "d = Some es \<Longrightarrow> writeLocked len io now data d = (r, d', n) \<Longrightarrow> d' \<noteq> None"
  by (auto simp: writeLocked_def Let_def split: if_splits prod.splits)

lemma dirSize_set_domain:
  assumes "store_ok s" "d' = None \<longrightarrow> Store_Domain name s = None"
  shows "dirSize len mlen (set_domain name d' s) =
    dirSize len mlen s - dir_size len (dir_entries (Store_Domain name s)) + dir_size len (dir_entries d')"
  using assms sum_list_update [of "s_doms s" "dir_size len" name]
  by (auto simp: dirSize_def set_domain_def store_ok_def Store_Domain_def dir_entries_def dir_size_def [of _ "[]"]
      split: option.splits)

lemma store_ok_set_domain:
  assumes "store_ok s" "dir_ok (dir_entries d')"
  shows "store_ok (set_domain name d' s)"
proof (cases d')
  case (Some es)
  with assms set_update_subset [of name es "s_doms s"] show ?thesis
    by (auto simp: set_domain_def store_ok_def distinct_update dir_entries_def list_all_iff)
qed (use assms in \<open>simp add: set_domain_def\<close>)

lemma attrs_write_accounts:
  "attrs_write mlen io m f = (r, f', delta) \<Longrightarrow> int (attrs_size mlen f') = int (attrs_size mlen f) + delta"
  by (auto simp: attrs_write_def attrs_size_def split: if_splits)

lemma store_attrs_accounts:
  assumes "Store_AttrsSet mlen io key val s = (r, s') \<or> Store_AttrsDelete mlen io key s = (r, s')"
  shows "s_doms s' = s_doms s \<and>
    int (attrs_size mlen (s_attrs s')) - sizeBytes s' = int (attrs_size mlen (s_attrs s)) - sizeBytes s"
  using assms attrs_write_accounts [of mlen io _ "s_attrs s"]
  by (auto simp: Store_AttrsSet_def Store_AttrsDelete_def Attrs_Set_def Attrs_Delete_def split: if_splits prod.splits)

lemma store_reach_invariant:
  "store_reach len mlen s \<Longrightarrow> store_ok s \<and> sizeBytes s = dirSize len mlen s"
proof (induction rule: store_reach.induct)
  case (New disk)
  then show ?case by (simp add: Store_New_def store_ok_def dirSize_def)
next
  case (Write s now name io data r s')
  obtain d delta where w: "writeLocked len io now data (Store_Domain name s) = (r, d, delta)"
    and s': "s' = (set_domain name d s)\<lparr>sizeBytes := sizeBytes s + delta\<rparr>"
    using Write.hyps(3) by (auto simp: Store_Write_def split: prod.splits)
  have "dir_ok (dir_entries (Store_Domain name s))"
  proof (cases "Store_Domain name s")
    case None
    then show ?thesis by (simp add: dir_entries_def dir_ok_def)
  next
    case (Some es)
    then have "(name, es) \<in> set (s_doms s)" by (simp add: Store_Domain_def map_of_SomeD)
    with Some Write.IH show ?thesis by (auto simp: store_ok_def dir_entries_def list_all_iff)
  qed
  note acc = writeLocked_accounts [OF this Write.hyps(2) w]
  have "d = None \<longrightarrow> Store_Domain name s = None"
    using writeLocked_exists [OF _ w] by (cases "Store_Domain name s") auto
  from dirSize_set_domain [OF _ this, of len mlen] store_ok_set_domain [of s d name] acc Write.IH
  show ?case by (simp add: s' dirSize_def store_ok_def)
next
  case (AttrsSet s io key val r s')
  then show ?case using store_attrs_accounts [of mlen io key val s r s'] by (auto simp: store_ok_def dirSize_def)
next
  case (AttrsDelete s io key r s')
  then show ?case using store_attrs_accounts [of mlen io key _ s r s'] by (auto simp: store_ok_def dirSize_def)
next
  case (Clear s io r s')
  then show ?case
    by (auto simp: Store_Clear_def Let_def store_ok_def dirSize_def list_all_iff distinct_map_filter)
qed


definition demo_store :: "(nat, nat) Store" where
  "demo_store = snd (Store_Write id io_ok 60 ''net'' 4
     (Store_New id (\<lambda>_. 3) \<lparr>s_doms = [(''net'', [(''50.json'', File 7)])], s_attrs = Missing, sizeBytes = 0\<rparr>))"


section \<open>The attribute store as a key-value interface\<close>

text \<open>
  What the clients of the attribute store rely on: reading back the key just written, leaving the other
  keys alone, and forgetting a deleted key.
\<close>

locale kv =
  fixes get :: "'k \<Rightarrow> 's \<Rightarrow> 'v option"
    and put :: "'k \<Rightarrow> 'v \<Rightarrow> 's \<Rightarrow> 's"
    and del :: "'k \<Rightarrow> 's \<Rightarrow> 's"
  assumes get_put: "get k' (put k v s) = (if k' = k then Some v else get k' s)"
    and get_del: "get k' (del k s) = (if k' = k then None else get k' s)"
begin

definition modify :: "'k \<Rightarrow> ('v \<Rightarrow> 'v) \<Rightarrow> 's \<Rightarrow> 's" where
  "modify k f s = (case get k s of None \<Rightarrow> s | Some v \<Rightarrow> put k (f v) s)"

lemma get_modify: "get k' (modify k f s) = (if k' = k then map_option f (get k s) else get k' s)"
  by (auto simp: modify_def get_put split: option.split)

lemma modify_modify: "get k' (modify k f (modify k g s)) = get k' (modify k (f \<circ> g) s)"
  by (auto simp: get_modify option.map_comp)

lemma put_commute: "k1 \<noteq> k2 \<Longrightarrow> get k (put k1 v1 (put k2 v2 s)) = get k (put k2 v2 (put k1 v1 s))"
  by (simp add: get_put)

lemma get_fold_del: "get k' (fold del ks s) = (if k' \<in> set ks then None else get k' s)"
  by (induction ks arbitrary: s) (auto simp: get_del)

end

text \<open>The file after a successful \<open>Set\<close> or \<open>Delete\<close>.\<close>

definition attrs_put :: "string \<Rightarrow> 'r \<Rightarrow> 'r attrs_file \<Rightarrow> 'r attrs_file" where
  "attrs_put key val f = Attrs ((attrs_map f)(key \<mapsto> val))"

definition attrs_del :: "string \<Rightarrow> 'r attrs_file \<Rightarrow> 'r attrs_file" where
  "attrs_del key f = (if attrs_map f key = None then f else Attrs ((attrs_map f)(key := None)))"

definition attrs_get :: "string \<Rightarrow> 'r attrs_file \<Rightarrow> 'r option" where
  "attrs_get key f = attrs_map f key"

lemma Attrs_Set_ok:
  "mkdir_ok io \<Longrightarrow> write_ok io \<Longrightarrow> rename_ok io \<Longrightarrow>
    fst (snd (Attrs_Set mlen io key val (Some f))) = Some (attrs_put key val f)"
  by (simp add: Attrs_Set_def attrs_write_def attrs_put_def)

lemma Attrs_Delete_ok:
  "write_ok io \<Longrightarrow> rename_ok io \<Longrightarrow>
    fst (snd (Attrs_Delete mlen io key (Some f))) = Some (attrs_del key f)"
  by (simp add: Attrs_Delete_def attrs_write_def attrs_del_def)

lemma Attrs_Get_get:
  "Attrs_Get dec key (Some f) = Inr v \<longleftrightarrow> (\<exists>x. attrs_get key f = Some x \<and> dec x = Some v)"
  by (cases f) (auto simp: Attrs_Get_def attrs_get_def attrs_map_def decode_as_def split: option.splits)

interpretation attrs: kv attrs_get attrs_put attrs_del
  by unfold_locales (auto simp: attrs_get_def attrs_put_def attrs_del_def attrs_map_def)

declare attrs.get_put [store_laws] attrs.get_del [store_laws] attrs.get_modify [store_laws]

text \<open>
  The attribute store keeps its promises to its callers. A successful \<open>Set\<close> makes \<open>Get\<close> of that key
  return the value and leaves every other key as it was, also when the file was missing or did not
  parse; a successful \<open>Delete\<close> makes the key unreadable; a failed \<open>Set\<close> changes nothing.
\<close>

theorem attrs_set_get:
  fixes f :: "'r attrs_file"
  shows "(case Attrs_Set mlen io key val (Some f) of
      (Inr _, Some f', _) \<Rightarrow> Attrs_Get Some key (Some f') = Inr val \<and>
        (\<forall>k. k \<noteq> key \<longrightarrow> attrs_get k f' = attrs_get k f)
    | (Inl _, a, n) \<Rightarrow> a = Some f \<and> n = 0
    | _ \<Rightarrow> False) \<and>
    (case Attrs_Delete mlen io key (Some f) of
      (Inr _, Some f', _) \<Rightarrow> \<not> (\<exists>v. Attrs_Get Some key (Some f') = Inr (v :: 'r)) \<and>
        (\<forall>k. k \<noteq> key \<longrightarrow> attrs_get k f' = attrs_get k f)
    | (Inl _, a, n) \<Rightarrow> a = Some f \<and> n = 0
    | _ \<Rightarrow> False)"
  unfolding Attrs_Get_get
  by (auto simp: Attrs_Set_def Attrs_Delete_def attrs_write_def attrs_get_def attrs_map_def)

theorem attrs_set_get_witness:
  "Attrs_Get Some ''a'' (fst (snd (Attrs_Set (\<lambda>_. 2) io_ok ''a'' (5::nat) (Some (Garbled 9))))) = Inr 5"
  using attrs_set_get [where mlen = "\<lambda>_. 2" and io = io_ok and key = "''a''" and val = "5::nat" and f = "Garbled 9"]
  by (simp add: Attrs_Set_def attrs_write_def io_ok_def)

end
