(* ===== verification/Agent_Data.thy ===== *)
theory Agent_Data
  imports Memory_Store
begin

text \<open>
  The data the endpoint server keeps in its memory store and the accessors its components share:
  timeline entries (\<open>status/types.go\<close>, \<open>status/timeline.go\<close>), approval and manual-run records, standing
  policies, and the timeline helpers of \<open>request_approval.go\<close> and \<open>request_manual_run.go\<close>.

  The components see the store as an \<open>amem\<close>: the attribute file and the value of the newest timeline
  snapshot. \<open>wr\<close> says which writes succeed. That one snapshot value behaves like a variable is the
  interface \<open>snapshot_cell\<close>, which the domain store of \<open>Memory_Store\<close> provides.
\<close>

section \<open>Records\<close>

record TimelineEntry =
  te_ID :: string
  te_Time :: string
  te_Type :: string
  te_Title :: string
  te_Detail :: string
  te_Severity :: string
  te_Importance :: string
  te_Risk :: string
  te_ProposedAction :: "string option"
  te_Status :: "string option"
  te_RetryCount :: int
  te_ParentID :: string
  te_SudoersInstruction :: "string option"

definition zero_entry :: TimelineEntry where
  "zero_entry = \<lparr>te_ID = '''', te_Time = '''', te_Type = '''', te_Title = '''', te_Detail = '''', te_Severity = '''',
     te_Importance = '''', te_Risk = '''', te_ProposedAction = None, te_Status = None, te_RetryCount = 0,
     te_ParentID = '''', te_SudoersInstruction = None\<rparr>"

record ApprovalEntry =
  ae_ID :: string
  ae_Title :: string
  ae_Detail :: string
  ae_ProposedAction :: string
  ae_Importance :: string
  ae_Risk :: string
  ae_Status :: string
  ae_RequestedAt :: instant
  ae_DecidedAt :: "instant option"
  ae_Reason :: string
  ae_RetryCount :: int
  ae_ParentID :: string
  ae_AutoExecute :: bool
  ae_ExecReason :: string
  ae_Output :: string
  ae_Escalated :: bool

record ManualRunEntry =
  mr_ID :: string
  mr_Title :: string
  mr_Command :: string
  mr_Host :: string
  mr_Reason :: string
  mr_SudoersInstruction :: string
  mr_Status :: string
  mr_Output :: string
  mr_RequestedAt :: instant
  mr_CompletedAt :: "instant option"

record Policy =
  po_ID :: string
  po_Description :: string
  po_Pattern :: string
  po_Risk :: string
  po_CreatedAt :: string
  po_Enabled :: bool

text \<open>A stored JSON value, as the value that was marshalled; decoding it at another type fails.\<close>

datatype raw =
    RApproval ApprovalEntry
  | RManual ManualRunEntry
  | RPolicies "Policy list"
  | RCounts "(string \<times> int) list"
  | ROther nat

definition dec_approval :: "raw \<Rightarrow> ApprovalEntry option" where
  "dec_approval r = (case r of RApproval e \<Rightarrow> Some e | _ \<Rightarrow> None)"

definition dec_manual :: "raw \<Rightarrow> ManualRunEntry option" where
  "dec_manual r = (case r of RManual e \<Rightarrow> Some e | _ \<Rightarrow> None)"

definition dec_policies :: "raw \<Rightarrow> Policy list option" where
  "dec_policies r = (case r of RPolicies ps \<Rightarrow> Some ps | _ \<Rightarrow> None)"

definition dec_counts :: "raw \<Rightarrow> (string \<times> int) list option" where
  "dec_counts r = (case r of RCounts cs \<Rightarrow> Some cs | _ \<Rightarrow> None)"

record notification =
  n_subject :: string
  n_body :: "string list"     \<comment> \<open>the values interpolated into the body\<close>

record amem =
  am_attrs :: "raw attrs_file"
  am_timeline :: "TimelineEntry list option"

record wr =
  attrs_ok :: "string \<Rightarrow> bool"      \<comment> \<open>by attribute key\<close>
  tl_ok :: "string \<Rightarrow> bool"         \<comment> \<open>by timeline entry id\<close>

definition wr_ok :: wr where
  "wr_ok = \<lparr>attrs_ok = (\<lambda>_. True), tl_ok = (\<lambda>_. True)\<rparr>"

section \<open>Attributes\<close>

definition mem_get :: "(raw \<Rightarrow> 'v option) \<Rightarrow> string \<Rightarrow> amem \<Rightarrow> 'v result" where
  "mem_get dec key m = Attrs_Get dec key (Some (am_attrs m))"

definition mem_set :: "wr \<Rightarrow> string \<Rightarrow> raw \<Rightarrow> amem \<Rightarrow> unit result \<times> amem" where
  "mem_set wr key v m =
     (if attrs_ok wr key then (Inr (), m\<lparr>am_attrs := attrs_put key v (am_attrs m)\<rparr>)
      else (Inl (IOError ''attrs''), m))"

definition mem_delete :: "wr \<Rightarrow> string \<Rightarrow> amem \<Rightarrow> unit result \<times> amem" where
  "mem_delete wr key m =
     (if attrs_get key (am_attrs m) = None then (Inr (), m)
      else if attrs_ok wr key then (Inr (), m\<lparr>am_attrs := attrs_del key (am_attrs m)\<rparr>)
      else (Inl (IOError ''attrs''), m))"

text \<open>These are the store's own operations, with the three system calls of a write as one outcome.\<close>

lemma mem_set_Attrs_Set:
  "fst (snd (Attrs_Set mlen \<lparr>mkdir_ok = b, write_ok = b, rename_ok = b, remove_ok = rm\<rparr> key v (Some (am_attrs m))))
    = Some (am_attrs (snd (mem_set wr key v m)))" if "b \<longleftrightarrow> attrs_ok wr key"
  using that by (simp add: Attrs_Set_def mem_set_def attrs_write_def attrs_put_def)

lemma mem_delete_Attrs_Delete:
  "fst (snd (Attrs_Delete mlen \<lparr>mkdir_ok = b, write_ok = b, rename_ok = b, remove_ok = rm\<rparr> key (Some (am_attrs m))))
    = Some (am_attrs (snd (mem_delete wr key m)))" if "b \<longleftrightarrow> attrs_ok wr key"
  using that by (simp add: Attrs_Delete_def mem_delete_def attrs_write_def attrs_del_def attrs_get_def)

lemma mem_get_iff: "mem_get dec key m = Inr v \<longleftrightarrow> (\<exists>x. attrs_get key (am_attrs m) = Some x \<and> dec x = Some v)"
  by (simp add: mem_get_def Attrs_Get_get)

section \<open>The timeline\<close>

definition maxTimelineEntries :: nat where "maxTimelineEntries = 50"

text \<open>Prepend and keep the newest fifty: \<open>AppendTimeline\<close> and both \<open>writeTimeline\<close> helpers.\<close>

definition prepend_capped :: "TimelineEntry \<Rightarrow> TimelineEntry list option \<Rightarrow> TimelineEntry list" where
  "prepend_capped e old = take maxTimelineEntries (e # (case old of None \<Rightarrow> [] | Some es \<Rightarrow> es))"

definition tl_write :: "wr \<Rightarrow> string \<Rightarrow> TimelineEntry list \<Rightarrow> amem \<Rightarrow> unit result \<times> amem" where
  "tl_write wr aid es m =
     (if tl_ok wr aid then (Inr (), m\<lparr>am_timeline := Some es\<rparr>) else (Inl (IOError ''timeline''), m))"

definition AppendTimeline :: "wr \<Rightarrow> (instant \<Rightarrow> string) \<Rightarrow> instant \<Rightarrow> TimelineEntry \<Rightarrow> amem \<Rightarrow> unit result \<times> amem" where
  "AppendTimeline wr fmt now e m =
     (let e = (if te_ID e = '''' then e\<lparr>te_ID := te_Type e @ ''-'' @ show_int now\<rparr> else e);
          e = (if te_Time e = '''' then e\<lparr>te_Time := fmt now\<rparr> else e)
      in tl_write wr (te_ID e) (prepend_capped e (am_timeline m)) m)"

definition PatchTimeline :: "wr \<Rightarrow> string \<Rightarrow> string \<Rightarrow> amem \<Rightarrow> unit result \<times> amem" where
  "PatchTimeline wr aid newStatus m =
     (case am_timeline m of
        None \<Rightarrow> (Inl (NotFound ''timeline''), m)
      | Some es \<Rightarrow>
          if list_ex (\<lambda>e. te_ID e = aid) es
          then tl_write wr aid (update_first (\<lambda>e. te_ID e = aid) (\<lambda>e. e\<lparr>te_Status := Some newStatus\<rparr>) es) m
          else (Inr (), m))"

definition RemoveFromTimeline :: "wr \<Rightarrow> string \<Rightarrow> amem \<Rightarrow> unit result \<times> amem" where
  "RemoveFromTimeline wr aid m =
     (case am_timeline m of
        None \<Rightarrow> (Inl (NotFound ''timeline''), m)
      | Some es \<Rightarrow>
          let filtered = filter (\<lambda>e. te_ID e \<noteq> aid) es in
          if length filtered = length es then (Inr (), m) else tl_write wr aid filtered m)"

lemma timeline_keeps_attrs [simp]:
  "am_attrs (snd (tl_write wr aid es m)) = am_attrs m"
  "am_attrs (snd (PatchTimeline wr aid st m)) = am_attrs m"
  "am_attrs (snd (RemoveFromTimeline wr aid m)) = am_attrs m"
  "am_attrs (snd (AppendTimeline wr fmt now e m)) = am_attrs m"
  by (auto simp: tl_write_def PatchTimeline_def RemoveFromTimeline_def AppendTimeline_def Let_def split: option.split)

lemma attrs_keep_timeline [simp]:
  "am_timeline (snd (mem_set wr key v m)) = am_timeline m"
  "am_timeline (snd (mem_delete wr key m)) = am_timeline m"
  by (simp_all add: mem_set_def mem_delete_def)

lemma mem_set_get:
  "attrs_get k (am_attrs (snd (mem_set wr key v m))) =
    (if attrs_ok wr key \<and> k = key then Some v else attrs_get k (am_attrs m))"
  by (simp add: mem_set_def attrs.get_put)

lemma mem_delete_get:
  "attrs_get k (am_attrs (snd (mem_delete wr key m))) =
    (if attrs_ok wr key \<and> k = key then None else attrs_get k (am_attrs m))"
  by (auto simp: mem_delete_def attrs.get_del)

section \<open>A domain as a variable\<close>


text \<open>
  The interface the timeline code relies on: at an admissible clock reading, what was written is what is
  read next, and writing keeps the store well formed.
\<close>

locale snapshot_cell =
  fixes inv :: "'s \<Rightarrow> bool" and admissible :: "'t \<Rightarrow> 's \<Rightarrow> bool"
    and read :: "'s \<Rightarrow> 'v option" and store :: "'t \<Rightarrow> 'v \<Rightarrow> 's \<Rightarrow> 's"
  assumes inv_write: "inv s \<Longrightarrow> admissible t s \<Longrightarrow> inv (store t v s)"
    and read_write: "inv s \<Longrightarrow> admissible t s \<Longrightarrow> read (store t v s) = Some v"
begin

text \<open>Read, change, write: the shape of every timeline operation.\<close>

definition rmw :: "'t \<Rightarrow> ('v option \<Rightarrow> 'v) \<Rightarrow> 's \<Rightarrow> 's" where
  "rmw t f s = store t (f (read s)) s"

lemma inv_rmw: "inv s \<Longrightarrow> admissible t s \<Longrightarrow> inv (rmw t f s)"
  by (simp add: rmw_def inv_write)

lemma read_rmw: "inv s \<Longrightarrow> admissible t s \<Longrightarrow> read (rmw t f s) = Some (f (read s))"
  by (simp add: rmw_def read_write)

text \<open>One after the other, the second operation works on the result of the first.\<close>

lemma read_rmw_rmw:
  "inv s \<Longrightarrow> admissible t s \<Longrightarrow> admissible u (rmw t f s) \<Longrightarrow>
    read (rmw u g (rmw t f s)) = Some (g (Some (f (read s))))"
  by (simp add: read_rmw inv_rmw)

text \<open>
  If both read before either writes, the second write hides the first, whatever it contained.
\<close>

lemma interleaved_rmw:
  "inv s \<Longrightarrow> admissible t s \<Longrightarrow> admissible u (store t (f (read s)) s) \<Longrightarrow>
    read (store u (g (read s)) (store t (f (read s)) s)) = Some (g (read s))"
  by (simp add: inv_write read_write)

end

text \<open>The domain store provides it.\<close>

definition cell_inv :: "'d dir \<Rightarrow> bool" where
  "cell_inv d \<longleftrightarrow> dir_ok (dir_entries d)"

definition cell_admissible :: "instant \<Rightarrow> 'd dir \<Rightarrow> bool" where
  "cell_admissible now d \<longleftrightarrow> clock_ahead now (dir_entries d)"

definition cell_read :: "'d dir \<Rightarrow> 'd option" where
  "cell_read d = (case readCurrentLocked Some d of Inl _ \<Rightarrow> None | Inr v \<Rightarrow> Some v)"

definition cell_write :: "('d \<Rightarrow> nat) \<Rightarrow> io \<Rightarrow> instant \<Rightarrow> 'd \<Rightarrow> 'd dir \<Rightarrow> 'd dir" where
  "cell_write len io now v d = fst (snd (writeLocked len io now v d))"

lemma cell_write_read:
  assumes "mkdir_ok io" "write_ok io" "rename_ok io" "cell_inv d" "cell_admissible now d"
  shows "cell_inv (cell_write len io now v d) \<and> cell_read (cell_write len io now v d) = Some v"
  using write_then_read [of d now io Some v v len] assms
  by (auto simp: cell_inv_def cell_admissible_def cell_write_def cell_read_def dir_entries_def)

interpretation cell: snapshot_cell cell_inv cell_admissible cell_read "cell_write len io_ok"
  using cell_write_read [of io_ok _ _ len] by unfold_locales (simp_all add: io_ok_def)

section \<open>The timeline on disk\<close>

text \<open>\<open>PatchTimeline\<close> as the code runs it, on the directory of the timeline domain.\<close>

definition PatchTimeline_disk ::
    "(TimelineEntry list \<Rightarrow> nat) \<Rightarrow> io \<Rightarrow> instant \<Rightarrow> string \<Rightarrow> string \<Rightarrow> TimelineEntry list dir \<Rightarrow>
      unit result \<times> TimelineEntry list dir" where
  "PatchTimeline_disk len io now aid newStatus d =
     (case readCurrentLocked Some d of
        Inl e \<Rightarrow> (Inl e, d)
      | Inr es \<Rightarrow>
          if list_ex (\<lambda>e. te_ID e = aid) es
          then (case writeLocked len io now
                  (update_first (\<lambda>e. te_ID e = aid) (\<lambda>e. e\<lparr>te_Status := Some newStatus\<rparr>) es) d of
                  (r, d', _) \<Rightarrow> (r, d'))
          else (Inr (), d))"

definition AppendTimeline_disk ::
    "(TimelineEntry list \<Rightarrow> nat) \<Rightarrow> io \<Rightarrow> instant \<Rightarrow> TimelineEntry \<Rightarrow> TimelineEntry list dir \<Rightarrow> TimelineEntry list dir" where
  "AppendTimeline_disk len io now e d = cell_write len io now (prepend_capped e (cell_read d)) d"

lemma PatchTimeline_refines:
  assumes "cell_inv d" "cell_admissible now d"
  shows "cell_read (snd (PatchTimeline_disk len io_ok now aid st d)) =
    am_timeline (snd (PatchTimeline wr_ok aid st \<lparr>am_attrs = a, am_timeline = cell_read d\<rparr>))"
proof (cases "readCurrentLocked Some d")
  case (Inl e)
  then show ?thesis by (simp add: PatchTimeline_disk_def PatchTimeline_def cell_read_def)
next
  case (Inr es)
  let ?es = "update_first (\<lambda>e. te_ID e = aid) (\<lambda>e. e\<lparr>te_Status := Some st\<rparr>) es"
  have "cell_read (cell_write len io_ok now ?es d) = Some ?es"
    by (rule cell.read_write [OF assms])
  with Inr show ?thesis
    by (auto simp: PatchTimeline_disk_def PatchTimeline_def tl_write_def wr_ok_def cell_read_def cell_write_def
        split: prod.split sum.splits)
qed


definition demo_card :: TimelineEntry where
  "demo_card = zero_entry\<lparr>te_ID := ''a1'', te_Status := Some ''pending''\<rparr>"


text \<open>
  The timeline helpers read and write the snapshot in two separate calls, so two of them that run
  at the same time can lose a card: if both have read before either writes, the card of the first writer
  is gone and the timeline is what the second writer alone would have produced.
\<close>

theorem concurrent_append_loses_card:
  assumes "cell_inv d" "cell_admissible t d" "cell_admissible u (AppendTimeline_disk len io_ok t e1 d)"
  shows "cell_read (cell_write len io_ok u (prepend_capped e2 (cell_read d)) (AppendTimeline_disk len io_ok t e1 d))
    = Some (prepend_capped e2 (cell_read d))"
  using cell.interleaved_rmw [OF assms(1,2), where u = u and f = "prepend_capped e1" and g = "prepend_capped e2" and len = len] assms(3)
  unfolding AppendTimeline_disk_def by simp

theorem concurrent_append_loses_card_witness:
  "cell_read (cell_write (\<lambda>_. 1) io_ok 8 (prepend_capped zero_entry None) (AppendTimeline_disk (\<lambda>_. 1) io_ok 7 demo_card None))
    = Some (prepend_capped zero_entry None)"
proof -
  have "cell_inv (None :: TimelineEntry list dir)" "cell_admissible 7 (None :: TimelineEntry list dir)"
    by (simp_all add: cell_inv_def cell_admissible_def dir_entries_def dir_ok_def clock_ahead_def)
  moreover have "cell_admissible 8 (AppendTimeline_disk (\<lambda>_. 1) io_ok 7 demo_card None)"
    unfolding cell_admissible_def clock_ahead_def by code_simp
  moreover have "cell_read (None :: TimelineEntry list dir) = None" by (simp add: cell_read_def readCurrentLocked_def newestFile_def)
  ultimately show ?thesis
    using concurrent_append_loses_card [of None 7 8 "\<lambda>_. 1" demo_card zero_entry] by simp
qed

end
