(* ===== verification/Approval.thy ===== *)
theory Approval
  imports Agent_Data
begin

text \<open>
  Operator approvals: \<open>skills/request_approval/request_approval.go\<close> (submission, the blocking waiter,
  the sweeper that reminds, expires and prunes) and the decision endpoint of \<open>approvalapi/approvalapi.go\<close>.
  Identifiers, clock readings, the order in which a Go map is walked (\<open>ks\<close>) and which writes succeed
  are arguments. The second half puts the operations together as a transition system and shows that an
  approved command is launched at most once, and only after an operator's decision on a pending request.
\<close>

section \<open>Records and timeouts\<close>

definition approvalTimeout :: duration where "approvalTimeout = 48 * hour"
definition highRiskApprovalTimeout :: duration where "highRiskApprovalTimeout = 96 * hour"
definition attrsRetention :: duration where "attrsRetention = 30 * 24 * hour"
definition maxAttrsEntries :: nat where "maxAttrsEntries = 200"

definition AttrsKey :: "string \<Rightarrow> string" where
  "AttrsKey i = ''approval:'' @ i"

definition timeoutFor :: "string \<Rightarrow> duration" where
  "timeoutFor risk = (if EqualFold risk ''high'' then highRiskApprovalTimeout else approvalTimeout)"

definition formatHours :: "duration \<Rightarrow> string" where
  "formatHours d = show_int (quot d hour) @ ''h''"

definition urgent :: "string \<Rightarrow> string \<Rightarrow> bool" where
  "urgent importance risk \<longleftrightarrow> EqualFold importance ''high'' \<or> EqualFold risk ''high''"

definition mk_note :: "string \<Rightarrow> string \<Rightarrow> string list \<Rightarrow> notification" where
  "mk_note tag title body = \<lparr>n_subject = tag @ '' '' @ title, n_body = body\<rparr>"

section \<open>Submission\<close>

definition writeTimeline ::
    "wr \<Rightarrow> (instant \<Rightarrow> string) \<Rightarrow> string \<Rightarrow> string \<Rightarrow> string \<Rightarrow> string \<Rightarrow> string \<Rightarrow> string \<Rightarrow> instant \<Rightarrow> amem \<Rightarrow>
      unit result \<times> amem" where
  "writeTimeline wr fmt i title detail action importance risk now m =
     tl_write wr i
       (prepend_capped
          (zero_entry\<lparr>te_ID := i, te_Time := fmt now, te_Type := ''approval'', te_Title := title, te_Detail := detail,
             te_Importance := importance, te_Risk := risk, te_ProposedAction := Some action,
             te_Status := Some ''pending''\<rparr>)
          (am_timeline m)) m"

definition new_entry ::
    "string \<Rightarrow> string \<Rightarrow> string \<Rightarrow> string \<Rightarrow> string \<Rightarrow> string \<Rightarrow> instant \<Rightarrow> bool \<Rightarrow> string \<Rightarrow> ApprovalEntry" where
  "new_entry i title detail action importance risk now autoExecute execReason =
     \<lparr>ae_ID = i, ae_Title = title, ae_Detail = detail, ae_ProposedAction = action, ae_Importance = importance,
      ae_Risk = risk, ae_Status = ''pending'', ae_RequestedAt = now, ae_DecidedAt = None, ae_Reason = '''',
      ae_RetryCount = 0, ae_ParentID = '''', ae_AutoExecute = autoExecute, ae_ExecReason = execReason,
      ae_Output = '''', ae_Escalated = False\<rparr>"

definition createPending ::
    "wr \<Rightarrow> (instant \<Rightarrow> string) \<Rightarrow> instant \<Rightarrow> string \<Rightarrow> string \<Rightarrow> string \<Rightarrow> string \<Rightarrow> string \<Rightarrow> string \<Rightarrow> bool \<Rightarrow> string \<Rightarrow>
      amem \<Rightarrow> unit result \<times> amem \<times> notification list" where
  "createPending wr fmt now i title detail action importance risk autoExecute execReason m =
     (case mem_set wr (AttrsKey i)
             (RApproval (new_entry i title detail action importance risk now autoExecute execReason)) m of
        (Inl e, m) \<Rightarrow> (Inl e, m, [])
      | (Inr _, m) \<Rightarrow>
          (Inr (), snd (writeTimeline wr fmt i title detail action importance risk now m),
           if urgent importance risk
           then [mk_note ''[Approval Required]'' title
                   [action, detail, importance, risk, formatHours (timeoutFor risk)]]
           else []))"

definition SubmitApproval ::
    "wr \<Rightarrow> (instant \<Rightarrow> string) \<Rightarrow> instant \<Rightarrow> string \<Rightarrow> string \<Rightarrow> string \<Rightarrow> string \<Rightarrow> string \<Rightarrow> string \<Rightarrow> bool \<Rightarrow> string \<Rightarrow>
      amem \<Rightarrow> string result \<times> amem \<times> notification list" where
  "SubmitApproval wr fmt now i title detail action importance risk autoExecute execReason m =
     (case createPending wr fmt now i title detail action importance risk autoExecute execReason m of
        (Inl e, m, ns) \<Rightarrow> (Inl e, m, ns)
      | (Inr _, m, ns) \<Rightarrow> (Inr i, m, ns))"

definition maxOutputLen :: nat where "maxOutputLen = 4000"

definition truncated_note :: string where
  "truncated_note = nl @ ellipsis @ '' (truncated)''"

definition SetOutput :: "wr \<Rightarrow> string \<Rightarrow> string \<Rightarrow> amem \<Rightarrow> unit result \<times> amem" where
  "SetOutput wr i output m =
     (case mem_get dec_approval (AttrsKey i) m of
        Inl e \<Rightarrow> (Inl e, m)
      | Inr entry \<Rightarrow>
          let out = (if length output > maxOutputLen then take maxOutputLen output @ truncated_note else output)
          in mem_set wr (AttrsKey i) (RApproval (entry\<lparr>ae_Output := out\<rparr>)) m)"

section \<open>The blocking waiter\<close>

definition patchAttrs :: "wr \<Rightarrow> string \<Rightarrow> string \<Rightarrow> string \<Rightarrow> instant option \<Rightarrow> amem \<Rightarrow> unit result \<times> amem" where
  "patchAttrs wr key newStatus reason decidedAt m =
     (case mem_get dec_approval key m of
        Inl e \<Rightarrow> (Inl e, m)
      | Inr entry \<Rightarrow>
          mem_set wr key (RApproval (entry\<lparr>ae_Status := newStatus, ae_Reason := reason, ae_DecidedAt := decidedAt\<rparr>)) m)"

definition timeout_reason :: string where
  "timeout_reason = ''no operator response within timeout window''"

definition markEscalated ::
    "wr \<Rightarrow> string \<Rightarrow> string \<Rightarrow> string \<Rightarrow> string \<Rightarrow> string \<Rightarrow> string \<Rightarrow> duration \<Rightarrow> amem \<Rightarrow> amem \<times> notification list" where
  "markEscalated wr key title detail action importance risk timeout m =
     (case mem_get dec_approval key m of
        Inl e \<Rightarrow> (m, [])
      | Inr entry \<Rightarrow>
          if ae_Status entry \<noteq> ''pending'' \<or> ae_Escalated entry then (m, [])
          else (case mem_set wr key (RApproval (entry\<lparr>ae_Escalated := True\<rparr>)) m of
                  (Inl e, m) \<Rightarrow> (m, [])
                | (Inr _, m) \<Rightarrow>
                    (m, [mk_note ''[Approval Reminder]'' title [action, detail, importance, risk, formatHours timeout]])))"

datatype wait_event = CtxDone | TimerFired | EscalationFired | PollTick

datatype wait_outcome = Waiting | Returned string | Aborted

text \<open>
  One turn of the \<open>select\<close> loop of \<open>requestApprovalOnce\<close>. \<open>EscalationFired\<close> is received only by urgent
  requests: for the others the channel is nil.
\<close>

definition wait_step ::
    "wr \<Rightarrow> string \<Rightarrow> string \<Rightarrow> string \<Rightarrow> string \<Rightarrow> string \<Rightarrow> string \<Rightarrow> wait_event \<Rightarrow> amem \<Rightarrow>
      wait_outcome \<times> amem \<times> notification list" where
  "wait_step wr i title detail action importance risk ev m =
     (case ev of
        CtxDone \<Rightarrow>
          let m = snd (patchAttrs wr (AttrsKey i) ''cancelled'' '''' None m)
          in (Aborted, snd (PatchTimeline wr i ''cancelled'' m), [])
      | TimerFired \<Rightarrow>
          let m = snd (patchAttrs wr (AttrsKey i) ''timed_out'' timeout_reason None m)
          in (Returned ''timed_out'', snd (PatchTimeline wr i ''timed_out'' m), [])
      | EscalationFired \<Rightarrow>
          if urgent importance risk
          then let (m, ns) = markEscalated wr (AttrsKey i) title detail action importance risk (timeoutFor risk) m
               in (Waiting, m, ns)
          else (Waiting, m, [])
      | PollTick \<Rightarrow>
          (case mem_get dec_approval (AttrsKey i) m of
             Inl e \<Rightarrow> (Waiting, m, [])
           | Inr current \<Rightarrow>
               if ae_Status current \<noteq> ''pending''
               then (Returned (ae_Status current), snd (PatchTimeline wr i (ae_Status current) m), [])
               else (Waiting, m, [])))"

text \<open>
  The loop over the events it receives; before each event the rest of the agent may have changed the
  memory (\<open>env\<close>). It stops at the first event that ends it, or is still waiting when the list ends.
\<close>

fun wait_loop ::
    "wr \<Rightarrow> string \<Rightarrow> string \<Rightarrow> string \<Rightarrow> string \<Rightarrow> string \<Rightarrow> string \<Rightarrow> ((amem \<Rightarrow> amem) \<times> wait_event) list \<Rightarrow> amem \<Rightarrow>
      wait_outcome \<times> amem \<times> notification list" where
  "wait_loop wr i title detail action importance risk [] m = (Waiting, m, [])"
| "wait_loop wr i title detail action importance risk ((env, ev) # evs) m =
     (case wait_step wr i title detail action importance risk ev (env m) of
        (Waiting, m, ns) \<Rightarrow>
          (case wait_loop wr i title detail action importance risk evs m of (out, m, ns') \<Rightarrow> (out, m, ns @ ns'))
      | r \<Rightarrow> r)"

definition requestApprovalOnce ::
    "wr \<Rightarrow> (instant \<Rightarrow> string) \<Rightarrow> instant \<Rightarrow> string \<Rightarrow> string \<Rightarrow> string \<Rightarrow> string \<Rightarrow> string \<Rightarrow> string \<Rightarrow>
      ((amem \<Rightarrow> amem) \<times> wait_event) list \<Rightarrow> amem \<Rightarrow> wait_outcome result \<times> amem \<times> notification list" where
  "requestApprovalOnce wr fmt now i title detail action importance risk evs m =
     (case createPending wr fmt now i title detail action importance risk False '''' m of
        (Inl e, m, ns) \<Rightarrow> (Inl e, m, ns)
      | (Inr _, m, ns) \<Rightarrow>
          (case wait_loop wr i title detail action importance risk evs m of (out, m, ns') \<Rightarrow> (Inr out, m, ns @ ns')))"

definition RequestApproval ::
    "wr \<Rightarrow> (instant \<Rightarrow> string) \<Rightarrow> instant \<Rightarrow> string \<Rightarrow> string \<Rightarrow> string \<Rightarrow> string \<Rightarrow> string \<Rightarrow> string \<Rightarrow>
      ((amem \<Rightarrow> amem) \<times> wait_event) list \<Rightarrow> amem \<Rightarrow> wait_outcome result \<times> amem \<times> notification list" where
  "RequestApproval wr fmt now i title detail action importance risk evs m =
     (case requestApprovalOnce wr fmt now i title detail action importance risk evs m of
        (Inr (Returned r), m, ns) \<Rightarrow>
          (Inr (Returned r), m,
           ns @ (if r = ''timed_out'' then [mk_note ''[Approval Expired]'' title [title, action, importance, risk]] else []))
      | res \<Rightarrow> res)"

section \<open>The sweeper\<close>

text \<open>The entries a sweep looks at: approval keys, in the order \<open>ks\<close> the map was walked in.\<close>

definition approval_at :: "(string \<rightharpoonup> raw) \<Rightarrow> string \<Rightarrow> ApprovalEntry option" where
  "approval_at attrs key =
     (if HasPrefix key ''approval:'' then Option.bind (attrs key) dec_approval else None)"

definition sweep_map :: "amem \<Rightarrow> (string \<rightharpoonup> raw)" where
  "sweep_map m = (case Attrs_All (Some (am_attrs m)) of Inl _ \<Rightarrow> Map.empty | Inr attrs \<Rightarrow> attrs)"

definition due_reminder :: "instant \<Rightarrow> ApprovalEntry \<Rightarrow> bool" where
  "due_reminder now e \<longleftrightarrow> ae_Status e = ''pending'' \<and> \<not> ae_Escalated e \<and> urgent (ae_Importance e) (ae_Risk e) \<and>
     \<not> time_Sub now (ae_RequestedAt e) < quot (timeoutFor (ae_Risk e)) 2"

definition escalate_key ::
    "wr \<Rightarrow> instant \<Rightarrow> (string \<rightharpoonup> raw) \<Rightarrow> string \<Rightarrow> amem \<times> notification list \<times> nat \<Rightarrow> amem \<times> notification list \<times> nat" where
  "escalate_key wr now attrs key st =
     (case approval_at attrs key of
        None \<Rightarrow> st
      | Some e \<Rightarrow>
          if \<not> due_reminder now e then st
          else case st of (m, ns, sent) \<Rightarrow>
            (case markEscalated wr key (ae_Title e) (ae_Detail e) (ae_ProposedAction e) (ae_Importance e) (ae_Risk e)
                    (timeoutFor (ae_Risk e)) m of
               (m, ns') \<Rightarrow> (m, ns @ ns', sent + 1)))"

definition EscalatePending ::
    "wr \<Rightarrow> instant \<Rightarrow> string list \<Rightarrow> amem \<Rightarrow> amem \<times> notification list \<times> nat" where
  "EscalatePending wr now ks m = fold (escalate_key wr now (sweep_map m)) ks (m, [], 0)"

definition stale :: "instant \<Rightarrow> ApprovalEntry \<Rightarrow> bool" where
  "stale now e \<longleftrightarrow> ae_Status e = ''pending'' \<and> \<not> time_Sub now (ae_RequestedAt e) \<le> timeoutFor (ae_Risk e)"

definition expire_key ::
    "wr \<Rightarrow> instant \<Rightarrow> (string \<rightharpoonup> raw) \<Rightarrow> string \<Rightarrow> amem \<times> notification list \<times> nat \<Rightarrow> amem \<times> notification list \<times> nat" where
  "expire_key wr now attrs key st =
     (case approval_at attrs key of
        None \<Rightarrow> st
      | Some e \<Rightarrow>
          if \<not> stale now e then st
          else case st of (m, ns, expired) \<Rightarrow>
            let m = snd (patchAttrs wr key ''timed_out'' timeout_reason None m);
                m = snd (PatchTimeline wr (ae_ID e) ''timed_out'' m)
            in (m, ns @ (if ae_AutoExecute e
                         then [mk_note ''[Approval Expired]'' (ae_Title e)
                                 [ae_Title e, ae_ProposedAction e, ae_Importance e, ae_Risk e]] else []), expired + 1))"

definition ExpirePending ::
    "wr \<Rightarrow> instant \<Rightarrow> string list \<Rightarrow> amem \<Rightarrow> amem \<times> notification list \<times> nat" where
  "ExpirePending wr now ks m = fold (expire_key wr now (sweep_map m)) ks (m, [], 0)"

text \<open>\<open>pruneAttrs\<close>: the decided records, oldest first, are dropped while expired or over the cap.\<close>

definition decided_when :: "ApprovalEntry \<Rightarrow> instant" where
  "decided_when e = (case ae_DecidedAt e of None \<Rightarrow> ae_RequestedAt e | Some t \<Rightarrow> t)"

definition prune_candidates :: "(string \<rightharpoonup> raw) \<Rightarrow> string list \<Rightarrow> (string \<times> instant) list" where
  "prune_candidates attrs ks =
     sort_by (\<lambda>a b. snd a < snd b)
       (List.map_filter
          (\<lambda>key. case approval_at attrs key of
                   None \<Rightarrow> None
                 | Some e \<Rightarrow> if ae_Status e = ''pending'' then None else Some (key, decided_when e)) ks)"

fun prune_loop :: "wr \<Rightarrow> instant \<Rightarrow> (string \<times> instant) list \<Rightarrow> nat \<Rightarrow> nat \<Rightarrow> amem \<Rightarrow> amem \<times> nat" where
  "prune_loop wr cutoff [] keep deleted m = (m, deleted)"
| "prune_loop wr cutoff (c # cs) keep deleted m =
     (if \<not> snd c < cutoff \<and> \<not> keep > maxAttrsEntries then (m, deleted)
      else (case mem_delete wr (fst c) m of
              (Inl e, m) \<Rightarrow> prune_loop wr cutoff cs keep deleted m
            | (Inr _, m) \<Rightarrow> prune_loop wr cutoff cs (keep - 1) (deleted + 1) m))"

definition pruneAttrs :: "wr \<Rightarrow> instant \<Rightarrow> string list \<Rightarrow> amem \<Rightarrow> amem \<times> nat" where
  "pruneAttrs wr now ks m =
     (let cs = prune_candidates (sweep_map m) ks
      in prune_loop wr (now - attrsRetention) cs (length cs) 0 m)"

text \<open>One tick of \<open>StartExpirySweeper\<close>, with the three orders the three walks take.\<close>

definition sweep :: "wr \<Rightarrow> instant \<Rightarrow> string list \<Rightarrow> string list \<Rightarrow> string list \<Rightarrow> amem \<Rightarrow> amem \<times> notification list" where
  "sweep wr now ks1 ks2 ks3 m =
     (let (m, ns1, _) = EscalatePending wr now ks1 m;
          (m, ns2, _) = ExpirePending wr now ks2 m
      in (fst (pruneAttrs wr now ks3 m), ns1 @ ns2))"

section \<open>The decision endpoint\<close>

text \<open>\<open>strings.SplitN(path, "/", 2)\<close>.\<close>

definition SplitN2 :: "string \<Rightarrow> string list" where
  "SplitN2 s = (case index_byte CHR ''/'' s of None \<Rightarrow> [s] | Some n \<Rightarrow> [take n s, drop (n + 1) s])"

record decision_request =
  dr_method :: string
  dr_path :: string
  dr_body :: "(string \<times> string) option"   \<comment> \<open>decision and reason; \<open>None\<close>: not JSON\<close>

definition path_id :: "string \<Rightarrow> string \<Rightarrow> string \<Rightarrow> string option" where
  "path_id pre verb path =
     (case SplitN2 (TrimPrefix path pre) of
        [i, v] \<Rightarrow> if v \<noteq> verb \<or> i = '''' then None else Some i
      | _ \<Rightarrow> None)"

text \<open>The response code, the memory, and the entry whose command is launched, if any.\<close>

definition decision_handler ::
    "wr \<Rightarrow> instant \<Rightarrow> decision_request \<Rightarrow> amem \<Rightarrow> nat \<times> amem \<times> ApprovalEntry option" where
  "decision_handler wr now r m =
     (if dr_method r \<noteq> ''POST'' then (405, m, None)
      else case path_id ''/approvals/'' ''decision'' (dr_path r) of
        None \<Rightarrow> (404, m, None)
      | Some i \<Rightarrow>
          (case dr_body r of
             None \<Rightarrow> (400, m, None)
           | Some (decision, reason) \<Rightarrow>
               if decision \<noteq> ''approved'' \<and> decision \<noteq> ''rejected'' then (400, m, None)
               else case mem_get dec_approval (AttrsKey i) m of
                 Inl e \<Rightarrow> (404, snd (RemoveFromTimeline wr i m), None)
               | Inr entry \<Rightarrow>
                   if ae_Status entry \<noteq> ''pending''
                   then (409, snd (RemoveFromTimeline wr i (snd (mem_delete wr (AttrsKey i) m))), None)
                   else
                     let entry = entry\<lparr>ae_Status := decision, ae_Reason := reason, ae_DecidedAt := Some now\<rparr> in
                     (case mem_set wr (AttrsKey i) (RApproval entry) m of
                        (Inl e, m) \<Rightarrow> (500, m, None)
                      | (Inr _, m) \<Rightarrow>
                          (200, snd (PatchTimeline wr i decision m),
                           if decision = ''approved'' \<and> ae_AutoExecute entry then Some entry else None))))"

section \<open>How records evolve\<close>

definition entry_at :: "string \<Rightarrow> amem \<Rightarrow> ApprovalEntry option" where
  "entry_at key m = Option.bind (attrs_get key (am_attrs m)) dec_approval"

lemma mem_get_entry: "mem_get dec_approval key m = Inr e \<longleftrightarrow> entry_at key m = Some e"
  by (auto simp: mem_get_iff entry_at_def bind_eq_Some_conv)

lemma entry_at_cases:
  obtains (none) err where "mem_get dec_approval key m = Inl err" "entry_at key m = None"
  | (some) e where "mem_get dec_approval key m = Inr e" "entry_at key m = Some e"
proof (cases "mem_get dec_approval key m")
  case (Inl err)
  then show ?thesis using none [of err] mem_get_entry [of key m] by (cases "entry_at key m") auto
next
  case (Inr e)
  then show ?thesis using some [of e] mem_get_entry [of key m e] by simp
qed

lemma sweep_map_eq: "sweep_map m = attrs_map (am_attrs m)"
  by (cases "am_attrs m") (simp_all add: sweep_map_def Attrs_All_def attrs_map_def)

lemma approval_at_sweep: "approval_at (sweep_map m) key = (if HasPrefix key ''approval:'' then entry_at key m else None)"
  by (simp add: approval_at_def sweep_map_eq entry_at_def attrs_get_def)

lemma HasPrefix_AttrsKey [simp]: "HasPrefix (AttrsKey i) ''approval:''"
  by (simp add: AttrsKey_def HasPrefix_def)

lemma AttrsKey_inj [simp]: "AttrsKey i = AttrsKey j \<longleftrightarrow> i = j"
  by (simp add: AttrsKey_def)

lemma entry_at_cong: "am_attrs m = am_attrs m' \<Longrightarrow> entry_at key m = entry_at key m'"
  by (simp add: entry_at_def)

lemma entry_at_timeline [simp]:
  "entry_at key (snd (tl_write wr i es m)) = entry_at key m"
  "entry_at key (snd (PatchTimeline wr i st m)) = entry_at key m"
  "entry_at key (snd (RemoveFromTimeline wr i m)) = entry_at key m"
  "entry_at key (snd (writeTimeline wr fmt i title detail action importance risk now m)) = entry_at key m"
  by (simp_all add: entry_at_def writeTimeline_def)

lemma entry_at_set:
  "entry_at k (snd (mem_set wr key (RApproval e) m)) = (if attrs_ok wr key \<and> k = key then Some e else entry_at k m)"
  by (simp add: entry_at_def mem_set_get dec_approval_def)

lemma entry_at_delete:
  "entry_at k (snd (mem_delete wr key m)) = (if attrs_ok wr key \<and> k = key then None else entry_at k m)"
  by (simp add: entry_at_def mem_delete_get)

lemma entry_at_patchAttrs:
  "entry_at k (snd (patchAttrs wr key st reason t m)) =
    (if attrs_ok wr key \<and> k = key
     then map_option (\<lambda>e. e\<lparr>ae_Status := st, ae_Reason := reason, ae_DecidedAt := t\<rparr>) (entry_at key m)
     else entry_at k m)"
  by (cases key m rule: entry_at_cases) (auto simp: patchAttrs_def entry_at_set)

lemma entry_at_markEscalated:
  "entry_at k (fst (markEscalated wr key title detail action importance risk timeout m)) =
    (if attrs_ok wr key \<and> k = key
     then map_option (\<lambda>e. if ae_Status e = ''pending'' then e\<lparr>ae_Escalated := True\<rparr> else e) (entry_at key m)
     else entry_at k m)"
proof (cases key m rule: entry_at_cases)
  case (some e)
  have "e\<lparr>ae_Escalated := True\<rparr> = e" if "ae_Escalated e" using that by simp
  with some show ?thesis
    using entry_at_set [of k wr key "e\<lparr>ae_Escalated := True\<rparr>" m]
    by (auto simp: markEscalated_def mem_set_def split: if_splits)
qed (simp add: markEscalated_def)

lemma entry_at_SetOutput:
  "\<exists>out. entry_at k (snd (SetOutput wr i output m)) =
    (if attrs_ok wr (AttrsKey i) \<and> k = AttrsKey i then map_option (\<lambda>e. e\<lparr>ae_Output := out\<rparr>) (entry_at k m)
     else entry_at k m)"
  by (cases "AttrsKey i" m rule: entry_at_cases) (auto simp: SetOutput_def Let_def entry_at_set)

text \<open>
  No operation on existing records makes a decided record pending again, changes its id, takes back a
  reminder mark, gives a record a status outside the five of the protocol, or invents a record.
\<close>

definition approval_status :: "string \<Rightarrow> bool" where
  "approval_status st \<longleftrightarrow> st \<in> set [''pending'', ''approved'', ''rejected'', ''timed_out'', ''cancelled'']"

lemma approval_status_simps [simp]:
  "approval_status ''pending''" "approval_status ''approved''" "approval_status ''rejected''" "approval_status ''timed_out''"
  "approval_status ''cancelled''"
  by (simp_all add: approval_status_def)

definition later :: "ApprovalEntry \<Rightarrow> ApprovalEntry \<Rightarrow> bool" where
  "later e e' \<longleftrightarrow> ae_ID e' = ae_ID e \<and> ae_AutoExecute e' = ae_AutoExecute e \<and>
     (ae_Status e' = ''pending'' \<longrightarrow> ae_Status e = ''pending'') \<and> (ae_Escalated e \<longrightarrow> ae_Escalated e') \<and>
     (approval_status (ae_Status e) \<longrightarrow> approval_status (ae_Status e'))"

definition evolves :: "amem \<Rightarrow> amem \<Rightarrow> bool" where
  "evolves m m' \<longleftrightarrow> (\<forall>k e'. entry_at k m' = Some e' \<longrightarrow> (\<exists>e. entry_at k m = Some e \<and> later e e'))"

lemma later_simps [simp]:
  "later e e"
  "later e (e\<lparr>ae_Escalated := True\<rparr>)"
  "later e (e\<lparr>ae_Output := out\<rparr>)"
  "st \<noteq> ''pending'' \<Longrightarrow> approval_status st \<Longrightarrow> later e (e\<lparr>ae_Status := st, ae_Reason := reason, ae_DecidedAt := t\<rparr>)"
  by (simp_all add: later_def)

lemma later_trans: "later a b \<Longrightarrow> later b c \<Longrightarrow> later a c"
  by (simp add: later_def)

lemma evolves_refl [simp]: "evolves m m"
  unfolding evolves_def by (blast intro: later_simps(1))

lemma evolves_trans [trans]: "evolves a b \<Longrightarrow> evolves b c \<Longrightarrow> evolves a c"
  unfolding evolves_def by (blast intro: later_trans)

lemma evolves_same: "(\<And>k. entry_at k m' = entry_at k m) \<Longrightarrow> evolves m m'"
  unfolding evolves_def by (auto intro: later_simps(1))

lemma evolvesI: "(\<And>k. entry_at k m' = None \<or> (\<exists>e. entry_at k m = Some e \<and> later e (the (entry_at k m')))) \<Longrightarrow> evolves m m'"
  unfolding evolves_def by force

lemma evolves_upd:
  assumes "\<And>k. entry_at k m' = (if P k then map_option f (entry_at k m) else entry_at k m)" "\<And>e. later e (f e)"
  shows "evolves m m'"
  unfolding evolves_def assms(1) using assms(2) by auto

lemma evolves_timeline [invs]:
  "evolves m (snd (PatchTimeline wr i st m))" "evolves m (snd (RemoveFromTimeline wr i m))"
  by (simp_all add: evolves_same)

lemma evolves_delete [invs]: "evolves m (snd (mem_delete wr key m))"
  by (rule evolvesI) (auto simp: entry_at_delete)

lemma evolves_patch [invs]:
  "st \<noteq> ''pending'' \<Longrightarrow> approval_status st \<Longrightarrow> evolves m (snd (patchAttrs wr key st reason t m))"
  by (rule evolves_upd [where P = "\<lambda>k. attrs_ok wr key \<and> k = key"]) (auto simp: entry_at_patchAttrs)

lemma evolves_mark [invs]: "evolves m (fst (markEscalated wr key title detail action importance risk timeout m))"
  by (rule evolves_upd [where P = "\<lambda>k. attrs_ok wr key \<and> k = key"
        and f = "\<lambda>e. if ae_Status e = ''pending'' then e\<lparr>ae_Escalated := True\<rparr> else e"])
     (auto simp: entry_at_markEscalated)

lemma evolves_SetOutput [invs]: "evolves m (snd (SetOutput wr i output m))"
proof (rule evolvesI)
  fix k
  obtain out where "entry_at k (snd (SetOutput wr i output m)) =
    (if attrs_ok wr (AttrsKey i) \<and> k = AttrsKey i then map_option (\<lambda>e. e\<lparr>ae_Output := out\<rparr>) (entry_at k m)
     else entry_at k m)"
    using entry_at_SetOutput by blast
  then show "entry_at k (snd (SetOutput wr i output m)) = None \<or>
      (\<exists>e. entry_at k m = Some e \<and> later e (the (entry_at k (snd (SetOutput wr i output m)))))"
    by (cases "entry_at k m") auto
qed

lemma evolves_fold:
  assumes "\<And>x st. evolves (f st) (f (g x st))"
  shows "evolves (f st) (f (fold g xs st))"
proof (induction xs arbitrary: st)
  case (Cons x xs)
  from evolves_trans [OF assms [of st x] Cons [of "g x st"]] show ?case by simp
qed simp

lemma evolves_escalate [invs]: "evolves m (fst (EscalatePending wr now ks m))"
proof -
  have "evolves (fst st) (fst (escalate_key wr now attrs key st))" for attrs key st
    using evolves_mark [of "fst st" wr key]
    by (auto simp: escalate_key_def split: option.split prod.split) (metis fst_conv)+
  from evolves_fold [where f = fst and g = "escalate_key wr now (sweep_map m)" and st = "(m, [], 0)", OF this]
  show ?thesis by (simp add: EscalatePending_def)
qed

lemma evolves_expire [invs]: "evolves m (fst (ExpirePending wr now ks m))"
proof -
  have "evolves (fst st) (fst (expire_key wr now attrs key st))" for attrs key st
    using evolves_trans [OF evolves_patch [of "''timed_out''" "fst st" wr key timeout_reason None] evolves_timeline(1)]
    by (auto simp: expire_key_def Let_def split: option.split prod.split)
  from evolves_fold [where f = fst and g = "expire_key wr now (sweep_map m)" and st = "(m, [], 0)", OF this]
  show ?thesis by (simp add: ExpirePending_def)
qed

lemma evolves_prune_loop: "evolves m (fst (prune_loop wr cutoff cs keep deleted m))"
proof (induction wr cutoff cs keep deleted m rule: prune_loop.induct)
  case (2 wr cutoff c cs keep deleted m)
  show ?case
  proof (cases "\<not> snd c < cutoff \<and> \<not> keep > maxAttrsEntries")
    case False
    obtain r m' where d: "mem_delete wr (fst c) m = (r, m')" by fastforce
    then have "evolves m m'" using evolves_delete [of m wr "fst c"] by simp
    moreover have "evolves m' (fst (prune_loop wr cutoff (c # cs) keep deleted m))"
      using 2 False d by (cases r) auto
    ultimately show ?thesis by (rule evolves_trans)
  qed simp
qed simp

lemma evolves_sweep [invs]: "evolves m (fst (sweep wr now ks1 ks2 ks3 m))"
proof -
  obtain m1 n1 c1 where 1: "EscalatePending wr now ks1 m = (m1, n1, c1)" by (metis prod.exhaust)
  obtain m2 n2 c2 where 2: "ExpirePending wr now ks2 m1 = (m2, n2, c2)" by (metis prod.exhaust)
  have "evolves m m1" "evolves m1 m2" "evolves m2 (fst (pruneAttrs wr now ks3 m2))"
    using evolves_escalate [of m wr now ks1] evolves_expire [of m1 wr now ks2] 1 2
    by (simp_all add: pruneAttrs_def Let_def evolves_prune_loop)
  then show ?thesis using evolves_trans by (fastforce simp: sweep_def 1 2)
qed

lemma evolves_wait_step [invs]:
  "evolves m (fst (snd (wait_step wr i title detail action importance risk ev m)))"
proof (cases ev)
  case CtxDone
  show ?thesis unfolding CtxDone wait_step_def Let_def
    using evolves_trans [OF evolves_patch evolves_timeline(1)] by simp
next
  case TimerFired
  show ?thesis unfolding TimerFired wait_step_def Let_def
    using evolves_trans [OF evolves_patch evolves_timeline(1)] by simp
next
  case EscalationFired
  then show ?thesis
    using evolves_mark [of m wr "AttrsKey i" title detail action importance risk "timeoutFor risk"]
    by (auto simp: wait_step_def split: prod.split)
next
  case PollTick
  then show ?thesis by (auto simp: wait_step_def evolves_timeline split: sum.split)
qed

lemma decision_cases:
  obtains (refused) sc where "decision_handler wr now r m = (sc, m, None)" "sc \<noteq> 200"
  | (gone) i where "decision_handler wr now r m = (404, snd (RemoveFromTimeline wr i m), None)"
  | (conflict) i e where "entry_at (AttrsKey i) m = Some e" "ae_Status e \<noteq> ''pending''"
      "decision_handler wr now r m =
        (409, snd (RemoveFromTimeline wr i (snd (mem_delete wr (AttrsKey i) m))), None)"
  | (decided) i e d reason where "entry_at (AttrsKey i) m = Some e" "ae_Status e = ''pending''"
      "d = ''approved'' \<or> d = ''rejected''" "attrs_ok wr (AttrsKey i)"
      "decision_handler wr now r m =
        (200, snd (PatchTimeline wr i d (snd (mem_set wr (AttrsKey i)
           (RApproval (e\<lparr>ae_Status := d, ae_Reason := reason, ae_DecidedAt := Some now\<rparr>)) m))),
         if d = ''approved'' \<and> ae_AutoExecute e
         then Some (e\<lparr>ae_Status := d, ae_Reason := reason, ae_DecidedAt := Some now\<rparr>) else None)"
proof -
  consider (a) sc where "decision_handler wr now r m = (sc, m, None)" "sc \<noteq> 200"
    | (b) i d reason where "dr_method r = ''POST''" "path_id ''/approvals/'' ''decision'' (dr_path r) = Some i"
        "dr_body r = Some (d, reason)" "d = ''approved'' \<or> d = ''rejected''"
  proof (cases "dr_method r = ''POST''")
    case False
    then show ?thesis by (intro a [of 405]) (simp_all add: decision_handler_def)
  next
    case post: True
    show ?thesis
    proof (cases "path_id ''/approvals/'' ''decision'' (dr_path r)")
      case None
      with post show ?thesis by (intro a [of 404]) (simp_all add: decision_handler_def)
    next
      case (Some i)
      show ?thesis
      proof (cases "\<exists>d reason. dr_body r = Some (d, reason) \<and> (d = ''approved'' \<or> d = ''rejected'')")
        case True
        with post Some b show ?thesis by blast
      next
        case False
        with post Some show ?thesis
          by (intro a [of 400]) (auto simp: decision_handler_def split: option.split)
      qed
    qed
  qed
  then show thesis
  proof cases
    case a
    then show ?thesis by (rule refused)
  next
    case b
    show ?thesis
    proof (cases "AttrsKey i" m rule: entry_at_cases)
      case none
      with b show ?thesis by (intro gone [of i]) (auto simp: decision_handler_def)
    next
      case (some e)
      show ?thesis
      proof (cases "ae_Status e = ''pending''")
        case False
        with b some show ?thesis by (intro conflict [of i e]) (auto simp: decision_handler_def)
      next
        case True
        show ?thesis
        proof (cases "attrs_ok wr (AttrsKey i)")
          case ok: True
          with b some True show ?thesis
            by (intro decided [of i e d reason]) (auto simp: decision_handler_def mem_set_def Let_def)
        next
          case False
          with b some True show ?thesis
            by (intro refused [of 500]) (auto simp: decision_handler_def mem_set_def Let_def)
        qed
      qed
    qed
  qed
qed

lemma evolves_handler [invs]: "evolves m (fst (snd (decision_handler wr now r m)))"
proof (cases wr now r m rule: decision_cases)
  case (conflict i e)
  then show ?thesis using evolves_trans [OF evolves_delete evolves_timeline(2)] by simp
next
  case (decided i e d reason)
  have "entry_at k (fst (snd (decision_handler wr now r m))) =
      (if k = AttrsKey i then Some (e\<lparr>ae_Status := d, ae_Reason := reason, ae_DecidedAt := Some now\<rparr>)
       else entry_at k m)" for k
    using decided by (simp add: entry_at_set)
  moreover have "later e (e\<lparr>ae_Status := d, ae_Reason := reason, ae_DecidedAt := Some now\<rparr>)"
    using decided by auto
  ultimately show ?thesis using decided(1) by (intro evolvesI) auto
qed (simp_all add: evolves_timeline)

section \<open>The approval system\<close>

text \<open>
  The interleavings of the operations: submissions under fresh identifiers (UUIDs), decisions of the
  operator, ticks of the sweeper, events of blocking waiters and recorded outputs, each with its own
  clock reading and its own write failures.
\<close>

record asys =
  sy_mem :: amem
  sy_used :: "string set"
  sy_launched :: "ApprovalEntry list"    \<comment> \<open>commands handed to \<open>ExecuteOnApproval\<close>\<close>

inductive astep :: "asys \<Rightarrow> asys \<Rightarrow> bool" where
  Submit: "i \<notin> sy_used s \<Longrightarrow>
    createPending wr fmt now i title detail action importance risk auto reason (sy_mem s) = (r, m', ns) \<Longrightarrow>
    astep s (s\<lparr>sy_mem := m', sy_used := insert i (sy_used s)\<rparr>)"
| Decide: "decision_handler wr now req (sy_mem s) = (sc, m', exec) \<Longrightarrow>
    astep s (s\<lparr>sy_mem := m', sy_launched := sy_launched s @ (case exec of None \<Rightarrow> [] | Some e \<Rightarrow> [e])\<rparr>)"
| Sweep: "sweep wr now ks1 ks2 ks3 (sy_mem s) = (m', ns) \<Longrightarrow> astep s (s\<lparr>sy_mem := m'\<rparr>)"
| Waiter: "wait_step wr i title detail action importance risk ev (sy_mem s) = (out, m', ns) \<Longrightarrow>
    astep s (s\<lparr>sy_mem := m'\<rparr>)"
| Output: "SetOutput wr i output (sy_mem s) = (r, m') \<Longrightarrow> astep s (s\<lparr>sy_mem := m'\<rparr>)"

inductive_cases astepE: "astep s s'"

definition sys_init :: "amem \<Rightarrow> asys" where
  "sys_init m = \<lparr>sy_mem = m, sy_used = {}, sy_launched = []\<rparr>"

text \<open>Records carry the id of their key, every record was submitted, and launched ones are settled.\<close>

definition sys_inv :: "asys \<Rightarrow> bool" where
  "sys_inv s \<longleftrightarrow>
     (\<forall>i e. entry_at (AttrsKey i) (sy_mem s) = Some e \<longrightarrow> ae_ID e = i \<and> i \<in> sy_used s \<and> approval_status (ae_Status e)) \<and>
     (\<forall>e \<in> set (sy_launched s). ae_ID e \<in> sy_used s \<and> ae_Status e = ''approved'' \<and> ae_AutoExecute e \<and>
        (\<forall>e'. entry_at (AttrsKey (ae_ID e)) (sy_mem s) = Some e' \<longrightarrow> ae_Status e' \<noteq> ''pending'')) \<and>
     distinct (map ae_ID (sy_launched s))"

lemma sys_inv_evolves:
  assumes "sys_inv s" "evolves (sy_mem s) m'"
  shows "sys_inv (s\<lparr>sy_mem := m'\<rparr>)"
proof -
  have earlier: "\<exists>e. entry_at k (sy_mem s) = Some e \<and> later e e'" if "entry_at k m' = Some e'" for k e'
    using assms(2) that unfolding evolves_def by blast
  have "ae_ID e = i \<and> i \<in> sy_used s \<and> approval_status (ae_Status e)" if "entry_at (AttrsKey i) m' = Some e" for i e
    using earlier [OF that] assms(1) unfolding sys_inv_def later_def by metis
  moreover have "ae_Status e' \<noteq> ''pending''"
    if "e \<in> set (sy_launched s)" "entry_at (AttrsKey (ae_ID e)) m' = Some e'" for e e'
    using earlier [OF that(2)] that(1) assms(1) unfolding sys_inv_def later_def by metis
  ultimately show ?thesis using assms(1) by (simp add: sys_inv_def)
qed

lemma entry_at_create:
  "entry_at k (fst (snd (createPending wr fmt now i title detail action importance risk auto reason m))) =
    (if attrs_ok wr (AttrsKey i) \<and> k = AttrsKey i
     then Some (new_entry i title detail action importance risk now auto reason) else entry_at k m)"
  using entry_at_set [of k wr "AttrsKey i" "new_entry i title detail action importance risk now auto reason" m]
  by (auto simp: createPending_def mem_set_def)

lemma sys_inv_submit:
  assumes "sys_inv s" "i \<notin> sy_used s"
    and "createPending wr fmt now i title detail action importance risk auto reason (sy_mem s) = (r, m', ns)"
  shows "sys_inv (s\<lparr>sy_mem := m', sy_used := insert i (sy_used s)\<rparr>)"
proof -
  have ea: "entry_at k m' = (if attrs_ok wr (AttrsKey i) \<and> k = AttrsKey i
      then Some (new_entry i title detail action importance risk now auto reason) else entry_at k (sy_mem s))" for k
    using entry_at_create [of k wr fmt now i title detail action importance risk auto reason "sy_mem s"] assms(3) by simp
  have "ae_ID e \<noteq> i" if "e \<in> set (sy_launched s)" for e
    using assms(1,2) that by (auto simp: sys_inv_def)
  then show ?thesis using assms(1) by (auto simp: sys_inv_def ea new_entry_def split: if_splits)
qed

lemma sys_inv_decide:
  assumes inv: "sys_inv s" and d: "decision_handler wr now req (sy_mem s) = (sc, m', exec)"
  shows "sys_inv (s\<lparr>sy_mem := m', sy_launched := sy_launched s @ (case exec of None \<Rightarrow> [] | Some e \<Rightarrow> [e])\<rparr>)"
proof -
  have inv': "sys_inv (s\<lparr>sy_mem := m'\<rparr>)"
    using sys_inv_evolves [OF inv] evolves_handler [of "sy_mem s" wr now req] d by simp
  show ?thesis
  proof (cases exec)
    case None
    with inv' show ?thesis by (simp add: sys_inv_def)
  next
    case (Some x)
    obtain i e reason where e: "entry_at (AttrsKey i) (sy_mem s) = Some e" "ae_Status e = ''pending''"
      and x: "x = e\<lparr>ae_Status := ''approved'', ae_Reason := reason, ae_DecidedAt := Some now\<rparr>"
      and auto: "ae_AutoExecute e" and m': "entry_at (AttrsKey i) m' = Some x"
      using d Some
      by (cases wr now req "sy_mem s" rule: decision_cases) (auto simp: entry_at_set split: if_splits)
    have i: "ae_ID x = i" "i \<in> sy_used s" using inv e x by (auto simp: sys_inv_def)
    have "i \<notin> ae_ID ` set (sy_launched s)"
      using inv e by (auto simp: sys_inv_def)
    with inv' i m' x auto Some show ?thesis
      by (auto simp: sys_inv_def)
  qed
qed

lemma sys_inv_step: "astep s s' \<Longrightarrow> sys_inv s \<Longrightarrow> sys_inv s'"
proof (induction rule: astep.induct)
  case (Submit i s wr fmt now title detail action importance risk auto reason r m' ns)
  then show ?case by (rule sys_inv_submit [rotated 1])
next
  case (Decide wr now req s sc m' exec)
  then show ?case by (intro sys_inv_decide)
next
  case (Sweep wr now ks1 ks2 ks3 s m' ns)
  then show ?case using sys_inv_evolves [of s m'] evolves_sweep [of "sy_mem s" wr now ks1 ks2 ks3] by simp
next
  case (Waiter wr i title detail action importance risk ev s out m' ns)
  then show ?case using sys_inv_evolves [of s m'] evolves_wait_step [of "sy_mem s" wr i] by (metis fst_conv snd_conv)
next
  case (Output wr i out s r m')
  then show ?case using sys_inv_evolves [of s m'] evolves_SetOutput [of "sy_mem s" wr i out] by simp
qed

lemma sys_inv_reach: "astep\<^sup>*\<^sup>* s s' \<Longrightarrow> sys_inv s \<Longrightarrow> sys_inv s'"
  by (induction rule: rtranclp_induct) (auto intro: sys_inv_step)

lemma sys_inv_init: "(\<And>i. entry_at (AttrsKey i) m = None) \<Longrightarrow> sys_inv (sys_init m)"
  by (simp add: sys_inv_def sys_init_def)


text \<open>
  C25: the records are well typed. In every reachable state the record under the key of a request carries the identifier of that
  request, was submitted, and its status is one of \<open>pending\<close>, \<open>approved\<close>, \<open>rejected\<close>, \<open>timed_out\<close> and \<open>cancelled\<close>,
  whatever body the decision endpoint was sent.
\<close>

theorem approval_records_typed:
  assumes "\<And>i. entry_at (AttrsKey i) m = None" "astep\<^sup>*\<^sup>* (sys_init m) s" "entry_at (AttrsKey i) (sy_mem s) = Some e"
  shows "ae_ID e = i \<and> i \<in> sy_used s \<and> ae_Status e \<in> set [''pending'', ''approved'', ''rejected'', ''timed_out'', ''cancelled'']"
  using sys_inv_reach [OF assms(2) sys_inv_init [OF assms(1)]] assms(3) by (auto simp: sys_inv_def approval_status_def)

definition demo_request :: decision_request where
  "demo_request = \<lparr>dr_method = ''POST'', dr_path = ''/approvals/x1/decision'', dr_body = Some (''approved'', '''')\<rparr>"

definition demo_pending :: amem where
  "demo_pending = fst (snd (createPending wr_ok (\<lambda>_. ''t'') 5 ''x1'' ''T'' ''D'' ''reboot'' ''low'' ''low'' True ''r''
     \<lparr>am_attrs = Missing, am_timeline = None\<rparr>))"

definition demo_sys :: asys where
  "demo_sys = \<lparr>sy_mem = fst (snd (decision_handler wr_ok 9 demo_request demo_pending)), sy_used = {''x1''},
     sy_launched = (case snd (snd (decision_handler wr_ok 9 demo_request demo_pending)) of None \<Rightarrow> [] | Some e \<Rightarrow> [e])\<rparr>"

lemma demo_sys_reached:
  "entry_at (AttrsKey i) \<lparr>am_attrs = Missing, am_timeline = None\<rparr> = None"
  "astep\<^sup>*\<^sup>* (sys_init \<lparr>am_attrs = Missing, am_timeline = None\<rparr>) demo_sys"
proof -
  let ?m = "\<lparr>am_attrs = Missing, am_timeline = None\<rparr>"
  let ?s1 = "(sys_init ?m)\<lparr>sy_mem := demo_pending, sy_used := insert ''x1'' {}\<rparr>"
  show "entry_at (AttrsKey i) ?m = None"
    by (simp add: entry_at_def attrs_get_def attrs_map_def)
  have "astep (sys_init ?m) ?s1"
    using astep.Submit [of "''x1''" "sys_init ?m" wr_ok "\<lambda>_. ''t''" 5 "''T''" "''D''" "''reboot''" "''low''" "''low''" True "''r''"]
    by (simp add: sys_init_def demo_pending_def) (metis prod.collapse)
  moreover have "astep ?s1 demo_sys"
    using astep.Decide [of wr_ok 9 demo_request ?s1]
    by (simp add: sys_init_def demo_sys_def) (metis prod.collapse)
  ultimately show "astep\<^sup>*\<^sup>* (sys_init ?m) demo_sys" by simp
qed


theorem approval_records_typed_witness:
  "\<exists>e. entry_at (AttrsKey ''x1'') (sy_mem demo_sys) = Some e \<and> ae_ID e = ''x1'' \<and> ae_Status e = ''approved'' \<and>
     ae_Status e \<in> set [''pending'', ''approved'', ''rejected'', ''timed_out'', ''cancelled'']"
proof -
  have "map_option ae_Status (entry_at (AttrsKey ''x1'') (sy_mem demo_sys)) = Some ''approved''" by code_simp
  then obtain e where e: "entry_at (AttrsKey ''x1'') (sy_mem demo_sys) = Some e" "ae_Status e = ''approved''" by auto
  from approval_records_typed [OF demo_sys_reached e(1)] e show ?thesis by blast
qed

end
