(* ===== verification/Approval_Sweep.thy ===== *)
theory Approval_Sweep
  imports Approval
begin

text \<open>
  What the sweeper and the waiter do to the records: expiry hits exactly the stale pending requests,
  pruning drops only decided ones, oldest first, until the cap and the retention hold, a reminder is
  sent at most once, and a waiter returns the operator's word, unless its timer fires in between.
\<close>

section \<open>Expiry\<close>

definition timed_out :: "ApprovalEntry \<Rightarrow> ApprovalEntry" where
  "timed_out e = e\<lparr>ae_Status := ''timed_out'', ae_Reason := timeout_reason, ae_DecidedAt := None\<rparr>"

lemma expire_key_entry:
  assumes "attrs_ok wr key"
  shows "entry_at k (fst (expire_key wr now attrs key st)) =
    (if k = key \<and> (\<exists>e. approval_at attrs key = Some e \<and> stale now e)
     then map_option timed_out (entry_at k (fst st)) else entry_at k (fst st))"
  using assms
  by (auto simp: expire_key_def Let_def timed_out_def [abs_def] entry_at_patchAttrs split: option.split prod.split)

lemma fold_expire_entry:
  assumes "\<forall>k. attrs_ok wr k" "distinct ks"
  shows "entry_at k (fst (fold (expire_key wr now attrs) ks st)) =
    (if k \<in> set ks \<and> (\<exists>e. approval_at attrs k = Some e \<and> stale now e)
     then map_option timed_out (entry_at k (fst st)) else entry_at k (fst st))"
  using assms(2)
proof (induction ks arbitrary: st)
  case (Cons key ks)
  then have "distinct ks" "key \<notin> set ks" by auto
  with Cons.IH [of "expire_key wr now attrs key st"] expire_key_entry [of wr key k now attrs st] assms(1)
  show ?case by auto
qed simp

text \<open>
  One expiry sweep times out exactly the stale requests. With successful writes and for every order
  in which the map is walked, a record is marked \<open>timed_out\<close> if it was pending and older than its timeout
  (48 hours, or 96 when its risk is high), and every other record is left as it was.
\<close>

theorem ExpirePending_exact:
  assumes "\<forall>k. attrs_ok wr k" "distinct ks" "set ks = dom (sweep_map m)"
  shows "entry_at (AttrsKey i) (fst (ExpirePending wr now ks m)) =
    (case entry_at (AttrsKey i) m of
       None \<Rightarrow> None
     | Some e \<Rightarrow> Some (if stale now e then timed_out e else e))"
proof -
  have dom: "AttrsKey i \<in> set ks" if "entry_at (AttrsKey i) m = Some e" for e
    using that assms(3) by (auto simp: entry_at_def sweep_map_eq attrs_get_def bind_eq_Some_conv)
  have "entry_at (AttrsKey i) (fst (ExpirePending wr now ks m)) =
      (if AttrsKey i \<in> set ks \<and> (\<exists>e. entry_at (AttrsKey i) m = Some e \<and> stale now e)
       then map_option timed_out (entry_at (AttrsKey i) m) else entry_at (AttrsKey i) m)"
    unfolding ExpirePending_def using fold_expire_entry [OF assms(1,2), of "AttrsKey i" now "sweep_map m" "(m, [], 0)"]
    by (simp only: fst_conv approval_at_sweep HasPrefix_AttrsKey if_True)
  with dom show ?thesis by (auto split: option.split)
qed

theorem ExpirePending_exact_witness:
  "map_option ae_Status (entry_at (AttrsKey ''x1'') (fst (ExpirePending wr_ok (49 * hour) [''approval:x1''] demo_pending)))
    = Some ''timed_out''"
proof -
  have "dom (sweep_map demo_pending) = {''approval:x1''}"
    by (simp add: sweep_map_eq demo_pending_def createPending_def mem_set_def wr_ok_def attrs_put_def attrs_map_def
        AttrsKey_def writeTimeline_def tl_write_def)
  then have "entry_at (AttrsKey ''x1'') (fst (ExpirePending wr_ok (49 * hour) [''approval:x1''] demo_pending)) =
    (case entry_at (AttrsKey ''x1'') demo_pending of
       None \<Rightarrow> None
     | Some e \<Rightarrow> Some (if stale (49 * hour) e then timed_out e else e))"
    by (intro ExpirePending_exact) (simp_all add: wr_ok_def)
  moreover have "map_option (stale (49 * hour)) (entry_at (AttrsKey ''x1'') demo_pending) = Some True"
    by code_simp
  ultimately show ?thesis by (auto simp: timed_out_def)
qed

section \<open>Pruning of decided records\<close>

lemma fold_mem_delete_entry:
  "attrs_get k (am_attrs (fold (\<lambda>key m. snd (mem_delete wr key m)) ks m)) =
    (if k \<in> set ks \<and> attrs_ok wr k then None else attrs_get k (am_attrs m))"
  by (induction ks arbitrary: m) (auto simp: mem_delete_get)

definition prune_count :: "instant \<Rightarrow> (string \<times> instant) list \<Rightarrow> nat" where
  "prune_count cutoff cs = max (length (takeWhile (\<lambda>c. snd c < cutoff) cs)) (length cs - maxAttrsEntries)"

lemma mem_delete_ok: "attrs_ok wr key \<Longrightarrow> fst (mem_delete wr key m) = Inr ()"
  by (simp add: mem_delete_def)

lemma prune_loop_ok:
  assumes "\<forall>k. attrs_ok wr k" "sorted_wrt (\<lambda>a b. \<not> snd b < snd a) cs"
  shows "prune_loop wr cutoff cs (length cs) d m =
    (fold (\<lambda>key m. snd (mem_delete wr key m)) (map fst (take (prune_count cutoff cs) cs)) m,
     d + prune_count cutoff cs)"
  using assms(2)
proof (induction cs arbitrary: d m)
  case (Cons c cs)
  show ?case
  proof (cases "\<not> snd c < cutoff \<and> \<not> length (c # cs) > maxAttrsEntries")
    case True
    then have "prune_count cutoff (c # cs) = 0" by (auto simp: prune_count_def)
    with True show ?thesis by simp
  next
    case False
    obtain m' where m': "mem_delete wr (fst c) m = (Inr (), m')"
      using mem_delete_ok [of wr "fst c" m] assms(1) by (cases "mem_delete wr (fst c) m") auto
    have "prune_count cutoff (c # cs) = Suc (prune_count cutoff cs)"
    proof (cases "snd c < cutoff")
      case True
      then show ?thesis by (auto simp: prune_count_def)
    next
      case not_old: False
      then have "\<forall>x \<in> set cs. \<not> snd x < cutoff" using Cons.prems by auto
      then have "takeWhile (\<lambda>c. snd c < cutoff) cs = []" by (cases cs) auto
      with not_old False show ?thesis by (auto simp: prune_count_def)
    qed
    with False m' Cons show ?thesis by simp
  qed
qed (simp add: prune_count_def)

lemma sorted_candidates: "sorted_wrt (\<lambda>a b. \<not> snd b < snd a) (prune_candidates attrs ks)"
  unfolding prune_candidates_def
  by (rule sorted_sort_by [where lt = "\<lambda>a b. snd a < (snd b :: int)"]) (auto simp: strict_weak_def)

lemma candidate_iff:
  "(k, t) \<in> set (prune_candidates attrs ks) \<longleftrightarrow>
    k \<in> set ks \<and> (\<exists>e. approval_at attrs k = Some e \<and> ae_Status e \<noteq> ''pending'' \<and> t = decided_when e)"
  by (auto simp: prune_candidates_def in_set_map_filter split: option.splits if_splits)

lemma distinct_candidates: "distinct ks \<Longrightarrow> distinct (map fst (prune_candidates attrs ks))"
  unfolding prune_candidates_def distinct_sort_by
proof (induction ks)
  case (Cons k ks)
  then show ?case
    by (auto simp: List.map_filter_simps in_set_map_filter split: option.split)
       (auto split: option.splits if_splits)
qed (simp add: List.map_filter_simps)

lemma after_takeWhile:
  assumes "sorted_wrt (\<lambda>a b. \<not> snd b < (snd a :: int)) cs" "length (takeWhile (\<lambda>c. snd c < t) cs) \<le> n"
    "x \<in> set (drop n cs)"
  shows "\<not> snd x < t"
  using assms
proof (induction cs arbitrary: n)
  case (Cons c cs)
  show ?case
  proof (cases "snd c < t")
    case True
    with Cons show ?thesis by (cases n) auto
  next
    case False
    have "x = c \<or> x \<in> set cs" using Cons.prems(3) by (cases n) (auto dest: in_set_dropD)
    with False Cons.prems(1) show ?thesis by auto
  qed
qed simp

lemma pruneAttrs_get:
  fixes m :: amem and ks :: "string list"
  assumes "\<forall>k. attrs_ok wr k"
  defines "cs \<equiv> prune_candidates (sweep_map m) ks"
  shows "attrs_get k (am_attrs (fst (pruneAttrs wr now ks m))) =
    (if k \<in> fst ` set (take (prune_count (now - attrsRetention) cs) cs) then None else attrs_get k (am_attrs m))"
  using prune_loop_ok [OF assms(1), of cs "now - attrsRetention" 0 m] sorted_candidates [of "sweep_map m" ks] assms(1)
  by (simp add: pruneAttrs_def Let_def cs_def [symmetric] fold_mem_delete_entry)

lemma remaining_decided:
  assumes ok: "\<forall>k. attrs_ok wr k" and ks: "set ks = dom (sweep_map m)"
    and e: "entry_at (AttrsKey i) (fst (pruneAttrs wr now ks m)) = Some e" "ae_Status e \<noteq> ''pending''"
  defines "cs \<equiv> prune_candidates (sweep_map m) ks"
  shows "(AttrsKey i, decided_when e) \<in> set (drop (prune_count (now - attrsRetention) cs) cs)"
proof -
  let ?p = "prune_count (now - attrsRetention) cs"
  have keep: "AttrsKey i \<notin> fst ` set (take ?p cs)" and m: "entry_at (AttrsKey i) m = Some e"
    using e(1) pruneAttrs_get [OF ok, of "AttrsKey i" now ks m]
    by (auto simp: entry_at_def cs_def bind_eq_Some_conv split: if_splits)
  have "AttrsKey i \<in> set ks"
    using m ks by (auto simp: entry_at_def sweep_map_eq attrs_get_def bind_eq_Some_conv)
  then have "(AttrsKey i, decided_when e) \<in> set cs"
    unfolding cs_def candidate_iff using m e(2) by (auto simp: approval_at_sweep)
  then have "(AttrsKey i, decided_when e) \<in> set (take ?p cs) \<union> set (drop ?p cs)"
    by (metis append_take_drop_id set_append)
  with keep show ?thesis by force
qed

text \<open>
  C9: pruning the attribute store keeps the promises of its comment. With successful deletions, after
  a prune no decided record is past its thirty days, at most two hundred decided records remain, and
  whatever is not a decided approval, pending requests and other components' keys included, is
  untouched.
\<close>

theorem pruneAttrs_bounds:
  fixes now :: instant
  assumes ok: "\<forall>k. attrs_ok wr k" and ks: "distinct ks" "set ks = dom (sweep_map m)"
  defines "m' \<equiv> fst (pruneAttrs wr now ks m)"
  shows "(\<forall>i e. entry_at (AttrsKey i) m' = Some e \<and> ae_Status e \<noteq> ''pending'' \<longrightarrow>
      now - attrsRetention \<le> decided_when e) \<and>
    card {i. \<exists>e. entry_at (AttrsKey i) m' = Some e \<and> ae_Status e \<noteq> ''pending''} \<le> maxAttrsEntries \<and>
    (\<forall>k. (\<forall>e. approval_at (sweep_map m) k = Some e \<longrightarrow> ae_Status e = ''pending'') \<longrightarrow>
      attrs_get k (am_attrs m') = attrs_get k (am_attrs m))"
proof -
  define cs where "cs = prune_candidates (sweep_map m) ks"
  define p where "p = prune_count (now - attrsRetention) cs"
  have rem: "(AttrsKey i, decided_when e) \<in> set (drop p cs)"
    if "entry_at (AttrsKey i) m' = Some e" "ae_Status e \<noteq> ''pending''" for i e
    using remaining_decided [OF ok ks(2) that(1) [unfolded m'_def] that(2)] by (simp add: p_def cs_def)
  have "\<not> decided_when e < now - attrsRetention"
    if "entry_at (AttrsKey i) m' = Some e" "ae_Status e \<noteq> ''pending''" for i e
    using after_takeWhile [of cs "now - attrsRetention" p "(AttrsKey i, decided_when e)"] rem [OF that]
      sorted_candidates [of "sweep_map m" ks]
    by (simp add: cs_def p_def prune_count_def)
  moreover have "card {i. \<exists>e. entry_at (AttrsKey i) m' = Some e \<and> ae_Status e \<noteq> ''pending''} \<le> maxAttrsEntries"
  proof -
    have "AttrsKey ` {i. \<exists>e. entry_at (AttrsKey i) m' = Some e \<and> ae_Status e \<noteq> ''pending''} \<subseteq> set (map fst (drop p cs))"
      using rem by force
    then have "card (AttrsKey ` {i. \<exists>e. entry_at (AttrsKey i) m' = Some e \<and> ae_Status e \<noteq> ''pending''})
        \<le> length (map fst (drop p cs))"
      by (meson List.finite_set card_length card_mono le_trans)
    also have "\<dots> \<le> maxAttrsEntries" by (simp add: p_def prune_count_def)
    finally show ?thesis by (simp add: card_image inj_on_def)
  qed
  moreover have "attrs_get k (am_attrs m') = attrs_get k (am_attrs m)"
    if "\<forall>e. approval_at (sweep_map m) k = Some e \<longrightarrow> ae_Status e = ''pending''" for k
  proof -
    have "k \<notin> fst ` set (take p cs)"
    proof
      assume "k \<in> fst ` set (take p cs)"
      then obtain t where "(k, t) \<in> set cs" by (auto dest: in_set_takeD)
      with that show False unfolding cs_def candidate_iff by blast
    qed
    then show ?thesis using pruneAttrs_get [OF ok, of k now ks m] by (simp add: m'_def p_def cs_def)
  qed
  ultimately show ?thesis by force
qed

theorem pruneAttrs_bounds_witness:
  "card {i. \<exists>e. entry_at (AttrsKey i) (fst (pruneAttrs wr_ok (900 * hour) [''approval:x1''] (sy_mem demo_sys))) = Some e \<and>
      ae_Status e \<noteq> ''pending''} \<le> maxAttrsEntries \<and>
    entry_at (AttrsKey ''x1'') (fst (pruneAttrs wr_ok (900 * hour) [''approval:x1''] (sy_mem demo_sys))) = None"
proof -
  let ?m' = "fst (pruneAttrs wr_ok (900 * hour) [''approval:x1''] (sy_mem demo_sys))"
  have "dom (sweep_map (sy_mem demo_sys)) = {''approval:x1''}"
    by (simp add: sweep_map_eq demo_sys_def decision_handler_def demo_request_def demo_pending_def createPending_def
        path_id_def SplitN2_def TrimPrefix_def HasPrefix_def mem_get_def Attrs_Get_def dec_approval_def decode_as_def
        new_entry_def mem_set_def wr_ok_def attrs_put_def attrs_map_def AttrsKey_def writeTimeline_def tl_write_def Let_def)
  then have "set [''approval:x1''] = dom (sweep_map (sy_mem demo_sys))" by simp
  from pruneAttrs_bounds [OF _ _ this, of wr_ok "900 * hour"]
  have "card {i. \<exists>e. entry_at (AttrsKey i) ?m' = Some e \<and> ae_Status e \<noteq> ''pending''} \<le> maxAttrsEntries"
    unfolding wr_ok_def by simp
  moreover have "entry_at (AttrsKey ''x1'') ?m' = None" by code_simp
  ultimately show ?thesis by blast
qed

section \<open>Reminders\<close>

lemma mark_silent:
  "entry_at key m = Some e \<Longrightarrow> ae_Escalated e \<Longrightarrow> snd (markEscalated wr key t d a imp r lim m) = []"
  using mem_get_entry [of key m e] by (simp add: markEscalated_def)

lemma mark_silent_none: "entry_at key m = None \<Longrightarrow> snd (markEscalated wr key t d a imp r lim m) = []"
  by (cases key m rule: entry_at_cases) (simp_all add: markEscalated_def)

lemma astep_evolves:
  assumes "astep s s'" "i \<in> sy_used s"
  shows "i \<in> sy_used s' \<and> (\<forall>e'. entry_at (AttrsKey i) (sy_mem s') = Some e' \<longrightarrow>
    (\<exists>e. entry_at (AttrsKey i) (sy_mem s) = Some e \<and> later e e'))"
  using assms
proof (cases rule: astep.cases)
  case (Submit j wr fmt now title detail action importance risk auto reason r m' ns)
  then show ?thesis
    using assms(2) entry_at_create [of "AttrsKey i" wr fmt now j title detail action importance risk auto reason "sy_mem s"]
    by (auto split: if_splits)
next
  case (Decide wr now req sc m' exec)
  then show ?thesis using evolves_handler [of "sy_mem s" wr now req] assms(2) by (simp add: evolves_def)
next
  case (Sweep wr now ks1 ks2 ks3 m' ns)
  then show ?thesis using evolves_sweep [of "sy_mem s" wr now ks1 ks2 ks3] assms(2) by (simp add: evolves_def)
next
  case (Waiter wr j title detail action importance risk ev out m' ns)
  then show ?thesis
    using evolves_wait_step [of "sy_mem s" wr j title detail action importance risk ev] assms(2) by (simp add: evolves_def)
next
  case (Output wr j out r m')
  then show ?thesis using evolves_SetOutput [of "sy_mem s" wr j out] assms(2) by (simp add: evolves_def)
qed

lemma escalated_stays:
  assumes "astep\<^sup>*\<^sup>* s s'" "i \<in> sy_used s" "\<forall>e. entry_at (AttrsKey i) (sy_mem s) = Some e \<longrightarrow> ae_Escalated e"
  shows "i \<in> sy_used s' \<and> (\<forall>e. entry_at (AttrsKey i) (sy_mem s') = Some e \<longrightarrow> ae_Escalated e)"
  using assms
proof (induction rule: rtranclp_induct)
  case (step a b)
  then show ?case using astep_evolves [of a b i] by (metis later_def)
qed auto

text \<open>
  The halfway reminder of a request is sent at most once. Once \<open>markEscalated\<close> has produced the
  notification for a record, no later call for that record produces one, whatever the agent does in
  between: decisions, sweeps, waiter events, other submissions.
\<close>

theorem reminder_at_most_once:
  assumes first: "markEscalated wr (AttrsKey i) t d a imp r lim (sy_mem s) = (m1, n # ns)"
    and used: "i \<in> sy_used s" and run: "astep\<^sup>*\<^sup>* (s\<lparr>sy_mem := m1\<rparr>) s'"
  shows "snd (markEscalated wr' (AttrsKey i) t' d' a' imp' r' lim' (sy_mem s')) = []"
proof -
  have ok: "attrs_ok wr (AttrsKey i)"
    using first by (cases "AttrsKey i" "sy_mem s" rule: entry_at_cases)
      (auto simp: markEscalated_def mem_set_def split: if_splits)
  obtain e where e: "entry_at (AttrsKey i) (sy_mem s) = Some e" "ae_Status e = ''pending''"
    using first by (cases "AttrsKey i" "sy_mem s" rule: entry_at_cases)
      (auto simp: markEscalated_def split: if_splits)
  have "entry_at (AttrsKey i) m1 = Some (e\<lparr>ae_Escalated := True\<rparr>)"
    using entry_at_markEscalated [of "AttrsKey i" wr "AttrsKey i" t d a imp r lim "sy_mem s"] first ok e by simp
  then have "\<forall>e. entry_at (AttrsKey i) (sy_mem s') = Some e \<longrightarrow> ae_Escalated e"
    using escalated_stays [OF run, of i] used by simp
  then show ?thesis
    using mark_silent mark_silent_none by (cases "entry_at (AttrsKey i) (sy_mem s')") auto
qed

theorem reminder_at_most_once_witness:
  "snd (markEscalated wr_ok (AttrsKey ''x1'') ''T'' ''D'' ''reboot'' ''low'' ''low'' 7
      (fst (markEscalated wr_ok (AttrsKey ''x1'') ''T'' ''D'' ''reboot'' ''low'' ''low'' 7 demo_pending))) = []"
proof -
  let ?s = "\<lparr>sy_mem = demo_pending, sy_used = {''x1''}, sy_launched = []\<rparr>"
  let ?r = "markEscalated wr_ok (AttrsKey ''x1'') ''T'' ''D'' ''reboot'' ''low'' ''low'' 7 (sy_mem ?s)"
  have "list_all (\<lambda>n. n_subject n = ''[Approval Reminder] T'') (snd ?r) \<and> length (snd ?r) = 1"
    unfolding asys.simps by code_simp
  then obtain n where "?r = (fst ?r, n # [])"
    by (cases "snd ?r") (auto simp: prod_eq_iff)
  from reminder_at_most_once [OF this, of "?s\<lparr>sy_mem := fst ?r\<rparr>"] show ?thesis by simp
qed

section \<open>The waiter\<close>

lemma wait_step_returned:
  assumes "wait_step wr i t d a imp r ev m = (Returned st, m', ns)" "st \<noteq> ''timed_out''"
  shows "\<exists>e. entry_at (AttrsKey i) m' = Some e \<and> ae_Status e = st \<and> st \<noteq> ''pending''"
proof (cases ev)
  case PollTick
  with assms(1) show ?thesis
    by (cases "AttrsKey i" m rule: entry_at_cases) (auto simp: wait_step_def split: if_splits)
qed (use assms in \<open>auto simp: wait_step_def Let_def split: if_splits prod.splits\<close>)

text \<open>
  A blocking request returns the operator's word. If the wait loop, under any events and any
  concurrent changes of the memory, returns something other than \<open>timed_out\<close>, then that is the status
  its record carries, and it is not \<open>pending\<close>: \<open>approved\<close> is returned only while the record says so.
\<close>

theorem waiter_returns_recorded_decision:
  assumes "wait_loop wr i t d a imp r evs m = (Returned st, m', ns)" "st \<noteq> ''timed_out''"
  shows "\<exists>e. entry_at (AttrsKey i) m' = Some e \<and> ae_Status e = st \<and> st \<noteq> ''pending''"
  using assms(1)
proof (induction evs arbitrary: m ns)
  case (Cons x evs)
  obtain env ev where x: "x = (env, ev)" by fastforce
  obtain out m1 ns1 where w: "wait_step wr i t d a imp r ev (env m) = (out, m1, ns1)" by (metis prod.exhaust)
  show ?case
  proof (cases out)
    case Waiting
    obtain out2 m2 ns2 where "wait_loop wr i t d a imp r evs m1 = (out2, m2, ns2)" by (metis prod.exhaust)
    with Cons.prems w x Waiting show ?thesis using Cons.IH [of m1 ns2] by simp
  next
    case (Returned st')
    with Cons.prems w x have "st' = st" "m1 = m'" by auto
    with w Returned assms(2) show ?thesis using wait_step_returned by blast
  next
    case Aborted
    with Cons.prems w x show ?thesis by simp
  qed
qed simp

theorem waiter_returns_recorded_decision_witness:
  "\<exists>e. entry_at (AttrsKey ''x1'') (fst (snd (wait_loop wr_ok ''x1'' ''T'' ''D'' ''reboot'' ''low'' ''low''
      [(\<lambda>m. m, PollTick), (\<lambda>m. fst (snd (decision_handler wr_ok 9 demo_request m)), PollTick)] demo_pending))) = Some e \<and>
    ae_Status e = ''approved'' \<and> ''approved'' \<noteq> ''pending''"
proof -
  let ?r = "wait_loop wr_ok ''x1'' ''T'' ''D'' ''reboot'' ''low'' ''low''
      [(\<lambda>m. m, PollTick), (\<lambda>m. fst (snd (decision_handler wr_ok 9 demo_request m)), PollTick)] demo_pending"
  have "fst ?r = Returned ''approved''" by code_simp
  then have "?r = (Returned ''approved'', fst (snd ?r), snd (snd ?r))" by (simp add: prod_eq_iff)
  from waiter_returns_recorded_decision [OF this] show ?thesis by simp
qed

text \<open>
  The waiter's timer does not look at the record it overwrites. If the operator approves a blocking
  request after the last poll and the timer fires before the next one, the decision endpoint has answered
  200, and yet the waiter returns \<open>timed_out\<close> and rewrites the approved record as \<open>timed_out\<close>.
\<close>

theorem timer_overwrites_decision:
  assumes "decision_handler wr now req m = (200, m1, exec)"
    "entry_at (AttrsKey i) m1 = Some e" "ae_Status e = ''approved''" "attrs_ok wr' (AttrsKey i)"
  shows "\<exists>m2. wait_step wr' i t d a imp r TimerFired m1 = (Returned ''timed_out'', m2, []) \<and>
    entry_at (AttrsKey i) m2 = Some (timed_out e)"
  using assms(2,4) by (simp add: wait_step_def Let_def entry_at_patchAttrs timed_out_def)

theorem timer_overwrites_decision_witness:
  "\<exists>m2 e. wait_step wr_ok ''x1'' ''T'' ''D'' ''reboot'' ''low'' ''low'' TimerFired
      (fst (snd (decision_handler wr_ok 9 demo_request demo_pending))) = (Returned ''timed_out'', m2, []) \<and>
    entry_at (AttrsKey ''x1'') m2 = Some (timed_out e)"
proof -
  let ?h = "decision_handler wr_ok 9 demo_request demo_pending"
  have h: "?h = (200, fst (snd ?h), snd (snd ?h))"
  proof -
    have "fst ?h = 200" by code_simp
    then show ?thesis by (simp add: prod_eq_iff)
  qed
  have "map_option ae_Status (entry_at (AttrsKey ''x1'') (fst (snd ?h))) = Some ''approved''" by code_simp
  then obtain e where "entry_at (AttrsKey ''x1'') (fst (snd ?h)) = Some e" "ae_Status e = ''approved''" by auto
  from timer_overwrites_decision [OF h this, of wr_ok "''T''" "''D''" "''reboot''" "''low''" "''low''"]
  show ?thesis by (auto simp: wr_ok_def)
qed

end
