(* ===== verification/Manual_Run.thy ===== *)
theory Manual_Run
  imports Approval
begin

text \<open>
  Manual runs: \<open>skills/request_manual_run/request_manual_run.go\<close> (a command the agent may not run itself is
  handed to the operator, who submits its output) and the result endpoint of
  \<open>manualrunapi/manualrunapi.go\<close>. Same shape as approvals: a pending record, a timeline card, a waiter that
  polls, and a sweeper that prunes decided records.
\<close>

section \<open>Operations\<close>

definition manualTimeout :: duration where "manualTimeout = 24 * hour"

definition ManualKey :: "string \<Rightarrow> string" where
  "ManualKey i = ''manual_run:'' @ i"

definition buildSudoersInstruction :: "string \<Rightarrow> string \<Rightarrow> string" where
  "buildSudoersInstruction host command =
     ''On '' @ host @ '', add a passwordless sudoers rule for the service account to run: '' @ command"

definition manual_writeTimeline ::
    "wr \<Rightarrow> (instant \<Rightarrow> string) \<Rightarrow> string \<Rightarrow> string \<Rightarrow> string \<Rightarrow> string \<Rightarrow> string \<Rightarrow> string \<Rightarrow> instant \<Rightarrow> amem \<Rightarrow>
      unit result \<times> amem" where
  "manual_writeTimeline wr fmt i title command host reason sudoers now m =
     tl_write wr i
       (prepend_capped
          (zero_entry\<lparr>te_ID := i, te_Time := fmt now, te_Type := ''manual_run'', te_Title := title,
             te_Detail := ''Host: '' @ host @ nl @ nl @ ''Reason: '' @ reason,
             te_ProposedAction := Some command, te_Status := Some ''pending'', te_SudoersInstruction := Some sudoers\<rparr>)
          (am_timeline m)) m"

definition manual_patchAttrs :: "wr \<Rightarrow> instant \<Rightarrow> string \<Rightarrow> string \<Rightarrow> string \<Rightarrow> amem \<Rightarrow> unit result \<times> amem" where
  "manual_patchAttrs wr now key newStatus output m =
     (case mem_get dec_manual key m of
        Inl e \<Rightarrow> (Inl e, m)
      | Inr entry \<Rightarrow>
          let entry = entry\<lparr>mr_Status := newStatus, mr_Output := output\<rparr>;
              entry = (if newStatus \<noteq> ''pending'' then entry\<lparr>mr_CompletedAt := Some now\<rparr> else entry)
          in mem_set wr key (RManual entry) m)"

datatype manual_outcome = MWaiting | MReturned string string | MAborted   \<comment> \<open>output, status\<close>

definition manual_wait_step :: "wr \<Rightarrow> instant \<Rightarrow> string \<Rightarrow> wait_event \<Rightarrow> amem \<Rightarrow> manual_outcome \<times> amem" where
  "manual_wait_step wr now i ev m =
     (case ev of
        CtxDone \<Rightarrow>
          (MAborted, snd (PatchTimeline wr i ''cancelled'' (snd (manual_patchAttrs wr now (ManualKey i) ''cancelled'' '''' m))))
      | TimerFired \<Rightarrow>
          (MReturned '''' ''timed_out'',
           snd (PatchTimeline wr i ''timed_out'' (snd (manual_patchAttrs wr now (ManualKey i) ''timed_out'' '''' m))))
      | EscalationFired \<Rightarrow> (MWaiting, m)
      | PollTick \<Rightarrow>
          (case mem_get dec_manual (ManualKey i) m of
             Inl e \<Rightarrow> (MWaiting, m)
           | Inr current \<Rightarrow>
               if mr_Status current \<noteq> ''pending''
               then (MReturned (mr_Output current) (mr_Status current), snd (PatchTimeline wr i (mr_Status current) m))
               else (MWaiting, m)))"

fun manual_wait_loop :: "wr \<Rightarrow> string \<Rightarrow> ((amem \<Rightarrow> amem) \<times> instant \<times> wait_event) list \<Rightarrow> amem \<Rightarrow> manual_outcome \<times> amem" where
  "manual_wait_loop wr i [] m = (MWaiting, m)"
| "manual_wait_loop wr i ((env, now, ev) # evs) m =
     (case manual_wait_step wr now i ev (env m) of
        (MWaiting, m) \<Rightarrow> manual_wait_loop wr i evs m
      | r \<Rightarrow> r)"

definition RequestManualRun ::
    "wr \<Rightarrow> (instant \<Rightarrow> string) \<Rightarrow> instant \<Rightarrow> string \<Rightarrow> string \<Rightarrow> string \<Rightarrow> string \<Rightarrow> string \<Rightarrow>
      ((amem \<Rightarrow> amem) \<times> instant \<times> wait_event) list \<Rightarrow> amem \<Rightarrow> manual_outcome result \<times> amem \<times> notification list" where
  "RequestManualRun wr fmt now i title command host reason evs m =
     (let sudoers = buildSudoersInstruction host command in
      case mem_set wr (ManualKey i)
             (RManual \<lparr>mr_ID = i, mr_Title = title, mr_Command = command, mr_Host = host, mr_Reason = reason,
                mr_SudoersInstruction = sudoers, mr_Status = ''pending'', mr_Output = '''', mr_RequestedAt = now,
                mr_CompletedAt = None\<rparr>) m of
        (Inl e, m) \<Rightarrow> (Inl e, m, [])
      | (Inr _, m) \<Rightarrow>
          let m = snd (manual_writeTimeline wr fmt i title command host reason sudoers now m);
              ns = [mk_note ''[Manual Run Required]'' title [host, command, reason]]
          in (case manual_wait_loop wr i evs m of (out, m) \<Rightarrow> (Inr out, m, ns)))"

definition manual_at :: "(string \<rightharpoonup> raw) \<Rightarrow> string \<Rightarrow> ManualRunEntry option" where
  "manual_at attrs key =
     (if HasPrefix key ''manual_run:'' then Option.bind (attrs key) dec_manual else None)"

definition completed_when :: "ManualRunEntry \<Rightarrow> instant" where
  "completed_when e = (case mr_CompletedAt e of None \<Rightarrow> mr_RequestedAt e | Some t \<Rightarrow> t)"

definition manual_candidates :: "(string \<rightharpoonup> raw) \<Rightarrow> string list \<Rightarrow> (string \<times> instant) list" where
  "manual_candidates attrs ks =
     sort_by (\<lambda>a b. snd a < snd b)
       (List.map_filter
          (\<lambda>key. case manual_at attrs key of
                   None \<Rightarrow> None
                 | Some e \<Rightarrow> if mr_Status e = ''pending'' then None else Some (key, completed_when e)) ks)"

text \<open>Retention and cap are those of the approvals, and so is the deletion loop.\<close>

definition manual_pruneAttrs :: "wr \<Rightarrow> instant \<Rightarrow> string list \<Rightarrow> amem \<Rightarrow> amem \<times> nat" where
  "manual_pruneAttrs wr now ks m =
     (let cs = manual_candidates (sweep_map m) ks
      in prune_loop wr (now - attrsRetention) cs (length cs) 0 m)"

text \<open>The result endpoint; the body is status and output.\<close>

record result_request =
  rr_method :: string
  rr_path :: string
  rr_body :: "(string \<times> string) option"

definition result_handler :: "wr \<Rightarrow> instant \<Rightarrow> result_request \<Rightarrow> amem \<Rightarrow> nat \<times> amem" where
  "result_handler wr now r m =
     (if rr_method r \<noteq> ''POST'' then (405, m)
      else case path_id ''/manual-runs/'' ''result'' (rr_path r) of
        None \<Rightarrow> (404, m)
      | Some i \<Rightarrow>
          (case rr_body r of
             None \<Rightarrow> (400, m)
           | Some (st, output) \<Rightarrow>
               if st \<noteq> ''completed'' \<and> st \<noteq> ''skipped'' then (400, m)
               else case mem_get dec_manual (ManualKey i) m of
                 Inl e \<Rightarrow> (404, snd (RemoveFromTimeline wr i m))
               | Inr entry \<Rightarrow>
                   if mr_Status entry \<noteq> ''pending'' then (409, m)
                   else (case mem_set wr (ManualKey i)
                            (RManual (entry\<lparr>mr_Status := st, mr_Output := output, mr_CompletedAt := Some now\<rparr>)) m of
                           (Inl e, m) \<Rightarrow> (500, m)
                         | (Inr _, m) \<Rightarrow> (200, snd (PatchTimeline wr i st m)))))"

section \<open>Lemmas\<close>

lemma mem_get_set_manual:
  "attrs_ok wr key \<Longrightarrow> mem_get dec_manual key (snd (mem_set wr key (RManual e) m)) = Inr e"
  by (simp add: mem_get_iff mem_set_get dec_manual_def)

lemma mem_get_timeline [simp]:
  "mem_get dec key (snd (PatchTimeline wr i st m)) = mem_get dec key m"
  "mem_get dec key (snd (tl_write wr i es m)) = mem_get dec key m"
  by (simp_all add: mem_get_def)

lemma ManualKey_not_approval: "\<not> HasPrefix (ManualKey i) ''approval:''"
  by (simp add: ManualKey_def HasPrefix_def)

text \<open>
  What the operator submits is what the agent gets. If the result endpoint answers 200 for a pending
  manual run, the next poll of the waiting command returns exactly the submitted output and status, and
  a second submission for the same run is refused with 409 and changes nothing.
\<close>

theorem manual_result_delivered:
  assumes pending: "mem_get dec_manual (ManualKey i) m = Inr e" "mr_Status e = ''pending''"
    and req: "rr_method r = ''POST''" "path_id ''/manual-runs/'' ''result'' (rr_path r) = Some i"
      "rr_body r = Some (st, output)" "st = ''completed'' \<or> st = ''skipped''"
    and ok: "attrs_ok wr (ManualKey i)"
  shows "\<exists>m1. result_handler wr now r m = (200, m1) \<and>
    fst (manual_wait_step wr' t i PollTick m1) = MReturned output st \<and>
    result_handler wr'' t' r m1 = (409, m1)"
proof -
  define e' where "e' = e\<lparr>mr_Status := st, mr_Output := output, mr_CompletedAt := Some now\<rparr>"
  define m1 where "m1 = snd (PatchTimeline wr i st (snd (mem_set wr (ManualKey i) (RManual e') m)))"
  have "result_handler wr now r m = (200, m1)"
    using pending req ok by (auto simp: result_handler_def mem_set_def m1_def e'_def)
  moreover have get: "mem_get dec_manual (ManualKey i) m1 = Inr e'"
    using ok by (simp add: m1_def mem_get_set_manual)
  moreover have "st \<noteq> ''pending''" using req(4) by auto
  ultimately show ?thesis
    using req by (auto simp: manual_wait_step_def result_handler_def e'_def)
qed

definition demo_manual :: amem where
  "demo_manual = snd (mem_set wr_ok (ManualKey ''m1'') (RManual \<lparr>mr_ID = ''m1'', mr_Title = ''T'', mr_Command = ''reboot'',
     mr_Host = ''h'', mr_Reason = '''', mr_SudoersInstruction = '''', mr_Status = ''pending'', mr_Output = '''',
     mr_RequestedAt = 1, mr_CompletedAt = None\<rparr>) \<lparr>am_attrs = Missing, am_timeline = None\<rparr>)"

theorem manual_result_delivered_witness:
  "\<exists>m1. result_handler wr_ok 9 \<lparr>rr_method = ''POST'', rr_path = ''/manual-runs/m1/result'', rr_body = Some (''completed'', ''ok'')\<rparr>
      demo_manual = (200, m1) \<and>
    fst (manual_wait_step wr_ok 10 ''m1'' PollTick m1) = MReturned ''ok'' ''completed'' \<and>
    result_handler wr_ok 11 \<lparr>rr_method = ''POST'', rr_path = ''/manual-runs/m1/result'', rr_body = Some (''completed'', ''ok'')\<rparr> m1
      = (409, m1)"
proof -
  obtain e where e: "mem_get dec_manual (ManualKey ''m1'') demo_manual = Inr e" "mr_Status e = ''pending''"
    unfolding demo_manual_def by (simp add: mem_get_set_manual wr_ok_def)
  have "path_id ''/manual-runs/'' ''result'' ''/manual-runs/m1/result'' = Some ''m1''" by code_simp
  then show ?thesis by (intro manual_result_delivered [OF e]) (simp_all add: wr_ok_def)
qed

end
