(* ===== verification/Policy.thy ===== *)
theory Policy
  imports Agent_Data Regex
begin

text \<open>
  Standing approval policies: \<open>policy/policy.go\<close>. The policy list and the approval counts live in the
  attribute store. \<open>compile\<close> stands for the parser of \<open>regexp.Compile\<close> on the operator's pattern text: the
  expression it denotes, or \<open>None\<close> for a syntax error; the anchoring \<open>\A(?:...)\z\<close> is the code's. \<open>ord\<close> is the
  order in which Go walks the count map.
\<close>

type_synonym compiler = "string \<Rightarrow> re option"

section \<open>Operations\<close>

definition attrsKey :: string where "attrsKey = ''approval_policies''"
definition historyKey :: string where "historyKey = ''approval_history''"
definition PromotionThreshold :: int where "PromotionThreshold = 3"
definition maxHistoryEntries :: nat where "maxHistoryEntries = 200"
definition maxInt :: int where "maxInt = 2 ^ 63 - 1"

definition NormalizeCommand :: "string \<Rightarrow> string" where
  "NormalizeCommand cmd = Join (Fields (TrimSpace cmd)) '' ''"

definition load_policies :: "amem \<Rightarrow> Policy list" where
  "load_policies m = (case mem_get dec_policies attrsKey m of Inl _ \<Rightarrow> [] | Inr ps \<Rightarrow> ps)"

text \<open>A store pointer or its memory may be nil: \<open>None\<close>.\<close>

definition Policy_All :: "amem option \<Rightarrow> Policy list" where
  "Policy_All s = (case s of None \<Rightarrow> [] | Some m \<Rightarrow> load_policies m)"

definition Policy_Add ::
    "compiler \<Rightarrow> wr \<Rightarrow> (instant \<Rightarrow> string) \<Rightarrow> instant \<Rightarrow> instant \<Rightarrow> string \<Rightarrow> string \<Rightarrow> string \<Rightarrow> amem option \<Rightarrow>
      Policy result \<times> amem option" where
  "Policy_Add compile wr fmt t1 t2 description pattern risk s =
     (case s of
        None \<Rightarrow> (Inl NoStore, None)
      | Some m \<Rightarrow>
          if TrimSpace pattern = '''' then (Inl (Invalid ''pattern must not be empty''), s)
          else if compile pattern = None then (Inl (Invalid ''invalid pattern''), s)
          else if TrimSpace description = '''' then (Inl (Invalid ''description must not be empty''), s)
          else
            let p = \<lparr>po_ID = ''policy-'' @ show_int t1, po_Description = TrimSpace description, po_Pattern = pattern,
                     po_Risk = ToLower (TrimSpace risk), po_CreatedAt = fmt t2, po_Enabled = True\<rparr> in
            (case mem_set wr attrsKey (RPolicies (load_policies m @ [p])) m of
               (Inl e, m) \<Rightarrow> (Inl e, Some m)
             | (Inr _, m) \<Rightarrow> (Inr p, Some m)))"

definition Policy_Delete :: "wr \<Rightarrow> string \<Rightarrow> amem option \<Rightarrow> unit result \<times> amem option" where
  "Policy_Delete wr i s =
     (case s of
        None \<Rightarrow> (Inl NoStore, None)
      | Some m \<Rightarrow>
          let ps = load_policies m; kept = filter (\<lambda>p. po_ID p \<noteq> i) ps in
          if \<not> list_ex (\<lambda>p. po_ID p = i) ps then (Inl (NotFound i), s)
          else (case mem_set wr attrsKey (RPolicies kept) m of (r, m) \<Rightarrow> (r, Some m)))"

definition policy_matches :: "compiler \<Rightarrow> string \<Rightarrow> Policy \<Rightarrow> bool" where
  "policy_matches compile cmd p \<longleftrightarrow> po_Enabled p \<and>
     (case compile (po_Pattern p) of
        None \<Rightarrow> False
      | Some re \<Rightarrow> MatchString (Seq Bot (Seq re Eot)) cmd)"

definition Policy_Match :: "compiler \<Rightarrow> string \<Rightarrow> amem option \<Rightarrow> Policy option" where
  "Policy_Match compile command s =
     (case s of
        None \<Rightarrow> None
      | Some m \<Rightarrow> find_first (policy_matches compile (NormalizeCommand command)) (load_policies m))"

text \<open>The approval counts: a map with distinct keys.\<close>

definition count_of :: "(string \<times> int) list \<Rightarrow> string \<Rightarrow> int" where
  "count_of cs k = (case map_of cs k of None \<Rightarrow> 0 | Some n \<Rightarrow> n)"

definition min_step :: "string \<Rightarrow> string \<times> int \<Rightarrow> string \<times> int \<Rightarrow> string \<times> int" where
  "min_step key c best = (if fst c \<noteq> key \<and> snd c < snd best then c else best)"

definition evict_key :: "string \<Rightarrow> (string \<times> int) list \<Rightarrow> string" where
  "evict_key key cs = fst (fold (min_step key) cs ('''', maxInt))"

function evict :: "((string \<times> int) list \<Rightarrow> (string \<times> int) list) \<Rightarrow> string \<Rightarrow> (string \<times> int) list \<Rightarrow> (string \<times> int) list" where
  "evict ord key cs =
     (if length cs > maxHistoryEntries
      then let k = evict_key key (ord cs) in
           if k = '''' \<or> k \<notin> fst ` set cs then cs else evict ord key (filter (\<lambda>c. fst c \<noteq> k) cs)
      else cs)"
  by pat_completeness auto
termination
  by (relation "measure (\<lambda>(ord, key, cs). length cs)") (auto intro: length_filter_less)

declare evict.simps [simp del]

definition RecordApproval ::
    "((string \<times> int) list \<Rightarrow> (string \<times> int) list) \<Rightarrow> wr \<Rightarrow> string \<Rightarrow> amem option \<Rightarrow> int result \<times> amem option" where
  "RecordApproval ord wr command s =
     (case s of
        None \<Rightarrow> (Inl NoStore, None)
      | Some m \<Rightarrow>
          let counts = (case mem_get dec_counts historyKey m of Inl _ \<Rightarrow> [] | Inr cs \<Rightarrow> cs);
              key = NormalizeCommand command;
              n = count_of counts key + 1;
              counts = evict ord key (AList.update key n counts)
          in (case mem_set wr historyKey (RCounts counts) m of
                (Inl e, m) \<Rightarrow> (Inl e, Some m)
              | (Inr _, m) \<Rightarrow> (Inr n, Some m)))"

section \<open>Matching\<close>

lemma full_match:
  "MatchString (Seq Bot (Seq re Eot)) cmd \<longleftrightarrow> matches re ([], runes cmd) (rev (runes cmd), [])"
proof
  assume "MatchString (Seq Bot (Seq re Eot)) cmd"
  then obtain u v q where uv: "runes cmd = u @ v" and m: "matches (Seq Bot (Seq re Eot)) (rev u, v) q"
    unfolding MatchString_def match_runes_iff by (elim exE conjE)
  from m obtain l where "u = []" "matches re ([], v) (l, [])" by auto
  moreover from matches_shift [OF this(2)] have "l = rev v" by auto
  ultimately show "matches re ([], runes cmd) (rev (runes cmd), [])" using uv by simp
next
  assume m: "matches re ([], runes cmd) (rev (runes cmd), [])"
  have "matches (Seq Bot (Seq re Eot)) ([], runes cmd) (rev (runes cmd), [])"
    by (rule matches.Seq [OF matches.Bot matches.Seq [OF m matches.Eot]])
  then show "MatchString (Seq Bot (Seq re Eot)) cmd"
    unfolding MatchString_def by (rule match_runesI [where u = "[]"]) simp_all
qed

text \<open>
  C10: a standing policy applies only to a command it matches as a whole. If \<open>Match\<close> returns a policy,
  that policy is stored and enabled and its pattern matches the whitespace-normalised command from its
  first to its last rune, and no earlier stored policy qualifies.
\<close>

theorem Policy_Match_whole_command:
  assumes "Policy_Match compile command (Some m) = Some p"
  shows "\<exists>ps qs re. load_policies m = ps @ p # qs \<and> po_Enabled p \<and> compile (po_Pattern p) = Some re \<and>
    matches re ([], runes (NormalizeCommand command)) (rev (runes (NormalizeCommand command)), []) \<and>
    (\<forall>q \<in> set ps. \<not> policy_matches compile (NormalizeCommand command) q)"
proof -
  have first: "\<exists>ps qs. xs = ps @ x # qs \<and> P x \<and> (\<forall>q \<in> set ps. \<not> P q)"
    if "find_first P xs = Some x" for P xs and x :: Policy
    using that
  proof (induction xs)
    case (Cons y ys)
    show ?case
    proof (cases "P y")
      case True
      with Cons.prems show ?thesis by (intro exI [of _ "[]"] exI [of _ ys]) simp
    next
      case False
      with Cons obtain ps qs where "ys = ps @ x # qs" "P x" "\<forall>q \<in> set ps. \<not> P q" by auto
      with False show ?thesis by (intro exI [of _ "y # ps"] exI [of _ qs]) simp
    qed
  qed simp
  from assms obtain ps qs where ps: "load_policies m = ps @ p # qs" "policy_matches compile (NormalizeCommand command) p"
    "\<forall>q \<in> set ps. \<not> policy_matches compile (NormalizeCommand command) q"
    unfolding Policy_Match_def using first by fastforce
  then show ?thesis by (auto simp: policy_matches_def full_match split: option.splits)
qed

definition demo_policy :: Policy where
  "demo_policy = \<lparr>po_ID = ''policy-1'', po_Description = ''d'', po_Pattern = ''apt .*'', po_Risk = ''low'', po_CreatedAt = '''',
     po_Enabled = True\<rparr>"

definition demo_compile :: compiler where
  "demo_compile p = (if p = ''apt .*'' then Some (Seq (lits ''apt '') (rstar dot)) else None)"

definition demo_policies :: amem where
  "demo_policies = snd (mem_set wr_ok attrsKey (RPolicies [demo_policy]) \<lparr>am_attrs = Missing, am_timeline = None\<rparr>)"

theorem Policy_Match_whole_command_witness:
  "\<exists>ps qs re. load_policies demo_policies = ps @ demo_policy # qs \<and> po_Enabled demo_policy \<and>
    demo_compile (po_Pattern demo_policy) = Some re \<and>
    matches re ([], runes (NormalizeCommand ''apt  update'')) (rev (runes (NormalizeCommand ''apt  update'')), []) \<and>
    (\<forall>q \<in> set ps. \<not> policy_matches demo_compile (NormalizeCommand ''apt  update'') q)"
proof -
  have "Policy_Match demo_compile ''apt  update'' (Some demo_policies) = Some demo_policy" by code_simp
  then show ?thesis by (rule Policy_Match_whole_command)
qed

section \<open>Approval counts\<close>

lemma set_evict: "set (evict ord key cs) \<subseteq> set cs"
proof (induction ord key cs rule: evict.induct)
  case (1 ord key cs)
  then show ?case by (subst evict.simps) (auto simp: Let_def)
qed

lemma evict_key_choice:
  "fold (min_step key) cs best = best \<or> (fold (min_step key) cs best \<in> set cs \<and> fst (fold (min_step key) cs best) \<noteq> key)"
proof (induction cs arbitrary: best)
  case (Cons c cs)
  have fold: "fold (min_step key) (c # cs) best = fold (min_step key) cs (min_step key c best)" by simp
  show ?case
  proof (cases "fst c \<noteq> key \<and> snd c < snd best")
    case True
    then have "min_step key c best = c" by (simp add: min_step_def)
    then show ?thesis unfolding fold using Cons.IH [of c] True by auto
  next
    case False
    then have "min_step key c best = best" by (auto simp: min_step_def)
    then show ?thesis unfolding fold using Cons.IH [of best] by auto
  qed
qed simp

lemma evict_key_found:
  assumes "c \<in> set cs" "fst c \<noteq> key" "snd c < snd best"
  shows "fold (min_step key) cs best \<noteq> best"
proof -
  have mono: "snd (fold (min_step key) cs b) \<le> snd b" for b :: "string \<times> int" and cs
  proof (induction cs arbitrary: b)
    case (Cons d cs)
    have "snd (min_step key d b) \<le> snd b" by (auto simp: min_step_def)
    with Cons.IH [of "min_step key d b"] show ?case by simp
  qed simp
  have "snd (fold (min_step key) cs b) < snd best" if "c \<in> set cs" "snd b \<le> snd best" for b cs
    using that
  proof (induction cs arbitrary: b)
    case (Cons d cs)
    show ?case
    proof (cases "c = d")
      case True
      then have "snd (min_step key d b) < snd best" using assms(2,3) Cons.prems by (auto simp: min_step_def)
      then show ?thesis using mono [of cs "min_step key d b"] by simp
    next
      case False
      have "snd (min_step key d b) \<le> snd best" using Cons.prems by (auto simp: min_step_def)
      with False Cons show ?thesis by simp
    qed
  qed simp
  from this [of cs best] assms(1) show ?thesis by force
qed

text \<open>The counts a store can hold: distinct, non-empty commands with counts below the maximal integer.\<close>

definition counts_ok :: "(string \<times> int) list \<Rightarrow> bool" where
  "counts_ok cs \<longleftrightarrow> distinct (map fst cs) \<and> list_all (\<lambda>c. fst c \<noteq> '''' \<and> snd c < maxInt) cs"

lemma evict_key_valid:
  assumes "counts_ok cs" "set ocs = set cs" "length cs > 1" "key \<in> fst ` set cs"
  shows "evict_key key ocs \<noteq> '''' \<and> evict_key key ocs \<in> fst ` set cs \<and> evict_key key ocs \<noteq> key"
proof -
  obtain a b where ab: "a \<in> set cs" "b \<in> set cs" "fst a \<noteq> fst b"
    using assms(1,3) by (cases cs; cases "tl cs") (auto simp: counts_ok_def)
  then obtain c where c: "c \<in> set cs" "fst c \<noteq> key" by metis
  then have "fold (min_step key) ocs ('''', maxInt) \<noteq> ('''', maxInt)"
    using assms(1,2) by (intro evict_key_found) (auto simp: counts_ok_def list_all_iff)
  then have "fold (min_step key) ocs ('''', maxInt) \<in> set cs" "evict_key key ocs \<noteq> key"
    using evict_key_choice [of key ocs "('''', maxInt)"] assms(2) by (auto simp: evict_key_def)
  then show ?thesis using assms(1) by (auto simp: counts_ok_def list_all_iff evict_key_def)
qed

lemma evict_bounds:
  assumes "\<And>xs. set (ord xs) = set xs"
  shows "counts_ok cs \<Longrightarrow> (key, n) \<in> set cs \<Longrightarrow>
    length (evict ord key cs) \<le> maxHistoryEntries \<and> (key, n) \<in> set (evict ord key cs) \<and> counts_ok (evict ord key cs)"
proof (induction "length cs" arbitrary: cs rule: less_induct)
  case less
  show ?case
  proof (cases "length cs > maxHistoryEntries")
    case False
    with less show ?thesis by (subst (1 2 3) evict.simps) simp
  next
    case True
    let ?k = "evict_key key (ord cs)" and ?cs = "filter (\<lambda>c. fst c \<noteq> evict_key key (ord cs)) cs"
    have "key \<in> fst ` set cs" using less.prems(2) by force
    with True have k: "?k \<noteq> ''''" "?k \<in> fst ` set cs" "?k \<noteq> key"
      using evict_key_valid [OF less.prems(1) assms] by (auto simp: maxHistoryEntries_def)
    have "length ?cs < length cs" using k(2) by (auto intro: length_filter_less)
    moreover have "counts_ok ?cs" using less.prems(1) by (auto simp: counts_ok_def list_all_iff distinct_map_filter)
    moreover have "(key, n) \<in> set ?cs" using less.prems(2) k(3) by auto
    ultimately have "length (evict ord key ?cs) \<le> maxHistoryEntries \<and> (key, n) \<in> set (evict ord key ?cs) \<and>
      counts_ok (evict ord key ?cs)"
      using less.hyps by blast
    moreover have "evict ord key cs = evict ord key ?cs"
      using True k by (subst evict.simps) (simp add: Let_def)
    ultimately show ?thesis by simp
  qed
qed

definition stored_counts :: "amem \<Rightarrow> (string \<times> int) list" where
  "stored_counts m = (case mem_get dec_counts historyKey m of Inl _ \<Rightarrow> [] | Inr cs \<Rightarrow> cs)"

text \<open>
  The count that drives the suggestion of a standing policy is right. A recorded approval returns
  the stored count of the normalised command plus one and stores it; the command just approved is never
  the one evicted, at most two hundred commands are kept, whatever order Go walks the map in, and the
  store stays well formed.
\<close>

theorem RecordApproval_counts:
  assumes "counts_ok (stored_counts m)" "\<And>xs. set (ord xs) = set xs" "attrs_ok wr historyKey"
    and "NormalizeCommand command \<noteq> ''''" "count_of (stored_counts m) (NormalizeCommand command) + 1 < maxInt"
  shows "\<exists>m'. RecordApproval ord wr command (Some m) =
      (Inr (count_of (stored_counts m) (NormalizeCommand command) + 1), Some m') \<and>
    count_of (stored_counts m') (NormalizeCommand command) = count_of (stored_counts m) (NormalizeCommand command) + 1 \<and>
    length (stored_counts m') \<le> maxHistoryEntries \<and> counts_ok (stored_counts m')"
proof -
  define key n where "key = NormalizeCommand command" and "n = count_of (stored_counts m) key + 1"
  define cs where "cs = AList.update key n (stored_counts m)"
  have "counts_ok cs"
    using assms(1,4,5) set_update_subset [of key n "stored_counts m"]
    by (auto simp: counts_ok_def cs_def list_all_iff distinct_update key_def n_def)
  moreover have "(key, n) \<in> set cs"
    using map_of_SomeD [of cs key n] by (simp add: cs_def update_conv)
  ultimately have ev: "length (evict ord key cs) \<le> maxHistoryEntries" "(key, n) \<in> set (evict ord key cs)"
    "counts_ok (evict ord key cs)"
    using evict_bounds [of ord cs key n, OF assms(2)] by auto
  define m' where "m' = snd (mem_set wr historyKey (RCounts (evict ord key cs)) m)"
  have "mem_get dec_counts historyKey m' = Inr (evict ord key cs)"
    using assms(3) by (simp add: m'_def mem_get_iff mem_set_get dec_counts_def)
  then have st: "stored_counts m' = evict ord key cs" by (simp add: stored_counts_def)
  have "count_of (evict ord key cs) key = n"
    using ev(2,3) by (simp add: count_of_def counts_ok_def map_of_is_SomeI)
  moreover have "RecordApproval ord wr command (Some m) = (Inr n, Some m')"
    using assms(3) by (simp add: RecordApproval_def Let_def mem_set_def m'_def key_def n_def cs_def stored_counts_def)
  ultimately show ?thesis using ev st by (auto simp: key_def n_def)
qed

theorem RecordApproval_counts_witness:
  "\<exists>m'. RecordApproval rev wr_ok ''reboot '' (Some demo_policies) =
      (Inr (count_of (stored_counts demo_policies) (NormalizeCommand ''reboot '') + 1), Some m') \<and>
    count_of (stored_counts m') (NormalizeCommand ''reboot '') =
      count_of (stored_counts demo_policies) (NormalizeCommand ''reboot '') + 1 \<and>
    length (stored_counts m') \<le> maxHistoryEntries \<and> counts_ok (stored_counts m')"
proof (rule RecordApproval_counts)
  show "NormalizeCommand ''reboot '' \<noteq> ''''" by code_simp
  show "counts_ok (stored_counts demo_policies)" by code_simp
  show "count_of (stored_counts demo_policies) (NormalizeCommand ''reboot '') + 1 < maxInt" by code_simp
qed (simp_all add: wr_ok_def)

end
