(* ===== verification/Approved_Command.thy ===== *)
theory Approved_Command
  imports Manual_Run Policy Diagnostic
begin

text \<open>
  State-changing commands: \<open>skills/run_approved_command/run_approved_command.go\<close>. The tool refuses
  placeholders and read-only commands, runs a command at once when a standing policy matches it, and
  otherwise files an approval request; \<open>ExecuteOnApproval\<close> runs the command of an approved request.
  Running a process is a parameter (\<open>x_shell\<close>: combined output and the text of the error); each operation
  also returns the list of commands it handed to the shell. \<open>quote\<close> is \<open>strconv.Quote\<close>.
\<close>

section \<open>Input checks\<close>

definition noOpPhrases :: "string list" where
  "noOpPhrases = [''none'', ''n/a'', ''na'', ''no action'', ''no action required'', ''no action needed'',
     ''no command'', ''no remediation'', ''no remediation required'', ''not applicable'',
     ''nothing'', ''nothing to do'', ''nothing required'']"

definition isNoOpCommand :: "string \<Rightarrow> bool" where
  "isNoOpCommand s \<longleftrightarrow> ToLower (TrimSpace s) \<in> set noOpPhrases"

definition isNoOpShellBuiltin :: "string \<Rightarrow> bool" where
  "isNoOpShellBuiltin s \<longleftrightarrow> ToLower (TrimSpace s) \<in> set [''true'', '':'']"

definition isSudoersError :: "string \<Rightarrow> bool" where
  "isSudoersError output \<longleftrightarrow> HasPrefix (ToLower (TrimSpace output)) ''sudo:''"

definition isEchoStatusCommand :: "string \<Rightarrow> bool" where
  "isEchoStatusCommand s =
     (case Fields (TrimSpace s) of
        [] \<Rightarrow> False
      | f # _ \<Rightarrow>
          if ToLower f \<notin> set [''echo'', ''write-output'', ''write-host''] then False
          else \<not> list_ex (\<lambda>c. c = CHR ''>'' \<or> c = CHR ''|'') s)"

section \<open>Execution\<close>

record exec_env =
  x_sudo :: bool                                     \<comment> \<open>Linux and not root\<close>
  x_host :: string
  x_shell :: "string \<Rightarrow> string \<times> string option"

record manual_env =
  mn_id :: string
  mn_now :: instant
  mn_events :: "((amem \<Rightarrow> amem) \<times> instant \<times> wait_event) list"

datatype exec_result = Blocked | Finished "string result"   \<comment> \<open>\<open>Blocked\<close>: still waiting for a manual run\<close>

definition manual_message :: "string \<Rightarrow> string \<Rightarrow> string" where
  "manual_message output st =
     (if st = ''completed'' then output
      else if st = ''skipped'' then ''Operator chose to skip manual execution. No output available.''
      else ''Manual run request timed out without a response.'')"

definition executeApproved ::
    "wr \<Rightarrow> (instant \<Rightarrow> string) \<Rightarrow> exec_env \<Rightarrow> manual_env \<Rightarrow> string \<Rightarrow> string \<Rightarrow> amem \<Rightarrow>
      exec_result \<times> amem \<times> notification list \<times> string list" where
  "executeApproved wr fmt x mn cmd reason m =
     (let (out, execErr) = x_shell x cmd; output = trim_right_nl out in
      case execErr of
        Some e \<Rightarrow>
          if x_sudo x \<and> isSudoersError output
          then (case RequestManualRun wr fmt (mn_now mn) (mn_id mn) (''Run Command Manually on '' @ x_host x) cmd (x_host x)
                       reason (mn_events mn) m of
                  (Inl err, m, ns) \<Rightarrow> (Finished (Inl err), m, ns, [cmd])
                | (Inr MWaiting, m, ns) \<Rightarrow> (Blocked, m, ns, [cmd])
                | (Inr MAborted, m, ns) \<Rightarrow> (Finished (Inl Cancelled), m, ns, [cmd])
                | (Inr (MReturned o' st), m, ns) \<Rightarrow> (Finished (Inr (manual_message o' st)), m, ns, [cmd]))
          else (Finished (Inr (if output \<noteq> '''' then ''Command failed ('' @ e @ ''):'' @ nl @ output
                               else ''Command failed: '' @ e)), m, [], [cmd])
      | None \<Rightarrow> (Finished (Inr (if output = '''' then ''Command completed with no output.'' else output)), m, [], [cmd]))"

section \<open>The tool\<close>

record run_input =
  ri_Title :: string
  ri_Command :: string
  ri_Reason :: string
  ri_Importance :: string
  ri_Risk :: string

datatype run_reply =
    Refused string                 \<comment> \<open>which check refused the input\<close>
  | Filed string                   \<comment> \<open>the approval id\<close>
  | FileError error
  | UnderPolicy string exec_result \<comment> \<open>the note on the policy, and the result\<close>

text \<open>The early returns, in their order.\<close>

definition refusal :: "string \<Rightarrow> string option" where
  "refusal cmd =
     (if cmd = '''' then Some ''empty''
      else if isNoOpCommand cmd then Some ''placeholder''
      else if isNoOpShellBuiltin cmd then Some ''no-op''
      else if isEchoStatusCommand cmd then Some ''echo''
      else if IsDiagnosticEligible cmd then Some ''read-only''
      else None)"

definition policy_note :: "(string \<Rightarrow> string) \<Rightarrow> Policy \<Rightarrow> string" where
  "policy_note quote p =
     ''Executed immediately under standing approval policy '' @ po_ID p @ '' ('' @ quote (po_Description p) @ '').''"

definition policy_card :: "string \<Rightarrow> string \<Rightarrow> string \<Rightarrow> string \<Rightarrow> TimelineEntry" where
  "policy_card title cmd reason pnote =
     zero_entry\<lparr>te_Type := ''action'', te_Title := title, te_Severity := ''info'',
       te_Detail := ''Command: '' @ cmd @ nl @ nl @ ''Reason: '' @ reason @ nl @ nl @ pnote\<rparr>"

definition run_approved_command ::
    "compiler \<Rightarrow> (string \<Rightarrow> string) \<Rightarrow> wr \<Rightarrow> (instant \<Rightarrow> string) \<Rightarrow> exec_env \<Rightarrow> manual_env \<Rightarrow> instant \<Rightarrow> string \<Rightarrow> bool \<Rightarrow>
      run_input \<Rightarrow> amem \<Rightarrow> run_reply \<times> amem \<times> notification list \<times> string list" where
  "run_approved_command compile quote wr fmt x mn now newID policies inp m =
     (let cmd = TrimSpace (ri_Command inp) in
      case refusal cmd of
        Some why \<Rightarrow> (Refused why, m, [], [])
      | None \<Rightarrow>
          let title = (if ri_Title inp = '''' then ''Run command on '' @ x_host x else ri_Title inp) in
          (case Policy_Match compile cmd (if policies then Some m else None) of
             Some p \<Rightarrow>
               (case executeApproved wr fmt x mn cmd (ri_Reason inp)
                       (snd (AppendTimeline wr fmt now (policy_card title cmd (ri_Reason inp) (policy_note quote p)) m)) of
                  (r, m, ns, ex) \<Rightarrow> (UnderPolicy (policy_note quote p) r, m, ns, ex))
           | None \<Rightarrow>
               (case SubmitApproval wr fmt now newID title
                       (''Host: '' @ x_host x @ nl @ nl @ ''Reason: '' @ ri_Reason inp) cmd (ri_Importance inp) (ri_Risk inp)
                       True (ri_Reason inp) m of
                  (Inl e, m, ns) \<Rightarrow> (FileError e, m, ns, [])
                | (Inr i, m, ns) \<Rightarrow> (Filed i, m, ns, []))))"

section \<open>Execution of an approved request\<close>

definition truncate :: "string \<Rightarrow> nat \<Rightarrow> string" where
  "truncate s n = (if length s \<le> n then s else take n s @ truncated_note)"

text \<open>\<open>err_text\<close> is the text of an error value; \<open>t1\<close>, \<open>t2\<close> are the clock readings of the two timeline entries.\<close>

definition ExecuteOnApproval ::
    "(error \<Rightarrow> string) \<Rightarrow> ((string \<times> int) list \<Rightarrow> (string \<times> int) list) \<Rightarrow> wr \<Rightarrow> (instant \<Rightarrow> string) \<Rightarrow> exec_env \<Rightarrow>
      manual_env \<Rightarrow> instant \<Rightarrow> instant \<Rightarrow> bool \<Rightarrow> ApprovalEntry \<Rightarrow> amem \<Rightarrow> amem \<times> notification list \<times> string list" where
  "ExecuteOnApproval err_text ord wr fmt x mn t1 t2 policies entry m =
     (let cmd = TrimSpace (ae_ProposedAction entry) in
      case executeApproved wr fmt x mn cmd (ae_ExecReason entry) m of
        (Blocked, m, ns, ex) \<Rightarrow> (m, ns, ex)
      | (Finished r, m, ns, ex) \<Rightarrow>
          let output = (case r of Inl e \<Rightarrow> ''Execution error: '' @ err_text e | Inr out \<Rightarrow> out);
              m = snd (SetOutput wr (ae_ID entry) output m);
              failed = (HasPrefix output ''Command failed'' \<or> HasPrefix output ''Execution error'');
              detail = ''Command: '' @ cmd @ nl @ nl @ ''Result:'' @ nl @ truncate output 1500;
              m = snd (AppendTimeline wr fmt t1
                    (zero_entry\<lparr>te_Type := ''action'', te_Title := ''Executed approved command: '' @ ae_Title entry,
                       te_Detail := detail, te_Severity := (if failed then ''warning'' else ''info'')\<rparr>) m);
              n1 = mk_note (if failed then ''[Approved Command FAILED]'' else ''[Approved Command Executed]'') (ae_Title entry)
                     [x_host x, detail];
              (rec, s') = RecordApproval ord wr cmd (if policies then Some m else None);
              m = (case s' of None \<Rightarrow> m | Some m' \<Rightarrow> m')
          in (case rec of
                Inl _ \<Rightarrow> (m, ns @ [n1], ex)
              | Inr n \<Rightarrow>
                  if n \<ge> PromotionThreshold
                  then (snd (AppendTimeline wr fmt t2
                          (zero_entry\<lparr>te_Type := ''recommendation'',
                             te_Title := ''Candidate for standing approval policy (approved '' @ show_int n @ ''x)'',
                             te_Detail := ''Command: '' @ NormalizeCommand cmd @ nl @ nl @
                               ''This command has been operator-approved '' @ show_int n @
                               '' times. Creating a standing approval policy (POST /policies) would let the agent run it without a fresh approval each time.'',
                             te_Severity := ''info''\<rparr>) m), ns @ [n1], ex)
                  else (m, ns @ [n1], ex)))"

section \<open>Sample inputs\<close>

definition demo_exec :: exec_env where
  "demo_exec = \<lparr>x_sudo = False, x_host = ''web1'', x_shell = (\<lambda>c. (''done'', None))\<rparr>"

definition demo_menv :: manual_env where
  "demo_menv = \<lparr>mn_id = ''m1'', mn_now = 0, mn_events = []\<rparr>"

definition demo_run :: "string \<Rightarrow> run_input" where
  "demo_run c = \<lparr>ri_Title = ''t'', ri_Command = c, ri_Reason = ''r'', ri_Importance = ''low'', ri_Risk = ''low''\<rparr>"

section \<open>What may run\<close>

lemma executeApproved_runs_once: "snd (snd (snd (executeApproved wr fmt x mn cmd reason m))) = [cmd]"
  by (auto simp: executeApproved_def Let_def split: option.split sum.split manual_outcome.split prod.split)

text \<open>
  C11: the agent runs a state-changing command without a fresh approval only under a standing policy.
  Whatever the input, either the shell receives nothing, or it receives exactly the trimmed command, and
  then policies are configured and one of them matches the command; and a command that is filed for
  approval is not run, is not read-only, and is pending in the memory with automatic execution on.
\<close>

theorem runs_only_under_policy:
  assumes "run_approved_command compile quote wr fmt x mn now newID policies inp m = (reply, m', ns, executed)"
  shows "(executed = [] \<and> \<not> (\<exists>n r. reply = UnderPolicy n r) \<or>
      executed = [TrimSpace (ri_Command inp)] \<and> policies \<and>
        Policy_Match compile (TrimSpace (ri_Command inp)) (Some m) \<noteq> None) \<and>
    (\<forall>i. reply = Filed i \<longrightarrow> \<not> IsDiagnosticEligible (TrimSpace (ri_Command inp)) \<and>
       (\<exists>e. entry_at (AttrsKey i) m' = Some e \<and> ae_Status e = ''pending'' \<and> ae_AutoExecute e \<and>
          ae_ProposedAction e = TrimSpace (ri_Command inp)))"
proof (cases "refusal (TrimSpace (ri_Command inp))")
  case (Some why)
  with assms show ?thesis by (auto simp: run_approved_command_def Let_def)
next
  case None
  let ?cmd = "TrimSpace (ri_Command inp)"
  have elig: "\<not> IsDiagnosticEligible ?cmd" using None by (auto simp: refusal_def split: if_splits)
  show ?thesis
  proof (cases "Policy_Match compile ?cmd (if policies then Some m else None)")
    case (Some p)
    then have "policies" "Policy_Match compile ?cmd (Some m) = Some p"
      by (auto simp: Policy_Match_def split: if_splits)
    moreover have "executed = [?cmd] \<and> (\<exists>n r. reply = UnderPolicy n r)"
      using assms None Some executeApproved_runs_once [of wr fmt x mn ?cmd "ri_Reason inp"]
      by (simp add: run_approved_command_def Let_def split: prod.splits) (metis snd_conv)
    ultimately show ?thesis by auto
  next
    case no_policy: None
    define title where "title = (if ri_Title inp = '''' then ''Run command on '' @ x_host x else ri_Title inp)"
    define d where "d = ''Host: '' @ x_host x @ nl @ nl @ ''Reason: '' @ ri_Reason inp"
    obtain c mc nc where c: "createPending wr fmt now newID title d ?cmd (ri_Importance inp) (ri_Risk inp) True (ri_Reason inp) m
        = (c, mc, nc)" by (metis prod.exhaust)
    have res: "(reply, m', ns, executed) = (case c of Inl e \<Rightarrow> (FileError e, mc, nc, []) | Inr _ \<Rightarrow> (Filed newID, mc, nc, []))"
      using assms None no_policy c
      by (cases c) (auto simp: run_approved_command_def SubmitApproval_def title_def d_def)
    have "attrs_ok wr (AttrsKey newID)" if "c = Inr ()"
      using c that by (auto simp: createPending_def mem_set_def split: if_splits)
    then have "entry_at (AttrsKey newID) mc =
        Some (new_entry newID title d ?cmd (ri_Importance inp) (ri_Risk inp) now True (ri_Reason inp))" if "c = Inr ()"
      using entry_at_create [of "AttrsKey newID" wr fmt now newID title d ?cmd "ri_Importance inp" "ri_Risk inp" True
          "ri_Reason inp" m] c that by simp
    with res elig show ?thesis by (cases c) (auto simp: new_entry_def)
  qed
qed

theorem runs_only_under_policy_witness:
  "\<exists>reply m' ns executed.
     run_approved_command demo_compile rev wr_ok (\<lambda>t. ''t'') demo_exec demo_menv 0 ''a1'' True (demo_run '' reboot'')
       demo_policies = (reply, m', ns, executed) \<and> reply = Filed ''a1'' \<and>
     (executed = [] \<and> \<not> (\<exists>n r. reply = UnderPolicy n r) \<or>
      executed = [TrimSpace '' reboot''] \<and> Policy_Match demo_compile (TrimSpace '' reboot'') (Some demo_policies) \<noteq> None) \<and>
     (\<exists>e. entry_at (AttrsKey ''a1'') m' = Some e \<and> ae_Status e = ''pending'' \<and> ae_AutoExecute e \<and>
          ae_ProposedAction e = TrimSpace '' reboot'')"
proof -
  obtain reply m' ns executed where run:
    "run_approved_command demo_compile rev wr_ok (\<lambda>t. ''t'') demo_exec demo_menv 0 ''a1'' True (demo_run '' reboot'')
       demo_policies = (reply, m', ns, executed)" by (metis prod.exhaust)
  have "fst (run_approved_command demo_compile rev wr_ok (\<lambda>t. ''t'') demo_exec demo_menv 0 ''a1'' True
      (demo_run '' reboot'') demo_policies) = Filed ''a1''" by code_simp
  with run have filed: "reply = Filed ''a1''" by simp
  have cmd: "ri_Command (demo_run '' reboot'') = '' reboot''" by (simp add: demo_run_def)
  note claim = runs_only_under_policy [OF run, unfolded cmd filed]
  from claim [THEN conjunct2, rule_format, of "''a1''"] claim [THEN conjunct1] show ?thesis
    by (intro exI [of _ reply] exI [of _ m'] exI [of _ ns] exI [of _ executed]) (simp add: run filed)
qed

text \<open>
  The policy check and the shell see different commands. A policy is matched against the command with
  every run of white space replaced by one blank, the shell gets the command as it was written: a line
  break, which separates two commands, is hidden from the pattern. Under a policy for one-line
  \<open>apt\<close> commands (\<open>.\<close> does not match a line break) the agent runs \<open>reboot\<close> on a second line.
\<close>

theorem policy_hides_line_break:
  "case run_approved_command demo_compile rev wr_ok fmt demo_exec demo_menv now i True
      (demo_run (''apt install vim'' @ nl @ ''reboot'')) demo_policies of
    (reply, m', ns, executed) \<Rightarrow>
      executed = [''apt install vim'' @ nl @ ''reboot''] \<and>
      \<not> policy_matches demo_compile (''apt install vim'' @ nl @ ''reboot'') demo_policy"
proof -
  let ?c = "''apt install vim'' @ nl @ ''reboot''"
  have "Policy_Match demo_compile ?c (Some demo_policies) = Some demo_policy" by code_simp
  moreover have "refusal ?c = None" by code_simp
  moreover have "\<not> policy_matches demo_compile ?c demo_policy" by code_simp
  moreover have "TrimSpace ?c = ?c" by code_simp
  moreover have "ri_Command (demo_run ?c) = ?c" by (simp add: demo_run_def)
  ultimately show ?thesis
    using executeApproved_runs_once
    by (auto simp: run_approved_command_def Let_def split: prod.split) (metis snd_conv)+
qed

end
