(* ===== verification/Json.thy ===== *)
theory Json
  imports Go_Strings Memory_Store
begin

text \<open>
  What the gateway uses of \<open>encoding/json\<close>: the grammar \<open>json.Unmarshal\<close> accepts (with its nesting
  limit), the decoding of string literals, the lookup of struct fields by name, \<open>json.RawMessage\<close> members
  of an object as their text, and the text \<open>json.Marshal\<close> writes for a string and for a
  \<open>map[string]json.RawMessage\<close>.
\<close>

section \<open>Syntax\<close>

datatype json =
    JNull
  | JBool bool
  | JNumber string               \<comment> \<open>the literal as written\<close>
  | JString string
  | JArray "json list"
  | JObject "(string \<times> json) list"

definition json_ws :: "char \<Rightarrow> bool" where
  "json_ws c \<longleftrightarrow> c \<in> {CHR 0x20, CHR 0x09, CHR 0x0A, CHR 0x0D}"

definition skip_ws :: "string \<Rightarrow> string" where
  "skip_ws s = dropWhile json_ws s"

definition hex_value :: "nat \<Rightarrow> nat option" where
  "hex_value r =
     (if 48 \<le> r \<and> r \<le> 57 then Some (r - 48)
      else if 97 \<le> r \<and> r \<le> 102 then Some (r - 87)
      else if 65 \<le> r \<and> r \<le> 70 then Some (r - 55)
      else None)"

definition is_hex :: "char \<Rightarrow> bool" where
  "is_hex c \<longleftrightarrow> hex_value (code c) \<noteq> None"

definition prepend :: "string \<Rightarrow> (string \<times> string) option \<Rightarrow> (string \<times> string) option" where
  "prepend p r = map_option (\<lambda>(a, b). (p @ a, b)) r"

text \<open>The text of a string literal up to its closing quote, and what follows.\<close>

fun scan_string :: "string \<Rightarrow> (string \<times> string) option" where
  "scan_string [] = None"
| "scan_string (c # s) =
     (if c = CHR 0x22 then Some ([], s)
      else if c = CHR 0x5C then
        (case s of
           [] \<Rightarrow> None
         | e # s' \<Rightarrow>
             if e \<in> {CHR 0x22, CHR 0x5C, CHR ''/'', CHR ''b'', CHR ''f'', CHR ''n'', CHR ''r'', CHR ''t''}
             then prepend [c, e] (scan_string s')
             else if e = CHR ''u'' \<and> 4 \<le> length s' \<and> list_all is_hex (take 4 s')
             then prepend (c # e # take 4 s') (scan_string (drop 4 s'))
             else None)
      else if code c < 32 then None
      else prepend [c] (scan_string s))"

definition hex4 :: "rune list \<Rightarrow> rune" where
  "hex4 rs = foldl (\<lambda>n r. 16 * n + (case hex_value r of Some v \<Rightarrow> v | None \<Rightarrow> 0)) 0 rs"

definition is_u4 :: "rune list \<Rightarrow> bool" where
  "is_u4 rs \<longleftrightarrow> 6 \<le> length rs \<and> take 2 rs = [92, 117] \<and> list_all (\<lambda>r. hex_value r \<noteq> None) (take 4 (drop 2 rs))"

definition escape_rune :: "rune \<Rightarrow> rune" where
  "escape_rune e = (if e = 98 then 8 else if e = 102 then 12 else if e = 110 then 10
                    else if e = 114 then 13 else if e = 116 then 9 else e)"

text \<open>Escapes are decoded; a lone surrogate becomes the replacement character.\<close>

function unquote_runes :: "rune list \<Rightarrow> rune list" where
  "unquote_runes [] = []"
| "unquote_runes (r # rs) =
     (if r = 92 then
        (if is_u4 (r # rs) then
           (let v = hex4 (take 4 (drop 1 rs)); rest = drop 5 rs in
            if 55296 \<le> v \<and> v \<le> 57343 then
              (let w = hex4 (take 4 (drop 2 rest)) in
               if v \<le> 56319 \<and> is_u4 rest \<and> 56320 \<le> w \<and> w \<le> 57343
               then (65536 + (v - 55296) * 1024 + (w - 56320)) # unquote_runes (drop 6 rest)
               else rune_error # unquote_runes rest)
            else v # unquote_runes rest)
         else (case rs of [] \<Rightarrow> [] | e # rest \<Rightarrow> escape_rune e # unquote_runes rest))
      else r # unquote_runes rs)"
  by pat_completeness auto
termination
  by (relation "measure length") auto

definition unquote :: "string \<Rightarrow> string" where
  "unquote lit = encode_runes (unquote_runes (runes lit))"

definition span_digits :: "string \<Rightarrow> string \<times> string" where
  "span_digits s = (takeWhile is_digit s, dropWhile is_digit s)"

definition scan_number :: "string \<Rightarrow> (string \<times> string) option" where
  "scan_number s =
     (let (sign, s1) = (if HasPrefix s [CHR 0x2D] then ([CHR 0x2D], drop 1 s) else ([], s));
          (ip, s2) = (if HasPrefix s1 ''0'' then (''0'', drop 1 s1) else span_digits s1)
      in if ip = [] then None
         else
           let (frac, s3) = (if HasPrefix s2 ''.'' then (let (d, r) = span_digits (drop 1 s2) in (''.'' @ d, r)) else ([], s2));
               (ex, s4) =
                 (if s3 \<noteq> [] \<and> hd s3 \<in> {CHR ''e'', CHR ''E''} then
                    (let sg = (if drop 1 s3 \<noteq> [] \<and> s3 ! 1 \<in> {CHR ''+'', CHR 0x2D} then [s3 ! 1] else []);
                         (d, r) = span_digits (drop (1 + length sg) s3)
                     in (hd s3 # sg @ d, if d = [] then s3 else r))
                  else ([], s3))
           in if frac = ''.'' \<or> (ex \<noteq> [] \<and> s4 = s3) then None else Some (sign @ ip @ frac @ ex, s4))"

definition max_depth :: nat where "max_depth = 10000"

text \<open>
  The parser. The first argument bounds the number of nested calls: two for each byte read are enough.
  The second is the nesting still allowed.
\<close>

fun parse_value :: "nat \<Rightarrow> nat \<Rightarrow> string \<Rightarrow> (json \<times> string) option"
  and parse_elems :: "nat \<Rightarrow> nat \<Rightarrow> string \<Rightarrow> (json list \<times> string) option"
  and parse_members :: "nat \<Rightarrow> nat \<Rightarrow> string \<Rightarrow> ((string \<times> json) list \<times> string) option" where
  "parse_value 0 d s = None"
| "parse_value (Suc n) d s =
     (case skip_ws s of
        [] \<Rightarrow> None
      | c # t \<Rightarrow>
          if c = CHR 0x22 then map_option (\<lambda>(l, r). (JString (unquote l), r)) (scan_string t)
          else if c = CHR 0x7B then
            (if d = 0 then None
             else case skip_ws t of
                    e # r \<Rightarrow>
                      if e = CHR 0x7D then Some (JObject [], r)
                      else map_option (\<lambda>(ms, r). (JObject ms, r)) (parse_members n (d - 1) t)
                  | [] \<Rightarrow> None)
          else if c = CHR 0x5B then
            (if d = 0 then None
             else case skip_ws t of
                    e # r \<Rightarrow>
                      if e = CHR 0x5D then Some (JArray [], r)
                      else map_option (\<lambda>(vs, r). (JArray vs, r)) (parse_elems n (d - 1) t)
                  | [] \<Rightarrow> None)
          else if HasPrefix (c # t) ''true'' then Some (JBool True, drop 4 (c # t))
          else if HasPrefix (c # t) ''false'' then Some (JBool False, drop 5 (c # t))
          else if HasPrefix (c # t) ''null'' then Some (JNull, drop 4 (c # t))
          else map_option (\<lambda>(l, r). (JNumber l, r)) (scan_number (c # t)))"
| "parse_elems 0 d s = None"
| "parse_elems (Suc n) d s =
     (case parse_value n d s of
        None \<Rightarrow> None
      | Some (v, r) \<Rightarrow>
          (case skip_ws r of
             c # t \<Rightarrow>
               if c = CHR 0x5D then Some ([v], t)
               else if c = CHR 0x2C then map_option (\<lambda>(vs, r). (v # vs, r)) (parse_elems n d t)
               else None
           | [] \<Rightarrow> None))"
| "parse_members 0 d s = None"
| "parse_members (Suc n) d s =
     (case skip_ws s of
        [] \<Rightarrow> None
      | q # t \<Rightarrow>
          if q \<noteq> CHR 0x22 then None
          else (case scan_string t of
                  None \<Rightarrow> None
                | Some (k, r) \<Rightarrow>
                    (case skip_ws r of
                       [] \<Rightarrow> None
                     | c # t2 \<Rightarrow>
                         if c \<noteq> CHR '':'' then None
                         else (case parse_value n d t2 of
                                 None \<Rightarrow> None
                               | Some (v, r2) \<Rightarrow>
                                   (case skip_ws r2 of
                                      [] \<Rightarrow> None
                                    | e # t3 \<Rightarrow>
                                        if e = CHR 0x7D then Some ([(unquote k, v)], t3)
                                        else if e = CHR 0x2C then
                                          map_option (\<lambda>(ms, r). ((unquote k, v) # ms, r)) (parse_members n d t3)
                                        else None)))))"

definition parse_json :: "string \<Rightarrow> json option" where
  "parse_json s =
     (case parse_value (2 * length s + 2) max_depth s of
        None \<Rightarrow> None
      | Some (v, r) \<Rightarrow> if skip_ws r = [] then Some v else None)"

section \<open>Decoding into Go values\<close>

text \<open>
  A struct field takes the members whose key is its name, exactly or up to letter case (no field of
  these structs differs from another only by case). Members are taken in their order, \<open>null\<close> leaves
  the field as it is, and any mismatch of types makes the whole call fail.
\<close>

definition field_values :: "string \<Rightarrow> (string \<times> json) list \<Rightarrow> json list" where
  "field_values name ms = map snd (filter (\<lambda>m. EqualFold (fst m) name) ms)"

fun as_string :: "string \<Rightarrow> json \<Rightarrow> string option" where
  "as_string old (JString s) = Some s"
| "as_string old JNull = Some old"
| "as_string old _ = None"

fun as_int64 :: "int \<Rightarrow> json \<Rightarrow> int option" where
  "as_int64 old (JNumber l) = parse_int64 l"
| "as_int64 old JNull = Some old"
| "as_int64 old _ = None"

fun decode_field :: "('a \<Rightarrow> json \<Rightarrow> 'a option) \<Rightarrow> json list \<Rightarrow> 'a \<Rightarrow> 'a option" where
  "decode_field f [] old = Some old"
| "decode_field f (v # vs) old = (case f old v of None \<Rightarrow> None | Some x \<Rightarrow> decode_field f vs x)"

fun object_members :: "json \<Rightarrow> (string \<times> json) list option" where
  "object_members (JObject ms) = Some ms"
| "object_members JNull = Some []"
| "object_members _ = None"

definition string_field :: "string \<Rightarrow> (string \<times> json) list \<Rightarrow> string option" where
  "string_field name ms = decode_field as_string (field_values name ms) []"

definition int_field :: "string \<Rightarrow> (string \<times> json) list \<Rightarrow> int option" where
  "int_field name ms = decode_field as_int64 (field_values name ms) 0"

section \<open>Raw members\<close>

text \<open>The members of a JSON object with the text of their values (\<open>map[string]json.RawMessage\<close>).\<close>

fun raw_members :: "nat \<Rightarrow> string \<Rightarrow> (string \<times> string) list option" where
  "raw_members 0 s = None"
| "raw_members (Suc n) s =
     (case skip_ws s of
        [] \<Rightarrow> None
      | q # t \<Rightarrow>
          if q \<noteq> CHR 0x22 then None
          else (case scan_string t of
                  None \<Rightarrow> None
                | Some (k, r) \<Rightarrow>
                    (let t2 = skip_ws (drop 1 (skip_ws r)) in
                     case parse_value (2 * length t2 + 2) max_depth t2 of
                       None \<Rightarrow> None
                     | Some (v, r2) \<Rightarrow>
                         (let raw = take (length t2 - length r2) t2 in
                          case skip_ws r2 of
                            [] \<Rightarrow> None
                          | e # t3 \<Rightarrow>
                              if e = CHR 0x7D then Some [(unquote k, raw)]
                              else map_option (\<lambda>ms. (unquote k, raw) # ms) (raw_members n t3)))))"

text \<open>\<open>json.Unmarshal\<close> into \<open>map[string]json.RawMessage\<close>: \<open>null\<close> gives the nil map, a later key replaces an earlier one.\<close>

definition raw_object :: "string \<Rightarrow> (string \<times> string) list option" where
  "raw_object s =
     (case parse_json s of
        Some (JObject []) \<Rightarrow> Some []
      | Some (JObject ms) \<Rightarrow> raw_members (length s) (drop 1 (skip_ws s))
      | Some JNull \<Rightarrow> Some []
      | _ \<Rightarrow> None)"

definition raw_lookup :: "string \<Rightarrow> (string \<times> string) list \<Rightarrow> string option" where
  "raw_lookup k ms = map_of (rev ms) k"

section \<open>Writing\<close>

definition hex_digit :: "nat \<Rightarrow> char" where
  "hex_digit n = (if n < 10 then char_of (48 + n) else char_of (87 + n))"

definition u_escape :: "nat \<Rightarrow> string" where
  "u_escape r = [CHR 0x5C, CHR ''u'', hex_digit (r div 4096 mod 16), hex_digit (r div 256 mod 16),
                 hex_digit (r div 16 mod 16), hex_digit (r mod 16)]"

text \<open>One rune of a string, with the HTML escapes \<open>json.Marshal\<close> adds; \<open>b\<close> are its bytes.\<close>

definition quote_chunk :: "rune \<times> string \<Rightarrow> string" where
  "quote_chunk c =
     (let (r, b) = c in
      if r = 34 \<or> r = 92 then CHR 0x5C # b
      else if r = 8 then [CHR 0x5C, CHR ''b''] else if r = 12 then [CHR 0x5C, CHR ''f'']
      else if r = 10 then [CHR 0x5C, CHR ''n''] else if r = 13 then [CHR 0x5C, CHR ''r'']
      else if r = 9 then [CHR 0x5C, CHR ''t'']
      else if r < 32 \<or> r \<in> {60, 62, 38, 8232, 8233} then u_escape r
      else if r = rune_error \<and> length b = 1 then u_escape rune_error
      else b)"

definition quote_json :: "string \<Rightarrow> string" where
  "quote_json s = [CHR 0x22] @ concat (map quote_chunk (chunks s)) @ [CHR 0x22]"

text \<open>A raw value as \<open>json.Marshal\<close> writes it: without blanks between tokens and with the HTML escapes.\<close>

fun compact :: "bool \<Rightarrow> (rune \<times> string) list \<Rightarrow> string" where
  "compact str [] = []"
| "compact str ((r, b) # cs) =
     (if r \<in> {60, 62, 38, 8232, 8233} then u_escape r @ compact str cs
      else if \<not> str \<and> r \<in> {32, 9, 10, 13} then compact str cs
      else if str \<and> r = 92 then (case cs of [] \<Rightarrow> b | (r2, b2) # cs2 \<Rightarrow> b @ b2 @ compact str cs2)
      else b @ compact (if r = 34 then \<not> str else str) cs)"

fun join_members :: "(string \<times> string) list \<Rightarrow> string" where
  "join_members [] = []"
| "join_members [(k, v)] = quote_json k @ CHR '':'' # compact False (chunks v)"
| "join_members ((k, v) # m # ms) = quote_json k @ CHR '':'' # compact False (chunks v) @ CHR 0x2C # join_members (m # ms)"

definition marshal_raw_object :: "(string \<times> string) list \<Rightarrow> string" where
  "marshal_raw_object ms = [CHR 0x7B] @ join_members (sort_by (\<lambda>a b. str_less (fst a) (fst b)) ms) @ [CHR 0x7D]"

text \<open>Updating a Go map given as its members: later keys replace earlier ones.\<close>

definition raw_update :: "string \<Rightarrow> string \<Rightarrow> (string \<times> string) list \<Rightarrow> (string \<times> string) list" where
  "raw_update k v ms = (k, v) # filter (\<lambda>m. fst m \<noteq> k) (AList.clearjunk (rev ms))"

end
