(* ===== verification/Gateway_Stats.thy ===== *)
theory Gateway_Stats
  imports Json "HOL-Library.Word"
begin

text \<open>
  Statistics of the model gateway: \<open>src/llm-gateway/stats.go\<close>. Counters are 64-bit words, event logs are
  lists with the newest event last, and the maps of the tracker are partial functions; where the code
  walks a map, the order of the walk is an argument. The clock is an argument. Each operation is one
  critical section of the code.
\<close>

type_synonym int64 = "64 word"

section \<open>Sliding windows\<close>

definition retention :: duration where "retention = 25 * hour"

text \<open>The prefix of events before the cutoff is dropped, and the scan stops at the first younger one.\<close>

definition prune_before :: "('e \<Rightarrow> instant) \<Rightarrow> instant \<Rightarrow> 'e list \<Rightarrow> 'e list" where
  "prune_before stamp now es = dropWhile (\<lambda>e. stamp e < now - retention) es"

record errorStats =
  er_events :: "instant list"
  er_total :: int64

definition errorStats_prune :: "instant \<Rightarrow> errorStats \<Rightarrow> errorStats" where
  "errorStats_prune now e = e\<lparr>er_events := prune_before (\<lambda>t. t) now (er_events e)\<rparr>"

definition errorStats_record :: "instant \<Rightarrow> errorStats \<Rightarrow> errorStats" where
  "errorStats_record now e =
     errorStats_prune now (e\<lparr>er_events := er_events e @ [now], er_total := er_total e + 1\<rparr>)"

fun count_back :: "instant \<Rightarrow> duration \<Rightarrow> instant list \<Rightarrow> int64 \<Rightarrow> int64" where
  "count_back now window [] n = n"
| "count_back now window (t # ts) n = (if now - t > window then n else count_back now window ts (n + 1))"

definition windowCount :: "errorStats \<Rightarrow> instant \<Rightarrow> duration \<Rightarrow> int64" where
  "windowCount e now window = count_back now window (rev (er_events e)) 0"

record durationEvent =
  de_at :: instant
  de_wait :: duration
  de_inference :: duration

record durationStats =
  ds_events :: "durationEvent list"

definition durationStats_prune :: "instant \<Rightarrow> durationStats \<Rightarrow> durationStats" where
  "durationStats_prune now d = d\<lparr>ds_events := prune_before de_at now (ds_events d)\<rparr>"

definition durationStats_record :: "instant \<Rightarrow> duration \<Rightarrow> duration \<Rightarrow> durationStats \<Rightarrow> durationStats" where
  "durationStats_record now wait inference d =
     durationStats_prune now
       (d\<lparr>ds_events := ds_events d @ [\<lparr>de_at = now, de_wait = wait, de_inference = inference\<rparr>]\<rparr>)"

fun avg_back :: "instant \<Rightarrow> duration \<Rightarrow> durationEvent list \<Rightarrow> duration \<times> duration \<times> int \<Rightarrow> duration \<times> duration \<times> int" where
  "avg_back now window [] acc = acc"
| "avg_back now window (e # es) (w, i, n) =
     (if now - de_at e > window then (w, i, n)
      else avg_back now window es (w + de_wait e, i + de_inference e, n + 1))"

definition windowAvg :: "durationStats \<Rightarrow> instant \<Rightarrow> duration \<Rightarrow> duration \<times> duration" where
  "windowAvg d now window =
     (let (sumWait, sumInference, n) = avg_back now window (rev (ds_events d)) (0, 0, 0)
      in if n > 0 then (quot sumWait n, quot sumInference n) else (0, 0))"

record outcomeEvent =
  oe_at :: instant
  oe_success :: bool

record outcomeStats =
  os_events :: "outcomeEvent list"

definition outcomeStats_prune :: "instant \<Rightarrow> outcomeStats \<Rightarrow> outcomeStats" where
  "outcomeStats_prune now s = s\<lparr>os_events := prune_before oe_at now (os_events s)\<rparr>"

definition outcomeStats_record :: "instant \<Rightarrow> bool \<Rightarrow> outcomeStats \<Rightarrow> outcomeStats" where
  "outcomeStats_record now success s =
     outcomeStats_prune now (s\<lparr>os_events := os_events s @ [\<lparr>oe_at = now, oe_success = success\<rparr>]\<rparr>)"

record requestEvent =
  re_at :: instant
  re_tokens :: int64

record totalCounters =
  tc_tokens :: int64
  tc_requests :: int64

definition no_totals :: totalCounters where
  "no_totals = \<lparr>tc_tokens = 0, tc_requests = 0\<rparr>"

text \<open>The zero value of \<open>time.Time\<close>, 1 January of year 1, on the nanosecond axis.\<close>

definition zeroTime :: instant where "zeroTime = - 62135596800 * second"

record endpointStats =
  ep_host :: string
  ep_name :: string
  ep_events :: "requestEvent list"
  ep_total :: totalCounters
  ep_pending :: int64
  ep_lastSeen :: instant

record responsibilityStats =
  rp_name :: string
  rp_events :: "requestEvent list"
  rp_total :: totalCounters
  rp_lastSeen :: instant

fun sums_back :: "instant \<Rightarrow> duration \<Rightarrow> requestEvent list \<Rightarrow> int64 \<times> int64 \<Rightarrow> int64 \<times> int64" where
  "sums_back now window [] acc = acc"
| "sums_back now window (e # es) (tokens, requests) =
     (if now - re_at e > window then (tokens, requests)
      else sums_back now window es (tokens + re_tokens e, requests + 1))"

definition endpointStats_windowSums :: "endpointStats \<Rightarrow> instant \<Rightarrow> duration \<Rightarrow> int64 \<times> int64" where
  "endpointStats_windowSums es now window = sums_back now window (rev (ep_events es)) (0, 0)"

definition responsibilityStats_windowSums :: "responsibilityStats \<Rightarrow> instant \<Rightarrow> duration \<Rightarrow> int64 \<times> int64" where
  "responsibilityStats_windowSums rs now window = sums_back now window (rev (rp_events rs)) (0, 0)"

definition endpointStats_prune :: "instant \<Rightarrow> endpointStats \<Rightarrow> endpointStats" where
  "endpointStats_prune now es = es\<lparr>ep_events := prune_before re_at now (ep_events es)\<rparr>"

definition responsibilityStats_prune :: "instant \<Rightarrow> responsibilityStats \<Rightarrow> responsibilityStats" where
  "responsibilityStats_prune now rs = rs\<lparr>rp_events := prune_before re_at now (rp_events rs)\<rparr>"

section \<open>Reading bodies\<close>

definition usage_field :: "int \<Rightarrow> json \<Rightarrow> int option" where
  "usage_field old v =
     (case object_members v of
        None \<Rightarrow> None
      | Some us \<Rightarrow> decode_field as_int64 (field_values ''total_tokens'' us) old)"

definition extractTokensJSON :: "string \<Rightarrow> int64" where
  "extractTokensJSON data =
     (case parse_json data of
        None \<Rightarrow> 0
      | Some v \<Rightarrow>
          (case object_members v of
             None \<Rightarrow> 0
           | Some ms \<Rightarrow>
               (case (decode_field usage_field (field_values ''usage'' ms) 0, int_field ''prompt_eval_count'' ms,
                      int_field ''eval_count'' ms) of
                  (Some tot, Some p, Some e) \<Rightarrow>
                    if tot > 0 then word_of_int tot else word_of_int p + word_of_int e
                | _ \<Rightarrow> 0)))"

fun split_lines :: "string \<Rightarrow> string \<Rightarrow> string list" where
  "split_lines acc [] = [rev acc]"
| "split_lines acc (c # s) = (if c = CHR 0x0A then rev acc # split_lines [] s else split_lines (c # acc) s)"

text \<open>The tokens of one line of the stream; \<open>None\<close> for a line that holds no object.\<close>

definition sse_line :: "string \<Rightarrow> int64 option" where
  "sse_line l =
     (let line = TrimPrefix (TrimSpace l) ''data: ''
      in if \<not> HasPrefix line [CHR 0x7B] then None else Some (extractTokensJSON line))"

fun sse_scan :: "string list \<Rightarrow> int64" where
  "sse_scan [] = 0"
| "sse_scan (l # ls) =
     (case sse_line l of
        None \<Rightarrow> sse_scan ls
      | Some t \<Rightarrow> if sint t > 0 then t else sse_scan ls)"

definition extractTokensSSE :: "string \<Rightarrow> int64" where
  "extractTokensSSE data = sse_scan (rev (split_lines [] data))"

definition extractTokens :: "string \<Rightarrow> string \<Rightarrow> int64" where
  "extractTokens contentType data =
     (if Contains contentType ''text/event-stream'' then extractTokensSSE data else extractTokensJSON data)"

definition maxPromptLen :: nat where "maxPromptLen = 2000"

definition truncatePrompt :: "string \<Rightarrow> string" where
  "truncatePrompt s = (if length s \<le> maxPromptLen then s else take maxPromptLen s @ ellipsis)"

text \<open>A message: its role, and its content as an unparsed value, absent when there is none.\<close>

definition decode_message :: "json \<Rightarrow> (string \<times> json option) option" where
  "decode_message v =
     (case object_members v of
        None \<Rightarrow> None
      | Some ms \<Rightarrow>
          map_option (\<lambda>role. (role, let vs = field_values ''content'' ms in if vs = [] then None else Some (last vs)))
            (string_field ''role'' ms))"

fun as_messages :: "(string \<times> json option) list \<Rightarrow> json \<Rightarrow> (string \<times> json option) list option" where
  "as_messages old (JArray vs) = those (map decode_message vs)"
| "as_messages old JNull = Some []"
| "as_messages old _ = None"

definition decode_block :: "json \<Rightarrow> (string \<times> string) option" where
  "decode_block v =
     (case object_members v of
        None \<Rightarrow> None
      | Some ms \<Rightarrow>
          (case (string_field ''type'' ms, string_field ''text'' ms) of
             (Some t, Some x) \<Rightarrow> Some (t, x)
           | _ \<Rightarrow> None))"

fun content_text :: "json option \<Rightarrow> string option" where
  "content_text None = None"
| "content_text (Some (JString s)) = Some s"
| "content_text (Some JNull) = Some []"
| "content_text (Some (JArray bs)) =
     (case those (map decode_block bs) of
        None \<Rightarrow> None
      | Some blocks \<Rightarrow> map_option snd (find_first (\<lambda>b. fst b = ''text'' \<and> snd b \<noteq> []) blocks))"
| "content_text (Some _) = None"

fun last_user_text :: "(string \<times> json option) list \<Rightarrow> string option" where
  "last_user_text [] = None"
| "last_user_text ((role, content) # ms) =
     (if role \<noteq> ''user'' then last_user_text ms
      else case content_text content of
             Some s \<Rightarrow> Some s
           | None \<Rightarrow> last_user_text ms)"

definition extractPrompt :: "string \<Rightarrow> string" where
  "extractPrompt body =
     (if body = [] then []
      else
        case Option.bind (parse_json body) object_members of
          None \<Rightarrow> truncatePrompt body
        | Some ms \<Rightarrow>
            (case (string_field ''system'' ms, string_field ''prompt'' ms,
                   decode_field as_messages (field_values ''messages'' ms) []) of
               (Some system, Some prompt, Some messages) \<Rightarrow>
                 (case last_user_text (rev messages) of
                    Some s \<Rightarrow> truncatePrompt s
                  | None \<Rightarrow>
                      if system \<noteq> [] then truncatePrompt system
                      else if prompt \<noteq> [] then truncatePrompt prompt
                      else truncatePrompt body)
             | _ \<Rightarrow> truncatePrompt body))"

text \<open>\<open>limitedCapture.Write\<close>: the buffer so far, the chunk; the buffer after it and the reported length.\<close>

definition limitedCapture_Write :: "nat \<Rightarrow> string \<Rightarrow> string \<Rightarrow> string \<times> nat" where
  "limitedCapture_Write mx buf p =
     (let n = length p;
          remaining = int mx - int (length buf)
      in if remaining > 0 then (buf @ (if int (length p) > remaining then take (nat remaining) p else p), n)
         else (buf, n))"

section \<open>The tracker\<close>

record pendingDetail =
  pd_host :: string
  pd_name :: string
  pd_responsibility :: string
  pd_prompt :: string
  pd_submittedAt :: instant
  pd_priority :: bool

record Tracker =
  tk_endpoints :: "string \<rightharpoonup> endpointStats"
  tk_responsibilities :: "string \<rightharpoonup> responsibilityStats"
  tk_pendingMap :: "string \<rightharpoonup> pendingDetail"
  tk_incomingErrors :: errorStats
  tk_outgoingErrors :: errorStats
  tk_durations :: durationStats
  tk_outcomes :: outcomeStats

definition NewTracker :: Tracker where
  "NewTracker = \<lparr>tk_endpoints = Map.empty, tk_responsibilities = Map.empty, tk_pendingMap = Map.empty,
     tk_incomingErrors = \<lparr>er_events = [], er_total = 0\<rparr>, tk_outgoingErrors = \<lparr>er_events = [], er_total = 0\<rparr>,
     tk_durations = \<lparr>ds_events = []\<rparr>, tk_outcomes = \<lparr>os_events = []\<rparr>\<rparr>"

definition RecordIncomingConnError :: "instant \<Rightarrow> Tracker \<Rightarrow> Tracker" where
  "RecordIncomingConnError now t = t\<lparr>tk_incomingErrors := errorStats_record now (tk_incomingErrors t)\<rparr>"

definition RecordOutgoingConnError :: "instant \<Rightarrow> Tracker \<Rightarrow> Tracker" where
  "RecordOutgoingConnError now t = t\<lparr>tk_outgoingErrors := errorStats_record now (tk_outgoingErrors t)\<rparr>"

definition RecordDuration :: "instant \<Rightarrow> instant \<Rightarrow> instant \<Rightarrow> Tracker \<Rightarrow> Tracker" where
  "RecordDuration submittedAt inferenceStart completedAt t =
     t\<lparr>tk_durations := durationStats_record completedAt (inferenceStart - submittedAt) (completedAt - inferenceStart)
                         (tk_durations t)\<rparr>"

definition RecordOutcome :: "instant \<Rightarrow> bool \<Rightarrow> Tracker \<Rightarrow> Tracker" where
  "RecordOutcome now success t = t\<lparr>tk_outcomes := outcomeStats_record now success (tk_outcomes t)\<rparr>"

text \<open>\<open>get\<close> and \<open>getResponsibility\<close> return the entry of a key, which they create when it is missing.\<close>

definition endpoint_of :: "string \<Rightarrow> string \<Rightarrow> Tracker \<Rightarrow> endpointStats" where
  "endpoint_of host name t =
     (case tk_endpoints t host of
        Some es \<Rightarrow> es
      | None \<Rightarrow> \<lparr>ep_host = host, ep_name = name, ep_events = [], ep_total = no_totals, ep_pending = 0, ep_lastSeen = zeroTime\<rparr>)"

definition responsibility_of :: "string \<Rightarrow> Tracker \<Rightarrow> responsibilityStats" where
  "responsibility_of name t =
     (case tk_responsibilities t name of
        Some rs \<Rightarrow> rs
      | None \<Rightarrow> \<lparr>rp_name = name, rp_events = [], rp_total = no_totals, rp_lastSeen = zeroTime\<rparr>)"

definition put_endpoint :: "string \<Rightarrow> endpointStats \<Rightarrow> Tracker \<Rightarrow> Tracker" where
  "put_endpoint host es t = t\<lparr>tk_endpoints := (tk_endpoints t)(host \<mapsto> es)\<rparr>"

definition put_responsibility :: "string \<Rightarrow> responsibilityStats \<Rightarrow> Tracker \<Rightarrow> Tracker" where
  "put_responsibility name rs t = t\<lparr>tk_responsibilities := (tk_responsibilities t)(name \<mapsto> rs)\<rparr>"

definition IncrPending ::
    "string \<Rightarrow> string \<Rightarrow> string \<Rightarrow> string \<Rightarrow> string \<Rightarrow> instant \<Rightarrow> bool \<Rightarrow> Tracker \<Rightarrow> Tracker" where
  "IncrPending host name responsibility i body submittedAt priority t =
     (let es = endpoint_of host name t;
          t = put_endpoint host (es\<lparr>ep_pending := ep_pending es + 1\<rparr>) t
      in t\<lparr>tk_pendingMap := (tk_pendingMap t)(i \<mapsto>
           \<lparr>pd_host = host, pd_name = name, pd_responsibility = responsibility, pd_prompt = extractPrompt body,
            pd_submittedAt = submittedAt, pd_priority = priority\<rparr>)\<rparr>)"

definition DecrPending :: "string \<Rightarrow> string \<Rightarrow> Tracker \<Rightarrow> Tracker" where
  "DecrPending host i t =
     (let es = endpoint_of host [] t;
          t = put_endpoint host (es\<lparr>ep_pending := ep_pending es - 1\<rparr>) t
      in t\<lparr>tk_pendingMap := (tk_pendingMap t)(i := None)\<rparr>)"

definition count_request :: "int64 \<Rightarrow> totalCounters \<Rightarrow> totalCounters" where
  "count_request tokens c = \<lparr>tc_tokens = tc_tokens c + tokens, tc_requests = tc_requests c + 1\<rparr>"

definition Record :: "instant \<Rightarrow> string \<Rightarrow> string \<Rightarrow> string \<Rightarrow> int64 \<Rightarrow> Tracker \<Rightarrow> Tracker" where
  "Record now host name responsibility tokens t =
     (let ev = \<lparr>re_at = now, re_tokens = tokens\<rparr>;
          es = endpoint_of host name t;
          t = put_endpoint host
                (endpointStats_prune now
                   (es\<lparr>ep_events := ep_events es @ [ev], ep_total := count_request tokens (ep_total es), ep_lastSeen := now\<rparr>)) t
      in if responsibility = [] then t
         else
           let rs = responsibility_of responsibility t
           in put_responsibility responsibility
                (responsibilityStats_prune now
                   (rs\<lparr>rp_events := rp_events rs @ [ev], rp_total := count_request tokens (rp_total rs), rp_lastSeen := now\<rparr>)) t)"

record EndpointStatsSnapshot =
  sn_Host :: string
  sn_Name :: string
  sn_PendingRequests :: int64
  sn_TokensLastHour :: int64
  sn_TokensLastDay :: int64
  sn_TokensTotal :: int64
  sn_RequestsLastHour :: int64
  sn_RequestsLastDay :: int64
  sn_RequestsTotal :: int64
  sn_LastSeen :: instant

definition endpoint_snapshot :: "instant \<Rightarrow> string \<Rightarrow> endpointStats \<Rightarrow> EndpointStatsSnapshot" where
  "endpoint_snapshot now h es =
     (let (hourTok, hourReq) = endpointStats_windowSums es now hour;
          (dayTok, dayReq) = endpointStats_windowSums es now (24 * hour)
      in \<lparr>sn_Host = h, sn_Name = ep_name es, sn_PendingRequests = ep_pending es, sn_TokensLastHour = hourTok,
          sn_TokensLastDay = dayTok, sn_TokensTotal = tc_tokens (ep_total es), sn_RequestsLastHour = hourReq,
          sn_RequestsLastDay = dayReq, sn_RequestsTotal = tc_requests (ep_total es), sn_LastSeen = ep_lastSeen es\<rparr>)"

record ResponsibilityStatsSnapshot =
  rn_Name :: string
  rn_TokensLastHour :: int64
  rn_TokensLastDay :: int64
  rn_TokensTotal :: int64
  rn_RequestsLastHour :: int64
  rn_RequestsLastDay :: int64
  rn_RequestsTotal :: int64
  rn_LastSeen :: instant

definition responsibility_snapshot :: "instant \<Rightarrow> string \<Rightarrow> responsibilityStats \<Rightarrow> ResponsibilityStatsSnapshot" where
  "responsibility_snapshot now n rs =
     (let (hourTok, hourReq) = responsibilityStats_windowSums rs now hour;
          (dayTok, dayReq) = responsibilityStats_windowSums rs now (24 * hour)
      in \<lparr>rn_Name = n, rn_TokensLastHour = hourTok, rn_TokensLastDay = dayTok, rn_TokensTotal = tc_tokens (rp_total rs),
          rn_RequestsLastHour = hourReq, rn_RequestsLastDay = dayReq, rn_RequestsTotal = tc_requests (rp_total rs),
          rn_LastSeen = rp_lastSeen rs\<rparr>)"

text \<open>What \<open>Snapshot\<close> reads of the gateway: channel lengths and capacities, ghost counters, labels.\<close>

record gateway_view =
  gv_queue :: nat
  gv_priorityQueue :: nat
  gv_sem :: nat
  gv_queueCap :: nat
  gv_priorityCap :: nat
  gv_semCap :: nat
  gv_ghostNormal :: int64
  gv_ghostPriority :: int64
  gv_upstream :: string
  gv_upstreamModel :: string

record GatewayStatsResponse =
  sr_GeneratedAt :: instant
  sr_TotalPending :: int
  sr_ActiveRequests :: int
  sr_QueuedRequests :: int
  sr_PriorityQueuedRequests :: int
  sr_GhostRequests :: int
  sr_MaxConcurrency :: int
  sr_QueueCapacity :: int
  sr_PriorityQueueCapacity :: int
  sr_Upstream :: string
  sr_UpstreamModel :: string
  sr_Endpoints :: "EndpointStatsSnapshot list"
  sr_Responsibilities :: "ResponsibilityStatsSnapshot list"
  sr_IncomingLastHour :: int64
  sr_IncomingTotal :: int64
  sr_OutgoingLastHour :: int64
  sr_OutgoingTotal :: int64
  sr_AvgTotalMs :: int
  sr_AvgWaitMs :: int
  sr_AvgInferenceMs :: int

definition milliseconds :: "duration \<Rightarrow> int" where
  "milliseconds d = quot d 1000000"

definition walk_map :: "(string \<rightharpoonup> 'v) \<Rightarrow> string list \<Rightarrow> (string \<times> 'v) list" where
  "walk_map m ks = List.map_filter (\<lambda>k. map_option (Pair k) (m k)) ks"

definition Snapshot :: "instant \<Rightarrow> string list \<Rightarrow> string list \<Rightarrow> gateway_view \<Rightarrow> Tracker \<Rightarrow> GatewayStatsResponse" where
  "Snapshot now hosts respNames g t =
     (let ghostN = sint (gv_ghostNormal g);
          ghostP = sint (gv_ghostPriority g);
          queued = max 0 (int (gv_queue g) - ghostN);
          priorityQueued = max 0 (int (gv_priorityQueue g) - ghostP);
          active = int (gv_sem g);
          (avgWait, avgInference) = windowAvg (tk_durations t) now hour
      in \<lparr>sr_GeneratedAt = now, sr_TotalPending = queued + priorityQueued + active, sr_ActiveRequests = active,
          sr_QueuedRequests = queued, sr_PriorityQueuedRequests = priorityQueued, sr_GhostRequests = ghostN + ghostP,
          sr_MaxConcurrency = int (gv_semCap g), sr_QueueCapacity = int (gv_queueCap g),
          sr_PriorityQueueCapacity = int (gv_priorityCap g), sr_Upstream = gv_upstream g,
          sr_UpstreamModel = gv_upstreamModel g,
          sr_Endpoints = map (\<lambda>(h, es). endpoint_snapshot now h es) (walk_map (tk_endpoints t) hosts),
          sr_Responsibilities =
            map (\<lambda>(n, rs). responsibility_snapshot now n rs) (walk_map (tk_responsibilities t) respNames),
          sr_IncomingLastHour = windowCount (tk_incomingErrors t) now hour,
          sr_IncomingTotal = er_total (tk_incomingErrors t),
          sr_OutgoingLastHour = windowCount (tk_outgoingErrors t) now hour,
          sr_OutgoingTotal = er_total (tk_outgoingErrors t),
          sr_AvgTotalMs = milliseconds (avgWait + avgInference), sr_AvgWaitMs = milliseconds avgWait,
          sr_AvgInferenceMs = milliseconds avgInference\<rparr>)"

definition PendingSnapshot :: "string list \<Rightarrow> Tracker \<Rightarrow> (string \<times> pendingDetail) list" where
  "PendingSnapshot ids t =
     sort_by (\<lambda>a b. pd_submittedAt (snd a) < pd_submittedAt (snd b)) (walk_map (tk_pendingMap t) ids)"

definition HistorySnapshot :: "Tracker \<Rightarrow> (instant \<times> bool) list" where
  "HistorySnapshot t = map (\<lambda>e. (oe_at e, oe_success e)) (os_events (tk_outcomes t))"

definition reset_endpoint :: "endpointStats \<Rightarrow> endpointStats" where
  "reset_endpoint es = es\<lparr>ep_events := [], ep_total := no_totals, ep_lastSeen := zeroTime\<rparr>"

definition reset_responsibility :: "responsibilityStats \<Rightarrow> responsibilityStats" where
  "reset_responsibility rs = rs\<lparr>rp_events := [], rp_total := no_totals, rp_lastSeen := zeroTime\<rparr>"

definition Reset :: "Tracker \<Rightarrow> Tracker" where
  "Reset t = t\<lparr>tk_endpoints := (\<lambda>h. map_option reset_endpoint (tk_endpoints t h)),
               tk_responsibilities := (\<lambda>n. map_option reset_responsibility (tk_responsibilities t n)),
               tk_incomingErrors := \<lparr>er_events = [], er_total = 0\<rparr>, tk_outgoingErrors := \<lparr>er_events = [], er_total = 0\<rparr>,
               tk_durations := \<lparr>ds_events = []\<rparr>, tk_outcomes := \<lparr>os_events = []\<rparr>\<rparr>"

end
