(* ===== verification/Gateway_Windows.thy ===== *)
theory Gateway_Windows
  imports Gateway_Stats
begin

text \<open>
  The event logs of \<open>stats.go\<close> against their specification. A log is specified by the history of all
  events ever added to it; the code keeps a pruned suffix and answers window queries by a scan from the
  newest event. The contract is a locale, which each of the five logs of the code satisfies; the last
  section lifts it to the tracker under arbitrary sequences of its operations.
\<close>

section \<open>Logs and their histories\<close>

text \<open>\<open>es\<close> is the history \<open>hist\<close> without some events older than the retention at time \<open>cur\<close>.\<close>

definition tracks :: "('e \<Rightarrow> instant) \<Rightarrow> instant \<Rightarrow> 'e list \<Rightarrow> 'e list \<Rightarrow> bool" where
  "tracks stamp cur es hist \<longleftrightarrow>
     (\<exists>dropped. hist = dropped @ es \<and> (\<forall>e \<in> set dropped. stamp e < cur - retention)) \<and>
     sorted_wrt (\<lambda>a b. stamp a \<le> stamp b) hist \<and> (\<forall>e \<in> set hist. stamp e \<le> cur)"

definition within :: "('e \<Rightarrow> instant) \<Rightarrow> instant \<Rightarrow> duration \<Rightarrow> 'e list \<Rightarrow> 'e list" where
  "within stamp now window es = filter (\<lambda>e. now - stamp e \<le> window) es"

lemma tracks_empty [simp]: "tracks stamp cur [] []"
  by (simp add: tracks_def)

lemma tracks_later:
  assumes "tracks stamp cur es hist" "cur \<le> now"
  shows "tracks stamp now es hist"
  using assms unfolding tracks_def by (metis diff_right_mono order_trans order_less_le_trans)

lemma tracks_prune:
  assumes "tracks stamp cur es hist"
  shows "tracks stamp cur (prune_before stamp cur es) hist"
proof -
  obtain dropped where d: "hist = dropped @ es" "\<forall>e \<in> set dropped. stamp e < cur - retention"
    using assms by (auto simp: tracks_def)
  let ?old = "takeWhile (\<lambda>e. stamp e < cur - retention) es"
  have "hist = (dropped @ ?old) @ prune_before stamp cur es" using d(1) by (simp add: prune_before_def)
  moreover have "\<forall>e \<in> set (dropped @ ?old). stamp e < cur - retention"
    using d(2) by (auto dest: set_takeWhileD)
  ultimately show ?thesis using assms unfolding tracks_def by blast
qed

lemma tracks_snoc:
  assumes "tracks stamp (stamp e) es hist"
  shows "tracks stamp (stamp e) (es @ [e]) (hist @ [e])"
  using assms by (auto simp: tracks_def sorted_wrt_append)

lemma takeWhile_rev_sorted:
  "sorted_wrt (\<lambda>a b. stamp a \<le> stamp b) es \<Longrightarrow>
     takeWhile (\<lambda>e. now - stamp e \<le> (window :: int)) (rev es) = rev (within stamp now window es)"
proof (induction es)
  case (Cons e es)
  show ?case
  proof (cases "now - stamp e \<le> window")
    case True
    with Cons.prems have "\<forall>x \<in> set (rev es). now - stamp x \<le> window" by force
    with True show ?thesis by (simp add: within_def takeWhile_append2 filter_True)
  next
    case False
    with Cons show ?thesis by (simp add: within_def takeWhile_tail)
  qed
qed (simp add: within_def)

text \<open>A query over a window no longer than the retention does not see the pruning.\<close>

lemma tracks_within:
  assumes t: "tracks stamp cur es hist" and "cur \<le> now" "window \<le> retention"
  shows "takeWhile (\<lambda>e. now - stamp e \<le> window) (rev es) = rev (within stamp now window hist)"
proof -
  obtain dropped where d: "hist = dropped @ es" "\<forall>e \<in> set dropped. stamp e < cur - retention"
    using t by (auto simp: tracks_def)
  have "sorted_wrt (\<lambda>a b. stamp a \<le> stamp b) es" using t d by (simp add: tracks_def sorted_wrt_append)
  moreover have "within stamp now window dropped = []"
    using d(2) assms(2,3) by (force simp: within_def filter_empty_conv)
  ultimately show ?thesis using d(1) by (simp add: takeWhile_rev_sorted within_def)
qed

lemma count_back_takeWhile:
  "count_back now window ts n = n + of_nat (length (takeWhile (\<lambda>t. now - t \<le> window) ts))"
  by (induction ts arbitrary: n) auto

lemma sums_back_takeWhile:
  "sums_back now window es (a, b) =
     (let ys = takeWhile (\<lambda>e. now - re_at e \<le> window) es
      in (a + sum_list (map re_tokens ys), b + of_nat (length ys)))"
  by (induction es arbitrary: a b) (auto simp: Let_def algebra_simps)

lemma avg_back_takeWhile:
  "avg_back now window es (a, b, n) =
     (let ys = takeWhile (\<lambda>e. now - de_at e \<le> window) es
      in (a + sum_list (map de_wait ys), b + sum_list (map de_inference ys), n + int (length ys)))"
  by (induction es arbitrary: a b n) (auto simp: Let_def algebra_simps)

section \<open>The contract of a log\<close>

locale sliding_window =
  fixes events :: "'s \<Rightarrow> 'e list"
    and stamp :: "'e \<Rightarrow> instant"
    and add :: "'e \<Rightarrow> 's \<Rightarrow> 's"
  assumes events_add: "events (add e s) = prune_before stamp (stamp e) (events s @ [e])"
begin

lemma tracks_add:
  "tracks stamp (stamp e) (events s) hist \<Longrightarrow> tracks stamp (stamp e) (events (add e s)) (hist @ [e])"
  by (simp add: events_add tracks_prune tracks_snoc)

lemma tracks_fold:
  assumes "sorted_wrt (\<lambda>a b. stamp a \<le> stamp b) es" "\<forall>e \<in> set es. stamp e \<le> cur" "events s = []"
  shows "tracks stamp cur (events (fold add es s)) es"
  using assms
proof (induction es arbitrary: cur rule: rev_induct)
  case (snoc e es)
  from snoc.prems have "tracks stamp (stamp e) (events (fold add es s)) es"
    by (intro snoc.IH) (auto simp: sorted_wrt_append)
  from tracks_later [OF tracks_add [OF this]] snoc.prems show ?case by simp
qed simp

end

interpretation err: sliding_window er_events "\<lambda>t. t" errorStats_record
  by unfold_locales (simp add: errorStats_record_def errorStats_prune_def)

lemma ds_events_record:
  "ds_events (durationStats_record (de_at e) (de_wait e) (de_inference e) d) = prune_before de_at (de_at e) (ds_events d @ [e])"
  by (cases e) (simp add: durationStats_record_def durationStats_prune_def)

interpretation dur: sliding_window ds_events de_at "\<lambda>e. durationStats_record (de_at e) (de_wait e) (de_inference e)"
  by unfold_locales (rule ds_events_record)

lemma os_events_record:
  "os_events (outcomeStats_record (oe_at e) (oe_success e) s) = prune_before oe_at (oe_at e) (os_events s @ [e])"
  by (cases e) (simp add: outcomeStats_record_def outcomeStats_prune_def)

interpretation out: sliding_window os_events oe_at "\<lambda>e. outcomeStats_record (oe_at e) (oe_success e)"
  by unfold_locales (rule os_events_record)

text \<open>The update \<open>Record\<close> makes to the entry of a host and of a responsibility.\<close>

definition record_endpoint :: "requestEvent \<Rightarrow> endpointStats \<Rightarrow> endpointStats" where
  "record_endpoint ev es =
     endpointStats_prune (re_at ev)
       (es\<lparr>ep_events := ep_events es @ [ev], ep_total := count_request (re_tokens ev) (ep_total es), ep_lastSeen := re_at ev\<rparr>)"

definition record_responsibility :: "requestEvent \<Rightarrow> responsibilityStats \<Rightarrow> responsibilityStats" where
  "record_responsibility ev rs =
     responsibilityStats_prune (re_at ev)
       (rs\<lparr>rp_events := rp_events rs @ [ev], rp_total := count_request (re_tokens ev) (rp_total rs), rp_lastSeen := re_at ev\<rparr>)"

interpretation ep: sliding_window ep_events re_at record_endpoint
  by unfold_locales (simp add: record_endpoint_def endpointStats_prune_def)

interpretation rp: sliding_window rp_events re_at record_responsibility
  by unfold_locales (simp add: record_responsibility_def responsibilityStats_prune_def)

lemma windowCount_exact:
  assumes "tracks (\<lambda>t. t) cur (er_events e) hist" "cur \<le> now" "window \<le> retention"
  shows "windowCount e now window = of_nat (length (within (\<lambda>t. t) now window hist))"
  using tracks_within [OF assms] by (simp add: windowCount_def count_back_takeWhile)

lemma sums_exact:
  assumes "tracks re_at cur es hist" "cur \<le> now" "window \<le> retention"
  shows "sums_back now window (rev es) (0, 0) =
     (sum_list (map re_tokens (within re_at now window hist)), of_nat (length (within re_at now window hist)))"
  using tracks_within [OF assms]
  by (simp add: sums_back_takeWhile Let_def rev_map [symmetric] sum_list_rev)

section \<open>The tracker as a whole\<close>

datatype tracker_op =
    IncrOp string string string string string instant bool
  | DecrOp string string
  | RecordOp instant string string string int64
  | IncomingOp instant
  | OutgoingOp instant
  | DurationOp instant instant instant
  | OutcomeOp instant bool
  | ResetOp

fun apply_op :: "tracker_op \<Rightarrow> Tracker \<Rightarrow> Tracker" where
  "apply_op (IncrOp host name resp i body at' pr) t = IncrPending host name resp i body at' pr t"
| "apply_op (DecrOp host i) t = DecrPending host i t"
| "apply_op (RecordOp now host name resp tokens) t = Record now host name resp tokens t"
| "apply_op (IncomingOp now) t = RecordIncomingConnError now t"
| "apply_op (OutgoingOp now) t = RecordOutgoingConnError now t"
| "apply_op (DurationOp s i c) t = RecordDuration s i c t"
| "apply_op (OutcomeOp now ok) t = RecordOutcome now ok t"
| "apply_op ResetOp t = Reset t"

text \<open>The clock reading an operation stores, and sequences in which these readings never go back.\<close>

fun op_times :: "tracker_op \<Rightarrow> instant list" where
  "op_times (RecordOp now _ _ _ _) = [now]"
| "op_times (IncomingOp now) = [now]"
| "op_times (OutgoingOp now) = [now]"
| "op_times (DurationOp _ _ c) = [c]"
| "op_times (OutcomeOp now _) = [now]"
| "op_times _ = []"

definition chronological :: "tracker_op list \<Rightarrow> instant \<Rightarrow> bool" where
  "chronological ops now \<longleftrightarrow> sorted (concat (map op_times ops) @ [now])"

text \<open>The specification: what each operation adds to the history of a host, of a responsibility, of the errors.\<close>

fun host_event :: "string \<Rightarrow> tracker_op \<Rightarrow> requestEvent list \<Rightarrow> requestEvent list" where
  "host_event h (RecordOp now host _ _ tokens) l = (if host = h then l @ [\<lparr>re_at = now, re_tokens = tokens\<rparr>] else l)"
| "host_event h ResetOp l = []"
| "host_event h _ l = l"

fun resp_event :: "string \<Rightarrow> tracker_op \<Rightarrow> requestEvent list \<Rightarrow> requestEvent list" where
  "resp_event r (RecordOp now _ _ resp tokens) l = (if resp = r then l @ [\<lparr>re_at = now, re_tokens = tokens\<rparr>] else l)"
| "resp_event r ResetOp l = []"
| "resp_event r _ l = l"

fun incoming_event :: "tracker_op \<Rightarrow> instant list \<Rightarrow> instant list" where
  "incoming_event (IncomingOp now) l = l @ [now]"
| "incoming_event ResetOp l = []"
| "incoming_event _ l = l"

definition totals :: "requestEvent list \<Rightarrow> totalCounters" where
  "totals l = \<lparr>tc_tokens = sum_list (map re_tokens l), tc_requests = of_nat (length l)\<rparr>"

lemma totals_snoc: "count_request (re_tokens e) (totals l) = totals (l @ [e])"
  by (simp add: totals_def count_request_def)

lemma totals_Nil [simp]: "totals [] = no_totals"
  by (simp add: totals_def no_totals_def)

lemma chronological_snoc:
  assumes "chronological (ops @ [a]) now"
  shows "chronological ops now" "\<forall>t \<in> set (op_times a). chronological ops t \<and> t \<le> now"
  using assms by (auto simp: chronological_def sorted_append)

lemma Record_endpoint:
  "endpoint_of h n (Record now host name resp tokens t) =
     (if h = host then record_endpoint \<lparr>re_at = now, re_tokens = tokens\<rparr> (endpoint_of host name t) else endpoint_of h n t)"
  by (simp add: Record_def Let_def endpoint_of_def put_endpoint_def put_responsibility_def record_endpoint_def)

lemma Record_responsibility:
  "r \<noteq> [] \<Longrightarrow> responsibility_of r (Record now host name resp tokens t) =
     (if r = resp then record_responsibility \<lparr>re_at = now, re_tokens = tokens\<rparr> (responsibility_of r t) else responsibility_of r t)"
  by (auto simp: Record_def Let_def responsibility_of_def put_endpoint_def put_responsibility_def record_responsibility_def)

lemma endpoint_of_name:
  "ep_events (endpoint_of h n t) = ep_events (endpoint_of h m t)"
  "ep_total (endpoint_of h n t) = ep_total (endpoint_of h m t)"
  by (simp_all add: endpoint_of_def split: option.split)


lemma other_op_endpoint:
  assumes "\<forall>now host name resp tokens. a \<noteq> RecordOp now host name resp tokens" "a \<noteq> ResetOp"
  shows "ep_events (endpoint_of h n (apply_op a t)) = ep_events (endpoint_of h n t)"
    and "ep_total (endpoint_of h n (apply_op a t)) = ep_total (endpoint_of h n t)"
  using assms
  by (cases a; simp add: IncrPending_def DecrPending_def Let_def endpoint_of_def put_endpoint_def
      RecordIncomingConnError_def RecordOutgoingConnError_def RecordDuration_def RecordOutcome_def split: option.split)+

lemma other_op_responsibility:
  assumes "\<forall>now host name resp tokens. a \<noteq> RecordOp now host name resp tokens" "a \<noteq> ResetOp"
  shows "responsibility_of r (apply_op a t) = responsibility_of r t"
  using assms
  by (cases a; simp add: IncrPending_def DecrPending_def Let_def responsibility_of_def put_endpoint_def
      RecordIncomingConnError_def RecordOutgoingConnError_def RecordDuration_def RecordOutcome_def)

lemma Reset_endpoint:
  "ep_events (endpoint_of h n (Reset t)) = []" "ep_total (endpoint_of h n (Reset t)) = no_totals"
  by (simp_all add: Reset_def endpoint_of_def reset_endpoint_def split: option.split)

lemma Reset_responsibility:
  "rp_events (responsibility_of r (Reset t)) = []" "rp_total (responsibility_of r (Reset t)) = no_totals"
  by (simp_all add: Reset_def responsibility_of_def reset_responsibility_def split: option.split)

lemma host_tracks:
  "chronological ops now \<Longrightarrow>
     tracks re_at now (ep_events (endpoint_of h n (fold apply_op ops NewTracker))) (fold (host_event h) ops []) \<and>
     ep_total (endpoint_of h n (fold apply_op ops NewTracker)) = totals (fold (host_event h) ops [])"
proof (induction ops arbitrary: now n rule: rev_induct)
  case Nil
  show ?case by (simp add: endpoint_of_def NewTracker_def)
next
  case (snoc a ops)
  note chron = chronological_snoc [OF snoc.prems]
  note IH = snoc.IH [OF chron(1)]
  show ?case
  proof (cases "(\<forall>now host name resp tokens. a \<noteq> RecordOp now host name resp tokens) \<and> a \<noteq> ResetOp")
    case True
    then have "host_event h a l = l" for l by (cases a) auto
    with True IH show ?thesis by (simp add: other_op_endpoint)
  next
    case False
    then consider (rec) at' host name resp tokens where "a = RecordOp at' host name resp tokens" | (reset) "a = ResetOp" by blast
    then show ?thesis
    proof cases
      case rec
      define ev where "ev = \<lparr>re_at = at', re_tokens = tokens\<rparr>"
      have "re_at ev \<le> now" "chronological ops (re_at ev)" using chron(2) rec by (auto simp: ev_def)
      note IH' = snoc.IH [OF this(2), of name]
      have "tracks re_at now (ep_events (record_endpoint ev (endpoint_of h name (fold apply_op ops NewTracker))))
          (fold (host_event h) ops [] @ [ev])"
        using tracks_later [OF ep.tracks_add [OF IH' [THEN conjunct1]] \<open>re_at ev \<le> now\<close>] .
      moreover have "ep_total (record_endpoint ev (endpoint_of h name (fold apply_op ops NewTracker))) =
          totals (fold (host_event h) ops [] @ [ev])"
        using IH' by (simp add: record_endpoint_def endpointStats_prune_def totals_snoc)
      ultimately show ?thesis using IH rec by (auto simp: Record_endpoint ev_def)
    next
      case reset
      then show ?thesis by (simp add: Reset_endpoint)
    qed
  qed
qed

lemma responsibility_tracks:
  assumes "r \<noteq> []"
  shows "chronological ops now \<Longrightarrow>
     tracks re_at now (rp_events (responsibility_of r (fold apply_op ops NewTracker))) (fold (resp_event r) ops []) \<and>
     rp_total (responsibility_of r (fold apply_op ops NewTracker)) = totals (fold (resp_event r) ops [])"
proof (induction ops arbitrary: now rule: rev_induct)
  case Nil
  show ?case by (simp add: responsibility_of_def NewTracker_def)
next
  case (snoc a ops)
  note chron = chronological_snoc [OF snoc.prems]
  note IH = snoc.IH [OF chron(1)]
  show ?case
  proof (cases "(\<forall>now host name resp tokens. a \<noteq> RecordOp now host name resp tokens) \<and> a \<noteq> ResetOp")
    case True
    then have "resp_event r a l = l" for l by (cases a) auto
    with True IH show ?thesis by (simp add: other_op_responsibility)
  next
    case False
    then consider (rec) at' host name resp tokens where "a = RecordOp at' host name resp tokens" | (reset) "a = ResetOp" by blast
    then show ?thesis
    proof cases
      case rec
      define ev where "ev = \<lparr>re_at = at', re_tokens = tokens\<rparr>"
      have "re_at ev \<le> now" "chronological ops (re_at ev)" using chron(2) rec by (auto simp: ev_def)
      note IH' = snoc.IH [OF this(2)]
      have "tracks re_at now (rp_events (record_responsibility ev (responsibility_of r (fold apply_op ops NewTracker))))
          (fold (resp_event r) ops [] @ [ev])"
        using tracks_later [OF rp.tracks_add [OF IH' [THEN conjunct1]] \<open>re_at ev \<le> now\<close>] .
      moreover have "rp_total (record_responsibility ev (responsibility_of r (fold apply_op ops NewTracker))) =
          totals (fold (resp_event r) ops [] @ [ev])"
        using IH' by (simp add: record_responsibility_def responsibilityStats_prune_def totals_snoc)
      ultimately show ?thesis using IH rec assms by (auto simp: Record_responsibility ev_def)
    next
      case reset
      then show ?thesis by (simp add: Reset_responsibility)
    qed
  qed
qed

lemma hours_retained: "hour \<le> retention" "24 * hour \<le> retention"
  by (simp_all add: retention_def duration_defs)

lemma no_anonymous_responsibility: "tk_responsibilities (fold apply_op ops NewTracker) [] = None"
proof (induction ops rule: rev_induct)
  case (snoc a ops)
  then show ?case
    by (cases a) (simp_all add: IncrPending_def DecrPending_def Record_def Let_def put_endpoint_def put_responsibility_def
      RecordIncomingConnError_def RecordOutgoingConnError_def RecordDuration_def RecordOutcome_def Reset_def)
qed (simp add: NewTracker_def)

text \<open>The six numbers a log stands for: tokens and requests of the last hour, of the last day and in total.\<close>

definition numbers :: "instant \<Rightarrow> requestEvent list \<Rightarrow> int64 list" where
  "numbers now l =
     concat (map (\<lambda>es. [sum_list (map re_tokens es), of_nat (length es)])
               [within re_at now hour l, within re_at now (24 * hour) l, l])"

lemma endpoint_snapshot_numbers:
  assumes "tracks re_at now (ep_events es) l" "ep_total es = totals l"
  shows "[sn_TokensLastHour (endpoint_snapshot now h es), sn_RequestsLastHour (endpoint_snapshot now h es),
      sn_TokensLastDay (endpoint_snapshot now h es), sn_RequestsLastDay (endpoint_snapshot now h es),
      sn_TokensTotal (endpoint_snapshot now h es), sn_RequestsTotal (endpoint_snapshot now h es)] = numbers now l"
  using sums_exact [OF assms(1) order_refl hours_retained(1)] sums_exact [OF assms(1) order_refl hours_retained(2)] assms(2)
  by (simp add: endpoint_snapshot_def endpointStats_windowSums_def totals_def numbers_def)

lemma responsibility_snapshot_numbers:
  assumes "tracks re_at now (rp_events rs) l" "rp_total rs = totals l"
  shows "[rn_TokensLastHour (responsibility_snapshot now n rs), rn_RequestsLastHour (responsibility_snapshot now n rs),
      rn_TokensLastDay (responsibility_snapshot now n rs), rn_RequestsLastDay (responsibility_snapshot now n rs),
      rn_TokensTotal (responsibility_snapshot now n rs), rn_RequestsTotal (responsibility_snapshot now n rs)] = numbers now l"
  using sums_exact [OF assms(1) order_refl hours_retained(1)] sums_exact [OF assms(1) order_refl hours_retained(2)] assms(2)
  by (simp add: responsibility_snapshot_def responsibilityStats_windowSums_def totals_def numbers_def)

text \<open>
  C12: the numbers on the dashboard are exact. After any sequence of tracker operations whose clock
  readings never go back, the tokens and requests shown for each host and each responsibility over the
  last hour, over the last day and in total are those of the requests recorded for it since the last
  reset, as 64-bit sums: dropping events after 25 hours and stopping the scan at the first old event
  lose nothing.
\<close>

theorem dashboard_numbers_exact:
  assumes "chronological ops now"
  shows "(\<forall>s \<in> set (sr_Endpoints (Snapshot now hosts names g (fold apply_op ops NewTracker))).
       [sn_TokensLastHour s, sn_RequestsLastHour s, sn_TokensLastDay s, sn_RequestsLastDay s, sn_TokensTotal s,
        sn_RequestsTotal s] = numbers now (fold (host_event (sn_Host s)) ops [])) \<and>
    (\<forall>s \<in> set (sr_Responsibilities (Snapshot now hosts names g (fold apply_op ops NewTracker))).
       [rn_TokensLastHour s, rn_RequestsLastHour s, rn_TokensLastDay s, rn_RequestsLastDay s, rn_TokensTotal s,
        rn_RequestsTotal s] = numbers now (fold (resp_event (rn_Name s)) ops []))"
proof -
  let ?t = "fold apply_op ops NewTracker"
  have host: "sn_Host (endpoint_snapshot now h es) = h" "rn_Name (responsibility_snapshot now h rs) = h" for h es rs
    by (simp_all add: endpoint_snapshot_def responsibility_snapshot_def split: prod.split)
  have "[sn_TokensLastHour s, sn_RequestsLastHour s, sn_TokensLastDay s, sn_RequestsLastDay s, sn_TokensTotal s,
        sn_RequestsTotal s] = numbers now (fold (host_event (sn_Host s)) ops [])"
    if s: "s \<in> set (sr_Endpoints (Snapshot now hosts names g ?t))" for s
  proof -
    obtain h es where "tk_endpoints ?t h = Some es" "s = endpoint_snapshot now h es"
      using s by (auto simp: Snapshot_def Let_def walk_map_def in_set_map_filter split: prod.splits)
    then show ?thesis
      using host_tracks [OF assms, of h "[]"] endpoint_snapshot_numbers host by (simp add: endpoint_of_def)
  qed
  moreover have "[rn_TokensLastHour s, rn_RequestsLastHour s, rn_TokensLastDay s, rn_RequestsLastDay s, rn_TokensTotal s,
        rn_RequestsTotal s] = numbers now (fold (resp_event (rn_Name s)) ops [])"
    if s: "s \<in> set (sr_Responsibilities (Snapshot now hosts names g ?t))" for s
  proof -
    obtain r rs where r: "tk_responsibilities ?t r = Some rs" "s = responsibility_snapshot now r rs"
      using s by (auto simp: Snapshot_def Let_def walk_map_def in_set_map_filter split: prod.splits)
    then have "r \<noteq> []" using no_anonymous_responsibility by (metis option.distinct(1))
    from responsibility_tracks [OF this assms] r show ?thesis
      using responsibility_snapshot_numbers host by (simp add: responsibility_of_def)
  qed
  ultimately show ?thesis by blast
qed

definition demo_view :: gateway_view where
  "demo_view = \<lparr>gv_queue = 0, gv_priorityQueue = 0, gv_sem = 1, gv_queueCap = 50, gv_priorityCap = 10, gv_semCap = 2,
     gv_ghostNormal = 0, gv_ghostPriority = 0, gv_upstream = [], gv_upstreamModel = []\<rparr>"

definition demo_ops :: "tracker_op list" where
  "demo_ops = [RecordOp 0 ''a'' ''n'' ''patching'' 5, IncomingOp hour, RecordOp (26 * hour) ''a'' ''n'' [] 7]"

theorem dashboard_numbers_exact_witness:
  "\<exists>s \<in> set (sr_Endpoints (Snapshot (27 * hour) [''a''] [''patching''] demo_view (fold apply_op demo_ops NewTracker))).
     [sn_TokensLastHour s, sn_RequestsLastHour s, sn_TokensLastDay s, sn_RequestsLastDay s, sn_TokensTotal s,
      sn_RequestsTotal s] = [7, 1, 7, 1, 12, 2]"
proof -
  let ?t = "fold apply_op demo_ops NewTracker"
  have "chronological demo_ops (27 * hour)" by code_simp
  from dashboard_numbers_exact [OF this, THEN conjunct1, of "[''a'']" "[''patching'']" demo_view]
  have num: "\<forall>s \<in> set (sr_Endpoints (Snapshot (27 * hour) [''a''] [''patching''] demo_view ?t)).
     [sn_TokensLastHour s, sn_RequestsLastHour s, sn_TokensLastDay s, sn_RequestsLastDay s, sn_TokensTotal s,
      sn_RequestsTotal s] = numbers (27 * hour) (fold (host_event (sn_Host s)) demo_ops [])" .
  have "map sn_Host (sr_Endpoints (Snapshot (27 * hour) [''a''] [''patching''] demo_view ?t)) = [''a'']" by code_simp
  then obtain s where s: "s \<in> set (sr_Endpoints (Snapshot (27 * hour) [''a''] [''patching''] demo_view ?t))" "sn_Host s = ''a''"
    by (cases "sr_Endpoints (Snapshot (27 * hour) [''a''] [''patching''] demo_view ?t)") auto
  have "numbers (27 * hour) (fold (host_event ''a'') demo_ops []) = [7, 1, 7, 1, 12, 2]" by code_simp
  with num s show ?thesis by (intro bexI [of _ s]) auto
qed

end
