(* ===== verification/Gateway_Persist.thy ===== *)
theory Gateway_Persist
  imports Gateway_Windows
begin

text \<open>
  Persistence of the gateway's statistics: \<open>Load\<close> and \<open>Save\<close> of \<open>src/llm-gateway/stats.go\<close>. The file
  holds the marshalled state as the typed value; text that does not unmarshal is \<open>Broken\<close>. The outcome
  of each system call is an argument.
\<close>

section \<open>The file\<close>

definition persistenceVersion :: int where "persistenceVersion = 1"

record persistedErrorStats =
  px_Total :: int64
  px_Events :: "instant list"

record persistedDuration =
  pu_At :: instant
  pu_Wait :: duration
  pu_Inference :: duration

record persistedEvent =
  pv_At :: instant
  pv_Tokens :: int64

record persistedEndpoint =
  pe_Host :: string
  pe_Name :: string
  pe_LastSeen :: instant
  pe_TotalTokens :: int64
  pe_TotalRequests :: int64
  pe_Events :: "persistedEvent list"

record persistedResponsibility =
  pr_Name :: string
  pr_LastSeen :: instant
  pr_TotalTokens :: int64
  pr_TotalRequests :: int64
  pr_Events :: "persistedEvent list"

record persistedOutcome =
  po_At :: instant
  po_Success :: bool

record persistedState =
  ps_Version :: int
  ps_SavedAt :: instant
  ps_Endpoints :: "persistedEndpoint list"
  ps_Responsibilities :: "persistedResponsibility list"
  ps_IncomingConnErrors :: persistedErrorStats
  ps_OutgoingConnErrors :: persistedErrorStats
  ps_Durations :: "persistedDuration list"
  ps_Outcomes :: "persistedOutcome list"

datatype stats_text = Text persistedState | Broken

record stats_files =
  sf_main :: "stats_text option"
  sf_tmp :: "stats_text option"

record save_io =
  io_write :: bool
  io_rename :: bool

section \<open>Loading\<close>

definition young :: "instant \<Rightarrow> instant \<Rightarrow> bool" where
  "young now at' \<longleftrightarrow> \<not> at' < now - retention"

definition load_events :: "instant \<Rightarrow> persistedEvent list \<Rightarrow> requestEvent list" where
  "load_events now es = map (\<lambda>e. \<lparr>re_at = pv_At e, re_tokens = pv_Tokens e\<rparr>) (filter (\<lambda>e. young now (pv_At e)) es)"

definition load_endpoint :: "instant \<Rightarrow> persistedEndpoint \<Rightarrow> endpointStats" where
  "load_endpoint now p =
     \<lparr>ep_host = pe_Host p, ep_name = pe_Name p, ep_events = load_events now (pe_Events p),
      ep_total = \<lparr>tc_tokens = pe_TotalTokens p, tc_requests = pe_TotalRequests p\<rparr>, ep_pending = 0, ep_lastSeen = pe_LastSeen p\<rparr>"

definition load_responsibility :: "instant \<Rightarrow> persistedResponsibility \<Rightarrow> responsibilityStats" where
  "load_responsibility now p =
     \<lparr>rp_name = pr_Name p, rp_events = load_events now (pr_Events p),
      rp_total = \<lparr>tc_tokens = pr_TotalTokens p, tc_requests = pr_TotalRequests p\<rparr>, rp_lastSeen = pr_LastSeen p\<rparr>"

definition load_errors :: "instant \<Rightarrow> persistedErrorStats \<Rightarrow> errorStats" where
  "load_errors now p = \<lparr>er_events = filter (young now) (px_Events p), er_total = px_Total p\<rparr>"

definition Load :: "bool \<Rightarrow> instant \<Rightarrow> stats_files \<Rightarrow> Tracker \<Rightarrow> unit result \<times> Tracker" where
  "Load read_ok now f t =
     (if \<not> read_ok then (Inl (IOError ''read stats file''), t)
      else
        case sf_main f of
          None \<Rightarrow> (Inr (), t)
        | Some Broken \<Rightarrow> (Inl Corrupt, t)
        | Some (Text state) \<Rightarrow>
            if ps_Version state \<noteq> persistenceVersion then (Inl (Invalid ''unsupported stats file version''), t)
            else
              (Inr (),
               t\<lparr>tk_endpoints := fold (\<lambda>p m. m(pe_Host p \<mapsto> load_endpoint now p)) (ps_Endpoints state) (tk_endpoints t),
                 tk_responsibilities :=
                   fold (\<lambda>p m. m(pr_Name p \<mapsto> load_responsibility now p)) (ps_Responsibilities state) (tk_responsibilities t),
                 tk_incomingErrors := load_errors now (ps_IncomingConnErrors state),
                 tk_outgoingErrors := load_errors now (ps_OutgoingConnErrors state),
                 tk_durations :=
                   \<lparr>ds_events = map (\<lambda>d. \<lparr>de_at = pu_At d, de_wait = pu_Wait d, de_inference = pu_Inference d\<rparr>)
                                  (filter (\<lambda>d. young now (pu_At d)) (ps_Durations state))\<rparr>,
                 tk_outcomes :=
                   \<lparr>os_events = map (\<lambda>d. \<lparr>oe_at = po_At d, oe_success = po_Success d\<rparr>)
                                  (filter (\<lambda>d. young now (po_At d)) (ps_Outcomes state))\<rparr>\<rparr>))"

section \<open>Saving\<close>

definition save_events :: "requestEvent list \<Rightarrow> persistedEvent list" where
  "save_events es = map (\<lambda>e. \<lparr>pv_At = re_at e, pv_Tokens = re_tokens e\<rparr>) es"

definition save_endpoint :: "endpointStats \<Rightarrow> persistedEndpoint" where
  "save_endpoint es =
     \<lparr>pe_Host = ep_host es, pe_Name = ep_name es, pe_LastSeen = ep_lastSeen es, pe_TotalTokens = tc_tokens (ep_total es),
      pe_TotalRequests = tc_requests (ep_total es), pe_Events = save_events (ep_events es)\<rparr>"

definition save_responsibility :: "responsibilityStats \<Rightarrow> persistedResponsibility" where
  "save_responsibility rs =
     \<lparr>pr_Name = rp_name rs, pr_LastSeen = rp_lastSeen rs, pr_TotalTokens = tc_tokens (rp_total rs),
      pr_TotalRequests = tc_requests (rp_total rs), pr_Events = save_events (rp_events rs)\<rparr>"

definition save_errors :: "errorStats \<Rightarrow> persistedErrorStats" where
  "save_errors e = \<lparr>px_Total = er_total e, px_Events = er_events e\<rparr>"

definition save_state :: "instant \<Rightarrow> string list \<Rightarrow> string list \<Rightarrow> Tracker \<Rightarrow> persistedState" where
  "save_state now hosts respNames t =
     \<lparr>ps_Version = persistenceVersion, ps_SavedAt = now,
      ps_Endpoints = map (save_endpoint \<circ> snd) (walk_map (tk_endpoints t) (sort_by str_less hosts)),
      ps_Responsibilities =
        map (save_responsibility \<circ> snd) (walk_map (tk_responsibilities t) (sort_by str_less respNames)),
      ps_IncomingConnErrors = save_errors (tk_incomingErrors t),
      ps_OutgoingConnErrors = save_errors (tk_outgoingErrors t),
      ps_Durations = map (\<lambda>d. \<lparr>pu_At = de_at d, pu_Wait = de_wait d, pu_Inference = de_inference d\<rparr>) (ds_events (tk_durations t)),
      ps_Outcomes = map (\<lambda>d. \<lparr>po_At = oe_at d, po_Success = oe_success d\<rparr>) (os_events (tk_outcomes t))\<rparr>"

text \<open>A failed write may leave part of the text in the temporary file.\<close>

definition Save ::
    "save_io \<Rightarrow> instant \<Rightarrow> string list \<Rightarrow> string list \<Rightarrow> Tracker \<Rightarrow> stats_files \<Rightarrow> unit result \<times> stats_files" where
  "Save io now hosts respNames t f =
     (let data = Text (save_state now hosts respNames t) in
      if \<not> io_write io then (Inl (IOError ''write stats temp file''), f\<lparr>sf_tmp := Some Broken\<rparr>)
      else
        let f = f\<lparr>sf_tmp := Some data\<rparr> in
        if \<not> io_rename io then (Inl (IOError ''rename stats file''), f\<lparr>sf_tmp := None\<rparr>)
        else (Inr (), f\<lparr>sf_main := sf_tmp f, sf_tmp := None\<rparr>))"

section \<open>Round trip\<close>

text \<open>The tracker of a process that starts at \<open>now\<close> with the statistics of \<open>t\<close> and nothing in flight.\<close>

definition restarted :: "instant \<Rightarrow> Tracker \<Rightarrow> Tracker" where
  "restarted now t =
     \<lparr>tk_endpoints = (\<lambda>h. map_option (\<lambda>es. es\<lparr>ep_events := filter (\<lambda>e. young now (re_at e)) (ep_events es), ep_pending := 0\<rparr>)
                       (tk_endpoints t h)),
      tk_responsibilities = (\<lambda>n. map_option (\<lambda>rs. rs\<lparr>rp_events := filter (\<lambda>e. young now (re_at e)) (rp_events rs)\<rparr>)
                       (tk_responsibilities t n)),
      tk_pendingMap = Map.empty,
      tk_incomingErrors = (tk_incomingErrors t)\<lparr>er_events := filter (young now) (er_events (tk_incomingErrors t))\<rparr>,
      tk_outgoingErrors = (tk_outgoingErrors t)\<lparr>er_events := filter (young now) (er_events (tk_outgoingErrors t))\<rparr>,
      tk_durations = \<lparr>ds_events = filter (\<lambda>d. young now (de_at d)) (ds_events (tk_durations t))\<rparr>,
      tk_outcomes = \<lparr>os_events = filter (\<lambda>d. young now (oe_at d)) (os_events (tk_outcomes t))\<rparr>\<rparr>"

text \<open>Every entry is stored under its own name.\<close>

definition keys_ok :: "Tracker \<Rightarrow> bool" where
  "keys_ok t \<longleftrightarrow> (\<forall>h es. tk_endpoints t h = Some es \<longrightarrow> ep_host es = h) \<and>
     (\<forall>n rs. tk_responsibilities t n = Some rs \<longrightarrow> rp_name rs = n)"

lemma load_save_events [simp]: "load_events now (save_events es) = filter (\<lambda>e. young now (re_at e)) es"
  by (induction es) (auto simp: load_events_def save_events_def)

lemma load_save_endpoint [simp]:
  "load_endpoint now (save_endpoint es) = es\<lparr>ep_events := filter (\<lambda>e. young now (re_at e)) (ep_events es), ep_pending := 0\<rparr>"
  by (cases es) (simp add: load_endpoint_def save_endpoint_def)

lemma load_save_responsibility [simp]:
  "load_responsibility now (save_responsibility rs) = rs\<lparr>rp_events := filter (\<lambda>e. young now (re_at e)) (rp_events rs)\<rparr>"
  by (cases rs) (simp add: load_responsibility_def save_responsibility_def)

lemma load_save_errors [simp]:
  "load_errors now (save_errors e) = e\<lparr>er_events := filter (young now) (er_events e)\<rparr>"
  by (cases e) (simp add: load_errors_def save_errors_def)

lemma rebuild_events [simp]:
  "map (\<lambda>x. \<lparr>de_at = de_at x, de_wait = de_wait x, de_inference = de_inference x\<rparr>) ds = ds"
  "map (\<lambda>x. \<lparr>oe_at = oe_at x, oe_success = oe_success x\<rparr>) os = os"
  by (simp_all add: map_idI)

lemma fold_walk:
  assumes "\<And>k v. m k = Some v \<Longrightarrow> key (f v) = k"
  shows "fold (\<lambda>p a. a(key p \<mapsto> g p)) (map (f \<circ> snd) (walk_map m ks)) a =
    (\<lambda>k. if k \<in> set ks \<and> m k \<noteq> None then map_option (g \<circ> f) (m k) else a k)"
proof (induction ks arbitrary: a)
  case (Cons k ks)
  have step: "walk_map m (k # ks) = (case m k of None \<Rightarrow> walk_map m ks | Some v \<Rightarrow> (k, v) # walk_map m ks)"
    by (simp add: walk_map_def List.map_filter_simps split: option.split)
  show ?case
  proof (cases "m k")
    case None
    show ?thesis unfolding step None option.case Cons.IH by (rule ext) (auto simp: None)
  next
    case (Some v)
    show ?thesis
      unfolding step Some option.case list.map fold_Cons comp_apply snd_conv assms [OF Some] Cons.IH [unfolded comp_def]
      by (rule ext) (auto simp: Some)
  qed
qed (simp add: walk_map_def List.map_filter_simps)

lemma load_save_state:
  assumes "keys_ok t" "set hosts = dom (tk_endpoints t)" "set names = dom (tk_responsibilities t)"
  shows "Load True now' \<lparr>sf_main = Some (Text (save_state now hosts names t)), sf_tmp = x\<rparr> NewTracker = (Inr (), restarted now' t)"
proof -
  have "fold (\<lambda>p m. m(pe_Host p \<mapsto> load_endpoint now' p)) (ps_Endpoints (save_state now hosts names t)) Map.empty =
      tk_endpoints (restarted now' t)"
    using assms(1,2) by (auto simp: save_state_def fold_walk keys_ok_def save_endpoint_def restarted_def fun_eq_iff
        simp flip: load_save_endpoint)
  moreover have "fold (\<lambda>p m. m(pr_Name p \<mapsto> load_responsibility now' p)) (ps_Responsibilities (save_state now hosts names t)) Map.empty =
      tk_responsibilities (restarted now' t)"
    using assms(1,3) by (auto simp: save_state_def fold_walk keys_ok_def save_responsibility_def restarted_def fun_eq_iff
        simp flip: load_save_responsibility)
  ultimately show ?thesis
    by (simp add: Load_def restarted_def NewTracker_def) (simp add: save_state_def filter_map o_def)
qed


lemma keys_ok_run: "keys_ok (fold apply_op ops NewTracker)"
proof (induction ops rule: rev_induct)
  case (snoc a ops)
  then show ?case
    by (cases a) (auto simp: keys_ok_def IncrPending_def DecrPending_def Record_def Let_def put_endpoint_def put_responsibility_def
      RecordIncomingConnError_def RecordOutgoingConnError_def RecordDuration_def RecordOutcome_def Reset_def
      endpoint_of_def responsibility_of_def endpointStats_prune_def responsibilityStats_prune_def
      reset_endpoint_def reset_responsibility_def split: option.splits if_splits)
qed (simp add: keys_ok_def NewTracker_def)

lemma filter_young_sorted:
  "sorted_wrt (\<lambda>a b. stamp a \<le> stamp b) es \<Longrightarrow> filter (\<lambda>e. young now (stamp e)) es = prune_before stamp now es"
proof (induction es)
  case (Cons e es)
  show ?case
  proof (cases "young now (stamp e)")
    case True
    with Cons.prems have "\<forall>x \<in> set es. young now (stamp x)" by (auto simp: young_def)
    with True show ?thesis by (simp add: prune_before_def filter_True) (simp add: young_def)
  next
    case False
    with Cons show ?thesis by (simp add: prune_before_def young_def)
  qed
qed (simp add: prune_before_def)

lemma tracks_young:
  assumes "tracks stamp now es hist"
  shows "tracks stamp now (filter (\<lambda>e. young now (stamp e)) es) hist"
proof -
  have "sorted_wrt (\<lambda>a b. stamp a \<le> stamp b) es" using assms by (auto simp: tracks_def sorted_wrt_append)
  then show ?thesis using tracks_prune [OF assms] by (simp add: filter_young_sorted)
qed

text \<open>
  C13: a restart loses no statistics. For a tracker that has gone through any sequence of operations, a
  successful \<open>Save\<close> followed by \<open>Load\<close> in a new process gives the same tracker with nothing in flight and
  with the events past the retention dropped; and while the clock does not go back, each host shows
  after the restart the same tokens and requests of the last hour, of the last day and in total.
\<close>

theorem restart_keeps_statistics:
  assumes "set hosts = dom (tk_endpoints (fold apply_op ops NewTracker))"
    and "set names = dom (tk_responsibilities (fold apply_op ops NewTracker))"
    and "chronological ops now'"
  shows "Load True now' (snd (Save \<lparr>io_write = True, io_rename = True\<rparr> now hosts names (fold apply_op ops NewTracker) f)) NewTracker =
       (Inr (), restarted now' (fold apply_op ops NewTracker)) \<and>
    (\<forall>s \<in> set (sr_Endpoints (Snapshot now' hosts names g (restarted now' (fold apply_op ops NewTracker)))).
       [sn_TokensLastHour s, sn_RequestsLastHour s, sn_TokensLastDay s, sn_RequestsLastDay s, sn_TokensTotal s,
        sn_RequestsTotal s] = numbers now' (fold (host_event (sn_Host s)) ops []))"
proof (intro conjI ballI)
  let ?t = "fold apply_op ops NewTracker"
  show "Load True now' (snd (Save \<lparr>io_write = True, io_rename = True\<rparr> now hosts names ?t f)) NewTracker = (Inr (), restarted now' ?t)"
    using load_save_state [OF keys_ok_run assms(1,2)] by (cases f) (simp add: Save_def)
  fix s assume "s \<in> set (sr_Endpoints (Snapshot now' hosts names g (restarted now' ?t)))"
  then obtain h es where h: "tk_endpoints ?t h = Some es"
    "s = endpoint_snapshot now' h (es\<lparr>ep_events := filter (\<lambda>e. young now' (re_at e)) (ep_events es), ep_pending := 0\<rparr>)"
    by (auto simp: Snapshot_def Let_def walk_map_def in_set_map_filter restarted_def split: prod.splits)
  let ?es = "es\<lparr>ep_events := filter (\<lambda>e. young now' (re_at e)) (ep_events es), ep_pending := 0\<rparr>"
  have "tracks re_at now' (ep_events es) (fold (host_event h) ops [])" "ep_total es = totals (fold (host_event h) ops [])"
    using host_tracks [OF assms(3), of h "[]"] h(1) by (simp_all add: endpoint_of_def)
  then have "tracks re_at now' (ep_events ?es) (fold (host_event h) ops [])" "ep_total ?es = totals (fold (host_event h) ops [])"
    using tracks_young by simp_all
  moreover have "sn_Host s = h" using h(2) by (simp add: endpoint_snapshot_def split: prod.splits)
  ultimately show "[sn_TokensLastHour s, sn_RequestsLastHour s, sn_TokensLastDay s, sn_RequestsLastDay s, sn_TokensTotal s,
        sn_RequestsTotal s] = numbers now' (fold (host_event (sn_Host s)) ops [])"
    using endpoint_snapshot_numbers h(2) by metis
qed

theorem restart_keeps_statistics_witness:
  "Load True (27 * hour) (snd (Save \<lparr>io_write = True, io_rename = True\<rparr> 0 [''a''] [''patching'']
       (fold apply_op demo_ops NewTracker) \<lparr>sf_main = None, sf_tmp = None\<rparr>)) NewTracker =
     (Inr (), restarted (27 * hour) (fold apply_op demo_ops NewTracker))"
proof -
  have "set [''a''] = dom (tk_endpoints (fold apply_op demo_ops NewTracker))"
    "set [''patching''] = dom (tk_responsibilities (fold apply_op demo_ops NewTracker))"
    by (auto simp: demo_ops_def Record_def RecordIncomingConnError_def Let_def put_endpoint_def put_responsibility_def
        NewTracker_def)
  moreover have "chronological demo_ops (27 * hour)" by code_simp
  ultimately show ?thesis by (rule restart_keeps_statistics [THEN conjunct1])
qed

section \<open>Captured responses\<close>

text \<open>Everything the tee writes into the capture, chunk by chunk.\<close>

definition capture :: "nat \<Rightarrow> string list \<Rightarrow> string \<Rightarrow> string" where
  "capture mx ps buf = fold (\<lambda>p buf. fst (limitedCapture_Write mx buf p)) ps buf"

lemma limitedCapture_Write_take:
  "length buf \<le> mx \<Longrightarrow> limitedCapture_Write mx buf p = (take mx (buf @ p), length p)"
  by (auto simp: limitedCapture_Write_def Let_def take_append nat_diff_distrib)

text \<open>
  The capture of a streamed response is the first bytes of it. However the response is cut into chunks,
  the buffer holds the longest prefix of the whole stream that fits in the limit, and every chunk is
  reported as fully written, so that the copy to the client is never cut short by the capture.
\<close>

theorem capture_is_prefix:
  "capture mx ps [] = take mx (concat ps) \<and> (\<forall>buf p. snd (limitedCapture_Write mx buf p) = length p)"
proof
  have "length buf \<le> mx \<Longrightarrow> capture mx ps buf = take mx (buf @ concat ps)" for buf
  proof (induction ps arbitrary: buf)
    case (Cons p ps)
    have "capture mx (p # ps) buf = capture mx ps (take mx (buf @ p))"
      using Cons.prems by (simp add: capture_def limitedCapture_Write_take)
    also have "\<dots> = take mx (take mx (buf @ p) @ concat ps)" by (intro Cons.IH) simp
    also have "\<dots> = take mx (buf @ concat (p # ps))" by (simp add: take_append min_def)
    finally show ?case .
  qed (simp add: capture_def)
  from this [of "[]"] show "capture mx ps [] = take mx (concat ps)" by simp
qed (simp add: limitedCapture_Write_def Let_def)

end
