(* ===== verification/Gateway.thy ===== *)
theory Gateway
  imports Gateway_Persist
begin

text \<open>
  The model gateway, \<open>src/llm-gateway\<close>: its configuration (\<open>config.go\<close>), the bearer check (\<open>main.go\<close>) and
  the request-local parts of \<open>gateway.go\<close>: model substitution, the client's host, what \<open>forward\<close> sends
  upstream, returns to the client and records, the health endpoints and the reset. The queues and the
  goroutines are in \<open>Gateway_System\<close>. \<open>dur\<close> is \<open>time.ParseDuration\<close>.
\<close>

section \<open>Configuration\<close>

record Config =
  cf_ListenAddr :: string
  cf_UpstreamURL :: string
  cf_UpstreamModel :: string
  cf_MaxConcurrency :: int
  cf_MaxQueueDepth :: int
  cf_PriorityQueueDepth :: int
  cf_RequestTimeout :: duration
  cf_AuthToken :: string
  cf_DataFile :: string
  cf_SaveInterval :: duration

text \<open>The environment maps a variable to its value; unset variables are empty.\<close>

definition envStr :: "(string \<Rightarrow> string) \<Rightarrow> string \<Rightarrow> string \<Rightarrow> string" where
  "envStr env key def = (if env key \<noteq> [] then env key else def)"

definition envInt :: "(string \<Rightarrow> string) \<Rightarrow> string \<Rightarrow> int \<Rightarrow> int" where
  "envInt env key def = (if env key = [] then def else case parse_int64 (env key) of None \<Rightarrow> def | Some n \<Rightarrow> n)"

definition envDur :: "(string \<Rightarrow> duration option) \<Rightarrow> (string \<Rightarrow> string) \<Rightarrow> string \<Rightarrow> duration \<Rightarrow> duration" where
  "envDur dur env key def = (if env key = [] then def else case dur (env key) of None \<Rightarrow> def | Some d \<Rightarrow> d)"

definition LoadConfig :: "(string \<Rightarrow> duration option) \<Rightarrow> (string \<Rightarrow> string) \<Rightarrow> Config result" where
  "LoadConfig dur env =
     (let cfg = \<lparr>cf_ListenAddr = envStr env ''GATEWAY_LISTEN_ADDR'' '':8080'',
                 cf_UpstreamURL = envStr env ''GATEWAY_UPSTREAM_URL'' [],
                 cf_UpstreamModel = envStr env ''GATEWAY_UPSTREAM_MODEL'' [],
                 cf_MaxConcurrency = envInt env ''GATEWAY_MAX_CONCURRENCY'' 2,
                 cf_MaxQueueDepth = envInt env ''GATEWAY_MAX_QUEUE_DEPTH'' 50,
                 cf_PriorityQueueDepth = envInt env ''GATEWAY_PRIORITY_QUEUE_DEPTH'' 10,
                 cf_RequestTimeout = envDur dur env ''GATEWAY_REQUEST_TIMEOUT'' (5 * minute),
                 cf_AuthToken = envStr env ''GATEWAY_AUTH_TOKEN'' [],
                 cf_DataFile = envStr env ''GATEWAY_DATA_FILE'' [],
                 cf_SaveInterval = envDur dur env ''GATEWAY_SAVE_INTERVAL'' (60 * second)\<rparr>
      in if cf_UpstreamURL cfg = [] then Inl (Invalid ''GATEWAY_UPSTREAM_URL is required'')
         else if cf_MaxConcurrency cfg < 1 then Inl (Invalid ''GATEWAY_MAX_CONCURRENCY must be >= 1'')
         else if cf_MaxQueueDepth cfg < 0 then Inl (Invalid ''GATEWAY_MAX_QUEUE_DEPTH must be >= 0'')
         else if cf_RequestTimeout cfg \<le> 0 then Inl (Invalid ''GATEWAY_REQUEST_TIMEOUT must be positive'')
         else Inr cfg)"

section \<open>Requests\<close>

record http_request =
  hq_method :: string
  hq_path :: string
  hq_query :: string
  hq_headers :: "(string \<times> string list) list"
  hq_remote :: string
  hq_body :: "string option"                  \<comment> \<open>\<open>None\<close>: reading the body failed\<close>

text \<open>\<open>Header.Get\<close>: the first value, empty when there is none. Keys are canonical on both sides.\<close>

definition header_get :: "(string \<times> string list) list \<Rightarrow> string \<Rightarrow> string" where
  "header_get hs k = (case map_of hs k of Some (v # _) \<Rightarrow> v | _ \<Rightarrow> [])"

text \<open>\<open>requireBearer\<close>: whether the request is passed on; it is answered with 401 otherwise.\<close>

definition requireBearer :: "string \<Rightarrow> http_request \<Rightarrow> bool" where
  "requireBearer token r =
     (if hq_method r = ''GET'' \<and> (hq_path r = ''/health'' \<or> hq_path r = ''/health/ready'') then True
      else if token = [] then True
      else
        let hdr = header_get (hq_headers r) ''Authorization''
        in HasPrefix hdr ''Bearer '' \<and> drop (length ''Bearer '') hdr = token)"

text \<open>\<open>net.SplitHostPort\<close>, the host part.\<close>

fun last_index :: "char \<Rightarrow> string \<Rightarrow> nat option" where
  "last_index c [] = None"
| "last_index c (x # xs) = (case last_index c xs of Some i \<Rightarrow> Some (Suc i) | None \<Rightarrow> if x = c then Some 0 else None)"

definition SplitHostPort :: "string \<Rightarrow> string option" where
  "SplitHostPort hp =
     (case last_index CHR '':'' hp of
        None \<Rightarrow> None
      | Some i \<Rightarrow>
          if hp \<noteq> [] \<and> hd hp = CHR 0x5B then
            (case index_byte CHR 0x5D hp of
               None \<Rightarrow> None
             | Some e \<Rightarrow>
                 if e + 1 \<noteq> i then None
                 else if CHR 0x5B \<in> set (drop 1 hp) \<or> CHR 0x5D \<in> set (drop (e + 1) hp) then None
                 else Some (take (e - 1) (drop 1 hp)))
          else
            let host = take i hp in
            if CHR '':'' \<in> set host \<or> CHR 0x5B \<in> set hp \<or> CHR 0x5D \<in> set hp then None else Some host)"

definition clientHost :: "http_request \<Rightarrow> string" where
  "clientHost r =
     (let fwd = header_get (hq_headers r) ''X-Forwarded-For'' in
      if fwd \<noteq> [] then
        TrimSpace (case index_byte CHR 0x2C fwd of Some i \<Rightarrow> take i fwd | None \<Rightarrow> fwd)
      else case SplitHostPort (hq_remote r) of None \<Rightarrow> hq_remote r | Some h \<Rightarrow> h)"

definition llmmodel_Default :: string where "llmmodel_Default = ''DEFAULT''"

definition resolveModel :: "string \<Rightarrow> string \<Rightarrow> string" where
  "resolveModel upstreamModel body =
     (if upstreamModel = [] then body
      else
        case raw_object body of
          None \<Rightarrow> body
        | Some flds \<Rightarrow>
            (case raw_lookup ''model'' flds of
               None \<Rightarrow> body
             | Some raw \<Rightarrow>
                 (case Option.bind (parse_json raw) (as_string []) of
                    None \<Rightarrow> body
                  | Some model \<Rightarrow>
                      if model \<noteq> llmmodel_Default then body
                      else marshal_raw_object (raw_update ''model'' (quote_json upstreamModel) flds))))"

section \<open>Forwarding\<close>

definition hopByHopHeaders :: "string list" where
  "hopByHopHeaders = [''Connection'', ''Keep-Alive'', ''Proxy-Authenticate'', ''Proxy-Authorization'', ''Te'',
     ''Trailers'', ''Transfer-Encoding'', ''Upgrade'']"

definition copy_headers :: "(string \<times> string list) list \<Rightarrow> (string \<times> string list) list" where
  "copy_headers hs = filter (\<lambda>h. fst h \<notin> set hopByHopHeaders) hs"

text \<open>What a queued request carries.\<close>

record pending_data =
  pn_method :: string
  pn_path :: string
  pn_query :: string
  pn_headers :: "(string \<times> string list) list"
  pn_body :: string
  pn_host :: string
  pn_name :: string
  pn_responsibility :: string
  pn_interactive :: bool
  pn_submittedAt :: instant

definition new_pending :: "string \<Rightarrow> instant \<Rightarrow> http_request \<Rightarrow> string \<Rightarrow> pending_data" where
  "new_pending upstreamModel now r body =
     \<lparr>pn_method = hq_method r, pn_path = hq_path r, pn_query = hq_query r, pn_headers = hq_headers r,
      pn_body = resolveModel upstreamModel body, pn_host = clientHost r,
      pn_name = header_get (hq_headers r) ''X-Agent-Name'',
      pn_responsibility = header_get (hq_headers r) ''X-Responsibility'',
      pn_interactive = (header_get (hq_headers r) ''X-Priority'' = ''interactive''), pn_submittedAt = now\<rparr>"

text \<open>What \<open>ServeHTTP\<close> does with a request before the queues: the endpoint it answers inline, or the request to queue.\<close>

datatype route =
    ToHealth | ToReady | ToStats | ToHistory | ToPending | ToReset
  | BadBody                                    \<comment> \<open>400\<close>
  | ToQueue pending_data

definition route_request :: "string \<Rightarrow> instant \<Rightarrow> http_request \<Rightarrow> route" where
  "route_request upstreamModel now r =
     (if hq_method r = ''GET'' \<and> hq_path r = ''/health'' then ToHealth
      else if hq_method r = ''GET'' \<and> hq_path r = ''/health/ready'' then ToReady
      else if hq_method r = ''GET'' \<and> hq_path r = ''/stats'' then ToStats
      else if hq_method r = ''GET'' \<and> hq_path r = ''/stats/history'' then ToHistory
      else if hq_method r = ''GET'' \<and> hq_path r = ''/pending'' then ToPending
      else if hq_method r = ''DELETE'' \<and> hq_path r = ''/stats'' then ToReset
      else case hq_body r of
             None \<Rightarrow> BadBody
           | Some body \<Rightarrow> ToQueue (new_pending upstreamModel now r body))"

record upstream_request =
  up_method :: string
  up_path :: string
  up_query :: string
  up_headers :: "(string \<times> string list) list"
  up_body :: string

definition build_upstream :: "pending_data \<Rightarrow> upstream_request" where
  "build_upstream p = \<lparr>up_method = pn_method p, up_path = pn_path p, up_query = pn_query p,
     up_headers = copy_headers (pn_headers p), up_body = pn_body p\<rparr>"

datatype do_error = DeadlineExceeded | ContextCanceled | TransportError string

text \<open>
  What the upstream side of one request does: the request cannot be built, the call fails, or a response
  arrives, whose body is read in chunks. \<open>gone\<close> is the number of the chunk whose write to the client fails.
\<close>

datatype upstream_result =
    BuildFailed
  | DoFailed do_error
  | Responded (rs_status: int) (rs_headers: "(string \<times> string list) list") (rs_chunks: "string list") (rs_gone: "nat option")

record client_reply =
  cl_status :: int
  cl_headers :: "(string \<times> string list) list"
  cl_body :: string

definition maxCaptureBytes :: nat where "maxCaptureBytes = 256 * 1024"

text \<open>The copy loop: bytes written to the client, bytes captured, whether the client went away.\<close>

fun copy_loop :: "string list \<Rightarrow> nat option \<Rightarrow> string \<Rightarrow> string \<Rightarrow> string \<times> string \<times> bool" where
  "copy_loop [] gone out buf = (out, buf, False)"
| "copy_loop (c # cs) gone out buf =
     (let buf = fst (limitedCapture_Write maxCaptureBytes buf c) in
      if c = [] then copy_loop cs gone out buf
      else case gone of
             Some 0 \<Rightarrow> (out, buf, True)
           | Some (Suc n) \<Rightarrow> copy_loop cs (Some n) (out @ c) buf
           | None \<Rightarrow> copy_loop cs None (out @ c) buf)"

record forward_result =
  fw_reply :: "client_reply option"           \<comment> \<open>\<open>None\<close>: nothing was written\<close>
  fw_success :: bool
  fw_tokens :: int64
  fw_ops :: "tracker_op list"                 \<comment> \<open>what the body records in the tracker\<close>

definition error_reply :: "int \<Rightarrow> string \<Rightarrow> client_reply" where
  "error_reply st msg = \<lparr>cl_status = st, cl_headers = [], cl_body = msg @ nl\<rparr>"

text \<open>
  The body of \<open>forward\<close>, without its deferred function: \<open>was\<close> is whether the request was cancelled before it
  was dispatched, \<open>start\<close> and \<open>done\<close> are the clock readings around the call.
\<close>

definition forward_body :: "bool \<Rightarrow> instant \<Rightarrow> instant \<Rightarrow> pending_data \<Rightarrow> upstream_result \<Rightarrow> forward_result" where
  "forward_body was start fin p u =
     (if was then \<lparr>fw_reply = None, fw_success = False, fw_tokens = 0, fw_ops = [IncomingOp start]\<rparr>
      else
        case u of
          BuildFailed \<Rightarrow>
            \<lparr>fw_reply = Some (error_reply 500 ''gateway: internal error''), fw_success = True, fw_tokens = 0, fw_ops = []\<rparr>
        | DoFailed DeadlineExceeded \<Rightarrow>
            \<lparr>fw_reply = Some (error_reply 504 ''gateway: upstream timed out''), fw_success = False, fw_tokens = 0,
             fw_ops = [OutgoingOp fin]\<rparr>
        | DoFailed ContextCanceled \<Rightarrow>
            \<lparr>fw_reply = None, fw_success = False, fw_tokens = 0, fw_ops = [IncomingOp fin]\<rparr>
        | DoFailed (TransportError e) \<Rightarrow>
            \<lparr>fw_reply = Some (error_reply 502 (''gateway: upstream error: '' @ e)), fw_success = False, fw_tokens = 0,
             fw_ops = [OutgoingOp fin]\<rparr>
        | Responded st hs cs gone \<Rightarrow>
            (let (out, buf, left) = copy_loop cs gone [] []
             in \<lparr>fw_reply = Some \<lparr>cl_status = st, cl_headers = copy_headers hs, cl_body = out\<rparr>,
                 fw_success = (st < 400), fw_tokens = extractTokens (header_get hs ''Content-Type'') buf,
                 fw_ops = (if left then [IncomingOp fin] else [DurationOp (pn_submittedAt p) start fin])\<rparr>))"

section \<open>Health\<close>

record modelCheckStatus =
  mc_ok :: bool
  mc_checked :: instant
  mc_err :: string

text \<open>The outcome of \<open>GET /v1/models\<close>: an error, a status, and the ids of the decoded body.\<close>

datatype models_result =
    ModelsBuildError string
  | ModelsError string
  | ModelsStatus int "string list result"

definition checkUpstreamModel :: "(string list \<Rightarrow> string) \<Rightarrow> (error \<Rightarrow> string) \<Rightarrow> string \<Rightarrow> instant \<Rightarrow> models_result \<Rightarrow> modelCheckStatus" where
  "checkUpstreamModel show_ids err_text upstreamModel now r =
     (let fail = (\<lambda>e. \<lparr>mc_ok = False, mc_checked = now, mc_err = e\<rparr>) in
      case r of
        ModelsBuildError e \<Rightarrow> fail (''build upstream models request: '' @ e)
      | ModelsError e \<Rightarrow> fail (''upstream models request failed: '' @ e)
      | ModelsStatus st decoded \<Rightarrow>
          if st \<noteq> 200 then fail (''upstream models request returned '' @ show_int st)
          else (case decoded of
                  Inl e \<Rightarrow> fail (''decode upstream models response: '' @ err_text e)
                | Inr ids \<Rightarrow>
                    if upstreamModel \<noteq> [] \<and> upstreamModel \<notin> set ids
                    then fail (''configured model '' @ upstreamModel @ '' not found in upstream /v1/models '' @ show_ids ids)
                    else \<lparr>mc_ok = True, mc_checked = now, mc_err = []\<rparr>))"

record readyResponse =
  rd_Status :: string
  rd_Upstream :: string
  rd_UpstreamModel :: string
  rd_CheckedAt :: "instant option"
  rd_Error :: string

definition ready :: "string \<Rightarrow> string \<Rightarrow> modelCheckStatus option \<Rightarrow> int \<times> readyResponse" where
  "ready upstream upstreamModel st =
     (case st of
        None \<Rightarrow> (503, \<lparr>rd_Status = ''checking'', rd_Upstream = upstream, rd_UpstreamModel = [], rd_CheckedAt = None, rd_Error = []\<rparr>)
      | Some s \<Rightarrow>
          if \<not> mc_ok s
          then (503, \<lparr>rd_Status = ''unhealthy'', rd_Upstream = upstream, rd_UpstreamModel = upstreamModel,
                      rd_CheckedAt = Some (mc_checked s), rd_Error = mc_err s\<rparr>)
          else (200, \<lparr>rd_Status = ''ok'', rd_Upstream = upstream, rd_UpstreamModel = upstreamModel,
                      rd_CheckedAt = Some (mc_checked s), rd_Error = []\<rparr>))"

record healthResponse =
  hr_Status :: string
  hr_QueueDepth :: int
  hr_QueueCapacity :: int
  hr_PriorityQueueDepth :: int
  hr_PriorityQueueCapacity :: int
  hr_ActiveRequests :: int
  hr_MaxConcurrency :: int
  hr_Upstream :: string
  hr_GhostRequests :: int

definition health :: "gateway_view \<Rightarrow> healthResponse" where
  "health g =
     \<lparr>hr_Status = ''ok'', hr_QueueDepth = int (gv_queue g), hr_QueueCapacity = int (gv_queueCap g),
      hr_PriorityQueueDepth = int (gv_priorityQueue g), hr_PriorityQueueCapacity = int (gv_priorityCap g),
      hr_ActiveRequests = int (gv_sem g), hr_MaxConcurrency = int (gv_semCap g), hr_Upstream = gv_upstream g,
      hr_GhostRequests = sint (gv_ghostNormal g + gv_ghostPriority g)\<rparr>"

section \<open>Reset\<close>

text \<open>\<open>resetStats\<close>: the tracker, the file and the status of the reply.\<close>

definition resetStats ::
    "string \<Rightarrow> save_io \<Rightarrow> instant \<Rightarrow> string list \<Rightarrow> string list \<Rightarrow> Tracker \<Rightarrow> stats_files \<Rightarrow> int \<times> Tracker \<times> stats_files" where
  "resetStats dataFile io now hosts names t f =
     (let t = Reset t in
      if dataFile = [] then (200, t, f)
      else case Save io now hosts names t f of
             (Inl e, f) \<Rightarrow> (500, t, f)
           | (Inr _, f) \<Rightarrow> (200, t, f))"

section \<open>What a request gets and what is counted\<close>

lemma copy_loop_all:
  "length buf \<le> maxCaptureBytes \<Longrightarrow>
     copy_loop cs None out buf = (out @ concat cs, take maxCaptureBytes (buf @ concat cs), False)"
proof (induction cs arbitrary: out buf)
  case (Cons c cs)
  have cap: "fst (limitedCapture_Write maxCaptureBytes buf c) = take maxCaptureBytes (buf @ c)"
    using Cons.prems by (simp add: limitedCapture_Write_take)
  have "take maxCaptureBytes (take maxCaptureBytes (buf @ c) @ concat cs) = take maxCaptureBytes (buf @ c @ concat cs)"
    by (simp add: take_append min_def)
  moreover have "min (length buf) maxCaptureBytes = length buf" using Cons.prems by simp
  ultimately show ?case by (auto simp: Let_def cap Cons.IH)
qed simp

text \<open>
  A response is relayed whole and its usage is counted. While the client stays, whatever the chunks the
  upstream body arrives in, the client gets the upstream status and exactly the upstream bytes, no
  hop-by-hop header travels in either direction, the tokens are read from the first 256 KiB of the body,
  the outcome counts as a success exactly when the status is below 400, and one duration is recorded.
\<close>

theorem response_relayed:
  "case forward_body False start fin p (Responded st hs cs None) of
     r \<Rightarrow> fw_reply r = Some \<lparr>cl_status = st, cl_headers = copy_headers hs, cl_body = concat cs\<rparr> \<and>
       fw_tokens r = extractTokens (header_get hs ''Content-Type'') (take maxCaptureBytes (concat cs)) \<and>
       (fw_success r \<longleftrightarrow> st < 400) \<and> fw_ops r = [DurationOp (pn_submittedAt p) start fin] \<and>
       fst ` set (copy_headers hs) \<inter> set hopByHopHeaders = {} \<and>
       fst ` set (up_headers (build_upstream p)) \<inter> set hopByHopHeaders = {} \<and>
       up_body (build_upstream p) = pn_body p"
  by (auto simp: forward_body_def copy_loop_all copy_headers_def build_upstream_def)

lemma Reset_doms [simp]:
  "dom (tk_endpoints (Reset t)) = dom (tk_endpoints t)" "dom (tk_responsibilities (Reset t)) = dom (tk_responsibilities t)"
  by (auto simp: Reset_def dom_def)

lemma keys_ok_Reset: "keys_ok t \<Longrightarrow> keys_ok (Reset t)"
  by (auto simp: keys_ok_def Reset_def reset_endpoint_def reset_responsibility_def)

text \<open>
  C14: a reset that reports success is durable and one that fails is not. The counters in memory are zeroed in
  both cases while the numbers of requests in flight are kept; after a reply 200 a restarted gateway has
  the zeroed statistics, and after a reply 500 it has what it would have had without the reset.
\<close>

theorem reset_outcomes:
  assumes "keys_ok t" "set hosts = dom (tk_endpoints t)" "set names = dom (tk_responsibilities t)" "dataFile \<noteq> []"
  shows "case resetStats dataFile io now hosts names t f of
     (st, t', f') \<Rightarrow>
       t' = Reset t \<and> (\<forall>h. map_option ep_pending (tk_endpoints t' h) = map_option ep_pending (tk_endpoints t h)) \<and>
       (st = 200 \<and> Load True now' f' NewTracker = (Inr (), restarted now' (Reset t)) \<or>
        st = 500 \<and> Load True now' f' NewTracker = Load True now' f NewTracker)"
proof -
  have "map_option ep_pending (tk_endpoints (Reset t) h) = map_option ep_pending (tk_endpoints t h)" for h
    by (simp add: Reset_def reset_endpoint_def option.map_comp comp_def)
  moreover have "Load True now' (f\<lparr>sf_main := Some (Text (save_state now hosts names (Reset t))), sf_tmp := None\<rparr>) NewTracker =
      (Inr (), restarted now' (Reset t))"
    using load_save_state [OF keys_ok_Reset [OF assms(1)]] assms(2,3) by (cases f) simp
  ultimately show ?thesis
    using assms(4) by (auto simp: resetStats_def Let_def Save_def Load_def)
qed

theorem reset_outcomes_witness:
  "case resetStats ''stats.json'' \<lparr>io_write = True, io_rename = False\<rparr> 1 [] [] NewTracker \<lparr>sf_main = Some Broken, sf_tmp = None\<rparr> of
     (st, t', f') \<Rightarrow> st = 500 \<and> Load True 2 f' NewTracker = (Inl Corrupt, NewTracker)"
proof -
  have "keys_ok NewTracker" "set [] = dom (tk_endpoints NewTracker)" "set [] = dom (tk_responsibilities NewTracker)"
    by (auto simp: keys_ok_def NewTracker_def)
  from reset_outcomes [OF this, where dataFile = "''stats.json''" and io = "\<lparr>io_write = True, io_rename = False\<rparr>" and now = 1
      and f = "\<lparr>sf_main = Some Broken, sf_tmp = None\<rparr>" and now' = 2]
  have "case resetStats ''stats.json'' \<lparr>io_write = True, io_rename = False\<rparr> 1 [] [] NewTracker \<lparr>sf_main = Some Broken, sf_tmp = None\<rparr> of
     (st, t', f') \<Rightarrow> st = 200 \<and> Load True 2 f' NewTracker = (Inr (), restarted 2 (Reset NewTracker)) \<or>
       st = 500 \<and> Load True 2 f' NewTracker = Load True 2 \<lparr>sf_main = Some Broken, sf_tmp = None\<rparr> NewTracker"
    by (auto split: prod.splits)
  moreover have "fst (resetStats ''stats.json'' \<lparr>io_write = True, io_rename = False\<rparr> 1 [] [] NewTracker
      \<lparr>sf_main = Some Broken, sf_tmp = None\<rparr>) = 500" by (simp add: resetStats_def Save_def Let_def)
  moreover have "Load True 2 \<lparr>sf_main = Some Broken, sf_tmp = None\<rparr> NewTracker = (Inl Corrupt, NewTracker)"
    by (simp add: Load_def)
  ultimately show ?thesis by (auto split: prod.splits)
qed

end
