(* ===== verification/Gateway_System.thy ===== *)
theory Gateway_System
  imports Gateway
begin

text \<open>
  The goroutines of \<open>src/llm-gateway/gateway.go\<close>: one handler per request (\<open>ServeHTTP\<close>), the dispatcher, and
  one \<open>forward\<close> per dispatched request, sharing two bounded channels, the semaphore, the ghost counters
  and the tracker. Each operation below is one atomic step of one goroutine: a channel operation, an
  atomic load, store or compare-and-swap, or one critical section of the tracker. The step relation lets
  them interleave in any order.
\<close>

section \<open>State\<close>

text \<open>
  Where the handler and the \<open>forward\<close> of a request stand. The flags of the last phases record which of the two
  won the compare-and-swap on \<open>pendingDecremented\<close>; the code does not store them.
\<close>

datatype handler_phase =
    HSent                 \<comment> \<open>sent on the channel, \<open>IncrPending\<close> not yet called\<close>
  | HWaiting              \<comment> \<open>in the inner \<open>select\<close>\<close>
  | HCancelled            \<comment> \<open>\<open>cancelled\<close> stored\<close>
  | HWon                  \<comment> \<open>compare-and-swap won\<close>
  | HDecremented          \<comment> \<open>\<open>DecrPending\<close> called\<close>
  | HReturned bool

datatype forward_phase =
    FQueued
  | FTaken                \<comment> \<open>goroutine started\<close>
  | FRunning bool         \<comment> \<open>\<open>wasAlreadyCancelled\<close> read\<close>
  | FDeferred bool bool int64     \<comment> \<open>deferred function entered: cancelled before dispatch, success, tokens\<close>
  | FRecorded
  | FWon
  | FLost
  | FClosing bool
  | FReleasing bool       \<comment> \<open>\<open>done\<close> closed\<close>
  | FDone bool

record req =
  rq_data :: pending_data
  rq_handler :: handler_phase
  rq_forward :: forward_phase
  rq_cancelled :: bool
  rq_decremented :: bool

datatype dispatcher_phase = DAcquire | DStage1 | DStage2 | DParked

record gcfg =
  gc_priorityCap :: nat
  gc_queueCap :: nat
  gc_semCap :: nat
  gc_upstream :: string
  gc_upstreamModel :: string

text \<open>Requests are numbered by their position; a queue holds numbers.\<close>

record gw =
  gw_priorityQueue :: "nat list"
  gw_queue :: "nat list"
  gw_sem :: nat
  gw_disp :: dispatcher_phase
  gw_reqs :: "req list"
  gw_ghostNormal :: int64
  gw_ghostPriority :: int64
  gw_tracker :: Tracker

definition gw_init :: "Tracker \<Rightarrow> gw" where
  "gw_init t = \<lparr>gw_priorityQueue = [], gw_queue = [], gw_sem = 0, gw_disp = DAcquire, gw_reqs = [],
     gw_ghostNormal = 0, gw_ghostPriority = 0, gw_tracker = t\<rparr>"

definition req_id :: "nat \<Rightarrow> string" where
  "req_id i = ''req-'' @ show_int (int i + 1)"

definition view :: "gcfg \<Rightarrow> gw \<Rightarrow> gateway_view" where
  "view c g = \<lparr>gv_queue = length (gw_queue g), gv_priorityQueue = length (gw_priorityQueue g), gv_sem = gw_sem g,
     gv_queueCap = gc_queueCap c, gv_priorityCap = gc_priorityCap c, gv_semCap = gc_semCap c,
     gv_ghostNormal = gw_ghostNormal g, gv_ghostPriority = gw_ghostPriority g, gv_upstream = gc_upstream c,
     gv_upstreamModel = gc_upstreamModel c\<rparr>"

definition upd :: "nat \<Rightarrow> (req \<Rightarrow> req) \<Rightarrow> gw \<Rightarrow> gw" where
  "upd i f g = g\<lparr>gw_reqs := (gw_reqs g)[i := f (gw_reqs g ! i)]\<rparr>"

section \<open>The handler\<close>

definition new_req :: "pending_data \<Rightarrow> forward_phase \<Rightarrow> req" where
  "new_req p f = \<lparr>rq_data = p, rq_handler = HSent, rq_forward = f, rq_cancelled = False, rq_decremented = False\<rparr>"

text \<open>
  The outer \<open>select\<close>: the send succeeds at once when the dispatcher is parked in its receive, which then takes
  the request, or when the channel has room; otherwise the request is answered with 429.
\<close>

definition arrive :: "gcfg \<Rightarrow> pending_data \<Rightarrow> gw \<Rightarrow> bool \<times> gw" where
  "arrive c p g =
     (let i = length (gw_reqs g) in
      if gw_disp g = DParked then
        (True, g\<lparr>gw_reqs := gw_reqs g @ [new_req p FTaken], gw_disp := DAcquire\<rparr>)
      else if pn_interactive p then
        (if length (gw_priorityQueue g) < gc_priorityCap c
         then (True, g\<lparr>gw_reqs := gw_reqs g @ [new_req p FQueued], gw_priorityQueue := gw_priorityQueue g @ [i]\<rparr>)
         else (False, g))
      else
        (if length (gw_queue g) < gc_queueCap c
         then (True, g\<lparr>gw_reqs := gw_reqs g @ [new_req p FQueued], gw_queue := gw_queue g @ [i]\<rparr>)
         else (False, g)))"

definition add_ghost :: "bool \<Rightarrow> int64 \<Rightarrow> gw \<Rightarrow> gw" where
  "add_ghost interactive n g =
     (if interactive then g\<lparr>gw_ghostPriority := gw_ghostPriority g + n\<rparr> else g\<lparr>gw_ghostNormal := gw_ghostNormal g + n\<rparr>)"

text \<open>The steps of the handler after the send; each returns \<open>None\<close> when the handler of \<open>i\<close> is elsewhere.\<close>

definition h_incr :: "nat \<Rightarrow> gw \<Rightarrow> gw option" where
  "h_incr i g =
     (let r = gw_reqs g ! i; p = rq_data r in
      if rq_handler r = HSent
      then Some (upd i (rq_handler_update (\<lambda>_. HWaiting))
             (g\<lparr>gw_tracker := IncrPending (pn_host p) (pn_name p) (pn_responsibility p) (req_id i) (pn_body p)
                               (pn_submittedAt p) (pn_interactive p) (gw_tracker g)\<rparr>))
      else None)"

definition closed :: "forward_phase \<Rightarrow> bool" where
  "closed f = (case f of FReleasing _ \<Rightarrow> True | FDone _ \<Rightarrow> True | _ \<Rightarrow> False)"

definition h_done :: "nat \<Rightarrow> gw \<Rightarrow> gw option" where
  "h_done i g =
     (let r = gw_reqs g ! i in
      if rq_handler r = HWaiting \<and> closed (rq_forward r)
      then Some (upd i (rq_handler_update (\<lambda>_. HReturned False)) g) else None)"

definition h_cancel :: "nat \<Rightarrow> gw \<Rightarrow> gw option" where
  "h_cancel i g =
     (if rq_handler (gw_reqs g ! i) = HWaiting
      then Some (upd i (\<lambda>r. r\<lparr>rq_handler := HCancelled, rq_cancelled := True\<rparr>) g) else None)"

definition h_cas :: "nat \<Rightarrow> gw \<Rightarrow> gw option" where
  "h_cas i g =
     (let r = gw_reqs g ! i in
      if rq_handler r = HCancelled
      then Some (upd i (\<lambda>r. if rq_decremented r then r\<lparr>rq_handler := HReturned False\<rparr>
                            else r\<lparr>rq_decremented := True, rq_handler := HWon\<rparr>) g)
      else None)"

definition h_decr :: "nat \<Rightarrow> gw \<Rightarrow> gw option" where
  "h_decr i g =
     (let r = gw_reqs g ! i in
      if rq_handler r = HWon
      then Some (upd i (rq_handler_update (\<lambda>_. HDecremented))
             (g\<lparr>gw_tracker := DecrPending (pn_host (rq_data r)) (req_id i) (gw_tracker g)\<rparr>))
      else None)"

definition h_ghost :: "nat \<Rightarrow> gw \<Rightarrow> gw option" where
  "h_ghost i g =
     (let r = gw_reqs g ! i in
      if rq_handler r = HDecremented
      then Some (upd i (rq_handler_update (\<lambda>_. HReturned True)) (add_ghost (pn_interactive (rq_data r)) 1 g))
      else None)"

section \<open>The dispatcher\<close>

definition d_acquire :: "gcfg \<Rightarrow> gw \<Rightarrow> gw option" where
  "d_acquire c g =
     (if gw_disp g = DAcquire \<and> gw_sem g < gc_semCap c then Some (g\<lparr>gw_sem := gw_sem g + 1, gw_disp := DStage1\<rparr>) else None)"

definition start :: "nat \<Rightarrow> gw \<Rightarrow> gw" where
  "start i g = upd i (rq_forward_update (\<lambda>_. FTaken)) (g\<lparr>gw_disp := DAcquire\<rparr>)"

definition d_stage1 :: "gw \<Rightarrow> gw option" where
  "d_stage1 g =
     (if gw_disp g = DStage1 then
        (case gw_priorityQueue g of
           i # q \<Rightarrow> Some (start i (g\<lparr>gw_priorityQueue := q\<rparr>))
         | [] \<Rightarrow> Some (g\<lparr>gw_disp := DStage2\<rparr>))
      else None)"

text \<open>The blocking \<open>select\<close>: when both channels are ready the choice is the runtime's.\<close>

definition d_stage2 :: "bool \<Rightarrow> gw \<Rightarrow> gw option" where
  "d_stage2 prefer_priority g =
     (if gw_disp g = DStage2 then
        (case (gw_priorityQueue g, gw_queue g) of
           ([], []) \<Rightarrow> Some (g\<lparr>gw_disp := DParked\<rparr>)
         | (i # q, []) \<Rightarrow> Some (start i (g\<lparr>gw_priorityQueue := q\<rparr>))
         | ([], i # q) \<Rightarrow> Some (start i (g\<lparr>gw_queue := q\<rparr>))
         | (i # q, j # q') \<Rightarrow>
             Some (if prefer_priority then start i (g\<lparr>gw_priorityQueue := q\<rparr>) else start j (g\<lparr>gw_queue := q'\<rparr>)))
      else None)"

section \<open>Forwarding\<close>

definition f_load :: "nat \<Rightarrow> gw \<Rightarrow> gw option" where
  "f_load i g =
     (let r = gw_reqs g ! i in
      if rq_forward r = FTaken then Some (upd i (rq_forward_update (\<lambda>_. FRunning (rq_cancelled r))) g) else None)"

definition f_body :: "nat \<Rightarrow> instant \<Rightarrow> instant \<Rightarrow> upstream_result \<Rightarrow> gw \<Rightarrow> gw option" where
  "f_body i t0 t1 u g =
     (let r = gw_reqs g ! i in
      case rq_forward r of
        FRunning was \<Rightarrow>
          (let res = forward_body was t0 t1 (rq_data r) u
           in Some (upd i (rq_forward_update (\<lambda>_. FDeferred was (fw_success res) (fw_tokens res)))
                (g\<lparr>gw_tracker := fold apply_op (fw_ops res) (gw_tracker g)\<rparr>)))
      | _ \<Rightarrow> None)"

definition f_record :: "nat \<Rightarrow> instant \<Rightarrow> instant \<Rightarrow> gw \<Rightarrow> gw option" where
  "f_record i t0 t1 g =
     (let r = gw_reqs g ! i; p = rq_data r in
      case rq_forward r of
        FDeferred was success tokens \<Rightarrow>
          (let t = RecordOutcome t0 success (gw_tracker g);
               t = (if was then t else Record t1 (pn_host p) (pn_name p) (pn_responsibility p) tokens t)
           in Some (upd i (rq_forward_update (\<lambda>_. FRecorded)) (g\<lparr>gw_tracker := t\<rparr>)))
      | _ \<Rightarrow> None)"

definition f_cas :: "nat \<Rightarrow> gw \<Rightarrow> gw option" where
  "f_cas i g =
     (if rq_forward (gw_reqs g ! i) = FRecorded
      then Some (upd i (\<lambda>r. if rq_decremented r then r\<lparr>rq_forward := FLost\<rparr>
                            else r\<lparr>rq_decremented := True, rq_forward := FWon\<rparr>) g)
      else None)"

definition f_settle :: "nat \<Rightarrow> gw \<Rightarrow> gw option" where
  "f_settle i g =
     (let r = gw_reqs g ! i in
      case rq_forward r of
        FWon \<Rightarrow> Some (upd i (rq_forward_update (\<lambda>_. FClosing True))
                  (g\<lparr>gw_tracker := DecrPending (pn_host (rq_data r)) (req_id i) (gw_tracker g)\<rparr>))
      | FLost \<Rightarrow> Some (upd i (rq_forward_update (\<lambda>_. FClosing False)) (add_ghost (pn_interactive (rq_data r)) (-1) g))
      | _ \<Rightarrow> None)"

definition f_close :: "nat \<Rightarrow> gw \<Rightarrow> gw option" where
  "f_close i g =
     (case rq_forward (gw_reqs g ! i) of
        FClosing won \<Rightarrow> Some (upd i (rq_forward_update (\<lambda>_. FReleasing won)) g)
      | _ \<Rightarrow> None)"

definition f_release :: "nat \<Rightarrow> gw \<Rightarrow> gw option" where
  "f_release i g =
     (case rq_forward (gw_reqs g ! i) of
        FReleasing won \<Rightarrow> Some (upd i (rq_forward_update (\<lambda>_. FDone won)) (g\<lparr>gw_sem := gw_sem g - 1\<rparr>))
      | _ \<Rightarrow> None)"

section \<open>Interleavings\<close>

datatype glabel =
    Arrive pending_data
  | HIncr nat | HDone nat | HCancel nat | HCas nat | HDecr nat | HGhost nat
  | DAcq | DOne | DTwo bool
  | FLoad nat | FBody nat instant instant upstream_result | FRecord nat instant instant | FCas nat | FSettle nat
  | FClose nat | FRelease nat
  | ResetStats

definition on_req :: "nat \<Rightarrow> gw \<Rightarrow> gw option \<Rightarrow> gw option" where
  "on_req i g r = (if i < length (gw_reqs g) then r else None)"

fun gstep :: "gcfg \<Rightarrow> glabel \<Rightarrow> gw \<Rightarrow> gw option" where
  "gstep c (Arrive p) g = Some (snd (arrive c p g))"
| "gstep c (HIncr i) g = on_req i g (h_incr i g)"
| "gstep c (HDone i) g = on_req i g (h_done i g)"
| "gstep c (HCancel i) g = on_req i g (h_cancel i g)"
| "gstep c (HCas i) g = on_req i g (h_cas i g)"
| "gstep c (HDecr i) g = on_req i g (h_decr i g)"
| "gstep c (HGhost i) g = on_req i g (h_ghost i g)"
| "gstep c DAcq g = d_acquire c g"
| "gstep c DOne g = d_stage1 g"
| "gstep c (DTwo b) g = d_stage2 b g"
| "gstep c (FLoad i) g = on_req i g (f_load i g)"
| "gstep c (FBody i t0 t1 u) g = on_req i g (f_body i t0 t1 u g)"
| "gstep c (FRecord i t0 t1) g = on_req i g (f_record i t0 t1 g)"
| "gstep c (FCas i) g = on_req i g (f_cas i g)"
| "gstep c (FSettle i) g = on_req i g (f_settle i g)"
| "gstep c (FClose i) g = on_req i g (f_close i g)"
| "gstep c (FRelease i) g = on_req i g (f_release i g)"
| "gstep c ResetStats g = Some (g\<lparr>gw_tracker := Reset (gw_tracker g)\<rparr>)"

inductive reach :: "gcfg \<Rightarrow> gw \<Rightarrow> bool" for c where
  init: "reach c (gw_init NewTracker)"
| step: "reach c g \<Longrightarrow> gstep c l g = Some g' \<Longrightarrow> reach c g'"

end
