(* ===== verification/Gateway_Safety.thy ===== *)
theory Gateway_Safety
  imports Gateway_System
begin

text \<open>
  What holds of the gateway in every interleaving: the bounds of its queues and of the concurrency, the
  accounting of pending and abandoned requests, the order of dispatch, and two races the code has.
\<close>

section \<open>Counting requests\<close>

definition cnt :: "('a \<Rightarrow> bool) \<Rightarrow> 'a list \<Rightarrow> int" where
  "cnt P xs = (\<Sum>x \<leftarrow> xs. of_bool (P x))"

lemma cnt_simps [simp]: "cnt P [] = 0" "cnt P (x # xs) = of_bool (P x) + cnt P xs" "cnt P (xs @ ys) = cnt P xs + cnt P ys"
  by (simp_all add: cnt_def)

lemma cnt_update:
  "i < length xs \<Longrightarrow> cnt P (xs[i := y]) = cnt P xs + of_bool (P y) - of_bool (P (xs ! i))"
proof (induction xs arbitrary: i)
  case (Cons x xs)
  then show ?case by (cases i) auto
qed simp

lemma cnt_cong: "(\<And>x. x \<in> set xs \<Longrightarrow> P x \<longleftrightarrow> Q x) \<Longrightarrow> cnt P xs = cnt Q xs"
  by (induction xs) auto

lemma cnt_nonneg: "0 \<le> cnt P xs"
  by (induction xs) auto

lemma cnt_zero: "(\<And>x. x \<in> set xs \<Longrightarrow> \<not> P x) \<Longrightarrow> cnt P xs = 0"
  by (induction xs) auto

section \<open>Phases\<close>

definition inflight :: "req \<Rightarrow> bool" where
  "inflight r = (case rq_forward r of FQueued \<Rightarrow> False | FDone _ \<Rightarrow> False | _ \<Rightarrow> True)"

definition handler_won :: "handler_phase \<Rightarrow> bool" where
  "handler_won h = (case h of HWon \<Rightarrow> True | HDecremented \<Rightarrow> True | HReturned b \<Rightarrow> b | _ \<Rightarrow> False)"

definition forward_won :: "forward_phase \<Rightarrow> bool" where
  "forward_won f = (case f of FWon \<Rightarrow> True | FClosing b \<Rightarrow> b | FReleasing b \<Rightarrow> b | FDone b \<Rightarrow> b | _ \<Rightarrow> False)"

definition forward_lost :: "forward_phase \<Rightarrow> bool" where
  "forward_lost f = (case f of FLost \<Rightarrow> True | FClosing b \<Rightarrow> \<not> b | FReleasing b \<Rightarrow> \<not> b | FDone b \<Rightarrow> \<not> b | _ \<Rightarrow> False)"

text \<open>Which calls have been made for a request.\<close>

definition incremented :: "req \<Rightarrow> bool" where
  "incremented r \<longleftrightarrow> rq_handler r \<noteq> HSent"

definition decremented :: "req \<Rightarrow> bool" where
  "decremented r \<longleftrightarrow> (case rq_handler r of HDecremented \<Rightarrow> True | HReturned b \<Rightarrow> b | _ \<Rightarrow> False) \<or>
     (case rq_forward r of FClosing b \<Rightarrow> b | FReleasing b \<Rightarrow> b | FDone b \<Rightarrow> b | _ \<Rightarrow> False)"

definition ghost_added :: "req \<Rightarrow> bool" where
  "ghost_added r \<longleftrightarrow> rq_handler r = HReturned True"

definition ghost_removed :: "req \<Rightarrow> bool" where
  "ghost_removed r \<longleftrightarrow> (case rq_forward r of FClosing b \<Rightarrow> \<not> b | FReleasing b \<Rightarrow> \<not> b | FDone b \<Rightarrow> \<not> b | _ \<Rightarrow> False)"

lemmas phase_defs = inflight_def handler_won_def forward_won_def forward_lost_def incremented_def decremented_def
  ghost_added_def ghost_removed_def closed_def

lemmas req_step_defs = h_incr_def h_done_def h_cancel_def h_cas_def h_decr_def h_ghost_def
  f_load_def f_body_def f_record_def f_cas_def f_settle_def f_close_def f_release_def on_req_def Let_def

lemmas step_defs = req_step_defs d_acquire_def d_stage1_def d_stage2_def start_def arrive_def new_req_def add_ghost_def upd_def

section \<open>Invariants\<close>

definition bounds_ok :: "gcfg \<Rightarrow> gw \<Rightarrow> bool" where
  "bounds_ok c g \<longleftrightarrow> length (gw_priorityQueue g) \<le> gc_priorityCap c \<and> length (gw_queue g) \<le> gc_queueCap c \<and>
     gw_sem g \<le> gc_semCap c \<and> (gw_disp g = DParked \<longrightarrow> gw_priorityQueue g = [] \<and> gw_queue g = [])"

definition sem_ok :: "gw \<Rightarrow> bool" where
  "sem_ok g \<longleftrightarrow> int (gw_sem g) = cnt inflight (gw_reqs g) + of_bool (gw_disp g \<noteq> DAcquire)"

definition waiting :: "bool \<Rightarrow> req list \<Rightarrow> nat set" where
  "waiting b rs = {i. i < length rs \<and> rq_forward (rs ! i) = FQueued \<and> pn_interactive (rq_data (rs ! i)) = b}"

definition queues_ok :: "gw \<Rightarrow> bool" where
  "queues_ok g \<longleftrightarrow> distinct (gw_priorityQueue g) \<and> distinct (gw_queue g) \<and>
     set (gw_priorityQueue g) = waiting True (gw_reqs g) \<and> set (gw_queue g) = waiting False (gw_reqs g)"

definition req_ok :: "req \<Rightarrow> bool" where
  "req_ok r \<longleftrightarrow> (rq_decremented r \<longleftrightarrow> handler_won (rq_handler r) \<or> forward_won (rq_forward r)) \<and>
     \<not> (handler_won (rq_handler r) \<and> forward_won (rq_forward r)) \<and>
     (forward_lost (rq_forward r) \<longrightarrow> handler_won (rq_handler r))"

text \<open>The difference a group of requests with the same key \<open>k\<close> makes: those counted up less those counted down.\<close>

definition net :: "(req \<Rightarrow> 'k) \<Rightarrow> (req \<Rightarrow> bool) \<Rightarrow> (req \<Rightarrow> bool) \<Rightarrow> 'k \<Rightarrow> req list \<Rightarrow> int" where
  "net key up down k rs = cnt (\<lambda>r. key r = k \<and> up r) rs - cnt (\<lambda>r. key r = k \<and> down r) rs"

definition ghosts :: "bool \<Rightarrow> gw \<Rightarrow> int64" where
  "ghosts b g = (if b then gw_ghostPriority g else gw_ghostNormal g)"

definition ghosts_ok :: "gw \<Rightarrow> bool" where
  "ghosts_ok g \<longleftrightarrow> (\<forall>b. ghosts b g = of_int (net (\<lambda>r. pn_interactive (rq_data r)) ghost_added ghost_removed b (gw_reqs g)))"

definition pend :: "string \<Rightarrow> Tracker \<Rightarrow> int64" where
  "pend h t = ep_pending (endpoint_of h [] t)"

definition pending_ok :: "gw \<Rightarrow> bool" where
  "pending_ok g \<longleftrightarrow> (\<forall>h. pend h (gw_tracker g) =
     of_int (net (\<lambda>r. pn_host (rq_data r)) incremented decremented h (gw_reqs g)))"

lemma ghosts_frame [simp]:
  "ghosts b (gw_reqs_update f1 g) = ghosts b g" "ghosts b (gw_priorityQueue_update f2 g) = ghosts b g"
  "ghosts b (gw_queue_update f2 g) = ghosts b g" "ghosts b (gw_disp_update f3 g) = ghosts b g"
  "ghosts b (gw_sem_update f4 g) = ghosts b g" "ghosts b (gw_tracker_update f5 g) = ghosts b g"
  "ghosts b (gw_ghostNormal_update (\<lambda>_. x) g) = (if b then ghosts b g else x)"
  "ghosts b (gw_ghostPriority_update (\<lambda>_. x) g) = (if b then x else ghosts b g)"
  by (simp_all add: ghosts_def)

lemma add_ghost_frame [simp]:
  "gw_reqs (add_ghost p n g) = gw_reqs g" "ghosts b (add_ghost p n g) = ghosts b g + (if p = b then n else 0)"
  "ghosts b (upd i f g) = ghosts b g"
  by (simp_all add: add_ghost_def ghosts_def upd_def)

lemma net_append: "net key up down k (rs @ [r]) = net key up down k rs + (if key r = k then of_bool (up r) - of_bool (down r) else 0)"
  by (simp add: net_def)

lemma net_update:
  "i < length rs \<Longrightarrow> key y = key (rs ! i) \<Longrightarrow>
     net key up down k (rs[i := y]) = net key up down k rs +
       (if key y = k then of_bool (up y) - of_bool (down y) - (of_bool (up (rs ! i)) - of_bool (down (rs ! i))) else 0)"
  by (simp add: net_def cnt_update)

lemma start_frame [simp]:
  "gw_priorityQueue (upd i f g) = gw_priorityQueue g" "gw_queue (upd i f g) = gw_queue g" "gw_sem (upd i f g) = gw_sem g"
  "gw_disp (upd i f g) = gw_disp g" "gw_tracker (upd i f g) = gw_tracker g" "gw_ghostNormal (upd i f g) = gw_ghostNormal g"
  "gw_ghostPriority (upd i f g) = gw_ghostPriority g" "gw_reqs (upd i f g) = (gw_reqs g)[i := f (gw_reqs g ! i)]"
  by (simp_all add: upd_def)

lemma bounds_step: "gstep c l g = Some g' \<Longrightarrow> bounds_ok c g \<Longrightarrow> bounds_ok c g'"
  by (cases l; auto simp: bounds_ok_def step_defs split: if_splits list.splits forward_phase.splits)

definition reqs_ok :: "req list \<Rightarrow> bool" where
  "reqs_ok rs \<longleftrightarrow> (\<forall>r \<in> set rs. req_ok r)"

lemma reqs_ok_append [simp]: "reqs_ok (rs @ [r]) \<longleftrightarrow> reqs_ok rs \<and> req_ok r"
  by (auto simp: reqs_ok_def)

lemma reqs_ok_update:
  assumes "reqs_ok rs" "i < length rs \<Longrightarrow> req_ok (rs ! i) \<Longrightarrow> req_ok y"
  shows "reqs_ok (rs[i := y])"
proof (cases "i < length rs")
  case True
  then show ?thesis using assms by (auto simp: reqs_ok_def dest!: set_update_subset_insert [THEN subsetD])
next
  case False
  then show ?thesis using assms(1) by (simp add: list_update_beyond)
qed

lemma queued_heads:
  assumes "queues_ok g" "gw_priorityQueue g = i # q \<or> gw_queue g = i # q"
  shows "i < length (gw_reqs g)" "rq_forward (gw_reqs g ! i) = FQueued"
proof -
  have "i \<in> waiting True (gw_reqs g) \<union> waiting False (gw_reqs g)" using assms by (auto simp: queues_ok_def)
  then show "i < length (gw_reqs g)" "rq_forward (gw_reqs g ! i) = FQueued" by (auto simp: waiting_def)
qed

lemma reqs_ok_step:
  assumes "gstep c l g = Some g'" "reqs_ok (gw_reqs g)" "queues_ok g"
  shows "reqs_ok (gw_reqs g')"
  using assms
  by (cases l; auto simp: step_defs intro!: reqs_ok_update split: if_splits list.splits forward_phase.splits)
    (auto simp: req_ok_def phase_defs dest!: queued_heads(2) [OF assms(3) disjI1] queued_heads(2) [OF assms(3) disjI2]
      split: handler_phase.splits)

lemma waiting_update:
  "i < length rs \<Longrightarrow> rq_data y = rq_data (rs ! i) \<Longrightarrow> (rq_forward y = FQueued \<longleftrightarrow> rq_forward (rs ! i) = FQueued) \<Longrightarrow>
     waiting b (rs[i := y]) = waiting b rs"
  by (auto simp: waiting_def nth_list_update)

lemma waiting_start:
  "i < length rs \<Longrightarrow> rq_forward y \<noteq> FQueued \<Longrightarrow> waiting b (rs[i := y]) = waiting b rs - {i}"
  by (auto simp: waiting_def nth_list_update)

lemma waiting_append:
  "waiting b (rs @ [r]) =
     (if rq_forward r = FQueued \<and> pn_interactive (rq_data r) = b then insert (length rs) (waiting b rs) else waiting b rs)"
  by (auto simp: waiting_def nth_append less_Suc_eq)

lemma waiting_lt: "i \<in> waiting b rs \<Longrightarrow> i < length rs"
  by (simp add: waiting_def)

lemma queues_disjoint: "queues_ok g \<Longrightarrow> set (gw_priorityQueue g) \<inter> set (gw_queue g) = {}"
  by (auto simp: queues_ok_def waiting_def)

lemma queues_start:
  assumes "queues_ok g"
  shows "gw_priorityQueue g = i # q \<Longrightarrow> queues_ok (start i (g\<lparr>gw_priorityQueue := q\<rparr>))"
    and "gw_queue g = i # q \<Longrightarrow> queues_ok (start i (g\<lparr>gw_queue := q\<rparr>))"
proof -
  have w: "waiting b ((gw_reqs g)[i := (gw_reqs g ! i)\<lparr>rq_forward := FTaken\<rparr>]) = waiting b (gw_reqs g) - {i}"
    if "gw_priorityQueue g = i # q \<or> gw_queue g = i # q" for b
    using queued_heads(1) [OF assms that] by (simp add: waiting_start)
  note d = queues_disjoint [OF assms] assms [unfolded queues_ok_def]
  show "queues_ok (start i (g\<lparr>gw_priorityQueue := q\<rparr>))" if q: "gw_priorityQueue g = i # q"
    using d q w [OF disjI1 [OF q]] by (simp add: queues_ok_def start_def) blast
  show "queues_ok (start i (g\<lparr>gw_queue := q\<rparr>))" if q: "gw_queue g = i # q"
    using d q w [OF disjI2 [OF q]] by (simp add: queues_ok_def start_def) blast
qed

lemma queues_step:
  assumes "gstep c l g = Some g'" "queues_ok g"
  shows "queues_ok g'"
proof -
  have new: "length (gw_reqs g) \<notin> set (gw_priorityQueue g)" "length (gw_reqs g) \<notin> set (gw_queue g)"
    using assms(2) by (auto simp: queues_ok_def dest: waiting_lt)
  show ?thesis
  proof (cases l)
    case (Arrive p)
    then show ?thesis using assms new
      by (simp add: arrive_def Let_def new_req_def queues_ok_def split: if_splits) (auto simp: waiting_append)
  next
    case DOne
    then show ?thesis using assms queues_start(1) [OF assms(2)]
      by (auto simp: d_stage1_def queues_ok_def split: if_splits list.splits)
  next
    case (DTwo b)
    then show ?thesis using assms queues_start [OF assms(2)]
      by (auto simp: d_stage2_def queues_ok_def split: if_splits list.splits)
  qed (use assms in \<open>auto simp: step_defs queues_ok_def waiting_update split: if_splits forward_phase.splits\<close>)
qed


lemma inflight_forward: "inflight r \<longleftrightarrow> rq_forward r \<noteq> FQueued \<and> (\<forall>b. rq_forward r \<noteq> FDone b)"
  by (auto simp: inflight_def split: forward_phase.splits)

lemma sem_start:
  assumes "queues_ok g" "sem_ok g" "gw_disp g \<noteq> DAcquire"
  shows "gw_priorityQueue g = i # q \<Longrightarrow> sem_ok (start i (g\<lparr>gw_priorityQueue := q\<rparr>))"
    and "gw_queue g = i # q \<Longrightarrow> sem_ok (start i (g\<lparr>gw_queue := q\<rparr>))"
proof -
  have c: "cnt inflight ((gw_reqs g)[i := (gw_reqs g ! i)\<lparr>rq_forward := FTaken\<rparr>]) = cnt inflight (gw_reqs g) + 1"
    if "gw_priorityQueue g = i # q \<or> gw_queue g = i # q"
    using queued_heads [OF assms(1) that] by (simp add: cnt_update inflight_forward)
  show "sem_ok (start i (g\<lparr>gw_priorityQueue := q\<rparr>))" if q: "gw_priorityQueue g = i # q"
    using assms c [OF disjI1 [OF q]] by (simp add: sem_ok_def start_def)
  show "sem_ok (start i (g\<lparr>gw_queue := q\<rparr>))" if q: "gw_queue g = i # q"
    using assms c [OF disjI2 [OF q]] by (simp add: sem_ok_def start_def)
qed

lemma sem_step:
  assumes "gstep c l g = Some g'" "queues_ok g" "sem_ok g"
  shows "sem_ok g'"
proof (cases l)
  case (Arrive p)
  then show ?thesis using assms by (simp add: arrive_def Let_def new_req_def sem_ok_def split: if_splits) (auto simp: inflight_forward)
next
  case DOne
  then show ?thesis using assms sem_start(1) [OF assms(2,3)]
    by (simp add: d_stage1_def split: if_splits list.splits) (auto simp: sem_ok_def)
next
  case (DTwo b)
  then show ?thesis using assms sem_start [OF assms(2,3)]
    by (simp add: d_stage2_def split: if_splits list.splits) (auto simp: sem_ok_def)
next
  case (FRelease i)
  then obtain b where i: "i < length (gw_reqs g)" "rq_forward (gw_reqs g ! i) = FReleasing b"
    "g' = upd i (rq_forward_update (\<lambda>_. FDone b)) (g\<lparr>gw_sem := gw_sem g - 1\<rparr>)"
    using assms(1) by (auto simp: f_release_def on_req_def split: if_splits forward_phase.splits)
  have "cnt inflight ((gw_reqs g)[i := (gw_reqs g ! i)\<lparr>rq_forward := FDone b\<rparr>]) = cnt inflight (gw_reqs g) - 1"
    using i by (simp add: cnt_update inflight_forward)
  moreover have "int (gw_sem g - 1) = int (gw_sem g) - 1"
    using calculation assms(3) cnt_nonneg [of inflight "(gw_reqs g)[i := (gw_reqs g ! i)\<lparr>rq_forward := FDone b\<rparr>]"]
    by (cases "gw_sem g") (auto simp: sem_ok_def of_bool_def split: if_splits)
  ultimately show ?thesis using i assms(3) by (simp add: sem_ok_def)
qed (use assms in \<open>auto simp: step_defs sem_ok_def cnt_update inflight_forward split: if_splits forward_phase.splits\<close>)

lemma pend_ops [simp]:
  "pend h (IncrPending host name resp i body t0 pr t) = pend h t + of_bool (h = host)"
  "pend h (DecrPending host i t) = pend h t - of_bool (h = host)"
  "pend h (Record now host name resp tokens t) = pend h t"
  "pend h (RecordOutcome now ok t) = pend h t"
  "pend h (RecordIncomingConnError now t) = pend h t"
  "pend h (RecordOutgoingConnError now t) = pend h t"
  "pend h (RecordDuration t0 t1 t2 t) = pend h t"
  "pend h (Reset t) = pend h t"
  by (simp_all add: pend_def IncrPending_def DecrPending_def Record_def RecordOutcome_def RecordIncomingConnError_def
      RecordOutgoingConnError_def RecordDuration_def Reset_def reset_endpoint_def Let_def endpoint_of_def put_endpoint_def
      put_responsibility_def endpointStats_prune_def split: option.split)

lemma pend_forward [simp]: "pend h (fold apply_op (fw_ops (forward_body was t0 t1 p u)) t) = pend h t"
  by (simp add: forward_body_def split: upstream_result.split do_error.split prod.split)

lemma net_start:
  assumes "queues_ok g" "gw_priorityQueue g = i # q \<or> gw_queue g = i # q"
    and "\<And>r. key (r\<lparr>rq_forward := FTaken\<rparr>) = key r"
    and "\<And>r. rq_forward r = FQueued \<Longrightarrow> up (r\<lparr>rq_forward := FTaken\<rparr>) = up r"
    and "\<And>r. rq_forward r = FQueued \<Longrightarrow> down (r\<lparr>rq_forward := FTaken\<rparr>) = down r"
  shows "net key up down k ((gw_reqs g)[i := (gw_reqs g ! i)\<lparr>rq_forward := FTaken\<rparr>]) = net key up down k (gw_reqs g)"
  using queued_heads [OF assms(1,2)] by (subst net_update) (simp_all add: assms(3-))

lemma dispatch_frame:
  assumes "gstep c l g = Some g'" "l = DOne \<or> l = DTwo b" "queues_ok g"
  shows "net (\<lambda>r. pn_host (rq_data r)) incremented decremented h (gw_reqs g') =
      net (\<lambda>r. pn_host (rq_data r)) incremented decremented h (gw_reqs g)"
    "net (\<lambda>r. pn_interactive (rq_data r)) ghost_added ghost_removed p (gw_reqs g') =
      net (\<lambda>r. pn_interactive (rq_data r)) ghost_added ghost_removed p (gw_reqs g)"
    "gw_tracker g' = gw_tracker g" "ghosts p g' = ghosts p g"
proof -
  note st = net_start [OF assms(3) disjI1] net_start [OF assms(3) disjI2]
  show "net (\<lambda>r. pn_host (rq_data r)) incremented decremented h (gw_reqs g') =
      net (\<lambda>r. pn_host (rq_data r)) incremented decremented h (gw_reqs g)"
    using assms(1,2) by (auto simp: d_stage1_def d_stage2_def start_def incremented_def decremented_def st split: if_splits list.splits)
  show "net (\<lambda>r. pn_interactive (rq_data r)) ghost_added ghost_removed p (gw_reqs g') =
      net (\<lambda>r. pn_interactive (rq_data r)) ghost_added ghost_removed p (gw_reqs g)"
    using assms(1,2) by (auto simp: d_stage1_def d_stage2_def start_def ghost_added_def ghost_removed_def st split: if_splits list.splits)
  show "gw_tracker g' = gw_tracker g" "ghosts p g' = ghosts p g"
    using assms(1,2) by (auto simp: d_stage1_def d_stage2_def start_def ghosts_def split: if_splits list.splits)
qed

lemma weight_steps:
  assumes "req_ok r"
  shows "rq_handler r = HWon \<Longrightarrow> \<not> decremented r" "rq_forward r = FWon \<Longrightarrow> \<not> decremented r"
  using assms by (auto simp: req_ok_def phase_defs split: handler_phase.splits forward_phase.splits)

lemma pending_upd:
  assumes "pending_ok g" "i < length (gw_reqs g)" "gw_reqs g' = (gw_reqs g)[i := y]" "rq_data y = rq_data (gw_reqs g ! i)"
    and "\<And>h. pend h (gw_tracker g') = pend h (gw_tracker g) + (if pn_host (rq_data y) = h
      then of_int (of_bool (incremented y) - of_bool (decremented y) -
        (of_bool (incremented (gw_reqs g ! i)) - of_bool (decremented (gw_reqs g ! i)))) else 0)"
  shows "pending_ok g'"
  using assms(1,2,4) by (simp add: pending_ok_def assms(3,5) net_update)

lemma ghosts_upd:
  assumes "ghosts_ok g" "i < length (gw_reqs g)" "gw_reqs g' = (gw_reqs g)[i := y]" "rq_data y = rq_data (gw_reqs g ! i)"
    and "\<And>b. ghosts b g' = ghosts b g + (if pn_interactive (rq_data y) = b
      then of_int (of_bool (ghost_added y) - of_bool (ghost_removed y) -
        (of_bool (ghost_added (gw_reqs g ! i)) - of_bool (ghost_removed (gw_reqs g ! i)))) else 0)"
  shows "ghosts_ok g'"
  using assms(1,2,4) by (simp add: ghosts_ok_def assms(3,5) net_update)

lemma ghosts_same:
  assumes "ghosts_ok g" "i < length (gw_reqs g)" "gw_reqs g2 = gw_reqs g" "\<And>b. ghosts b g2 = ghosts b g"
    and "rq_data (f (gw_reqs g ! i)) = rq_data (gw_reqs g ! i)" "ghost_added (f (gw_reqs g ! i)) = ghost_added (gw_reqs g ! i)"
    and "ghost_removed (f (gw_reqs g ! i)) = ghost_removed (gw_reqs g ! i)"
  shows "ghosts_ok (upd i f g2)"
  by (rule ghosts_upd [OF assms(1,2), of _ "f (gw_reqs g ! i)"]) (simp_all add: assms(3-))

lemma pending_step:
  assumes "gstep c l g = Some g'" "queues_ok g" "reqs_ok (gw_reqs g)" "pending_ok g"
  shows "pending_ok g'"
proof -
  have ok: "req_ok (gw_reqs g ! i)" if "i < length (gw_reqs g)" for i using assms(3) that by (simp add: reqs_ok_def)
  have dispatch: "pending_ok g'" if "l = DOne \<or> l = DTwo b" for b
    using assms(4) dispatch_frame [OF assms(1) that assms(2)] by (simp add: pending_ok_def)
  note upd = pending_upd [OF assms(4)]
  show ?thesis
  proof (cases l)
    case (Arrive p)
    then show ?thesis using assms(1,4)
      by (simp add: arrive_def Let_def new_req_def pending_ok_def split: if_splits) (auto simp: net_append phase_defs)
  next
    case DOne
    then show ?thesis using dispatch by blast
  next
    case (DTwo b)
    then show ?thesis using dispatch by blast
  next
    case DAcq
    then show ?thesis using assms(1,4) by (auto simp: d_acquire_def pending_ok_def split: if_splits)
  next
    case ResetStats
    then show ?thesis using assms(1,4) by (auto simp: pending_ok_def)
  next
    case (HIncr i)
    then show ?thesis using assms(1)
      by (auto simp: step_defs intro!: upd split: if_splits) (auto simp: incremented_def decremented_def)
  next
    case (HDecr i)
    then show ?thesis using assms(1) ok [of i]
      by (auto simp: step_defs weight_steps intro!: upd split: if_splits) (auto simp: incremented_def decremented_def)
  next
    case (FSettle i)
    then show ?thesis using assms(1) ok [of i]
      by (auto simp: step_defs weight_steps intro!: upd split: if_splits forward_phase.splits)
        (auto simp: incremented_def decremented_def)
  qed (use assms(1) in \<open>auto simp: step_defs intro!: upd split: if_splits forward_phase.splits\<close>,
      (auto simp: incremented_def decremented_def)?)
qed

lemma ghosts_step:
  assumes "gstep c l g = Some g'" "queues_ok g" "ghosts_ok g"
  shows "ghosts_ok g'"
proof -
  have dispatch: "ghosts_ok g'" if "l = DOne \<or> l = DTwo b" for b
    using assms(3) dispatch_frame [OF assms(1) that assms(2)] by (simp add: ghosts_ok_def)
  note upd = ghosts_upd [OF assms(3)]
  show ?thesis
  proof (cases l)
    case (Arrive p)
    then show ?thesis using assms(1,3)
      by (simp add: arrive_def Let_def new_req_def ghosts_ok_def split: if_splits) (auto simp: net_append phase_defs)
  next
    case DOne
    then show ?thesis using dispatch by blast
  next
    case (DTwo b)
    then show ?thesis using dispatch by blast
  next
    case DAcq
    then show ?thesis using assms(1,3) by (auto simp: d_acquire_def ghosts_ok_def split: if_splits)
  next
    case ResetStats
    then show ?thesis using assms(1,3) by (auto simp: ghosts_ok_def)
  next
    case (HGhost i)
    then have i: "i < length (gw_reqs g)" "rq_handler (gw_reqs g ! i) = HDecremented" and g': "h_ghost i g = Some g'"
      using assms(1) by (auto simp: on_req_def h_ghost_def Let_def split: if_splits)
    show ?thesis
      using g' by (intro upd [OF i(1), where y = "(gw_reqs g ! i)\<lparr>rq_handler := HReturned True\<rparr>"])
        (auto simp: h_ghost_def Let_def i(2) ghost_added_def ghost_removed_def)
  next
    case (FSettle i)
    then have i: "i < length (gw_reqs g)" and g': "f_settle i g = Some g'"
      using assms(1) by (auto simp: on_req_def split: if_splits)
    consider "rq_forward (gw_reqs g ! i) = FWon" | "rq_forward (gw_reqs g ! i) = FLost"
      using g' by (auto simp: f_settle_def Let_def split: forward_phase.splits)
    then show ?thesis
    proof cases
      case 1
      with g' show ?thesis by (intro upd [OF i, where y = "(gw_reqs g ! i)\<lparr>rq_forward := FClosing True\<rparr>"])
        (auto simp: f_settle_def Let_def ghost_added_def ghost_removed_def)
    next
      case 2
      with g' show ?thesis by (intro upd [OF i, where y = "(gw_reqs g ! i)\<lparr>rq_forward := FClosing False\<rparr>"])
        (auto simp: f_settle_def Let_def ghost_added_def ghost_removed_def)
    qed
  qed (use assms(1) in \<open>auto simp: req_step_defs ghost_added_def ghost_removed_def intro!: ghosts_same [OF assms(3)]
        split: if_splits forward_phase.splits\<close>)
qed


definition ginv :: "gcfg \<Rightarrow> gw \<Rightarrow> bool" where
  "ginv c g \<longleftrightarrow> bounds_ok c g \<and> queues_ok g \<and> reqs_ok (gw_reqs g) \<and> sem_ok g \<and> pending_ok g \<and> ghosts_ok g"

lemma ginv_init: "ginv c (gw_init NewTracker)"
  by (simp add: ginv_def gw_init_def bounds_ok_def queues_ok_def waiting_def reqs_ok_def sem_ok_def pending_ok_def ghosts_ok_def
      ghosts_def net_def pend_def endpoint_of_def NewTracker_def)

lemma ginv_step: "gstep c l g = Some g' \<Longrightarrow> ginv c g \<Longrightarrow> ginv c g'"
  unfolding ginv_def using bounds_step queues_step reqs_ok_step sem_step pending_step ghosts_step by metis

lemma ginv_reach: "reach c g \<Longrightarrow> ginv c g"
  by (induction rule: reach.induct) (auto intro: ginv_init ginv_step)

fun grun :: "gcfg \<Rightarrow> glabel list \<Rightarrow> gw \<Rightarrow> gw option" where
  "grun c [] g = Some g"
| "grun c (l # ls) g = (case gstep c l g of None \<Rightarrow> None | Some g' \<Rightarrow> grun c ls g')"

lemma grun_reach: "reach c g \<Longrightarrow> grun c ls g = Some g' \<Longrightarrow> reach c g'"
  by (induction ls arbitrary: g) (auto split: option.splits intro: reach.step)

section \<open>Bounds\<close>

text \<open>
  C15: the gateway never exceeds its configuration. In every interleaving the two queues stay within their
  capacities, at most \<open>MaxConcurrency\<close> requests are being forwarded, and a request that was accepted and not
  yet dispatched is in the queue of its class exactly once.
\<close>

theorem gateway_bounds:
  assumes "reach c g"
  shows "length (gw_priorityQueue g) \<le> gc_priorityCap c \<and> length (gw_queue g) \<le> gc_queueCap c \<and>
    cnt inflight (gw_reqs g) \<le> int (gc_semCap c) \<and> distinct (gw_priorityQueue g @ gw_queue g) \<and>
    (\<forall>i < length (gw_reqs g). rq_forward (gw_reqs g ! i) = FQueued \<longleftrightarrow>
       i \<in> set (if pn_interactive (rq_data (gw_reqs g ! i)) then gw_priorityQueue g else gw_queue g))"
proof -
  have inv: "bounds_ok c g" "queues_ok g" "sem_ok g" using ginv_reach [OF assms] by (simp_all add: ginv_def)
  have "cnt inflight (gw_reqs g) \<le> int (gw_sem g)" using inv(3) by (simp add: sem_ok_def)
  moreover have "distinct (gw_priorityQueue g @ gw_queue g)" using inv(2) queues_disjoint [OF inv(2)] by (simp add: queues_ok_def)
  moreover have "set (gw_priorityQueue g) = waiting True (gw_reqs g)" "set (gw_queue g) = waiting False (gw_reqs g)"
    using inv(2) by (simp_all add: queues_ok_def)
  ultimately show ?thesis using inv(1) by (auto simp: bounds_ok_def waiting_def)
qed

section \<open>Accounting\<close>

definition settled :: "req \<Rightarrow> bool" where
  "settled r \<longleftrightarrow> (case rq_handler r of HReturned _ \<Rightarrow> True | _ \<Rightarrow> False) \<and> (case rq_forward r of FDone _ \<Rightarrow> True | _ \<Rightarrow> False)"

lemma settled_weights:
  assumes "req_ok r" "settled r"
  shows "incremented r" "decremented r" "ghost_added r \<longleftrightarrow> ghost_removed r" "\<not> inflight r"
  using assms by (auto simp: settled_def req_ok_def phase_defs split: handler_phase.splits forward_phase.splits)

lemma net_settled:
  assumes "reqs_ok rs" "\<forall>r \<in> set rs. settled r"
  shows "net key incremented decremented k rs = 0" "net key ghost_added ghost_removed k rs = 0"
proof -
  have ok: "req_ok r" "settled r" if "r \<in> set rs" for r using assms that by (auto simp: reqs_ok_def)
  show "net key incremented decremented k rs = 0" "net key ghost_added ghost_removed k rs = 0"
    unfolding net_def using settled_weights [OF ok]
    by (simp_all cong: cnt_cong add: cnt_cong [of rs "\<lambda>r. key r = k \<and> incremented r" "\<lambda>r. key r = k \<and> decremented r"]
      cnt_cong [of rs "\<lambda>r. key r = k \<and> ghost_added r" "\<lambda>r. key r = k \<and> ghost_removed r"])
qed

text \<open>
  C16: the books balance. Whenever every accepted request has been answered or abandoned and its goroutines
  have ended, in whatever order the handler's cancellation and the forwarding raced, exactly one of the
  two counted it down, the pending counter of every host is zero, both ghost counters are zero, and the
  only slot of the semaphore still held is the one the dispatcher itself may hold.
\<close>

theorem counters_settle:
  assumes "reach c g" "\<forall>r \<in> set (gw_reqs g). settled r"
  shows "(\<forall>r \<in> set (gw_reqs g). handler_won (rq_handler r) \<noteq> forward_won (rq_forward r)) \<and>
    (\<forall>h es. tk_endpoints (gw_tracker g) h = Some es \<longrightarrow> ep_pending es = 0) \<and>
    gw_ghostNormal g = 0 \<and> gw_ghostPriority g = 0 \<and> gw_sem g = of_bool (gw_disp g \<noteq> DAcquire)"
proof -
  have inv: "reqs_ok (gw_reqs g)" "sem_ok g" "pending_ok g" "ghosts_ok g" using ginv_reach [OF assms(1)] by (simp_all add: ginv_def)
  have ok: "req_ok r" "settled r" if "r \<in> set (gw_reqs g)" for r using inv(1) assms(2) that by (auto simp: reqs_ok_def)
  have "handler_won (rq_handler r) \<noteq> forward_won (rq_forward r)" if "r \<in> set (gw_reqs g)" for r
    using ok [OF that] by (auto simp: settled_def req_ok_def phase_defs split: handler_phase.splits forward_phase.splits)
  moreover have "ep_pending es = 0" if "tk_endpoints (gw_tracker g) h = Some es" for h es
  proof -
    have "pend h (gw_tracker g) = 0" using inv(3) by (simp add: pending_ok_def net_settled(1) [OF inv(1) assms(2)])
    with that show ?thesis by (simp add: pend_def endpoint_of_def)
  qed
  moreover have "ghosts True g = 0" "ghosts False g = 0"
    using inv(4) by (simp_all add: ghosts_ok_def net_settled(2) [OF inv(1) assms(2)])
  moreover have "cnt inflight (gw_reqs g) = 0"
    using settled_weights(4) [OF ok] by (intro cnt_zero) auto
  ultimately show ?thesis using inv(2) by (auto simp: ghosts_def sem_ok_def)
qed

definition demo_cfg :: gcfg where
  "demo_cfg = \<lparr>gc_priorityCap = 1, gc_queueCap = 1, gc_semCap = 1, gc_upstream = [], gc_upstreamModel = []\<rparr>"

definition demo_pending_data :: "bool \<Rightarrow> pending_data" where
  "demo_pending_data b = \<lparr>pn_method = ''POST'', pn_path = ''/v1/chat'', pn_query = [], pn_headers = [], pn_body = [],
     pn_host = ''h'', pn_name = ''n'', pn_responsibility = [], pn_interactive = b, pn_submittedAt = 0\<rparr>"

definition demo_forward :: "nat \<Rightarrow> glabel list" where
  "demo_forward i = [FLoad i, FBody i 1 2 (DoFailed DeadlineExceeded), FRecord i 3 3, FCas i, FSettle i, FClose i, FRelease i]"

text \<open>A client that leaves while its request is being forwarded, and two requests in the queues.\<close>

definition demo_abandoned :: "glabel list" where
  "demo_abandoned = [DAcq, DOne, DTwo True, Arrive (demo_pending_data False), HIncr 0, HCancel 0, HCas 0] @ demo_forward 0 @
     [HDecr 0, HGhost 0]"

definition demo_busy :: "glabel list" where
  "demo_busy = [Arrive (demo_pending_data False), Arrive (demo_pending_data True), Arrive (demo_pending_data True)]"

theorem gateway_bounds_witness:
  "\<exists>g. grun demo_cfg demo_busy (gw_init NewTracker) = Some g \<and> length (gw_reqs g) = 2 \<and>
     length (gw_priorityQueue g) \<le> gc_priorityCap demo_cfg \<and> length (gw_queue g) \<le> gc_queueCap demo_cfg \<and>
     cnt inflight (gw_reqs g) \<le> int (gc_semCap demo_cfg) \<and> distinct (gw_priorityQueue g @ gw_queue g)"
proof -
  obtain g where g: "grun demo_cfg demo_busy (gw_init NewTracker) = Some g"
    by (cases "grun demo_cfg demo_busy (gw_init NewTracker)") (simp_all add: demo_busy_def)
  moreover have "length (gw_reqs (the (grun demo_cfg demo_busy (gw_init NewTracker)))) = 2" by code_simp
  ultimately show ?thesis using gateway_bounds [OF grun_reach [OF reach.init g]] by simp
qed

theorem counters_settle_witness:
  "\<exists>g. grun demo_cfg demo_abandoned (gw_init NewTracker) = Some g \<and> gw_reqs g \<noteq> [] \<and>
     gw_ghostNormal g = 0 \<and> gw_ghostPriority g = 0 \<and> gw_sem g = of_bool (gw_disp g \<noteq> DAcquire)"
proof -
  let ?r = "grun demo_cfg demo_abandoned (gw_init NewTracker)"
  have "?r \<noteq> None \<and> list_all settled (gw_reqs (the ?r)) \<and> gw_reqs (the ?r) \<noteq> []" by code_simp
  then obtain g where g: "?r = Some g" "\<forall>r \<in> set (gw_reqs g). settled r" "gw_reqs g \<noteq> []"
    by (auto simp: list_all_iff)
  then show ?thesis using counters_settle [OF grun_reach [OF reach.init g(1)] g(2)] by simp
qed

section \<open>Dispatch\<close>

lemma start_taken: "i < length (gw_reqs g) \<Longrightarrow> rq_forward (gw_reqs (start i g) ! i) = FTaken"
  by (simp add: start_def)

lemma acquire_enabled:
  assumes "ginv c g" "cnt inflight (gw_reqs g) < int (gc_semCap c)" "gw_disp g = DAcquire"
  shows "gstep c DAcq g = Some (g\<lparr>gw_sem := gw_sem g + 1, gw_disp := DStage1\<rparr>)"
  using assms by (simp add: d_acquire_def ginv_def sem_ok_def)

text \<open>With a slot in hand, a waiting priority request is taken at once, and otherwise a waiting request within two steps.\<close>

lemma holding_progress:
  assumes "queues_ok g" "gw_disp g = DStage1" "gw_priorityQueue g \<noteq> [] \<or> gw_queue g \<noteq> []"
  shows "\<exists>ls g' i. set ls \<subseteq> {DAcq, DOne, DTwo True} \<and> length ls \<le> 2 \<and> grun c ls g = Some g' \<and>
    i = hd (gw_priorityQueue g @ gw_queue g) \<and> i < length (gw_reqs g) \<and> rq_forward (gw_reqs g' ! i) = FTaken"
proof (cases "gw_priorityQueue g")
  case (Cons i q)
  have "i < length (gw_reqs g)" using queued_heads(1) [OF assms(1)] Cons by blast
  then show ?thesis using Cons assms(2)
    by (intro exI [of _ "[DOne]"] exI [of _ "start i (g\<lparr>gw_priorityQueue := q\<rparr>)"] exI [of _ i]) (simp add: d_stage1_def start_taken)
next
  case Nil
  then obtain i q where q: "gw_queue g = i # q" using assms(3) by (cases "gw_queue g") auto
  have "i < length (gw_reqs g)" using queued_heads(1) [OF assms(1)] q by blast
  then show ?thesis using Nil q assms(2)
    by (intro exI [of _ "[DOne, DTwo True]"] exI [of _ "start i (g\<lparr>gw_disp := DStage2, gw_queue := q\<rparr>)"] exI [of _ i])
      (simp add: d_stage1_def d_stage2_def start_taken)
qed



section \<open>Two races\<close>

text \<open>
  The number of active requests is overstated by one while the gateway is idle: the dispatcher takes its
  slot before it waits for work, and \<open>/stats\<close> and \<open>/health\<close> report the slots in use.
\<close>

theorem idle_active_overstated:
  assumes "reach c g" "gw_disp g = DParked"
  shows "hr_ActiveRequests (health (view c g)) = cnt inflight (gw_reqs g) + 1 \<and>
    sr_ActiveRequests (Snapshot now hosts names (view c g) t) = cnt inflight (gw_reqs g) + 1"
  using ginv_reach [OF assms(1)] assms(2)
  by (simp add: ginv_def sem_ok_def health_def view_def Snapshot_def Let_def split: prod.split)

theorem idle_active_overstated_witness:
  "\<exists>g. grun demo_cfg [DAcq, DOne, DTwo True] (gw_init NewTracker) = Some g \<and> gw_reqs g = [] \<and>
     hr_ActiveRequests (health (view demo_cfg g)) = 1"
proof -
  let ?r = "grun demo_cfg [DAcq, DOne, DTwo True] (gw_init NewTracker)"
  have "?r \<noteq> None \<and> gw_disp (the ?r) = DParked \<and> gw_reqs (the ?r) = []" by code_simp
  then obtain g where g: "?r = Some g" "gw_disp g = DParked" "gw_reqs g = []" by auto
  from idle_active_overstated [OF grun_reach [OF reach.init g(1)] g(2)] g show ?thesis by simp
qed

definition demo_early :: "glabel list" where
  "demo_early = [DAcq, DOne, DTwo True, Arrive (demo_pending_data False)] @ demo_forward 0 @ [HIncr 0, HDone 0]"

text \<open>
  \<open>GET /pending\<close> can show a finished request forever. The handler registers a request after it has sent
  it; if the dispatcher takes it and \<open>forward\<close> ends before that, the entry is deleted before it is written
  and stays, although the request has been answered and every counter is back to zero.
\<close>

theorem pending_entry_leaks:
  "\<exists>g. reach demo_cfg g \<and> list_all settled (gw_reqs g) \<and> pend ''h'' (gw_tracker g) = 0 \<and>
     map fst (PendingSnapshot [req_id 0] (gw_tracker g)) = [''req-1'']"
proof -
  let ?r = "grun demo_cfg demo_early (gw_init NewTracker)"
  have "?r \<noteq> None \<and> list_all settled (gw_reqs (the ?r)) \<and> pend ''h'' (gw_tracker (the ?r)) = 0 \<and>
      map fst (PendingSnapshot [req_id 0] (gw_tracker (the ?r))) = [''req-1'']" by code_simp
  then obtain g where "?r = Some g" "list_all settled (gw_reqs g)" "pend ''h'' (gw_tracker g) = 0"
    "map fst (PendingSnapshot [req_id 0] (gw_tracker g)) = [''req-1'']" by auto
  then show ?thesis using grun_reach [OF reach.init] by (intro exI [of _ g]) (auto simp: list_all_iff)
qed

end
