(* ===== verification/Incidents.thy ===== *)
theory Incidents
  imports Agent_Data
begin

text \<open>
  The incident ledger, \<open>incidents/incidents.go\<close>: a list of incidents keyed by fingerprint, kept as the current
  snapshot of its own memory domain. A ledger operation is one critical section of the store's mutex. The
  state is the list the current snapshot decodes to, \<open>None\<close> when nothing can be read; \<open>ok\<close> says whether the
  write succeeds and \<open>fmt\<close> is the formatting of times, which the code compares as strings. A nil store is
  \<open>None\<close> one level up.
\<close>

section \<open>Data\<close>

record Action =
  ac_Time :: string
  ac_Note :: string

record Incident =
  in_Fingerprint :: string
  in_Title :: string
  in_Detail :: string
  in_Severity :: string
  in_Status :: string
  in_FirstSeen :: string
  in_LastSeen :: string
  in_TimesSeen :: int
  in_Actions :: "Action list"
  in_ResolvedAt :: string
  in_Resolution :: string

definition zero_incident :: Incident where
  "zero_incident = \<lparr>in_Fingerprint = [], in_Title = [], in_Detail = [], in_Severity = [], in_Status = [], in_FirstSeen = [],
     in_LastSeen = [], in_TimesSeen = 0, in_Actions = [], in_ResolvedAt = [], in_Resolution = []\<rparr>"

definition maxIncidents :: nat where "maxIncidents = 100"
definition resolvedRetention :: duration where "resolvedRetention = 30 * 24 * hour"

type_synonym ledger = "Incident list option"

definition normalizeFingerprint :: "string \<Rightarrow> string" where
  "normalizeFingerprint fp = Join (Fields (ToLower (TrimSpace fp))) ''-''"

text \<open>The order of the ledger: open first, then the latest sighting first.\<close>

definition before :: "Incident \<Rightarrow> Incident \<Rightarrow> bool" where
  "before a b = (if in_Status a \<noteq> in_Status b then in_Status a = ''open'' else str_less (in_LastSeen b) (in_LastSeen a))"

section \<open>Reading and writing\<close>

definition load :: "ledger \<Rightarrow> Incident list" where
  "load m = (case m of None \<Rightarrow> [] | Some l \<Rightarrow> sort_by before l)"

definition expired :: "string \<Rightarrow> Incident \<Rightarrow> bool" where
  "expired cutoff i \<longleftrightarrow> in_Status i = ''resolved'' \<and> in_ResolvedAt i \<noteq> [] \<and> str_less (in_ResolvedAt i) cutoff"

definition kept :: "string \<Rightarrow> Incident list \<Rightarrow> Incident list" where
  "kept cutoff l = filter (\<lambda>i. \<not> expired cutoff i) l"

text \<open>
  \<open>save\<close> filters and sorts the array of its argument in place. It returns the outcome, the new ledger, and
  what the caller's slice holds afterwards.
\<close>

definition save :: "bool \<Rightarrow> (instant \<Rightarrow> string) \<Rightarrow> instant \<Rightarrow> Incident list \<Rightarrow> ledger \<Rightarrow> unit result \<times> ledger \<times> Incident list" where
  "save ok fmt now l m =
     (let k = kept (fmt (now - resolvedRetention)) l;
          s = (if length k > maxIncidents then sort_by before k else k);
          out = take maxIncidents s;
          arr = s @ drop (length k) l
      in (if ok then (Inr (), Some out, arr) else (Inl (IOError ''write snapshot''), m, arr)))"

definition Incidents_All :: "ledger option \<Rightarrow> Incident list result" where
  "Incidents_All st = (case st of None \<Rightarrow> Inr [] | Some m \<Rightarrow> Inr (load m))"

definition Incidents_Open :: "ledger option \<Rightarrow> Incident list result" where
  "Incidents_Open st = (case Incidents_All st of Inl e \<Rightarrow> Inl e | Inr l \<Rightarrow> Inr (filter (\<lambda>i. in_Status i = ''open'') l))"

text \<open>The position of an incident in a loaded list.\<close>

fun find_index :: "string \<Rightarrow> Incident list \<Rightarrow> nat option" where
  "find_index fp [] = None"
| "find_index fp (i # l) = (if in_Fingerprint i = fp then Some 0 else map_option Suc (find_index fp l))"

section \<open>Operations\<close>

definition reopened_note :: string where
  "reopened_note = ''recurred after being resolved '' @ [CHR 0xE2, CHR 0x80, CHR 0x94] @ '' reopened''"

definition touch :: "string \<Rightarrow> string \<Rightarrow> string \<Rightarrow> string \<Rightarrow> Incident \<Rightarrow> Incident" where
  "touch now title detail severity i =
     (let reopened = (in_Status i = ''resolved'');
          i = i\<lparr>in_Status := ''open'', in_LastSeen := now, in_TimesSeen := in_TimesSeen i + 1\<rparr>;
          i = (if reopened then i\<lparr>in_ResolvedAt := [], in_Resolution := [],
                                  in_Actions := in_Actions i @ [\<lparr>ac_Time = now, ac_Note = reopened_note\<rparr>]\<rparr> else i);
          i = (if title \<noteq> [] then i\<lparr>in_Title := title\<rparr> else i);
          i = (if detail \<noteq> [] then i\<lparr>in_Detail := detail\<rparr> else i)
      in if severity \<noteq> [] then i\<lparr>in_Severity := severity\<rparr> else i)"

definition new_incident :: "string \<Rightarrow> string \<Rightarrow> string \<Rightarrow> string \<Rightarrow> string \<Rightarrow> Incident" where
  "new_incident now fp title detail severity =
     zero_incident\<lparr>in_Fingerprint := fp, in_Title := title, in_Detail := detail, in_Severity := severity,
       in_Status := ''open'', in_FirstSeen := now, in_LastSeen := now, in_TimesSeen := 1\<rparr>"

definition Report ::
    "bool \<Rightarrow> (instant \<Rightarrow> string) \<Rightarrow> instant \<Rightarrow> string \<Rightarrow> string \<Rightarrow> string \<Rightarrow> string \<Rightarrow> ledger option \<Rightarrow>
      (Incident \<times> bool) result \<times> ledger option" where
  "Report ok fmt now fingerprint title detail severity st =
     (case st of
        None \<Rightarrow> (Inl NoStore, st)
      | Some m \<Rightarrow>
          let fp = normalizeFingerprint fingerprint in
          if fp = [] then (Inl (Invalid ''fingerprint must not be empty''), st)
          else
            let l = load m in
            case find_index fp l of
              Some n \<Rightarrow>
                (case save ok fmt now (l[n := touch (fmt now) title detail severity (l ! n)]) m of
                   (Inl e, m, arr) \<Rightarrow> (Inl e, Some m)
                 | (Inr _, m, arr) \<Rightarrow> (Inr (arr ! n, False), Some m))
            | None \<Rightarrow>
                (let i = new_incident (fmt now) fp title detail severity in
                 case save ok fmt now (l @ [i]) m of
                   (Inl e, m, arr) \<Rightarrow> (Inl e, Some m)
                 | (Inr _, m, arr) \<Rightarrow> (Inr (i, True), Some m)))"

definition LogAction ::
    "bool \<Rightarrow> (instant \<Rightarrow> string) \<Rightarrow> instant \<Rightarrow> string \<Rightarrow> string \<Rightarrow> ledger option \<Rightarrow> Incident result \<times> ledger option" where
  "LogAction ok fmt now fingerprint text st =
     (case st of
        None \<Rightarrow> (Inl NoStore, st)
      | Some m \<Rightarrow>
          let fp = normalizeFingerprint fingerprint; l = load m in
          case find_index fp l of
            None \<Rightarrow> (Inl (NotFound fp), st)
          | Some n \<Rightarrow>
              (let i = l ! n;
                   i = i\<lparr>in_Actions := in_Actions i @ [\<lparr>ac_Time = fmt now, ac_Note = text\<rparr>], in_LastSeen := fmt now\<rparr> in
               case save ok fmt now (l[n := i]) m of
                 (Inl e, m, arr) \<Rightarrow> (Inl e, Some m)
               | (Inr _, m, arr) \<Rightarrow> (Inr (arr ! n), Some m)))"

definition Resolve ::
    "bool \<Rightarrow> (instant \<Rightarrow> string) \<Rightarrow> instant \<Rightarrow> string \<Rightarrow> string \<Rightarrow> ledger option \<Rightarrow> Incident result \<times> ledger option" where
  "Resolve ok fmt now fingerprint resolution st =
     (case st of
        None \<Rightarrow> (Inl NoStore, st)
      | Some m \<Rightarrow>
          let fp = normalizeFingerprint fingerprint; l = load m in
          case find_index fp l of
            None \<Rightarrow> (Inl (NotFound fp), st)
          | Some n \<Rightarrow>
              if in_Status (l ! n) = ''resolved'' then (Inr (l ! n), st)
              else
                (case save ok fmt now
                        (l[n := (l ! n)\<lparr>in_Status := ''resolved'', in_ResolvedAt := fmt now, in_Resolution := resolution\<rparr>]) m of
                   (Inl e, m, arr) \<Rightarrow> (Inl e, Some m)
                 | (Inr _, m, arr) \<Rightarrow> (Inr (arr ! n), Some m)))"

definition summary_line :: "Incident \<Rightarrow> string" where
  "summary_line i =
     ''- ['' @ in_Fingerprint i @ ''] '' @ in_Title i @ '' (severity: '' @ in_Severity i @ ''; first seen '' @ in_FirstSeen i @
     ''; last seen '' @ in_LastSeen i @ ''; seen '' @ show_int (in_TimesSeen i) @ '' times)'' @
     (if in_Actions i = [] then [] else '' '' @ [CHR 0xE2, CHR 0x80, CHR 0x94] @ '' last action: '' @ ac_Note (last (in_Actions i))) @ nl"

definition OpenSummary :: "ledger option \<Rightarrow> string" where
  "OpenSummary st = (case Incidents_Open st of Inl _ \<Rightarrow> [] | Inr l \<Rightarrow> trim_right_nl (concat (map summary_line l)))"

section \<open>The ledger stays well formed\<close>

definition ledger_ok :: "Incident list \<Rightarrow> bool" where
  "ledger_ok l \<longleftrightarrow> distinct (map in_Fingerprint l) \<and> length l \<le> maxIncidents"

definition stored :: "ledger option \<Rightarrow> Incident list" where
  "stored st = (case st of Some (Some l) \<Rightarrow> l | _ \<Rightarrow> [])"

lemma distinct_map_filter_take: "distinct (map f l) \<Longrightarrow> distinct (map f (take n (filter P l)))"
  by (simp add: distinct_map_filter distinct_take take_map [symmetric])

lemma save_ok:
  assumes "distinct (map in_Fingerprint l)" "save ok fmt now l m = (r, m', arr)" "ledger_ok (stored (Some m))"
  shows "ledger_ok (stored (Some m'))"
  using assms
  by (auto simp: save_def Let_def ledger_ok_def stored_def kept_def distinct_map_filter take_map [symmetric] intro!: distinct_take
      split: if_splits option.splits)

lemma find_index_Some:
  "find_index fp l = Some n \<longleftrightarrow> n < length l \<and> in_Fingerprint (l ! n) = fp \<and> (\<forall>k < n. in_Fingerprint (l ! k) \<noteq> fp)"
proof (induction l arbitrary: n)
  case (Cons i l)
  show ?case by (cases n) (auto simp: Cons.IH less_Suc_eq_0_disj nth_Cons')
qed simp

lemma find_index_None: "find_index fp l = None \<longleftrightarrow> fp \<notin> set (map in_Fingerprint l)"
  by (induction l) auto

lemma map_update_same: "n < length l \<Longrightarrow> f x = f (l ! n) \<Longrightarrow> map f (l[n := x]) = map f l"
  by (simp add: map_update list_update_same_conv)

lemma touch_fingerprint [simp]: "in_Fingerprint (touch now t d s i) = in_Fingerprint i"
  by (simp add: touch_def Let_def)

lemma load_distinct: "ledger_ok (stored (Some m)) \<Longrightarrow> distinct (map in_Fingerprint (load m))"
  by (auto simp: ledger_ok_def stored_def load_def split: option.splits)


text \<open>Every operation that reaches \<open>save\<close> saves a list with the fingerprints of the loaded one, or one more.\<close>

lemma Report_ledger_ok:
  assumes "Report ok fmt now f t d s st = (r, st')" "ledger_ok (stored st)"
  shows "ledger_ok (stored st')"
proof -
  have upd: "distinct (map in_Fingerprint ((load m)[n := touch (fmt now) t d s (load m ! n)]))"
    if "ledger_ok (stored (Some m))" "find_index fp (load m) = Some n" for m n fp
    using load_distinct [OF that(1)] that(2) by (simp add: map_update_same find_index_Some)
  have new: "distinct (map in_Fingerprint (load m @ [new_incident (fmt now) fp t d s]))"
    if "ledger_ok (stored (Some m))" "find_index fp (load m) = None" for m fp
    using load_distinct [OF that(1)] that(2) by (simp add: find_index_None new_incident_def)
  show ?thesis using assms
    by (auto simp: Report_def Let_def dest: upd new elim!: save_ok [rotated] split: option.splits if_splits prod.splits sum.splits)
qed

lemma LogAction_ledger_ok:
  assumes "LogAction ok fmt now f x st = (r, st')" "ledger_ok (stored st)"
  shows "ledger_ok (stored st')"
proof -
  have upd: "distinct (map in_Fingerprint ((load m)[n := (load m ! n)\<lparr>in_Actions := a, in_LastSeen := b\<rparr>]))"
    if "ledger_ok (stored (Some m))" "find_index fp (load m) = Some n" for m n fp a b
    using load_distinct [OF that(1)] that(2) by (simp add: map_update_same find_index_Some)
  show ?thesis using assms
    by (auto simp: LogAction_def Let_def dest: upd elim!: save_ok [rotated] split: option.splits if_splits prod.splits sum.splits)
qed

lemma Resolve_ledger_ok:
  assumes "Resolve ok fmt now f x st = (r, st')" "ledger_ok (stored st)"
  shows "ledger_ok (stored st')"
proof -
  have upd: "distinct (map in_Fingerprint ((load m)[n := (load m ! n)\<lparr>in_Status := a, in_ResolvedAt := b, in_Resolution := c\<rparr>]))"
    if "ledger_ok (stored (Some m))" "find_index fp (load m) = Some n" for m n fp a b c
    using load_distinct [OF that(1)] that(2) by (simp add: map_update_same find_index_Some)
  show ?thesis using assms
    by (auto simp: Resolve_def Let_def dest: upd elim!: save_ok [rotated] split: option.splits if_splits prod.splits sum.splits)
qed

section \<open>Upserting\<close>

lemma set_load: "set (load m) = set (stored (Some m))" "length (load m) = length (stored (Some m))"
  by (simp_all add: load_def stored_def split: option.split)

lemma save_keeps:
  assumes "length l \<le> maxIncidents"
  shows "save True fmt now l m = (Inr (), Some (kept (fmt (now - resolvedRetention)) l),
    kept (fmt (now - resolvedRetention)) l @ drop (length (kept (fmt (now - resolvedRetention)) l)) l)"
proof -
  have "length (kept (fmt (now - resolvedRetention)) l) \<le> maxIncidents"
    using assms by (simp add: kept_def) (metis length_filter_le order_trans)
  then show ?thesis by (simp add: save_def Let_def)
qed

lemma touch_open: "in_Status (touch now t d s i) = ''open''" "in_LastSeen (touch now t d s i) = now"
  "in_TimesSeen (touch now t d s i) = in_TimesSeen i + 1" "in_FirstSeen (touch now t d s i) = in_FirstSeen i"
  by (simp_all add: touch_def Let_def)

text \<open>How often an incident has been seen, 0 when it is not in the list.\<close>

definition seen :: "string \<Rightarrow> Incident list \<Rightarrow> int" where
  "seen fp l = (case find_first (\<lambda>i. in_Fingerprint i = fp) l of None \<Rightarrow> 0 | Some i \<Rightarrow> in_TimesSeen i)"

lemma seen_unique: "distinct (map in_Fingerprint l) \<Longrightarrow> i \<in> set l \<Longrightarrow> seen (in_Fingerprint i) l = in_TimesSeen i"
  by (induction l) (auto simp: seen_def)


section \<open>Sample ledgers\<close>

definition demo_fmt :: "instant \<Rightarrow> string" where
  "demo_fmt t = show_int (100 + t div day)"

definition demo_incident :: "string \<Rightarrow> string \<Rightarrow> string \<Rightarrow> Incident" where
  "demo_incident fp seen_at resolved_at =
     zero_incident\<lparr>in_Fingerprint := fp, in_Status := ''resolved'', in_LastSeen := seen_at, in_TimesSeen := 1, in_ResolvedAt := resolved_at\<rparr>"

definition demo_ledger :: "Incident list" where
  "demo_ledger = [demo_incident ''a'' ''139'' ''105'', demo_incident ''b'' ''129'' ''130'', demo_incident ''c'' ''128'' ''131'']"


text \<open>
  \<open>Report\<close> can return another incident than the one reported. \<open>save\<close> filters the slice in place, so after
  an expired incident before the reported one has been dropped, the index of the reported incident holds
  its successor: here the report of \<open>b\<close> stores \<open>b\<close> as reopened and returns \<open>c\<close>.
\<close>

theorem report_returns_other_incident:
  "case Report True demo_fmt (40 * day) ''b'' [] [] [] (Some (Some demo_ledger)) of
     (r, st') \<Rightarrow> (\<exists>i. r = Inr (i, False) \<and> in_Fingerprint i = ''c'' \<and> in_Status i = ''resolved'') \<and>
       map in_Fingerprint (stored st') = [''b'', ''c'']"
proof -
  have "case Report True demo_fmt (40 * day) ''b'' [] [] [] (Some (Some demo_ledger)) of
     (r, st') \<Rightarrow> (case r of Inr (i, new) \<Rightarrow> \<not> new \<and> in_Fingerprint i = ''c'' \<and> in_Status i = ''resolved'' | Inl _ \<Rightarrow> False) \<and>
       map in_Fingerprint (stored st') = [''b'', ''c'']" by code_simp
  then show ?thesis by (auto split: prod.splits sum.splits)
qed

end
