(* ===== verification/Agent_Loop.thy ===== *)
theory Agent_Loop
  imports Sanitize
begin

text \<open>
  The tool-use loop of the agent, \<open>a2a/agent/agent.go\<close>. The language model is a service: a function of the
  iteration and of the conversation so far. A tool is a function of its arguments and of the world \<open>'w\<close>,
  which it may change. Besides its result the loop returns the world, the conversation, the number of
  calls of the model and the tool calls it executed.
\<close>

section \<open>Conversations\<close>

record tool_call =
  tc_id :: string
  tc_name :: string
  tc_arguments :: string

datatype message =
    SystemMessage string
  | UserMessage string
  | AssistantMessage string "tool_call list"
  | ToolMessage string string                 \<comment> \<open>content, call id\<close>

record choice =
  ch_finish :: string
  ch_content :: string
  ch_calls :: "tool_call list"

type_synonym model = "nat \<Rightarrow> message list \<Rightarrow> string + choice list"
type_synonym 'w toolset = "string \<rightharpoonup> (string \<Rightarrow> 'w \<Rightarrow> (string + string) \<times> 'w)"

record agent_cfg =
  ag_MaxTokens :: int
  ag_ResponsibilityMaxTokens :: int
  ag_MaxIter :: int
  ag_RequestTimeout :: string

text \<open>\<open>newAgent\<close>: the token budget and the timeout of a run; \<open>dur\<close> is \<open>time.ParseDuration\<close>.\<close>

definition agent_maxTokens :: "agent_cfg \<Rightarrow> string \<Rightarrow> int" where
  "agent_maxTokens cfg responsibility =
     (if responsibility \<noteq> [] \<and> ag_ResponsibilityMaxTokens cfg > 0 then ag_ResponsibilityMaxTokens cfg else ag_MaxTokens cfg)"

definition agent_timeout :: "(string \<Rightarrow> duration option) \<Rightarrow> agent_cfg \<Rightarrow> duration" where
  "agent_timeout dur cfg =
     (if ag_RequestTimeout cfg \<noteq> [] then (case dur (ag_RequestTimeout cfg) of Some d \<Rightarrow> d | None \<Rightarrow> 6 * minute) else 6 * minute)"

section \<open>One tool call\<close>

text \<open>The memory of a run: how often each signature was requested, and the last result of each.\<close>

record 'w run_state =
  ru_messages :: "message list"
  ru_counts :: "string \<Rightarrow> nat"
  ru_last :: "string \<Rightarrow> string"
  ru_world :: 'w
  ru_executed :: "(string \<times> string) list"

definition signature :: "tool_call \<Rightarrow> string" where
  "signature tc = tc_name tc @ '':'' @ tc_arguments tc"

definition say :: "message \<Rightarrow> 'w run_state \<Rightarrow> 'w run_state" where
  "say m s = s\<lparr>ru_messages := ru_messages s @ [m]\<rparr>"

definition nudge :: string where
  "nudge = nl @ nl @ ''[You already have this result from a previous call. Do not call this tool again with the same arguments '' @
     [CHR 0xE2, CHR 0x80, CHR 0x94] @ '' use the information above to write your final report now.]''"

definition repeated_answer :: "string \<Rightarrow> nat \<Rightarrow> string" where
  "repeated_answer cached n = cached @ nl @ nl @ ''(Note: the model repeated this tool call '' @ show_int (int n) @
     '' times without producing a final report; returning the last result.)''"

text \<open>\<open>Inl\<close>: the run ends with this answer; \<open>Inr\<close>: the state after the call.\<close>

definition unknown_text :: "string \<Rightarrow> string" where "unknown_text n = ''unknown tool: '' @ n"
definition error_text :: "string \<Rightarrow> string" where "error_text e = ''error: '' @ e"

definition run_call :: "'w toolset \<Rightarrow> tool_call \<Rightarrow> 'w run_state \<Rightarrow> (string \<times> 'w run_state) + 'w run_state" where
  "run_call tools tc s =
     (case tools (tc_name tc) of
        None \<Rightarrow> Inr (say (ToolMessage (unknown_text (tc_name tc)) (tc_id tc)) s)
      | Some t \<Rightarrow>
          let sig = signature tc;
              s = s\<lparr>ru_counts := (ru_counts s)(sig := ru_counts s sig + 1)\<rparr>;
              n = ru_counts s sig
          in if n \<ge> 3 then Inl (repeated_answer (ru_last s sig) n, s)
             else if n = 2 then Inr (say (ToolMessage (ru_last s sig @ nudge) (tc_id tc)) s)
             else
               let (r, w) = t (tc_arguments tc) (ru_world s);
                   s = s\<lparr>ru_world := w, ru_executed := ru_executed s @ [(tc_name tc, tc_arguments tc)]\<rparr>
               in (case r of
                     Inl e \<Rightarrow> Inr (say (ToolMessage (error_text e) (tc_id tc)) s)
                   | Inr out \<Rightarrow>
                       (let result = fst (ToolOutput out)
                        in Inr (say (ToolMessage result (tc_id tc)) (s\<lparr>ru_last := (ru_last s)(sig := result)\<rparr>)))))"

fun run_calls :: "'w toolset \<Rightarrow> tool_call list \<Rightarrow> 'w run_state \<Rightarrow> (string \<times> 'w run_state) + 'w run_state" where
  "run_calls tools [] s = Inr s"
| "run_calls tools (tc # tcs) s =
     (case run_call tools tc s of
        Inl r \<Rightarrow> Inl r
      | Inr s \<Rightarrow> run_calls tools tcs s)"

section \<open>The loop\<close>

datatype agent_error = APIError string | EmptyResponse | MaxIterations int

text \<open>\<open>left\<close> iterations remain; the third component of the result is the number of calls of the model.\<close>

fun agent_loop ::
    "model \<Rightarrow> 'w toolset \<Rightarrow> int \<Rightarrow> nat \<Rightarrow> nat \<Rightarrow> 'w run_state \<Rightarrow> (agent_error + string) \<times> 'w run_state \<times> nat" where
  "agent_loop model tools maxIter iter 0 s = (Inl (MaxIterations maxIter), s, iter)"
| "agent_loop model tools maxIter iter (Suc left) s =
     (case model iter (ru_messages s) of
        Inl e \<Rightarrow> (Inl (APIError e), s, Suc iter)
      | Inr [] \<Rightarrow> (Inl EmptyResponse, s, Suc iter)
      | Inr (c # _) \<Rightarrow>
          if ch_finish c \<noteq> ''tool_calls'' then (Inr (ch_content c), s, Suc iter)
          else
            (case run_calls tools (ch_calls c) (say (AssistantMessage (ch_content c) (ch_calls c)) s) of
               Inl (answer, s) \<Rightarrow> (Inr answer, s, Suc iter)
             | Inr s \<Rightarrow> agent_loop model tools maxIter (Suc iter) left s))"

definition start_state :: "string \<Rightarrow> string \<Rightarrow> 'w \<Rightarrow> 'w run_state" where
  "start_state systemPrompt input w =
     \<lparr>ru_messages = [SystemMessage systemPrompt, UserMessage input], ru_counts = (\<lambda>_. 0), ru_last = (\<lambda>_. []), ru_world = w,
      ru_executed = []\<rparr>"

definition Run :: "model \<Rightarrow> 'w toolset \<Rightarrow> agent_cfg \<Rightarrow> string \<Rightarrow> string \<Rightarrow> 'w \<Rightarrow> (agent_error + string) \<times> 'w run_state \<times> nat" where
  "Run model tools cfg systemPrompt input w =
     agent_loop model tools (ag_MaxIter cfg) 0 (nat (ag_MaxIter cfg)) (start_state systemPrompt input w)"

section \<open>Invariant of a run\<close>

definition clean :: "string \<Rightarrow> bool" where
  "clean s \<longleftrightarrow> s = [] \<or> (\<exists>out. s = fst (ToolOutput out))"

text \<open>What a tool message may be.\<close>

definition tool_text_ok :: "string \<Rightarrow> bool" where
  "tool_text_ok s \<longleftrightarrow> clean s \<or> (\<exists>r. clean r \<and> s = r @ nudge) \<or> (\<exists>n. s = unknown_text n) \<or> (\<exists>e. s = error_text e)"

definition run_ok :: "'w toolset \<Rightarrow> 'w run_state \<Rightarrow> bool" where
  "run_ok tools s \<longleftrightarrow>
     distinct (ru_executed s) \<and>
     (\<forall>(n, a) \<in> set (ru_executed s). n \<in> dom tools \<and> ru_counts s (n @ '':'' @ a) \<ge> 1) \<and>
     (\<forall>sig. clean (ru_last s sig)) \<and>
     (\<forall>t i. ToolMessage t i \<in> set (ru_messages s) \<longrightarrow> tool_text_ok t)"

lemma say_simps [simp]:
  "ru_messages (say m s) = ru_messages s @ [m]" "ru_counts (say m s) = ru_counts s" "ru_last (say m s) = ru_last s"
  "ru_executed (say m s) = ru_executed s" "ru_world (say m s) = ru_world s"
  by (simp_all add: say_def)

lemma run_ok_say:
  "run_ok tools s \<Longrightarrow> (\<And>t i. m = ToolMessage t i \<Longrightarrow> tool_text_ok t) \<Longrightarrow> run_ok tools (say m s)"
  by (auto simp: run_ok_def)

lemma run_ok_count:
  "run_ok tools s \<Longrightarrow> run_ok tools (s\<lparr>ru_counts := (ru_counts s)(sig := ru_counts s sig + 1)\<rparr>)"
  by (auto simp: run_ok_def)

lemma clean_simps [simp]: "clean []" "clean (fst (ToolOutput out))"
  by (auto simp: clean_def)

lemma tool_text_okI:
  "clean r \<Longrightarrow> tool_text_ok r" "clean r \<Longrightarrow> tool_text_ok (r @ nudge)" "tool_text_ok (unknown_text n)" "tool_text_ok (error_text e)"
  unfolding tool_text_ok_def by blast+

lemma run_ok_execute:
  assumes "run_ok tools s" "n \<in> dom tools" "ru_counts s (n @ '':'' @ a) = 0"
  shows "run_ok tools (s\<lparr>ru_counts := (ru_counts s)(n @ '':'' @ a := 1), ru_world := w, ru_executed := ru_executed s @ [(n, a)]\<rparr>)"
proof -
  have "(n, a) \<notin> set (ru_executed s)" using assms(1,3) by (auto simp: run_ok_def)
  then show ?thesis using assms by (auto simp: run_ok_def)
qed

lemma run_call_ok:
  assumes "run_ok tools s"
  shows "case run_call tools tc s of Inl (a, s') \<Rightarrow> run_ok tools s' | Inr s' \<Rightarrow> run_ok tools s'"
proof (cases "tools (tc_name tc)")
  case None
  then show ?thesis using assms by (auto simp: run_call_def intro!: run_ok_say intro: tool_text_okI)
next
  case (Some t)
  let ?sig = "tc_name tc @ '':'' @ tc_arguments tc"
  have last: "clean (ru_last s ?sig)" using assms(1) by (simp add: run_ok_def)
  show ?thesis
  proof (cases "ru_counts s ?sig = 0")
    case True
    obtain r w where r: "t (tc_arguments tc) (ru_world s) = (r, w)" by fastforce
    note ex = run_ok_execute [OF assms _ True, of w] 
    have ex: "run_ok tools (s\<lparr>ru_counts := (ru_counts s)(?sig := 1), ru_world := w, ru_executed := ru_executed s @ [(tc_name tc, tc_arguments tc)]\<rparr>)"
      using ex Some by (auto simp: dom_def)
    then have "run_ok tools (s\<lparr>ru_counts := (ru_counts s)(?sig := 1), ru_world := w,
        ru_executed := ru_executed s @ [(tc_name tc, tc_arguments tc)], ru_last := (ru_last s)(?sig := fst (ToolOutput out))\<rparr>)" for out
      by (auto simp: run_ok_def)
    with ex Some True r show ?thesis
      by (cases r) (auto simp: run_call_def Let_def signature_def intro!: run_ok_say intro: tool_text_okI)
  next
    case False
    with Some show ?thesis
      using run_ok_count [OF assms(1), of ?sig] last
      by (auto simp: run_call_def Let_def signature_def intro!: run_ok_say intro: tool_text_okI)
  qed
qed

lemma run_calls_ok:
  "run_ok tools s \<Longrightarrow>
     case run_calls tools tcs s of Inl (a, s') \<Rightarrow> run_ok tools s' | Inr s' \<Rightarrow> run_ok tools s'"
proof (induction tcs arbitrary: s)
  case (Cons tc tcs)
  show ?case
  proof (cases "run_call tools tc s")
    case (Inl x)
    then show ?thesis using run_call_ok [OF Cons.prems, of tc] by simp
  next
    case (Inr s2)
    then show ?thesis using run_call_ok [OF Cons.prems, of tc] Cons.IH [of s2] by simp
  qed
qed simp

lemma agent_loop_ok:
  "run_ok tools s \<Longrightarrow> agent_loop model tools mi iter left s = (r, s', n) \<Longrightarrow>
     run_ok tools s' \<and> iter \<le> n \<and> n \<le> iter + left"
proof (induction left arbitrary: iter s)
  case (Suc left)
  have ok: "run_ok tools (say (AssistantMessage x y) s)" for x y using Suc.prems(1) by (auto intro!: run_ok_say)
  show ?case
  proof (cases "model iter (ru_messages s)")
    case (Inr cs)
    show ?thesis
    proof (cases cs)
      case (Cons c rest)
      show ?thesis
      proof (cases "ch_finish c \<noteq> ''tool_calls''")
        case False
        show ?thesis
          using run_calls_ok [OF ok [of "ch_content c" "ch_calls c"], of "ch_calls c"] Suc.IH Suc.prems(2)
            Inr Cons False by (fastforce split: sum.splits prod.splits)
      qed (use Suc.prems Inr Cons in auto)
    qed (use Suc.prems Inr in auto)
  qed (use Suc.prems in auto)
qed simp

section \<open>What a run may do\<close>

lemma start_ok: "run_ok tools (start_state sys input w)"
  by (auto simp: run_ok_def start_state_def)

text \<open>
  C19: a run is bounded and repeats no tool call. Whatever the model answers and whatever the tools do, a run
  returns after at most \<open>MaxIter\<close> calls of the model; no tool is executed twice with the same arguments;
  only known tools are executed; and everything the model is told in the name of a tool is sanitised
  output (possibly with the nudge to finish), the notice of an unknown tool, or the text of an error.
\<close>

theorem Run_bounded:
  assumes "Run model tools cfg sys input w = (r, s, n)"
  shows "int n \<le> max 0 (ag_MaxIter cfg) \<and> distinct (ru_executed s) \<and> fst ` set (ru_executed s) \<subseteq> dom tools \<and>
    (\<forall>t i. ToolMessage t i \<in> set (ru_messages s) \<longrightarrow> tool_text_ok t)"
proof -
  have "run_ok tools s \<and> n \<le> nat (ag_MaxIter cfg)"
    using agent_loop_ok [OF start_ok assms [unfolded Run_def]] by simp
  then show ?thesis by (auto simp: run_ok_def)
qed

definition demo_tools :: "nat toolset" where
  "demo_tools n = (if n = ''df'' then Some (\<lambda>a w. (if w = 0 then Inl ''busy'' else Inr ''ok'', Suc w)) else None)"

definition demo_model :: model where
  "demo_model i ms = Inr [\<lparr>ch_finish = ''tool_calls'', ch_content = [], ch_calls = [\<lparr>tc_id = ''c'', tc_name = ''df'', tc_arguments = show_int (int (i div 3))\<rparr>]\<rparr>]"

definition demo_agent :: agent_cfg where
  "demo_agent = \<lparr>ag_MaxTokens = 10, ag_ResponsibilityMaxTokens = 0, ag_MaxIter = 2, ag_RequestTimeout = []\<rparr>"

theorem Run_bounded_witness:
  "\<exists>r s n. Run demo_model demo_tools demo_agent [] [] 0 = (r, s, n) \<and> n = 2 \<and> int n \<le> max 0 (ag_MaxIter demo_agent) \<and>
     ru_executed s = [(''df'', ''0'')] \<and> distinct (ru_executed s)"
proof -
  obtain r s n where run: "Run demo_model demo_tools demo_agent [] [] 0 = (r, s, n)" by (metis prod.exhaust)
  have "snd (snd (Run demo_model demo_tools demo_agent [] [] 0)) = 2 \<and>
      ru_executed (fst (snd (Run demo_model demo_tools demo_agent [] [] 0))) = [(''df'', ''0'')]" by code_simp
  with run Run_bounded [OF run] show ?thesis by simp
qed

text \<open>
  A tool call that failed cannot be retried. If the first execution of a call fails, the model is told the
  text of the error, as it is and not sanitised; when it asks again with the same arguments, the tool is
  not run and the model is told that it already has the result, which is empty; and when it asks a third
  time, the run ends with that empty result.
\<close>

theorem failed_call_not_retried:
  assumes "tools (tc_name tc) = Some t" "ru_counts s (signature tc) = 0" "ru_last s (signature tc) = []"
    and "t (tc_arguments tc) (ru_world s) = (Inl e, w)"
  shows "\<exists>s2. run_calls tools [tc, tc] s = Inr s2 \<and>
      ru_messages s2 = ru_messages s @ [ToolMessage (error_text e) (tc_id tc), ToolMessage nudge (tc_id tc)] \<and>
      ru_executed s2 = ru_executed s @ [(tc_name tc, tc_arguments tc)] \<and>
      (\<exists>s3. run_calls tools [tc, tc, tc] s = Inl (repeated_answer [] 3, s3))"
  using assms by (simp add: run_call_def Let_def numeral_3_eq_3)

theorem failed_call_not_retried_witness:
  "\<exists>s2. run_calls demo_tools [\<lparr>tc_id = ''c'', tc_name = ''df'', tc_arguments = []\<rparr>, \<lparr>tc_id = ''c'', tc_name = ''df'', tc_arguments = []\<rparr>]
       (start_state [] [] 0) = Inr s2 \<and> ru_executed s2 = [(''df'', [])] \<and>
     ru_messages s2 = [SystemMessage [], UserMessage [], ToolMessage (error_text ''busy'') ''c'', ToolMessage nudge ''c'']"
  using failed_call_not_retried [of demo_tools "\<lparr>tc_id = ''c'', tc_name = ''df'', tc_arguments = []\<rparr>"
      "\<lambda>a w. (if w = 0 then Inl ''busy'' else Inr ''ok'', Suc w)" "start_state [] [] 0" "''busy''" "Suc 0"]
  by (auto simp: demo_tools_def start_state_def)

end
