(* ===== verification/Scheduler.thy ===== *)
theory Scheduler
  imports Agent_Loop Incidents
begin

text \<open>
  The scheduler of responsibilities: \<open>loop/responsibility.go\<close> and \<open>loop/loop.go\<close>, with the skill states of
  \<open>skillstate/skillstate.go\<close> it writes to and the listing of \<open>responsibilitiesapi\<close>. A \<open>time.Time\<close> read from the
  clock carries a wall-clock and a monotonic reading; comparisons of two such times use the monotonic one, and
  formatting uses the wall clock. \<open>zone\<close> is the offset of the local time zone at an instant, \<open>dur\<close> is
  \<open>time.ParseDuration\<close>.
\<close>

section \<open>Times of day and dates\<close>

record gotime =
  wall :: instant
  mono :: instant

definition gotime_Add :: "gotime \<Rightarrow> duration \<Rightarrow> gotime" where
  "gotime_Add t d = \<lparr>wall = wall t + d, mono = mono t + d\<rparr>"

type_synonym zone = "instant \<Rightarrow> int"

text \<open>The reading of a local clock, as nanoseconds since 1970-01-01 00:00 of that clock.\<close>

definition local_ns :: "zone \<Rightarrow> instant \<Rightarrow> int" where
  "local_ns zone t = t + zone t"

definition digit :: "int \<Rightarrow> char" where
  "digit n = char_of (48 + nat (n mod 10))"

definition pad2 :: "int \<Rightarrow> string" where
  "pad2 n = [digit (n div 10), digit n]"

text \<open>\<open>Format("15:04")\<close> of a local reading.\<close>

definition format_tod :: "int \<Rightarrow> string" where
  "format_tod l = pad2 (l div hour mod 24) @ '':'' @ pad2 (l div minute mod 60)"

text \<open>
  The civil date of a day number (day 0 is 1970-01-01). Eras of 400 years and the years in them begin on the first
  of March; \<open>year_start\<close> is the number of days of an era before a year of it.
\<close>

definition year_start :: "int \<Rightarrow> int" where
  "year_start y = 365 * y + y div 4 - y div 100 + y div 400"

definition year_of :: "int \<Rightarrow> int" where
  "year_of doe = (let g = doe div 365 in if year_start g \<le> doe then g else g - 1)"

definition civil :: "int \<Rightarrow> int \<times> int \<times> int" where
  "civil n =
     (let z = n + 719468; era = z div 146097; doe = z mod 146097;
          yoe = year_of doe;
          doy = doe - year_start yoe;
          mp = (5 * doy + 2) div 153;
          d = doy - (153 * mp + 2) div 5 + 1;
          m = (if mp < 10 then mp + 3 else mp - 9)
      in (yoe + era * 400 + (if m \<le> 2 then 1 else 0), m, d))"

text \<open>\<open>Format("2006-01-02")\<close>, for the years 0 to 9999.\<close>

definition date_text :: "int \<times> int \<times> int \<Rightarrow> string" where
  "date_text = (\<lambda>(y, m, d). pad2 (y div 100) @ pad2 (y mod 100) @ ''-'' @ pad2 m @ ''-'' @ pad2 d)"

definition format_date :: "int \<Rightarrow> string" where
  "format_date l = date_text (civil (l div day))"

text \<open>\<open>time.Parse("15:04", s)\<close>: one or two digits for the hour, two for the minute; the result is the time of day.\<close>

definition getnum :: "bool \<Rightarrow> string \<Rightarrow> (int \<times> string) option" where
  "getnum fixed s =
     (case s of
        [] \<Rightarrow> None
      | c # s' \<Rightarrow>
          if \<not> is_digit c then None
          else (case s' of
                  c' # s'' \<Rightarrow>
                    if is_digit c' then Some (int (digits_value [c, c']), s'')
                    else if fixed then None else Some (int (digits_value [c]), s')
                | [] \<Rightarrow> if fixed then None else Some (int (digits_value [c]), s')))"

definition parse_tod :: "string \<Rightarrow> duration option" where
  "parse_tod s =
     (case getnum False s of
        Some (h, c # s') \<Rightarrow>
          if c \<noteq> CHR '':'' \<or> h \<ge> 24 then None
          else (case getnum True s' of
                  Some (m, []) \<Rightarrow> if m \<ge> 60 then None else Some (h * hour + m * minute)
                | _ \<Rightarrow> None)
      | _ \<Rightarrow> None)"

section \<open>Responsibilities\<close>

record ResponsibilitySettings =
  rc_Name :: string
  rc_Frequency :: string
  rc_Time :: string
  rc_Instruction :: string
  rc_Tools :: "string list"
  rc_WhenToNotify :: string

record Responsibility =
  rs_cfg :: ResponsibilitySettings
  rs_Running :: bool
  rs_Freq :: duration
  rs_nextRun :: gotime
  rs_TimeOfDay :: string
  rs_lastRunDate :: string

datatype schedule_error = BothGiven string | BadFrequency string | BadTime string | NoSchedule string

definition zero_time :: gotime where "zero_time = \<lparr>wall = 0, mono = 0\<rparr>"

definition fresh_responsibility :: "ResponsibilitySettings \<Rightarrow> Responsibility" where
  "fresh_responsibility cfg =
     \<lparr>rs_cfg = cfg, rs_Running = False, rs_Freq = 0, rs_nextRun = zero_time, rs_TimeOfDay = [], rs_lastRunDate = []\<rparr>"

definition NewResponsibility ::
    "(string \<Rightarrow> duration option) \<Rightarrow> gotime \<Rightarrow> ResponsibilitySettings \<Rightarrow> duration \<Rightarrow> schedule_error + Responsibility" where
  "NewResponsibility dur now cfg startupDelay =
     (if rc_Frequency cfg \<noteq> [] \<and> rc_Time cfg \<noteq> [] then Inl (BothGiven (rc_Name cfg))
      else if rc_Frequency cfg \<noteq> [] then
        (case dur (rc_Frequency cfg) of
           Some d \<Rightarrow>
             if d \<le> 0 then Inl (BadFrequency (rc_Name cfg))
             else Inr ((fresh_responsibility cfg)\<lparr>rs_Freq := d, rs_nextRun := gotime_Add now startupDelay\<rparr>)
         | None \<Rightarrow> Inl (BadFrequency (rc_Name cfg)))
      else if rc_Time cfg \<noteq> [] then
        (case parse_tod (rc_Time cfg) of
           Some t \<Rightarrow> Inr ((fresh_responsibility cfg)\<lparr>rs_TimeOfDay := format_tod (t + startupDelay)\<rparr>)
         | None \<Rightarrow> Inl (BadTime (rc_Name cfg)))
      else Inl (NoSchedule (rc_Name cfg)))"

definition Due :: "zone \<Rightarrow> gotime \<Rightarrow> Responsibility \<Rightarrow> bool" where
  "Due zone now r =
     (if rs_Freq r > 0 then \<not> mono now < mono (rs_nextRun r)
      else format_tod (local_ns zone (wall now)) = rs_TimeOfDay r \<and>
           rs_lastRunDate r \<noteq> format_date (local_ns zone (wall now)))"

definition Schedule :: "zone \<Rightarrow> gotime \<Rightarrow> Responsibility \<Rightarrow> Responsibility" where
  "Schedule zone now r =
     (if rs_Freq r > 0 then r\<lparr>rs_nextRun := gotime_Add now (rs_Freq r)\<rparr>
      else r\<lparr>rs_lastRunDate := format_date (local_ns zone (wall now))\<rparr>)"

text \<open>
  \<open>NextRunAt\<close>. \<open>at_local\<close> is the instant of a local reading, found the way \<open>time.Date\<close> finds it: by the offset in
  force around it.
\<close>

definition at_local :: "zone \<Rightarrow> int \<Rightarrow> instant" where
  "at_local zone l = l - zone (l - zone l)"

definition NextRunAt :: "zone \<Rightarrow> instant \<Rightarrow> Responsibility \<Rightarrow> instant option" where
  "NextRunAt zone now r =
     (if rs_Freq r > 0 then Some (wall (rs_nextRun r))
      else case parse_tod (rs_TimeOfDay r) of
        None \<Rightarrow> None
      | Some tod \<Rightarrow>
          let candidate = at_local zone (local_ns zone now div day * day + tod)
          in Some (if candidate > now then candidate else candidate + 24 * hour))"

definition ScheduleLabel :: "Responsibility \<Rightarrow> string" where
  "ScheduleLabel r = (if rs_Freq r > 0 then ''every '' @ rc_Frequency (rs_cfg r) else ''daily at '' @ rs_TimeOfDay r)"

section \<open>The loop\<close>

text \<open>\<open>New\<close>: invalid settings are skipped. \<open>jitterMin\<close> is the random delay in minutes, \<open>now\<close> the clock at each entry.\<close>

fun loop_New :: "(string \<Rightarrow> duration option) \<Rightarrow> duration \<Rightarrow> (ResponsibilitySettings \<times> gotime) list \<Rightarrow> Responsibility list" where
  "loop_New dur startupDelay [] = []"
| "loop_New dur startupDelay ((rc, now) # rcs) =
     (case NewResponsibility dur now rc startupDelay of
        Inl e \<Rightarrow> loop_New dur startupDelay rcs
      | Inr r \<Rightarrow> r # loop_New dur startupDelay rcs)"

definition RunningTasks :: "Responsibility list \<Rightarrow> string list" where
  "RunningTasks rs = map (rc_Name \<circ> rs_cfg) (filter rs_Running rs)"

definition CurrentTask :: "Responsibility list \<Rightarrow> string" where
  "CurrentTask rs = (case RunningTasks rs of [] \<Rightarrow> [] | n # _ \<Rightarrow> n)"

definition loop_heartbeat :: "(string \<Rightarrow> duration option) \<Rightarrow> string \<Rightarrow> duration" where
  "loop_heartbeat dur s = (case dur s of Some h \<Rightarrow> if h \<le> 0 then second else h | None \<Rightarrow> second)"

text \<open>
  The body of \<open>tick\<close> for one responsibility: the new state, and whether \<open>execute\<close> was started. Its parts run in
  one goroutine; only \<open>Running\<close> is shared, and it is taken by one compare-and-swap.
\<close>

definition visit :: "zone \<Rightarrow> gotime \<Rightarrow> Responsibility \<Rightarrow> Responsibility \<times> bool" where
  "visit zone now r =
     (if \<not> Due zone now r then (r, False)
      else let r = Schedule zone now r
           in if rs_Running r then (r, False) else (r\<lparr>rs_Running := True\<rparr>, True))"

fun tick :: "zone \<Rightarrow> gotime \<Rightarrow> Responsibility list \<Rightarrow> Responsibility list \<times> Responsibility list" where
  "tick zone now [] = ([], [])"
| "tick zone now (r # rs) =
     (let (r', started) = visit zone now r; (rs', launched) = tick zone now rs
      in (r' # rs', if started then r' # launched else launched))"

section \<open>Skill states\<close>

text \<open>
  The memory domain of skill and run states, a map in the sense of \<open>SetKey\<close> and \<open>AllKeys\<close>. Text passes through
  \<open>encoding/json\<close>, which writes U+FFFD for bytes that are not UTF-8 (\<open>as_json\<close>). The two kinds of value share
  the field \<open>summary\<close>, so one decodes as the other with its remaining fields empty.
\<close>

record RunState =
  rn_LastRunAt :: string
  rn_Status :: string
  rn_Summary :: string

record skill_State =
  sk_Skill :: string
  sk_Health :: string
  sk_Summary :: string
  sk_Time :: string

datatype skill_raw = RunRecord RunState | SkillRecord skill_State

definition as_json :: "string \<Rightarrow> string" where
  "as_json s = encode_runes (runes s)"

definition dec_run :: "skill_raw \<Rightarrow> RunState" where
  "dec_run v = (case v of RunRecord s \<Rightarrow> s | SkillRecord s \<Rightarrow> \<lparr>rn_LastRunAt = [], rn_Status = [], rn_Summary = sk_Summary s\<rparr>)"

definition dec_skill :: "skill_raw \<Rightarrow> skill_State" where
  "dec_skill v =
     (case v of SkillRecord s \<Rightarrow> s
      | RunRecord s \<Rightarrow> \<lparr>sk_Skill = [], sk_Health = [], sk_Summary = rn_Summary s, sk_Time = []\<rparr>)"

record loop_mem =
  lm_states :: "string \<rightharpoonup> skill_raw"
  lm_notes :: "(string \<times> string) list"        \<comment> \<open>subject and body of the notifications written\<close>

definition skill_SetKey :: "bool \<Rightarrow> string \<Rightarrow> skill_raw \<Rightarrow> loop_mem \<Rightarrow> loop_mem" where
  "skill_SetKey ok key v m = (if ok then m\<lparr>lm_states := (lm_states m)(key \<mapsto> v)\<rparr> else m)"

definition keyPrefix :: string where "keyPrefix = ''skill_state:''"

definition skill_Save :: "bool \<Rightarrow> (instant \<Rightarrow> string) \<Rightarrow> instant \<Rightarrow> string \<Rightarrow> string \<Rightarrow> string \<Rightarrow> loop_mem option \<Rightarrow> loop_mem option" where
  "skill_Save ok fmt now skill health summary mem =
     map_option (skill_SetKey ok (keyPrefix @ skill)
       (SkillRecord \<lparr>sk_Skill = as_json skill, sk_Health = as_json health, sk_Summary = as_json summary, sk_Time = fmt now\<rparr>)) mem"

text \<open>\<open>ks\<close> is the order in which the map is walked.\<close>

definition skill_LoadAll :: "string list \<Rightarrow> loop_mem option \<Rightarrow> skill_State list" where
  "skill_LoadAll ks mem =
     (case mem of
        None \<Rightarrow> []
      | Some m \<Rightarrow>
          sort_by (\<lambda>a b. str_less (sk_Skill a) (sk_Skill b))
            (List.map_filter (\<lambda>k. if HasPrefix k keyPrefix then map_option dec_skill (lm_states m k) else None) ks))"

section \<open>One execution\<close>

definition AttrRunPrefix :: string where "AttrRunPrefix = ''responsibility_run:''"
definition maxSummaryLen :: nat where "maxSummaryLen = 300"

definition clip :: "string \<Rightarrow> string" where
  "clip s = (if length s > maxSummaryLen then take maxSummaryLen s @ ''...'' else s)"

definition persistRunState ::
    "bool \<Rightarrow> (instant \<Rightarrow> string) \<Rightarrow> instant \<Rightarrow> Responsibility \<Rightarrow> string \<Rightarrow> string option \<Rightarrow> loop_mem \<Rightarrow> loop_mem" where
  "persistRunState ok fmt now r result err m =
     (let status = (if err \<noteq> None then ''error'' else ''ok'');
          summary = clip result;
          summary = (case err of Some e \<Rightarrow> if summary = [] then clip e else summary | None \<Rightarrow> summary)
      in skill_SetKey ok (AttrRunPrefix @ rc_Name (rs_cfg r))
           (RunRecord \<lparr>rn_LastRunAt = fmt now, rn_Status = status, rn_Summary = as_json summary\<rparr>) m)"

definition Notify :: "bool \<Rightarrow> string \<Rightarrow> string \<Rightarrow> loop_mem \<Rightarrow> loop_mem" where
  "Notify ok subject body m = (if ok then m\<lparr>lm_notes := lm_notes m @ [(subject, body)]\<rparr> else m)"

definition notify_mode :: "string \<Rightarrow> string" where
  "notify_mode s = ToLower (map (\<lambda>c. if c = CHR '' '' then CHR ''_'' else c) (TrimSpace s))"

definition maybeNotify :: "bool \<Rightarrow> Responsibility \<Rightarrow> string \<Rightarrow> string option \<Rightarrow> loop_mem \<Rightarrow> loop_mem" where
  "maybeNotify ok r result err m =
     (let mode = notify_mode (rc_WhenToNotify (rs_cfg r)); name = rc_Name (rs_cfg r) in
      case err of
        Some e \<Rightarrow>
          if mode = ''never'' then m
          else Notify ok (''['' @ name @ ''] responsibility failed'') (''Error: '' @ e) m
      | None \<Rightarrow> if mode = ''always'' then Notify ok (''['' @ name @ ''] responsibility report'') result m else m)"

text \<open>
  \<open>filterTools\<close>: a later tool of the registry shadows an earlier one of the same name. \<open>toolIndex\<close> is the map
  that \<open>Run\<close> of the agent builds of the tools it is given.
\<close>

definition toolIndex :: "(string \<times> (string \<Rightarrow> 'w \<Rightarrow> (string + string) \<times> 'w)) list \<Rightarrow> 'w toolset" where
  "toolIndex ts = fold (\<lambda>(n, t) m. m(n \<mapsto> t)) ts Map.empty"

definition filterTools ::
    "(string \<times> (string \<Rightarrow> 'w \<Rightarrow> (string + string) \<times> 'w)) list \<Rightarrow> string list \<Rightarrow>
      (string \<times> (string \<Rightarrow> 'w \<Rightarrow> (string + string) \<times> 'w)) list" where
  "filterTools registry names = List.map_filter (\<lambda>n. map_option (Pair n) (toolIndex registry n)) names"

definition incidents_intro :: string where
  "incidents_intro = ''OPEN INCIDENTS already being tracked from previous runs:''"

definition incidents_rules :: string where
  "incidents_rules =
     ''Do not file duplicate findings for these. If you observe one of them again, '' @
     ''record the recurrence (manage_incidents action=report with the same fingerprint) '' @
     ''or log any action you take against it (action=log_action). If it is no longer '' @
     ''occurring, resolve it (action=resolve) and mention that in your report. '' @
     ''Open a new incident only for a problem not covered by the list above.''"

definition withOpenIncidents :: "ledger option \<Rightarrow> string \<Rightarrow> string" where
  "withOpenIncidents inc instruction =
     (let summary = OpenSummary inc in
      if summary = [] then instruction
      else instruction @ nl @ nl @ incidents_intro @ nl @ summary @ nl @ incidents_rules)"

definition agent_error_text :: "agent_error \<Rightarrow> string" where
  "agent_error_text e =
     (case e of
        APIError t \<Rightarrow> ''agent run failed: '' @ t
      | EmptyResponse \<Rightarrow> ''agent: empty response from API''
      | MaxIterations n \<Rightarrow> ''agent: max iterations ('' @ show_int n @ '') exceeded'')"

text \<open>
  A pre-check returns an error, or whether the model is needed and a report. \<open>model\<close> and the tools are those of
  the agent's loop. The result is the memory, the world, the tool calls executed, the number of calls of
  the model and the state of the responsibility, which is not running any more.
\<close>

type_synonym precheck = "string + bool \<times> string"

record 'w loop_cfg =
  lp_registry :: "(string \<times> (string \<Rightarrow> 'w \<Rightarrow> (string + string) \<times> 'w)) list"
  lp_agent :: agent_cfg
  lp_systemPrompt :: string
  lp_preChecks :: "string \<rightharpoonup> precheck"
  lp_incidents :: "ledger option"

definition report_header :: string where "report_header = ''Pre-gathered health report:''"

definition finish_run ::
    "bool \<Rightarrow> bool \<Rightarrow> (instant \<Rightarrow> string) \<Rightarrow> instant \<Rightarrow> Responsibility \<Rightarrow> string \<Rightarrow> string option \<Rightarrow> loop_mem \<Rightarrow> loop_mem" where
  "finish_run ok1 ok2 fmt now r result err m = maybeNotify ok2 r result err (persistRunState ok1 fmt now r result err m)"

definition run_agent ::
    "model \<Rightarrow> 'w loop_cfg \<Rightarrow> Responsibility \<Rightarrow> string \<Rightarrow> 'w \<Rightarrow> string \<times> string option \<times> 'w \<times> (string \<times> string) list \<times> nat" where
  "run_agent model l r instruction w =
     (case Run model (toolIndex (filterTools (lp_registry l) (rc_Tools (rs_cfg r)))) (lp_agent l) (lp_systemPrompt l)
             (withOpenIncidents (lp_incidents l) instruction) w of
        (Inl e, s, n) \<Rightarrow> ([], Some (agent_error_text e), ru_world s, ru_executed s, n)
      | (Inr result, s, n) \<Rightarrow> (result, None, ru_world s, ru_executed s, n))"

text \<open>The pre-check of a responsibility: \<open>Inl\<close> the summary of a run that needs no model, \<open>Inr\<close> the instruction for the agent.\<close>

definition pre_check :: "'w loop_cfg \<Rightarrow> Responsibility \<Rightarrow> string + string" where
  "pre_check l r =
     (let instruction = rc_Instruction (rs_cfg r) in
      case lp_preChecks l (rc_Name (rs_cfg r)) of
        None \<Rightarrow> Inr instruction
      | Some (Inl e) \<Rightarrow> Inr instruction
      | Some (Inr (needsLLM, report)) \<Rightarrow>
          if \<not> needsLLM then Inl report
          else if report \<noteq> [] then Inr (instruction @ nl @ nl @ report_header @ nl @ report)
          else Inr instruction)"

definition execute ::
    "model \<Rightarrow> 'w loop_cfg \<Rightarrow> bool \<Rightarrow> bool \<Rightarrow> (instant \<Rightarrow> string) \<Rightarrow> instant \<Rightarrow> Responsibility \<Rightarrow> 'w \<Rightarrow> loop_mem \<Rightarrow>
      Responsibility \<times> loop_mem \<times> 'w \<times> (string \<times> string) list \<times> nat" where
  "execute model l ok1 ok2 fmt now r w m =
     (case pre_check l r of
        Inl report \<Rightarrow> (r\<lparr>rs_Running := False\<rparr>, finish_run ok1 ok2 fmt now r report None m, w, [], 0)
      | Inr instruction \<Rightarrow>
          (case run_agent model l r instruction w of
             (result, err, w, ex, n) \<Rightarrow> (r\<lparr>rs_Running := False\<rparr>, finish_run ok1 ok2 fmt now r result err m, w, ex, n)))"

section \<open>The listing\<close>

record ResponsibilityItem =
  it_Name :: string
  it_Schedule :: string
  it_Tools :: "string list"
  it_Instruction :: string
  it_LastRunAt :: "string option"
  it_NextRunAt :: "string option"
  it_Status :: string
  it_Summary :: string

definition buildItem :: "zone \<Rightarrow> (instant \<Rightarrow> string) \<Rightarrow> instant \<Rightarrow> (string \<rightharpoonup> skill_raw) \<Rightarrow> Responsibility \<Rightarrow> ResponsibilityItem" where
  "buildItem zone fmt now attrs r =
     (let cfg = rs_cfg r;
          item = \<lparr>it_Name = rc_Name cfg, it_Schedule = ScheduleLabel r, it_Tools = rc_Tools cfg, it_Instruction = rc_Instruction cfg,
                  it_LastRunAt = None, it_NextRunAt = None, it_Status = ''never'', it_Summary = []\<rparr>;
          item = (case attrs (AttrRunPrefix @ rc_Name cfg) of
                    Some v \<Rightarrow> item\<lparr>it_LastRunAt := Some (rn_LastRunAt (dec_run v)), it_Status := rn_Status (dec_run v),
                                    it_Summary := rn_Summary (dec_run v)\<rparr>
                  | None \<Rightarrow> item);
          item = (if rs_Running r then item\<lparr>it_Status := ''running''\<rparr> else item)
      in item\<lparr>it_NextRunAt := map_option fmt (NextRunAt zone now r)\<rparr>)"

definition responsibilities_handler ::
    "zone \<Rightarrow> (instant \<Rightarrow> string) \<Rightarrow> instant \<Rightarrow> string \<Rightarrow> loop_mem \<Rightarrow> Responsibility list \<Rightarrow> nat \<times> ResponsibilityItem list" where
  "responsibilities_handler zone fmt now verb m rs =
     (if verb \<noteq> ''GET'' then (405, []) else (200, map (buildItem zone fmt now (lm_states m)) rs))"

section \<open>Dates\<close>

lemma year_step:
  assumes "0 < g" "g \<le> 400"
  shows "year_start g \<le> year_start (g - 1) + 366" "year_start (g - 1) \<le> 365 * g - 265"
proof -
  have "g div 4 \<le> (g - 1) div 4 + 1" "(g - 1) div 100 \<le> g div 100" by linarith+
  moreover have "g = 400 \<or> g div 400 = 0 \<and> (g - 1) div 400 = 0" using assms by auto
  ultimately show "year_start g \<le> year_start (g - 1) + 366" by (auto simp: year_start_def)
  have "(g - 1) div 4 \<le> 100" "0 \<le> (g - 1) div 100" "(g - 1) div 400 = 0" using assms by simp_all
  then show "year_start (g - 1) \<le> 365 * g - 265" by (simp add: year_start_def)
qed

lemma year_of_bounds:
  assumes "0 \<le> doe" "doe < 146097"
  shows "0 \<le> year_of doe \<and> year_of doe < 400 \<and> year_start (year_of doe) \<le> doe \<and> doe \<le> year_start (year_of doe) + 365"
proof -
  define g where "g = doe div 365"
  have g: "365 * g \<le> doe" "doe < 365 * g + 365" "0 \<le> g" "g \<le> 400" using assms by (auto simp: g_def)
  show ?thesis
  proof (cases "year_start g \<le> doe")
    case True
    have "g \<noteq> 400" using True assms by (auto simp: year_start_def)
    then have "g < 400" using g by simp
    then show ?thesis using True g by (simp add: year_of_def g_def [symmetric] year_start_def Let_def)
  next
    case False
    have "g \<noteq> 0" using False assms by (auto simp: year_start_def)
    then show ?thesis using False g year_step [of g] by (simp add: year_of_def g_def [symmetric] Let_def)
  qed
qed

lemma month_bounds: "0 \<le> doy \<Longrightarrow> doy \<le> 365 \<Longrightarrow> 0 \<le> (5 * doy + 2) div 153 \<and> (5 * doy + 2) div 153 \<le> (11::int)"
  by auto

text \<open>The day number is recovered from the date.\<close>

definition day_number :: "int \<times> int \<times> int \<Rightarrow> int" where
  "day_number = (\<lambda>(y, m, d).
     let y0 = (if m \<le> 2 then y - 1 else y); mp = (if m \<le> 2 then m + 9 else m - 3)
     in y0 div 400 * 146097 + year_start (y0 mod 400) + (153 * mp + 2) div 5 + d - 1 - 719468)"

lemma day_number_civil: "day_number (civil n) = n"
proof -
  define z era doe where "z = n + 719468" and "era = z div 146097" and "doe = z mod 146097"
  define yoe doy where "yoe = year_of doe" and "doy = doe - year_start yoe"
  define mp where "mp = (5 * doy + 2) div 153"
  have "0 \<le> doe" "doe < 146097" by (simp_all add: doe_def)
  from year_of_bounds [OF this] have y: "0 \<le> yoe" "yoe < 400" "0 \<le> doy" "doy \<le> 365"
    by (simp_all add: yoe_def doy_def)
  have mp: "0 \<le> mp" "mp \<le> 11" using month_bounds [OF y(3,4)] by (simp_all add: mp_def)
  have z: "era * 146097 + doe = z" by (simp add: era_def doe_def)
  have civ: "civil n = (yoe + era * 400 + (if (if mp < 10 then mp + 3 else mp - 9) \<le> 2 then 1 else 0),
      if mp < 10 then mp + 3 else mp - 9, doy - (153 * mp + 2) div 5 + 1)"
    by (simp add: civil_def Let_def z_def era_def doe_def yoe_def doy_def mp_def)
  have "(yoe + era * 400) div 400 = era" "(yoe + era * 400) mod 400 = yoe" using y(1,2) by simp_all
  then show ?thesis using mp z unfolding civ by (auto simp: day_number_def Let_def doy_def z_def)
qed

lemma digit_inj: "digit a = digit b \<longleftrightarrow> a mod 10 = b mod 10"
proof -
  have "of_char (digit n) = 48 + nat (n mod 10)" for n by (simp add: digit_def)
  then show ?thesis by (metis add_left_cancel digit_def nat_int_comparison(1) Euclidean_Rings.pos_mod_sign zero_less_numeral nat_0_le)
qed

lemma pad2_inj: "0 \<le> a \<Longrightarrow> a < 100 \<Longrightarrow> 0 \<le> b \<Longrightarrow> b < 100 \<Longrightarrow> pad2 a = pad2 b \<longleftrightarrow> a = b"
  by (auto simp: pad2_def digit_inj) (metis div_mult_mod_eq)

text \<open>The days from 1970 to the year 4707, whose year has four digits.\<close>

definition dated :: "int \<Rightarrow> bool" where
  "dated n \<longleftrightarrow> 0 \<le> n \<and> n \<le> 1000000"

lemma civil_bounds:
  assumes "dated n" "civil n = (y, m, d)"
  shows "0 \<le> y \<and> y < 10000 \<and> 0 \<le> m \<and> m < 100 \<and> 0 \<le> d \<and> d < 100"
proof -
  define z doe where "z = n + 719468" and "doe = z mod 146097"
  define yoe doy where "yoe = year_of doe" and "doy = doe - year_start yoe"
  define mp where "mp = (5 * doy + 2) div 153"
  have z: "0 \<le> z div 146097" "z div 146097 \<le> 20" using assms(1) by (auto simp: dated_def z_def)
  have "0 \<le> doe" "doe < 146097" by (simp_all add: doe_def)
  from year_of_bounds [OF this] have y: "0 \<le> yoe" "yoe < 400" "0 \<le> doy" "doy \<le> 365"
    by (simp_all add: yoe_def doy_def)
  have mp: "0 \<le> mp" "mp \<le> 11" using month_bounds [OF y(3,4)] by (simp_all add: mp_def)
  have b: "153 * mp \<le> 5 * doy + 2" "5 * doy + 2 < 153 * mp + 153" by (simp_all add: mp_def)
  have d: "0 \<le> doy - (153 * mp + 2) div 5" "doy - (153 * mp + 2) div 5 < 99" using b by linarith+
  have "(y, m, d) = (yoe + z div 146097 * 400 + (if (if mp < 10 then mp + 3 else mp - 9) \<le> 2 then 1 else 0),
      if mp < 10 then mp + 3 else mp - 9, doy - (153 * mp + 2) div 5 + 1)"
    unfolding assms(2) [symmetric] by (simp add: civil_def Let_def z_def doe_def yoe_def doy_def mp_def)
  then show ?thesis using y z mp d by (auto split: if_splits)
qed

lemma date_text_inj:
  assumes "dated a" "dated b" "date_text (civil a) = date_text (civil b)"
  shows "a = b"
proof -
  obtain y m d y' m' d' where c: "civil a = (y, m, d)" "civil b = (y', m', d')" by (metis prod.exhaust)
  have len: "length (pad2 n) = 2" for n by (simp add: pad2_def)
  note ba = civil_bounds [OF assms(1) c(1)] and bb = civil_bounds [OF assms(2) c(2)]
  have y: "0 \<le> y div 100" "y div 100 < 100" "0 \<le> y' div 100" "y' div 100 < 100" using ba bb by linarith+
  have "pad2 (y div 100) = pad2 (y' div 100)" "pad2 (y mod 100) = pad2 (y' mod 100)" "pad2 m = pad2 m'" "pad2 d = pad2 d'"
    using assms(3) unfolding c date_text_def prod.case by (simp_all add: len)
  then have "y div 100 = y' div 100" "y mod 100 = y' mod 100" "m = m'" "d = d'"
    using ba bb y pad2_inj [of "y div 100" "y' div 100"] by (simp_all add: pad2_inj)
  then have "civil a = civil b" using c by (metis div_mult_mod_eq)
  then show ?thesis by (metis day_number_civil)
qed

lemma format_tod_minutes:
  assumes "format_tod a = format_tod b"
  shows "a div minute mod 1440 = b div minute mod 1440"
proof -
  have h: "l div hour mod 24 = l div minute div 60 mod 24" for l
    by (simp add: duration_defs div_mult2_eq [symmetric] zdiv_zmult2_eq [symmetric])
  have len: "length (pad2 n) = 2" for n by (simp add: pad2_def)
  have "pad2 (a div hour mod 24) = pad2 (b div hour mod 24)" "pad2 (a div minute mod 60) = pad2 (b div minute mod 60)"
    using assms by (simp_all add: format_tod_def len)
  then have "a div hour mod 24 = b div hour mod 24" "a div minute mod 60 = b div minute mod 60" by (simp_all add: pad2_inj)
  moreover have "n mod 1440 = n mod 60 + 60 * (n div 60 mod 24)" for n :: int
    using zmod_zmult2_eq [of 24 n 60] by simp
  ultimately show ?thesis by (simp add: h)
qed

section \<open>Overlap and spacing of runs\<close>

text \<open>
  The loop as a system: the ticker visits responsibilities, and a started execution ends at some later moment.
  \<open>ls_active\<close> lists the executions in flight by index, \<open>ls_log\<close> all that were started. The monotonic reading of a
  visit is not before the one of the previous visit, and neither is its local date.
\<close>

record lsys =
  ls_resp :: "Responsibility list"
  ls_active :: "nat list"
  ls_log :: "(nat \<times> gotime) list"
  ls_now :: gotime

definition local_day :: "zone \<Rightarrow> gotime \<Rightarrow> int" where
  "local_day zone t = local_ns zone (wall t) div day"

definition loop_init :: "gotime \<Rightarrow> Responsibility list \<Rightarrow> lsys" where
  "loop_init now rs = \<lparr>ls_resp = rs, ls_active = [], ls_log = [], ls_now = now\<rparr>"

definition loop_visit :: "zone \<Rightarrow> gotime \<Rightarrow> nat \<Rightarrow> lsys \<Rightarrow> lsys" where
  "loop_visit zone now i s =
     (let (r, started) = visit zone now (ls_resp s ! i)
      in s\<lparr>ls_resp := (ls_resp s)[i := r], ls_now := now,
           ls_active := (if started then i # ls_active s else ls_active s),
           ls_log := (if started then ls_log s @ [(i, now)] else ls_log s)\<rparr>)"

definition loop_finish :: "nat \<Rightarrow> lsys \<Rightarrow> lsys" where
  "loop_finish i s =
     s\<lparr>ls_resp := (ls_resp s)[i := (ls_resp s ! i)\<lparr>rs_Running := False\<rparr>], ls_active := remove1 i (ls_active s)\<rparr>"

inductive loop_reach :: "zone \<Rightarrow> lsys \<Rightarrow> lsys \<Rightarrow> bool" for zone s0 where
  start: "loop_reach zone s0 s0"
| visit: "loop_reach zone s0 s \<Longrightarrow> i < length (ls_resp s) \<Longrightarrow> mono (ls_now s) \<le> mono now \<Longrightarrow>
     local_day zone (ls_now s) \<le> local_day zone now \<Longrightarrow> loop_reach zone s0 (loop_visit zone now i s)"
| finish: "loop_reach zone s0 s \<Longrightarrow> i \<in> set (ls_active s) \<Longrightarrow> loop_reach zone s0 (loop_finish i s)"

lemma tick_visits:
  "tick zone now rs =
     (map (fst \<circ> visit zone now) rs, map (fst \<circ> visit zone now) (filter (snd \<circ> visit zone now) rs))"
  by (induction rs) (auto split: prod.splits)

text \<open>A tick is a visit of every responsibility at one reading of the clock.\<close>

lemma tick_as_visits:
  "k \<le> length (ls_resp s) \<Longrightarrow>
     ls_resp (fold (loop_visit zone now) [0..<k] s) = fst (tick zone now (take k (ls_resp s))) @ drop k (ls_resp s)"
proof (induction k)
  case (Suc k)
  then have k: "k < length (ls_resp s)" by simp
  have "ls_resp (loop_visit zone now k t) = (ls_resp t)[k := fst (visit zone now (ls_resp t ! k))]" for t
    by (simp add: loop_visit_def split: prod.splits)
  then show ?case
    using Suc k by (simp add: tick_visits take_Suc_conv_app_nth nth_append list_update_append Cons_nth_drop_Suc [symmetric])
qed (simp add: tick_visits)

definition launches :: "nat \<Rightarrow> lsys \<Rightarrow> gotime list" where
  "launches i s = map snd (filter (\<lambda>e. fst e = i) (ls_log s))"

text \<open>What is known of one responsibility and of its starts.\<close>

definition spaced :: "zone \<Rightarrow> Responsibility \<Rightarrow> gotime list \<Rightarrow> bool" where
  "spaced zone r ts =
     (if rs_Freq r > 0 then sorted_wrt (\<lambda>a b. mono a + rs_Freq r \<le> mono b) ts
      else sorted_wrt (\<lambda>a b. local_day zone a < local_day zone b) ts \<and>
           list_all (\<lambda>t. format_tod (local_ns zone (wall t)) = rs_TimeOfDay r) ts)"

definition scheduled :: "zone \<Rightarrow> gotime \<Rightarrow> Responsibility \<Rightarrow> gotime list \<Rightarrow> bool" where
  "scheduled zone now r ts \<longleftrightarrow> spaced zone r ts \<and>
     (if rs_Freq r > 0 then \<forall>t \<in> set ts. mono t + rs_Freq r \<le> mono (rs_nextRun r)
      else ts \<noteq> [] \<longrightarrow> (\<exists>d. rs_lastRunDate r = date_text (civil d) \<and> d \<le> local_day zone now \<and>
                          (\<forall>t \<in> set ts. local_day zone t \<le> d)))"

lemma scheduled_later:
  "scheduled zone now r ts \<Longrightarrow> local_day zone now \<le> local_day zone now' \<Longrightarrow> scheduled zone now' r ts"
  unfolding scheduled_def by (metis order_trans)

lemma scheduled_visit:
  assumes "scheduled zone prev r ts" "local_day zone prev \<le> local_day zone now" "visit zone now r = (r', started)"
  shows "scheduled zone now r' (if started then ts @ [now] else ts)"
proof (cases "rs_Freq r > 0")
  case True
  then show ?thesis using assms
    by (auto simp: visit_def Due_def Schedule_def scheduled_def spaced_def gotime_Add_def Let_def sorted_wrt_append
        split: if_splits intro: order_trans)
next
  case False
  show ?thesis
  proof (cases "Due zone now r")
    case True
    have r': "rs_lastRunDate r' = date_text (civil (local_day zone now))" "rs_Freq r' = rs_Freq r" "rs_TimeOfDay r' = rs_TimeOfDay r"
      using assms(3) True False
      by (auto simp: visit_def Schedule_def Let_def format_date_def local_day_def split: if_splits)
    have due: "format_tod (local_ns zone (wall now)) = rs_TimeOfDay r" "rs_lastRunDate r \<noteq> date_text (civil (local_day zone now))"
      using True False by (auto simp: Due_def format_date_def local_day_def)
    have old: "spaced zone r ts" using assms(1) by (simp add: scheduled_def)
    have days: "\<forall>t \<in> set ts. local_day zone t < local_day zone now"
    proof (cases "ts = []")
      case ne: False
      then obtain d where d: "rs_lastRunDate r = date_text (civil d)" "d \<le> local_day zone prev" "\<forall>t \<in> set ts. local_day zone t \<le> d"
        using assms(1) False by (auto simp: scheduled_def)
      have "d < local_day zone now" using d due(2) assms(2) by (metis antisym_conv2 order_trans)
      then show ?thesis using d(3) by auto
    qed simp
    have "spaced zone r' (if started then ts @ [now] else ts)"
      using old days due(1) r' False by (auto simp: spaced_def sorted_wrt_append)
    then show ?thesis using days r' False by (fastforce simp: scheduled_def)
  next
    case no: False
    then show ?thesis using assms scheduled_later [of zone prev r ts now] by (auto simp: visit_def)
  qed
qed

lemma scheduled_running: "scheduled zone now (r\<lparr>rs_Running := b\<rparr>) ts = scheduled zone now r ts"
  by (simp add: scheduled_def spaced_def)

definition loop_inv :: "zone \<Rightarrow> lsys \<Rightarrow> bool" where
  "loop_inv zone s \<longleftrightarrow>
     distinct (ls_active s) \<and>
     set (ls_active s) = {i. i < length (ls_resp s) \<and> rs_Running (ls_resp s ! i)} \<and>
     (\<forall>i < length (ls_resp s). scheduled zone (ls_now s) (ls_resp s ! i) (launches i s))"

lemma visit_running: "visit zone now r = (r', started) \<Longrightarrow> rs_Running r' = (rs_Running r \<or> started) \<and> (started \<longrightarrow> \<not> rs_Running r)"
  by (auto simp: visit_def Schedule_def Let_def split: if_splits)

lemma loop_inv_visit:
  assumes "loop_inv zone s" "i < length (ls_resp s)" "local_day zone (ls_now s) \<le> local_day zone now"
  shows "loop_inv zone (loop_visit zone now i s)"
proof -
  obtain r started where v: "visit zone now (ls_resp s ! i) = (r, started)" by (metis prod.exhaust)
  define s' where "s' = loop_visit zone now i s"
  note [simp] = visit_running [OF v]
  have s': "ls_resp s' = (ls_resp s)[i := r]" "ls_active s' = (if started then i # ls_active s else ls_active s)" "ls_now s' = now"
    "launches j s' = (if started \<and> j = i then launches j s @ [now] else launches j s)" for j
    using v by (auto simp: s'_def loop_visit_def launches_def)
  have "set (ls_active s') = {j. j < length (ls_resp s') \<and> rs_Running (ls_resp s' ! j)}"
    using assms(1,2) v by (auto simp: s' loop_inv_def nth_list_update split: if_splits)
  moreover have "distinct (ls_active s')" using assms(1) by (auto simp: s' loop_inv_def)
  moreover have "scheduled zone now (ls_resp s' ! j) (launches j s')" if "j < length (ls_resp s)" for j
    using assms that scheduled_visit [OF _ assms(3) v, of "launches i s"] scheduled_later [of zone "ls_now s" "ls_resp s ! j" "launches j s" now]
    by (auto simp: s' loop_inv_def nth_list_update)
  ultimately show ?thesis unfolding s'_def [symmetric] by (simp add: loop_inv_def s')
qed

lemma loop_inv_finish:
  assumes "loop_inv zone s" "i \<in> set (ls_active s)"
  shows "loop_inv zone (loop_finish i s)"
proof -
  have "launches j (loop_finish i s) = launches j s" for j by (simp add: launches_def loop_finish_def)
  then show ?thesis using assms
    by (auto simp: loop_inv_def loop_finish_def nth_list_update scheduled_running set_remove1_eq split: if_splits)
qed

lemma loop_inv_reach:
  assumes "loop_reach zone s0 s" "loop_inv zone s0"
  shows "loop_inv zone s"
  using assms by induction (auto intro: loop_inv_visit loop_inv_finish)

lemma fresh_idle: "r \<in> set (loop_New dur delay rcs) \<Longrightarrow> \<not> rs_Running r"
  by (induction dur delay rcs rule: loop_New.induct)
    (auto simp: NewResponsibility_def fresh_responsibility_def split: sum.splits if_splits option.splits)

lemma loop_inv_init: "loop_inv zone (loop_init now (loop_New dur delay rcs))"
  using fresh_idle nth_mem by (fastforce simp: loop_inv_def loop_init_def launches_def scheduled_def spaced_def)

text \<open>
  C20: responsibilities do not overlap and are not started too often. In every interleaving of ticks and of
  ends of executions, an execution is in flight exactly for the responsibilities marked as running, at most one
  for each. Two starts of a responsibility with a frequency are at least that far apart; a
  responsibility with a time of day is started in that minute, and at most once for each local date.
\<close>

theorem runs_spaced:
  assumes "loop_reach zone (loop_init now (loop_New dur startupDelay rcs)) s" "i < length (ls_resp s)"
  shows "distinct (ls_active s) \<and> (i \<in> set (ls_active s) \<longleftrightarrow> rs_Running (ls_resp s ! i)) \<and>
    spaced zone (ls_resp s ! i) (launches i s)"
  using loop_inv_reach [OF assms(1) loop_inv_init] assms(2) by (auto simp: loop_inv_def scheduled_def)

section \<open>Daily runs happen\<close>

lemma format_tod_iff: "format_tod a = format_tod b \<longleftrightarrow> a div minute mod 1440 = b div minute mod 1440"
proof
  have h: "l div hour mod 24 = l div minute mod 1440 div 60" for l
  proof -
    have "l div hour = l div minute div 60" by (simp add: duration_defs zdiv_zmult2_eq [symmetric])
    moreover have "m div 60 mod 24 = m mod 1440 div 60" for m :: int
      using zmod_zmult2_eq [of 24 m 60] by simp
    ultimately show ?thesis by simp
  qed
  have m: "l div minute mod 60 = l div minute mod 1440 mod 60" for l by (simp add: mod_mod_cancel)
  show "a div minute mod 1440 = b div minute mod 1440 \<Longrightarrow> format_tod a = format_tod b"
    unfolding format_tod_def h m by simp
qed (rule format_tod_minutes)

lemma day_of_minute: "l div day = l div minute div 1440"
  by (simp add: duration_defs zdiv_zmult2_eq [symmetric])

text \<open>The clock reads minute \<open>k\<close> of a day, and the same minute cannot come earlier on that day.\<close>

lemma earlier_minute:
  assumes "format_tod l = format_tod (k * minute)" "l div minute < D * 1440 + k mod 1440"
  shows "l div day \<noteq> D"
proof
  assume "l div day = D"
  then have "l div minute = D * 1440 + l div minute mod 1440"
    using div_mult_mod_eq [of "l div minute" 1440] by (simp add: day_of_minute)
  moreover have "l div minute mod 1440 = k mod 1440" using assms(1) by (simp add: format_tod_iff duration_defs)
  ultimately show False using assms(2) by simp
qed

text \<open>
  One responsibility through a sequence of ticks. The flag of a tick says that an execution started earlier has
  ended by then; the result says for every tick whether an execution was started.
\<close>

fun watch :: "zone \<Rightarrow> (gotime \<times> bool) list \<Rightarrow> Responsibility \<Rightarrow> (gotime \<times> bool) list" where
  "watch zone [] r = []"
| "watch zone ((now, ended) # ts) r =
     (let (r', started) = visit zone now (if ended then r\<lparr>rs_Running := False\<rparr> else r)
      in (now, started) # watch zone ts r')"

definition tick_minute :: "zone \<Rightarrow> gotime \<times> bool \<Rightarrow> int" where
  "tick_minute zone t = local_ns zone (wall (fst t)) div minute"

definition waiting_for :: "int \<Rightarrow> int \<Rightarrow> Responsibility \<Rightarrow> bool" where
  "waiting_for D k r \<longleftrightarrow> rs_Freq r = 0 \<and> rs_TimeOfDay r = format_tod (k * minute) \<and> rs_lastRunDate r \<noteq> date_text (civil D)"

lemma waiting_visit:
  assumes "waiting_for D k r" "dated D" "dated (local_day zone now)"
    and "local_ns zone (wall now) div minute < D * 1440 + k mod 1440" "visit zone now r = (r', started)"
  shows "waiting_for D k r'"
proof (cases "Due zone now r")
  case True
  have "local_day zone now \<noteq> D"
    using True assms(1,4) earlier_minute [of "local_ns zone (wall now)" k D] by (auto simp: Due_def waiting_for_def local_day_def)
  then have "date_text (civil (local_day zone now)) \<noteq> date_text (civil D)" using date_text_inj assms(2,3) by blast
  then show ?thesis using True assms(1,5)
    by (auto simp: visit_def Schedule_def waiting_for_def format_date_def local_day_def Let_def split: if_splits)
qed (use assms in \<open>auto simp: visit_def\<close>)

lemma watch_fires:
  assumes "waiting_for D k r" "dated D" "list_all (\<lambda>t. dated (local_day zone (fst t))) ts"
    and "ts \<noteq> []" "tick_minute zone (hd ts) < D * 1440 + k mod 1440"
    and "successively (\<lambda>a b. local_ns zone (wall (fst b)) \<le> local_ns zone (wall (fst a)) + minute) ts"
    and "list_ex (\<lambda>t. D * 1440 + k mod 1440 \<le> tick_minute zone t) ts"
    and "list_all (\<lambda>t. tick_minute zone t = D * 1440 + k mod 1440 \<longrightarrow> snd t) ts"
  shows "\<exists>now. (now, True) \<in> set (watch zone ts r) \<and> tick_minute zone (now, True) = D * 1440 + k mod 1440"
  using assms
proof (induction ts arbitrary: r)
  case (Cons t ts)
  obtain now e where t: "t = (now, e)" by (cases t)
  define r0 where "r0 = (if e then r\<lparr>rs_Running := False\<rparr> else r)"
  obtain r1 b where v: "visit zone now r0 = (r1, b)" by (metis prod.exhaust)
  have r1: "waiting_for D k r1"
    using waiting_visit [of D k r0 zone now r1 b] Cons.prems v t by (auto simp: r0_def waiting_for_def tick_minute_def)
  obtain n2 e2 ts2 where ts: "ts = (n2, e2) # ts2"
    using Cons.prems(5,7) by (cases ts) auto
  have near: "tick_minute zone (n2, e2) \<le> D * 1440 + k mod 1440"
  proof -
    have "local_ns zone (wall n2) \<le> local_ns zone (wall now) + minute" using Cons.prems(6) by (simp add: t ts)
    then have "local_ns zone (wall n2) div minute \<le> (local_ns zone (wall now) + minute) div minute"
      by (simp add: duration_defs zdiv_mono1)
    also have "\<dots> = local_ns zone (wall now) div minute + 1" by (simp add: duration_defs)
    finally show ?thesis using Cons.prems(5) by (simp add: t tick_minute_def)
  qed
  show ?case
  proof (cases "tick_minute zone (n2, e2) = D * 1440 + k mod 1440")
    case True
    then have "format_tod (local_ns zone (wall n2)) = format_tod (k * minute)"
      by (simp add: format_tod_iff tick_minute_def duration_defs)
    moreover have "local_ns zone (wall n2) div day = D" using True by (simp add: day_of_minute tick_minute_def)
    ultimately have "Due zone n2 (r1\<lparr>rs_Running := False\<rparr>)" using r1 by (simp add: Due_def waiting_for_def format_date_def)
    moreover have e2 using Cons.prems(8) True by (simp add: ts)
    ultimately have "(n2, True) \<in> set (watch zone ts r1)"
      by (auto simp: ts visit_def Schedule_def Let_def split: prod.splits)
    then show ?thesis using True v by (auto simp: t r0_def [symmetric] tick_minute_def)
  next
    case False
    then have "\<exists>now. (now, True) \<in> set (watch zone ts r1) \<and> tick_minute zone (now, True) = D * 1440 + k mod 1440"
      using Cons.prems near r1 by (intro Cons.IH) (auto simp: ts t)
    then show ?thesis using v by (auto simp: t r0_def [symmetric])
  qed
qed simp

lemma parse_tod_minutes:
  assumes "parse_tod s = Some tod"
  shows "\<exists>m. tod = m * minute"
proof -
  obtain h m where "tod = h * hour + m * minute"
    using assms by (auto simp: parse_tod_def split: option.splits list.splits if_splits)
  then have "tod = (h * 60 + m) * minute" by (simp add: duration_defs)
  then show ?thesis by blast
qed


definition demo_settings :: "string \<Rightarrow> string \<Rightarrow> ResponsibilitySettings" where
  "demo_settings freq t = \<lparr>rc_Name = ''patch'', rc_Frequency = freq, rc_Time = t, rc_Instruction = ''check'', rc_Tools = [''df''],
     rc_WhenToNotify = ''on error''\<rparr>"

definition demo_ticks :: "(gotime \<times> bool) list" where
  "demo_ticks = map (\<lambda>n. (\<lparr>wall = n * 50 * second, mono = 0\<rparr>, True)) [0, 1, 2, 3]"


theorem runs_spaced_witness:
  "\<exists>s. loop_reach (\<lambda>_. 0) (loop_init zero_time (loop_New (\<lambda>_. Some hour) 0 [(demo_settings ''1h'' [], zero_time)])) s \<and>
     launches 0 s = [zero_time] \<and> 0 \<in> set (ls_active s) \<and> spaced (\<lambda>_. 0) (ls_resp s ! 0) (launches 0 s)"
proof -
  define s0 where "s0 = loop_init zero_time (loop_New (\<lambda>_. Some hour) 0 [(demo_settings ''1h'' [], zero_time)])"
  have r: "loop_reach (\<lambda>_. 0) s0 (loop_visit (\<lambda>_. 0) zero_time 0 s0)"
    by (rule loop_reach.visit [OF loop_reach.start]) (simp_all add: s0_def loop_init_def NewResponsibility_def demo_settings_def duration_defs)
  have l: "0 < length (ls_resp (loop_visit (\<lambda>_. 0) zero_time 0 s0))" unfolding s0_def by code_simp
  have "launches 0 (loop_visit (\<lambda>_. 0) zero_time 0 s0) = [zero_time] \<and> 0 \<in> set (ls_active (loop_visit (\<lambda>_. 0) zero_time 0 s0))"
    unfolding s0_def by code_simp
  with r runs_spaced [OF r [unfolded s0_def] l [unfolded s0_def]] show ?thesis unfolding s0_def by blast
qed

section \<open>What an execution does\<close>

lemma toolIndex_fold: "fold (\<lambda>(n, t) m. m(n \<mapsto> t)) ts m0 n = Some t \<Longrightarrow> m0 n = Some t \<or> (n, t) \<in> set ts"
proof (induction ts arbitrary: m0)
  case (Cons p ts)
  obtain a b where "p = (a, b)" by (cases p)
  then show ?case using Cons.IH [of "m0(a \<mapsto> b)"] Cons.prems by (auto split: if_splits)
qed simp

lemma toolIndex_Some: "toolIndex ts n = Some t \<Longrightarrow> (n, t) \<in> set ts"
  using toolIndex_fold [of ts Map.empty] by (auto simp: toolIndex_def)

lemma filterTools_sub: "(n, t) \<in> set (filterTools registry names) \<Longrightarrow> n \<in> set names \<and> (n, t) \<in> set registry"
  by (auto simp: filterTools_def in_set_map_filter dest: toolIndex_Some)

lemma run_agent_contract:
  assumes "run_agent model l r instruction w = (result, err, w', ex, n)"
  shows "int n \<le> max 0 (ag_MaxIter (lp_agent l)) \<and> distinct ex \<and>
    fst ` set ex \<subseteq> set (rc_Tools (rs_cfg r)) \<inter> fst ` set (lp_registry l) \<and> (err \<noteq> None \<longrightarrow> result = [])"
proof -
  define tools where "tools = toolIndex (filterTools (lp_registry l) (rc_Tools (rs_cfg r)))"
  obtain x s k where run: "Run model tools (lp_agent l) (lp_systemPrompt l) (withOpenIncidents (lp_incidents l) instruction) w = (x, s, k)"
    by (metis prod.exhaust)
  have k: "run_ok tools s \<and> k \<le> nat (ag_MaxIter (lp_agent l))"
    using agent_loop_ok [OF start_ok run [unfolded Run_def]] by simp
  have dom: "dom tools \<subseteq> set (rc_Tools (rs_cfg r)) \<inter> fst ` set (lp_registry l)"
    by (force simp: tools_def dest: toolIndex_Some filterTools_sub)
  have e: "n = k \<and> ex = ru_executed s \<and> (err \<noteq> None \<longrightarrow> result = [])"
    using assms run by (auto simp: run_agent_def tools_def split: sum.splits)
  have "fst ` set ex \<subseteq> dom tools" "distinct ex" using k e by (auto simp: run_ok_def)
  then have "fst ` set ex \<subseteq> set (rc_Tools (rs_cfg r)) \<inter> fst ` set (lp_registry l)" using dom by (blast intro: subset_trans)
  then show ?thesis using k e \<open>distinct ex\<close> by auto
qed

definition run_record :: "Responsibility \<Rightarrow> loop_mem \<Rightarrow> RunState option" where
  "run_record r m = map_option dec_run (lm_states m (AttrRunPrefix @ rc_Name (rs_cfg r)))"

lemma finish_run_contract:
  "run_record r (finish_run True ok fmt now r result err m) =
     Some \<lparr>rn_LastRunAt = fmt now, rn_Status = (if err = None then ''ok'' else ''error''),
           rn_Summary = as_json (clip (if err \<noteq> None \<and> result = [] then the err else result))\<rparr>"
  "length (lm_notes (finish_run ok1 True fmt now r result err m)) = length (lm_notes m) +
     (if (if err = None then notify_mode (rc_WhenToNotify (rs_cfg r)) = ''always''
          else notify_mode (rc_WhenToNotify (rs_cfg r)) \<noteq> ''never'') then 1 else 0)"
  by (auto simp: run_record_def finish_run_def maybeNotify_def persistRunState_def skill_SetKey_def Notify_def dec_run_def clip_def
      Let_def maxSummaryLen_def split: option.splits)

text \<open>
  The contract of one execution. It leaves the responsibility not running. It executes only tools that the
  responsibility lists and the registry has, none of them twice with the same arguments, within the iterations of the
  agent. When the pre-check finds nothing, the model is not called and the world is untouched; a
  failing pre-check never suppresses the run. With working storage, exactly one run record is written and its
  status says whether the run failed; a failed run is notified unless the mode is \<open>never\<close>, a successful one only when
  it is \<open>always\<close>.
\<close>

theorem execute_contract:
  assumes "execute model l True True fmt now r w m = (r', m', w', ex, n)"
  shows "r' = r\<lparr>rs_Running := False\<rparr> \<and>
    distinct ex \<and> fst ` set ex \<subseteq> set (rc_Tools (rs_cfg r)) \<inter> fst ` set (lp_registry l) \<and>
    int n \<le> max 0 (ag_MaxIter (lp_agent l)) \<and>
    (case pre_check l r of
       Inl report \<Rightarrow> lp_preChecks l (rc_Name (rs_cfg r)) = Some (Inr (False, report)) \<and> n = 0 \<and> ex = [] \<and> w' = w \<and>
         map_option rn_Summary (run_record r m') = Some (as_json (clip report))
     | Inr instruction \<Rightarrow> \<exists>result err. run_agent model l r instruction w = (result, err, w', ex, n) \<and>
         map_option rn_Status (run_record r m') = Some (if err = None then ''ok'' else ''error'')) \<and>
    (\<exists>s. run_record r m' = Some s \<and> rn_LastRunAt s = fmt now \<and> rn_Status s \<in> {''ok'', ''error''} \<and>
       length (lm_notes m') = length (lm_notes m) +
         (if (if rn_Status s = ''ok'' then notify_mode (rc_WhenToNotify (rs_cfg r)) = ''always''
              else notify_mode (rc_WhenToNotify (rs_cfg r)) \<noteq> ''never'') then 1 else 0))"
proof -
  have rec: "\<exists>s. run_record r (finish_run True True fmt now r result err m) = Some s \<and> rn_LastRunAt s = fmt now \<and>
      rn_Status s \<in> {''ok'', ''error''} \<and>
      length (lm_notes (finish_run True True fmt now r result err m)) = length (lm_notes m) +
        (if (if rn_Status s = ''ok'' then notify_mode (rc_WhenToNotify (rs_cfg r)) = ''always''
             else notify_mode (rc_WhenToNotify (rs_cfg r)) \<noteq> ''never'') then 1 else 0)" for result err
    by (cases err) (simp_all add: finish_run_contract)
  show ?thesis
  proof (cases "pre_check l r")
    case (Inl report)
    then have "lp_preChecks l (rc_Name (rs_cfg r)) = Some (Inr (False, report))"
      by (auto simp: pre_check_def Let_def split: option.splits sum.splits if_splits)
    moreover have "r' = r\<lparr>rs_Running := False\<rparr>" "m' = finish_run True True fmt now r report None m" "w' = w" "ex = []" "n = 0"
      using assms Inl by (auto simp: execute_def)
    ultimately show ?thesis using Inl rec [of report None] finish_run_contract(1) [of r True fmt now report None m] by simp
  next
    case (Inr instruction)
    then obtain result err where a: "run_agent model l r instruction w = (result, err, w', ex, n)"
      "m' = finish_run True True fmt now r result err m" "r' = r\<lparr>rs_Running := False\<rparr>"
      using assms by (auto simp: execute_def split: prod.splits)
    have "map_option rn_Status (run_record r m') = Some (if err = None then ''ok'' else ''error'')"
      by (simp add: a(2) finish_run_contract)
    then show ?thesis using run_agent_contract [OF a(1)] rec [of result err] Inr a by simp
  qed
qed

definition demo_loop :: "nat loop_cfg" where
  "demo_loop = \<lparr>lp_registry = [(''df'', \<lambda>a w. (Inr ''ok'', Suc w)), (''rm'', \<lambda>a w. (Inr [], 0))], lp_agent = demo_agent,
     lp_systemPrompt = [], lp_preChecks = Map.empty, lp_incidents = None\<rparr>"

theorem execute_contract_witness:
  "\<exists>r m w ex n. execute demo_model demo_loop True True (\<lambda>_. ''t'') 0 (fresh_responsibility (demo_settings ''1h'' [])) 5
      \<lparr>lm_states = Map.empty, lm_notes = []\<rparr> = (r, m, w, ex, n) \<and> \<not> rs_Running r \<and> fst ` set ex \<subseteq> {''df''} \<and>
      w = 6 \<and> length (lm_notes m) = 1"
proof -
  obtain r m w ex n where e: "execute demo_model demo_loop True True (\<lambda>_. ''t'') 0 (fresh_responsibility (demo_settings ''1h'' [])) 5
      \<lparr>lm_states = Map.empty, lm_notes = []\<rparr> = (r, m, w, ex, n)" by (metis prod.exhaust)
  have "(case execute demo_model demo_loop True True (\<lambda>_. ''t'') 0 (fresh_responsibility (demo_settings ''1h'' [])) 5
      \<lparr>lm_states = Map.empty, lm_notes = []\<rparr> of (r, m, w, ex, n) \<Rightarrow> w = 6 \<and> length (lm_notes m) = 1)" by code_simp
  with e execute_contract [OF e] show ?thesis
    by (auto simp: fresh_responsibility_def demo_settings_def)
qed

end
