(* ===== verification/Patch_Assess.thy ===== *)
theory Patch_Assess
  imports Complex_Main Go_Strings
begin

text \<open>
  The assessment of pending updates: \<open>updateinfo.go\<close> of package \<open>patching\<close>, from the data types to
  \<open>FormatUpdateSummary\<close>. Scores are \<open>float64\<close> values decoded from JSON, which are finite; they are modelled as
  rationals, and \<open>fmt1\<close> is their formatting by \<open>%.1f\<close>.
\<close>

section \<open>Data\<close>

record CVEInfo =
  cv_ID :: string
  cv_Severity :: string
  cv_Score :: rat
  cv_URL :: string

record PackageUpdate =
  pu_Name :: string
  pu_OldVersion :: string
  pu_NewVersion :: string
  pu_Description :: string
  pu_CVEs :: "CVEInfo list"
  pu_Failed :: bool

text \<open>\<open>strings.ToUpper\<close>: exact wherever the result is ASCII; a-z, U+0131 and U+017F are the runes whose upper case is.\<close>

definition upper_rune :: "rune \<Rightarrow> rune" where
  "upper_rune r = (if 97 \<le> r \<and> r \<le> 122 then r - 32 else if r = 305 then 73 else if r = 383 then 83 else r)"

definition ToUpper :: "string \<Rightarrow> string" where
  "ToUpper s = strings_Map (\<lambda>r. Some (upper_rune r)) s"

definition arrow :: string where "arrow = [CHR '' '', CHR 0xE2, CHR 0x86, CHR 0x92, CHR '' '']"
definition dash :: string where "dash = [CHR '' '', CHR 0xE2, CHR 0x80, CHR 0x94, CHR '' '']"
definition bullet_mark :: string where "bullet_mark = [CHR 0xE2, CHR 0x80, CHR 0xA2, CHR '' '']"
definition times_mark :: string where "times_mark = [CHR '' '', CHR 0xC3, CHR 0x97]"

definition show_nat :: "nat \<Rightarrow> string" where "show_nat n = show_int (int n)"

section \<open>The full report\<close>

definition report_cve :: "(rat \<Rightarrow> string) \<Rightarrow> CVEInfo \<Rightarrow> string" where
  "report_cve fmt1 c =
     ''    - '' @ cv_ID c @ ''  ['' @ cv_Severity c @ (if cv_Score c > 0 then '' '' @ fmt1 (cv_Score c) else []) @ '']'' @
     (if cv_URL c \<noteq> [] then ''  '' @ cv_URL c else []) @ nl"

definition report_package :: "(rat \<Rightarrow> string) \<Rightarrow> PackageUpdate \<Rightarrow> string" where
  "report_package fmt1 u =
     ''Package: '' @ pu_Name u @ nl @
     (if pu_OldVersion u \<noteq> [] \<or> pu_NewVersion u \<noteq> []
      then ''  Version: '' @ pu_OldVersion u @ arrow @ pu_NewVersion u @ nl else []) @
     (if pu_Description u \<noteq> [] then ''  Description: '' @ pu_Description u @ nl else []) @
     (if pu_CVEs u = [] then ''  CVEs: none identified'' @ nl
      else ''  CVEs:'' @ nl @ concat (map (report_cve fmt1) (pu_CVEs u))) @ nl"

definition FormatUpdateReport :: "(rat \<Rightarrow> string) \<Rightarrow> PackageUpdate list \<Rightarrow> string" where
  "FormatUpdateReport fmt1 updates =
     (if updates = [] then ''No updates found.'' @ nl else concat (map (report_package fmt1) updates))"

section \<open>Kinds of packages\<close>

definition rebootPackagePrefixes :: "string list" where
  "rebootPackagePrefixes =
     [''kernel'', ''linux-image'', ''linux-headers'', ''glibc'', ''libc6'', ''systemd'', ''udev'', ''dracut'', ''grub'', ''shim'']"

definition notablePackagePrefixes :: "string list" where
  "notablePackagePrefixes =
     [''openssl'', ''libssl'', ''ca-cert'', ''nss'', ''gnupg'', ''gpg'',
      ''curl'', ''libcurl'', ''wget'', ''rsync'', ''openssh'', ''libssh'',
      ''podman'', ''docker'', ''containerd'', ''cri-o'', ''runc'', ''buildah'',
      ''python3'', ''python2'', ''nodejs'', ''java'', ''openjdk'', ''ruby'', ''perl'', ''php'', ''golang'',
      ''nginx'', ''httpd'', ''apache'',
      ''postgresql'', ''mysql'', ''mariadb'', ''redis'', ''mongodb'',
      ''sudo'', ''pam'', ''sssd'', ''krb5'', ''libpam'',
      ''dnf'', ''yum'', ''apt'', ''rpm'']"

definition rebootLikely :: "string \<Rightarrow> bool" where
  "rebootLikely name = list_ex (HasPrefix (ToLower name)) rebootPackagePrefixes"

definition isNotable :: "string \<Rightarrow> bool" where
  "isNotable name = list_ex (HasPrefix (ToLower name)) notablePackagePrefixes"

definition shortestName :: "string list \<Rightarrow> string" where
  "shortestName names =
     (case names of [] \<Rightarrow> [] | n # ns \<Rightarrow> fold (\<lambda>n root. if length n < length root then n else root) ns n)"

section \<open>Importance\<close>

record tally =
  ty_critical :: nat
  ty_high :: nat
  ty_other :: nat
  ty_failed :: nat
  ty_seen :: "string list"

definition tally_cve :: "CVEInfo \<Rightarrow> tally \<Rightarrow> tally" where
  "tally_cve c t =
     (if cv_ID c \<in> set (ty_seen t) then t
      else let t = t\<lparr>ty_seen := cv_ID c # ty_seen t\<rparr>; sev = ToUpper (cv_Severity c)
           in if sev = ''CRITICAL'' then t\<lparr>ty_critical := ty_critical t + 1\<rparr>
              else if sev = ''HIGH'' then t\<lparr>ty_high := ty_high t + 1\<rparr>
              else t\<lparr>ty_other := ty_other t + 1\<rparr>)"

definition tally_update :: "PackageUpdate \<Rightarrow> tally \<Rightarrow> tally" where
  "tally_update u t = fold tally_cve (pu_CVEs u) (if pu_Failed u then t\<lparr>ty_failed := ty_failed t + 1\<rparr> else t)"

definition tally_updates :: "PackageUpdate list \<Rightarrow> tally" where
  "tally_updates updates = fold tally_update updates \<lparr>ty_critical = 0, ty_high = 0, ty_other = 0, ty_failed = 0, ty_seen = []\<rparr>"

definition ImportanceAssessment :: "PackageUpdate list \<Rightarrow> string \<times> string" where
  "ImportanceAssessment updates =
     (let t = tally_updates updates; n = show_nat (length updates); failed = show_nat (ty_failed t);
          all = ty_critical t + ty_high t + ty_other t;
          unavailable = ''CVE data unavailable for '' @ failed @ '' of '' @ n @ '' packages''
      in if ty_critical t > 0 then
           (''high'', ''fixes '' @ show_nat (ty_critical t) @ '' CRITICAL'' @
              (if ty_high t > 0 then '' and '' @ show_nat (ty_high t) @ '' HIGH'' else []) @
              '' severity CVE(s)'' @ dash @ ''review promptly'')
         else if all > 0 then
           (''medium'', ''fixes '' @ show_nat all @ '' CVE(s) ('' @
              Join ((if ty_high t > 0 then [show_nat (ty_high t) @ '' HIGH''] else []) @
                    (if ty_other t > 0 then [show_nat (ty_other t) @ '' MEDIUM/LOW/unrated''] else [])) '', '' @
              ''); none rated CRITICAL'' @ (if ty_failed t > 0 then ''; '' @ unavailable else []))
         else if ty_failed t > 0 \<and> ty_failed t * 2 \<ge> length updates then
           (''medium'', unavailable @ dash @ ''severity could not be assessed'')
         else
           (''low'', ''routine updates; no known CVEs addressed'' @
              (if ty_failed t > 0 then '' ('' @ unavailable @ '')'' else [])))"

section \<open>Risk\<close>

definition RiskAssessment :: "PackageUpdate list \<Rightarrow> string \<times> string" where
  "RiskAssessment updates =
     (let rebootNames = filter rebootLikely (map pu_Name updates);
          notableNames = filter isNotable (map pu_Name updates);
          n = length updates; needsReboot = rebootNames \<noteq> []; touchesCore = notableNames \<noteq> []
      in if needsReboot \<and> (touchesCore \<or> n > 20) then
           (''high'', ''requires a reboot ('' @ shortestName rebootNames @ '') and touches '' @ show_nat n @
              '' package(s) including core server components'' @ dash @ ''meaningful disruption if something goes wrong'')
         else if needsReboot then
           (''medium'', ''requires a reboot ('' @ shortestName rebootNames @ '')'' @ dash @ ''brief service interruption expected'')
         else if touchesCore then
           (''medium'', ''updates core server package(s) ('' @ shortestName notableNames @ '')'' @ dash @
              ''no reboot expected but a service restart may be needed'')
         else if n > 20 then
           (''medium'', ''large batch of '' @ show_nat n @ '' packages'' @ dash @ ''broader surface for something to go wrong'')
         else (''low'', show_nat n @ '' package(s), no reboot or core service impact expected''))"

definition maxRaw :: nat where "maxRaw = 3000"

definition FormatFallbackSummary :: "string \<Rightarrow> string option \<Rightarrow> string" where
  "FormatFallbackSummary rawCheckOutput listErr =
     (let reason = ''CVE analysis unavailable'' @ (case listErr of Some e \<Rightarrow> '': '' @ e | None \<Rightarrow> []);
          raw = TrimSpace rawCheckOutput;
          raw = (if length raw > maxRaw then take maxRaw raw @ nl @ ellipsis @ '' (truncated)'' else raw)
      in ''Importance: MEDIUM'' @ dash @ reason @ ''; update severity could not be assessed.'' @ nl @
         ''Risk: MEDIUM'' @ dash @ ''package list unavailable; blast radius could not be assessed.'' @ nl @ nl @
         ''Pending updates as reported by the package manager:'' @ nl @ nl @ raw)"

section \<open>The summary for the operator\<close>

datatype pcat = catOther | catReboot | catNotable | catMinorCVE | catCVE

definition severe :: "CVEInfo \<Rightarrow> bool" where
  "severe c \<longleftrightarrow> ToUpper (cv_Severity c) = ''CRITICAL'' \<or> ToUpper (cv_Severity c) = ''HIGH''"

definition initial_cats :: "PackageUpdate list \<Rightarrow> string \<Rightarrow> pcat" where
  "initial_cats updates =
     fold (\<lambda>u cats. if rebootLikely (pu_Name u) then cats(pu_Name u := catReboot)
                    else if isNotable (pu_Name u) then cats(pu_Name u := catNotable) else cats) updates (\<lambda>_. catOther)"

record cveRef =
  cr_info :: CVEInfo
  cr_pkgName :: string
  cr_version :: string

text \<open>The collection of severe CVEs: categories so far, identifiers seen, references.\<close>

type_synonym top_state = "(string \<Rightarrow> pcat) \<times> string list \<times> cveRef list"

definition top_cve :: "PackageUpdate \<Rightarrow> CVEInfo \<Rightarrow> top_state \<Rightarrow> top_state" where
  "top_cve u c = (\<lambda>(cats, seen, refs).
     if severe c \<and> cv_ID c \<notin> set seen
     then (cats(pu_Name u := catCVE), cv_ID c # seen,
           refs @ [\<lparr>cr_info = c, cr_pkgName = pu_Name u, cr_version = pu_NewVersion u\<rparr>])
     else (cats, seen, refs))"

definition collect_top :: "PackageUpdate list \<Rightarrow> (string \<Rightarrow> pcat) \<Rightarrow> top_state" where
  "collect_top updates cats = fold (\<lambda>u. fold (top_cve u) (pu_CVEs u)) updates (cats, [], [])"

definition cve_before :: "cveRef \<Rightarrow> cveRef \<Rightarrow> bool" where
  "cve_before a b =
     (let si = ToUpper (cv_Severity (cr_info a)); sj = ToUpper (cv_Severity (cr_info b))
      in if si \<noteq> sj then si = ''CRITICAL'' else cv_Score (cr_info a) > cv_Score (cr_info b))"

definition collect_minor :: "PackageUpdate list \<Rightarrow> (string \<Rightarrow> pcat) \<Rightarrow> (string \<Rightarrow> pcat) \<times> PackageUpdate list" where
  "collect_minor updates cats =
     fold (\<lambda>u (cats, ps). if pu_CVEs u = [] \<or> cats (pu_Name u) = catCVE then (cats, ps)
                          else (cats(pu_Name u := catMinorCVE), ps @ [u])) updates (cats, [])"

record versionGroup =
  vg_names :: "string list"
  vg_version :: string
  vg_desc :: string

definition add_notable :: "PackageUpdate \<Rightarrow> versionGroup list \<Rightarrow> versionGroup list" where
  "add_notable u gs =
     (let v = pu_NewVersion u in
      if list_ex (\<lambda>g. vg_version g = v) gs
      then update_first (\<lambda>g. vg_version g = v)
             (\<lambda>g. g\<lparr>vg_names := vg_names g @ [pu_Name u],
                    vg_desc := (if vg_desc g = [] \<and> pu_Description u \<noteq> [] then pu_Description u else vg_desc g)\<rparr>) gs
      else gs @ [\<lparr>vg_names = [pu_Name u], vg_version = v, vg_desc = pu_Description u\<rparr>])"

record summary =
  sm_top :: "cveRef list"
  sm_minor :: "PackageUpdate list"
  sm_reboot :: "PackageUpdate list"
  sm_notable :: "versionGroup list"
  sm_remaining :: nat
  sm_failed :: "string list"

text \<open>
  The part of \<open>FormatUpdateSummary\<close> before rendering. \<open>sort.Slice\<close> leaves the order of equal elements open; here they
  keep their order.
\<close>

definition summarise :: "PackageUpdate list \<Rightarrow> summary" where
  "summarise updates =
     (let (cats, _, refs) = collect_top updates (initial_cats updates);
          top = sort_by cve_before refs;
          (cats, minor) = collect_minor updates cats;
          cveVersions = map cr_version top
      in \<lparr>sm_top = top, sm_minor = minor,
          sm_reboot = filter (\<lambda>u. cats (pu_Name u) = catReboot) updates,
          sm_notable = fold add_notable
            (filter (\<lambda>u. cats (pu_Name u) = catNotable \<and> pu_NewVersion u \<notin> set cveVersions) updates) [],
          sm_remaining = length (filter (\<lambda>u. cats (pu_Name u) = catOther) updates),
          sm_failed = map pu_Name (filter pu_Failed updates)\<rparr>)"

section \<open>Rendering\<close>

definition bullet :: "string \<Rightarrow> string" where
  "bullet line = bullet_mark @ line @ nl"

definition cve_line :: "(rat \<Rightarrow> string) \<Rightarrow> cveRef \<Rightarrow> string" where
  "cve_line fmt1 ref =
     ''['' @ ToUpper (cv_Severity (cr_info ref)) @
     (if cv_Score (cr_info ref) > 0 then '' '' @ fmt1 (cv_Score (cr_info ref)) else []) @
     ''] '' @ cv_ID (cr_info ref) @ '' in '' @ cr_pkgName ref @ arrow @ cr_version ref"

definition maxListed :: nat where "maxListed = 3"

definition minor_ref :: "CVEInfo \<Rightarrow> string" where
  "minor_ref c =
     (let sev = ToUpper (cv_Severity c); sev = (if sev = [] \<or> sev = ''UNKNOWN'' then ''unrated'' else sev)
      in cv_ID c @ '' ('' @ sev @ '')'')"

definition minor_line :: "PackageUpdate \<Rightarrow> string" where
  "minor_line u =
     (let cs = pu_CVEs u;
          refs = map minor_ref (take maxListed cs) @
                 (if length cs > maxListed then [''+'' @ show_nat (length cs - maxListed) @ '' more''] else [])
      in pu_Name u @ arrow @ pu_NewVersion u @ '' fixes '' @ Join refs '', '')"

text \<open>The reboot packages by version, in the order the versions first appear.\<close>

definition reboot_groups :: "PackageUpdate list \<Rightarrow> string list list" where
  "reboot_groups ps = map (\<lambda>v. map pu_Name (filter (\<lambda>p. pu_NewVersion p = v) ps)) (rev (remdups (rev (map pu_NewVersion ps))))"

definition reboot_part :: "string list \<Rightarrow> string" where
  "reboot_part names =
     (if length names = 1 then shortestName names else shortestName names @ times_mark @ show_nat (length names))"

definition reboot_line :: "PackageUpdate list \<Rightarrow> string" where
  "reboot_line ps =
     ''Reboot required'' @ dash @
     (if length ps \<le> 3 then Join (map pu_Name ps) '', ''
      else show_nat (length ps) @ '' packages ('' @ Join (map reboot_part (reboot_groups ps)) '', '' @ '')'')"

definition notable_line :: "versionGroup \<Rightarrow> string" where
  "notable_line g = Join (vg_names g) '', '' @ arrow @ vg_version g @ (if vg_desc g \<noteq> [] then '' ('' @ vg_desc g @ '')'' else [])"

definition remaining_line :: "summary \<Rightarrow> string" where
  "remaining_line s =
     (if length (sm_top s) + length (sm_minor s) + length (sm_reboot s) + length (sm_notable s) = 0
      then show_nat (sm_remaining s) @ '' packages ready to update''
      else show_nat (sm_remaining s) @ '' additional packages'')"

definition failed_line :: "string list \<Rightarrow> string" where
  "failed_line names =
     (let shown = (if length names > 5 then take 5 names @ [ellipsis] else names)
      in ''CVE data unavailable for '' @ show_nat (length names) @ '' package(s): '' @ Join shown '', '')"

definition FormatUpdateSummary :: "(rat \<Rightarrow> string) \<Rightarrow> PackageUpdate list \<Rightarrow> string" where
  "FormatUpdateSummary fmt1 updates =
     (if updates = [] then ''All packages are up to date.''
      else
        let s = summarise updates;
            (importance, importanceRationale) = ImportanceAssessment updates;
            (risk, riskRationale) = RiskAssessment updates
        in ''Importance: '' @ ToUpper importance @ dash @ importanceRationale @ nl @
           ''Risk: '' @ ToUpper risk @ dash @ riskRationale @ nl @ nl @
           concat (map (bullet \<circ> cve_line fmt1) (sm_top s)) @
           concat (map (bullet \<circ> minor_line) (sm_minor s)) @
           (if sm_reboot s \<noteq> [] then bullet (reboot_line (sm_reboot s)) else []) @
           concat (map (bullet \<circ> notable_line) (sm_notable s)) @
           (if sm_remaining s > 0 then bullet (remaining_line s) else []) @
           (if sm_failed s \<noteq> [] then bullet (failed_line (sm_failed s)) else []))"

section \<open>What the levels mean\<close>

text \<open>The CVEs of a list that are the first of their identifier.\<close>

fun firsts :: "string list \<Rightarrow> CVEInfo list \<Rightarrow> CVEInfo list" where
  "firsts seen [] = []"
| "firsts seen (c # cs) = (if cv_ID c \<in> set seen then firsts seen cs else c # firsts (cv_ID c # seen) cs)"

definition all_cves :: "PackageUpdate list \<Rightarrow> CVEInfo list" where
  "all_cves updates = concat (map pu_CVEs updates)"

definition critical :: "CVEInfo \<Rightarrow> bool" where
  "critical c \<longleftrightarrow> ToUpper (cv_Severity c) = ''CRITICAL''"

lemma tally_failed_commute: "tally_cve c (t\<lparr>ty_failed := n\<rparr>) = (tally_cve c t)\<lparr>ty_failed := n\<rparr>"
  by (simp add: tally_cve_def Let_def)

lemma fold_tally_failed: "fold tally_cve cs (t\<lparr>ty_failed := n\<rparr>) = (fold tally_cve cs t)\<lparr>ty_failed := n\<rparr>"
  by (induction cs arbitrary: t) (simp_all add: tally_failed_commute)

lemma fold_tally_keeps_failed: "ty_failed (fold tally_cve cs t) = ty_failed t"
  by (induction cs arbitrary: t) (simp_all add: tally_cve_def Let_def)

lemma fold_tally_updates:
  "fold tally_update us t = (fold tally_cve (all_cves us) t)\<lparr>ty_failed := ty_failed t + length (filter pu_Failed us)\<rparr>"
  by (induction us arbitrary: t)
    (simp_all add: all_cves_def tally_update_def fold_tally_failed fold_tally_keeps_failed)

definition rated :: "tally \<Rightarrow> nat" where
  "rated t = ty_critical t + ty_high t + ty_other t"

lemma tally_cve_counts:
  "rated (tally_cve c t) = rated t + (if cv_ID c \<in> set (ty_seen t) then 0 else 1)"
  "ty_critical (tally_cve c t) = ty_critical t + (if cv_ID c \<notin> set (ty_seen t) \<and> critical c then 1 else 0)"
  "ty_seen (tally_cve c t) = (if cv_ID c \<in> set (ty_seen t) then ty_seen t else cv_ID c # ty_seen t)"
  by (auto simp: rated_def tally_cve_def critical_def Let_def)

lemma fold_tally_counts:
  "ty_critical (fold tally_cve cs t) = ty_critical t + length (filter critical (firsts (ty_seen t) cs))"
  "rated (fold tally_cve cs t) = rated t + length (firsts (ty_seen t) cs)"
  by (induction cs arbitrary: t) (auto simp: tally_cve_counts)

lemma firsts_Nil: "firsts [] cs = [] \<longleftrightarrow> cs = []"
  by (cases cs) auto

lemma tally_updates_counts:
  "ty_critical (tally_updates us) = length (filter critical (firsts [] (all_cves us)))"
  "rated (tally_updates us) = length (firsts [] (all_cves us))"
  "ty_failed (tally_updates us) = length (filter pu_Failed us)"
  using fold_tally_counts [of "all_cves us" "\<lparr>ty_critical = 0, ty_high = 0, ty_other = 0, ty_failed = 0, ty_seen = []\<rparr>"]
  by (simp_all add: tally_updates_def fold_tally_updates rated_def)

definition level_rank :: "string \<Rightarrow> nat" where
  "level_rank l = (if l = ''high'' then 2 else if l = ''medium'' then 1 else 0)"

text \<open>
  What the levels of an approval request mean. Importance is high exactly when some CVE is critical where
  it is first listed; otherwise medium when there is any CVE, or when the lookup failed for at least half of the packages; and
  low only when neither holds. Adding packages never lowers the risk.
\<close>

theorem assessment_levels:
  "fst (ImportanceAssessment us) =
     (if list_ex critical (firsts [] (all_cves us)) then ''high''
      else if all_cves us \<noteq> [] \<or> (list_ex pu_Failed us \<and> length us \<le> 2 * length (filter pu_Failed us)) then ''medium''
      else ''low'') \<and>
   level_rank (fst (RiskAssessment us)) \<le> level_rank (fst (RiskAssessment (us @ vs)))"
proof
  have ex: "list_ex P xs \<longleftrightarrow> 0 < length (filter P xs)" for P :: "'a \<Rightarrow> bool" and xs
    by (induction xs) auto
  note t = tally_updates_counts [of us]
  have all: "0 < ty_critical (tally_updates us) + ty_high (tally_updates us) + ty_other (tally_updates us) \<longleftrightarrow> all_cves us \<noteq> []"
    unfolding rated_def [symmetric] t(2) using firsts_Nil [of "all_cves us"] by (cases "firsts [] (all_cves us)") auto
  have ex2: "list_ex pu_Failed us \<longleftrightarrow> 0 < ty_failed (tally_updates us)" "length (filter pu_Failed us) = ty_failed (tally_updates us)"
    using t(3) by (induction us) (auto simp: ex)
  show "fst (ImportanceAssessment us) =
     (if list_ex critical (firsts [] (all_cves us)) then ''high''
      else if all_cves us \<noteq> [] \<or> (list_ex pu_Failed us \<and> length us \<le> 2 * length (filter pu_Failed us)) then ''medium''
      else ''low'')"
    unfolding ImportanceAssessment_def Let_def all ex [of critical] t(1) [symmetric] ex2
    by (simp add: mult.commute)
  show "level_rank (fst (RiskAssessment us)) \<le> level_rank (fst (RiskAssessment (us @ vs)))"
    by (auto simp: RiskAssessment_def Let_def level_rank_def)
qed

section \<open>What the summary accounts for\<close>

fun new_refs :: "string list \<Rightarrow> (PackageUpdate \<times> CVEInfo) list \<Rightarrow> cveRef list" where
  "new_refs seen [] = []"
| "new_refs seen ((u, c) # ps) =
     (if severe c \<and> cv_ID c \<notin> set seen
      then \<lparr>cr_info = c, cr_pkgName = pu_Name u, cr_version = pu_NewVersion u\<rparr> # new_refs (cv_ID c # seen) ps
      else new_refs seen ps)"

definition cve_pairs :: "PackageUpdate list \<Rightarrow> (PackageUpdate \<times> CVEInfo) list" where
  "cve_pairs us = concat (map (\<lambda>u. map (Pair u) (pu_CVEs u)) us)"

lemma fold_pairs: "fold (\<lambda>(u, c). f u c) (concat (map (\<lambda>u. map (Pair u) (g u)) us)) x = fold (\<lambda>u. fold (f u) (g u)) us x"
proof -
  have "fold (\<lambda>(u, c). f u c) (map (Pair u) cs) x = fold (f u) cs x" for u cs x by (induction cs arbitrary: x) auto
  then show ?thesis by (induction us arbitrary: x) auto
qed

lemma fold_top:
  "fold (\<lambda>(u, c). top_cve u c) ps (cats, seen, refs) =
     (\<lambda>n. if n \<in> cr_pkgName ` set (new_refs seen ps) then catCVE else cats n,
      rev (map (cv_ID \<circ> cr_info) (new_refs seen ps)) @ seen, refs @ new_refs seen ps)"
  by (induction seen ps arbitrary: cats refs rule: new_refs.induct) (auto simp: top_cve_def fun_eq_iff)

lemma new_refs_ids:
  "distinct (map (cv_ID \<circ> cr_info) (new_refs seen ps)) \<and>
   set (map (cv_ID \<circ> cr_info) (new_refs seen ps)) = cv_ID ` {c \<in> snd ` set ps. severe c} - set seen \<and>
   list_all (severe \<circ> cr_info) (new_refs seen ps)"
  by (induction seen ps rule: new_refs.induct) (auto simp: image_iff)

lemma new_refs_name: "r \<in> set (new_refs seen ps) \<Longrightarrow> \<exists>u c. (u, c) \<in> set ps \<and> cr_pkgName r = pu_Name u"
  by (induction seen ps rule: new_refs.induct) (auto split: if_splits)

lemma collect_top_eq:
  "collect_top us cats =
     (\<lambda>n. if n \<in> cr_pkgName ` set (new_refs [] (cve_pairs us)) then catCVE else cats n,
      rev (map (cv_ID \<circ> cr_info) (new_refs [] (cve_pairs us))), new_refs [] (cve_pairs us))"
  using fold_top [of "cve_pairs us" cats "[]" "[]"]
  by (simp add: collect_top_def cve_pairs_def fold_pairs [of top_cve pu_CVEs, symmetric])

lemma collect_minor_eq:
  "fold (\<lambda>u (cats, ps). if pu_CVEs u = [] \<or> cats (pu_Name u) = catCVE then (cats, ps)
          else (cats(pu_Name u := catMinorCVE), ps @ [u])) us (cats, ps) =
     (\<lambda>n. if list_ex (\<lambda>u. pu_Name u = n \<and> pu_CVEs u \<noteq> []) us \<and> cats n \<noteq> catCVE then catMinorCVE else cats n,
      ps @ filter (\<lambda>u. pu_CVEs u \<noteq> [] \<and> cats (pu_Name u) \<noteq> catCVE) us)"
  by (induction us arbitrary: cats ps) (auto simp: fun_eq_iff intro!: filter_cong)

lemma initial_cats_eq:
  "initial_cats us n =
     (if n \<in> pu_Name ` set us then if rebootLikely n then catReboot else if isNotable n then catNotable else catOther else catOther)"
proof -
  have "fold (\<lambda>u cats. if rebootLikely (pu_Name u) then cats(pu_Name u := catReboot)
             else if isNotable (pu_Name u) then cats(pu_Name u := catNotable) else cats) us cats n =
     (if n \<in> pu_Name ` set us then if rebootLikely n then catReboot else if isNotable n then catNotable else cats n else cats n)" for cats
    by (induction us arbitrary: cats) auto
  then show ?thesis by (simp add: initial_cats_def)
qed

definition cve_key :: "cveRef \<Rightarrow> nat \<times> rat" where
  "cve_key r = (if ToUpper (cv_Severity (cr_info r)) = ''CRITICAL'' then 0 else 1, - cv_Score (cr_info r))"

definition key_before :: "cveRef \<Rightarrow> cveRef \<Rightarrow> bool" where
  "key_before a b \<longleftrightarrow> fst (cve_key a) < fst (cve_key b) \<or> fst (cve_key a) = fst (cve_key b) \<and> snd (cve_key a) < snd (cve_key b)"

lemma key_before_weak: "strict_weak key_before"
  by (auto simp: strict_weak_def key_before_def)

lemma cve_before_key: "severe (cr_info a) \<Longrightarrow> severe (cr_info b) \<Longrightarrow> cve_before a b = key_before a b"
  by (auto simp: cve_before_def key_before_def cve_key_def severe_def Let_def)

lemma insert_by_cong: "(\<And>y. y \<in> set ys \<Longrightarrow> lt y x = lt' y x) \<Longrightarrow> insert_by lt x ys = insert_by lt' x ys"
  by (induction ys) auto

lemma sort_by_cong: "(\<And>x y. x \<in> set xs \<Longrightarrow> y \<in> set xs \<Longrightarrow> lt x y = lt' x y) \<Longrightarrow> sort_by lt xs = sort_by lt' xs"
proof (induction xs)
  case (Cons x xs)
  then have "sort_by lt xs = sort_by lt' xs" by simp
  then show ?case using insert_by_cong [of "sort_by lt' xs" lt x lt'] Cons.prems by simp
qed simp

lemma add_notable_names: "sum_list (map (length \<circ> vg_names) (add_notable u gs)) = sum_list (map (length \<circ> vg_names) gs) + 1"
proof -
  have "list_ex P gs \<Longrightarrow> (\<And>g. P g \<Longrightarrow> length (vg_names (f g)) = length (vg_names g) + 1) \<Longrightarrow>
      sum_list (map (length \<circ> vg_names) (update_first P f gs)) = sum_list (map (length \<circ> vg_names) gs) + 1" for P f
    by (induction gs) auto
  then show ?thesis by (simp add: add_notable_def Let_def)
qed

lemma notable_names: "sum_list (map (length \<circ> vg_names) (fold add_notable us gs)) = sum_list (map (length \<circ> vg_names) gs) + length us"
  by (induction us arbitrary: gs) (simp_all add: add_notable_names)

lemma length_by_cat:
  fixes f :: "'a \<Rightarrow> pcat"
  shows "length xs = length (filter (\<lambda>x. f x = catCVE) xs) + length (filter (\<lambda>x. f x = catMinorCVE) xs) +
    length (filter (\<lambda>x. f x = catReboot) xs) + length (filter (\<lambda>x. f x = catNotable) xs) + length (filter (\<lambda>x. f x = catOther) xs)"
proof (induction xs)
  case (Cons x xs)
  then show ?case by (cases "f x") auto
qed simp

lemma length_filter_split: "length (filter P xs) = length (filter (\<lambda>x. P x \<and> \<not> Q x) xs) + length (filter (\<lambda>x. P x \<and> Q x) xs)"
  by (induction xs) auto

text \<open>The category a package ends in, for distinct names.\<close>

definition final_cat :: "PackageUpdate list \<Rightarrow> PackageUpdate \<Rightarrow> pcat" where
  "final_cat us u =
     (if pu_Name u \<in> cr_pkgName ` set (new_refs [] (cve_pairs us)) then catCVE
      else if pu_CVEs u \<noteq> [] then catMinorCVE
      else if rebootLikely (pu_Name u) then catReboot else if isNotable (pu_Name u) then catNotable else catOther)"

lemma top_has_cves:
  assumes "distinct (map pu_Name us)" "u \<in> set us" "pu_Name u \<in> cr_pkgName ` set (new_refs [] (cve_pairs us))"
  shows "pu_CVEs u \<noteq> []"
proof -
  obtain v c where "(v, c) \<in> set (cve_pairs us)" "pu_Name u = pu_Name v"
    using assms(3) new_refs_name by (metis imageE)
  then have "v \<in> set us" "c \<in> set (pu_CVEs v)" by (auto simp: cve_pairs_def)
  then have "u = v" using assms(1,2) \<open>pu_Name u = pu_Name v\<close> by (auto simp: distinct_map dest: inj_onD)
  then show ?thesis using \<open>c \<in> set (pu_CVEs v)\<close> by auto
qed

lemma summarise_eq:
  assumes "distinct (map pu_Name us)"
  shows "summarise us =
    \<lparr>sm_top = sort_by cve_before (new_refs [] (cve_pairs us)),
     sm_minor = filter (\<lambda>u. final_cat us u = catMinorCVE) us,
     sm_reboot = filter (\<lambda>u. final_cat us u = catReboot) us,
     sm_notable = fold add_notable (filter (\<lambda>u. final_cat us u = catNotable \<and>
       pu_NewVersion u \<notin> cr_version ` set (new_refs [] (cve_pairs us))) us) [],
     sm_remaining = length (filter (\<lambda>u. final_cat us u = catOther) us),
     sm_failed = map pu_Name (filter pu_Failed us)\<rparr>"
proof -
  define T where "T = cr_pkgName ` set (new_refs [] (cve_pairs us))"
  define cats where "cats = (\<lambda>n. if n \<in> T then catCVE else initial_cats us n)"
  define cats2 where "cats2 = (\<lambda>n. if list_ex (\<lambda>u. pu_Name u = n \<and> pu_CVEs u \<noteq> []) us \<and> cats n \<noteq> catCVE then catMinorCVE else cats n)"
  have same: "list_ex (\<lambda>v. pu_Name v = pu_Name u \<and> pu_CVEs v \<noteq> []) us \<longleftrightarrow> pu_CVEs u \<noteq> []" if "u \<in> set us" for u
    using assms that by (auto simp: list_ex_iff distinct_map inj_on_eq_iff)
  have cve: "cats n = catCVE \<longleftrightarrow> n \<in> T" for n by (simp add: cats_def initial_cats_eq)
  have fin: "cats2 (pu_Name u) = final_cat us u" if "u \<in> set us" for u
    using that same [OF that] by (auto simp: cats2_def cve final_cat_def T_def [symmetric]) (auto simp: cats_def initial_cats_eq)
  have minor: "filter (\<lambda>u. pu_CVEs u \<noteq> [] \<and> cats (pu_Name u) \<noteq> catCVE) us = filter (\<lambda>u. final_cat us u = catMinorCVE) us"
    by (rule filter_cong) (auto simp: cve final_cat_def T_def [symmetric])
  have f: "filter (\<lambda>u. cats2 (pu_Name u) = c \<and> Q u) us = filter (\<lambda>u. final_cat us u = c \<and> Q u) us" for c Q
    by (rule filter_cong) (auto simp: fin)
  have "collect_minor us cats = (cats2, filter (\<lambda>u. final_cat us u = catMinorCVE) us)"
    using collect_minor_eq [of us cats "[]"] by (simp add: collect_minor_def cats2_def minor)
  then show ?thesis
    using f [where Q = "\<lambda>_. True"] f
    by (simp add: summarise_def collect_top_eq T_def [symmetric] cats_def [symmetric])
qed

text \<open>
  A package the summary leaves out on purpose: notable, without CVEs of its own, and of the version of a package with a
  severe one.
\<close>

definition companion :: "PackageUpdate list \<Rightarrow> PackageUpdate \<Rightarrow> bool" where
  "companion us u \<longleftrightarrow> pu_CVEs u = [] \<and> \<not> rebootLikely (pu_Name u) \<and> isNotable (pu_Name u) \<and>
     pu_NewVersion u \<in> cr_version ` set (sm_top (summarise us))"

text \<open>
  The summary accounts for everything. For packages with distinct names, the list at its top names every CVE of
  severity high or critical, each once, critical ones first and then by descending score; and every package is
  counted in exactly one place: as the carrier of a listed CVE, in the list of minor fixes, among the
  packages that need a reboot, in a version group, as a companion, or in the remaining number.
\<close>

theorem summary_accounts:
  assumes "distinct (map pu_Name us)"
  shows "distinct (map (cv_ID \<circ> cr_info) (sm_top (summarise us))) \<and>
    set (map (cv_ID \<circ> cr_info) (sm_top (summarise us))) = cv_ID ` {c \<in> set (all_cves us). severe c} \<and>
    sorted_wrt (\<lambda>a b. \<not> cve_before b a) (sm_top (summarise us)) \<and>
    length us = card (cr_pkgName ` set (sm_top (summarise us))) + length (sm_minor (summarise us)) + length (sm_reboot (summarise us)) +
      sum_list (map (length \<circ> vg_names) (sm_notable (summarise us))) + length (filter (companion us) us) + sm_remaining (summarise us)"
proof -
  define R where "R = new_refs [] (cve_pairs us)"
  note s = summarise_eq [OF assms, folded R_def]
  have snds: "snd ` set (cve_pairs us) = set (all_cves us)" by (force simp: cve_pairs_def all_cves_def)
  have ids: "distinct (map (cv_ID \<circ> cr_info) R)" "set (map (cv_ID \<circ> cr_info) R) = cv_ID ` {c \<in> set (all_cves us). severe c}"
    and sev: "list_all (severe \<circ> cr_info) R"
    using new_refs_ids [of "[]" "cve_pairs us"] by (auto simp: R_def snds)
  have "sort_by cve_before R = sort_by key_before R"
    using sev by (intro sort_by_cong) (auto simp: list_all_iff cve_before_key)
  moreover have "sorted_wrt (\<lambda>a b. \<not> key_before b a) (sort_by key_before R)" by (rule sorted_sort_by [OF key_before_weak])
  moreover have "severe (cr_info a)" if "a \<in> set R" for a using sev that by (simp add: list_all_iff)
  ultimately have sorted: "sorted_wrt (\<lambda>a b. \<not> cve_before b a) (sort_by cve_before R)"
    by (auto simp: cve_before_key intro: sorted_wrt_mono_rel [rotated])
  have "final_cat us u = catCVE \<longleftrightarrow> pu_Name u \<in> cr_pkgName ` set R" for u by (simp add: final_cat_def R_def)
  then have "map pu_Name (filter (\<lambda>u. final_cat us u = catCVE) us) = filter (\<lambda>n. n \<in> cr_pkgName ` set R) (map pu_Name us)"
    by (simp add: filter_map comp_def)
  moreover have "cr_pkgName ` set R \<subseteq> set (map pu_Name us)"
    using new_refs_name [of _ "[]" "cve_pairs us"] by (fastforce simp: R_def cve_pairs_def)
  ultimately have top: "length (filter (\<lambda>u. final_cat us u = catCVE) us) = card (cr_pkgName ` set R)"
    using assms by (metis distinct_card distinct_filter inter_set_filter inf.absorb1 length_map)
  have comp: "filter (companion us) us = filter (\<lambda>u. final_cat us u = catNotable \<and> pu_NewVersion u \<in> cr_version ` set R) us"
    using top_has_cves [OF assms] by (intro filter_cong) (auto simp: companion_def s final_cat_def R_def)
  have "length (filter (\<lambda>u. final_cat us u = catNotable) us) =
      length (filter (\<lambda>u. final_cat us u = catNotable \<and> pu_NewVersion u \<notin> cr_version ` set R) us) + length (filter (companion us) us)"
    unfolding comp by (rule length_filter_split)
  then show ?thesis using length_by_cat [of us "final_cat us"] ids sorted top by (simp add: s notable_names)
qed

definition demo_cve :: "string \<Rightarrow> string \<Rightarrow> CVEInfo" where
  "demo_cve i sev = \<lparr>cv_ID = i, cv_Severity = sev, cv_Score = 0, cv_URL = []\<rparr>"

definition demo_update :: "string \<Rightarrow> CVEInfo list \<Rightarrow> PackageUpdate" where
  "demo_update n cs = \<lparr>pu_Name = n, pu_OldVersion = [], pu_NewVersion = ''2'' @ n, pu_Description = [], pu_CVEs = cs, pu_Failed = False\<rparr>"

theorem summary_accounts_witness:
  "\<exists>us. us = [demo_update ''bash'' [demo_cve ''CVE-1'' ''High''], demo_update ''curl'' [], demo_update ''udev'' [],
       demo_update ''vim'' [demo_cve ''CVE-2'' ''low'', demo_cve ''CVE-3'' ''critical''], demo_update ''zlib'' []] \<and>
     map (cv_ID \<circ> cr_info) (sm_top (summarise us)) = [''CVE-3'', ''CVE-1''] \<and>
     length us = card (cr_pkgName ` set (sm_top (summarise us))) + length (sm_minor (summarise us)) + length (sm_reboot (summarise us)) +
       sum_list (map (length \<circ> vg_names) (sm_notable (summarise us))) + length (filter (companion us) us) + sm_remaining (summarise us)"
proof -
  define us where "us = [demo_update ''bash'' [demo_cve ''CVE-1'' ''High''], demo_update ''curl'' [], demo_update ''udev'' [],
       demo_update ''vim'' [demo_cve ''CVE-2'' ''low'', demo_cve ''CVE-3'' ''critical''], demo_update ''zlib'' []]"
  have d: "distinct (map pu_Name us)" by (simp add: us_def demo_update_def)
  have "map (cv_ID \<circ> cr_info) (sm_top (summarise us)) = [''CVE-3'', ''CVE-1'']" unfolding us_def by code_simp
  with us_def summary_accounts [OF d, THEN conjunct2, THEN conjunct2, THEN conjunct2] show ?thesis
    by (intro exI [of _ us] conjI)
qed

text \<open>
  The two views of severity can differ: an identifier that is first listed without a rating and rated critical later makes the
  request medium, \<open>none rated CRITICAL\<close>, while the list of CVEs under that header shows it as critical.
\<close>

lemma importance_understated:
  "fst (ImportanceAssessment [demo_update ''a'' [demo_cve ''CVE-1'' ''UNKNOWN''], demo_update ''b'' [demo_cve ''CVE-1'' ''CRITICAL'']]) = ''medium'' \<and>
   map (critical \<circ> cr_info) (sm_top (summarise [demo_update ''a'' [demo_cve ''CVE-1'' ''UNKNOWN''], demo_update ''b'' [demo_cve ''CVE-1'' ''CRITICAL'']])) = [True]"
  by code_simp

text \<open>A package that needs a reboot and fixes a CVE is not in the list of reboots.\<close>

lemma reboot_with_cve_not_listed:
  "fst (RiskAssessment [demo_update ''kernel'' [demo_cve ''CVE-1'' ''HIGH'']]) = ''medium'' \<and>
   sm_reboot (summarise [demo_update ''kernel'' [demo_cve ''CVE-1'' ''HIGH'']]) = []"
  by code_simp

end
