(* ===== verification/Patch_Info.thy ===== *)
theory Patch_Info
  imports Patch_Assess Regex
begin

text \<open>
  The listing of pending updates: the second half of \<open>updateinfo.go\<close>. It holds the parsers of the output of the
  package managers, the rating of CVEs with its budget of lookups, the cache and the rate limit of the NVD client, and
  \<open>ListUpdates\<close> for the four families of systems. Commands are run by a \<open>commander\<close>, a function of the argument
  vector and the state of the host; the vendor services are functions that give the decoded answer or an error.
\<close>

section \<open>Strings\<close>

fun split_byte :: "char \<Rightarrow> string \<Rightarrow> string list" where
  "split_byte c [] = [[]]"
| "split_byte c (x # xs) = (if x = c then [] # split_byte c xs else (case split_byte c xs of [] \<Rightarrow> [[x]] | y # ys \<Rightarrow> (x # y) # ys))"

definition split_lines :: "string \<Rightarrow> string list" where
  "split_lines s = split_byte (CHR 0x0A) s"

fun index_str :: "string \<Rightarrow> string \<Rightarrow> nat option" where
  "index_str p [] = (if p = [] then Some 0 else None)"
| "index_str p (c # s) = (if HasPrefix (c # s) p then Some 0 else map_option Suc (index_str p s))"

definition last_index_byte :: "char \<Rightarrow> string \<Rightarrow> nat option" where
  "last_index_byte c s = map_option (\<lambda>n. length s - 1 - n) (index_byte c (rev s))"

text \<open>\<open>strings.SplitN(s, sep, n)\<close> for positive \<open>n\<close>.\<close>

fun split_n :: "string \<Rightarrow> nat \<Rightarrow> string \<Rightarrow> string list" where
  "split_n sep (Suc (Suc n)) s =
     (case index_str sep s of None \<Rightarrow> [s] | Some i \<Rightarrow> take i s # split_n sep (Suc n) (drop (i + length sep) s))"
| "split_n sep n s = [s]"

definition CutPrefix :: "string \<Rightarrow> string \<Rightarrow> string option" where
  "CutPrefix s p = (if HasPrefix s p then Some (drop (length p) s) else None)"

definition Trim_quotes :: "string \<Rightarrow> string" where
  "Trim_quotes s = rev (dropWhile (\<lambda>c. c = CHR 0x22) (rev (dropWhile (\<lambda>c. c = CHR 0x22) s)))"

section \<open>Submatches\<close>

text \<open>
  Patterns with capturing groups, as sequences. \<open>caps\<close> lists the matches at a position in the order of preference with the extent of each
  group (start and length in runes, \<open>None\<close> for a group that took no part).
\<close>

datatype citem = Plain re | Group re | Optional "citem list"

fun groups :: "citem list \<Rightarrow> nat" where
  "groups [] = 0"
| "groups (Plain r # is) = groups is"
| "groups (Group r # is) = Suc (groups is)"
| "groups (Optional js # is) = groups js + groups is"

type_synonym extent = "(nat \<times> nat) option"

function caps :: "citem list \<Rightarrow> pos \<Rightarrow> (pos \<times> extent list) list" where
  "caps [] p = [(p, [])]"
| "caps (Plain r # is) p = concat (map (\<lambda>q. caps is q) (ends r p))"
| "caps (Group r # is) p =
     concat (map (\<lambda>q. map (\<lambda>(e, cs). (e, Some (length (fst p), length (snd p) - length (snd q)) # cs)) (caps is q)) (ends r p))"
| "caps (Optional js # is) p = caps (js @ is) p @ map (\<lambda>(e, cs). (e, replicate (groups js) None @ cs)) (caps is p)"
  by pat_completeness auto
termination
  by (relation "measure (\<lambda>(is, p). size_list size is)") auto

fun search_caps :: "citem list \<Rightarrow> rune list \<Rightarrow> rune list \<Rightarrow> (pos \<times> pos \<times> extent list) option" where
  "search_caps is l [] = (case caps is (l, []) of [] \<Rightarrow> None | (q, cs) # _ \<Rightarrow> Some ((l, []), q, cs))"
| "search_caps is l (x # xs) =
     (case caps is (l, x # xs) of [] \<Rightarrow> search_caps is (x # l) xs | (q, cs) # _ \<Rightarrow> Some ((l, x # xs), q, cs))"

definition sub_runes :: "string \<Rightarrow> nat \<Rightarrow> nat \<Rightarrow> string" where
  "sub_runes s i n = unchunk (take n (drop i (chunks s)))"

definition group_text :: "string \<Rightarrow> extent \<Rightarrow> string" where
  "group_text s e = (case e of None \<Rightarrow> [] | Some (i, n) \<Rightarrow> sub_runes s i n)"

text \<open>\<open>FindStringSubmatch\<close>, without the whole match.\<close>

definition FindStringSubmatch :: "citem list \<Rightarrow> string \<Rightarrow> string list option" where
  "FindStringSubmatch is s = map_option (\<lambda>(_, _, cs). map (group_text s) cs) (search_caps is [] (runes s))"

text \<open>\<open>FindAllString\<close> and \<open>FindAllStringSubmatch\<close>, for patterns that consume input.\<close>

lemma search_caps_len: "search_caps is l xs = Some ((l', ys), q) \<Longrightarrow> length ys \<le> length xs"
  by (induction "is" l xs rule: search_caps.induct) (auto split: list.splits prod.splits)

function find_caps :: "citem list \<Rightarrow> rune list \<Rightarrow> rune list \<Rightarrow> (extent \<times> extent list) list" where
  "find_caps is l xs =
     (case search_caps is l xs of
        None \<Rightarrow> []
      | Some ((l1, ys), (l2, zs), cs) \<Rightarrow>
          if length zs < length ys then (Some (length l1, length ys - length zs), cs) # find_caps is l2 zs else [])"
  by pat_completeness auto
termination
  by (relation "measure (\<lambda>(is, l, xs). length xs)") (auto dest: search_caps_len)

declare find_caps.simps [simp del]

definition FindAllString :: "re \<Rightarrow> string \<Rightarrow> string list" where
  "FindAllString r s = map (group_text s \<circ> fst) (find_caps [Plain r] [] (runes s))"

definition FindAllStringSubmatch :: "citem list \<Rightarrow> string \<Rightarrow> string list list" where
  "FindAllStringSubmatch is s = map (map (group_text s) \<circ> snd) (find_caps is [] (runes s))"

section \<open>Identifiers of CVEs\<close>

definition rdigit :: re where "rdigit = Cls False [(48, 57)]"

definition cveIDRe :: re where
  "cveIDRe = seqs [lits ''CVE-'', rdigit, rdigit, rdigit, rdigit, rx (CHR ''-''), rdigit, rdigit, rdigit, rdigit, rstar rdigit]"

definition add_new :: "string \<Rightarrow> string list \<Rightarrow> string list" where
  "add_new i ids = (if i \<in> set ids then ids else ids @ [i])"

definition ExtractCVEIDs :: "string \<Rightarrow> string list" where
  "ExtractCVEIDs s = fold add_new (FindAllString cveIDRe s) []"

section \<open>Debian\<close>

definition changelogEntryRe :: "citem list" where
  "changelogEntryRe = [Plain (seqs [Bot, rplus nonsp, lits '' ('']), Group (rplus (Cls True [(41, 41)])), Plain (rx (CHR '')''))]"

definition entry_version :: "string \<Rightarrow> string option" where
  "entry_version line = (case FindStringSubmatch changelogEntryRe line of Some [v] \<Rightarrow> Some v | _ \<Rightarrow> None)"

fun changelog_scan :: "string \<Rightarrow> string list \<Rightarrow> string list \<Rightarrow> string list \<times> bool" where
  "changelog_scan oldVersion [] ids = ([], False)"
| "changelog_scan oldVersion (line # ls) ids =
     (if entry_version line = Some oldVersion then (ids, True)
      else changelog_scan oldVersion ls (fold add_new (FindAllString cveIDRe line) ids))"

definition DebianChangelogCVEsSince :: "string \<Rightarrow> string \<Rightarrow> string list \<times> bool" where
  "DebianChangelogCVEsSince changelog oldVersion = changelog_scan oldVersion (split_lines changelog) []"

definition blank_update :: "string \<Rightarrow> PackageUpdate" where
  "blank_update n = \<lparr>pu_Name = n, pu_OldVersion = [], pu_NewVersion = [], pu_Description = [], pu_CVEs = [], pu_Failed = False\<rparr>"

definition instRe :: "citem list" where
  "instRe = [Plain (seqs [Bot, lits ''Inst'', rplus sp]), Group (rplus nonsp),
     Optional [Plain (seqs [rplus sp, rx (CHR ''['')]), Group (rplus (Cls True [(93, 93)])), Plain (rx (CHR '']''))],
     Plain (seqs [rplus sp, rx (CHR ''('')]), Group (rplus nonsp)]"

definition parse_inst :: "string \<Rightarrow> PackageUpdate option" where
  "parse_inst line =
     (case FindStringSubmatch instRe (TrimSpace line) of
        Some [name, old, new] \<Rightarrow>
          let name = (case index_byte (CHR '':'') name of Some i \<Rightarrow> if i > 0 then take i name else name | None \<Rightarrow> name)
          in Some ((blank_update name)\<lparr>pu_OldVersion := old, pu_NewVersion := new\<rparr>)
      | _ \<Rightarrow> None)"

definition ParseDebianInstLines :: "string \<Rightarrow> PackageUpdate list" where
  "ParseDebianInstLines out = List.map_filter parse_inst (split_lines out)"

section \<open>Fedora\<close>

fun fedora_lines :: "string list \<Rightarrow> bool \<Rightarrow> PackageUpdate list" where
  "fedora_lines [] skip = []"
| "fedora_lines (line # ls) skip =
     (let t = TrimSpace line in
      if t = [] then fedora_lines ls skip
      else if HasPrefix t ''Obsoleting'' \<or> HasPrefix t ''Security:'' then fedora_lines ls True
      else if HasPrefix t ''Last metadata'' \<or> HasPrefix t ''Error'' then fedora_lines ls skip
      else if skip then fedora_lines ls skip
      else (case Fields t of
              f # v # _ \<Rightarrow>
                (case last_index_byte (CHR ''.'') f of
                   Some i \<Rightarrow>
                     if i = 0 then fedora_lines ls skip
                     else (blank_update (take i f))\<lparr>pu_NewVersion := v\<rparr> # fedora_lines ls skip
                 | None \<Rightarrow> fedora_lines ls skip)
            | _ \<Rightarrow> fedora_lines ls skip))"

definition ParseFedoraCheckUpdate :: "string \<Rightarrow> PackageUpdate list" where
  "ParseFedoraCheckUpdate out = fedora_lines (split_lines out) False"

text \<open>The first package of each name.\<close>

fun dedup_names :: "string list \<Rightarrow> PackageUpdate list \<Rightarrow> PackageUpdate list" where
  "dedup_names seen [] = []"
| "dedup_names seen (u # us) = (if pu_Name u \<in> set seen then dedup_names seen us else u # dedup_names (pu_Name u # seen) us)"

section \<open>macOS\<close>

definition labelRe :: "citem list" where
  "labelRe = [Plain (seqs [rx (CHR ''*''), rplus sp, lits ''Label:'', rplus sp]), Group (rplus dot)]"

definition titleRe :: "citem list" where
  "titleRe = [Plain (seqs [lits ''Title:'', rplus sp]), Group (rplus (Cls True [(44, 44)]))]"

fun darwin_lines :: "string list \<Rightarrow> PackageUpdate option \<Rightarrow> PackageUpdate list" where
  "darwin_lines [] cur = (case cur of None \<Rightarrow> [] | Some u \<Rightarrow> [u])"
| "darwin_lines (line # ls) cur =
     (case FindStringSubmatch labelRe line of
        Some (l # _) \<Rightarrow> (case cur of None \<Rightarrow> [] | Some u \<Rightarrow> [u]) @ darwin_lines ls (Some (blank_update (TrimSpace l)))
      | _ \<Rightarrow>
          (case (cur, FindStringSubmatch titleRe line) of
             (Some u, Some (t # _)) \<Rightarrow> darwin_lines ls (Some (u\<lparr>pu_Description := TrimSpace t\<rparr>))
           | _ \<Rightarrow> darwin_lines ls cur))"

definition ParseDarwinUpdateList :: "string \<Rightarrow> PackageUpdate list" where
  "ParseDarwinUpdateList out = darwin_lines (split_lines out) None"

definition StripBuildNumber :: "string \<Rightarrow> string" where
  "StripBuildNumber label =
     (case last_index_byte (CHR ''-'') label of
        None \<Rightarrow> TrimSpace label
      | Some i \<Rightarrow>
          if i = 0 then TrimSpace label
          else if drop (i + 1) label \<noteq> [] \<and> CHR '' '' \<notin> set (drop (i + 1) label) then TrimSpace (take i label)
          else TrimSpace label)"

section \<open>Services\<close>

text \<open>The answer of a service: no answer, or a status and the decoded body (\<open>Inl\<close> when it does not decode).\<close>

datatype 'a answer = Transport string | Answer int "string + 'a"

definition fetchJSON :: "'a answer \<Rightarrow> string + 'a" where
  "fetchJSON a = (case a of Transport e \<Rightarrow> Inl e | Answer st b \<Rightarrow> if st \<noteq> 200 then Inl (''HTTP '' @ show_int st) else b)"

text \<open>The metrics of the vulnerabilities in an answer of NVD: the V3.1 and the V3.0 entries, as score and severity.\<close>

type_synonym nvd_resp = "((rat \<times> string) list \<times> (rat \<times> string) list) list"

definition nvdCVSS :: "nvd_resp answer \<Rightarrow> string + rat \<times> string" where
  "nvdCVSS a =
     (case fetchJSON a of
        Inl e \<Rightarrow> Inl e
      | Inr [] \<Rightarrow> Inl ''NVD: not found''
      | Inr ((v31, v30) # _) \<Rightarrow>
          (case v31 of
             (score, sev) # _ \<Rightarrow> Inr (score, ToUpper sev)
           | [] \<Rightarrow> (case v30 of (score, sev) # _ \<Rightarrow> Inr (score, ToUpper sev) | [] \<Rightarrow> Inl ''NVD: no CVSS data'')))"

definition redhatCVE :: "(string \<times> rat) answer \<Rightarrow> string + string \<times> rat" where
  "redhatCVE a =
     (case fetchJSON a of
        Inl e \<Rightarrow> Inl e
      | Inr (sev, score) \<Rightarrow> if sev = [] then Inl ''no severity in Red Hat response'' else Inr (ToUpper sev, score))"

text \<open>\<open>None\<close>: the package is not tracked.\<close>

definition canonicalCVEQuery :: "(string \<times> string) list answer \<Rightarrow> string + (string \<times> string) list option" where
  "canonicalCVEQuery a =
     (case a of
        Transport e \<Rightarrow> Inl e
      | Answer st b \<Rightarrow>
          if st = 404 then Inr None
          else if st \<noteq> 200 then Inl (''HTTP '' @ show_int st)
          else (case b of Inl e \<Rightarrow> Inl e | Inr rs \<Rightarrow> Inr (Some rs)))"

definition canonicalPriorityToSeverity :: "string \<Rightarrow> string" where
  "canonicalPriorityToSeverity p =
     (let l = ToLower p in
      if l = ''critical'' then ''CRITICAL'' else if l = ''high'' then ''HIGH'' else if l = ''medium'' then ''MEDIUM''
      else if l = ''low'' \<or> l = ''negligible'' then ''LOW'' else ''UNKNOWN'')"

section \<open>Rating\<close>

definition maxNVDLookupsPerPackage :: nat where "maxNVDLookupsPerPackage = 8"

text \<open>
  The loop that every lister has: the items are CVEs with a flag that says whether NVD is to be asked, which is done while the
  budget lasts. \<open>nvd\<close> is the outcome of the cached lookup. The second result lists the lookups.
\<close>

type_synonym nvd = "string \<Rightarrow> string + rat \<times> string"

fun rate_loop :: "nvd \<Rightarrow> nat \<Rightarrow> (CVEInfo \<times> bool) list \<Rightarrow> CVEInfo list \<times> string list" where
  "rate_loop nvd budget [] = ([], [])"
| "rate_loop nvd budget ((c, ask) # cs) =
     (if ask \<and> budget > 0 then
        let c' = (case nvd (cv_ID c) of Inr (score, sev) \<Rightarrow> c\<lparr>cv_Score := score, cv_Severity := sev\<rparr> | Inl e \<Rightarrow> c);
            (cves, asked) = rate_loop nvd (budget - 1) cs
        in (c' # cves, cv_ID c # asked)
      else let (cves, asked) = rate_loop nvd budget cs in (c # cves, asked))"

definition unrated :: "string \<Rightarrow> string \<Rightarrow> CVEInfo" where
  "unrated url i = \<lparr>cv_ID = i, cv_Severity = ''UNKNOWN'', cv_Score = 0, cv_URL = url @ i\<rparr>"

definition ubuntu_url :: string where "ubuntu_url = ''https://ubuntu.com/security/''"

definition debian_item :: "CVEInfo list \<Rightarrow> string \<Rightarrow> CVEInfo \<times> bool" where
  "debian_item apiCVEs i =
     (case find_first (\<lambda>c. cv_ID c = i) (rev apiCVEs) of Some c \<Rightarrow> (c, False) | None \<Rightarrow> (unrated ubuntu_url i, True))"

definition resolveDebianCVEs :: "nvd \<Rightarrow> string list \<Rightarrow> bool \<Rightarrow> CVEInfo list \<Rightarrow> CVEInfo list \<times> string list" where
  "resolveDebianCVEs nvd deltaIDs deltaOK apiCVEs =
     (if \<not> deltaOK then (apiCVEs, [])
      else rate_loop nvd maxNVDLookupsPerPackage (map (debian_item apiCVEs) deltaIDs))"

text \<open>\<open>url.QueryEscape\<close>.\<close>

definition escape_byte :: "char \<Rightarrow> string" where
  "escape_byte c =
     (let n = code c; hex = (\<lambda>k. if k < 10 then char_of (48 + k) else char_of (55 + k :: nat)) in
      if (48 \<le> n \<and> n \<le> 57) \<or> (65 \<le> n \<and> n \<le> 90) \<or> (97 \<le> n \<and> n \<le> 122) \<or> c \<in> set ''-_.~'' then [c]
      else if c = CHR '' '' then ''+'' else [CHR ''%'', hex (n div 16), hex (n mod 16)])"

definition QueryEscape :: "string \<Rightarrow> string" where
  "QueryEscape s = concat (map escape_byte s)"

definition canonical_query :: "string \<Rightarrow> string \<Rightarrow> string" where
  "canonical_query pkg codename =
     ''package='' @ QueryEscape pkg @ ''&limit=20&status=released'' @ (if codename \<noteq> [] then ''&version='' @ QueryEscape codename else [])"

text \<open>\<open>ubuntu\<close> is the Ubuntu service, by query; \<open>alive\<close> says that the context is not done when a query has failed.\<close>

definition canonicalPackageCVEs ::
    "(string \<Rightarrow> (string \<times> string) list answer) \<Rightarrow> bool \<Rightarrow> nvd \<Rightarrow> string \<Rightarrow> string \<Rightarrow> string + CVEInfo list \<times> string list" where
  "canonicalPackageCVEs ubuntu alive nvd pkg codename =
     (let res = canonicalCVEQuery (ubuntu (canonical_query pkg codename));
          res = (case res of
                   Inl e \<Rightarrow> if codename \<noteq> [] \<and> alive then canonicalCVEQuery (ubuntu (canonical_query pkg [])) else Inl e
                 | r \<Rightarrow> r)
      in case res of
           Inl e \<Rightarrow> Inl e
         | Inr None \<Rightarrow> Inr ([], [])
         | Inr (Some rs) \<Rightarrow>
             Inr (rate_loop nvd maxNVDLookupsPerPackage
                    (map (\<lambda>(i, p). let sev = canonicalPriorityToSeverity p
                                   in ((unrated ubuntu_url i)\<lparr>cv_Severity := sev\<rparr>, sev = ''UNKNOWN'')) rs)))"

section \<open>The lists of updates\<close>

datatype cmd_error = ExitCode int | OtherError string

type_synonym 'w commander = "string list \<Rightarrow> 'w \<Rightarrow> (string \<times> cmd_error option) \<times> 'w"

definition cmd_error_text :: "cmd_error \<Rightarrow> string" where
  "cmd_error_text e = (case e of ExitCode n \<Rightarrow> ''exit status '' @ show_int n | OtherError t \<Rightarrow> t)"

definition debian_description :: "string \<Rightarrow> string" where
  "debian_description out =
     (case find_first (\<lambda>l. HasPrefix l ''Description-en: '' \<or> HasPrefix l ''Description: '') (split_lines out) of
        None \<Rightarrow> []
      | Some l \<Rightarrow> TrimSpace (if HasPrefix l ''Description-en: '' then TrimPrefix l ''Description-en: '' else TrimPrefix l ''Description: ''))"

text \<open>\<open>Inl\<close>: the file could not be read.\<close>

definition debianCodename :: "string + string \<Rightarrow> string" where
  "debianCodename os_release =
     (case os_release of
        Inl e \<Rightarrow> []
      | Inr data \<Rightarrow>
          (case find_first (\<lambda>l. HasPrefix (TrimSpace l) ''VERSION_CODENAME='') (split_lines data) of
             None \<Rightarrow> []
           | Some l \<Rightarrow> Trim_quotes (TrimSpace (TrimPrefix (TrimSpace l) ''VERSION_CODENAME=''))))"

text \<open>
  The services as one package of a list sees them. \<open>expired i\<close> says that the context is done when the list comes to package \<open>i\<close>.
\<close>

record services =
  sv_ubuntu :: "string \<Rightarrow> (string \<times> string) list answer"
  sv_alive :: bool
  sv_nvd :: nvd
  sv_redhat :: "string \<Rightarrow> (string \<times> rat) answer"
  sv_page :: "string \<Rightarrow> string + string"          \<comment> \<open>the body of a web page\<close>

definition debianDescription :: "'w commander \<Rightarrow> string \<Rightarrow> 'w \<Rightarrow> string option \<times> 'w" where
  "debianDescription run pkg w =
     (case run [''apt-cache'', ''show'', ''--no-all-versions'', pkg] w of
        ((out, None), w) \<Rightarrow> (Some (debian_description out), w)
      | ((out, Some e), w) \<Rightarrow> (None, w))"

definition debianChangelogCVEs :: "'w commander \<Rightarrow> string \<Rightarrow> string \<Rightarrow> 'w \<Rightarrow> (string list \<times> bool) \<times> 'w" where
  "debianChangelogCVEs run pkg oldVersion w =
     (if oldVersion = [] then (([], False), w)
      else case run [''apt-get'', ''changelog'', pkg] w of
        ((out, None), w) \<Rightarrow> (DebianChangelogCVEsSince out oldVersion, w)
      | ((out, Some e), w) \<Rightarrow> (([], False), w))"

fun debian_phase1 ::
    "'w commander \<Rightarrow> (nat \<Rightarrow> bool) \<Rightarrow> nat \<Rightarrow> PackageUpdate list \<Rightarrow> 'w \<Rightarrow> (PackageUpdate \<times> string list \<times> bool) list \<times> 'w" where
  "debian_phase1 run expired i [] w = ([], w)"
| "debian_phase1 run expired i (u # us) w =
     (if expired i then
        (case debian_phase1 run expired (Suc i) us w of (rs, w) \<Rightarrow> ((u\<lparr>pu_Failed := True\<rparr>, [], False) # rs, w))
      else
        (case debianDescription run (pu_Name u) w of (desc, w) \<Rightarrow>
         case debianChangelogCVEs run (pu_Name u) (pu_OldVersion u) w of (delta, w) \<Rightarrow>
         case debian_phase1 run expired (Suc i) us w of (rs, w) \<Rightarrow>
           ((u\<lparr>pu_Description := (case desc of Some d \<Rightarrow> d | None \<Rightarrow> pu_Description u)\<rparr>, delta) # rs, w)))"

definition debian_phase2 :: "services \<Rightarrow> string \<Rightarrow> PackageUpdate \<times> string list \<times> bool \<Rightarrow> PackageUpdate" where
  "debian_phase2 sv codename = (\<lambda>(u, deltaIDs, deltaOK).
     if pu_Failed u then u
     else
       let api = canonicalPackageCVEs (sv_ubuntu sv) (sv_alive sv) (sv_nvd sv) (pu_Name u) codename;
           apiCVEs = (case api of Inl e \<Rightarrow> [] | Inr (cves, _) \<Rightarrow> cves)
       in u\<lparr>pu_CVEs := fst (resolveDebianCVEs (sv_nvd sv) deltaIDs deltaOK apiCVEs),
            pu_Failed := (case api of Inl e \<Rightarrow> \<not> deltaOK | Inr _ \<Rightarrow> False)\<rparr>)"

definition listDebianUpdates ::
    "'w commander \<Rightarrow> (nat \<Rightarrow> bool) \<Rightarrow> (nat \<Rightarrow> services) \<Rightarrow> string + string \<Rightarrow> 'w \<Rightarrow> (string + PackageUpdate list) \<times> 'w" where
  "listDebianUpdates run expired sv os_release w =
     (case run [''apt-get'', ''update'', ''-q''] w of
        ((_, Some e), w) \<Rightarrow> (Inl (''apt-get update: '' @ cmd_error_text e), w)
      | ((_, None), w) \<Rightarrow>
          (case run [''apt-get'', ''upgrade'', ''--dry-run''] w of
             ((_, Some e), w) \<Rightarrow> (Inl (''apt-get upgrade --dry-run: '' @ cmd_error_text e), w)
           | ((out, None), w) \<Rightarrow>
               (case debian_phase1 run expired 0 (ParseDebianInstLines out) w of
                  (rs, w) \<Rightarrow> (Inr (map (\<lambda>(i, r). debian_phase2 (sv i) (debianCodename os_release) r) (enumerate 0 rs)), w))))"

definition fedora_summary :: "string \<Rightarrow> string" where
  "fedora_summary out =
     (case find_first (\<lambda>l. Contains l ''Summary'' \<and> Contains l '':'') (split_lines out) of
        None \<Rightarrow> []
      | Some l \<Rightarrow> (case split_n '':'' 2 l of [_, t] \<Rightarrow> TrimSpace t | _ \<Rightarrow> []))"

definition redhat_url :: string where "redhat_url = ''https://access.redhat.com/security/cve/''"

definition fedora_items :: "services \<Rightarrow> string list \<Rightarrow> (CVEInfo \<times> bool) list" where
  "fedora_items sv ids =
     map (\<lambda>i. case redhatCVE (sv_redhat sv i) of
                Inr (sev, score) \<Rightarrow> ((unrated redhat_url i)\<lparr>cv_Severity := sev, cv_Score := score\<rparr>, False)
              | Inl e \<Rightarrow> (unrated redhat_url i, True)) ids"

definition fedoraPackageInfo ::
    "'w commander \<Rightarrow> services \<Rightarrow> string \<Rightarrow> 'w \<Rightarrow> (string \<times> (string + CVEInfo list)) \<times> 'w" where
  "fedoraPackageInfo run sv pkg w =
     (case run [''dnf'', ''info'', pkg] w of ((out, err), w) \<Rightarrow>
      let desc = (if err = None then fedora_summary out else []) in
      case run [''dnf'', ''updateinfo'', ''info'', pkg] w of
        ((out, Some e), w) \<Rightarrow> ((desc, Inl (''dnf updateinfo info '' @ pkg @ '': '' @ cmd_error_text e)), w)
      | ((out, None), w) \<Rightarrow>
          ((desc, Inr (fst (rate_loop (sv_nvd sv) maxNVDLookupsPerPackage (fedora_items sv (ExtractCVEIDs out))))), w))"

fun fedora_packages ::
    "'w commander \<Rightarrow> (nat \<Rightarrow> bool) \<Rightarrow> (nat \<Rightarrow> services) \<Rightarrow> nat \<Rightarrow> PackageUpdate list \<Rightarrow> 'w \<Rightarrow> PackageUpdate list \<times> 'w" where
  "fedora_packages run expired sv i [] w = ([], w)"
| "fedora_packages run expired sv i (u # us) w =
     (if expired i then
        (case fedora_packages run expired sv (Suc i) us w of (rs, w) \<Rightarrow> (u\<lparr>pu_Failed := True\<rparr> # rs, w))
      else
        (case fedoraPackageInfo run (sv i) (pu_Name u) w of ((desc, res), w) \<Rightarrow>
         case fedora_packages run expired sv (Suc i) us w of (rs, w) \<Rightarrow>
           (u\<lparr>pu_Description := desc, pu_CVEs := (case res of Inr cs \<Rightarrow> cs | Inl e \<Rightarrow> []), pu_Failed := (case res of Inr _ \<Rightarrow> False | Inl e \<Rightarrow> True)\<rparr>
            # rs, w)))"

text \<open>\<open>check-update\<close> of \<open>dnf\<close>, or of \<open>yum\<close> when that fails: \<open>None\<close> when there is nothing to update.\<close>

definition fedora_check :: "'w commander \<Rightarrow> 'w \<Rightarrow> (string + string option) \<times> 'w" where
  "fedora_check run w =
     (case run [''dnf'', ''check-update''] w of
        ((out, None), w) \<Rightarrow> (Inr None, w)
      | ((out, Some e), w) \<Rightarrow>
          if e = ExitCode 100 then (Inr (Some out), w)
          else (case run [''yum'', ''check-update''] w of
                  ((out2, None), w) \<Rightarrow> (Inr None, w)
                | ((out2, Some e2), w) \<Rightarrow>
                    if e2 = ExitCode 100 then (Inr (Some out2), w)
                    else (Inl (''dnf: '' @ cmd_error_text e @ ''; yum: '' @ cmd_error_text e2), w)))"

definition listFedoraUpdates ::
    "'w commander \<Rightarrow> (nat \<Rightarrow> bool) \<Rightarrow> (nat \<Rightarrow> services) \<Rightarrow> 'w \<Rightarrow> (string + PackageUpdate list) \<times> 'w" where
  "listFedoraUpdates run expired sv w =
     (case fedora_check run w of
        (Inl e, w) \<Rightarrow> (Inl e, w)
      | (Inr None, w) \<Rightarrow> (Inr [], w)
      | (Inr (Some out), w) \<Rightarrow>
          (case fedora_packages run expired sv 0 (dedup_names [] (ParseFedoraCheckUpdate out)) w of (us, w) \<Rightarrow> (Inr us, w)))"

definition linkRe :: "citem list" where
  "linkRe = [Plain (lits ''href=''), Plain (Cls False [(34, 34)]), Group (seqs [lits ''/en-us/'', rplus rdigit]), Plain (Cls False [(34, 34)]),
     Plain (seqs [rstar (Cls True [(62, 62)]), rx (CHR ''>''), rstar sp, lits ''About the security content of '']),
     Group (rplus (Cls True [(60, 60)])), Plain (rx (CHR ''<''))]"

text \<open>The index of security releases, a map from titles to addresses; later links replace earlier ones.\<close>

definition appleSecurityReleases :: "string \<Rightarrow> string \<rightharpoonup> string" where
  "appleSecurityReleases page =
     fold (\<lambda>m rel. case m of [u, t] \<Rightarrow> rel(TrimSpace t \<mapsto> ''https://support.apple.com'' @ u) | _ \<Rightarrow> rel)
       (FindAllStringSubmatch linkRe page) Map.empty"

definition nvd_url :: string where "nvd_url = ''https://nvd.nist.gov/vuln/detail/''"

definition appleReleaseCVEs :: "services \<Rightarrow> string \<Rightarrow> string + CVEInfo list" where
  "appleReleaseCVEs sv url =
     (case sv_page sv url of
        Inl e \<Rightarrow> Inl e
      | Inr body \<Rightarrow>
          Inr (fst (rate_loop (sv_nvd sv) maxNVDLookupsPerPackage (map (\<lambda>i. (unrated nvd_url i, True)) (ExtractCVEIDs body)))))"

text \<open>\<open>walk\<close> is the order in which the map of releases is walked for a title that is not in it.\<close>

definition enrich_darwin :: "services \<Rightarrow> string list \<Rightarrow> (string \<rightharpoonup> string) \<Rightarrow> PackageUpdate \<Rightarrow> PackageUpdate" where
  "enrich_darwin sv walk releases u =
     (let title = StripBuildNumber (pu_Name u);
          url = (case releases title of
                   Some a \<Rightarrow> Some a
                 | None \<Rightarrow> Option.bind (find_first (\<lambda>t. Contains t title) (filter (\<lambda>t. releases t \<noteq> None) walk)) releases)
      in case url of
           None \<Rightarrow> u
         | Some a \<Rightarrow> (case appleReleaseCVEs sv a of Inl e \<Rightarrow> u | Inr cs \<Rightarrow> u\<lparr>pu_CVEs := cs\<rparr>))"

definition apple_index :: string where "apple_index = ''https://support.apple.com/en-us/100100''"

definition listDarwinUpdates ::
    "'w commander \<Rightarrow> (nat \<Rightarrow> services) \<Rightarrow> (nat \<Rightarrow> string list) \<Rightarrow> 'w \<Rightarrow> (string + PackageUpdate list) \<times> 'w" where
  "listDarwinUpdates run sv walk w =
     (case run [''softwareupdate'', ''-l''] w of
        ((out, Some e), w) \<Rightarrow> (Inl (''softwareupdate -l: '' @ cmd_error_text e), w)
      | ((out, None), w) \<Rightarrow>
          if Contains out ''No new software available'' then (Inr [], w)
          else
            let pkgs = ParseDarwinUpdateList out in
            (case sv_page (sv 0) apple_index of
               Inl e \<Rightarrow> (Inr (map (\<lambda>u. u\<lparr>pu_Failed := True\<rparr>) pkgs), w)
             | Inr page \<Rightarrow>
                 (Inr (map (\<lambda>(i, u). enrich_darwin (sv i) (walk i) (appleSecurityReleases page) u) (enumerate 0 pkgs)), w)))"

definition msrc_url :: string where "msrc_url = ''https://msrc.microsoft.com/update-guide/en-US/vulnerability/''"

definition windows_update :: "services \<Rightarrow> string \<Rightarrow> PackageUpdate option" where
  "windows_update sv line =
     (case split_n ''|||'' 5 (TrimSpace line) of
        kind # title # rest \<Rightarrow>
          if kind \<noteq> ''UPDATE'' then None
          else
            let desc = (if length rest \<ge> 2 then TrimSpace (rest ! 1) else []);
                urls = (if length rest \<ge> 3 then TrimSpace (rest ! 2) else []);
                ids = ExtractCVEIDs (title @ '' '' @ desc @ '' '' @ urls)
            in Some ((blank_update title)\<lparr>pu_Description := desc,
                 pu_CVEs := fst (rate_loop (sv_nvd sv) maxNVDLookupsPerPackage (map (\<lambda>i. (unrated msrc_url i, True)) ids))\<rparr>)
      | _ \<Rightarrow> None)"

text \<open>The PowerShell script that lists the updates.\<close>

definition windows_list_script :: string where
  "windows_list_script = Join [
     ''$ErrorActionPreference = '' @ [CHR 0x27] @ ''Stop'' @ [CHR 0x27],
     ''$session  = New-Object -ComObject Microsoft.Update.Session'',
     ''$searcher = $session.CreateUpdateSearcher()'',
     ''$results  = $searcher.Search('' @ [CHR 0x22] @ ''IsInstalled=0 and Type='' @ [CHR 0x27] @ ''Software'' @ [CHR 0x27] @ [CHR 0x22] @ '')'',
     ''foreach ($u in $results.Updates) {'',
     ''  $kbs   = ($u.KBArticleIDs | ForEach-Object { '' @ [CHR 0x22] @ ''KB$_'' @ [CHR 0x22] @ '' }) -join '' @ [CHR 0x22] @ '','' @ [CHR 0x22],
     ''  $urls  = ($u.MoreInfoUrls  | ForEach-Object { $_ })    -join '' @ [CHR 0x22] @ '' '' @ [CHR 0x22],
     ''  $title = $u.Title          -replace '' @ [CHR 0x22] @ ''['' @ [CHR 0x5C] @ ''r'' @ [CHR 0x5C] @ ''n|||]'' @ [CHR 0x22] @ '','' @ [CHR 0x22] @ '' '' @ [CHR 0x22],
     ''  $desc  = $u.Description    -replace '' @ [CHR 0x22] @ ''['' @ [CHR 0x5C] @ ''r'' @ [CHR 0x5C] @ ''n|||]'' @ [CHR 0x22] @ '','' @ [CHR 0x22] @ '' '' @ [CHR 0x22],
     ''  Write-Output '' @ [CHR 0x22] @ ''UPDATE|||$title|||$kbs|||$desc|||$urls'' @ [CHR 0x22],
     ''}''] ''; ''"

definition powershell :: "string \<Rightarrow> string list" where
  "powershell script = [''powershell.exe'', ''-ExecutionPolicy'', ''Bypass'', ''-NoProfile'', ''-Command'', script]"

definition listWindowsUpdates ::
    "'w commander \<Rightarrow> (nat \<Rightarrow> services) \<Rightarrow> 'w \<Rightarrow> (string + PackageUpdate list) \<times> 'w" where
  "listWindowsUpdates run sv w =
     (case run (powershell windows_list_script) w of
        ((out, Some e), w) \<Rightarrow> (Inl (''windows update list: '' @ cmd_error_text e), w)
      | ((out, None), w) \<Rightarrow>
          (Inr (List.map_filter (\<lambda>(i, l). windows_update (sv i) l) (enumerate 0 (split_lines out))), w))"

section \<open>The cached client of NVD\<close>

text \<open>
  \<open>cachedNVDCVSS\<close> in its three parts: the look into the cache under the lock, which gives a hit or the time to wait; the call; and
  the entry of its result under the lock, at two readings of the clock. A context that is done is an error of its own.
\<close>

datatype nvd_error = CtxError | LookupError string

type_synonym nvd_result = "nvd_error + rat \<times> string"

record nvdEntry =
  ne_result :: nvd_result
  ne_expiry :: instant

record nvdState =
  nv_lastCall :: "instant option"     \<comment> \<open>\<open>None\<close>: the zero time\<close>
  nv_cache :: "string \<rightharpoonup> nvdEntry"

definition minInterval :: duration where "minInterval = 7 * second"

datatype nvd_wait = CacheHit nvd_result | WaitFor duration

definition nvd_check :: "string \<Rightarrow> instant \<Rightarrow> instant \<Rightarrow> nvdState \<Rightarrow> nvd_wait" where
  "nvd_check cve now now2 st =
     (case nv_cache st cve of
        Some e \<Rightarrow> if now < ne_expiry e then CacheHit (ne_result e)
                  else WaitFor (case nv_lastCall st of None \<Rightarrow> 0 | Some t \<Rightarrow> minInterval - (now2 - t))
      | None \<Rightarrow> WaitFor (case nv_lastCall st of None \<Rightarrow> 0 | Some t \<Rightarrow> minInterval - (now2 - t)))"

definition nvd_store :: "string \<Rightarrow> nvd_result \<Rightarrow> instant \<Rightarrow> instant \<Rightarrow> nvdState \<Rightarrow> nvdState" where
  "nvd_store cve res now now2 st =
     (let ttl = (case res of Inl e \<Rightarrow> hour | Inr r \<Rightarrow> 24 * hour);
          st = st\<lparr>nv_lastCall := Some now\<rparr>
      in if res = Inl CtxError then st
         else st\<lparr>nv_cache := (nv_cache st)(cve \<mapsto> \<lparr>ne_result = res, ne_expiry = now2 + ttl\<rparr>)\<rparr>)"

text \<open>
  Lookups as a system: every worker looks into the cache, waits (unless the context ends first), calls, and stores. \<open>ns_calls\<close> logs the
  moments at which calls begin.
\<close>

datatype phase = Idle | Sleeping string instant | Calling string

record nvd_sys =
  ns_now :: instant
  ns_state :: nvdState
  ns_workers :: "phase list"
  ns_calls :: "instant list"

inductive nvd_step :: "nvd_sys \<Rightarrow> nvd_sys \<Rightarrow> bool" where
  clock: "ns_now s \<le> t \<Longrightarrow> nvd_step s (s\<lparr>ns_now := t\<rparr>)"
| check: "i < length (ns_workers s) \<Longrightarrow> ns_workers s ! i = Idle \<Longrightarrow> nvd_check cve (ns_now s) (ns_now s) (ns_state s) = WaitFor d \<Longrightarrow>
     nvd_step s (s\<lparr>ns_workers := (ns_workers s)[i := Sleeping cve (ns_now s + d)]\<rparr>)"
| abandon: "i < length (ns_workers s) \<Longrightarrow> ns_workers s ! i = Sleeping cve u \<Longrightarrow> nvd_step s (s\<lparr>ns_workers := (ns_workers s)[i := Idle]\<rparr>)"
| call: "i < length (ns_workers s) \<Longrightarrow> ns_workers s ! i = Sleeping cve u \<Longrightarrow> u \<le> ns_now s \<Longrightarrow>
     nvd_step s (s\<lparr>ns_workers := (ns_workers s)[i := Calling cve], ns_calls := ns_calls s @ [ns_now s]\<rparr>)"
| store: "i < length (ns_workers s) \<Longrightarrow> ns_workers s ! i = Calling cve \<Longrightarrow>
     nvd_step s (s\<lparr>ns_workers := (ns_workers s)[i := Idle], ns_state := nvd_store cve res (ns_now s) (ns_now s) (ns_state s)\<rparr>)"

inductive_cases nvd_stepE: "nvd_step s s'"

definition nvd_init :: "nat \<Rightarrow> instant \<Rightarrow> nvd_sys" where
  "nvd_init n now = \<lparr>ns_now = now, ns_state = \<lparr>nv_lastCall = None, nv_cache = Map.empty\<rparr>, ns_workers = replicate n Idle, ns_calls = []\<rparr>"

definition rate_inv :: "nvd_sys \<Rightarrow> bool" where
  "rate_inv s \<longleftrightarrow> length (ns_workers s) = 1 \<and> sorted_wrt (\<lambda>a b. a + minInterval \<le> b) (ns_calls s) \<and> (\<forall>c \<in> set (ns_calls s). c \<le> ns_now s) \<and>
     (case ns_workers s ! 0 of
        Calling cve \<Rightarrow> True
      | Idle \<Rightarrow> \<forall>c \<in> set (ns_calls s). \<exists>t. nv_lastCall (ns_state s) = Some t \<and> c \<le> t
      | Sleeping cve u \<Rightarrow> \<forall>c \<in> set (ns_calls s). (\<exists>t. nv_lastCall (ns_state s) = Some t \<and> c \<le> t) \<and> c + minInterval \<le> u)"

lemma nvd_check_wait: "nvd_check cve now now2 st = WaitFor d \<Longrightarrow> nv_lastCall st = Some t \<Longrightarrow> t + minInterval \<le> now2 + d"
  by (auto simp: nvd_check_def split: option.splits if_splits)

lemma rate_inv_step: "nvd_step s s' \<Longrightarrow> rate_inv s \<Longrightarrow> rate_inv s'"
proof (induction rule: nvd_step.induct)
  case (clock s t)
  then show ?case by (auto simp: rate_inv_def split: phase.splits)
next
  case (check i s cve d)
  then have i: "i = 0" by (simp add: rate_inv_def)
  have "c + minInterval \<le> ns_now s + d" if "c \<in> set (ns_calls s)" for c
    using that check nvd_check_wait [OF check(3)] by (force simp: rate_inv_def i)
  then show ?case using check by (auto simp: rate_inv_def i)
next
  case (abandon i s cve u)
  then show ?case by (auto simp: rate_inv_def)
next
  case (call i s cve u)
  then have i: "i = 0" by (simp add: rate_inv_def)
  then show ?case using call by (fastforce simp: rate_inv_def sorted_wrt_append)
next
  case (store i s cve res)
  then have "i = 0" by (simp add: rate_inv_def)
  moreover have "nv_lastCall (nvd_store cve res (ns_now s) (ns_now s) (ns_state s)) = Some (ns_now s)"
    by (simp add: nvd_store_def Let_def)
  ultimately show ?case using store by (auto simp: rate_inv_def)
qed

text \<open>
  C24: one worker respects the rate limit of NVD: two of its calls begin at least seven seconds apart, in every run, whatever
  the service answers and however often it is abandoned.
\<close>

theorem nvd_rate_limit:
  assumes "nvd_step\<^sup>*\<^sup>* (nvd_init 1 now) s"
  shows "sorted_wrt (\<lambda>a b. a + minInterval \<le> b) (ns_calls s)"
proof -
  have "rate_inv (nvd_init 1 now)" by (simp add: rate_inv_def nvd_init_def)
  with assms have "rate_inv s" by (induction rule: rtranclp_induct) (auto intro: rate_inv_step)
  then show ?thesis by (simp add: rate_inv_def)
qed

lemma nvd_two_calls:
  "\<exists>s. nvd_step\<^sup>*\<^sup>* (nvd_init 1 0) s \<and> ns_calls s = [0, minInterval]"
proof -
  define st where "st = nvd_store ''a'' (Inl CtxError) 0 0 \<lparr>nv_lastCall = None, nv_cache = Map.empty\<rparr>"
  have st: "st = \<lparr>nv_lastCall = Some 0, nv_cache = Map.empty\<rparr>" by (simp add: st_def nvd_store_def Let_def)
  define s1 where "s1 = (nvd_init 1 0)\<lparr>ns_workers := [Sleeping ''a'' 0]\<rparr>"
  define s2 where "s2 = s1\<lparr>ns_workers := [Calling ''a''], ns_calls := [0]\<rparr>"
  define s3 where "s3 = s2\<lparr>ns_workers := [Idle], ns_state := st\<rparr>"
  define s4 where "s4 = s3\<lparr>ns_workers := [Sleeping ''a'' minInterval]\<rparr>"
  define s5 where "s5 = s4\<lparr>ns_now := minInterval\<rparr>"
  define s6 where "s6 = s5\<lparr>ns_workers := [Calling ''a''], ns_calls := [0, minInterval]\<rparr>"
  note d = s1_def s2_def s3_def s4_def s5_def s6_def nvd_init_def
  have "nvd_step (nvd_init 1 0) s1" using nvd_step.check [of 0 "nvd_init 1 0" "''a''" 0] by (simp add: d nvd_check_def)
  moreover have "nvd_step s1 s2" using nvd_step.call [of 0 s1 "''a''" 0] by (simp add: d)
  moreover have "nvd_step s2 s3" using nvd_step.store [of 0 s2 "''a''" "Inl CtxError"] by (simp add: d st_def)
  moreover have "nvd_step s3 s4" using nvd_step.check [of 0 s3 "''a''" minInterval] by (simp add: d nvd_check_def st)
  moreover have "nvd_step s4 s5" using nvd_step.clock [of s4 minInterval] by (simp add: d minInterval_def duration_defs)
  moreover have "nvd_step s5 s6" using nvd_step.call [of 0 s5 "''a''" minInterval] by (simp add: d)
  moreover have "ns_calls s6 = [0, minInterval]" by (simp add: s6_def)
  ultimately show ?thesis by (meson r_into_rtranclp rtranclp_trans)
qed

theorem nvd_rate_limit_witness:
  "\<exists>s. nvd_step\<^sup>*\<^sup>* (nvd_init 1 0) s \<and> ns_calls s = [0, minInterval] \<and> sorted_wrt (\<lambda>a b. a + minInterval \<le> b) (ns_calls s)"
  using nvd_two_calls nvd_rate_limit [of 0] by blast

text \<open>
  Several workers do not: the lock is released before the wait, and the time of a call is entered only after it, so two
  workers that look at the same moment also call at the same moment. The listing of a Debian host has four.
\<close>

lemma nvd_rate_limit_concurrent:
  "\<exists>s. nvd_step\<^sup>*\<^sup>* (nvd_init 2 0) s \<and> ns_calls s = [0, 0]"
proof -
  define s1 where "s1 = (nvd_init 2 0)\<lparr>ns_workers := [Sleeping ''a'' 0, Idle]\<rparr>"
  define s2 where "s2 = s1\<lparr>ns_workers := [Sleeping ''a'' 0, Sleeping ''b'' 0]\<rparr>"
  define s3 where "s3 = s2\<lparr>ns_workers := [Calling ''a'', Sleeping ''b'' 0], ns_calls := [0]\<rparr>"
  define s4 where "s4 = s3\<lparr>ns_workers := [Calling ''a'', Calling ''b''], ns_calls := [0, 0]\<rparr>"
  note d = s1_def s2_def s3_def s4_def nvd_init_def numeral_2_eq_2
  have "nvd_step (nvd_init 2 0) s1" using nvd_step.check [of 0 "nvd_init 2 0" "''a''" 0] by (simp add: d nvd_check_def)
  moreover have "nvd_step s1 s2" using nvd_step.check [of 1 s1 "''b''" 0] by (simp add: d nvd_check_def)
  moreover have "nvd_step s2 s3" using nvd_step.call [of 0 s2 "''a''" 0] by (simp add: d)
  moreover have "nvd_step s3 s4" using nvd_step.call [of 1 s3 "''b''" 0] by (simp add: d)
  moreover have "ns_calls s4 = [0, 0]" by (simp add: s4_def)
  ultimately show ?thesis by (meson r_into_rtranclp rtranclp_trans)
qed

section \<open>What a Debian update fixes\<close>

lemma rate_loop_ids: "map cv_ID (fst (rate_loop nvd b cs)) = map (cv_ID \<circ> fst) cs"
  by (induction nvd b cs rule: rate_loop.induct) (auto split: prod.splits sum.splits)

lemma rate_loop_asked: "snd (rate_loop nvd b cs) = map (cv_ID \<circ> fst) (take b (filter snd cs))"
proof (induction nvd b cs rule: rate_loop.induct)
  case (2 nvd b c ask cs)
  then show ?case by (cases b) (auto split: prod.splits)
qed simp

lemma rate_loop_unasked: "(c, False) \<in> set cs \<Longrightarrow> c \<in> set (fst (rate_loop nvd b cs))"
  by (induction nvd b cs rule: rate_loop.induct) (auto split: prod.splits sum.splits)

lemma fold_add_new: "distinct ids \<Longrightarrow> distinct (fold add_new is ids) \<and> set (fold add_new is ids) = set ids \<union> set is"
proof (induction "is" arbitrary: ids)
  case (Cons i "is")
  then show ?case using Cons.IH [of "add_new i ids"] by (auto simp: add_new_def)
qed simp

definition newer_lines :: "string \<Rightarrow> string \<Rightarrow> string list" where
  "newer_lines changelog oldVersion = takeWhile (\<lambda>l. entry_version l \<noteq> Some oldVersion) (split_lines changelog)"

lemma changelog_scan_eq:
  "list_ex (\<lambda>l. entry_version l = Some old) ls \<Longrightarrow>
     changelog_scan old ls ids =
       (fold add_new (concat (map (FindAllString cveIDRe) (takeWhile (\<lambda>l. entry_version l \<noteq> Some old) ls))) ids, True)"
  by (induction ls arbitrary: ids) auto

lemma resolve_known:
  assumes "find_first (\<lambda>c. cv_ID c = i) (rev api) = Some c" "i \<in> set ids"
  shows "c \<in> set (fst (resolveDebianCVEs nvd ids True api))"
proof -
  have "debian_item api i = (c, False)" using assms(1) by (simp add: debian_item_def)
  then have "(c, False) \<in> set (map (debian_item api) ids)" using assms(2) by force
  then show ?thesis unfolding resolveDebianCVEs_def by (simp add: rate_loop_unasked)
qed

lemma debian_item_id: "cv_ID (fst (debian_item api i)) = i"
proof (cases "find_first (\<lambda>c. cv_ID c = i) (rev api)")
  case (Some c)
  then show ?thesis using find_first_SomeD [OF Some] by (simp add: debian_item_def)
next
  case None
  then show ?thesis unfolding debian_item_def None by (simp add: unrated_def)
qed

lemma resolve_ids: "map cv_ID (fst (resolveDebianCVEs nvd ids True api)) = ids"
  by (simp add: resolveDebianCVEs_def rate_loop_ids comp_def debian_item_id)

lemma resolve_asked:
  "length (snd (resolveDebianCVEs nvd ids ok api)) \<le> maxNVDLookupsPerPackage"
  by (simp add: resolveDebianCVEs_def rate_loop_asked)

text \<open>
  C23: a Debian package is reported with exactly the CVEs its update fixes. When the changelog can be fetched and has the
  installed version, the package carries, once each, the identifiers that its newer entries mention and no
  others; those that Ubuntu rates keep that rating; at most eight others are looked up; and the package is not flagged as lacking data,
  even if the vendor service fails.
\<close>

theorem debian_delta_exact:
  assumes "run [''apt-get'', ''changelog'', pu_Name u] w = ((body, None), w')" "old \<noteq> []"
    and "list_ex (\<lambda>l. entry_version l = Some old) (split_lines body)" "\<not> pu_Failed u"
  shows "\<exists>ids. debianChangelogCVEs run (pu_Name u) old w = ((ids, True), w') \<and> distinct ids \<and>
      set ids = (\<Union>l \<in> set (newer_lines body old). set (FindAllString cveIDRe l)) \<and>
      map cv_ID (pu_CVEs (debian_phase2 sv codename (u, ids, True))) = ids \<and>
      \<not> pu_Failed (debian_phase2 sv codename (u, ids, True)) \<and>
      (\<forall>api asked i c. canonicalPackageCVEs (sv_ubuntu sv) (sv_alive sv) (sv_nvd sv) (pu_Name u) codename = Inr (api, asked) \<and>
         i \<in> set ids \<and> find_first (\<lambda>c. cv_ID c = i) (rev api) = Some c \<longrightarrow>
         c \<in> set (pu_CVEs (debian_phase2 sv codename (u, ids, True))) \<and>
         length (snd (resolveDebianCVEs (sv_nvd sv) ids True api)) \<le> maxNVDLookupsPerPackage)"
proof -
  define ids where "ids = fold add_new (concat (map (FindAllString cveIDRe) (newer_lines body old))) []"
  have "debianChangelogCVEs run (pu_Name u) old w = ((ids, True), w')"
    using assms(1,2) changelog_scan_eq [OF assms(3), of "[]"]
    by (simp add: debianChangelogCVEs_def DebianChangelogCVEsSince_def ids_def newer_lines_def)
  moreover have "distinct ids" "set ids = (\<Union>l \<in> set (newer_lines body old). set (FindAllString cveIDRe l))"
    using fold_add_new [of "[]"] by (auto simp: ids_def)
  moreover have "map cv_ID (pu_CVEs (debian_phase2 sv codename (u, ids, True))) = ids"
    "\<not> pu_Failed (debian_phase2 sv codename (u, ids, True))"
    using assms(4) by (auto simp: debian_phase2_def Let_def resolve_ids split: sum.splits)
  moreover have "c \<in> set (pu_CVEs (debian_phase2 sv codename (u, ids, True)))"
    if "canonicalPackageCVEs (sv_ubuntu sv) (sv_alive sv) (sv_nvd sv) (pu_Name u) codename = Inr (api, asked)"
      "i \<in> set ids" "find_first (\<lambda>c. cv_ID c = i) (rev api) = Some c" for api asked i c
    using that assms(4) resolve_known [OF that(3,2)] by (simp add: debian_phase2_def Let_def)
  ultimately show ?thesis using resolve_asked by blast
qed

definition demo_log :: string where
  "demo_log = ''curl (2) n'' @ nl @ ''  CVE-2024-0001 CVE-2024-00012'' @ nl @ ''curl (1) n'' @ nl @ ''  CVE-2020-7777''"

definition demo_run :: "nat commander" where
  "demo_run args w = ((demo_log, None), Suc w)"

definition demo_services :: services where
  "demo_services = \<lparr>sv_ubuntu = (\<lambda>_. Transport ''down''), sv_alive = True, sv_nvd = (\<lambda>_. Inr (9, ''CRITICAL'')),
     sv_redhat = (\<lambda>_. Transport ''down''), sv_page = (\<lambda>_. Inl ''down'')\<rparr>"

theorem debian_delta_exact_witness:
  "\<exists>ids. debianChangelogCVEs demo_run ''curl'' ''1'' 0 = ((ids, True), 1) \<and> ids = [''CVE-2024-0001'', ''CVE-2024-00012''] \<and>
     map cv_ID (pu_CVEs (debian_phase2 demo_services ''noble'' (blank_update ''curl'', ids, True))) = ids"
proof -
  have d: "list_ex (\<lambda>l. entry_version l = Some ''1'') (split_lines demo_log)" by code_simp
  have r: "demo_run [''apt-get'', ''changelog'', pu_Name (blank_update ''curl'')] 0 = ((demo_log, None), Suc 0)"
    by (simp add: demo_run_def)
  have "fst (debianChangelogCVEs demo_run ''curl'' ''1'' 0) = ([''CVE-2024-0001'', ''CVE-2024-00012''], True)" by code_simp
  moreover obtain ids where "debianChangelogCVEs demo_run ''curl'' ''1'' 0 = ((ids, True), 1)"
    "map cv_ID (pu_CVEs (debian_phase2 demo_services ''noble'' (blank_update ''curl'', ids, True))) = ids"
    using debian_delta_exact [where run = demo_run and u = "blank_update ''curl''" and w = 0 and old = "''1''" and sv = demo_services
        and codename = "''noble''", OF r _ d] by (auto simp: blank_update_def)
  ultimately show ?thesis by auto
qed

text \<open>
  The two loops of a Debian package have a budget each: a package whose CVEs are not rated can cost sixteen lookups, twice the cap that
  \<open>maxNVDLookupsPerPackage\<close> is documented to be.
\<close>

lemma debian_lookup_bound:
  assumes "canonicalPackageCVEs ubuntu alive nvd pkg codename = Inr (api, asked)"
  shows "length asked + length (snd (resolveDebianCVEs nvd ids ok api)) \<le> 2 * maxNVDLookupsPerPackage"
proof -
  have "length asked \<le> maxNVDLookupsPerPackage"
    using assms by (auto simp: canonicalPackageCVEs_def Let_def rate_loop_asked split: sum.splits option.splits if_splits
        dest!: arg_cong [of _ _ snd])
  then show ?thesis using resolve_asked [of nvd ids ok api] by simp
qed

end
