(* ===== verification/Patching.thy ===== *)
theory Patching
  imports Patch_Info Scheduler Approval_Sweep
begin

text \<open>
  The patcher and its tool: \<open>patching.go\<close> of package \<open>patching\<close> and \<open>check_for_pending_system_patches.go\<close>. The commander is the
  one of the listing; here it also logs the argument vectors it was given, so that what is run, and when, can be
  stated. Reading a file of the host is an argument.
\<close>

section \<open>The family of the system\<close>

datatype OSType = OSDebian | OSFedora | OSDarwin | OSWindows | OSUnknown

definition os_text :: "OSType \<Rightarrow> string" where
  "os_text os = (case os of OSDebian \<Rightarrow> ''debian'' | OSFedora \<Rightarrow> ''fedora'' | OSDarwin \<Rightarrow> ''darwin'' | OSWindows \<Rightarrow> ''windows''
     | OSUnknown \<Rightarrow> ''unknown'')"

definition debian_ids :: "string list" where
  "debian_ids = [''debian'', ''ubuntu'', ''mint'', ''kali'', ''pop'', ''elementary'', ''zorin'', ''raspbian'', ''linuxmint'', ''mxlinux'']"

definition fedora_ids :: "string list" where
  "fedora_ids = [''fedora'', ''rhel'', ''centos'', ''rocky'', ''almalinux'', ''ol'', ''oracle'', ''scientific'']"

definition os_release_line :: "string \<Rightarrow> string \<times> string \<Rightarrow> string \<times> string" where
  "os_release_line line = (\<lambda>(i, like).
     case index_byte (CHR ''='') (TrimSpace line) of
       None \<Rightarrow> (i, like)
     | Some n \<Rightarrow>
         let k = ToUpper (TrimSpace (take n (TrimSpace line)));
             v = ToLower (TrimSpace (Trim_quotes (drop (n + 1) (TrimSpace line))))
         in if k = ''ID'' then (v, like) else if k = ''ID_LIKE'' then (i, v) else (i, like))"

definition tokenise :: "string list \<Rightarrow> string list" where
  "tokenise vs = concat (map Fields vs)"

text \<open>The lines are those of \<open>bufio.Scanner\<close>, for lines below its limit of 64 KiB.\<close>

definition ParseOSRelease :: "string \<Rightarrow> OSType" where
  "ParseOSRelease content =
     (let (i, like) = fold os_release_line (split_lines content) ([], [])
      in case find_first (\<lambda>t. t \<in> set debian_ids \<or> t \<in> set fedora_ids) (tokenise [i, like]) of
           None \<Rightarrow> OSUnknown
         | Some t \<Rightarrow> if t \<in> set debian_ids then OSDebian else OSFedora)"

text \<open>\<open>goos\<close> is the platform, \<open>os_release\<close> the outcome of reading \<open>/etc/os-release\<close>.\<close>

definition detectOS :: "string \<Rightarrow> string + string \<Rightarrow> string + OSType" where
  "detectOS goos os_release =
     (if goos = ''darwin'' then Inr OSDarwin
      else if goos = ''windows'' then Inr OSWindows
      else if goos = ''linux'' then
        (case os_release of
           Inl e \<Rightarrow> Inl (''patching: reading /etc/os-release: '' @ e)
         | Inr data \<Rightarrow> (case ParseOSRelease data of
                          OSUnknown \<Rightarrow> Inl ''patching: unrecognised Linux distribution''
                        | os \<Rightarrow> Inr os))
      else Inl (''patching: unsupported platform: '' @ goos))"

section \<open>The host\<close>

record 'w host =
  ho_world :: 'w
  ho_log :: "string list list"
  ho_darwinReboot :: bool

definition cmd :: "'w commander \<Rightarrow> string list \<Rightarrow> 'w host \<Rightarrow> (string \<times> cmd_error option) \<times> 'w host" where
  "cmd run args h = (case run args (ho_world h) of (r, w) \<Rightarrow> (r, h\<lparr>ho_world := w, ho_log := ho_log h @ [args]\<rparr>))"

text \<open>The PowerShell scripts that count and that install the updates.\<close>

definition windows_check_script :: string where
  "windows_check_script = Join [
     ''$ErrorActionPreference = '' @ [CHR 0x27] @ ''Stop'' @ [CHR 0x27],
     ''$session  = New-Object -ComObject Microsoft.Update.Session'',
     ''$searcher = $session.CreateUpdateSearcher()'',
     ''$results  = $searcher.Search('' @ [CHR 0x22] @ ''IsInstalled=0 and Type='' @ [CHR 0x27] @ ''Software'' @ [CHR 0x27] @ [CHR 0x22] @ '')'',
     ''Write-Output '' @ [CHR 0x22] @ ''$($results.Updates.Count) update(s) available'' @ [CHR 0x22]] ''; ''"

definition windows_install_script :: string where
  "windows_install_script = Join [
     ''$ErrorActionPreference = '' @ [CHR 0x27] @ ''Stop'' @ [CHR 0x27],
     ''Import-Module PSWindowsUpdate -ErrorAction SilentlyContinue'',
     ''$session   = New-Object -ComObject Microsoft.Update.Session'',
     ''$searcher  = $session.CreateUpdateSearcher()'',
     ''$results   = $searcher.Search('' @ [CHR 0x22] @ ''IsInstalled=0 and Type='' @ [CHR 0x27] @ ''Software'' @ [CHR 0x27] @ [CHR 0x22] @ '')'',
     ''if ($results.Updates.Count -eq 0) { Write-Output '' @ [CHR 0x27] @ ''No updates available.'' @ [CHR 0x27] @ ''; exit 0 }'',
     ''$dl = $session.CreateUpdateDownloader(); $dl.Updates = $results.Updates; $dl.Download()'',
     ''$in = $session.CreateUpdateInstaller(); $in.Updates = $results.Updates'',
     ''$r  = $in.Install()'',
     ''Write-Output '' @ [CHR 0x22] @ ''Result: $($r.ResultCode), RebootRequired: $($r.RebootRequired)'' @ [CHR 0x22]] ''; ''"

section \<open>Are there updates\<close>

definition checkDebianUpdates :: "'w commander \<Rightarrow> 'w host \<Rightarrow> (bool \<times> string \<times> string option) \<times> 'w host" where
  "checkDebianUpdates run h =
     (case cmd run [''apt-get'', ''update'', ''-q''] h of
        ((out, Some e), h) \<Rightarrow> ((False, out, Some (''apt-get update: '' @ cmd_error_text e)), h)
      | ((out, None), h) \<Rightarrow>
          (case cmd run [''apt-get'', ''upgrade'', ''--dry-run''] h of
             ((out, Some e), h) \<Rightarrow> ((False, out, Some (''apt-get upgrade --dry-run: '' @ cmd_error_text e)), h)
           | ((out, None), h) \<Rightarrow>
               ((\<not> list_ex (\<lambda>l. HasPrefix (TrimSpace l) ''0 upgraded, 0 newly installed, 0 to remove'') (split_lines out), out, None), h)))"

definition checkFedoraUpdates :: "'w commander \<Rightarrow> 'w host \<Rightarrow> (bool \<times> string \<times> string option) \<times> 'w host" where
  "checkFedoraUpdates run h =
     (case cmd run [''dnf'', ''check-update''] h of
        ((out, None), h) \<Rightarrow> ((False, out, None), h)
      | ((out, Some e), h) \<Rightarrow>
          if e = ExitCode 100 then ((True, out, None), h)
          else (case cmd run [''yum'', ''check-update''] h of
                  ((out2, None), h) \<Rightarrow> ((False, out2, None), h)
                | ((out2, Some e2), h) \<Rightarrow>
                    if e2 = ExitCode 100 then ((True, out2, None), h)
                    else ((False, out @ out2,
                           Some (''dnf check-update: '' @ cmd_error_text e @ ''; yum check-update: '' @ cmd_error_text e2)), h)))"

definition checkWindowsUpdates :: "'w commander \<Rightarrow> 'w host \<Rightarrow> (bool \<times> string \<times> string option) \<times> 'w host" where
  "checkWindowsUpdates run h =
     (case cmd run (powershell windows_check_script) h of
        ((out, Some e), h) \<Rightarrow> ((False, out, Some (''windows update check: '' @ cmd_error_text e)), h)
      | ((out, None), h) \<Rightarrow> ((\<not> Contains out ''0 update(s) available'', out, None), h))"

definition checkDarwinUpdates :: "'w commander \<Rightarrow> 'w host \<Rightarrow> (bool \<times> string \<times> string option) \<times> 'w host" where
  "checkDarwinUpdates run h =
     (case cmd run [''softwareupdate'', ''-l''] h of
        ((out, Some e), h) \<Rightarrow> ((False, out, Some (''softwareupdate -l: '' @ cmd_error_text e)), h)
      | ((out, None), h) \<Rightarrow> ((\<not> Contains out ''No new software available'', out, None), h))"

definition UpdatesAvailable :: "'w commander \<Rightarrow> OSType \<Rightarrow> 'w host \<Rightarrow> (bool \<times> string \<times> string option) \<times> 'w host" where
  "UpdatesAvailable run os h =
     (case os of
        OSDebian \<Rightarrow> checkDebianUpdates run h
      | OSFedora \<Rightarrow> checkFedoraUpdates run h
      | OSDarwin \<Rightarrow> checkDarwinUpdates run h
      | OSWindows \<Rightarrow> checkWindowsUpdates run h
      | OSUnknown \<Rightarrow> ((False, [], Some (''unsupported OS: '' @ os_text os)), h))"

text \<open>\<open>notice\<close>: the file of the update notifier, if it can be read.\<close>

definition CheckDistUpgrade :: "OSType \<Rightarrow> string option \<Rightarrow> string" where
  "CheckDistUpgrade os notice =
     (if os \<noteq> OSDebian then []
      else case notice of
        None \<Rightarrow> []
      | Some data \<Rightarrow> (case find_first (\<lambda>l. l \<noteq> []) (map TrimSpace (split_lines data)) of None \<Rightarrow> [] | Some l \<Rightarrow> l))"

section \<open>Applying updates\<close>

definition patchDebian :: "'w commander \<Rightarrow> 'w host \<Rightarrow> (string \<times> string option) \<times> 'w host" where
  "patchDebian run h =
     (case cmd run [''apt-get'', ''update'', ''-q''] h of
        ((out, Some e), h) \<Rightarrow> ((out, Some (''apt-get update: '' @ cmd_error_text e)), h)
      | ((out, None), h) \<Rightarrow>
          (case cmd run [''apt-get'', ''upgrade'', ''-y''] h of
             ((out2, Some e), h) \<Rightarrow> ((out @ out2, Some (''apt-get upgrade: '' @ cmd_error_text e)), h)
           | ((out2, None), h) \<Rightarrow> ((out @ out2, None), h)))"

definition patchFedora :: "'w commander \<Rightarrow> 'w host \<Rightarrow> (string \<times> string option) \<times> 'w host" where
  "patchFedora run h =
     (case cmd run [''dnf'', ''update'', ''-y''] h of
        ((out, None), h) \<Rightarrow> ((out, None), h)
      | ((out, Some e), h) \<Rightarrow>
          (case cmd run [''yum'', ''update'', ''-y''] h of
             ((out2, Some e2), h) \<Rightarrow> ((out @ out2, Some (''dnf: '' @ cmd_error_text e @ ''; yum: '' @ cmd_error_text e2)), h)
           | ((out2, None), h) \<Rightarrow> ((out2, None), h)))"

definition patchDarwin :: "'w commander \<Rightarrow> 'w host \<Rightarrow> (string \<times> string option) \<times> 'w host" where
  "patchDarwin run h =
     (case cmd run [''softwareupdate'', ''--install'', ''--all''] h of
        ((out, Some e), h) \<Rightarrow> ((out, Some (''softwareupdate --install --all: '' @ cmd_error_text e)), h)
      | ((out, None), h) \<Rightarrow>
          ((out, None), h\<lparr>ho_darwinReboot := Contains (ToLower out) ''restart'' \<or> Contains (ToLower out) ''reboot''\<rparr>))"

definition patchWindows :: "'w commander \<Rightarrow> 'w host \<Rightarrow> (string \<times> string option) \<times> 'w host" where
  "patchWindows run h =
     (case cmd run (powershell windows_install_script) h of ((out, err), h) \<Rightarrow> ((out, map_option cmd_error_text err), h))"

definition applyUpdates :: "'w commander \<Rightarrow> OSType \<Rightarrow> 'w host \<Rightarrow> (string \<times> string option) \<times> 'w host" where
  "applyUpdates run os h =
     (case os of
        OSDebian \<Rightarrow> patchDebian run h
      | OSFedora \<Rightarrow> patchFedora run h
      | OSDarwin \<Rightarrow> patchDarwin run h
      | OSWindows \<Rightarrow> patchWindows run h
      | OSUnknown \<Rightarrow> (([], Some (''unsupported OS: '' @ os_text os)), h))"

text \<open>\<open>sentinel\<close>: is the file \<open>/var/run/reboot-required\<close> there, or the error of asking.\<close>

definition reboot_key :: string where
  "reboot_key = ''HKLM'' @ [CHR 0x5C] @ ''SOFTWARE'' @ [CHR 0x5C] @ ''Microsoft'' @ [CHR 0x5C] @ ''Windows'' @ [CHR 0x5C] @ ''CurrentVersion'' @
     [CHR 0x5C] @ ''WindowsUpdate'' @ [CHR 0x5C] @ ''Auto Update'' @ [CHR 0x5C] @ ''RebootRequired''"

definition NeedsReboot :: "'w commander \<Rightarrow> string + bool \<Rightarrow> OSType \<Rightarrow> 'w host \<Rightarrow> (string + bool) \<times> 'w host" where
  "NeedsReboot run sentinel os h =
     (case os of
        OSDebian \<Rightarrow> (sentinel, h)
      | OSFedora \<Rightarrow>
          (case cmd run [''needs-restarting'', ''-r''] h of ((_, err), h) \<Rightarrow> (Inr (err = Some (ExitCode 1)), h))
      | OSDarwin \<Rightarrow> (Inr (ho_darwinReboot h), h)
      | OSWindows \<Rightarrow>
          (case cmd run [''reg'', ''query'', reboot_key, ''/v'', ''RebootRequired''] h of
             ((out, Some e), h) \<Rightarrow> (Inr False, h)
           | ((out, None), h) \<Rightarrow> (Inr (Contains out ''RebootRequired''), h))
      | OSUnknown \<Rightarrow> (Inr False, h))"

definition reboot :: "'w commander \<Rightarrow> OSType \<Rightarrow> 'w host \<Rightarrow> (string \<times> string option) \<times> 'w host" where
  "reboot run os h =
     (case os of
        OSWindows \<Rightarrow> (case cmd run [''shutdown'', ''/r'', ''/t'', ''0''] h of ((out, e), h) \<Rightarrow> ((out, map_option cmd_error_text e), h))
      | OSUnknown \<Rightarrow> (([], Some (''reboot not supported for OS: '' @ os_text os)), h)
      | _ \<Rightarrow> (case cmd run [''shutdown'', ''-r'', ''now''] h of ((out, e), h) \<Rightarrow> ((out, map_option cmd_error_text e), h)))"

definition logf :: "string \<Rightarrow> string" where
  "logf line = (if HasSuffix line nl then line else line @ nl)"

definition Patcher_Run ::
    "'w commander \<Rightarrow> ('w \<Rightarrow> string + bool) \<Rightarrow> OSType \<Rightarrow> 'w host \<Rightarrow> (string \<times> string option) \<times> 'w host" where
  "Patcher_Run run sentinel os h =
     (case applyUpdates run os h of ((out, err), h) \<Rightarrow>
      let sb = logf (''Detected OS: '' @ os_text os) @ logf [] @ logf ''=== Package Update ==='' @ logf (trim_right_nl out) @ logf [] in
      case err of
        Some e \<Rightarrow> ((sb, Some (''update failed: '' @ e)), h)
      | None \<Rightarrow>
          (case NeedsReboot run (sentinel (ho_world h)) os h of
             (Inl e, h) \<Rightarrow> ((sb @ logf (''Warning: reboot check failed: '' @ e), None), h)
           | (Inr False, h) \<Rightarrow> ((sb @ logf ''No reboot required.'', None), h)
           | (Inr True, h) \<Rightarrow>
               let sb = sb @ logf ''Reboot required. Initiating reboot...'' in
               (case reboot run os h of
                  ((out, Some e), h) \<Rightarrow> ((sb @ logf out, Some (''reboot failed: '' @ e)), h)
                | ((out, None), h) \<Rightarrow> ((sb @ logf ''Reboot command issued successfully.'', None), h))))"

section \<open>The tool\<close>

text \<open>
  What a run of the tool reads of its surroundings: the platform, the host name, the files, the services, and when the context of the
  listing expires.
\<close>

record 'w patch_env =
  pe_goos :: string
  pe_osRelease :: "string + string"
  pe_hostname :: string
  pe_notice :: "string option"
  pe_services :: "nat \<Rightarrow> services"
  pe_expired :: "nat \<Rightarrow> bool"
  pe_walk :: "nat \<Rightarrow> string list"
  pe_sentinel :: "'w \<Rightarrow> string + bool"
  pe_fmt1 :: "rat \<Rightarrow> string"

definition ListUpdates :: "'w commander \<Rightarrow> 'w patch_env \<Rightarrow> OSType \<Rightarrow> 'w host \<Rightarrow> (string + PackageUpdate list) \<times> 'w host" where
  "ListUpdates run pe os h =
     (case os of
        OSDebian \<Rightarrow> listDebianUpdates (cmd run) (pe_expired pe) (pe_services pe) (pe_osRelease pe) h
      | OSFedora \<Rightarrow> listFedoraUpdates (cmd run) (pe_expired pe) (pe_services pe) h
      | OSDarwin \<Rightarrow> listDarwinUpdates (cmd run) (pe_services pe) (pe_walk pe) h
      | OSWindows \<Rightarrow> listWindowsUpdates (cmd run)  (pe_services pe) h
      | OSUnknown \<Rightarrow> (Inl (''unsupported OS: '' @ os_text os), h))"

definition proposedActionFor :: "OSType \<Rightarrow> PackageUpdate list \<Rightarrow> string" where
  "proposedActionFor os updates =
     (let c = (case os of
                 OSDebian \<Rightarrow> ''apt-get upgrade -y''
               | OSFedora \<Rightarrow> ''dnf update -y''
               | OSDarwin \<Rightarrow> ''softwareupdate --install --all''
               | OSWindows \<Rightarrow> ''Install-WindowsUpdate (PowerShell COM API)''
               | OSUnknown \<Rightarrow> ''package manager upgrade'')
      in if updates \<noteq> [] then ''Apply '' @ show_nat (length updates) @ '' pending package update(s) via: '' @ c
         else ''Apply pending package updates via: '' @ c)"

definition dist_note :: "string \<Rightarrow> string" where
  "dist_note d = (if d \<noteq> [] then nl @ nl @ ''Distribution upgrade: '' @ d else [])"

definition up_to_date_state :: "string \<Rightarrow> string" where
  "up_to_date_state d = (if d \<noteq> [] \<and> Contains d ''New release'' then ''packages current; '' @ d else ''system is up to date'')"

definition up_to_date_text :: "string \<Rightarrow> string \<Rightarrow> string" where
  "up_to_date_text out d = ''System packages are up to date.'' @ nl @ nl @ out @ dist_note d"

text \<open>What is put before the operator: detail, importance, risk.\<close>

definition approval_request :: "(rat \<Rightarrow> string) \<Rightarrow> string \<Rightarrow> string \<Rightarrow> string + PackageUpdate list \<Rightarrow> string \<times> string \<times> string" where
  "approval_request fmt1 checkOut distUpgrade listed =
     (let (detail, importance, risk) =
            (case listed of
               Inl e \<Rightarrow> (FormatFallbackSummary checkOut (Some e), ''medium'', ''medium'')
             | Inr [] \<Rightarrow> (FormatFallbackSummary checkOut None, ''medium'', ''medium'')
             | Inr us \<Rightarrow> (FormatUpdateSummary fmt1 us, fst (ImportanceAssessment us), fst (RiskAssessment us)))
      in (detail @ (if distUpgrade \<noteq> [] then nl @ ''Distribution upgrade available: '' @ distUpgrade @
                      '' (informational only'' @ dash @ ''not applied automatically)'' else []), importance, risk))"

text \<open>The state the tool works on, and its result. \<open>wt i\<close> is the outcome of its \<open>i\<close>-th write to memory.\<close>

record 'w tool_state =
  ts_host :: "'w host"
  ts_mem :: amem
  ts_loop :: loop_mem
  ts_patchedAt :: "string option"
  ts_notes :: "notification list"      \<comment> \<open>of the request for approval\<close>

datatype tool_result = ToolWaiting | ToolError string | ToolText string

definition tool_name :: string where "tool_name = ''check_for_pending_system_patches''"

definition save_skill :: "bool \<Rightarrow> (instant \<Rightarrow> string) \<Rightarrow> instant \<Rightarrow> string \<Rightarrow> string \<Rightarrow> 'w tool_state \<Rightarrow> 'w tool_state" where
  "save_skill ok fmt now health summary s = s\<lparr>ts_loop := the (skill_Save ok fmt now tool_name health summary (Some (ts_loop s)))\<rparr>"

definition tool_notify :: "bool \<Rightarrow> string \<Rightarrow> string \<Rightarrow> 'w tool_state \<Rightarrow> 'w tool_state" where
  "tool_notify ok subject body s = s\<lparr>ts_loop := Notify ok subject body (ts_loop s)\<rparr>"

definition patch_subject :: "string \<Rightarrow> string \<Rightarrow> string" where
  "patch_subject host what = ''['' @ host @ ''] '' @ what"

text \<open>The third phase, after the approval; \<open>report\<close> is the full report for the notification and \<open>quote\<close> is \<open>%q\<close>.\<close>

definition apply_approved ::
    "'w commander \<Rightarrow> 'w patch_env \<Rightarrow> (string \<Rightarrow> string) \<Rightarrow> (nat \<Rightarrow> bool) \<Rightarrow> (instant \<Rightarrow> string) \<Rightarrow> instant \<Rightarrow> OSType \<Rightarrow> string \<Rightarrow> string \<Rightarrow>
      'w tool_state \<Rightarrow> tool_result \<times> 'w tool_state" where
  "apply_approved run pe quote wt fmt now os distUpgrade report s =
     (let host = pe_hostname pe;
          s = tool_notify (wt 0) (patch_subject host (''Patch Approved'' @ dash @ ''Starting''))
                (''Operator approved updates on '' @ quote host @ '' (OS: '' @ os_text os @ ''). Applying now.'' @ nl @ nl @ ''Update details:'' @ nl @ report) s
      in case Patcher_Run run (pe_sentinel pe) os (ts_host s) of
           ((out, Some e), h) \<Rightarrow>
             let s = tool_notify (wt 1) (patch_subject host ''Patch Failed'')
                       (''Patch run on host '' @ quote host @ '' encountered an error.'' @ nl @ nl @ ''Error: '' @ e @ nl @ nl @ ''Output:'' @ nl @ out)
                       (s\<lparr>ts_host := h\<rparr>)
             in (ToolText (out @ ''error: '' @ e), save_skill (wt 2) fmt now ''critical'' (''patch run failed: '' @ e) s)
         | ((out, None), h) \<Rightarrow>
             let s = s\<lparr>ts_host := h, ts_patchedAt := (if wt 1 then Some (fmt now) else ts_patchedAt s)\<rparr>;
                 s = tool_notify (wt 2) (patch_subject host ''Patch Complete'')
                       (''System patch completed successfully on host '' @ quote host @ ''.'' @ nl @ nl @ ''Output:'' @ nl @ out) s
             in (ToolText (out @ dist_note distUpgrade), save_skill (wt 3) fmt now ''ok'' ''updates applied successfully'' s))"

text \<open>
  The tool. The request for approval is the one of \<open>Approval\<close>: \<open>wr\<close>, \<open>newID\<close> and \<open>evs\<close> are its writes, its fresh identifier and the events its
  waiter receives.
\<close>

definition patch_tool ::
    "'w commander \<Rightarrow> 'w patch_env \<Rightarrow> (string \<Rightarrow> string) \<Rightarrow> (nat \<Rightarrow> bool) \<Rightarrow> wr \<Rightarrow> (instant \<Rightarrow> string) \<Rightarrow> instant \<Rightarrow> string \<Rightarrow>
      ((amem \<Rightarrow> amem) \<times> wait_event) list \<Rightarrow> 'w tool_state \<Rightarrow> tool_result \<times> 'w tool_state" where
  "patch_tool run pe quote wt wr fmt now newID evs s =
     (let host = pe_hostname pe in
      case detectOS (pe_goos pe) (pe_osRelease pe) of
        Inl e \<Rightarrow>
          let msg = ''OS detection failed: '' @ e
          in (ToolText msg, save_skill (wt 1) fmt now ''warning'' msg (tool_notify (wt 0) (patch_subject host ''Patch Failed'') msg s))
      | Inr os \<Rightarrow>
          (case UpdatesAvailable run os (ts_host s) of ((available, checkOut, _), h) \<Rightarrow>
           let distUpgrade = CheckDistUpgrade os (pe_notice pe); s = s\<lparr>ts_host := h\<rparr> in
           if \<not> available then
             (ToolText (up_to_date_text checkOut distUpgrade), save_skill (wt 0) fmt now ''ok'' (up_to_date_state distUpgrade) s)
           else
             (case ListUpdates run pe os h of (listed, h) \<Rightarrow>
              let report = (case listed of Inl e \<Rightarrow> checkOut | Inr us \<Rightarrow> FormatUpdateReport (pe_fmt1 pe) us);
                  updates = (case listed of Inl e \<Rightarrow> [] | Inr us \<Rightarrow> us)
              in case approval_request (pe_fmt1 pe) checkOut distUpgrade listed of (detail, importance, risk) \<Rightarrow>
                 (case RequestApproval wr fmt now newID (''Apply system patches to '' @ host) detail (proposedActionFor os updates) importance risk
                         evs (ts_mem s) of
                    (Inl e, m, ns) \<Rightarrow> (ToolError ''approval interrupted'', s\<lparr>ts_host := h, ts_mem := m, ts_notes := ts_notes s @ ns\<rparr>)
                  | (Inr Aborted, m, ns) \<Rightarrow> (ToolError ''approval interrupted'', s\<lparr>ts_host := h, ts_mem := m, ts_notes := ts_notes s @ ns\<rparr>)
                  | (Inr Waiting, m, ns) \<Rightarrow> (ToolWaiting, s\<lparr>ts_host := h, ts_mem := m, ts_notes := ts_notes s @ ns\<rparr>)
                  | (Inr (Returned decision), m, ns) \<Rightarrow>
                      let s = s\<lparr>ts_host := h, ts_mem := m, ts_notes := ts_notes s @ ns\<rparr> in
                      if decision = ''rejected'' then
                        (ToolText (''Patching cancelled: operator rejected the update request.'' @ dist_note distUpgrade),
                         save_skill (wt 0) fmt now ''warning'' ''patching declined by operator'' s)
                      else if decision = ''timed_out'' then
                        (ToolText (''Patching skipped: no operator response within the approval window.'' @ dist_note distUpgrade),
                         save_skill (wt 0) fmt now ''warning'' ''patching approval timed out'' s)
                      else apply_approved run pe quote wt fmt now os distUpgrade report s))))"

text \<open>The pre-check of the responsibility that runs the tool, in the form the scheduler takes it.\<close>

definition patch_preCheck ::
    "'w commander \<Rightarrow> 'w patch_env \<Rightarrow> (nat \<Rightarrow> bool) \<Rightarrow> (instant \<Rightarrow> string) \<Rightarrow> instant \<Rightarrow> 'w tool_state \<Rightarrow> precheck \<times> 'w tool_state" where
  "patch_preCheck run pe wt fmt now s =
     (case detectOS (pe_goos pe) (pe_osRelease pe) of
        Inl e \<Rightarrow> (Inl e, s)
      | Inr os \<Rightarrow>
          (case UpdatesAvailable run os (ts_host s) of
             ((available, checkOut, Some e), h) \<Rightarrow> (Inl e, s\<lparr>ts_host := h\<rparr>)
           | ((available, checkOut, None), h) \<Rightarrow>
               let distUpgrade = CheckDistUpgrade os (pe_notice pe); s = s\<lparr>ts_host := h\<rparr> in
               if available then
                 (Inr (True, ''Pending updates were found (dry-run output below). Run the '' @
                    ''check_for_pending_system_patches tool to analyse, request approval for, '' @ ''and apply them.'' @ nl @ nl @ checkOut), s)
               else (Inr (False, up_to_date_text checkOut distUpgrade), save_skill (wt 0) fmt now ''ok'' (up_to_date_state distUpgrade) s)))"

section \<open>Nothing changes without approval\<close>

text \<open>The commands that change the host.\<close>

definition changes :: "string list \<Rightarrow> bool" where
  "changes args \<longleftrightarrow>
     args \<in> set [[''apt-get'', ''upgrade'', ''-y''], [''dnf'', ''update'', ''-y''], [''yum'', ''update'', ''-y''],
       [''softwareupdate'', ''--install'', ''--all''], powershell windows_install_script] \<or>
     take 1 args = [''shutdown'']"

text \<open>\<open>h'\<close> comes from \<open>h\<close> by commands that change nothing.\<close>

definition quiet :: "'w host \<Rightarrow> 'w host \<Rightarrow> bool" where
  "quiet h h' \<longleftrightarrow> (\<exists>l. ho_log h' = ho_log h @ l \<and> list_all (\<lambda>a. \<not> changes a) l)"

lemma quiet_refl [simp]: "quiet h h"
  by (simp add: quiet_def)

lemma quiet_trans: "quiet h1 h2 \<Longrightarrow> quiet h2 h3 \<Longrightarrow> quiet h1 h3"
  unfolding quiet_def by (metis append.assoc list_all_append)

lemma quiet_cmd: "cmd run args h = (r, h') \<Longrightarrow> \<not> changes args \<Longrightarrow> quiet h h'"
  by (auto simp: cmd_def quiet_def split: prod.splits)

lemma scripts_differ: "windows_check_script \<noteq> windows_install_script" "windows_list_script \<noteq> windows_install_script"
  by code_simp+

lemma reading_commands:
  "\<not> changes [''apt-get'', ''update'', ''-q'']" "\<not> changes [''apt-get'', ''upgrade'', ''--dry-run'']" "\<not> changes [''apt-get'', ''changelog'', p]"
  "\<not> changes [''apt-cache'', ''show'', ''--no-all-versions'', p]" "\<not> changes [''dnf'', ''check-update'']" "\<not> changes [''yum'', ''check-update'']"
  "\<not> changes [''dnf'', ''info'', p]" "\<not> changes [''dnf'', ''updateinfo'', ''info'', p]" "\<not> changes [''softwareupdate'', ''-l'']"
  "\<not> changes (powershell windows_check_script)" "\<not> changes (powershell windows_list_script)"
  using scripts_differ by (simp_all add: changes_def powershell_def)

lemmas quiet_reading = reading_commands [THEN quiet_cmd [rotated]]

lemma check_quiet: "UpdatesAvailable run os h = (r, h') \<Longrightarrow> quiet h h'"
  by (cases os)
    (auto simp: UpdatesAvailable_def checkDebianUpdates_def checkFedoraUpdates_def checkDarwinUpdates_def checkWindowsUpdates_def
      split: prod.splits option.splits if_splits dest!: quiet_reading intro: quiet_trans)

lemma debian_phase1_quiet: "debian_phase1 (cmd run) ex i us h = (rs, h') \<Longrightarrow> quiet h h'"
proof (induction us arbitrary: i h rs)
  case (Cons u us)
  have d: "debianDescription (cmd run) p h1 = (x, h2) \<Longrightarrow> quiet h1 h2" for p h1 x h2
    by (auto simp: debianDescription_def split: prod.splits option.splits dest!: quiet_reading)
  have c: "debianChangelogCVEs (cmd run) p v h1 = (x, h2) \<Longrightarrow> quiet h1 h2" for p v h1 x h2
    by (auto simp: debianChangelogCVEs_def split: prod.splits option.splits if_splits dest!: quiet_reading)
  show ?case using Cons by (auto split: if_splits prod.splits dest!: d c intro: quiet_trans)
qed simp

lemma fedora_packages_quiet: "fedora_packages (cmd run) ex sv i us h = (rs, h') \<Longrightarrow> quiet h h'"
proof (induction us arbitrary: i h rs)
  case (Cons u us)
  have d: "fedoraPackageInfo (cmd run) s p h1 = (x, h2) \<Longrightarrow> quiet h1 h2" for s p h1 x h2
    by (auto simp: fedoraPackageInfo_def Let_def split: prod.splits option.splits dest!: quiet_reading intro: quiet_trans)
  show ?case using Cons by (auto split: if_splits prod.splits dest!: d intro: quiet_trans)
qed simp

lemma list_quiet: "ListUpdates run pe os h = (r, h') \<Longrightarrow> quiet h h'"
proof (cases os)
  case OSFedora
  have "fedora_check (cmd run) h1 = (x, h2) \<Longrightarrow> quiet h1 h2" for h1 x h2
    by (auto simp: fedora_check_def split: prod.splits option.splits if_splits dest!: quiet_reading intro: quiet_trans)
  then show "ListUpdates run pe os h = (r, h') \<Longrightarrow> quiet h h'" using OSFedora
    by (auto simp: ListUpdates_def listFedoraUpdates_def split: prod.splits sum.splits option.splits
        dest!: fedora_packages_quiet intro: quiet_trans)
qed (auto simp: ListUpdates_def listDebianUpdates_def listDarwinUpdates_def listWindowsUpdates_def Let_def
    split: prod.splits sum.splits option.splits if_splits dest!: quiet_reading debian_phase1_quiet intro: quiet_trans)

text \<open>The statuses an approval record goes through while its waiter is running.\<close>

definition status_ok :: "string \<Rightarrow> amem \<Rightarrow> bool" where
  "status_ok i m \<longleftrightarrow>
     (case entry_at (AttrsKey i) m of None \<Rightarrow> True | Some e \<Rightarrow> ae_Status e \<in> set [''pending'', ''approved'', ''rejected'', ''timed_out''])"

lemma wait_step_waiting:
  assumes "wait_step wr i t d a imp r ev m = (Waiting, m', ns)" "status_ok i m"
  shows "status_ok i m'"
proof (cases ev)
  case EscalationFired
  then have "m' = m \<or> m' = fst (markEscalated wr (AttrsKey i) t d a imp r (timeoutFor r) m)"
    using assms(1) by (auto simp: wait_step_def Let_def split: if_splits prod.splits)
  then show ?thesis using assms(2) by (auto simp: status_ok_def entry_at_markEscalated split: option.splits if_splits)
next
  case PollTick
  then show ?thesis using assms by (auto simp: wait_step_def split: sum.splits if_splits)
qed (use assms in \<open>auto simp: wait_step_def Let_def split: prod.splits\<close>)

lemma wait_loop_decision:
  assumes "wait_loop wr i t d a imp r evs m = (Returned st, m', ns)" "status_ok i m" "st \<noteq> ''timed_out''"
    and "list_all (\<lambda>(env, ev). \<forall>m. status_ok i m \<longrightarrow> status_ok i (env m)) evs"
  shows "\<exists>pre env post m1 e. evs = pre @ (env, PollTick) # post \<and> entry_at (AttrsKey i) (env m1) = Some e \<and>
    ae_Status e = st \<and> st \<in> {''approved'', ''rejected''}"
  using assms
proof (induction evs arbitrary: m ns)
  case (Cons x evs)
  obtain env ev where x: "x = (env, ev)" by (cases x)
  obtain out m2 ns2 where w: "wait_step wr i t d a imp r ev (env m) = (out, m2, ns2)" by (metis prod.exhaust)
  have ok: "status_ok i (env m)" using Cons.prems(2,4) x by simp
  show ?case
  proof (cases out)
    case Waiting
    then obtain ns3 where "wait_loop wr i t d a imp r evs m2 = (Returned st, m', ns3)"
      using Cons.prems(1) x w by (auto split: prod.splits)
    then obtain pre env' post m1 e where "evs = pre @ (env', PollTick) # post" "entry_at (AttrsKey i) (env' m1) = Some e"
      "ae_Status e = st" "st \<in> {''approved'', ''rejected''}"
      using Cons.IH [OF _ wait_step_waiting [OF w [unfolded Waiting] ok] Cons.prems(3)] Cons.prems(4) by (auto simp: x)
    then show ?thesis by (metis append_Cons)
  next
    case (Returned st')
    then have st: "st' = st" using Cons.prems(1) x w by simp
    have ev: "ev = PollTick" using w Returned st Cons.prems(3) by (cases ev) (auto simp: wait_step_def Let_def split: if_splits prod.splits)
    obtain e where "entry_at (AttrsKey i) (env m) = Some e" "ae_Status e = st" "st \<noteq> ''pending''"
      using w Returned st ev
      by (cases "AttrsKey i" "env m" rule: entry_at_cases) (auto simp: wait_step_def split: if_splits)
    moreover from this have "st \<in> {''approved'', ''rejected''}" using ok Cons.prems(3) by (auto simp: status_ok_def)
    ultimately show ?thesis using x ev by (metis append_Nil)
  next
    case Aborted
    then show ?thesis using Cons.prems(1) x w by simp
  qed
qed simp

lemma created_ok:
  assumes "createPending wr fmt now i t d a imp r au er m = (Inr u, m', ns)"
  shows "status_ok i m'"
proof -
  have "entry_at (AttrsKey i) m' = Some (new_entry i t d a imp r now au er)" using entry_at_create [of "AttrsKey i" wr fmt now i t d a imp r au er m] assms
    by (auto simp: createPending_def mem_set_def split: if_splits)
  then show ?thesis by (simp add: status_ok_def new_entry_def)
qed

lemma RequestApproval_decision:
  assumes "RequestApproval wr fmt now i t d a imp r evs m = (Inr (Returned st), m', ns)" "st \<noteq> ''timed_out''"
    and "list_all (\<lambda>(env, ev). \<forall>m. status_ok i m \<longrightarrow> status_ok i (env m)) evs"
  shows "\<exists>pre env post m1 e. evs = pre @ (env, PollTick) # post \<and> entry_at (AttrsKey i) (env m1) = Some e \<and>
    ae_Status e = st \<and> st \<in> {''approved'', ''rejected''}"
proof -
  obtain u m1 ns1 where c: "createPending wr fmt now i t d a imp r False '''' m = (Inr u, m1, ns1)"
    using assms(1) by (auto simp: RequestApproval_def requestApprovalOnce_def split: prod.splits sum.splits)
  then obtain ns2 where "wait_loop wr i t d a imp r evs m1 = (Returned st, m', ns2)"
    using assms(1) by (auto simp: RequestApproval_def requestApprovalOnce_def split: prod.splits wait_outcome.splits)
  from wait_loop_decision [OF this created_ok [OF c] assms(2,3)] show ?thesis .
qed

lemma state_host [simp]:
  "ts_host (save_skill ok fmt now hl sm s) = ts_host s" "ts_host (tool_notify ok a b s) = ts_host s"
  by (simp_all add: save_skill_def tool_notify_def)

text \<open>
  C22: the host is changed only after an approval. If a run of the tool issues a command that installs updates or shuts
  the system down, then a poll of its own approval request has seen the status \<open>approved\<close>, provided that what else happens to
  that record in the meantime leaves it pending, approved, rejected or timed out.
\<close>

theorem patch_needs_approval:
  assumes "patch_tool run pe quote wt wr fmt now newID evs s = (res, s')"
    and "list_ex changes (drop (length (ho_log (ts_host s))) (ho_log (ts_host s')))"
    and "list_all (\<lambda>(env, ev). \<forall>m. status_ok newID m \<longrightarrow> status_ok newID (env m)) evs"
  shows "\<exists>pre env post m e. evs = pre @ (env, PollTick) # post \<and> entry_at (AttrsKey newID) (env m) = Some e \<and> ae_Status e = ''approved''"
proof -
  have noisy: "\<not> quiet (ts_host s) (ts_host s')"
    using assms(2) by (auto simp: quiet_def list_ex_iff list_all_iff)
  obtain os where os: "detectOS (pe_goos pe) (pe_osRelease pe) = Inr os"
    using assms(1) noisy by (auto simp: patch_tool_def Let_def split: sum.splits)
  obtain av out er h where u: "UpdatesAvailable run os (ts_host s) = ((av, out, er), h)" by (metis prod.exhaust)
  obtain listed h2 where l: "ListUpdates run pe os h = (listed, h2)" by (metis prod.exhaust)
  obtain detail imp risk where q: "approval_request (pe_fmt1 pe) out (CheckDistUpgrade os (pe_notice pe)) listed = (detail, imp, risk)"
    by (metis prod.exhaust)
  have quiet: "quiet (ts_host s) h" "quiet (ts_host s) h2"
    using check_quiet [OF u] list_quiet [OF l] by (auto intro: quiet_trans)
  define act where "act = proposedActionFor os (case listed of Inl e \<Rightarrow> [] | Inr us \<Rightarrow> us)"
  obtain st m ns where r: "RequestApproval wr fmt now newID (''Apply system patches to '' @ pe_hostname pe) detail act imp risk evs (ts_mem s) =
      (Inr (Returned st), m, ns)" and st: "st \<noteq> ''rejected''" "st \<noteq> ''timed_out''"
    using assms(1) noisy quiet os u l q
    by (auto simp: patch_tool_def Let_def act_def [symmetric] split: if_splits prod.splits sum.splits wait_outcome.splits)
  from RequestApproval_decision [OF r st(2) assms(3)] st(1) show ?thesis by blast
qed

definition demo_fedora :: "nat commander" where
  "demo_fedora args w =
     ((if args = [''dnf'', ''check-update''] then (''curl.x86_64 8.1 updates'', Some (ExitCode 100)) else ([], None)), w + 1)"

definition demo_env :: "nat patch_env" where
  "demo_env = \<lparr>pe_goos = ''linux'', pe_osRelease = Inr ''ID=fedora'', pe_hostname = ''h'', pe_notice = None, pe_services = (\<lambda>_. demo_services),
     pe_expired = (\<lambda>_. False), pe_walk = (\<lambda>_. []), pe_sentinel = (\<lambda>_. Inr False), pe_fmt1 = (\<lambda>_. ''9.0'')\<rparr>"

definition demo_tool :: "nat tool_state" where
  "demo_tool = \<lparr>ts_host = \<lparr>ho_world = 0, ho_log = [], ho_darwinReboot = False\<rparr>, ts_mem = \<lparr>am_attrs = Missing, am_timeline = None\<rparr>,
     ts_loop = \<lparr>lm_states = Map.empty, lm_notes = []\<rparr>, ts_patchedAt = None, ts_notes = []\<rparr>"

definition operator_approves :: "amem \<Rightarrow> amem" where
  "operator_approves m = snd (patchAttrs wr_ok (AttrsKey ''x1'') ''approved'' [] (Some 9) m)"

definition demo_patch_run :: "tool_result \<times> nat tool_state" where
  "demo_patch_run = patch_tool demo_fedora demo_env (\<lambda>s. s) (\<lambda>_. True) wr_ok (\<lambda>_. ''t'') 5 ''x1'' [(operator_approves, PollTick)] demo_tool"

lemma operator_ok: "status_ok ''x1'' m \<Longrightarrow> status_ok ''x1'' (operator_approves m)"
  by (auto simp: operator_approves_def status_ok_def entry_at_patchAttrs wr_ok_def split: option.splits if_splits)

theorem patch_needs_approval_witness:
  "list_ex changes (ho_log (ts_host (snd demo_patch_run))) \<and>
   (\<exists>pre env post m e. [(operator_approves, PollTick)] = pre @ (env, PollTick) # post \<and>
      entry_at (AttrsKey ''x1'') (env m) = Some e \<and> ae_Status e = ''approved'')"
proof -
  have p: "patch_tool demo_fedora demo_env (\<lambda>s. s) (\<lambda>_. True) wr_ok (\<lambda>_. ''t'') 5 ''x1'' [(operator_approves, PollTick)] demo_tool =
    (fst demo_patch_run, snd demo_patch_run)" by (simp add: demo_patch_run_def)
  have l: "list_ex changes (ho_log (ts_host (snd demo_patch_run)))" by code_simp
  have "list_ex changes (drop (length (ho_log (ts_host demo_tool))) (ho_log (ts_host (snd demo_patch_run))))"
    using l by (simp add: demo_tool_def)
  from patch_needs_approval [OF p this] operator_ok l show ?thesis by simp
qed

text \<open>
  The check of the tool drops the error of the package manager: when the check fails, the tool answers that the packages are up to date and
  records the health \<open>ok\<close>. The pre-check of the responsibility does report the error.
\<close>

lemma failed_check_reads_up_to_date:
  assumes "detectOS (pe_goos pe) (pe_osRelease pe) = Inr os" "UpdatesAvailable run os (ts_host s) = ((False, out, Some e), h)"
  shows "fst (patch_tool run pe quote wt wr fmt now newID evs s) = ToolText (up_to_date_text out (CheckDistUpgrade os (pe_notice pe)))"
    and "snd (patch_tool run pe quote wt wr fmt now newID evs s) =
      save_skill (wt 0) fmt now ''ok'' (up_to_date_state (CheckDistUpgrade os (pe_notice pe))) (s\<lparr>ts_host := h\<rparr>)"
    and "fst (patch_preCheck run pe wt fmt now s) = Inl e"
  using assms by (simp_all add: patch_tool_def patch_preCheck_def Let_def)

text \<open>Every failing check ends there: a failure never reports updates.\<close>

lemma check_error_not_available: "UpdatesAvailable run os h = ((av, out, Some e), h') \<Longrightarrow> \<not> av"
  by (cases os)
    (auto simp: UpdatesAvailable_def checkDebianUpdates_def checkFedoraUpdates_def checkDarwinUpdates_def checkWindowsUpdates_def
      split: prod.splits option.splits if_splits)

text \<open>The count of Windows updates is searched for as a substring, so ten, twenty, ... updates read as none.\<close>

lemma ten_windows_updates_missed:
  assumes "run (powershell windows_check_script) (ho_world h) = ((''10 update(s) available'', None), w)"
  shows "fst (UpdatesAvailable run OSWindows h) = (False, ''10 update(s) available'', None)"
proof -
  have "Contains ''10 update(s) available'' ''0 update(s) available''" by code_simp
  then show ?thesis using assms by (simp add: UpdatesAvailable_def checkWindowsUpdates_def cmd_def)
qed

end
