(* ===== verification/Event_Log.thy ===== *)
theory Event_Log
  imports Prelude
begin

text \<open>
  A history of events that open and close something, and what of it is open at its end. The login monitor and the connection
  monitor keep such histories, cap them at a number of events, and derive the open sessions and connections from them by the
  same loop (\<open>ActiveSessions\<close>, \<open>ActiveConnections\<close>). The loop is defined once here; the locale \<open>open_log\<close> is the contract that
  its two instances fulfil.
\<close>

section \<open>The loop over a history\<close>

text \<open>\<open>seen\<close> maps a key to its last opening event and whether it was closed since; \<open>order\<close> lists the keys by first opening.\<close>

definition log_step ::
    "('e \<Rightarrow> 'k) \<Rightarrow> ('e \<Rightarrow> bool) \<Rightarrow> ('e \<Rightarrow> bool) \<Rightarrow> 'e \<Rightarrow> ('k \<rightharpoonup> 'e \<times> bool) \<times> 'k list \<Rightarrow> ('k \<rightharpoonup> 'e \<times> bool) \<times> 'k list" where
  "log_step key opens closes ev st =
     (case st of (seen, order) \<Rightarrow>
        if opens ev then (seen(key ev \<mapsto> (ev, False)), if seen (key ev) = None then order @ [key ev] else order)
        else if closes ev then
          (case seen (key ev) of None \<Rightarrow> (seen, order) | Some (e, _) \<Rightarrow> (seen(key ev \<mapsto> (e, True)), order))
        else (seen, order))"

definition still_open :: "('e \<times> bool) option \<Rightarrow> 'e option" where
  "still_open s = (case s of Some (e, False) \<Rightarrow> Some e | _ \<Rightarrow> None)"

definition active_log :: "('e \<Rightarrow> 'k) \<Rightarrow> ('e \<Rightarrow> bool) \<Rightarrow> ('e \<Rightarrow> bool) \<Rightarrow> 'e list \<Rightarrow> 'e list" where
  "active_log key opens closes history =
     (case fold (log_step key opens closes) history (Map.empty, []) of (seen, order) \<Rightarrow> List.map_filter (\<lambda>k. still_open (seen k)) order)"

text \<open>Appending with a cap.\<close>

definition cap_history :: "nat \<Rightarrow> 'e list \<Rightarrow> 'e list" where
  "cap_history limit h = (if length h > limit then drop (length h - limit) h else h)"

lemma cap_history_length [simp]: "length (cap_history limit h) = min limit (length h)"
  by (simp add: cap_history_def)

lemma cap_history_id [simp]: "length h \<le> limit \<Longrightarrow> cap_history limit h = h"
  by (simp add: cap_history_def)

lemma cap_history_suffix: "\<exists>pre. h = pre @ cap_history limit h"
  unfolding cap_history_def by (metis append_Nil append_take_drop_id)

section \<open>What a history says\<close>

text \<open>The specification: the last event of a key decides.\<close>

definition log_upd :: "('e \<Rightarrow> 'k) \<Rightarrow> ('e \<Rightarrow> bool) \<Rightarrow> ('e \<Rightarrow> bool) \<Rightarrow> 'e \<Rightarrow> ('k \<rightharpoonup> 'e) \<Rightarrow> ('k \<rightharpoonup> 'e)" where
  "log_upd key opens closes ev m = (if opens ev then m(key ev \<mapsto> ev) else if closes ev then m(key ev := None) else m)"

definition log_state :: "('e \<Rightarrow> 'k) \<Rightarrow> ('e \<Rightarrow> bool) \<Rightarrow> ('e \<Rightarrow> bool) \<Rightarrow> 'e list \<Rightarrow> ('k \<rightharpoonup> 'e)" where
  "log_state key opens closes h = fold (log_upd key opens closes) h Map.empty"

lemma log_state_snoc: "log_state key opens closes (h @ [ev]) = log_upd key opens closes ev (log_state key opens closes h)"
  by (simp add: log_state_def)

lemma log_state_key: "log_state key opens closes h k = Some ev \<Longrightarrow> key ev = k \<and> opens ev \<and> ev \<in> set h"
  by (induction h rule: rev_induct) (auto simp: log_state_snoc log_upd_def log_state_def split: if_splits)

lemma fold_log_upd:
  "fold (log_upd key opens closes) h m k =
    (if \<exists>e \<in> set h. key e = k \<and> (opens e \<or> closes e) then log_state key opens closes h k else m k)"
  by (induction h rule: rev_induct) (auto simp: log_state_def log_upd_def)

lemma log_state_append:
  "log_state key opens closes (h @ h') k =
    (if \<exists>e \<in> set h'. key e = k \<and> (opens e \<or> closes e) then log_state key opens closes h' k else log_state key opens closes h k)"
  using fold_log_upd [of key opens closes h' "log_state key opens closes h" k] by (simp add: log_state_def)

lemma log_state_opened:
  assumes "list_all opens h"
  shows "dom (log_state key opens closes h) = key ` set h"
  using assms by (induction h rule: rev_induct) (auto simp: log_state_snoc log_upd_def log_state_def)

lemma log_state_closed:
  assumes "list_all (\<lambda>e. \<not> opens e) h"
  shows "log_state key opens closes h = Map.empty"
  using assms by (induction h rule: rev_induct) (auto simp: log_state_snoc log_upd_def log_state_def)

text \<open>The loop computes it.\<close>

definition log_rel :: "('k \<rightharpoonup> 'e \<times> bool) \<times> 'k list \<Rightarrow> ('k \<rightharpoonup> 'e) \<Rightarrow> bool" where
  "log_rel st m \<longleftrightarrow> (case st of (seen, order) \<Rightarrow> (\<forall>k. still_open (seen k) = m k) \<and> set order = dom seen \<and> distinct order)"

lemma log_rel_step: "log_rel st m \<Longrightarrow> log_rel (log_step key opens closes ev st) (log_upd key opens closes ev m)"
proof (cases st)
  case (Pair seen order)
  assume rel: "log_rel st m"
  then have "seen (key ev) = None \<Longrightarrow> m (key ev) = None" by (auto simp: Pair log_rel_def still_open_def dest: spec [of _ "key ev"])
  with rel show ?thesis by (auto simp: Pair log_rel_def log_step_def log_upd_def still_open_def split: option.splits)
qed

lemma log_rel_fold: "log_rel (fold (log_step key opens closes) h (Map.empty, [])) (log_state key opens closes h)"
proof (induction h rule: rev_induct)
  case Nil
  then show ?case by (simp add: log_rel_def log_state_def still_open_def)
next
  case (snoc ev h)
  then show ?case using log_rel_step by (simp add: log_state_snoc)
qed

lemma active_log_exact:
  "set (active_log key opens closes h) = ran (log_state key opens closes h)"
  "distinct (map key (active_log key opens closes h))"
proof -
  obtain seen order where st: "fold (log_step key opens closes) h (Map.empty, []) = (seen, order)" by (metis prod.exhaust)
  have r: "\<And>k. still_open (seen k) = log_state key opens closes h k" "set order = dom seen" "distinct order"
    using log_rel_fold [of key opens closes h] st by (auto simp: log_rel_def)
  have a: "active_log key opens closes h = List.map_filter (log_state key opens closes h) order"
    by (simp add: active_log_def st r)
  have "dom (log_state key opens closes h) \<subseteq> set order"
    by (auto simp: r(1) [symmetric] r(2) still_open_def split: option.splits)
  then show "set (active_log key opens closes h) = ran (log_state key opens closes h)"
    by (force simp: a List.map_filter_def ran_def)
  have "map key (List.map_filter (log_state key opens closes h) order) = filter (\<lambda>k. log_state key opens closes h k \<noteq> None) order"
    by (induction order) (auto simp: List.map_filter_def dest: log_state_key)
  then show "distinct (map key (active_log key opens closes h))" using r(3) by (simp add: a)
qed

section \<open>The contract\<close>

locale open_log =
  fixes active :: "'e list \<Rightarrow> 'e list"
    and key :: "'e \<Rightarrow> 'k"
    and opens closes :: "'e \<Rightarrow> bool"
  assumes exact: "set (active h) = ran (log_state key opens closes h)"
    and one_per_key: "distinct (map key (active h))"
begin

lemma active_iff: "ev \<in> set (active h) \<longleftrightarrow> log_state key opens closes h (key ev) = Some ev"
  unfolding exact by (auto simp: ran_def dest: log_state_key)

lemma active_keys: "key ` set (active h) = dom (log_state key opens closes h)"
proof
  show "key ` set (active h) \<subseteq> dom (log_state key opens closes h)" by (auto simp: active_iff)
  show "dom (log_state key opens closes h) \<subseteq> key ` set (active h)"
  proof
    fix k assume "k \<in> dom (log_state key opens closes h)"
    then obtain ev where "log_state key opens closes h k = Some ev" by blast
    moreover from log_state_key [OF this] have "key ev = k" by simp
    ultimately show "k \<in> key ` set (active h)" by (auto simp: active_iff)
  qed
qed

text \<open>An event is active when it opens and nothing after it concerns its key.\<close>

lemma active_meaning:
  "ev \<in> set (active h) \<longleftrightarrow>
    (\<exists>pre post. h = pre @ ev # post \<and> opens ev \<and> (\<forall>e \<in> set post. key e = key ev \<longrightarrow> \<not> opens e \<and> \<not> closes e))"
    (is "_ \<longleftrightarrow> ?R h")
proof
  assume "ev \<in> set (active h)"
  then have "log_state key opens closes h (key ev) = Some ev" by (simp add: active_iff)
  then show "?R h"
  proof (induction h rule: rev_induct)
    case Nil
    then show ?case by (simp add: log_state_def)
  next
    case (snoc e h)
    show ?case
    proof (cases "e = ev \<and> opens ev")
      case True
      then show ?thesis by (intro exI [of _ h] exI [of _ "[]"]) simp
    next
      case False
      then have "log_state key opens closes h (key ev) = Some ev" and e: "key e = key ev \<longrightarrow> \<not> opens e \<and> \<not> closes e"
        using snoc.prems by (auto simp: log_state_snoc log_upd_def split: if_splits)
      from snoc.IH [OF this(1)] obtain pre post
        where "h = pre @ ev # post" "opens ev" "\<forall>e \<in> set post. key e = key ev \<longrightarrow> \<not> opens e \<and> \<not> closes e" by blast
      with e show ?thesis by (intro exI [of _ pre] exI [of _ "post @ [e]"]) auto
    qed
  qed
next
  assume "?R h"
  then obtain pre post where h: "h = (pre @ [ev]) @ post" and o: "opens ev"
    and post: "\<forall>e \<in> set post. key e = key ev \<longrightarrow> \<not> opens e \<and> \<not> closes e" by auto
  have "log_state key opens closes h (key ev) = log_state key opens closes (pre @ [ev]) (key ev)"
    unfolding h log_state_append [of key opens closes "pre @ [ev]" post] using post by auto
  then show "ev \<in> set (active h)" using o by (simp add: active_iff log_state_snoc log_upd_def)
qed

text \<open>Replaying the events that lead from one set of open keys to the next.\<close>

lemma replay:
  assumes "list_all opens opened" "list_all (\<lambda>e. closes e \<and> \<not> opens e) closed"
  shows "key ` set (active (h @ opened @ closed)) = (key ` set (active h) \<union> key ` set opened) - key ` set closed"
proof -
  have c: "list_all (\<lambda>e. \<not> opens e) closed" using assms(2) by (auto simp: list_all_iff)
  have "log_state key opens closes (h @ opened @ closed) k =
    (if k \<in> key ` set closed then None else if k \<in> key ` set opened then log_state key opens closes opened k
     else log_state key opens closes h k)" for k
    unfolding log_state_append log_state_closed [OF c] using assms by (auto simp: list_all_iff)
  then show ?thesis
    using log_state_opened [OF assms(1), of key closes] by (force simp: active_keys dom_def split: if_splits)
qed

text \<open>Dropping the oldest events never makes something look open.\<close>

lemma capped: "set (active (cap_history limit h)) \<subseteq> set (active h)"
proof -
  obtain pre where p: "h = pre @ cap_history limit h" using cap_history_suffix by blast
  have "log_state key opens closes h k = Some ev" if "log_state key opens closes (cap_history limit h) k = Some ev" for k ev
    using log_state_key [OF that] that p log_state_append [of key opens closes pre "cap_history limit h" k] by auto
  then show ?thesis by (auto simp: active_iff)
qed

end

end
