(* ===== verification/Monitor_Base.thy ===== *)
theory Monitor_Base
  imports Event_Log Patch_Info Scheduler
begin

text \<open>
  What the login monitor and the connection monitor share besides their kind of history: a deviation from the baseline that a host has
  learned, and its escalation to the skill state, the incident ledger and, when critical, the operator.
\<close>

text \<open>A deviation: reason, fingerprint, title, detail and severity.\<close>

record deviation =
  dv_reason :: string
  dv_fingerprint :: string
  dv_title :: string
  dv_detail :: string
  dv_severity :: string

text \<open>Outcomes of the three writes of an escalation, and the formats of the clock that they use.\<close>

record escalation_io =
  ei_state :: bool
  ei_report :: bool
  ei_note :: bool

record formats =
  fm_stamp :: "instant \<Rightarrow> string"        \<comment> \<open>\<open>time.RFC3339\<close>\<close>
  fm_mail :: "instant \<Rightarrow> string"         \<comment> \<open>\<open>time.RFC1123\<close>\<close>

definition escalate ::
    "escalation_io \<Rightarrow> formats \<Rightarrow> instant \<Rightarrow> string \<Rightarrow> string \<Rightarrow> deviation \<Rightarrow> loop_mem \<times> ledger option \<Rightarrow> loop_mem \<times> ledger option" where
  "escalate io fm now skill body d st =
     (case st of (lm, led) \<Rightarrow>
       let lm = the (skill_Save (ei_state io) (fm_stamp fm) now skill (dv_severity d) (dv_reason d @ '': '' @ dv_detail d) (Some lm));
           led = snd (Report (ei_report io) (fm_stamp fm) now (dv_fingerprint d) (dv_title d) (dv_detail d) (dv_severity d) led)
       in (if dv_severity d = ''critical'' then Notify (ei_note io) (''[CRITICAL] '' @ dv_title d) body lm else lm, led))"

end
