(* ===== verification/Conn_Monitor.thy ===== *)
theory Conn_Monitor
  imports Monitor_Base
begin

text \<open>
  The connection monitor, package \<open>connmonitor\<close>: the parser of \<open>ss\<close>, the comparison of two polls, the history of openings and closings in
  the domain \<open>Network\<close>, and the baseline that a new connection is compared with. The map of a poll is a map from keys to
  connections; the order in which Go walks it is an argument. Text written to the history passes through
  \<open>encoding/json\<close> (\<open>as_json\<close>).
\<close>

section \<open>Connections and events\<close>

datatype EventType = EventExisting | EventOpen | EventClose

datatype Direction = DirectionInbound | DirectionOutbound | DirectionUnknown

record Conn =
  cn_Proto :: string
  cn_LocalAddr :: string
  cn_LocalPort :: int
  cn_RemoteAddr :: string
  cn_RemotePort :: int
  cn_State :: string
  cn_PID :: string
  cn_Process :: string

record ConnEvent =
  ce_EventType :: EventType
  ce_Direction :: Direction
  ce_Proto :: string
  ce_LocalAddr :: string
  ce_LocalPort :: int
  ce_RemoteAddr :: string
  ce_RemotePort :: int
  ce_State :: string
  ce_PID :: string
  ce_Process :: string
  ce_Timestamp :: instant
  ce_Unusual :: bool
  ce_UnusualReason :: string

definition ephemeralPortFloor :: int where "ephemeralPortFloor = 32768"

definition defaultHistoryLimit :: nat where "defaultHistoryLimit = 2000"

text \<open>The format \<open>%s|%s:%d|%s:%d\<close>.\<close>

definition endpoint_key :: "string \<Rightarrow> string \<Rightarrow> int \<Rightarrow> string \<Rightarrow> int \<Rightarrow> string" where
  "endpoint_key proto la lp ra rp = proto @ ''|'' @ la @ '':'' @ show_int lp @ ''|'' @ ra @ '':'' @ show_int rp"

definition Conn_Key :: "Conn \<Rightarrow> string" where
  "Conn_Key c = endpoint_key (cn_Proto c) (cn_LocalAddr c) (cn_LocalPort c) (cn_RemoteAddr c) (cn_RemotePort c)"

definition connEventKey :: "ConnEvent \<Rightarrow> string" where
  "connEventKey ev = endpoint_key (ce_Proto ev) (ce_LocalAddr ev) (ce_LocalPort ev) (ce_RemoteAddr ev) (ce_RemotePort ev)"

definition Conn_direction :: "Conn \<Rightarrow> Direction" where
  "Conn_direction c =
     (if cn_LocalPort c \<le> 0 then DirectionUnknown
      else if cn_LocalPort c \<ge> ephemeralPortFloor then DirectionOutbound
      else DirectionInbound)"

definition newEvent :: "Conn \<Rightarrow> EventType \<Rightarrow> instant \<Rightarrow> ConnEvent" where
  "newEvent c t now = \<lparr>ce_EventType = t, ce_Direction = Conn_direction c, ce_Proto = cn_Proto c, ce_LocalAddr = cn_LocalAddr c,
     ce_LocalPort = cn_LocalPort c, ce_RemoteAddr = cn_RemoteAddr c, ce_RemotePort = cn_RemotePort c, ce_State = cn_State c,
     ce_PID = cn_PID c, ce_Process = cn_Process c, ce_Timestamp = now, ce_Unusual = False, ce_UnusualReason = []\<rparr>"

definition ExistingEvents :: "Conn list \<Rightarrow> instant \<Rightarrow> ConnEvent list" where
  "ExistingEvents conns now = map (\<lambda>c. newEvent c EventExisting now) conns"

section \<open>Reading the host\<close>

text \<open>\<open>strconv.Atoi\<close> with its error ignored: 0 for text that is no number, the nearest bound of \<open>int\<close> for one out of range.\<close>

definition atoi_value :: "string \<Rightarrow> int" where
  "atoi_value s =
     (let neg = (s \<noteq> [] \<and> hd s = CHR 0x2D);
          ds = (if s \<noteq> [] \<and> (hd s = CHR 0x2D \<or> hd s = CHR 0x2B) then List.tl s else s);
          n = int (digits_value ds)
      in if ds = [] \<or> \<not> list_all is_digit ds then 0
         else if neg then max (- (2 ^ 63)) (- n) else min (2 ^ 63 - 1) n)"

definition trim_brackets :: "string \<Rightarrow> string" where
  "trim_brackets s = rev (dropWhile (\<lambda>c. c \<in> {CHR ''['', CHR '']''}) (rev (dropWhile (\<lambda>c. c \<in> {CHR ''['', CHR '']''}) s)))"

definition splitHostPort :: "string \<Rightarrow> string \<times> int" where
  "splitHostPort s =
     (case last_index_byte (CHR '':'') s of
        None \<Rightarrow> (s, 0)
      | Some i \<Rightarrow> (trim_brackets (take i s), atoi_value (drop (i + 1) s)))"

definition ssProcRe :: "citem list" where
  "ssProcRe = [Plain (lits (''users:(('' @ [CHR 0x22])), Group (rplus (Cls True [(34, 34)])), Plain (lits ([CHR 0x22] @ '',pid='')), Group (rplus rdigit)]"

definition ss_line :: "string \<Rightarrow> Conn option" where
  "ss_line line =
     (case Fields (TrimSpace line) of
        f0 # f1 # f2 # f3 # local # peer # _ \<Rightarrow>
          let proto = ToLower f0 in
          if proto \<noteq> ''tcp'' \<and> proto \<noteq> ''udp'' then None
          else if HasSuffix peer '':*'' then None
          else
            let (la, lp) = splitHostPort local; (ra, rp) = splitHostPort peer;
                (proc, pid) = (case FindStringSubmatch ssProcRe (TrimSpace line) of Some [a, b] \<Rightarrow> (a, b) | _ \<Rightarrow> ([], []))
            in Some \<lparr>cn_Proto = proto, cn_LocalAddr = la, cn_LocalPort = lp, cn_RemoteAddr = ra, cn_RemotePort = rp,
                 cn_State = f1, cn_PID = pid, cn_Process = proc\<rparr>
      | _ \<Rightarrow> None)"

definition parseSS :: "string \<Rightarrow> Conn list" where
  "parseSS out = List.map_filter ss_line (split_lines out)"

text \<open>\<open>run\<close>: the output of \<open>ss\<close> with the given flags, or its error.\<close>

definition conn_snapshot :: "(string \<Rightarrow> string + string) \<Rightarrow> string + Conn list" where
  "conn_snapshot run =
     (case run ''-tunapH'' of
        Inr out \<Rightarrow> Inr (parseSS out)
      | Inl _ \<Rightarrow> (case run ''-tunaH'' of
                   Inr out \<Rightarrow> Inr (parseSS out)
                 | Inl e \<Rightarrow> Inl (''connmonitor: ss unavailable: '' @ e)))"

section \<open>The monitor\<close>

record NetworkMonitorSettings =
  nc_DisableBaseline :: bool
  nc_OwnPort :: int

text \<open>\<open>nm_history\<close> is the value of the key \<open>connection_history\<close>, if it is there and decodes.\<close>

record net_mem =
  nm_history :: "ConnEvent list option"
  nm_loop :: loop_mem
  nm_ledger :: "ledger option"

record conn_monitor =
  cm_limit :: nat
  cm_cfg :: NetworkMonitorSettings
  cm_prev :: "string \<rightharpoonup> Conn"
  cm_bootstrapped :: bool

text \<open>\<open>limit\<close> is the configured limit, \<open>d\<close> the parsed poll interval.\<close>

definition NewWithGatherer :: "int \<Rightarrow> NetworkMonitorSettings \<Rightarrow> conn_monitor" where
  "NewWithGatherer limit cfg = \<lparr>cm_limit = (if limit \<le> 0 then defaultHistoryLimit else nat limit), cm_cfg = cfg,
     cm_prev = Map.empty, cm_bootstrapped = False\<rparr>"

definition defaultPollInterval :: duration where "defaultPollInterval = 10 * second"

definition conn_pollInterval :: "duration option \<Rightarrow> duration" where
  "conn_pollInterval parsed = (case parsed of Some d \<Rightarrow> if d > 0 then d else defaultPollInterval | None \<Rightarrow> defaultPollInterval)"

definition conn_ReadHistory :: "net_mem \<Rightarrow> ConnEvent list" where
  "conn_ReadHistory m = (case nm_history m of None \<Rightarrow> [] | Some h \<Rightarrow> h)"

definition conn_json :: "ConnEvent \<Rightarrow> ConnEvent" where
  "conn_json e = e\<lparr>ce_Proto := as_json (ce_Proto e), ce_LocalAddr := as_json (ce_LocalAddr e), ce_RemoteAddr := as_json (ce_RemoteAddr e),
     ce_State := as_json (ce_State e), ce_PID := as_json (ce_PID e), ce_Process := as_json (ce_Process e),
     ce_UnusualReason := as_json (ce_UnusualReason e)\<rparr>"

definition appendEvents :: "bool \<Rightarrow> conn_monitor \<Rightarrow> ConnEvent list \<Rightarrow> net_mem \<Rightarrow> net_mem" where
  "appendEvents ok mon events m =
     (if events = [] then m
      else if ok then m\<lparr>nm_history := Some (map conn_json (cap_history (cm_limit mon) (conn_ReadHistory m @ events)))\<rparr>
      else m)"

definition conn_opens :: "ConnEvent \<Rightarrow> bool" where
  "conn_opens ev \<longleftrightarrow> ce_EventType ev = EventOpen \<or> ce_EventType ev = EventExisting"

definition conn_closes :: "ConnEvent \<Rightarrow> bool" where
  "conn_closes ev \<longleftrightarrow> ce_EventType ev = EventClose"

definition ActiveConnections :: "ConnEvent list \<Rightarrow> ConnEvent list" where
  "ActiveConnections = active_log connEventKey conn_opens conn_closes"

definition port_before :: "ConnEvent \<Rightarrow> ConnEvent \<Rightarrow> bool" where
  "port_before a b \<longleftrightarrow> ce_LocalPort a < ce_LocalPort b"

text \<open>\<open>curKeys\<close> and \<open>prevKeys\<close> list the keys of the two maps in the order in which they are walked.\<close>

definition Diff ::
    "string list \<Rightarrow> string list \<Rightarrow> (string \<rightharpoonup> Conn) \<Rightarrow> (string \<rightharpoonup> Conn) \<Rightarrow> instant \<Rightarrow> ConnEvent list \<times> ConnEvent list" where
  "Diff curKeys prevKeys prev cur now =
     (sort_by port_before (map (\<lambda>k. newEvent (the (cur k)) EventOpen now) (filter (\<lambda>k. prev k = None) curKeys)),
      sort_by port_before (map (\<lambda>k. newEvent (the (prev k)) EventClose now) (filter (\<lambda>k. cur k = None) prevKeys)))"

section \<open>The baseline\<close>

definition processSuffix :: "ConnEvent \<Rightarrow> string" where
  "processSuffix ev = (if ce_Process ev = [] then [] else '' ('' @ ce_Process ev @ '')'')"

definition processLabel :: "ConnEvent \<Rightarrow> string" where
  "processLabel ev = (if ce_Process ev \<noteq> [] then ce_Process ev else if ce_PID ev \<noteq> [] then ''pid '' @ ce_PID ev else ''unknown'')"

definition port_key :: "ConnEvent \<Rightarrow> string" where
  "port_key ev = ce_Proto ev @ '':'' @ show_int (ce_LocalPort ev)"

definition knownInboundPorts :: "ConnEvent list \<Rightarrow> string set" where
  "knownInboundPorts prior = set (map port_key (filter (\<lambda>h. conn_opens h \<and> ce_Direction h = DirectionInbound) prior))"

definition knownRemoteHosts :: "ConnEvent list \<Rightarrow> string set" where
  "knownRemoteHosts prior =
     set (map ce_RemoteAddr (filter (\<lambda>h. conn_opens h \<and> ce_Direction h = DirectionOutbound \<and> ce_RemoteAddr h \<noteq> []) prior))"

definition knownProcesses :: "ConnEvent list \<Rightarrow> string set" where
  "knownProcesses prior = set (map ce_Process (filter (\<lambda>h. conn_opens h \<and> ce_Process h \<noteq> []) prior))"

definition conn_addrs :: "ConnEvent \<Rightarrow> string \<times> string" where
  "conn_addrs ev = (ce_LocalAddr ev @ '':'' @ show_int (ce_LocalPort ev), ce_RemoteAddr ev @ '':'' @ show_int (ce_RemotePort ev))"

text \<open>\<open>quote\<close> is the verb \<open>%q\<close>.\<close>

definition conn_deviation :: "(string \<Rightarrow> string) \<Rightarrow> NetworkMonitorSettings \<Rightarrow> ConnEvent list \<Rightarrow> ConnEvent \<Rightarrow> deviation option" where
  "conn_deviation quote cfg prior ev =
     (if ce_Direction ev = DirectionInbound \<and> ce_LocalPort ev = nc_OwnPort cfg then None
      else if ce_Direction ev = DirectionInbound \<and> port_key ev \<notin> knownInboundPorts prior then
        Some \<lparr>dv_reason = ''new_inbound_port'',
          dv_fingerprint = ''unusual-conn-newport-'' @ ce_Proto ev @ ''-'' @ show_int (ce_LocalPort ev),
          dv_title = ''new inbound port: '' @ ce_Proto ev @ ''/'' @ show_int (ce_LocalPort ev),
          dv_detail = ''A connection arrived on '' @ ce_Proto ev @ '' port '' @ show_int (ce_LocalPort ev) @
            '', which has never accepted inbound traffic on this host before (from '' @ ce_RemoteAddr ev @ processSuffix ev @ '').'',
          dv_severity = ''critical''\<rparr>
      else if ce_Process ev \<noteq> [] \<and> ce_Process ev \<notin> knownProcesses prior then
        Some \<lparr>dv_reason = ''new_process'',
          dv_fingerprint = ''unusual-conn-newprocess-'' @ ce_Process ev,
          dv_title = ''new process on the network: '' @ quote (ce_Process ev),
          dv_detail = ''Process '' @ quote (ce_Process ev) @ '' made a network connection for the first time in recorded history ('' @
            ce_Proto ev @ '' '' @ fst (conn_addrs ev) @ '' -> '' @ snd (conn_addrs ev) @ '').'',
          dv_severity = ''critical''\<rparr>
      else if ce_Direction ev = DirectionOutbound \<and> ce_RemoteAddr ev \<noteq> [] \<and> ce_RemoteAddr ev \<notin> knownRemoteHosts prior then
        Some \<lparr>dv_reason = ''new_remote_host'',
          dv_fingerprint = ''unusual-conn-newremote-'' @ ce_RemoteAddr ev,
          dv_title = ''outbound connection to a new remote host: '' @ ce_RemoteAddr ev,
          dv_detail = ''An outbound connection was opened to '' @ snd (conn_addrs ev) @
            [CHR '',''] @ '' which has never been seen in this host'' @ [CHR 0x27] @ ''s connection history before'' @ processSuffix ev @ ''.'',
          dv_severity = ''warning''\<rparr>
      else None)"

definition conn_mail :: "formats \<Rightarrow> ConnEvent \<Rightarrow> deviation \<Rightarrow> string" where
  "conn_mail fm ev d = dv_detail d @ nl @ nl @ ''Protocol: '' @ ce_Proto ev @ nl @ ''Local:    '' @ fst (conn_addrs ev) @ nl @
     ''Remote:   '' @ snd (conn_addrs ev) @ nl @ ''Process:  '' @ processLabel ev @ nl @ ''Time:     '' @ fm_mail fm (ce_Timestamp ev)"

definition conn_checkAgainstBaseline ::
    "(string \<Rightarrow> string) \<Rightarrow> escalation_io \<Rightarrow> formats \<Rightarrow> instant \<Rightarrow> NetworkMonitorSettings \<Rightarrow> ConnEvent list \<Rightarrow> ConnEvent \<Rightarrow> net_mem \<Rightarrow>
      ConnEvent \<times> net_mem" where
  "conn_checkAgainstBaseline quote io fm now cfg prior ev m =
     (if nc_DisableBaseline cfg then (ev, m)
      else case conn_deviation quote cfg prior ev of
        None \<Rightarrow> (ev, m)
      | Some d \<Rightarrow>
          (case escalate io fm now ''check_network_connections'' (conn_mail fm ev d) d (nm_loop m, nm_ledger m) of (lm, led) \<Rightarrow>
             (ev\<lparr>ce_Unusual := True, ce_UnusualReason := dv_reason d\<rparr>, m\<lparr>nm_loop := lm, nm_ledger := led\<rparr>)))"

fun check_opened ::
    "(string \<Rightarrow> string) \<Rightarrow> (nat \<Rightarrow> escalation_io) \<Rightarrow> formats \<Rightarrow> instant \<Rightarrow> NetworkMonitorSettings \<Rightarrow> ConnEvent list \<Rightarrow> ConnEvent list \<Rightarrow> net_mem \<Rightarrow>
      ConnEvent list \<times> net_mem" where
  "check_opened quote io fm now cfg prior [] m = ([], m)"
| "check_opened quote io fm now cfg prior (ev # evs) m =
     (let (ev', m) = conn_checkAgainstBaseline quote (io (length evs)) fm now cfg prior ev m;
          (evs', m) = check_opened quote io fm now cfg prior evs m
      in (ev' # evs', m))"

section \<open>A poll\<close>

text \<open>What a poll meets: the connections gathered, the orders of its map walks, the clock, and which writes succeed.\<close>

record poll_env =
  pl_gather :: "string + Conn list"
  pl_curKeys :: "string list"
  pl_prevKeys :: "string list"
  pl_now :: instant
  pl_io :: "nat \<Rightarrow> escalation_io"
  pl_write :: bool

definition conn_map :: "Conn list \<Rightarrow> (string \<rightharpoonup> Conn)" where
  "conn_map conns = fold (\<lambda>c m. m(Conn_Key c \<mapsto> c)) conns Map.empty"

definition PollOnce ::
    "(string \<Rightarrow> string) \<Rightarrow> formats \<Rightarrow> poll_env \<Rightarrow> conn_monitor \<Rightarrow> net_mem \<Rightarrow> (string + ConnEvent list) \<times> conn_monitor \<times> net_mem" where
  "PollOnce quote fm e mon m =
     (case pl_gather e of
        Inl err \<Rightarrow> (Inl err, mon, m)
      | Inr conns \<Rightarrow>
          let cur = conn_map conns in
          if \<not> cm_bootstrapped mon then
            let events = map (\<lambda>k. newEvent (the (cur k)) EventExisting (pl_now e)) (pl_curKeys e)
            in (Inr events, mon\<lparr>cm_bootstrapped := True, cm_prev := cur\<rparr>, appendEvents (pl_write e) mon events m)
          else
            (case Diff (pl_curKeys e) (pl_prevKeys e) (cm_prev mon) cur (pl_now e) of (opened, closings) \<Rightarrow>
               let (opened, m) = (if opened \<noteq> [] then check_opened quote (pl_io e) fm (pl_now e) (cm_cfg mon) (conn_ReadHistory m) opened m
                                  else (opened, m));
                   events = opened @ closings
               in (Inr events, mon\<lparr>cm_prev := cur\<rparr>, appendEvents (pl_write e) mon events m)))"

text \<open>The walks of a poll visit every key of the two maps once.\<close>

definition poll_walks :: "poll_env \<Rightarrow> conn_monitor \<Rightarrow> bool" where
  "poll_walks e mon \<longleftrightarrow>
     (case pl_gather e of
        Inl _ \<Rightarrow> True
      | Inr conns \<Rightarrow> distinct (pl_curKeys e) \<and> set (pl_curKeys e) = dom (conn_map conns) \<and>
          distinct (pl_prevKeys e) \<and> set (pl_prevKeys e) = dom (cm_prev mon))"

text \<open>A run of polls, with the events of all of them.\<close>

fun polls ::
    "(string \<Rightarrow> string) \<Rightarrow> formats \<Rightarrow> poll_env list \<Rightarrow> conn_monitor \<Rightarrow> net_mem \<Rightarrow> ConnEvent list \<times> conn_monitor \<times> net_mem" where
  "polls quote fm [] mon m = ([], mon, m)"
| "polls quote fm (e # es) mon m =
     (case PollOnce quote fm e mon m of (r, mon, m) \<Rightarrow>
        (case polls quote fm es mon m of (evs, mon, m) \<Rightarrow> ((case r of Inl _ \<Rightarrow> [] | Inr new \<Rightarrow> new) @ evs, mon, m)))"

text \<open>A connection whose protocol and addresses are UTF-8, so that the history keeps its key.\<close>

definition conn_text :: "Conn \<Rightarrow> bool" where
  "conn_text c \<longleftrightarrow> list_all (\<lambda>s. as_json s = s) [cn_Proto c, cn_LocalAddr c, cn_RemoteAddr c]"

definition good_poll :: "poll_env \<Rightarrow> conn_monitor \<Rightarrow> bool" where
  "good_poll e mon \<longleftrightarrow> pl_write e \<and> poll_walks e mon \<and> (case pl_gather e of Inl _ \<Rightarrow> True | Inr conns \<Rightarrow> list_all conn_text conns)"

fun good_polls :: "(string \<Rightarrow> string) \<Rightarrow> formats \<Rightarrow> poll_env list \<Rightarrow> conn_monitor \<Rightarrow> net_mem \<Rightarrow> bool" where
  "good_polls quote fm [] mon m \<longleftrightarrow> True"
| "good_polls quote fm (e # es) mon m \<longleftrightarrow>
     good_poll e mon \<and> (case PollOnce quote fm e mon m of (_, mon, m) \<Rightarrow> good_polls quote fm es mon m)"

section \<open>The history follows the connections\<close>

interpretation conns: open_log ActiveConnections connEventKey conn_opens conn_closes
  by unfold_locales (simp_all add: ActiveConnections_def active_log_exact)

abbreviation open_keys :: "ConnEvent list \<Rightarrow> string set" where
  "open_keys h \<equiv> connEventKey ` set (ActiveConnections h)"

lemma newEvent_key [simp]: "connEventKey (newEvent c t now) = Conn_Key c"
  by (simp add: newEvent_def connEventKey_def Conn_Key_def)

lemma newEvent_type [simp]:
  "conn_opens (newEvent c t now) \<longleftrightarrow> t \<noteq> EventClose" "conn_closes (newEvent c t now) \<longleftrightarrow> t = EventClose"
  by (cases t; simp add: newEvent_def conn_opens_def conn_closes_def)+

lemma conn_map_snoc [simp]: "conn_map (cs @ [c]) = (conn_map cs)(Conn_Key c \<mapsto> c)"
  by (simp add: conn_map_def)

lemma conn_map_key: "conn_map cs k = Some c \<Longrightarrow> Conn_Key c = k \<and> c \<in> set cs"
  by (induction cs rule: rev_induct) (auto simp: conn_map_def split: if_splits)

text \<open>What survives the JSON text of the history.\<close>

definition text_event :: "ConnEvent \<Rightarrow> bool" where
  "text_event e \<longleftrightarrow> list_all (\<lambda>s. as_json s = s) [ce_Proto e, ce_LocalAddr e, ce_RemoteAddr e]"

lemma conn_json_simps [simp]:
  "conn_opens (conn_json e) = conn_opens e" "conn_closes (conn_json e) = conn_closes e"
  "text_event e \<Longrightarrow> connEventKey (conn_json e) = connEventKey e" "text_event e \<Longrightarrow> text_event (conn_json e)"
  by (simp_all add: conn_json_def conn_opens_def conn_closes_def text_event_def connEventKey_def)

lemma open_keys_json: "list_all text_event h \<Longrightarrow> open_keys (map conn_json h) = open_keys h"
proof -
  assume "list_all text_event h"
  then have "dom (log_state connEventKey conn_opens conn_closes (map conn_json h)) = dom (log_state connEventKey conn_opens conn_closes h)"
    by (induction h rule: rev_induct) (auto simp: log_state_snoc log_upd_def log_state_def)
  then show ?thesis by (simp add: conns.active_keys)
qed

lemma newEvent_text [simp]: "conn_text c \<Longrightarrow> text_event (newEvent c t now)"
  by (simp add: conn_text_def text_event_def newEvent_def)

section \<open>Marked events\<close>

text \<open>The baseline changes the mark of an event and nothing else of it, and leaves the history alone.\<close>

definition same_conn :: "ConnEvent \<Rightarrow> ConnEvent \<Rightarrow> bool" where
  "same_conn a b \<longleftrightarrow> b = a\<lparr>ce_Unusual := ce_Unusual b, ce_UnusualReason := ce_UnusualReason b\<rparr>"

lemma same_conn_simps:
  assumes "same_conn a b"
  shows "connEventKey b = connEventKey a" "conn_opens b = conn_opens a" "conn_closes b = conn_closes a" "text_event b = text_event a" "ce_Direction b = ce_Direction a"
    "port_key b = port_key a" "ce_Process b = ce_Process a" "ce_RemoteAddr b = ce_RemoteAddr a"
proof -
  obtain u r where "b = a\<lparr>ce_Unusual := u, ce_UnusualReason := r\<rparr>" using assms by (auto simp: same_conn_def)
  then show "connEventKey b = connEventKey a" "conn_opens b = conn_opens a" "conn_closes b = conn_closes a" "text_event b = text_event a" "ce_Direction b = ce_Direction a"
    "port_key b = port_key a" "ce_Process b = ce_Process a" "ce_RemoteAddr b = ce_RemoteAddr a"
    by (simp_all add: connEventKey_def conn_opens_def conn_closes_def text_event_def port_key_def)
qed

lemma check_same:
  "same_conn ev (fst (conn_checkAgainstBaseline quote io fm now cfg prior ev m)) \<and>
   nm_history (snd (conn_checkAgainstBaseline quote io fm now cfg prior ev m)) = nm_history m"
  by (simp add: conn_checkAgainstBaseline_def same_conn_def split: option.split prod.split)

lemma check_opened_same:
  "list_all2 same_conn evs (fst (check_opened quote io fm now cfg prior evs m)) \<and>
   nm_history (snd (check_opened quote io fm now cfg prior evs m)) = nm_history m"
proof (induction evs arbitrary: m)
  case (Cons ev evs)
  then show ?case using check_same [of ev quote "io (length evs)" fm now cfg prior m] by (simp add: Let_def split: prod.split) (metis snd_conv fst_conv)
qed simp

lemma same_conn_list:
  assumes "list_all2 same_conn xs ys"
  shows "connEventKey ` set ys = connEventKey ` set xs" "list_all conn_opens ys = list_all conn_opens xs"
    "list_all text_event ys = list_all text_event xs" "length ys = length xs"
  using assms by (induction rule: list_all2_induct) (auto simp: same_conn_simps)

section \<open>Appending to the history\<close>

definition follows :: "conn_monitor \<Rightarrow> net_mem \<Rightarrow> bool" where
  "follows mon m \<longleftrightarrow> list_all text_event (conn_ReadHistory m) \<and> open_keys (conn_ReadHistory m) \<subseteq> dom (cm_prev mon)"

definition same_keys :: "conn_monitor \<Rightarrow> net_mem \<Rightarrow> bool" where
  "same_keys mon m \<longleftrightarrow> open_keys (conn_ReadHistory m) = dom (cm_prev mon)"

definition keyed :: "(string \<rightharpoonup> Conn) \<Rightarrow> bool" where
  "keyed cs \<longleftrightarrow> (\<forall>k c. cs k = Some c \<longrightarrow> Conn_Key c = k \<and> conn_text c)"

definition mon_ok :: "conn_monitor \<Rightarrow> bool" where
  "mon_ok mon \<longleftrightarrow> keyed (cm_prev mon) \<and> (\<not> cm_bootstrapped mon \<longrightarrow> cm_prev mon = Map.empty)"

lemma append_history:
  assumes "openings @ closings \<noteq> []"
  shows "conn_ReadHistory (appendEvents True mon (openings @ closings) m) =
    map conn_json (cap_history (cm_limit mon) (conn_ReadHistory m @ openings @ closings))"
  using assms by (auto simp: appendEvents_def conn_ReadHistory_def)

lemma append_follows:
  assumes f: "follows mon m" and t: "list_all text_event (openings @ closings)"
    and o: "list_all conn_opens openings" and c: "list_all (\<lambda>e. conn_closes e \<and> \<not> conn_opens e) closings"
    and ks: "connEventKey ` set openings = dom cur - dom (cm_prev mon)" "connEventKey ` set closings = dom (cm_prev mon) - dom cur"
    and m': "m' = appendEvents True mon (openings @ closings) m"
    and mon': "cm_prev mon' = cur"
  shows "follows mon' m'"
    and "length (conn_ReadHistory m) + length (openings @ closings) \<le> cm_limit mon \<Longrightarrow>
      length (conn_ReadHistory m') = length (conn_ReadHistory m) + length (openings @ closings) \<and> (same_keys mon m \<longrightarrow> same_keys mon' m')"
proof -
  let ?h = "conn_ReadHistory m @ openings @ closings"
  have keys: "open_keys ?h = (open_keys (conn_ReadHistory m) \<union> (dom cur - dom (cm_prev mon))) - (dom (cm_prev mon) - dom cur)"
    using conns.replay [OF o c] by (simp add: ks)
  have utf: "list_all text_event ?h" using f t by (simp add: follows_def)
  show "follows mon' m'"
  proof (cases "openings @ closings = []")
    case True
    then have "dom cur = dom (cm_prev mon)" using ks by auto
    then show ?thesis using f True by (simp add: follows_def mon' m' appendEvents_def)
  next
    case False
    obtain pre where pre: "?h = pre @ cap_history (cm_limit mon) ?h" using cap_history_suffix by blast
    then have t': "list_all text_event (cap_history (cm_limit mon) ?h)" using utf by (metis list_all_append)
    have "open_keys (conn_ReadHistory m') = open_keys (cap_history (cm_limit mon) ?h)"
      using append_history [OF False, of mon m] open_keys_json [OF t'] by (simp add: m')
    also have "\<dots> \<subseteq> open_keys ?h" using conns.capped by blast
    also have "\<dots> \<subseteq> dom cur" using f by (auto simp: keys follows_def)
    finally show ?thesis
      using append_history [OF False, of mon m] t' by (simp add: follows_def mon' m' list.pred_map list.pred_mono_strong comp_def)
  qed
  assume "length (conn_ReadHistory m) + length (openings @ closings) \<le> cm_limit mon"
  then have cap: "cap_history (cm_limit mon) ?h = ?h" by simp
  show "length (conn_ReadHistory m') = length (conn_ReadHistory m) + length (openings @ closings) \<and> (same_keys mon m \<longrightarrow> same_keys mon' m')"
  proof (cases "openings @ closings = []")
    case True
    then have "dom cur = dom (cm_prev mon)" using ks by auto
    then show ?thesis using True by (simp add: same_keys_def mon' m' appendEvents_def)
  next
    case False
    have "conn_ReadHistory m' = map conn_json ?h" using append_history [OF False, of mon m] cap by (simp add: m')
    then show ?thesis using open_keys_json [OF utf] keys by (auto simp: same_keys_def mon')
  qed
qed

section \<open>A run of polls\<close>

text \<open>The walks of the two maps give the events of the difference, each key once.\<close>

lemma existing_keys:
  assumes "set ks = dom cur" "keyed cur"
  shows "connEventKey ` set (map (\<lambda>k. newEvent (the (cur k)) t now) (filter P ks)) = {k \<in> dom cur. P k}"
  using assms by (force simp: image_iff keyed_def)

lemma poll_error: "pl_gather e = Inl err \<Longrightarrow> PollOnce quote fm e mon m = (Inl err, mon, m)"
  by (simp add: PollOnce_def)

definition tracked :: "conn_monitor \<Rightarrow> net_mem \<Rightarrow> ConnEvent list \<Rightarrow> conn_monitor \<Rightarrow> net_mem \<Rightarrow> bool" where
  "tracked mon m new mon' m' \<longleftrightarrow> mon_ok mon' \<and> follows mon' m' \<and> cm_limit mon' = cm_limit mon \<and>
     (length (conn_ReadHistory m) + length new \<le> cm_limit mon \<longrightarrow>
        length (conn_ReadHistory m') = length (conn_ReadHistory m) + length new \<and> (same_keys mon m \<longrightarrow> same_keys mon' m'))"

text \<open>The facts of a successful poll that both of its branches use.\<close>

lemma good_poll_facts:
  assumes "good_poll e mon" "pl_gather e = Inr conns"
  shows "set (pl_curKeys e) = dom (conn_map conns)" "set (pl_prevKeys e) = dom (cm_prev mon)" "pl_write e"
    "keyed (conn_map conns)"
  using assms conn_map_key [of conns] by (auto simp: good_poll_def poll_walks_def list_all_iff keyed_def)

lemma poll_first:
  assumes ok: "mon_ok mon" and f: "follows mon m" and g: "good_poll e mon" and c: "pl_gather e = Inr conns" "\<not> cm_bootstrapped mon"
    and p: "PollOnce quote fm e mon m = (Inr evs, mon', m')"
  shows "tracked mon m evs mon' m'"
proof -
  note w = good_poll_facts [OF g c(1)]
  have e: "evs = map (\<lambda>k. newEvent (the (conn_map conns k)) EventExisting (pl_now e)) (filter (\<lambda>_. True) (pl_curKeys e))"
    and r: "mon' = mon\<lparr>cm_bootstrapped := True, cm_prev := conn_map conns\<rparr>" "m' = appendEvents True mon (evs @ []) m"
    using p c w(3) by (auto simp: PollOnce_def Let_def)
  have none: "cm_prev mon = Map.empty" using ok c(2) by (simp add: mon_ok_def)
  have ks: "connEventKey ` set evs = dom (conn_map conns) - dom (cm_prev mon)"
    using existing_keys [OF w(1,4), where P = "\<lambda>_. True"] none by (simp add: e)
  have t: "list_all text_event (evs @ [])" using w(1,4) by (fastforce simp: e list_all_iff keyed_def)
  have o: "list_all conn_opens evs" by (simp add: e list_all_iff)
  note a = append_follows [OF f t o _ ks _ r(2), of mon']
  show ?thesis using a none w(4) by (simp add: tracked_def r(1) mon_ok_def)
qed

lemma diff_facts:
  assumes w: "set curKeys = dom cur" "set prevKeys = dom prev"
    and k: "keyed cur" "keyed prev"
    and d: "Diff curKeys prevKeys prev cur now = (openings, closings)"
  shows "connEventKey ` set openings = dom cur - dom prev" "connEventKey ` set closings = dom prev - dom cur"
    "list_all text_event openings" "list_all text_event closings"
    "list_all conn_opens openings" "list_all (\<lambda>e. conn_closes e \<and> \<not> conn_opens e) closings"
proof -
  have d': "openings = sort_by port_before (map (\<lambda>k. newEvent (the (cur k)) EventOpen now) (filter (\<lambda>k. prev k = None) curKeys))"
    "closings = sort_by port_before (map (\<lambda>k. newEvent (the (prev k)) EventClose now) (filter (\<lambda>k. cur k = None) prevKeys))"
    using d by (auto simp: Diff_def)
  show "connEventKey ` set openings = dom cur - dom prev"
    using existing_keys [OF w(1) k(1), where P = "\<lambda>k. prev k = None"] by (auto simp: d')
  show "connEventKey ` set closings = dom prev - dom cur"
    using existing_keys [OF w(2) k(2), where P = "\<lambda>k. cur k = None"] by (auto simp: d')
  show "list_all text_event openings" "list_all text_event closings"
    using w k by (fastforce simp: d' list_all_iff keyed_def)+
  show "list_all conn_opens openings" "list_all (\<lambda>e. conn_closes e \<and> \<not> conn_opens e) closings" by (simp_all add: d' list_all_iff)
qed

lemma poll_next:
  assumes ok: "mon_ok mon" and f: "follows mon m" and g: "good_poll e mon" and c: "pl_gather e = Inr conns" "cm_bootstrapped mon"
    and p: "PollOnce quote fm e mon m = (Inr evs, mon', m')"
  shows "tracked mon m evs mon' m'"
proof -
  note w = good_poll_facts [OF g c(1)]
  obtain openings closings where d: "Diff (pl_curKeys e) (pl_prevKeys e) (cm_prev mon) (conn_map conns) (pl_now e) = (openings, closings)"
    by (metis prod.exhaust)
  define om where "om = (if openings \<noteq> [] then check_opened quote (pl_io e) fm (pl_now e) (cm_cfg mon) (conn_ReadHistory m) openings m
                         else (openings, m))"
  have same: "list_all2 same_conn openings (fst om)" "nm_history (snd om) = nm_history m"
    using check_opened_same [of openings quote "pl_io e" fm "pl_now e" "cm_cfg mon" "conn_ReadHistory m" m] by (auto simp: om_def)
  have r: "evs = fst om @ closings" "mon' = mon\<lparr>cm_prev := conn_map conns\<rparr>" "m' = appendEvents True mon (fst om @ closings) (snd om)"
    using p c w(3) d by (auto simp: PollOnce_def om_def Let_def split: prod.splits if_splits)
  have prev: "keyed (cm_prev mon)" using ok by (simp add: mon_ok_def)
  note k = diff_facts [OF w(1,2,4) prev d] and l = same_conn_list [OF same(1)]
  have o: "connEventKey ` set (fst om) = dom (conn_map conns) - dom (cm_prev mon)" "list_all text_event (fst om @ closings)"
    "list_all conn_opens (fst om)" using k l by simp_all
  have read: "conn_ReadHistory (snd om) = conn_ReadHistory m" by (simp add: conn_ReadHistory_def same(2))
  have f': "follows mon (snd om)" using f by (simp add: follows_def read)
  note a = append_follows [OF f' o(2,3) k(6) o(1) k(2) r(3), of mon']
  show ?thesis using a w(4) c(2) by (simp add: tracked_def r(1,2) mon_ok_def read same_keys_def)
qed

lemma poll_follows:
  assumes "mon_ok mon" "follows mon m" "good_poll e mon" "PollOnce quote fm e mon m = (r, mon', m')"
  shows "tracked mon m (case r of Inl _ \<Rightarrow> [] | Inr evs \<Rightarrow> evs) mon' m'"
proof (cases "pl_gather e")
  case (Inl err)
  then show ?thesis using assms by (auto simp: poll_error tracked_def)
next
  case (Inr conns)
  then obtain evs where "r = Inr evs" using assms(4) by (auto simp: PollOnce_def Let_def split: if_splits prod.splits)
  then show ?thesis using poll_first poll_next Inr assms by (cases "cm_bootstrapped mon") auto
qed

lemma polls_follow:
  assumes "mon_ok mon" "follows mon m" "good_polls quote fm es mon m" "polls quote fm es mon m = (evs, mon', m')"
  shows "follows mon' m' \<and> (same_keys mon m \<and> length (conn_ReadHistory m) + length evs \<le> cm_limit mon \<longrightarrow> same_keys mon' m')"
  using assms
proof (induction es arbitrary: mon m evs)
  case Nil
  then show ?case by simp
next
  case (Cons e es)
  obtain r mon1 m1 where p: "PollOnce quote fm e mon m = (r, mon1, m1)" by (metis prod.exhaust)
  define new where "new = (case r of Inl _ \<Rightarrow> [] | Inr x \<Rightarrow> x)"
  obtain evs1 where ps: "polls quote fm es mon1 m1 = (evs1, mon', m')" and evs: "evs = new @ evs1"
    using Cons.prems(4) p by (auto simp: new_def split: prod.splits)
  have g: "good_poll e mon" "good_polls quote fm es mon1 m1" using Cons.prems(3) p by simp_all
  note s = poll_follows [OF Cons.prems(1,2) g(1) p, folded new_def]
  show ?case using Cons.IH [OF _ _ g(2) ps] s by (auto simp: evs tracked_def)
qed

text \<open>
  The history follows the connections. From a fresh start, after any polls, failed ones included, the connections that
  \<open>ActiveConnections\<close> derives from the stored history are connections of the last successful poll, each listed once; and they are all
  of them as long as the events recorded do not exceed the limit of the history.
\<close>

theorem history_tracks_connections:
  assumes "nm_history m = None" "good_polls quote fm es (NewWithGatherer limit cfg) m"
    and "polls quote fm es (NewWithGatherer limit cfg) m = (evs, mon, m')"
  shows "connEventKey ` set (ActiveConnections (conn_ReadHistory m')) \<subseteq> dom (cm_prev mon) \<and>
    distinct (map connEventKey (ActiveConnections (conn_ReadHistory m'))) \<and>
    (length evs \<le> cm_limit (NewWithGatherer limit cfg) \<longrightarrow>
      connEventKey ` set (ActiveConnections (conn_ReadHistory m')) = dom (cm_prev mon))"
proof -
  let ?mon = "NewWithGatherer limit cfg"
  have "ActiveConnections [] = []" by (simp add: ActiveConnections_def active_log_def List.map_filter_def)
  then have i: "mon_ok ?mon" "follows ?mon m" "same_keys ?mon m" "conn_ReadHistory m = []"
    using assms(1) by (auto simp: mon_ok_def keyed_def follows_def same_keys_def NewWithGatherer_def conn_ReadHistory_def)
  from polls_follow [OF i(1,2) assms(2,3)] show ?thesis
    using i(3,4) conns.one_per_key by (simp add: follows_def same_keys_def)
qed

definition demo_conn :: "string \<Rightarrow> int \<Rightarrow> Conn" where
  "demo_conn a p = \<lparr>cn_Proto = ''tcp'', cn_LocalAddr = ''10.0.0.5'', cn_LocalPort = p, cn_RemoteAddr = a, cn_RemotePort = 443,
     cn_State = ''ESTAB'', cn_PID = ''7'', cn_Process = ''curl''\<rparr>"

definition demo_poll :: "string list \<Rightarrow> string list \<Rightarrow> Conn list \<Rightarrow> poll_env" where
  "demo_poll cur prev conns = \<lparr>pl_gather = Inr conns, pl_curKeys = cur, pl_prevKeys = prev, pl_now = 5,
     pl_io = (\<lambda>_. \<lparr>ei_state = True, ei_report = True, ei_note = True\<rparr>), pl_write = True\<rparr>"

definition demo_formats :: formats where "demo_formats = \<lparr>fm_stamp = (\<lambda>_. ''t''), fm_mail = (\<lambda>_. ''t'')\<rparr>"

definition demo_net :: net_mem where
  "demo_net = \<lparr>nm_history = None, nm_loop = \<lparr>lm_states = Map.empty, lm_notes = []\<rparr>, nm_ledger = None\<rparr>"

definition demo_polls :: "poll_env list" where
  "demo_polls = [demo_poll [''tcp|10.0.0.5:40000|1.1.1.1:443''] [] [demo_conn ''1.1.1.1'' 40000],
     demo_poll [''tcp|10.0.0.5:40001|2.2.2.2:443''] [''tcp|10.0.0.5:40000|1.1.1.1:443''] [demo_conn ''2.2.2.2'' 40001]]"

definition demo_watch :: "ConnEvent list \<times> conn_monitor \<times> net_mem" where
  "demo_watch = polls (\<lambda>s. s) demo_formats demo_polls (NewWithGatherer 0 \<lparr>nc_DisableBaseline = False, nc_OwnPort = 8080\<rparr>) demo_net"

lemma demo_watch_good:
  "good_polls (\<lambda>s. s) demo_formats demo_polls (NewWithGatherer 0 \<lparr>nc_DisableBaseline = False, nc_OwnPort = 8080\<rparr>) demo_net"
proof -
  have k: "Conn_Key (demo_conn ''1.1.1.1'' 40000) = ''tcp|10.0.0.5:40000|1.1.1.1:443''"
    "Conn_Key (demo_conn ''2.2.2.2'' 40001) = ''tcp|10.0.0.5:40001|2.2.2.2:443''" by code_simp+
  have t: "conn_text (demo_conn ''1.1.1.1'' 40000)" "conn_text (demo_conn ''2.2.2.2'' 40001)" by code_simp+
  show ?thesis
    by (simp add: demo_polls_def good_poll_def demo_poll_def poll_walks_def NewWithGatherer_def PollOnce_def conn_map_def k t Let_def split: prod.split)
qed

theorem history_tracks_connections_witness:
  "map ce_RemoteAddr (ActiveConnections (conn_ReadHistory (snd (snd demo_watch)))) = [''2.2.2.2''] \<and> length (fst demo_watch) = 3 \<and>
   connEventKey ` set (ActiveConnections (conn_ReadHistory (snd (snd demo_watch)))) = dom (cm_prev (fst (snd demo_watch)))"
proof -
  have "map ce_RemoteAddr (ActiveConnections (conn_ReadHistory (snd (snd demo_watch)))) = [''2.2.2.2'']" by code_simp
  moreover have n: "length (fst demo_watch) = 3" by code_simp
  moreover have "nm_history demo_net = None" by (simp add: demo_net_def)
  moreover have "length (fst demo_watch) \<le> cm_limit (NewWithGatherer 0 \<lparr>nc_DisableBaseline = False, nc_OwnPort = 8080\<rparr>)"
    unfolding n by (simp add: NewWithGatherer_def defaultHistoryLimit_def)
  moreover have "polls (\<lambda>s. s) demo_formats demo_polls (NewWithGatherer 0 \<lparr>nc_DisableBaseline = False, nc_OwnPort = 8080\<rparr>) demo_net =
    (fst demo_watch, fst (snd demo_watch), snd (snd demo_watch))" by (simp add: demo_watch_def)
  ultimately show ?thesis using history_tracks_connections [OF _ demo_watch_good] by blast
qed

text \<open>
  After a restart the history is kept and the monitor knows nothing of it, so a connection that ended while the agent was not running is never
  recorded as closed: it stays in the list of active connections beside those that are there.
\<close>

lemma ended_while_down_stays_active:
  assumes g: "good_poll e (NewWithGatherer limit cfg)" "pl_gather e = Inr conns" and t: "list_all text_event (conn_ReadHistory m)"
    and p: "PollOnce quote fm e (NewWithGatherer limit cfg) m = (Inr evs, mon', m')"
    and l: "length (conn_ReadHistory m) + length evs \<le> cm_limit (NewWithGatherer limit cfg)"
  shows "open_keys (conn_ReadHistory m') = open_keys (conn_ReadHistory m) \<union> dom (conn_map conns)"
proof -
  let ?mon = "NewWithGatherer limit cfg"
  note w = good_poll_facts [OF g]
  have b: "\<not> cm_bootstrapped ?mon" by (simp add: NewWithGatherer_def)
  have e: "evs = map (\<lambda>k. newEvent (the (conn_map conns k)) EventExisting (pl_now e)) (filter (\<lambda>_. True) (pl_curKeys e))"
    and r: "m' = appendEvents True ?mon (evs @ []) m"
    using p g(2) w(3) b by (auto simp: PollOnce_def Let_def)
  have o: "list_all conn_opens evs" "connEventKey ` set evs = dom (conn_map conns)"
    using existing_keys [OF w(1,4), where P = "\<lambda>_. True"] by (simp_all add: e list_all_iff)
  have t': "list_all text_event (conn_ReadHistory m @ evs)" using t w(1,4) by (fastforce simp: e list_all_iff keyed_def)
  have "open_keys (conn_ReadHistory m') = open_keys (conn_ReadHistory m @ evs)"
    using append_history [of evs "[]" ?mon m] l open_keys_json [OF t'] by (cases "evs = []") (simp_all add: r appendEvents_def)
  also have "\<dots> = open_keys (conn_ReadHistory m) \<union> dom (conn_map conns)" using conns.replay [OF o(1), of "[]"] o(2) by simp
  finally show ?thesis .
qed

section \<open>What the baseline flags\<close>

text \<open>
  A new connection is flagged exactly when it is new in kind: an inbound one, not on the agent's own port, whose port has no
  inbound opening in the history; one of a process that has none; or an outbound one to a host that has none. Otherwise nothing is
  recorded; and once an event is in the history, no connection of the same kind is flagged again.
\<close>

theorem conn_baseline_exact:
  assumes "conn_checkAgainstBaseline quote io fm now cfg prior ev m = (ev', m')" "\<not> nc_DisableBaseline cfg" "\<not> ce_Unusual ev"
  shows "(ce_Unusual ev' \<longleftrightarrow> \<not> (ce_Direction ev = DirectionInbound \<and> ce_LocalPort ev = nc_OwnPort cfg) \<and>
      (ce_Direction ev = DirectionInbound \<and> \<not> list_ex (\<lambda>h. conn_opens h \<and> ce_Direction h = DirectionInbound \<and> port_key h = port_key ev) prior \<or>
       ce_Process ev \<noteq> [] \<and> \<not> list_ex (\<lambda>h. conn_opens h \<and> ce_Process h = ce_Process ev) prior \<or>
       ce_Direction ev = DirectionOutbound \<and> ce_RemoteAddr ev \<noteq> [] \<and>
         \<not> list_ex (\<lambda>h. conn_opens h \<and> ce_Direction h = DirectionOutbound \<and> ce_RemoteAddr h = ce_RemoteAddr ev) prior)) \<and>
    (\<not> ce_Unusual ev' \<longrightarrow> m' = m \<and> ev' = ev) \<and>
    (conn_opens ev \<and> ev' \<in> set prior' \<and> ce_Direction ev2 = ce_Direction ev \<and> port_key ev2 = port_key ev \<and> ce_Process ev2 = ce_Process ev \<and>
       ce_RemoteAddr ev2 = ce_RemoteAddr ev \<longrightarrow> conn_deviation quote cfg prior' ev2 = None)"
proof -
  have same: "same_conn ev ev'" using check_same [of ev quote io fm now cfg prior m] assms(1) by simp
  note kept = same_conn_simps [OF same]
  have marked: "ce_Unusual ev' \<longleftrightarrow> conn_deviation quote cfg prior ev \<noteq> None" "conn_deviation quote cfg prior ev = None \<Longrightarrow> m' = m \<and> ev' = ev"
    using assms by (auto simp: conn_checkAgainstBaseline_def split: option.splits prod.splits)
  have dev: "conn_deviation quote cfg prior ev \<noteq> None \<longleftrightarrow> \<not> (ce_Direction ev = DirectionInbound \<and> ce_LocalPort ev = nc_OwnPort cfg) \<and>
      (ce_Direction ev = DirectionInbound \<and> port_key ev \<notin> knownInboundPorts prior \<or> ce_Process ev \<noteq> [] \<and> ce_Process ev \<notin> knownProcesses prior \<or>
       ce_Direction ev = DirectionOutbound \<and> ce_RemoteAddr ev \<noteq> [] \<and> ce_RemoteAddr ev \<notin> knownRemoteHosts prior)" for prior ev
    by (auto simp: conn_deviation_def)
  have known: "port_key ev \<in> knownInboundPorts prior \<longleftrightarrow> list_ex (\<lambda>h. conn_opens h \<and> ce_Direction h = DirectionInbound \<and> port_key h = port_key ev) prior"
    "ce_Process ev \<noteq> [] \<Longrightarrow> ce_Process ev \<in> knownProcesses prior \<longleftrightarrow> list_ex (\<lambda>h. conn_opens h \<and> ce_Process h = ce_Process ev) prior"
    "ce_RemoteAddr ev \<noteq> [] \<Longrightarrow> ce_RemoteAddr ev \<in> knownRemoteHosts prior \<longleftrightarrow>
       list_ex (\<lambda>h. conn_opens h \<and> ce_Direction h = DirectionOutbound \<and> ce_RemoteAddr h = ce_RemoteAddr ev) prior" for prior ev
    by (auto simp: knownInboundPorts_def knownProcesses_def knownRemoteHosts_def list_ex_iff image_iff)
  have again: "conn_deviation quote cfg prior' ev2 = None"
    if "conn_opens ev" "ev' \<in> set prior'" "ce_Direction ev2 = ce_Direction ev" "port_key ev2 = port_key ev" "ce_Process ev2 = ce_Process ev"
      "ce_RemoteAddr ev2 = ce_RemoteAddr ev"
    using dev [of prior' ev2] known [of ev2 prior'] that kept by (auto simp: list_ex_iff)
  show ?thesis using marked dev [of prior ev] known [of ev prior] again by blast
qed

theorem conn_baseline_exact_witness:
  "ce_Unusual (fst (conn_checkAgainstBaseline (\<lambda>s. s) \<lparr>ei_state = True, ei_report = True, ei_note = True\<rparr> demo_formats 5
      \<lparr>nc_DisableBaseline = False, nc_OwnPort = 8080\<rparr> [] (newEvent (demo_conn ''1.1.1.1'' 22) EventOpen 5) demo_net))"
proof -
  let ?r = "conn_checkAgainstBaseline (\<lambda>s. s) \<lparr>ei_state = True, ei_report = True, ei_note = True\<rparr> demo_formats 5
      \<lparr>nc_DisableBaseline = False, nc_OwnPort = 8080\<rparr> [] (newEvent (demo_conn ''1.1.1.1'' 22) EventOpen 5) demo_net"
  have "?r = (fst ?r, snd ?r)" by simp
  from conn_baseline_exact [OF this] show ?thesis by (simp add: newEvent_def demo_conn_def Conn_direction_def ephemeralPortFloor_def)
qed

end
