(* ===== verification/Net_Addr.thy ===== *)
theory Net_Addr
  imports Patch_Info
begin

unbundle bit_operations_syntax

text \<open>
  What the login monitor uses of package \<open>net\<close>: the parsers of addresses and of networks in CIDR notation, and membership. An
  address is the list of its sixteen bytes; an IPv4 address has the prefix of the mapped range, as \<open>net.ParseIP\<close> returns it.
\<close>

type_synonym ip = "nat list"

section \<open>Parsing addresses\<close>

definition v4InV6Prefix :: ip where "v4InV6Prefix = replicate 10 0 @ [255, 255]"

text \<open>A decimal field: digits without a leading zero, at most 255.\<close>

definition v4_field :: "string \<Rightarrow> nat option" where
  "v4_field s = (if s \<noteq> [] \<and> list_all is_digit s \<and> (length s > 1 \<longrightarrow> hd s \<noteq> CHR ''0'') \<and> digits_value s \<le> 255 then Some (digits_value s) else None)"

definition parseIPv4 :: "string \<Rightarrow> ip option" where
  "parseIPv4 s =
     (case map v4_field (split_byte (CHR ''.'') s) of
        [Some a, Some b, Some c, Some d] \<Rightarrow> Some [a, b, c, d]
      | _ \<Rightarrow> None)"

definition ip_hex :: "char \<Rightarrow> nat option" where
  "ip_hex c =
     (if is_digit c then Some (code c - 48)
      else if 97 \<le> code c \<and> code c \<le> 102 then Some (code c - 87)
      else if 65 \<le> code c \<and> code c \<le> 70 then Some (code c - 55)
      else None)"

definition hex_group :: "string \<Rightarrow> string" where
  "hex_group s = takeWhile (\<lambda>c. ip_hex c \<noteq> None) s"

definition group_value :: "string \<Rightarrow> nat" where
  "group_value g = foldl (\<lambda>n c. 16 * n + the (ip_hex c)) 0 g"

text \<open>
  The loop over the colon-separated groups: \<open>n\<close> groups are still possible, \<open>acc\<close> are the bytes so far, \<open>ell\<close> is where \<open>::\<close> was. The result is the
  bytes and the place of the ellipsis.
\<close>

fun v6_groups :: "nat \<Rightarrow> string \<Rightarrow> ip \<Rightarrow> nat option \<Rightarrow> (ip \<times> nat option) option" where
  "v6_groups 0 s acc ell = (if s = [] then Some (acc, ell) else None)"
| "v6_groups (Suc n) s acc ell =
     (let g = hex_group s; rest = drop (length g) s in
      if g = [] \<or> length g > 4 then None
      else if rest \<noteq> [] \<and> hd rest = CHR ''.'' then
        (if (ell = None \<and> length acc \<noteq> 12) \<or> length acc + 4 > 16 then None
         else map_option (\<lambda>v4. (acc @ v4, ell)) (parseIPv4 s))
      else
        let acc = acc @ [group_value g div 256, group_value g mod 256] in
        case rest of
          [] \<Rightarrow> Some (acc, ell)
        | c # rest \<Rightarrow>
            if c \<noteq> CHR '':'' \<or> rest = [] then None
            else if hd rest = CHR '':'' then
              (if ell \<noteq> None then None
               else if List.tl rest = [] then Some (acc, Some (length acc))
               else v6_groups n (List.tl rest) acc (Some (length acc)))
            else v6_groups n rest acc ell)"

definition v6_expand :: "ip \<times> nat option \<Rightarrow> ip option" where
  "v6_expand r =
     (case r of (acc, ell) \<Rightarrow>
        case ell of
          None \<Rightarrow> if length acc = 16 then Some acc else None
        | Some e \<Rightarrow> if length acc < 16 then Some (take e acc @ replicate (16 - length acc) 0 @ drop e acc) else None)"

text \<open>The address and its zone.\<close>

definition parseIPv6 :: "string \<Rightarrow> (ip \<times> string) option" where
  "parseIPv6 s =
     (let zoned = index_byte (CHR 0x25) s;
          body = (case zoned of None \<Rightarrow> s | Some i \<Rightarrow> take i s);
          zone = (case zoned of None \<Rightarrow> [] | Some i \<Rightarrow> drop (i + 1) s)
      in if zoned \<noteq> None \<and> zone = [] then None
         else if HasPrefix body ''::'' then
           (if drop 2 body = [] then Some (replicate 16 0, zone)
            else map_option (\<lambda>a. (a, zone)) (Option.bind (v6_groups 8 (drop 2 body) [] (Some 0)) v6_expand))
         else map_option (\<lambda>a. (a, zone)) (Option.bind (v6_groups 8 body [] None) v6_expand))"

datatype addr = V4 ip | V6 ip string

definition ParseAddr :: "string \<Rightarrow> addr option" where
  "ParseAddr s =
     (case find_first (\<lambda>c. c \<in> {CHR ''.'', CHR '':'', CHR 0x25}) s of
        None \<Rightarrow> None
      | Some c \<Rightarrow>
          if c = CHR ''.'' then map_option V4 (parseIPv4 s)
          else if c = CHR '':'' then map_option (\<lambda>(a, z). V6 a z) (parseIPv6 s)
          else None)"

definition As16 :: "addr \<Rightarrow> ip" where
  "As16 a = (case a of V4 b \<Rightarrow> v4InV6Prefix @ b | V6 b _ \<Rightarrow> b)"

definition ParseIP :: "string \<Rightarrow> ip option" where
  "ParseIP s =
     (case ParseAddr s of
        None \<Rightarrow> None
      | Some (V6 b z) \<Rightarrow> if z = [] then Some b else None
      | Some a \<Rightarrow> Some (As16 a))"

section \<open>Networks\<close>

record IPNet =
  net_IP :: ip
  net_Mask :: ip

text \<open>\<open>CIDRMask(ones, 8 * len)\<close>\<close>

fun CIDRMask :: "nat \<Rightarrow> nat \<Rightarrow> ip" where
  "CIDRMask ones 0 = []"
| "CIDRMask ones (Suc n) = (if ones \<ge> 8 then 255 else 256 - 2 ^ (8 - ones)) # CIDRMask (ones - 8) n"

definition To4 :: "ip \<Rightarrow> ip option" where
  "To4 a = (if length a = 4 then Some a
            else if length a = 16 \<and> take 12 a = v4InV6Prefix then Some (drop 12 a) else None)"

definition mask_bytes :: "ip \<Rightarrow> ip \<Rightarrow> ip" where
  "mask_bytes a m = map2 (\<lambda>x y. x AND y) a m"

text \<open>\<open>dtoi\<close> on the whole of the prefix length; a value of \<open>0xFFFFFF\<close> and above is rejected, as it is above 128 anyway.\<close>

definition ParseCIDR :: "string \<Rightarrow> IPNet option" where
  "ParseCIDR s =
     (case index_byte (CHR ''/'') s of
        None \<Rightarrow> None
      | Some i \<Rightarrow>
          let p = drop (i + 1) s in
          case ParseAddr (take i s) of
            None \<Rightarrow> None
          | Some (V4 a) \<Rightarrow>
              if p = [] \<or> \<not> list_all is_digit p \<or> digits_value p > 32 then None
              else Some \<lparr>net_IP = mask_bytes a (CIDRMask (digits_value p) 4), net_Mask = CIDRMask (digits_value p) 4\<rparr>
          | Some (V6 a z) \<Rightarrow>
              if z \<noteq> [] \<or> p = [] \<or> \<not> list_all is_digit p \<or> digits_value p > 128 then None
              else Some \<lparr>net_IP = mask_bytes a (CIDRMask (digits_value p) 16), net_Mask = CIDRMask (digits_value p) 16\<rparr>)"

definition networkNumberAndMask :: "IPNet \<Rightarrow> (ip \<times> ip) option" where
  "networkNumberAndMask n =
     (let ip = (case To4 (net_IP n) of Some a \<Rightarrow> a | None \<Rightarrow> net_IP n); m = net_Mask n in
      if length m = length ip then Some (ip, m)
      else if length m = 16 \<and> length ip = 4 \<and> take 12 m = replicate 12 255 then Some (ip, drop 12 m)
      else None)"

definition IPNet_Contains :: "IPNet \<Rightarrow> ip \<Rightarrow> bool" where
  "IPNet_Contains n a =
     (let a = (case To4 a of Some b \<Rightarrow> b | None \<Rightarrow> a) in
      case networkNumberAndMask n of
        None \<Rightarrow> False
      | Some (nn, m) \<Rightarrow> length a = length nn \<and> mask_bytes nn m = mask_bytes a m)"

section \<open>Membership is agreement of leading bits\<close>

definition bytes_value :: "ip \<Rightarrow> nat" where
  "bytes_value a = foldl (\<lambda>n b. 256 * n + b) 0 a"

definition is_bytes :: "ip \<Rightarrow> bool" where "is_bytes a \<longleftrightarrow> list_all (\<lambda>b. b < 256) a"

lemma foldl_bytes: "foldl (\<lambda>n b. 256 * n + b) k a = k * 256 ^ length a + bytes_value a" for k :: nat
proof (induction a arbitrary: k)
  case (Cons b a)
  show ?case
    using Cons [of "256 * k + b"] Cons [of b] by (simp add: bytes_value_def algebra_simps)
qed (simp add: bytes_value_def)

lemma bytes_value_simps [simp]: "bytes_value [] = 0" "bytes_value (b # a) = b * 256 ^ length a + bytes_value a"
  using foldl_bytes [of b a] by (simp_all add: bytes_value_def)

lemma bytes_value_less: "is_bytes a \<Longrightarrow> bytes_value a < 256 ^ length a"
proof (induction a)
  case (Cons b a)
  then have "bytes_value a < 256 ^ length a" "b \<le> 255" by (simp_all add: is_bytes_def)
  then have "bytes_value a < 256 ^ length a" "b * 256 ^ length a \<le> 255 * 256 ^ length a" by (simp_all only: mult_le_mono1)
  then have "b * 256 ^ length a + bytes_value a < 256 * 256 ^ length a" by linarith
  then show ?case by simp
qed simp

lemma mask_byte:
  fixes x :: nat
  assumes "x < 256" "n \<le> 8"
  shows "x AND (256 - 2 ^ (8 - n)) = x div 2 ^ (8 - n) * 2 ^ (8 - n)"
proof -
  have m: "256 - 2 ^ (8 - n) = (push_bit (8 - n) (mask n) :: nat)"
    using assms(2) by (simp add: push_bit_eq_mult mask_eq_exp_minus_1 diff_mult_distrib power_add [symmetric])
  have "x AND push_bit (8 - n) (mask n) = push_bit (8 - n) (drop_bit (8 - n) x AND mask n)"
    by (rule bit_eqI) (auto simp: bit_simps)
  also have "drop_bit (8 - n) x AND mask n = drop_bit (8 - n) x"
  proof -
    have "x < 2 ^ (8 - n) * 2 ^ n" using assms by (simp add: power_add [symmetric])
    then have "drop_bit (8 - n) x < 2 ^ n" by (simp add: drop_bit_eq_div less_mult_imp_div_less mult.commute)
    then show ?thesis by (simp add: take_bit_eq_mask [symmetric] take_bit_nat_eq_self_iff)
  qed
  finally show ?thesis by (simp add: m push_bit_eq_mult drop_bit_eq_div)
qed

text \<open>Masked bytes agree exactly when the leading bits of the numbers do.\<close>

lemma div_pair:
  fixes x y v w a b :: nat
  assumes "v < a * b" "w < a * b" "0 < b"
  shows "(x * (a * b) + v) div b = (y * (a * b) + w) div b \<longleftrightarrow> x = y \<and> v div b = w div b"
proof -
  have q: "(x * (a * b) + v) div b = x * a + v div b" for x v
  proof -
    have "(v + b * (x * a)) div b = x * a + v div b" using assms(3) by (rule div_mult_self2 [OF less_imp_neq [THEN not_sym]])
    then show ?thesis by (simp add: algebra_simps)
  qed
  have l: "v div b < a" "w div b < a" using assms by (simp_all add: less_mult_imp_div_less)
  have "x * a + v div b = y * a + w div b \<longleftrightarrow> x = y \<and> v div b = w div b"
  proof
    assume e: "x * a + v div b = y * a + w div b"
    then have "(x * a + v div b) div a = (y * a + w div b) div a" by simp
    then have "x = y" using l by simp
    then show "x = y \<and> v div b = w div b" using e by simp
  qed simp
  then show ?thesis by (simp add: q)
qed

lemma mask_bytes_value:
  assumes "is_bytes a" "is_bytes b" "length a = l" "length b = l" "n \<le> 8 * l"
  shows "mask_bytes a (CIDRMask n l) = mask_bytes b (CIDRMask n l) \<longleftrightarrow>
    bytes_value a div 2 ^ (8 * l - n) = bytes_value b div 2 ^ (8 * l - n)"
  using assms
proof (induction l arbitrary: a b n)
  case 0
  then show ?case by (simp add: mask_bytes_def)
next
  case (Suc l)
  obtain x a' where a: "a = x # a'" "length a' = l" "x < 256" "is_bytes a'"
    using Suc.prems(1,3) by (cases a) (auto simp: is_bytes_def)
  obtain y b' where b: "b = y # b'" "length b' = l" "y < 256" "is_bytes b'"
    using Suc.prems(2,4) by (cases b) (auto simp: is_bytes_def)
  have less: "bytes_value a' < 2 ^ (8 * l)" "bytes_value b' < 2 ^ (8 * l)"
    using bytes_value_less a b by (simp_all add: power_mult) (metis power_mult)+
  have tail: "mask_bytes a' (CIDRMask (n - 8) l) = mask_bytes b' (CIDRMask (n - 8) l) \<longleftrightarrow>
    bytes_value a' div 2 ^ (8 * l - (n - 8)) = bytes_value b' div 2 ^ (8 * l - (n - 8))"
    using Suc.IH [of a' b' "n - 8"] a b Suc.prems(5) by auto
  have val: "bytes_value a = x * 2 ^ (8 * l) + bytes_value a'" "bytes_value b = y * 2 ^ (8 * l) + bytes_value b'"
    using a b by (simp_all add: power_mult)
  show ?case
  proof (cases "n \<ge> 8")
    case True
    then have e: "8 * Suc l - n = 8 * l - (n - 8)" "8 * l = (n - 8) + (8 * l - (n - 8))" using Suc.prems(5) by auto
    have full: "x AND 255 = x" "y AND 255 = y" using a b mask_byte [of x 8] mask_byte [of y 8] by simp_all
    have p: "(2::nat) ^ (8 * l) = 2 ^ (n - 8) * 2 ^ (8 * l - (n - 8))" by (metis e(2) power_add)
    have "mask_bytes a (CIDRMask n (Suc l)) = mask_bytes b (CIDRMask n (Suc l)) \<longleftrightarrow>
        x = y \<and> bytes_value a' div 2 ^ (8 * l - (n - 8)) = bytes_value b' div 2 ^ (8 * l - (n - 8))"
      using tail True full by (simp add: a b mask_bytes_def)
    also have "\<dots> \<longleftrightarrow> bytes_value a div 2 ^ (8 * Suc l - n) = bytes_value b div 2 ^ (8 * Suc l - n)"
      unfolding val e(1) unfolding p using less by (intro div_pair [symmetric]) (simp_all add: p)
    finally show ?thesis .
  next
    case False
    then have e: "8 * Suc l - n = (8 - n) + 8 * l" by simp
    have q: "(z * 2 ^ (8 * l) + v) div 2 ^ (8 * Suc l - n) = z div 2 ^ (8 - n)" if "v < 2 ^ (8 * l)" for z v :: nat
      using that unfolding e power_add by (simp add: div_mult2_eq mult.commute [of "2 ^ (8 - n)"])
    have "bytes_value a' div 2 ^ (8 * l) = 0" "bytes_value b' div 2 ^ (8 * l) = 0" using less by simp_all
    then have "mask_bytes a (CIDRMask n (Suc l)) = mask_bytes b (CIDRMask n (Suc l)) \<longleftrightarrow> x div 2 ^ (8 - n) = y div 2 ^ (8 - n)"
      using tail False a b by (simp add: mask_bytes_def mask_byte)
    then show ?thesis unfolding val by (simp only: q [OF less(1)] q [OF less(2)])
  qed
qed

section \<open>IPv4 in text\<close>

text \<open>The dotted form, and that the parsers read it back.\<close>

definition show_v4 :: "nat \<Rightarrow> nat \<Rightarrow> nat \<Rightarrow> nat \<Rightarrow> string" where
  "show_v4 a b c d = digits_of a @ ''.'' @ digits_of b @ ''.'' @ digits_of c @ ''.'' @ digits_of d"

lemma digits_of_no_zero: "0 < n \<Longrightarrow> hd (digits_of n) \<noteq> CHR ''0''"
proof (induction n rule: digits_of.induct)
  case (1 n)
  show ?case
  proof (cases "n < 10")
    case True
    have "code (CHR ''0'') = 48" by (simp add: code_def)
    then have "code (char_of (48 + n)) \<noteq> code (CHR ''0'')" using True 1(2) by simp
    then have "char_of (48 + n) \<noteq> CHR ''0''" by metis
    then show ?thesis using True by (simp add: digits_of.simps [of n])
  next
    case False
    then show ?thesis using 1 digits_of_digits [of "n div 10"] by (simp add: digits_of.simps [of n])
  qed
qed

lemma digits_of_plain: "c \<in> set (digits_of n) \<Longrightarrow> is_digit c"
  using digits_of_digits [of n] by (simp add: list_all_iff)

lemma v4_field_digits [simp]: "n \<le> 255 \<Longrightarrow> v4_field (digits_of n) = Some n"
proof -
  assume "n \<le> 255"
  moreover have "length (digits_of 0) = 1" by (simp add: digits_of.simps [of 0])
  then have "length (digits_of n) > 1 \<longrightarrow> hd (digits_of n) \<noteq> CHR ''0''" using digits_of_no_zero [of n] by (cases "n = 0") auto
  ultimately show ?thesis using digits_of_digits [of n] by (simp add: v4_field_def digits_value_digits_of)
qed

lemma split_digits:
  assumes "\<And>c. c \<in> set s \<Longrightarrow> c \<noteq> x"
  shows "split_byte x (s @ x # t) = s # split_byte x t" "split_byte x s = [s]"
  using assms by (induction s) auto

lemma dot_not_digit: "c \<in> set (digits_of n) \<Longrightarrow> c \<noteq> CHR ''.''" "c \<in> set (digits_of n) \<Longrightarrow> c \<noteq> CHR '':''" "c \<in> set (digits_of n) \<Longrightarrow> c \<noteq> CHR 0x25"
    "c \<in> set (digits_of n) \<Longrightarrow> c \<noteq> CHR ''/''"
  by (auto dest!: digits_of_plain simp: is_digit_def code_def)

lemma parseIPv4_show:
  assumes "a \<le> 255" "b \<le> 255" "c \<le> 255" "d \<le> 255"
  shows "parseIPv4 (show_v4 a b c d) = Some [a, b, c, d]"
proof -
  have "split_byte (CHR ''.'') (show_v4 a b c d) = [digits_of a, digits_of b, digits_of c, digits_of d]"
    using split_digits [of "digits_of a" "CHR ''.''"] split_digits [of "digits_of b" "CHR ''.''"] split_digits [of "digits_of c" "CHR ''.''"]
      split_digits [of "digits_of d" "CHR ''.''"] dot_not_digit(1)
    by (simp add: show_v4_def)
  then show ?thesis using assms by (simp add: parseIPv4_def)
qed

lemma index_byte_at: "x \<notin> set s \<Longrightarrow> index_byte x (s @ x # t) = Some (length s)"
  by (induction s) auto

lemma first_dot: "find_first (\<lambda>c. c \<in> {CHR ''.'', CHR '':'', CHR 0x25}) (show_v4 a b c d) = Some (CHR ''.'')"
proof -
  have "find_first (\<lambda>c. c \<in> {CHR ''.'', CHR '':'', CHR 0x25}) (s @ CHR ''.'' # t) = Some (CHR ''.'')"
    if "\<And>c. c \<in> set s \<Longrightarrow> c \<notin> {CHR ''.'', CHR '':'', CHR 0x25}" for s t
    using that by (induction s) auto
  from this [of "digits_of a"] show ?thesis using dot_not_digit by (simp add: show_v4_def)
qed

lemma ParseAddr_show:
  assumes "a \<le> 255" "b \<le> 255" "c \<le> 255" "d \<le> 255"
  shows "ParseAddr (show_v4 a b c d) = Some (V4 [a, b, c, d])"
  using parseIPv4_show [OF assms] by (simp add: ParseAddr_def first_dot [simplified])

lemma ParseIP_show:
  assumes "a \<le> 255" "b \<le> 255" "c \<le> 255" "d \<le> 255"
  shows "ParseIP (show_v4 a b c d) = Some (v4InV6Prefix @ [a, b, c, d])"
  using ParseAddr_show [OF assms] by (simp add: ParseIP_def As16_def)

lemma ParseCIDR_show:
  assumes "a \<le> 255" "b \<le> 255" "c \<le> 255" "d \<le> 255" "n \<le> 32"
  shows "ParseCIDR (show_v4 a b c d @ ''/'' @ digits_of n) =
    Some \<lparr>net_IP = mask_bytes [a, b, c, d] (CIDRMask n 4), net_Mask = CIDRMask n 4\<rparr>"
proof -
  have "CHR ''/'' \<notin> set (show_v4 a b c d)" using dot_not_digit(4) by (auto simp: show_v4_def)
  then have "index_byte (CHR ''/'') (show_v4 a b c d @ ''/'' @ digits_of n) = Some (length (show_v4 a b c d))" by (simp add: index_byte_at)
  then show ?thesis using assms ParseAddr_show digits_of_digits [of n] by (simp add: ParseCIDR_def digits_value_digits_of)
qed

lemma length_CIDRMask [simp]: "length (CIDRMask n l) = l"
  by (induction n l rule: CIDRMask.induct) simp_all

lemma length_mask_bytes [simp]: "length (mask_bytes a m) = min (length a) (length m)"
  by (simp add: mask_bytes_def)

lemma mask_bytes_twice [simp]: "mask_bytes (mask_bytes a m) m = mask_bytes a m"
  by (induction a m rule: list_induct2') (simp_all add: mask_bytes_def and.assoc)

text \<open>An IPv4 network in CIDR notation contains the addresses that agree with it in the leading \<open>n\<close> bits.\<close>

definition same_prefix :: "nat \<Rightarrow> ip \<Rightarrow> ip \<Rightarrow> bool" where
  "same_prefix n a b \<longleftrightarrow> bytes_value a div 2 ^ (8 * length a - n) = bytes_value b div 2 ^ (8 * length b - n)"

lemma Contains_v4:
  assumes "is_bytes a" "is_bytes b" "length a = 4" "length b = 4" "n \<le> 32"
  shows "IPNet_Contains \<lparr>net_IP = mask_bytes a (CIDRMask n 4), net_Mask = CIDRMask n 4\<rparr> (v4InV6Prefix @ b) \<longleftrightarrow> same_prefix n a b"
proof -
  have "To4 (v4InV6Prefix @ b) = Some b" "To4 (mask_bytes a (CIDRMask n 4)) = Some (mask_bytes a (CIDRMask n 4))"
    using assms(3,4) by (simp_all add: To4_def v4InV6Prefix_def)
  then show ?thesis
    using assms mask_bytes_value [OF assms(1,2,3,4), of n] by (simp add: IPNet_Contains_def networkNumberAndMask_def same_prefix_def)
qed

end
