(* ===== verification/Login_Monitor.thy ===== *)
theory Login_Monitor
  imports Monitor_Base Net_Addr
begin

text \<open>
  The login monitors, package \<open>loginmonitor\<close>, and the sessions of \<open>logind\<close> they read: the history of sessions, the baseline of logins, the
  list of allowed sources, and the counter of failed logins. The system bus, the journal and the name service are arguments. Their text
  is UTF-8, so the JSON of the histories keeps it.
\<close>

section \<open>Sessions of logind\<close>

datatype variant = VStr string | VBool bool | VU32 nat | VU64 nat | VList "variant list" | VOther

record SessionInfo =
  si_ID :: string
  si_Username :: string
  si_Class :: string
  si_SessionType :: string
  si_Seat :: string
  si_Remote :: bool
  si_RemoteHost :: string
  si_RemoteUser :: string
  si_TTY :: string
  si_Display :: string
  si_Leader :: nat
  si_Timestamp :: "instant option"      \<comment> \<open>\<open>None\<close> is the zero time\<close>

definition v_str :: "variant option \<Rightarrow> string" where
  "v_str v = (case v of Some (VStr s) \<Rightarrow> s | _ \<Rightarrow> [])"

text \<open>\<open>int64(usec)\<close> wraps above \<open>2^63\<close>.\<close>

definition unix_micro :: "nat \<Rightarrow> instant" where
  "unix_micro usec = 1000 * (if usec < 2 ^ 63 then int usec else int usec - 2 ^ 64)"

definition session_info :: "(string \<rightharpoonup> variant) \<Rightarrow> SessionInfo" where
  "session_info props =
     \<lparr>si_ID = [], si_Username = v_str (props ''Name''), si_Class = v_str (props ''Class''), si_SessionType = v_str (props ''Type''),
      si_Seat = (case props ''Seat'' of Some (VList (v # _)) \<Rightarrow> v_str (Some v) | _ \<Rightarrow> []),
      si_Remote = (case props ''Remote'' of Some (VBool b) \<Rightarrow> b | _ \<Rightarrow> False),
      si_RemoteHost = v_str (props ''RemoteHost''), si_RemoteUser = v_str (props ''RemoteUser''), si_TTY = v_str (props ''TTY''),
      si_Display = v_str (props ''Display''),
      si_Leader = (case props ''Leader'' of Some (VU32 n) \<Rightarrow> n | _ \<Rightarrow> 0),
      si_Timestamp = (case props ''Timestamp'' of Some (VU64 n) \<Rightarrow> if n > 0 then Some (unix_micro n) else None | _ \<Rightarrow> None)\<rparr>"

text \<open>\<open>bus path\<close>: the properties of the session object, or the error of the call.\<close>

type_synonym bus = "string \<Rightarrow> string + (string \<rightharpoonup> variant)"

definition FetchSessionInfo :: "bus \<Rightarrow> string \<Rightarrow> string + SessionInfo" where
  "FetchSessionInfo bus path =
     (case bus path of Inl e \<Rightarrow> Inl (''GetAll('' @ path @ ''): '' @ e) | Inr props \<Rightarrow> Inr (session_info props))"

record rawSession =
  rs_ID :: string
  rs_User :: string
  rs_Seat :: string
  rs_Path :: string

definition listed_session :: "bus \<Rightarrow> rawSession \<Rightarrow> SessionInfo option" where
  "listed_session bus rs =
     (case FetchSessionInfo bus (rs_Path rs) of
        Inl _ \<Rightarrow> None
      | Inr info \<Rightarrow>
          let info = info\<lparr>si_ID := rs_ID rs\<rparr>;
              info = (if si_Username info = [] then info\<lparr>si_Username := rs_User rs\<rparr> else info)
          in Some (if si_Seat info = [] then info\<lparr>si_Seat := rs_Seat rs\<rparr> else info))"

definition ListSessionsConn :: "bus \<Rightarrow> string + rawSession list \<Rightarrow> string + SessionInfo list" where
  "ListSessionsConn bus raw =
     (case raw of Inl e \<Rightarrow> Inl (''ListSessions: '' @ e) | Inr rss \<Rightarrow> Inr (List.map_filter (listed_session bus) rss))"

section \<open>Login events\<close>

datatype login_EventType = SessionExisting | SessionLogin | SessionLogout

record LoginEvent =
  le_EventType :: login_EventType
  le_SessionID :: string
  le_Username :: string
  le_Class :: string
  le_SessionType :: string
  le_Remote :: bool
  le_RemoteHost :: string
  le_SourceIP :: string
  le_ResolvedHostname :: string
  le_TTY :: string
  le_Timestamp :: instant
  le_Unusual :: bool
  le_UnusualReason :: string

record FailedLoginEvent =
  fl_Username :: string
  fl_SourceIP :: string
  fl_RemoteHost :: string
  fl_ResolvedHostname :: string
  fl_Timestamp :: instant
  fl_Service :: string
  fl_Reason :: string

record LoginMonitorSettings =
  lc_AllowedSources :: "string list"
  lc_FailedLoginThreshold :: int
  lc_DisableBaseline :: bool
  lc_BaselineMinEvents :: int

text \<open>A key of the attribute file: not there, there and not a list of events, or a list.\<close>

datatype 'a attr_value = NoValue | BadValue | Value 'a

record login_mem =
  lg_history :: "LoginEvent list attr_value"
  lg_failed :: "FailedLoginEvent list attr_value"
  lg_loop :: loop_mem
  lg_ledger :: "ledger option"

definition maxHistory :: nat where "maxHistory = 500"
definition maxFailedHistory :: nat where "maxFailedHistory = 500"

definition read_attr :: "string \<Rightarrow> 'a list attr_value \<Rightarrow> string + 'a list" where
  "read_attr msg v = (case v of NoValue \<Rightarrow> Inr [] | BadValue \<Rightarrow> Inl msg | Value h \<Rightarrow> Inr h)"

definition login_ReadHistory :: "login_mem \<Rightarrow> string + LoginEvent list" where
  "login_ReadHistory m = read_attr ''loginmonitor: parse history'' (lg_history m)"

definition ReadFailedHistory :: "login_mem \<Rightarrow> string + FailedLoginEvent list" where
  "ReadFailedHistory m = read_attr ''loginmonitor: parse failed history'' (lg_failed m)"

definition or_nil :: "'e + 'a list \<Rightarrow> 'a list" where
  "or_nil r = (case r of Inl _ \<Rightarrow> [] | Inr h \<Rightarrow> h)"

definition appendEvent :: "bool \<Rightarrow> LoginEvent \<Rightarrow> login_mem \<Rightarrow> login_mem" where
  "appendEvent ok ev m =
     (if ok then m\<lparr>lg_history := Value (cap_history maxHistory (or_nil (login_ReadHistory m) @ [ev]))\<rparr> else m)"

definition appendFailedEvent :: "bool \<Rightarrow> FailedLoginEvent \<Rightarrow> login_mem \<Rightarrow> login_mem" where
  "appendFailedEvent ok ev m =
     (if ok then m\<lparr>lg_failed := Value (cap_history maxFailedHistory (or_nil (ReadFailedHistory m) @ [ev]))\<rparr> else m)"

definition login_opens :: "LoginEvent \<Rightarrow> bool" where
  "login_opens ev \<longleftrightarrow> le_EventType ev = SessionLogin \<or> le_EventType ev = SessionExisting"

definition login_closes :: "LoginEvent \<Rightarrow> bool" where
  "login_closes ev \<longleftrightarrow> le_EventType ev = SessionLogout"

definition ActiveSessions :: "LoginEvent list \<Rightarrow> LoginEvent list" where
  "ActiveSessions = active_log le_SessionID login_opens login_closes"

definition lastUsernameForSession :: "string \<Rightarrow> login_mem \<Rightarrow> string" where
  "lastUsernameForSession i m =
     (case login_ReadHistory m of
        Inl _ \<Rightarrow> []
      | Inr h \<Rightarrow> (case find_first (\<lambda>e. le_SessionID e = i) (rev h) of None \<Rightarrow> [] | Some e \<Rightarrow> le_Username e))"

section \<open>Sources\<close>

text \<open>The name service: names of an address, addresses of a name.\<close>

record resolver =
  LookupAddr :: "string \<Rightarrow> string list option"
  LookupHost :: "string \<Rightarrow> string list option"

definition enrichSourceInfo :: "resolver \<Rightarrow> string \<Rightarrow> string \<times> string" where
  "enrichSourceInfo dns host =
     (if host = [] then ([], [])
      else if ParseIP host \<noteq> None then
        (host, case LookupAddr dns host of Some (n # _) \<Rightarrow> TrimSuffix n ''.'' | _ \<Rightarrow> [])
      else (case LookupHost dns host of Some (a # _) \<Rightarrow> a | _ \<Rightarrow> [], host))"

definition sourceIdentity :: "LoginEvent \<Rightarrow> string" where
  "sourceIdentity ev =
     (if \<not> le_Remote ev then ''local''
      else if le_SourceIP ev \<noteq> [] then le_SourceIP ev
      else if le_RemoteHost ev \<noteq> [] then le_RemoteHost ev
      else ''unknown'')"

definition originDescription :: "LoginEvent \<Rightarrow> string" where
  "originDescription ev =
     (if \<not> le_Remote ev then ''local console''
      else let i = sourceIdentity ev in
           if le_ResolvedHostname ev \<noteq> [] \<and> le_ResolvedHostname ev \<noteq> i then i @ '' ('' @ le_ResolvedHostname ev @ '')'' else i)"

definition severityFor :: "bool \<Rightarrow> string" where
  "severityFor remote = (if remote then ''critical'' else ''warning'')"

definition allowed_source :: "LoginEvent \<Rightarrow> ip option \<Rightarrow> string \<Rightarrow> bool" where
  "allowed_source ev parsedIP src =
     (case ParseCIDR src of
        Some cidr \<Rightarrow> (case parsedIP of Some a \<Rightarrow> IPNet_Contains cidr a | None \<Rightarrow> False)
      | None \<Rightarrow>
          (case ParseIP src of
             Some a \<Rightarrow> parsedIP = Some a
           | None \<Rightarrow> src = le_RemoteHost ev \<or> src = le_ResolvedHostname ev))"

definition source_candidate :: "LoginEvent \<Rightarrow> string" where
  "source_candidate ev = (if le_SourceIP ev = [] then le_RemoteHost ev else le_SourceIP ev)"

definition unusual_source :: "LoginMonitorSettings \<Rightarrow> LoginEvent \<Rightarrow> bool" where
  "unusual_source cfg ev \<longleftrightarrow> le_Remote ev \<and> lc_AllowedSources cfg \<noteq> [] \<and> source_candidate ev \<noteq> [] \<and>
     \<not> list_ex (allowed_source ev (ParseIP (source_candidate ev))) (lc_AllowedSources cfg)"

definition checkUnusualSource ::
    "escalation_io \<Rightarrow> formats \<Rightarrow> instant \<Rightarrow> LoginMonitorSettings \<Rightarrow> LoginEvent \<Rightarrow> login_mem \<Rightarrow> login_mem" where
  "checkUnusualSource io fm now cfg ev m =
     (if \<not> unusual_source cfg ev then m
      else
        let candidate = source_candidate ev;
            lm = Notify (ei_note io) (''[CRITICAL] Unusual login source: '' @ le_Username ev @ '' from '' @ candidate)
                   (''A login was detected from an unexpected source.'' @ nl @ nl @ ''User:     '' @ le_Username ev @ nl @
                    ''Source IP: '' @ le_SourceIP ev @ nl @ ''Hostname:  '' @ le_ResolvedHostname ev @ nl @ ''Session:  '' @ le_SessionID ev @ nl @
                    ''Time:     '' @ fm_mail fm (le_Timestamp ev)) (lg_loop m)
        in m\<lparr>lg_loop := the (skill_Save (ei_state io) (fm_stamp fm) now ''check_interactive_logins'' ''critical''
                               (''unusual login source: '' @ le_Username ev @ '' from '' @ candidate) (Some lm))\<rparr>)"

section \<open>The baseline\<close>

definition baselineDefaultMinEvents :: int where "baselineDefaultMinEvents = 5"
definition baselineTimeBucketHours :: int where "baselineTimeBucketHours = 4"

definition utc_hour :: "instant \<Rightarrow> int" where
  "utc_hour t = (t div hour) mod 24"

definition utc_minute :: "instant \<Rightarrow> int" where
  "utc_minute t = (t div minute) mod 60"

definition two_digits :: "int \<Rightarrow> string" where
  "two_digits n = (if n < 10 then ''0'' @ show_int n else show_int n)"

definition hour_bucket :: "LoginEvent \<Rightarrow> int" where
  "hour_bucket ev = utc_hour (le_Timestamp ev) div baselineTimeBucketHours"

definition prior_logins :: "string \<Rightarrow> LoginEvent list \<Rightarrow> LoginEvent list" where
  "prior_logins user prior = filter (\<lambda>h. le_Username h = user \<and> login_opens h) prior"

definition login_deviation :: "(string \<Rightarrow> string) \<Rightarrow> LoginMonitorSettings \<Rightarrow> LoginEvent list \<Rightarrow> LoginEvent \<Rightarrow> deviation option" where
  "login_deviation quote cfg prior ev =
     (let user = le_Username ev; known = prior_logins user prior;
          minEvents = (if lc_BaselineMinEvents cfg \<le> 0 then baselineDefaultMinEvents else lc_BaselineMinEvents cfg)
      in if known = [] then
           Some \<lparr>dv_reason = ''new_user'', dv_fingerprint = ''unusual-login-newuser-'' @ user,
             dv_title = ''first-ever login for user '' @ quote user,
             dv_detail = ''User '' @ quote user @ '' logged in for the first time in recorded history (origin: '' @ originDescription ev @ '').'',
             dv_severity = severityFor (le_Remote ev)\<rparr>
         else if sourceIdentity ev \<notin> set (map sourceIdentity known) then
           Some \<lparr>dv_reason = ''new_source'', dv_fingerprint = ''unusual-login-newsource-'' @ user @ ''-'' @ sourceIdentity ev,
             dv_title = ''login for '' @ quote user @ '' from a never-seen source'',
             dv_detail = ''User '' @ quote user @ '' logged in from '' @ originDescription ev @ '', which has not been seen for this user before.'',
             dv_severity = severityFor (le_Remote ev)\<rparr>
         else if int (length known) \<ge> minEvents \<and> hour_bucket ev \<notin> set (map hour_bucket known) then
           Some \<lparr>dv_reason = ''unusual_time'', dv_fingerprint = ''unusual-login-offhours-'' @ user,
             dv_title = ''off-hours login for '' @ quote user,
             dv_detail = ''User '' @ quote user @ '' logged in at '' @ two_digits (utc_hour (le_Timestamp ev)) @ '':'' @
               two_digits (utc_minute (le_Timestamp ev)) @ '' UTC, a time of day not seen in their prior '' @ show_nat (length known) @ '' logins.'',
             dv_severity = ''warning''\<rparr>
         else None)"

definition login_mail :: "formats \<Rightarrow> LoginEvent \<Rightarrow> deviation \<Rightarrow> string" where
  "login_mail fm ev d = dv_detail d @ nl @ nl @ ''User:     '' @ le_Username ev @ nl @ ''Session:  '' @ le_SessionID ev @ nl @
     ''Origin:   '' @ originDescription ev @ nl @ ''Time:     '' @ fm_mail fm (le_Timestamp ev)"

definition login_checkAgainstBaseline ::
    "(string \<Rightarrow> string) \<Rightarrow> escalation_io \<Rightarrow> formats \<Rightarrow> instant \<Rightarrow> LoginMonitorSettings \<Rightarrow> LoginEvent list \<Rightarrow> LoginEvent \<Rightarrow> login_mem \<Rightarrow>
      LoginEvent \<times> login_mem" where
  "login_checkAgainstBaseline quote io fm now cfg prior ev m =
     (if lc_DisableBaseline cfg then (ev, m)
      else case login_deviation quote cfg prior ev of
        None \<Rightarrow> (ev, m)
      | Some d \<Rightarrow>
          (case escalate io fm now ''check_interactive_logins'' (login_mail fm ev d) d (lg_loop m, lg_ledger m) of (lm, led) \<Rightarrow>
             (ev\<lparr>le_Unusual := True, le_UnusualReason := dv_reason d\<rparr>, m\<lparr>lg_loop := lm, lg_ledger := led\<rparr>)))"

section \<open>The watch loop\<close>

definition blank_login :: "login_EventType \<Rightarrow> string \<Rightarrow> string \<Rightarrow> instant \<Rightarrow> LoginEvent" where
  "blank_login t i user now = \<lparr>le_EventType = t, le_SessionID = i, le_Username = user, le_Class = [], le_SessionType = [], le_Remote = False,
     le_RemoteHost = [], le_SourceIP = [], le_ResolvedHostname = [], le_TTY = [], le_Timestamp = now, le_Unusual = False, le_UnusualReason = []\<rparr>"

definition session_event :: "resolver \<Rightarrow> login_EventType \<Rightarrow> instant \<Rightarrow> SessionInfo \<Rightarrow> LoginEvent" where
  "session_event dns t now s =
     (let (ip, host) = enrichSourceInfo dns (si_RemoteHost s) in
      (blank_login t (si_ID s) (si_Username s) now)\<lparr>le_Class := si_Class s, le_SessionType := si_SessionType s, le_Remote := si_Remote s,
        le_RemoteHost := si_RemoteHost s, le_SourceIP := ip, le_ResolvedHostname := host, le_TTY := si_TTY s\<rparr>)"

text \<open>What a signal meets: the bus, the name service, the clock, and which writes succeed.\<close>

record login_env =
  ln_bus :: bus
  ln_dns :: resolver
  ln_now :: instant
  ln_baseline :: escalation_io
  ln_source :: escalation_io
  ln_write :: bool

datatype dbus_value = BStr string | BPath string | BOther

record dbus_signal =
  sg_Name :: string
  sg_Body :: "dbus_value list"

definition body_str :: "dbus_value \<Rightarrow> string" where "body_str v = (case v of BStr s \<Rightarrow> s | _ \<Rightarrow> [])"
definition body_path :: "dbus_value \<Rightarrow> string" where "body_path v = (case v of BPath s \<Rightarrow> s | _ \<Rightarrow> [])"

definition signal_member :: "string \<Rightarrow> string" where
  "signal_member name = (case last_index_byte (CHR ''.'') name of None \<Rightarrow> name | Some i \<Rightarrow> drop (i + 1) name)"

definition handleSignal ::
    "(string \<Rightarrow> string) \<Rightarrow> formats \<Rightarrow> LoginMonitorSettings \<Rightarrow> login_env \<Rightarrow> dbus_signal \<Rightarrow> login_mem \<Rightarrow> login_mem" where
  "handleSignal quote fm cfg e sig m =
     (if signal_member (sg_Name sig) = ''SessionNew'' then
        (case sg_Body sig of
           v0 # v1 # _ \<Rightarrow>
             (case FetchSessionInfo (ln_bus e) (body_path v1) of
                Inl _ \<Rightarrow> appendEvent (ln_write e) (blank_login SessionLogin (body_str v0) [] (ln_now e)) m
              | Inr info \<Rightarrow>
                  let ev = session_event (ln_dns e) SessionLogin (ln_now e) (info\<lparr>si_ID := body_str v0\<rparr>) in
                  (case login_checkAgainstBaseline quote (ln_baseline e) fm (ln_now e) cfg (or_nil (login_ReadHistory m)) ev m of (ev, m) \<Rightarrow>
                     checkUnusualSource (ln_source e) fm (ln_now e) cfg ev (appendEvent (ln_write e) ev m)))
         | _ \<Rightarrow> m)
      else if signal_member (sg_Name sig) = ''SessionRemoved'' then
        (case sg_Body sig of
           v0 # _ \<Rightarrow>
             appendEvent (ln_write e) (blank_login SessionLogout (body_str v0) (lastUsernameForSession (body_str v0) m) (ln_now e)) m
         | [] \<Rightarrow> m)
      else m)"

text \<open>The sessions that exist when the loop connects; \<open>now\<close> replaces a missing timestamp. An error of the listing leaves none.\<close>

definition bootstrap :: "resolver \<Rightarrow> instant \<Rightarrow> bool \<Rightarrow> string + SessionInfo list \<Rightarrow> login_mem \<Rightarrow> login_mem" where
  "bootstrap dns now ok existing m =
     fold (\<lambda>s. appendEvent ok (session_event dns SessionExisting (case si_Timestamp s of None \<Rightarrow> now | Some t \<Rightarrow> t) s)) (or_nil existing) m"

fun watch_signals ::
    "(string \<Rightarrow> string) \<Rightarrow> formats \<Rightarrow> LoginMonitorSettings \<Rightarrow> (login_env \<times> dbus_signal) list \<Rightarrow> login_mem \<Rightarrow> login_mem" where
  "watch_signals quote fm cfg [] m = m"
| "watch_signals quote fm cfg ((e, sig) # sigs) m = watch_signals quote fm cfg sigs (handleSignal quote fm cfg e sig m)"

section \<open>Failed logins\<close>

definition failedPassRe :: "citem list" where
  "failedPassRe = [Plain (lits ''Failed password for ''), Optional [Plain (lits ''invalid user '')], Group (rplus nonsp), Plain (lits '' from ''), Group (rplus nonsp)]"

definition invalidUserRe :: "citem list" where
  "invalidUserRe = [Plain (lits ''Invalid user ''), Group (rplus nonsp), Plain (lits '' from ''), Group (rplus nonsp)]"

definition closedByInvalidRe :: "citem list" where
  "closedByInvalidRe = [Plain (lits ''Connection closed by invalid user ''), Group (rplus nonsp), Plain (lits '' ''), Group (rplus nonsp)]"

definition parseFailureMessage :: "string \<Rightarrow> string \<times> string \<times> string" where
  "parseFailureMessage msg =
     (case FindStringSubmatch failedPassRe msg of
        Some [u, h] \<Rightarrow> (u, h, if Contains msg ''invalid user'' then ''invalid user'' else ''invalid password'')
      | _ \<Rightarrow>
          (case FindStringSubmatch invalidUserRe msg of
             Some [u, h] \<Rightarrow> (u, h, ''invalid user'')
           | _ \<Rightarrow>
               (case FindStringSubmatch closedByInvalidRe msg of
                  Some [u, h] \<Rightarrow> (u, h, ''connection closed by invalid user'')
                | _ \<Rightarrow> ([], [], []))))"

type_synonym fail_counts = "string \<rightharpoonup> int"

definition succeeded_lately :: "string \<Rightarrow> LoginEvent list \<Rightarrow> bool" where
  "succeeded_lately ip history \<longleftrightarrow>
     list_ex (\<lambda>e. le_EventType e = SessionLogin \<and> le_SourceIP e = ip) (drop (length history - 100) history)"

definition resetIfSucceeded :: "string \<Rightarrow> string \<Rightarrow> login_mem \<Rightarrow> fail_counts \<Rightarrow> fail_counts" where
  "resetIfSucceeded key ip m counts =
     (if ip = [] then counts
      else case login_ReadHistory m of
        Inl _ \<Rightarrow> counts
      | Inr h \<Rightarrow> if h \<noteq> [] \<and> succeeded_lately ip h then counts(key := None) else counts)"

definition fail_count :: "fail_counts \<Rightarrow> string \<Rightarrow> int" where
  "fail_count counts key = (case counts key of None \<Rightarrow> 0 | Some n \<Rightarrow> n)"

definition alerts_at :: "int \<Rightarrow> int \<Rightarrow> bool" where
  "alerts_at threshold count \<longleftrightarrow> threshold > 0 \<and> count \<ge> threshold \<and> (count - threshold) mod threshold = 0"

definition handleMessage ::
    "resolver \<Rightarrow> escalation_io \<Rightarrow> formats \<Rightarrow> instant \<Rightarrow> bool \<Rightarrow> LoginMonitorSettings \<Rightarrow> string \<Rightarrow> fail_counts \<times> login_mem \<Rightarrow> fail_counts \<times> login_mem" where
  "handleMessage dns io fm now ok cfg msg st =
     (case st of (counts, m) \<Rightarrow>
      case parseFailureMessage msg of (user, rawHost, reason) \<Rightarrow>
        if user = [] then (counts, m)
        else
          let (ip, hostname) = enrichSourceInfo dns rawHost;
              ev = \<lparr>fl_Username = user, fl_SourceIP = ip, fl_RemoteHost = rawHost, fl_ResolvedHostname = hostname, fl_Timestamp = now,
                    fl_Service = ''sshd'', fl_Reason = reason\<rparr>;
              m = appendFailedEvent ok ev m;
              key = (if ip = [] then rawHost else ip)
          in if key = [] then (counts, m)
             else
               let counts = resetIfSucceeded key ip m counts;
                   n = fail_count counts key + 1;
                   counts = counts(key \<mapsto> n)
               in if alerts_at (lc_FailedLoginThreshold cfg) n then
                    let lm = Notify (ei_note io) (''[CRITICAL] '' @ show_int n @ '' consecutive failed logins from '' @ key)
                               (''Consecutive failed login attempts detected.'' @ nl @ nl @ ''Source IP:  '' @ ip @ nl @ ''Hostname:   '' @ hostname @ nl @
                                ''Attempts:   '' @ show_int n @ nl @ ''Last user:  '' @ user @ nl @ ''Reason:     '' @ reason @ nl @
                                ''Time:       '' @ fm_mail fm now) (lg_loop m)
                    in (counts, m\<lparr>lg_loop := the (skill_Save (ei_state io) (fm_stamp fm) now ''check_interactive_logins'' ''critical''
                                      (''brute force: '' @ show_int n @ '' consecutive failed logins from '' @ key) (Some lm))\<rparr>)
                  else (counts, m))"

section \<open>The history follows the sessions\<close>

interpretation sessions: open_log ActiveSessions le_SessionID login_opens login_closes
  by unfold_locales (simp_all add: ActiveSessions_def active_log_exact)

abbreviation history_of :: "login_mem \<Rightarrow> LoginEvent list" where
  "history_of m \<equiv> or_nil (login_ReadHistory m)"

abbreviation open_ids :: "LoginEvent list \<Rightarrow> string set" where
  "open_ids h \<equiv> le_SessionID ` set (ActiveSessions h)"

lemma history_append [simp]: "history_of (appendEvent True ev m) = cap_history maxHistory (history_of m @ [ev])"
  by (simp add: appendEvent_def login_ReadHistory_def read_attr_def or_nil_def)

lemma history_loop [simp]: "login_ReadHistory (m\<lparr>lg_loop := l\<rparr>) = login_ReadHistory m" "login_ReadHistory (m\<lparr>lg_ledger := d\<rparr>) = login_ReadHistory m"
  by (simp_all add: login_ReadHistory_def)

lemma blank_login_simps [simp]:
  "le_SessionID (blank_login t i u now) = i" "login_opens (blank_login t i u now) \<longleftrightarrow> t \<noteq> SessionLogout"
  "login_closes (blank_login t i u now) \<longleftrightarrow> t = SessionLogout"
  by (cases t; simp add: blank_login_def login_opens_def login_closes_def)+

lemma session_event_simps [simp]:
  "le_SessionID (session_event dns t now s) = si_ID s" "login_opens (session_event dns t now s) \<longleftrightarrow> t \<noteq> SessionLogout"
  "login_closes (session_event dns t now s) \<longleftrightarrow> t = SessionLogout"
  by (cases t; simp add: session_event_def blank_login_def login_opens_def login_closes_def split: prod.split)+

lemma checkUnusualSource_history [simp]: "login_ReadHistory (checkUnusualSource io fm now cfg ev m) = login_ReadHistory m"
  by (simp add: checkUnusualSource_def Let_def)

lemma login_check_same:
  "history_of (snd (login_checkAgainstBaseline quote io fm now cfg prior ev m)) = history_of m \<and>
   le_SessionID (fst (login_checkAgainstBaseline quote io fm now cfg prior ev m)) = le_SessionID ev \<and>
   login_opens (fst (login_checkAgainstBaseline quote io fm now cfg prior ev m)) = login_opens ev"
  by (simp add: login_checkAgainstBaseline_def login_opens_def login_ReadHistory_def split: option.split prod.split)

text \<open>What the signals say: the specification.\<close>

definition signal_effect :: "dbus_signal \<Rightarrow> string set \<Rightarrow> string set" where
  "signal_effect sig ids =
     (if signal_member (sg_Name sig) = ''SessionNew'' \<and> length (sg_Body sig) \<ge> 2 then insert (body_str (hd (sg_Body sig))) ids
      else if signal_member (sg_Name sig) = ''SessionRemoved'' \<and> sg_Body sig \<noteq> [] then ids - {body_str (hd (sg_Body sig))}
      else ids)"

text \<open>\<open>n\<close> events recorded so far and the sessions \<open>ids\<close> open.\<close>

definition session_inv :: "nat \<Rightarrow> string set \<Rightarrow> LoginEvent list \<Rightarrow> bool" where
  "session_inv n ids h \<longleftrightarrow> open_ids h \<subseteq> ids \<and> length h \<le> n \<and> (n \<le> maxHistory \<longrightarrow> open_ids h = ids)"

lemma session_inv_append:
  assumes "session_inv n ids h" "\<not> (login_opens ev \<and> login_closes ev)" "login_opens ev \<or> login_closes ev"
  shows "session_inv (Suc n) (if login_opens ev then insert (le_SessionID ev) ids else ids - {le_SessionID ev}) (cap_history maxHistory (h @ [ev]))"
proof -
  have new: "open_ids (h @ [ev]) = (if login_opens ev then insert (le_SessionID ev) (open_ids h) else open_ids h - {le_SessionID ev})"
    using sessions.replay [of "[ev]" "[]" h] sessions.replay [of "[]" "[ev]" h] assms(2,3) by auto
  have cap: "open_ids (cap_history maxHistory (h @ [ev])) \<subseteq> open_ids (h @ [ev])" using sessions.capped by blast
  have full: "cap_history maxHistory (h @ [ev]) = h @ [ev]" if "Suc n \<le> maxHistory"
    using that assms(1) by (auto simp: session_inv_def)
  let ?ids = "if login_opens ev then insert (le_SessionID ev) ids else ids - {le_SessionID ev}"
  have "open_ids (h @ [ev]) \<subseteq> ?ids" using assms(1) by (auto simp: session_inv_def new)
  with cap have "open_ids (cap_history maxHistory (h @ [ev])) \<subseteq> ?ids" by (rule order_trans)
  moreover have "open_ids (cap_history maxHistory (h @ [ev])) = ?ids" if "Suc n \<le> maxHistory"
    unfolding full [OF that] new using that assms(1) by (simp add: session_inv_def)
  ultimately show ?thesis using assms(1) unfolding session_inv_def by (simp add: min_le_iff_disj)
qed

lemma session_inv_mono: "session_inv n ids h \<Longrightarrow> session_inv (Suc n) ids h"
  by (auto simp: session_inv_def)

lemma session_inv_signal:
  assumes "session_inv n ids (history_of m)" "ln_write e"
  shows "session_inv (Suc n) (signal_effect sig ids) (history_of (handleSignal quote fm cfg e sig m))"
proof -
  consider (opened) v0 v1 vs where "signal_member (sg_Name sig) = ''SessionNew''" "sg_Body sig = v0 # v1 # vs"
    | (ended) v0 vs where "signal_member (sg_Name sig) = ''SessionRemoved''" "sg_Body sig = v0 # vs"
    | (other) "handleSignal quote fm cfg e sig m = m" "signal_effect sig ids = ids"
  proof -
    have "handleSignal quote fm cfg e sig m = m \<and> signal_effect sig ids = ids"
      if "\<not> (signal_member (sg_Name sig) = ''SessionNew'' \<and> 2 \<le> length (sg_Body sig))" "\<not> (signal_member (sg_Name sig) = ''SessionRemoved'' \<and> sg_Body sig \<noteq> [])"
      using that by (auto simp: handleSignal_def signal_effect_def split: list.split)
    moreover have "2 \<le> length xs \<Longrightarrow> \<exists>a b ys. xs = a # b # ys" "xs \<noteq> [] \<Longrightarrow> \<exists>a ys. xs = a # ys" for xs :: "dbus_value list"
      by (cases xs; cases "List.tl xs"; simp)+
    ultimately show thesis using opened ended other by blast
  qed
  then show ?thesis
  proof cases
    case opened
    obtain ev where h: "history_of (handleSignal quote fm cfg e sig m) = cap_history maxHistory (history_of m @ [ev])"
      and ev: "le_SessionID ev = body_str v0" "login_opens ev"
    proof (cases "FetchSessionInfo (ln_bus e) (body_path v1)")
      case (Inl err)
      then show thesis using that [of "blank_login SessionLogin (body_str v0) [] (ln_now e)"] opened assms(2) by (simp add: handleSignal_def)
    next
      case (Inr info)
      define ev where "ev = session_event (ln_dns e) SessionLogin (ln_now e) (info\<lparr>si_ID := body_str v0\<rparr>)"
      obtain ev' m1 where c: "login_checkAgainstBaseline quote (ln_baseline e) fm (ln_now e) cfg (history_of m) ev m = (ev', m1)" by (metis prod.exhaust)
      then have "history_of m1 = history_of m" "le_SessionID ev' = body_str v0" "login_opens ev'"
        using login_check_same [of quote "ln_baseline e" fm "ln_now e" cfg "history_of m" ev m] by (simp_all add: ev_def)
      then show thesis using that [of ev'] c Inr opened assms(2) by (simp add: handleSignal_def ev_def)
    qed
    have "\<not> login_closes ev" using ev(2) by (auto simp: login_opens_def login_closes_def)
    then show ?thesis using session_inv_append [OF assms(1), of ev] ev opened by (simp add: h signal_effect_def)
  next
    case ended
    have h: "history_of (handleSignal quote fm cfg e sig m) = cap_history maxHistory (history_of m @
        [blank_login SessionLogout (body_str v0) (lastUsernameForSession (body_str v0) m) (ln_now e)])"
      using ended assms(2) by (simp add: handleSignal_def)
    show ?thesis
      using session_inv_append [OF assms(1), of "blank_login SessionLogout (body_str v0) (lastUsernameForSession (body_str v0) m) (ln_now e)"] ended
      by (simp add: h signal_effect_def)
  next
    case other
    then show ?thesis using session_inv_mono assms(1) by simp
  qed
qed

lemma session_inv_bootstrap:
  "session_inv n ids (history_of m) \<Longrightarrow>
   session_inv (n + length (or_nil existing)) (ids \<union> si_ID ` set (or_nil existing)) (history_of (bootstrap dns now True existing m))"
proof -
  have "session_inv n ids (history_of m) \<Longrightarrow> session_inv (n + length ss) (ids \<union> si_ID ` set ss)
      (history_of (fold (\<lambda>s. appendEvent True (session_event dns SessionExisting (case si_Timestamp s of None \<Rightarrow> now | Some t \<Rightarrow> t) s)) ss m))" for ss
  proof (induction ss arbitrary: n ids m)
    case (Cons s ss)
    have "session_inv (Suc n) (insert (si_ID s) ids)
        (history_of (appendEvent True (session_event dns SessionExisting (case si_Timestamp s of None \<Rightarrow> now | Some t \<Rightarrow> t) s) m))"
      using session_inv_append [OF Cons.prems, of "session_event dns SessionExisting (case si_Timestamp s of None \<Rightarrow> now | Some t \<Rightarrow> t) s"] by simp
    from Cons.IH [OF this] show ?case by simp
  qed simp
  then show "session_inv n ids (history_of m) \<Longrightarrow>
   session_inv (n + length (or_nil existing)) (ids \<union> si_ID ` set (or_nil existing)) (history_of (bootstrap dns now True existing m))"
    by (simp add: bootstrap_def)
qed

lemma session_inv_watch:
  assumes "session_inv n ids (history_of m)" "list_all (\<lambda>(e, _). ln_write e) sigs"
  shows "session_inv (n + length sigs) (fold signal_effect (map snd sigs) ids) (history_of (watch_signals quote fm cfg sigs m))"
  using assms
proof (induction sigs arbitrary: n ids m)
  case (Cons x sigs)
  obtain e sig where x: "x = (e, sig)" by (cases x)
  from Cons.IH [OF session_inv_signal [OF Cons.prems(1)]] Cons.prems(2) show ?case by (simp add: x)
qed simp

text \<open>
  C27: the sessions shown as open are the open ones. On a host without history, after the sessions that exist and any signals
  have been recorded, the open sessions derived from the history are, each once, sessions that the bus has announced and not removed; and
  they are all of them as long as no more than 500 events were recorded.
\<close>

theorem history_tracks_sessions:
  assumes "lg_history m = NoValue" "list_all (\<lambda>(e, _). ln_write e) sigs"
    and "m' = watch_signals quote fm cfg sigs (bootstrap dns now True existing m)"
    and "ids = fold signal_effect (map snd sigs) (si_ID ` set (or_nil existing))"
  shows "le_SessionID ` set (ActiveSessions (or_nil (login_ReadHistory m'))) \<subseteq> ids \<and>
    distinct (map le_SessionID (ActiveSessions (or_nil (login_ReadHistory m')))) \<and>
    (length (or_nil existing) + length sigs \<le> 500 \<longrightarrow> le_SessionID ` set (ActiveSessions (or_nil (login_ReadHistory m'))) = ids)"
proof -
  have "history_of m = []" using assms(1) by (simp add: login_ReadHistory_def read_attr_def or_nil_def)
  moreover have "ActiveSessions [] = []" by (simp add: ActiveSessions_def active_log_def List.map_filter_def)
  ultimately have "session_inv 0 {} (history_of m)" by (simp add: session_inv_def)
  from session_inv_watch [OF session_inv_bootstrap [OF this, of existing dns now] assms(2), of quote fm cfg] show ?thesis
    using sessions.one_per_key by (simp add: assms(3,4) session_inv_def maxHistory_def)
qed

definition demo_bus :: bus where
  "demo_bus path = Inr [''Name'' \<mapsto> VStr ''ann'', ''Remote'' \<mapsto> VBool True, ''RemoteHost'' \<mapsto> VStr ''10.1.2.3'']"

definition demo_dns :: resolver where "demo_dns = \<lparr>LookupAddr = (\<lambda>_. None), LookupHost = (\<lambda>_. None)\<rparr>"

definition demo_io :: escalation_io where "demo_io = \<lparr>ei_state = True, ei_report = True, ei_note = True\<rparr>"

definition demo_stamps :: formats where "demo_stamps = \<lparr>fm_stamp = (\<lambda>_. ''t''), fm_mail = (\<lambda>_. ''t'')\<rparr>"

definition demo_login_env :: login_env where
  "demo_login_env = \<lparr>ln_bus = demo_bus, ln_dns = demo_dns, ln_now = 5, ln_baseline = demo_io, ln_source = demo_io, ln_write = True\<rparr>"

definition demo_logins :: login_mem where
  "demo_logins = \<lparr>lg_history = NoValue, lg_failed = NoValue, lg_loop = \<lparr>lm_states = Map.empty, lm_notes = []\<rparr>, lg_ledger = None\<rparr>"

definition demo_cfg :: "string list \<Rightarrow> int \<Rightarrow> LoginMonitorSettings" where
  "demo_cfg allowed t = \<lparr>lc_AllowedSources = allowed, lc_FailedLoginThreshold = t, lc_DisableBaseline = False, lc_BaselineMinEvents = 5\<rparr>"

definition demo_signals :: "(login_env \<times> dbus_signal) list" where
  "demo_signals = map (Pair demo_login_env)
     [\<lparr>sg_Name = ''org.freedesktop.login1.Manager.SessionNew'', sg_Body = [BStr ''c1'', BPath ''/p'']\<rparr>,
      \<lparr>sg_Name = ''org.freedesktop.login1.Manager.SessionNew'', sg_Body = [BStr ''c2'', BPath ''/p'']\<rparr>,
      \<lparr>sg_Name = ''org.freedesktop.login1.Manager.SessionRemoved'', sg_Body = [BStr ''c1'', BPath ''/p'']\<rparr>]"

theorem history_tracks_sessions_witness:
  "le_SessionID ` set (ActiveSessions (or_nil (login_ReadHistory
     (watch_signals (\<lambda>s. s) demo_stamps (demo_cfg [] 3) demo_signals (bootstrap demo_dns 1 True (Inr []) demo_logins))))) = {''c2''}"
proof -
  have "fold signal_effect (map snd demo_signals) (si_ID ` set (or_nil (Inr []))) = {''c2''}" by code_simp
  moreover have "list_all (\<lambda>(e, _). ln_write e) demo_signals" by code_simp
  moreover have "length (or_nil (Inr [] :: string + SessionInfo list)) + length demo_signals \<le> 500" by code_simp
  moreover have "lg_history demo_logins = NoValue" by (simp add: demo_logins_def)
  ultimately show ?thesis
    using history_tracks_sessions [of demo_logins demo_signals _ "\<lambda>s. s" demo_stamps "demo_cfg [] 3" demo_dns 1 "Inr []", OF _ _ refl refl] by simp
qed

section \<open>Failed logins\<close>

text \<open>One failure from a source.\<close>

definition failure_from :: "resolver \<Rightarrow> string \<Rightarrow> string \<Rightarrow> bool" where
  "failure_from dns ip msg \<longleftrightarrow>
     (case parseFailureMessage msg of (user, host, _) \<Rightarrow> user \<noteq> [] \<and> fst (enrichSourceInfo dns host) = ip)"

lemma alerts_at_iff: "0 < t \<Longrightarrow> 0 < n \<Longrightarrow> alerts_at (int t) (int n) \<longleftrightarrow> t dvd n"
proof -
  assume t: "0 < t" "0 < n"
  have "(int n - int t) mod int t = int (n mod t)" by (simp add: zmod_int)
  moreover have "t dvd n \<Longrightarrow> t \<le> n" using t dvd_imp_le by blast
  ultimately show ?thesis using t by (auto simp: alerts_at_def dvd_eq_mod_eq_0)
qed

lemma read_failed [simp]: "login_ReadHistory (appendFailedEvent ok ev m) = login_ReadHistory m"
  by (simp add: appendFailedEvent_def login_ReadHistory_def)

definition lately :: "string \<Rightarrow> login_mem \<Rightarrow> bool" where
  "lately ip m \<longleftrightarrow> (case login_ReadHistory m of Inl _ \<Rightarrow> False | Inr h \<Rightarrow> succeeded_lately ip h)"

lemma reset_eq: "ip \<noteq> [] \<Longrightarrow> resetIfSucceeded key ip m counts = (if lately ip m then counts(key := None) else counts)"
  by (auto simp: resetIfSucceeded_def lately_def succeeded_lately_def split: sum.split)

lemma handle_failure:
  assumes "failure_from dns ip msg" "ip \<noteq> []" "ei_note io" "handleMessage dns io fm now ok cfg msg (counts, m) = (counts', m')"
  shows "fail_count counts' ip = (if lately ip m then 1 else fail_count counts ip + 1)" "login_ReadHistory m' = login_ReadHistory m"
    "length (lm_notes (lg_loop m')) =
      length (lm_notes (lg_loop m)) + (if alerts_at (lc_FailedLoginThreshold cfg) (fail_count counts' ip) then 1 else 0)"
proof -
  obtain user host reason where p: "parseFailureMessage msg = (user, host, reason)" by (metis prod.exhaust)
  obtain hostname where e: "enrichSourceInfo dns host = (ip, hostname)" "user \<noteq> []"
    using assms(1) p by (auto simp: failure_from_def) (metis prod.collapse)
  have loop: "lg_loop (appendFailedEvent ok ev m) = lg_loop m" "lately ip (appendFailedEvent ok ev m) = lately ip m" for ev
    by (simp_all add: appendFailedEvent_def lately_def login_ReadHistory_def)
  note s = handleMessage_def p e assms(2) reset_eq loop Let_def
  show "fail_count counts' ip = (if lately ip m then 1 else fail_count counts ip + 1)"
    using assms(4) by (auto simp: s fail_count_def split: if_splits)
  show "login_ReadHistory m' = login_ReadHistory m" using assms(4) by (auto simp: s split: if_splits)
  show "length (lm_notes (lg_loop m')) =
      length (lm_notes (lg_loop m)) + (if alerts_at (lc_FailedLoginThreshold cfg) (fail_count counts' ip) then 1 else 0)"
    using assms(3,4) by (auto simp: s fail_count_def Notify_def skill_Save_def skill_SetKey_def split: if_splits)
qed

text \<open>\<open>clock n\<close> and \<open>ok n\<close>: the time of the message with \<open>n\<close> after it, and whether its record is written.\<close>

fun failures ::
    "resolver \<Rightarrow> escalation_io \<Rightarrow> formats \<Rightarrow> (nat \<Rightarrow> instant) \<Rightarrow> (nat \<Rightarrow> bool) \<Rightarrow> LoginMonitorSettings \<Rightarrow> string list \<Rightarrow>
      fail_counts \<times> login_mem \<Rightarrow> fail_counts \<times> login_mem" where
  "failures dns io fm clock ok cfg [] st = st"
| "failures dns io fm clock ok cfg (msg # msgs) st =
     failures dns io fm clock ok cfg msgs (handleMessage dns io fm (clock (length msgs)) (ok (length msgs)) cfg msg st)"

lemma failures_counted:
  assumes "list_all (failure_from dns ip) msgs" "ip \<noteq> []" "ei_note io" "0 < t" "lc_FailedLoginThreshold cfg = int t"
    and "\<not> lately ip m" "fail_count counts ip = int k"
    and "failures dns io fm clock ok cfg msgs (counts, m) = (counts', m')"
  shows "fail_count counts' ip = int (k + length msgs) \<and>
    length (lm_notes (lg_loop m')) + k div t = length (lm_notes (lg_loop m)) + (k + length msgs) div t"
  using assms
proof (induction msgs arbitrary: counts m k)
  case (Cons msg msgs)
  obtain c1 m1 where h: "handleMessage dns io fm (clock (length msgs)) (ok (length msgs)) cfg msg (counts, m) = (c1, m1)" by (metis prod.exhaust)
  note f = handle_failure [OF _ Cons.prems(2,3) h]
  have c: "fail_count c1 ip = int (Suc k)" "\<not> lately ip m1" using f Cons.prems(1,6,7) by (auto simp: lately_def)
  have n: "length (lm_notes (lg_loop m1)) = length (lm_notes (lg_loop m)) + (if t dvd Suc k then 1 else 0)"
    using f(3) c(1) Cons.prems(1,4,5) alerts_at_iff [of t "Suc k"] by simp
  have "length (lm_notes (lg_loop m')) + Suc k div t = length (lm_notes (lg_loop m1)) + (Suc k + length msgs) div t \<and>
      fail_count counts' ip = int (Suc k + length msgs)"
    using Cons.IH [OF _ Cons.prems(2-5) c(2,1)] Cons.prems(1,8) h by simp
  moreover have "Suc k div t = k div t + (if t dvd Suc k then 1 else 0)" by (auto simp: div_Suc dvd_eq_mod_eq_0)
  moreover have "k + length (msg # msgs) = Suc k + length msgs" by simp
  ultimately show ?case using n by (simp only:) (simp split: if_splits)
qed simp

text \<open>
  C28: repeated failures are noticed. With a threshold of \<open>t\<close> and no login from the address among the last hundred events of the history, after \<open>n\<close>
  failures from one address its counter is \<open>n\<close> and the operator has been notified \<open>n div t\<close> times: at the threshold and at each
  of its multiples.
\<close>

theorem brute_force_alerts:
  assumes "list_all (failure_from dns ip) msgs" "ip \<noteq> []" "ei_note io" "0 < t" "lc_FailedLoginThreshold cfg = int t"
    and "login_ReadHistory m = Inr h" "\<not> list_ex (\<lambda>e. le_EventType e = SessionLogin \<and> le_SourceIP e = ip) (drop (length h - 100) h)"
    and "failures dns io fm clock ok cfg msgs (Map.empty, m) = (counts', m')"
  shows "fail_count counts' ip = int (length msgs) \<and>
    length (lm_notes (lg_loop m')) = length (lm_notes (lg_loop m)) + length msgs div t"
  using failures_counted [OF assms(1-5) _ _ assms(8), of 0] assms(6,7) by (simp add: lately_def succeeded_lately_def fail_count_def)

definition demo_failure :: string where "demo_failure = ''Failed password for root from 10.9.9.9 port 22 ssh2''"

theorem brute_force_alerts_witness:
  "\<exists>counts m. failures demo_dns demo_io demo_stamps (\<lambda>_. 5) (\<lambda>_. True) (demo_cfg [] 3) (replicate 7 demo_failure) (Map.empty, demo_logins) = (counts, m) \<and>
     fail_count counts ''10.9.9.9'' = 7 \<and> length (lm_notes (lg_loop m)) = 2"
proof -
  obtain counts m where f: "failures demo_dns demo_io demo_stamps (\<lambda>_. 5) (\<lambda>_. True) (demo_cfg [] 3) (replicate 7 demo_failure) (Map.empty, demo_logins) = (counts, m)"
    by (metis prod.exhaust)
  have one: "failure_from demo_dns ''10.9.9.9'' demo_failure" by code_simp
  have all: "list_all (failure_from demo_dns ''10.9.9.9'') (replicate 7 demo_failure)" by (simp add: list_all_length one)
  have h: "login_ReadHistory demo_logins = Inr []" by (simp add: demo_logins_def login_ReadHistory_def read_attr_def)
  have t: "lc_FailedLoginThreshold (demo_cfg [] 3) = int 3" "ei_note demo_io" "lm_notes (lg_loop demo_logins) = []"
    by (simp_all add: demo_cfg_def demo_io_def demo_logins_def)
  from brute_force_alerts [OF all _ t(2) _ t(1) h _ f] show ?thesis using f t(3) by simp
qed

text \<open>
  A login among the last hundred events resets the counter at every failure, however old it is, and not only when it is newer than the last
  failure as documented: from an address that has logged in lately, no number of failures reaches a threshold above one.
\<close>

lemma recent_login_masks_failures:
  assumes "list_all (failure_from dns ip) msgs" "ip \<noteq> []" "ei_note io" "1 < lc_FailedLoginThreshold cfg" "lately ip m"
    and "failures dns io fm clock ok cfg msgs (counts, m) = (counts', m')"
  shows "length (lm_notes (lg_loop m')) = length (lm_notes (lg_loop m))"
  using assms
proof (induction msgs arbitrary: counts m)
  case (Cons msg msgs)
  obtain c1 m1 where h: "handleMessage dns io fm (clock (length msgs)) (ok (length msgs)) cfg msg (counts, m) = (c1, m1)" by (metis prod.exhaust)
  note f = handle_failure [OF _ Cons.prems(2,3) h]
  have c: "lately ip m1" "length (lm_notes (lg_loop m1)) = length (lm_notes (lg_loop m))"
    using f Cons.prems(1,4,5) by (auto simp: lately_def alerts_at_def)
  then show ?case using Cons.IH [OF _ Cons.prems(2-4) c(1)] Cons.prems(1,6) h by auto
qed simp

section \<open>Allowed sources\<close>

text \<open>An IPv4 network as an operator writes it, and an address.\<close>

type_synonym quad = "nat \<times> nat \<times> nat \<times> nat"

definition quad_ok :: "quad \<Rightarrow> bool" where
  "quad_ok q = (case q of (a, b, c, d) \<Rightarrow> a \<le> 255 \<and> b \<le> 255 \<and> c \<le> 255 \<and> d \<le> 255)"

definition quad_bytes :: "quad \<Rightarrow> ip" where
  "quad_bytes q = (case q of (a, b, c, d) \<Rightarrow> [a, b, c, d])"

definition quad_text :: "quad \<Rightarrow> string" where
  "quad_text q = (case q of (a, b, c, d) \<Rightarrow> show_v4 a b c d)"

definition network_text :: "quad \<times> nat \<Rightarrow> string" where
  "network_text net = quad_text (fst net) @ ''/'' @ digits_of (snd net)"

lemma allowed_network:
  assumes "quad_ok (fst net)" "snd net \<le> 32" "quad_ok q"
  shows "allowed_source ev (ParseIP (quad_text q)) (network_text net) \<longleftrightarrow> same_prefix (snd net) (quad_bytes (fst net)) (quad_bytes q)"
proof -
  obtain a b c d n where net: "net = ((a, b, c, d), n)" by (metis prod.exhaust)
  obtain w x y z where q: "q = (w, x, y, z)" by (metis prod.exhaust)
  have "is_bytes [a, b, c, d]" "is_bytes [w, x, y, z]" using assms by (simp_all add: net q quad_ok_def is_bytes_def)
  then show ?thesis
    using assms ParseIP_show [of w x y z] ParseCIDR_show [of a b c d n] Contains_v4 [of "[a, b, c, d]" "[w, x, y, z]" n]
    by (simp add: allowed_source_def network_text_def quad_text_def quad_bytes_def net q quad_ok_def)
qed

text \<open>
  A login from outside the allowed networks is reported, and only such a one. When the allowed sources are IPv4 networks, a remote
  login from an IPv4 address is unusual exactly when the address agrees with none of them in its leading bits; then the
  operator is notified and the skill state becomes critical, and otherwise nothing changes.
\<close>

theorem unusual_source_reported:
  assumes "le_Remote ev" "le_SourceIP ev = quad_text q" "quad_ok q" "lc_AllowedSources cfg = map network_text nets" "nets \<noteq> []"
    and "list_all (\<lambda>net. quad_ok (fst net) \<and> snd net \<le> 32) nets" "ei_note io" "ei_state io"
    and "m' = checkUnusualSource io fm now cfg ev m"
  shows "if list_ex (\<lambda>net. same_prefix (snd net) (quad_bytes (fst net)) (quad_bytes q)) nets then m' = m
    else length (lm_notes (lg_loop m')) = Suc (length (lm_notes (lg_loop m))) \<and>
      map_option (sk_Health \<circ> dec_skill) (lm_states (lg_loop m') (keyPrefix @ ''check_interactive_logins'')) = Some ''critical''"
proof -
  have some: "quad_text q \<noteq> []" by (cases q) (simp add: quad_text_def show_v4_def)
  then have c: "source_candidate ev = quad_text q" using assms(2) by (simp add: source_candidate_def)
  have "list_ex (allowed_source ev (ParseIP (quad_text q))) (map network_text nets) \<longleftrightarrow>
      list_ex (\<lambda>net. same_prefix (snd net) (quad_bytes (fst net)) (quad_bytes q)) nets"
    using assms(6) allowed_network [OF _ _ assms(3)] by (auto simp: list_ex_iff list_all_iff)
  then have u: "unusual_source cfg ev \<longleftrightarrow> \<not> list_ex (\<lambda>net. same_prefix (snd net) (quad_bytes (fst net)) (quad_bytes q)) nets"
    using assms(1,4,5) some by (simp add: unusual_source_def c)
  have j: "as_json ''critical'' = ''critical''" by code_simp
  show ?thesis using assms(7-9) by (simp add: checkUnusualSource_def u Let_def Notify_def skill_Save_def skill_SetKey_def dec_skill_def j)
qed

theorem unusual_source_reported_witness:
  "\<exists>m'. m' = checkUnusualSource demo_io demo_stamps 5 (demo_cfg [network_text ((10, 0, 0, 0), 8), network_text ((192, 168, 4, 0), 22)] 3)
        ((blank_login SessionLogin ''c1'' ''ann'' 5)\<lparr>le_Remote := True, le_SourceIP := quad_text (192, 168, 8, 1)\<rparr>) demo_logins \<and>
     network_text ((192, 168, 4, 0), 22) = ''192.168.4.0/22'' \<and> length (lm_notes (lg_loop m')) = 1"
proof -
  let ?ev = "(blank_login SessionLogin ''c1'' ''ann'' 5)\<lparr>le_Remote := True, le_SourceIP := quad_text (192, 168, 8, 1)\<rparr>"
  let ?nets = "[((10, 0, 0, 0), 8), ((192, 168, 4, 0), 22)] :: (quad \<times> nat) list"
  let ?cfg = "demo_cfg [network_text ((10, 0, 0, 0), 8), network_text ((192, 168, 4, 0), 22)] 3"
  have ev: "le_Remote ?ev" "le_SourceIP ?ev = quad_text (192, 168, 8, 1)" "quad_ok (192, 168, 8, 1)" by (simp_all add: quad_ok_def)
  have cfg: "lc_AllowedSources ?cfg = map network_text ?nets" by (simp add: demo_cfg_def)
  have nets: "list_all (\<lambda>net. quad_ok (fst net) \<and> snd net \<le> 32) ?nets" "?nets \<noteq> []" by (simp_all add: quad_ok_def)
  have io: "ei_note demo_io" "ei_state demo_io" "lm_notes (lg_loop demo_logins) = []" by (simp_all add: demo_io_def demo_logins_def)
  have "\<not> list_ex (\<lambda>net. same_prefix (snd net) (quad_bytes (fst net)) (quad_bytes (192, 168, 8, 1))) ?nets"
    by (simp add: same_prefix_def quad_bytes_def)
  then have "length (lm_notes (lg_loop (checkUnusualSource demo_io demo_stamps 5 ?cfg ?ev demo_logins))) = 1"
    using unusual_source_reported [OF ev cfg nets(2,1) io(1,2) refl, of demo_stamps 5 demo_logins] io(3) by simp
  moreover have "network_text ((192, 168, 4, 0), 22) = ''192.168.4.0/22''" by code_simp
  ultimately show ?thesis by blast
qed

section \<open>What the baseline flags\<close>

text \<open>A login is flagged for the first reason that applies, and once it is recorded a login like it is not flagged again.\<close>

lemma login_reason:
  "map_option dv_reason (login_deviation quote cfg prior ev) =
    (if \<not> list_ex (\<lambda>h. le_Username h = le_Username ev \<and> login_opens h) prior then Some ''new_user''
     else if \<not> list_ex (\<lambda>h. le_Username h = le_Username ev \<and> login_opens h \<and> sourceIdentity h = sourceIdentity ev) prior then Some ''new_source''
     else if int (length (prior_logins (le_Username ev) prior)) \<ge> (if lc_BaselineMinEvents cfg \<le> 0 then 5 else lc_BaselineMinEvents cfg) \<and>
        \<not> list_ex (\<lambda>h. le_Username h = le_Username ev \<and> login_opens h \<and> hour_bucket h = hour_bucket ev) prior then Some ''unusual_time''
     else None)"
proof -
  have k: "prior_logins (le_Username ev) prior = [] \<longleftrightarrow> \<not> list_ex (\<lambda>h. le_Username h = le_Username ev \<and> login_opens h) prior"
    "sourceIdentity ev \<in> set (map sourceIdentity (prior_logins (le_Username ev) prior)) \<longleftrightarrow>
      list_ex (\<lambda>h. le_Username h = le_Username ev \<and> login_opens h \<and> sourceIdentity h = sourceIdentity ev) prior"
    "hour_bucket ev \<in> set (map hour_bucket (prior_logins (le_Username ev) prior)) \<longleftrightarrow>
      list_ex (\<lambda>h. le_Username h = le_Username ev \<and> login_opens h \<and> hour_bucket h = hour_bucket ev) prior"
    by (auto simp: prior_logins_def list_ex_iff filter_empty_conv image_iff)
  show ?thesis unfolding login_deviation_def Let_def k baselineDefaultMinEvents_def by simp
qed

lemma login_flagged_once:
  assumes "ev \<in> set prior" "login_opens ev" "le_Username ev2 = le_Username ev" "sourceIdentity ev2 = sourceIdentity ev" "hour_bucket ev2 = hour_bucket ev"
  shows "login_deviation quote cfg prior ev2 = None"
  using login_reason [of quote cfg prior ev2] assms by (auto simp: list_ex_iff split: if_splits)

end
