(* ===== verification/Posture.thy ===== *)
theory Posture
  imports Patch_Info Scheduler
begin

text \<open>
  The security posture of a host, package \<open>check_security_posture\<close>: the parsers of the Unix gatherer, the comparison of two snapshots, the
  classification of listening ports against a baseline profile, and the tool. Commands and files of the host are arguments, and so is
  \<open>sha256\<close>, the hexadecimal digest. The rows of the baseline file are those \<open>encoding/csv\<close> reads.
\<close>

section \<open>Snapshots\<close>

record PostureSnapshot =
  sn_ListeningPorts :: "string list"
  sn_Users :: "string list"
  sn_AdminUsers :: "string list"
  sn_SudoersHash :: string
  sn_AuthorizedKeys :: "(string \<times> string) list"      \<comment> \<open>a map, by user\<close>
  sn_SetuidBinaries :: "string list"
  sn_Errors :: "string list"

record PostureDiff =
  df_AddedPorts :: "string list"
  df_RemovedPorts :: "string list"
  df_AddedUsers :: "string list"
  df_RemovedUsers :: "string list"
  df_AddedAdmins :: "string list"
  df_RemovedAdmins :: "string list"
  df_SudoersChanged :: bool
  df_ChangedAuthorizedKeys :: "string list"
  df_AddedSetuid :: "string list"
  df_RemovedSetuid :: "string list"

definition diff_lists :: "PostureDiff \<Rightarrow> string list list" where
  "diff_lists d = [df_AddedPorts d, df_RemovedPorts d, df_AddedUsers d, df_RemovedUsers d, df_AddedAdmins d, df_RemovedAdmins d,
     df_ChangedAuthorizedKeys d, df_AddedSetuid d, df_RemovedSetuid d]"

definition Diff_Empty :: "PostureDiff \<Rightarrow> bool" where
  "Diff_Empty d \<longleftrightarrow> list_all (\<lambda>l. l = []) (diff_lists d) \<and> \<not> df_SudoersChanged d"

definition sort_strings :: "string list \<Rightarrow> string list" where
  "sort_strings = sort_by str_less"

definition diffLists :: "string list \<Rightarrow> string list \<Rightarrow> string list \<times> string list" where
  "diffLists prev cur =
     (sort_strings (filter (\<lambda>s. s \<notin> set prev) cur), sort_strings (filter (\<lambda>s. s \<notin> set cur) prev))"

definition key_of :: "PostureSnapshot \<Rightarrow> string \<Rightarrow> string" where
  "key_of s u = (case map_of (sn_AuthorizedKeys s) u of None \<Rightarrow> [] | Some fp \<Rightarrow> fp)"

text \<open>The users of both maps are walked in some order and the result is sorted, so any order gives the same.\<close>

definition DiffSnapshots :: "PostureSnapshot \<Rightarrow> PostureSnapshot \<Rightarrow> PostureDiff" where
  "DiffSnapshots prev cur =
     (let (ap, rp) = diffLists (sn_ListeningPorts prev) (sn_ListeningPorts cur);
          (au, ru) = diffLists (sn_Users prev) (sn_Users cur);
          (aa, ra) = diffLists (sn_AdminUsers prev) (sn_AdminUsers cur);
          (as, rs) = diffLists (sn_SetuidBinaries prev) (sn_SetuidBinaries cur);
          users = remdups (map fst (sn_AuthorizedKeys prev) @ map fst (sn_AuthorizedKeys cur))
      in \<lparr>df_AddedPorts = ap, df_RemovedPorts = rp, df_AddedUsers = au, df_RemovedUsers = ru, df_AddedAdmins = aa, df_RemovedAdmins = ra,
          df_SudoersChanged = (sn_SudoersHash prev \<noteq> sn_SudoersHash cur),
          df_ChangedAuthorizedKeys = sort_strings (filter (\<lambda>u. key_of prev u \<noteq> key_of cur u) users),
          df_AddedSetuid = as, df_RemovedSetuid = rs\<rparr>)"

section \<open>Gathering\<close>

definition nonLoginShells :: "string list" where
  "nonLoginShells = [''nologin'', ''false'', ''sync'', ''shutdown'', ''halt'']"

definition adminGroups :: "string list" where
  "adminGroups = [''sudo'', ''wheel'', ''admin'']"

definition ssProcessRe :: "citem list" where
  "ssProcessRe = [Plain (lits (''users:(('' @ [CHR 0x22])), Group (rplus (Cls True [(34, 34)])), Plain (rx (CHR 0x22))]"

definition listen_entry :: "string \<Rightarrow> string option" where
  "listen_entry line =
     (case Fields line of
        proto # f1 # f2 # f3 # local # _ \<Rightarrow>
          Some (proto @ '' '' @ local @ (case FindStringSubmatch ssProcessRe line of Some [p] \<Rightarrow> '' ('' @ p @ '')'' | _ \<Rightarrow> []))
      | _ \<Rightarrow> None)"

definition lsof_entry :: "string \<Rightarrow> string option" where
  "lsof_entry line =
     (let fs = Fields line in
      if length fs < 9 \<or> fs ! 0 = ''COMMAND'' then None else Some (''tcp '' @ fs ! 8 @ '' ('' @ fs ! 0 @ '')''))"

definition unique_entries :: "string list \<Rightarrow> string list" where
  "unique_entries xs = fold add_new xs []"

definition posture_parseSS :: "string \<Rightarrow> string list" where
  "posture_parseSS out = unique_entries (List.map_filter listen_entry (split_lines out))"

definition parseLsof :: "string \<Rightarrow> string list" where
  "parseLsof out = unique_entries (List.map_filter lsof_entry (split_lines out))"

definition listeningPorts :: "string + string \<Rightarrow> string + string \<Rightarrow> string + string list" where
  "listeningPorts ss lsof =
     (case ss of
        Inr out \<Rightarrow> Inr (posture_parseSS out)
      | Inl _ \<Rightarrow> (case lsof of
                   Inl e \<Rightarrow> Inl (''neither ss nor lsof usable: '' @ e)
                 | Inr out \<Rightarrow> Inr (parseLsof out)))"

text \<open>\<open>filepath.Base\<close> of a path that is not empty.\<close>

definition base_name :: "string \<Rightarrow> string" where
  "base_name p =
     (let p' = rev (dropWhile (\<lambda>c. c = CHR ''/'') (rev p)) in
      if p = [] then ''.'' else if p' = [] then ''/''
      else (case last_index_byte (CHR ''/'') p' of None \<Rightarrow> p' | Some i \<Rightarrow> drop (i + 1) p'))"

record passwd =
  pw_users :: "string list"
  pw_uidZero :: "string list"
  pw_homes :: "(string \<times> string) list"      \<comment> \<open>a map, later entries first\<close>

definition passwd_line :: "string \<Rightarrow> passwd \<Rightarrow> passwd" where
  "passwd_line line p =
     (let parts = split_byte (CHR '':'') line in
      if length parts < 7 \<or> HasPrefix (parts ! 0) ''#'' then p
      else
        let name = parts ! 0; uid = parts ! 2; home = parts ! 5; shell = parts ! 6;
            p = (if uid = ''0'' then p\<lparr>pw_uidZero := pw_uidZero p @ [name]\<rparr> else p)
        in if base_name shell \<in> set nonLoginShells \<or> shell = [] then p
           else
             let p = p\<lparr>pw_users := pw_users p @ [name @ '' (uid '' @ uid @ '')'']\<rparr>
             in if home \<noteq> [] \<and> home \<noteq> ''/'' then p\<lparr>pw_homes := (name, home) # pw_homes p\<rparr> else p)"

definition passwdUsers :: "string + string \<Rightarrow> string + passwd" where
  "passwdUsers file =
     (case file of
        Inl e \<Rightarrow> Inl e
      | Inr data \<Rightarrow> Inr (fold passwd_line (split_lines data) \<lparr>pw_users = [], pw_uidZero = [], pw_homes = []\<rparr>))"

definition group_members :: "string \<Rightarrow> string list" where
  "group_members line =
     (let parts = split_byte (CHR '':'') line in
      if length parts < 4 \<or> parts ! 0 \<notin> set adminGroups then []
      else filter (\<lambda>m. m \<noteq> []) (map TrimSpace (split_byte (CHR '','') (parts ! 3))))"

definition setToList :: "string list \<Rightarrow> string list" where
  "setToList xs = sort_strings (remdups xs)"

text \<open>The list, and the error of reading \<open>/etc/group\<close>.\<close>

definition adminUsers :: "string + string \<Rightarrow> string list \<Rightarrow> string list \<times> string option" where
  "adminUsers file uidZero =
     (case file of
        Inl e \<Rightarrow> (setToList uidZero, Some e)
      | Inr data \<Rightarrow> (setToList (uidZero @ concat (map group_members (split_lines data))), None))"

text \<open>A file: readable, known only by its times and size, or absent.\<close>

datatype host_file = Readable string | StatOnly int int | Absent

definition fingerprintFile :: "(string \<Rightarrow> string) \<Rightarrow> host_file \<Rightarrow> string" where
  "fingerprintFile sha256 f =
     (case f of
        Readable c \<Rightarrow> take 23 (''sha256:'' @ sha256 c)
      | StatOnly mtime sz \<Rightarrow> ''meta:'' @ show_int mtime @ '':'' @ show_int sz
      | Absent \<Rightarrow> [])"

definition sudoersFingerprint :: "(string \<Rightarrow> string) \<Rightarrow> (string \<times> host_file) list \<Rightarrow> string" where
  "sudoersFingerprint sha256 files =
     (let fps = filter (\<lambda>(p, fp). fp \<noteq> []) (map (\<lambda>(p, f). (p, fingerprintFile sha256 f)) files) in
      if fps = [] then [] else take 16 (sha256 (concat (map (\<lambda>(p, fp). p @ ''='' @ fp @ nl) fps))))"

text \<open>\<open>homes\<close> is the map of homes; \<open>keysFile\<close> the authorized keys under a home.\<close>

definition authorizedKeysFingerprints :: "(string \<Rightarrow> string) \<Rightarrow> (string \<Rightarrow> host_file) \<Rightarrow> (string \<times> string) list \<Rightarrow> (string \<times> string) list" where
  "authorizedKeysFingerprints sha256 keysFile homes =
     filter (\<lambda>(u, fp). fp \<noteq> []) (map (\<lambda>u. (u, fingerprintFile sha256 (keysFile (the (map_of homes u))))) (remdups (map fst homes)))"

text \<open>\<open>resolve\<close>: the directory behind a path, if any; \<open>walk\<close>: the files under it with their setuid or setgid bit.\<close>

definition setuidSearchDirs :: "string list" where
  "setuidSearchDirs = [''/usr/bin'', ''/usr/sbin'', ''/bin'', ''/sbin'', ''/usr/local/bin'', ''/usr/local/sbin'', ''/usr/libexec'', ''/usr/lib/openssh'',
     ''/opt/bin'']"

definition setuidBinaries :: "(string \<Rightarrow> string option) \<Rightarrow> (string \<Rightarrow> (string \<times> bool) list) \<Rightarrow> string list" where
  "setuidBinaries resolve walk =
     (let dirs = fold add_new (List.map_filter resolve setuidSearchDirs) []
      in fold add_new (concat (map (\<lambda>d. map fst (filter snd (walk d))) dirs)) [])"

record host_view =
  hv_ss :: "string + string"
  hv_lsof :: "string + string"
  hv_passwd :: "string + string"
  hv_group :: "string + string"
  hv_sudoers :: "(string \<times> host_file) list"
  hv_keysFile :: "string \<Rightarrow> host_file"
  hv_resolve :: "string \<Rightarrow> string option"
  hv_walk :: "string \<Rightarrow> (string \<times> bool) list"

definition gather :: "(string \<Rightarrow> string) \<Rightarrow> host_view \<Rightarrow> PostureSnapshot" where
  "gather sha256 v =
     (let ports = listeningPorts (hv_ss v) (hv_lsof v);
          users = passwdUsers (hv_passwd v);
          uidZero = (case users of Inl _ \<Rightarrow> [] | Inr p \<Rightarrow> pw_uidZero p);
          homes = (case users of Inl _ \<Rightarrow> [] | Inr p \<Rightarrow> pw_homes p);
          (admins, aerr) = adminUsers (hv_group v) uidZero
      in \<lparr>sn_ListeningPorts = sort_strings (case ports of Inl _ \<Rightarrow> [] | Inr ps \<Rightarrow> ps),
          sn_Users = sort_strings (case users of Inl _ \<Rightarrow> [] | Inr p \<Rightarrow> pw_users p),
          sn_AdminUsers = sort_strings admins,
          sn_SudoersHash = sudoersFingerprint sha256 (hv_sudoers v),
          sn_AuthorizedKeys = authorizedKeysFingerprints sha256 (hv_keysFile v) homes,
          sn_SetuidBinaries = sort_strings (setuidBinaries (hv_resolve v) (hv_walk v)),
          sn_Errors = (case ports of Inl e \<Rightarrow> [''listening ports: '' @ e] | Inr _ \<Rightarrow> []) @ (case users of Inl e \<Rightarrow> [''users: '' @ e] | Inr _ \<Rightarrow> []) @
            (case aerr of Some e \<Rightarrow> [''admin users: '' @ e] | None \<Rightarrow> [])\<rparr>)"

section \<open>Ports beyond the baseline\<close>

record BaselinePortEntry =
  bp_Port :: int
  bp_Protocol :: string
  bp_Severity :: string
  bp_Description :: string

text \<open>A row of \<open>baseline_ports.csv\<close>; other rows are skipped.\<close>

definition baseline_row :: "string list \<Rightarrow> BaselinePortEntry option" where
  "baseline_row row =
     (if row \<noteq> [] \<and> EqualFold (TrimSpace (hd row)) ''port'' then None
      else if length row < 4 then None
      else (case parse_int64 (TrimSpace (row ! 0)) of
              None \<Rightarrow> None
            | Some port \<Rightarrow> Some \<lparr>bp_Port = port, bp_Protocol = ToLower (TrimSpace (row ! 1)), bp_Severity = ToLower (TrimSpace (row ! 2)),
                             bp_Description = TrimSpace (row ! 3)\<rparr>))"

datatype 'a csv_file = CsvMissing | CsvError string | CsvRows 'a

definition loadBaselinePorts :: "string list list csv_file \<Rightarrow> string + BaselinePortEntry list" where
  "loadBaselinePorts file =
     (case file of CsvMissing \<Rightarrow> Inr [] | CsvError e \<Rightarrow> Inl e | CsvRows rows \<Rightarrow> Inr (List.map_filter baseline_row rows))"

definition portEntryRe :: "citem list" where
  "portEntryRe = [Plain Bot, Group (Alt (lits ''tcp'') (lits ''udp'')), Plain (rplus sp), Group (rplus nonsp),
     Optional [Plain (seqs [rplus sp, rx (CHR ''('')]), Group (rstar (Cls True [(41, 41)])), Plain (rx (CHR '')''))], Plain Eot]"

definition portFromAddr :: "string \<Rightarrow> int option" where
  "portFromAddr addr = (case last_index_byte (CHR '':'') addr of None \<Rightarrow> None | Some i \<Rightarrow> parse_int64 (drop (i + 1) addr))"

definition port_id :: "string \<Rightarrow> int \<Rightarrow> string" where
  "port_id proto port = proto @ '':'' @ show_int port"

definition defaultUnclassifiedSeverity :: string where "defaultUnclassifiedSeverity = ''warning''"

text \<open>A missing key of the Go map reads as 0.\<close>

definition severityRank :: "string \<Rightarrow> nat" where
  "severityRank s = (if s = ''warning'' then 1 else if s = ''info'' then 2 else 0)"

record portFinding =
  pf_Entry :: string
  pf_Severity :: string
  pf_Description :: string

definition lookup_port :: "BaselinePortEntry list \<Rightarrow> string \<Rightarrow> BaselinePortEntry option" where
  "lookup_port baseline k = find_first (\<lambda>b. port_id (bp_Protocol b) (bp_Port b) = k) (rev baseline)"

text \<open>The protocol and port of a formatted entry.\<close>

definition entry_port :: "string \<Rightarrow> string option" where
  "entry_port entry =
     (case FindStringSubmatch portEntryRe entry of
        Some (proto # addr # _) \<Rightarrow> map_option (port_id proto) (portFromAddr addr)
      | _ \<Rightarrow> None)"

definition classify_entry :: "BaselinePortEntry list \<Rightarrow> string \<Rightarrow> portFinding option" where
  "classify_entry baseline entry =
     (case entry_port entry of
        None \<Rightarrow> None
      | Some k \<Rightarrow>
          (case lookup_port baseline k of
             Some b \<Rightarrow>
               if bp_Severity b = ''baseline'' then None
               else Some \<lparr>pf_Entry = entry, pf_Severity = bp_Severity b, pf_Description = bp_Description b\<rparr>
           | None \<Rightarrow> Some \<lparr>pf_Entry = entry, pf_Severity = defaultUnclassifiedSeverity, pf_Description = ''not in baseline profile''\<rparr>))"

definition finding_before :: "portFinding \<Rightarrow> portFinding \<Rightarrow> bool" where
  "finding_before a b \<longleftrightarrow>
     (if severityRank (pf_Severity a) \<noteq> severityRank (pf_Severity b) then severityRank (pf_Severity a) < severityRank (pf_Severity b)
      else str_less (pf_Entry a) (pf_Entry b))"

definition classifyPorts :: "string list \<Rightarrow> BaselinePortEntry list \<Rightarrow> portFinding list" where
  "classifyPorts entries baseline =
     (if baseline = [] then [] else sort_by finding_before (List.map_filter (classify_entry baseline) entries))"

definition has_finding :: "string \<Rightarrow> portFinding list \<Rightarrow> bool" where
  "has_finding severity fs = list_ex (\<lambda>f. pf_Severity f = severity) fs"

section \<open>The report\<close>

definition maxListedChanges :: nat where "maxListedChanges = 40"
definition maxSummaryItems :: nat where "maxSummaryItems = 10"

text \<open>Up to forty lines and the number of the rest.\<close>

definition listed_lines :: "string list \<Rightarrow> string" where
  "listed_lines items =
     concat (map (\<lambda>it. ''  '' @ it @ nl) (take maxListedChanges items)) @
     (if length items > maxListedChanges then ''  '' @ ellipsis @ '' and '' @ show_nat (length items - maxListedChanges) @ '' more'' @ nl else [])"

definition writeChangeList :: "string \<Rightarrow> string list \<Rightarrow> string" where
  "writeChangeList label items = (if items = [] then [] else label @ '' ('' @ show_nat (length items) @ ''):'' @ nl @ listed_lines items)"

definition writeDiffSection :: "PostureDiff \<Rightarrow> string" where
  "writeDiffSection d = ''=== Changes Since Last Check ==='' @ nl @
     (if Diff_Empty d then ''No changes detected.'' @ nl
      else writeChangeList ''New listening ports'' (df_AddedPorts d) @ writeChangeList ''Removed listening ports'' (df_RemovedPorts d) @
        writeChangeList ''New users'' (df_AddedUsers d) @ writeChangeList ''Removed users'' (df_RemovedUsers d) @
        writeChangeList ''New admin users'' (df_AddedAdmins d) @ writeChangeList ''Removed admin users'' (df_RemovedAdmins d) @
        (if df_SudoersChanged d then ''Sudoers configuration CHANGED (fingerprint differs from last check)'' @ nl else []) @
        writeChangeList ''authorized_keys changed for'' (df_ChangedAuthorizedKeys d) @
        writeChangeList ''New setuid binaries'' (df_AddedSetuid d) @ writeChangeList ''Removed setuid binaries'' (df_RemovedSetuid d))"

definition writeCurrentSection :: "PostureSnapshot \<Rightarrow> string" where
  "writeCurrentSection s =
     (let users = sort_strings (map fst (sn_AuthorizedKeys s)) in
      nl @ ''=== Current Posture ==='' @ nl @
      ''Listening ports ('' @ show_nat (length (sn_ListeningPorts s)) @ ''):'' @ nl @ listed_lines (sn_ListeningPorts s) @
      ''Login-capable users ('' @ show_nat (length (sn_Users s)) @ ''): '' @ Join (sn_Users s) '', '' @ nl @
      ''Admin users ('' @ show_nat (length (sn_AdminUsers s)) @ ''): '' @ Join (sn_AdminUsers s) '', '' @ nl @
      (if sn_SudoersHash s \<noteq> [] then ''Sudoers fingerprint: '' @ sn_SudoersHash s @ nl else []) @
      (if users \<noteq> [] then ''Users with authorized_keys ('' @ show_nat (length users) @ ''): '' @ Join users '', '' @ nl else []) @
      ''Setuid/setgid binaries ('' @ show_nat (length (sn_SetuidBinaries s)) @ '')'' @ nl @
      (if sn_Errors s \<noteq> [] then nl @ ''Gathering limitations (snapshot is partial):'' @ nl @ concat (map (\<lambda>e. ''  '' @ e @ nl) (sn_Errors s)) else []))"

definition writePortFindingsSection :: "portFinding list \<Rightarrow> string" where
  "writePortFindingsSection fs =
     (if fs = [] then []
      else nl @ ''=== Ports Beyond Baseline Profile ==='' @ nl @
        listed_lines (map (\<lambda>f. ''['' @ ToUpper (pf_Severity f) @ ''] '' @ pf_Entry f @ dash @ pf_Description f) fs))"

definition summarizePortFindings :: "portFinding list \<Rightarrow> string" where
  "summarizePortFindings fs =
     Join (List.map_filter (\<lambda>sev. let n = length (filter (\<lambda>f. pf_Severity f = sev) fs) in if n > 0 then Some (show_nat n @ '' '' @ sev) else None)
       [''critical'', ''warning'', ''info'']) '', ''"

definition change_part :: "string \<Rightarrow> string list \<Rightarrow> string list" where
  "change_part label items =
     (if items = [] then []
      else [label @ '': '' @ Join (take maxSummaryItems items) '', '' @
        (if length items > maxSummaryItems then '', +'' @ show_nat (length items - maxSummaryItems) @ '' more'' else [])])"

definition summarizeChanges :: "PostureDiff \<Rightarrow> string" where
  "summarizeChanges d =
     Join (change_part ''new ports'' (df_AddedPorts d) @ change_part ''removed ports'' (df_RemovedPorts d) @ change_part ''new users'' (df_AddedUsers d) @
       change_part ''removed users'' (df_RemovedUsers d) @ change_part ''new admins'' (df_AddedAdmins d) @ change_part ''removed admins'' (df_RemovedAdmins d) @
       (if df_SudoersChanged d then [''sudoers changed''] else []) @ change_part ''authorized_keys changed for'' (df_ChangedAuthorizedKeys d) @
       change_part ''new setuid'' (df_AddedSetuid d) @ change_part ''removed setuid'' (df_RemovedSetuid d)) ''; ''"

definition stateSummary :: "PostureSnapshot \<Rightarrow> PostureDiff option \<Rightarrow> portFinding list \<Rightarrow> string" where
  "stateSummary s diff fs =
     show_nat (length (sn_ListeningPorts s)) @ '' listening ports, '' @ show_nat (length (sn_Users s)) @ '' users, '' @
     show_nat (length (sn_AdminUsers s)) @ '' admins, '' @ show_nat (length (sn_SetuidBinaries s)) @ '' setuid binaries'' @
     (case diff of
        None \<Rightarrow> ''; baseline established''
      | Some d \<Rightarrow>
          if Diff_Empty d then ''; no changes since last check''
          else ''; '' @ show_nat (sum_list (map length (diff_lists d)) + (if df_SudoersChanged d then 1 else 0)) @
            '' posture change(s) since last check: '' @ summarizeChanges d) @
     (if fs \<noteq> [] then ''; '' @ show_nat (length fs) @ '' port(s) beyond baseline profile: '' @ summarizePortFindings fs else [])"

definition posture_health :: "PostureDiff option \<Rightarrow> portFinding list \<Rightarrow> string" where
  "posture_health diff fs =
     (let h = (case diff of Some d \<Rightarrow> if Diff_Empty d then ''ok'' else ''warning'' | None \<Rightarrow> ''ok'');
          h = (if has_finding ''warning'' fs then ''warning'' else h)
      in if has_finding ''critical'' fs then ''critical'' else h)"

text \<open>A snapshot after a round trip through its JSON text.\<close>

definition snapshot_json :: "PostureSnapshot \<Rightarrow> PostureSnapshot" where
  "snapshot_json s = s\<lparr>sn_ListeningPorts := map as_json (sn_ListeningPorts s), sn_Users := map as_json (sn_Users s),
     sn_AdminUsers := map as_json (sn_AdminUsers s), sn_SudoersHash := as_json (sn_SudoersHash s),
     sn_AuthorizedKeys := map (\<lambda>(u, fp). (as_json u, as_json fp)) (sn_AuthorizedKeys s),
     sn_SetuidBinaries := map as_json (sn_SetuidBinaries s), sn_Errors := map as_json (sn_Errors s)\<rparr>"

text \<open>
  The tool: the stored snapshot is the current one of the domain (\<open>None\<close> when it cannot be read), \<open>written\<close> the outcome of the write, and the
  rest of memory that of the skill states.
\<close>

definition posture_tool ::
    "PostureSnapshot \<Rightarrow> string + unit \<Rightarrow> bool \<Rightarrow> (instant \<Rightarrow> string) \<Rightarrow> instant \<Rightarrow> BaselinePortEntry list \<Rightarrow> PostureSnapshot option \<times> loop_mem \<Rightarrow>
      string \<times> PostureSnapshot option \<times> loop_mem" where
  "posture_tool gathered written ok fmt now baseline st =
     (case st of (prev, lm) \<Rightarrow>
       let cur = (case written of Inl e \<Rightarrow> gathered\<lparr>sn_Errors := sn_Errors gathered @ [''snapshot not persisted: '' @ e]\<rparr> | Inr _ \<Rightarrow> gathered);
           fs = classifyPorts (sn_ListeningPorts cur) baseline;
           diff = map_option (\<lambda>p. DiffSnapshots p cur) prev;
           report = (case diff of
                       Some d \<Rightarrow> writeDiffSection d
                     | None \<Rightarrow> ''=== Changes Since Last Check ==='' @ nl @ ''No previous snapshot'' @ dash @ ''this run establishes the baseline.'' @ nl) @
             writeCurrentSection cur @ writePortFindingsSection fs
       in (report, (case written of Inl _ \<Rightarrow> prev | Inr _ \<Rightarrow> Some (snapshot_json gathered)),
           the (skill_Save ok fmt now ''check_security_posture'' (posture_health diff fs) (stateSummary cur diff fs) (Some lm))))"

section \<open>What a comparison shows\<close>

lemma set_diffLists:
  "set (fst (diffLists prev cur)) = set cur - set prev" "set (snd (diffLists prev cur)) = set prev - set cur"
  by (auto simp: diffLists_def sort_strings_def)

lemma diffLists_Nil:
  "fst (diffLists prev cur) = [] \<and> snd (diffLists prev cur) = [] \<longleftrightarrow> set prev = set cur"
  using set_diffLists [of prev cur] by (metis Diff_eq_empty_iff empty_set set_empty subset_antisym order_refl)

lemma key_of_other: "u \<notin> fst ` set (sn_AuthorizedKeys s) \<Longrightarrow> key_of s u = []"
  by (simp add: key_of_def map_of_eq_None_iff [THEN iffD2])

lemma set_changed_keys: "set (df_ChangedAuthorizedKeys (DiffSnapshots prev cur)) = {u. key_of prev u \<noteq> key_of cur u}"
proof -
  have "key_of prev u \<noteq> key_of cur u \<Longrightarrow> u \<in> fst ` set (sn_AuthorizedKeys prev) \<union> fst ` set (sn_AuthorizedKeys cur)" for u
    using key_of_other by (metis UnCI)
  then show ?thesis by (auto simp: DiffSnapshots_def sort_strings_def split: prod.split)
qed

definition same_posture :: "PostureSnapshot \<Rightarrow> PostureSnapshot \<Rightarrow> bool" where
  "same_posture a b \<longleftrightarrow> set (sn_ListeningPorts a) = set (sn_ListeningPorts b) \<and> set (sn_Users a) = set (sn_Users b) \<and>
     set (sn_AdminUsers a) = set (sn_AdminUsers b) \<and> set (sn_SetuidBinaries a) = set (sn_SetuidBinaries b) \<and>
     sn_SudoersHash a = sn_SudoersHash b \<and> (\<forall>u. key_of a u = key_of b u)"

lemma Diff_Empty_iff: "Diff_Empty (DiffSnapshots prev cur) \<longleftrightarrow> same_posture prev cur"
proof -
  let ?d = "DiffSnapshots prev cur"
  have d: "df_AddedPorts ?d = fst (diffLists (sn_ListeningPorts prev) (sn_ListeningPorts cur))"
    "df_RemovedPorts ?d = snd (diffLists (sn_ListeningPorts prev) (sn_ListeningPorts cur))"
    "df_AddedUsers ?d = fst (diffLists (sn_Users prev) (sn_Users cur))" "df_RemovedUsers ?d = snd (diffLists (sn_Users prev) (sn_Users cur))"
    "df_AddedAdmins ?d = fst (diffLists (sn_AdminUsers prev) (sn_AdminUsers cur))"
    "df_RemovedAdmins ?d = snd (diffLists (sn_AdminUsers prev) (sn_AdminUsers cur))"
    "df_AddedSetuid ?d = fst (diffLists (sn_SetuidBinaries prev) (sn_SetuidBinaries cur))"
    "df_RemovedSetuid ?d = snd (diffLists (sn_SetuidBinaries prev) (sn_SetuidBinaries cur))"
    "df_SudoersChanged ?d \<longleftrightarrow> sn_SudoersHash prev \<noteq> sn_SudoersHash cur"
    by (simp_all add: DiffSnapshots_def split: prod.split)
  have k: "df_ChangedAuthorizedKeys ?d = [] \<longleftrightarrow> (\<forall>u. key_of prev u = key_of cur u)"
    using set_changed_keys [of prev cur] by (metis (mono_tags) empty_Collect_eq set_empty)
  show ?thesis
    unfolding Diff_Empty_def diff_lists_def same_posture_def d(9)
    using k diffLists_Nil [of "sn_ListeningPorts prev" "sn_ListeningPorts cur"] diffLists_Nil [of "sn_Users prev" "sn_Users cur"]
      diffLists_Nil [of "sn_AdminUsers prev" "sn_AdminUsers cur"] diffLists_Nil [of "sn_SetuidBinaries prev" "sn_SetuidBinaries cur"]
    by (simp add: d(1-8)) blast
qed

section \<open>Ports\<close>

definition known_entry :: "BaselinePortEntry list \<Rightarrow> string \<Rightarrow> bool" where
  "known_entry baseline entry \<longleftrightarrow>
     (case entry_port entry of None \<Rightarrow> True | Some k \<Rightarrow> (case lookup_port baseline k of None \<Rightarrow> False | Some b \<Rightarrow> bp_Severity b = ''baseline''))"

lemma classify_entry_None: "classify_entry baseline e = None \<longleftrightarrow> known_entry baseline e"
  by (simp add: classify_entry_def known_entry_def split: option.split)

lemma classify_entry_Entry: "classify_entry baseline e = Some f \<Longrightarrow> pf_Entry f = e"
  by (auto simp: classify_entry_def split: option.splits if_splits)

lemma map_filter_set: "set (List.map_filter g xs) = {y. \<exists>x \<in> set xs. g x = Some y}"
  by (force simp: List.map_filter_def)

lemma classified_entries:
  "baseline \<noteq> [] \<Longrightarrow> pf_Entry ` set (classifyPorts entries baseline) = {e \<in> set entries. \<not> known_entry baseline e}"
proof -
  assume b: "baseline \<noteq> []"
  have "e \<in> pf_Entry ` {y. \<exists>x \<in> set entries. classify_entry baseline x = Some y}" if e: "e \<in> set entries" and k: "\<not> known_entry baseline e" for e
  proof -
    obtain f where f: "classify_entry baseline e = Some f" using k classify_entry_None [of baseline e] by auto
    then show ?thesis using e classify_entry_Entry [OF f] by force
  qed
  moreover have "\<not> known_entry baseline e" if "classify_entry baseline e = Some f" for e f
    using that classify_entry_None [of baseline e] by auto
  ultimately show ?thesis using b by (auto simp: classifyPorts_def map_filter_set dest: classify_entry_Entry)
qed

section \<open>Two runs\<close>

definition snapshot_text :: "PostureSnapshot \<Rightarrow> bool" where
  "snapshot_text s \<longleftrightarrow> list_all (\<lambda>t. as_json t = t) (sn_ListeningPorts s @ sn_Users s @ sn_AdminUsers s @ [sn_SudoersHash s] @
     map fst (sn_AuthorizedKeys s) @ map snd (sn_AuthorizedKeys s) @ sn_SetuidBinaries s @ sn_Errors s)"

lemma map_same: "list_all (\<lambda>t. f t = t) xs \<Longrightarrow> map f xs = xs"
  by (induction xs) auto

lemma snapshot_json_text: "snapshot_text s \<Longrightarrow> snapshot_json s = s"
proof -
  assume t: "snapshot_text s"
  have "map (\<lambda>(u, fp). (as_json u, as_json fp)) ks = ks"
    if "list_all (\<lambda>t. as_json t = t) (map fst ks)" "list_all (\<lambda>t. as_json t = t) (map snd ks)" for ks :: "(string \<times> string) list"
    using that by (induction ks) auto
  then show ?thesis using t by (simp add: snapshot_text_def snapshot_json_def map_same)
qed


definition demo_snapshot :: "string list \<Rightarrow> PostureSnapshot" where
  "demo_snapshot ports = \<lparr>sn_ListeningPorts = ports, sn_Users = [''lee (uid 1000)''], sn_AdminUsers = [''lee''], sn_SudoersHash = ''ab'',
     sn_AuthorizedKeys = [(''lee'', ''sha256:1'')], sn_SetuidBinaries = [''/usr/bin/su''], sn_Errors = []\<rparr>"

definition demo_baseline :: "BaselinePortEntry list" where
  "demo_baseline = [\<lparr>bp_Port = 22, bp_Protocol = ''tcp'', bp_Severity = ''baseline'', bp_Description = ''ssh''\<rparr>,
     \<lparr>bp_Port = 4444, bp_Protocol = ''tcp'', bp_Severity = ''critical'', bp_Description = ''shell''\<rparr>]"


text \<open>
  A command that fails leaves an empty list in the snapshot, so a failed gathering reads as the removal of every port, and the next successful one as
  their return.
\<close>

lemma failed_gathering_reads_as_removal:
  "df_RemovedPorts (DiffSnapshots prev (gather sha256 (v\<lparr>hv_ss := Inl e, hv_lsof := Inl e'\<rparr>))) = sort_strings (sn_ListeningPorts prev)"
  by (simp add: DiffSnapshots_def diffLists_def gather_def listeningPorts_def sort_strings_def Let_def split: prod.split)

text \<open>A severity that the profile misspells ranks with the critical ones and counts for nothing else.\<close>

lemma unknown_severity_ranks_first:
  "severityRank ''hihg'' = severityRank ''critical'' \<and>
   posture_health None [\<lparr>pf_Entry = e, pf_Severity = ''hihg'', pf_Description = d\<rparr>] = ''ok''"
  by (simp add: severityRank_def posture_health_def has_finding_def)

end
