(* ===== verification/Status_Report.thy ===== *)
theory Status_Report
  imports Patching
begin

text \<open>
  The status report (\<open>status/status.go\<close>), the cached summary beside it (\<open>status/summarizer.go\<close>) and the log of tool executions
  (\<open>utils/storage/storage.go\<close>). The language model and the digest of a prompt are arguments; callers and refreshes of the summary
  are steps that interleave.
\<close>

section \<open>The log of tool executions\<close>

record TaskRecord =
  tr_ID :: string
  tr_Name :: string
  tr_Input :: string            \<comment> \<open>the raw JSON of the arguments\<close>
  tr_Result :: string
  tr_Error :: string
  tr_ExecutedAt :: instant

text \<open>A line of the log: its length, and the record it decodes to.\<close>

datatype task_line = TaskLine (line_len: nat) (line_record: "TaskRecord option")

text \<open>
  The file, \<open>None\<close> when it does not exist. \<open>enc r\<close> is the length of the JSON text, or \<open>None\<close> when the arguments are not JSON and cannot be
  marshalled; the file is created before that.
\<close>

type_synonym task_log = "task_line list option"

definition task_json :: "TaskRecord \<Rightarrow> TaskRecord" where
  "task_json r = r\<lparr>tr_ID := as_json (tr_ID r), tr_Name := as_json (tr_Name r), tr_Result := as_json (tr_Result r), tr_Error := as_json (tr_Error r)\<rparr>"

definition task_Append :: "(TaskRecord \<Rightarrow> nat option) \<Rightarrow> bool \<Rightarrow> TaskRecord \<Rightarrow> task_log \<Rightarrow> unit result \<times> task_log" where
  "task_Append enc open_ok r f =
     (if \<not> open_ok then (Inl (IOError ''open''), f)
      else
        let ls = (case f of None \<Rightarrow> [] | Some ls \<Rightarrow> ls) in
        case enc r of
          None \<Rightarrow> (Inl (Invalid ''marshal record''), Some ls)
        | Some n \<Rightarrow> (Inr (), Some (ls @ [TaskLine n (Some (task_json r))])))"

text \<open>\<open>bufio.Scanner\<close> refuses a line of 64 KiB or more; an empty line is skipped.\<close>

definition maxScanToken :: nat where "maxScanToken = 65536"

fun scan_records :: "task_line list \<Rightarrow> TaskRecord list \<Rightarrow> TaskRecord list \<times> error option" where
  "scan_records [] rs = (rs, None)"
| "scan_records (TaskLine n r # ls) rs =
     (if n \<ge> maxScanToken then (rs, Some (Invalid ''token too long''))
      else if n = 0 then scan_records ls rs
      else case r of None \<Rightarrow> ([], Some (Invalid ''parse record'')) | Some x \<Rightarrow> scan_records ls (rs @ [x]))"

definition task_All :: "task_log \<Rightarrow> TaskRecord list \<times> error option" where
  "task_All f = (case f of None \<Rightarrow> ([], None) | Some ls \<Rightarrow> scan_records ls [])"

definition task_SizeBytes :: "task_log \<Rightarrow> nat" where
  "task_SizeBytes f = (case f of None \<Rightarrow> 0 | Some ls \<Rightarrow> sum_list (map (\<lambda>l. line_len l + 1) ls))"

text \<open>\<open>storedTool.Execute\<close>: the wrapped tool's answer is passed on whatever happens to the record. \<open>hexid\<close> formats the clock.\<close>

definition stored_Execute ::
    "(TaskRecord \<Rightarrow> nat option) \<Rightarrow> bool \<Rightarrow> (instant \<Rightarrow> string) \<Rightarrow> instant \<Rightarrow> string \<Rightarrow> (string \<Rightarrow> 'w \<Rightarrow> (string + string) \<times> 'w) \<Rightarrow> string \<Rightarrow>
      'w \<times> task_log \<Rightarrow> (string + string) \<times> 'w \<times> task_log" where
  "stored_Execute enc open_ok hexid now name inner input st =
     (case st of (w, f) \<Rightarrow>
      case inner input w of (r, w) \<Rightarrow>
        let rec = \<lparr>tr_ID = hexid now, tr_Name = name, tr_Input = input, tr_Result = (case r of Inl _ \<Rightarrow> [] | Inr t \<Rightarrow> t),
                   tr_Error = (case r of Inl e \<Rightarrow> e | Inr _ \<Rightarrow> []), tr_ExecutedAt = now\<rparr>
        in (r, w, snd (task_Append enc open_ok rec f)))"

section \<open>The state of the agent\<close>

definition meaningful_approval :: "TimelineEntry \<Rightarrow> bool" where
  "meaningful_approval e \<longleftrightarrow> te_Type e = ''approval'' \<and> te_Status e = Some ''pending'' \<and> (te_Risk e = ''high'' \<or> te_Risk e = ''medium'')"

definition hasAttention :: "TimelineEntry list \<Rightarrow> bool" where
  "hasAttention timeline = list_ex (\<lambda>e. te_Severity e = ''critical'' \<or> meaningful_approval e) timeline"

record Info =
  if_Hostname :: string
  if_OS :: string
  if_Distribution :: string
  if_Version :: string

definition osLabel :: "Info \<Rightarrow> string" where
  "osLabel i =
     (if if_Distribution i \<noteq> [] \<and> if_Version i \<noteq> [] then if_Distribution i @ '' '' @ if_Version i
      else if if_Distribution i \<noteq> [] then if_Distribution i
      else if_OS i)"

text \<open>A card for a skill that is not well, put before the timeline.\<close>

definition skill_card :: "skill_State \<Rightarrow> TimelineEntry" where
  "skill_card st = zero_entry\<lparr>te_ID := ''skillstate:'' @ sk_Skill st, te_Time := sk_Time st, te_Type := ''observation'',
     te_Title := sk_Skill st @ '': '' @ sk_Summary st, te_Detail := sk_Summary st, te_Severity := sk_Health st\<rparr>"

definition merge_states :: "skill_State list \<Rightarrow> TimelineEntry list \<Rightarrow> TimelineEntry list" where
  "merge_states states timeline = fold (\<lambda>st es. if sk_Health st = ''ok'' then es else skill_card st # es) states timeline"

definition agent_state :: "string list \<Rightarrow> TimelineEntry list \<Rightarrow> string" where
  "agent_state running timeline = (if running \<noteq> [] then ''active'' else if hasAttention timeline then ''attention'' else ''idle'')"

text \<open>The modification times of the package databases, and the output of PowerShell with the time it parses to.\<close>

record package_times =
  pt_stat :: "string \<Rightarrow> string + instant"
  pt_windows :: "string + string"
  pt_parse :: "string \<Rightarrow> string + instant"

definition LastUpdated :: "package_times \<Rightarrow> OSType \<Rightarrow> string + instant" where
  "LastUpdated t os =
     (case os of
        OSDebian \<Rightarrow> pt_stat t ''/var/lib/dpkg/status''
      | OSFedora \<Rightarrow> (case pt_stat t ''/var/lib/rpm/rpmdb.sqlite'' of Inr x \<Rightarrow> Inr x | Inl _ \<Rightarrow> pt_stat t ''/var/lib/rpm/Packages'')
      | OSDarwin \<Rightarrow> pt_stat t ''/Library/Receipts''
      | OSWindows \<Rightarrow>
          (case pt_windows t of
             Inl e \<Rightarrow> Inl (''LastUpdated windows: '' @ e)
           | Inr out \<Rightarrow> (case pt_parse t (TrimSpace out) of Inl e \<Rightarrow> Inl (''LastUpdated windows: parse '' @ TrimSpace out @ '': '' @ e) | Inr x \<Rightarrow> Inr x))
      | OSUnknown \<Rightarrow> Inl (''LastUpdated: unsupported OS: '' @ os_text os))"

definition lastPatchedAt :: "(instant \<Rightarrow> string) \<Rightarrow> string option \<Rightarrow> (package_times \<times> OSType) option \<Rightarrow> string option" where
  "lastPatchedAt fmt attr patcher =
     (case attr of
        Some (c # t) \<Rightarrow> Some (c # t)
      | _ \<Rightarrow> (case patcher of
                None \<Rightarrow> None
              | Some (t, os) \<Rightarrow> (case LastUpdated t os of Inl _ \<Rightarrow> None | Inr x \<Rightarrow> Some (fmt x))))"

section \<open>The prompt of the summary\<close>

definition clip_at :: "nat \<Rightarrow> string \<Rightarrow> string" where
  "clip_at n s = (if length s \<le> n then s else take n s @ ellipsis)"

definition issue_lines :: "TimelineEntry \<Rightarrow> string" where
  "issue_lines e = ''- '' @ te_Title e @ nl @ (if te_Detail e \<noteq> [] then ''  '' @ clip_at 200 (te_Detail e) @ nl else [])"

definition approval_lines :: "TimelineEntry \<Rightarrow> string" where
  "approval_lines e = ''- ['' @ te_Risk e @ '' risk] '' @ te_Title e @ nl @
     (case te_ProposedAction e of Some (c # a) \<Rightarrow> ''  Proposed action: '' @ clip_at 150 (c # a) @ nl | _ \<Rightarrow> []) @
     (if te_Detail e \<noteq> [] then ''  '' @ clip_at 150 (te_Detail e) @ nl else [])"

definition buildSummaryPrompt :: "TimelineEntry list \<Rightarrow> string" where
  "buildSummaryPrompt timeline =
     (let escalations = filter (\<lambda>e. te_Type e = ''escalation'') timeline;
          criticals = filter (\<lambda>e. te_Severity e = ''critical'' \<and> te_Type e \<noteq> ''escalation'') timeline;
          approvals = filter meaningful_approval timeline
      in if length escalations + length criticals + length approvals = 0 then []
         else
           (if escalations \<noteq> [] then ''ESCALATIONS (approval not acknowledged by operator):'' @ nl @ concat (map issue_lines escalations) @ nl else []) @
           (if criticals \<noteq> [] then ''CRITICAL ISSUES:'' @ nl @ concat (map issue_lines criticals) @ nl else []) @
           (if approvals \<noteq> [] then ''PENDING APPROVALS (agent waiting for operator decision):'' @ nl @ concat (map approval_lines approvals) else []))"

section \<open>The cached summary\<close>

record summarizer =
  su_ttl :: duration
  su_cached :: string
  su_hash :: string
  su_at :: "instant option"
  su_running :: bool

definition newSummarizer :: "(string \<Rightarrow> duration option) \<Rightarrow> string \<Rightarrow> summarizer" where
  "newSummarizer dur ttl = \<lparr>su_ttl = (if ttl = [] then 5 * minute else (case dur ttl of Some d \<Rightarrow> if d > 0 then d else 5 * minute | None \<Rightarrow> 5 * minute)),
     su_cached = [], su_hash = [], su_at = None, su_running = False\<rparr>"

definition stale_summary :: "instant \<Rightarrow> string \<Rightarrow> summarizer \<Rightarrow> bool" where
  "stale_summary now h s \<longleftrightarrow> (case su_at s of None \<Rightarrow> True | Some t \<Rightarrow> now - t \<ge> su_ttl s) \<or> h \<noteq> su_hash s"

text \<open>
  A call of \<open>get\<close> has two critical sections: it reads (\<open>get_read\<close>: the cached text, and whether it wants a refresh) and, if it wants one,
  starts it unless one runs by then (\<open>get_spawn\<close>). A refresh stores its result, if it has one, and ends.
\<close>

definition get_read :: "(string \<Rightarrow> string) \<Rightarrow> instant \<Rightarrow> string \<Rightarrow> summarizer \<Rightarrow> string \<times> bool" where
  "get_read digest now prompt s = (su_cached s, stale_summary now (digest prompt) s \<and> \<not> su_running s)"

definition get_spawn :: "summarizer \<Rightarrow> summarizer \<times> bool" where
  "get_spawn s = (if su_running s then (s, False) else (s\<lparr>su_running := True\<rparr>, True))"

text \<open>The answer of the model: its choices, or an error.\<close>

definition refresh_result :: "string + string list \<Rightarrow> string option" where
  "refresh_result answer =
     (case answer of Inr (c # _) \<Rightarrow> if TrimSpace c = [] then None else Some (TrimSpace c) | _ \<Rightarrow> None)"

definition refresh_store :: "string \<Rightarrow> instant \<Rightarrow> string \<Rightarrow> summarizer \<Rightarrow> summarizer" where
  "refresh_store h now summary s = s\<lparr>su_cached := summary, su_hash := h, su_at := Some now\<rparr>"

definition refresh_end :: "summarizer \<Rightarrow> summarizer" where
  "refresh_end s = s\<lparr>su_running := False\<rparr>"

text \<open>The system: callers between their two sections, and refreshes before and after their answer.\<close>

record sum_sys =
  ss_sum :: summarizer
  ss_waiting :: "string list"                     \<comment> \<open>prompts of callers that want a refresh\<close>
  ss_calls :: "string list"                       \<comment> \<open>prompts of refreshes that wait for the model\<close>
  ss_ending :: nat                                \<comment> \<open>refreshes that have their answer\<close>
  ss_log :: "(string \<times> string) list"          \<comment> \<open>prompts and the summaries stored for them\<close>

inductive sum_step :: "(string \<Rightarrow> string) \<Rightarrow> sum_sys \<Rightarrow> sum_sys \<Rightarrow> bool" for digest where
  read: "get_read digest now prompt (ss_sum s) = (shown, True) \<Longrightarrow> sum_step digest s (s\<lparr>ss_waiting := ss_waiting s @ [prompt]\<rparr>)"
| spawn: "ss_waiting s = ws @ prompt # ws' \<Longrightarrow> get_spawn (ss_sum s) = (su, started) \<Longrightarrow>
    sum_step digest s (s\<lparr>ss_sum := su, ss_waiting := ws @ ws', ss_calls := (if started then ss_calls s @ [prompt] else ss_calls s)\<rparr>)"
| answer: "ss_calls s = cs @ prompt # cs' \<Longrightarrow> refresh_result answer = Some summary \<Longrightarrow>
    sum_step digest s (s\<lparr>ss_sum := refresh_store (digest prompt) now summary (ss_sum s), ss_calls := cs @ cs', ss_ending := Suc (ss_ending s),
      ss_log := ss_log s @ [(prompt, summary)]\<rparr>)"
| failed: "ss_calls s = cs @ prompt # cs' \<Longrightarrow> refresh_result answer = None \<Longrightarrow>
    sum_step digest s (s\<lparr>ss_calls := cs @ cs', ss_ending := Suc (ss_ending s)\<rparr>)"
| finish: "ss_ending s = Suc n \<Longrightarrow> sum_step digest s (s\<lparr>ss_sum := refresh_end (ss_sum s), ss_ending := n\<rparr>)"

inductive_cases sum_stepE: "sum_step digest s s'"

definition sum_init :: "summarizer \<Rightarrow> sum_sys" where
  "sum_init su = \<lparr>ss_sum = su, ss_waiting = [], ss_calls = [], ss_ending = 0, ss_log = []\<rparr>"

section \<open>The report\<close>

record status_env =
  sv_timeline :: "TimelineEntry list option"
  sv_states :: "skill_State list"
  sv_running :: "string list"
  sv_patchedAttr :: "string option"
  sv_patcher :: "(package_times \<times> OSType) option"
  sv_diskTrends :: "string option"
  sv_smartTrends :: "string option"
  sv_memBytes :: int
  sv_tasks :: "(string + nat) option"
  sv_info :: Info
  sv_purpose :: string
  sv_buildTime :: string

record Response =
  re_Hostname :: string
  re_Platform :: string
  re_OS :: string
  re_Purpose :: string
  re_BuildTime :: string
  re_State :: string
  re_LastPoll :: string
  re_CurrentTask :: "string option"
  re_CurrentTasks :: "string list"
  re_Timeline :: "TimelineEntry list"
  re_LastPatchedAt :: "string option"
  re_StatusDescription :: string
  re_DiskTrends :: "string option"
  re_SmartTrends :: "string option"
  re_MemoryStoreBytes :: int
  re_TasksLogBytes :: nat

definition raw_trend :: "string option \<Rightarrow> string option" where
  "raw_trend v = (if v = Some ''null'' then None else v)"

text \<open>
  The report, and whether the call of the summarizer wants a refresh. The summarizer is asked only for a prompt that is not empty.
\<close>

definition status_build :: "(string \<Rightarrow> string) \<Rightarrow> (instant \<Rightarrow> string) \<Rightarrow> instant \<Rightarrow> summarizer \<Rightarrow> status_env \<Rightarrow> Response \<times> bool" where
  "status_build digest fmt now su e =
     (let timeline = merge_states (sv_states e) (case sv_timeline e of None \<Rightarrow> [] | Some es \<Rightarrow> es);
          state = agent_state (sv_running e) timeline;
          prompt = buildSummaryPrompt timeline;
          (description, refresh) = (if state = ''attention'' \<and> prompt \<noteq> [] then get_read digest now prompt su else ([], False))
      in (\<lparr>re_Hostname = if_Hostname (sv_info e), re_Platform = if_OS (sv_info e), re_OS = osLabel (sv_info e), re_Purpose = sv_purpose e, re_BuildTime = sv_buildTime e,
           re_State = state, re_LastPoll = fmt now, re_CurrentTask = (case sv_running e of [] \<Rightarrow> None | t # _ \<Rightarrow> Some t),
           re_CurrentTasks = sv_running e, re_Timeline = timeline, re_LastPatchedAt = lastPatchedAt fmt (sv_patchedAttr e) (sv_patcher e),
           re_StatusDescription = description, re_DiskTrends = raw_trend (sv_diskTrends e), re_SmartTrends = raw_trend (sv_smartTrends e),
           re_MemoryStoreBytes = sv_memBytes e, re_TasksLogBytes = (case sv_tasks e of Some (Inr n) \<Rightarrow> n | _ \<Rightarrow> 0)\<rparr>, refresh))"

section \<open>One refresh at a time\<close>

definition sum_inv :: "(string \<Rightarrow> string) \<Rightarrow> sum_sys \<Rightarrow> bool" where
  "sum_inv digest s \<longleftrightarrow> length (ss_calls s) + ss_ending s = (if su_running (ss_sum s) then 1 else 0) \<and>
     (su_cached (ss_sum s) = [] \<or> (\<exists>prompt. (prompt, su_cached (ss_sum s)) \<in> set (ss_log s) \<and> su_hash (ss_sum s) = digest prompt))"

lemma sum_inv_step: "sum_step digest s s' \<Longrightarrow> sum_inv digest s \<Longrightarrow> sum_inv digest s'"
proof (induction rule: sum_step.induct)
  case (spawn s ws prompt ws' su started)
  then show ?case by (auto simp: sum_inv_def get_spawn_def split: if_splits)
next
  case (answer s cs prompt cs' answer summary now)
  then show ?case by (auto simp: sum_inv_def refresh_store_def split: if_splits)
next
  case (failed s cs prompt cs' answer)
  then show ?case by (auto simp: sum_inv_def split: if_splits)
next
  case (finish s n)
  then show ?case by (auto simp: sum_inv_def refresh_end_def split: if_splits)
qed (simp add: sum_inv_def)

text \<open>
  C30: the summary is refreshed by one call of the model at a time. In every interleaving of status requests and refreshes at most
  one refresh is in flight, exactly when the flag \<open>running\<close> is set, and the text shown is empty or one that the model gave for a prompt
  with the stored digest.
\<close>

theorem one_refresh_at_a_time:
  assumes "(sum_step digest)\<^sup>*\<^sup>* (sum_init (newSummarizer dur ttl)) s"
  shows "length (ss_calls s) + ss_ending s = (if su_running (ss_sum s) then 1 else 0) \<and>
    (su_cached (ss_sum s) \<noteq> [] \<longrightarrow>
      (\<exists>prompt. (prompt, su_cached (ss_sum s)) \<in> set (ss_log s) \<and> su_hash (ss_sum s) = digest prompt))"
proof -
  have "sum_inv digest (sum_init (newSummarizer dur ttl))" by (simp add: sum_inv_def sum_init_def newSummarizer_def)
  with assms have "sum_inv digest s" by (induction rule: rtranclp_induct) (auto intro: sum_inv_step)
  then show ?thesis by (auto simp: sum_inv_def)
qed

theorem one_refresh_at_a_time_witness:
  "\<exists>s. (sum_step (\<lambda>p. p))\<^sup>*\<^sup>* (sum_init (newSummarizer (\<lambda>_. None) [])) s \<and> su_running (ss_sum s) \<and> length (ss_calls s) = 1 \<and>
     ss_waiting s = [''q''] \<and> length (ss_calls s) + ss_ending s = 1"
proof -
  define su where "su = newSummarizer (\<lambda>_. None) []"
  define s1 where "s1 = (sum_init su)\<lparr>ss_waiting := [''p'']\<rparr>"
  define s2 where "s2 = s1\<lparr>ss_waiting := [''p'', ''q'']\<rparr>"
  define s3 where "s3 = s2\<lparr>ss_sum := su\<lparr>su_running := True\<rparr>, ss_waiting := [''q''], ss_calls := [''p'']\<rparr>"
  note d = su_def s1_def s2_def s3_def sum_init_def newSummarizer_def
  have "sum_step (\<lambda>p. p) (sum_init su) s1"
    using sum_step.read [of "\<lambda>p. p" 0 "''p''" "sum_init su"] by (simp add: d get_read_def stale_summary_def)
  moreover have "sum_step (\<lambda>p. p) s1 s2" using sum_step.read [of "\<lambda>p. p" 0 "''q''" s1] by (simp add: d get_read_def stale_summary_def)
  moreover have "sum_step (\<lambda>p. p) s2 s3" using sum_step.spawn [of s2 "[]" "''p''" "[''q'']"] by (simp add: d get_spawn_def)
  ultimately have r: "(sum_step (\<lambda>p. p))\<^sup>*\<^sup>* (sum_init (newSummarizer (\<lambda>_. None) [])) s3"
    unfolding su_def [symmetric] by (meson r_into_rtranclp rtranclp_trans)
  have f: "su_running (ss_sum s3)" "length (ss_calls s3) = 1" "ss_waiting s3 = [''q'']" by (simp_all add: s3_def)
  from one_refresh_at_a_time [OF r] f r show ?thesis by auto
qed

section \<open>What the report says\<close>

lemma merge_states_set: "set (merge_states states es) = skill_card ` {st \<in> set states. sk_Health st \<noteq> ''ok''} \<union> set es"
  unfolding merge_states_def by (induction states arbitrary: es) auto

text \<open>Attention always has something to say: the prompt is not empty.\<close>

lemma attention_has_prompt: "hasAttention timeline \<Longrightarrow> buildSummaryPrompt timeline \<noteq> []"
proof -
  assume "hasAttention timeline"
  then obtain e where e: "e \<in> set timeline" "te_Severity e = ''critical'' \<or> meaningful_approval e" by (auto simp: hasAttention_def list_ex_iff)
  then have "filter (\<lambda>e. te_Type e = ''escalation'') timeline \<noteq> [] \<or>
      filter (\<lambda>e. te_Severity e = ''critical'' \<and> te_Type e \<noteq> ''escalation'') timeline \<noteq> [] \<or> filter meaningful_approval timeline \<noteq> []"
    by (auto simp: filter_empty_conv)
  then consider "filter (\<lambda>e. te_Type e = ''escalation'') timeline \<noteq> []" |
    "filter (\<lambda>e. te_Severity e = ''critical'' \<and> te_Type e \<noteq> ''escalation'') timeline \<noteq> []" | "filter meaningful_approval timeline \<noteq> []"
    by blast
  then show ?thesis by cases (simp_all add: buildSummaryPrompt_def Let_def)
qed

lemma build_fields:
  fixes e
  defines "timeline \<equiv> merge_states (sv_states e) (case sv_timeline e of None \<Rightarrow> [] | Some es \<Rightarrow> es)"
  shows "re_State (fst (status_build digest fmt now su e)) = agent_state (sv_running e) timeline"
    "re_Timeline (fst (status_build digest fmt now su e)) = timeline"
    "(re_StatusDescription (fst (status_build digest fmt now su e)), snd (status_build digest fmt now su e)) =
       (if agent_state (sv_running e) timeline = ''attention'' \<and> buildSummaryPrompt timeline \<noteq> []
        then get_read digest now (buildSummaryPrompt timeline) su else ([], False))"
  unfolding status_build_def Let_def timeline_def by (simp_all only: case_prod_beta fst_conv snd_conv Response.select_convs prod.collapse)

text \<open>
  The reported state is the right one. It is \<open>active\<close> exactly while a responsibility runs; otherwise \<open>attention\<close> exactly when the last
  known state of a skill or a card of the timeline is critical or an approval of medium or high risk is pending, and \<open>idle\<close> otherwise. Every
  skill that is not well has its card, no card of the timeline is lost, and a description is given only for attention, where the
  summarizer is always asked.
\<close>

theorem status_reported:
  assumes "status_build digest fmt now su e = (r, refresh)"
  shows "(re_State r = ''active'' \<longleftrightarrow> sv_running e \<noteq> []) \<and>
    (re_State r = ''attention'' \<longleftrightarrow> sv_running e = [] \<and>
      (list_ex (\<lambda>st. sk_Health st = ''critical'') (sv_states e) \<or>
       (case sv_timeline e of None \<Rightarrow> False | Some es \<Rightarrow> list_ex (\<lambda>c. te_Severity c = ''critical'' \<or> meaningful_approval c) es))) \<and>
    re_State r \<in> {''active'', ''attention'', ''idle''} \<and>
    set (re_Timeline r) = skill_card ` {st \<in> set (sv_states e). sk_Health st \<noteq> ''ok''} \<union> (case sv_timeline e of None \<Rightarrow> {} | Some es \<Rightarrow> set es) \<and>
    (re_StatusDescription r, refresh) =
      (if re_State r = ''attention'' then (su_cached su, stale_summary now (digest (buildSummaryPrompt (re_Timeline r))) su \<and> \<not> su_running su)
       else ([], False))"
proof -
  define base where "base = (case sv_timeline e of None \<Rightarrow> [] | Some es \<Rightarrow> es)"
  define es' where "es' = merge_states (sv_states e) base"
  have s: "set es' = skill_card ` {st \<in> set (sv_states e). sk_Health st \<noteq> ''ok''} \<union> set base" by (simp add: es'_def merge_states_set)
  define P where "P c \<longleftrightarrow> te_Severity c = ''critical'' \<or> meaningful_approval c" for c
  have card: "P (skill_card st) \<longleftrightarrow> sk_Health st = ''critical''" for st
    by (simp add: P_def skill_card_def meaningful_approval_def)
  have crit: "(\<exists>st. (st \<in> S \<and> sk_Health st \<noteq> ''ok'') \<and> sk_Health st = ''critical'') \<longleftrightarrow> (\<exists>st\<in>S. sk_Health st = ''critical'')" for S
    by auto
  have a: "hasAttention es' \<longleftrightarrow> list_ex (\<lambda>st. sk_Health st = ''critical'') (sv_states e) \<or> list_ex (\<lambda>c. te_Severity c = ''critical'' \<or> meaningful_approval c) base"
    unfolding hasAttention_def list_ex_iff P_def [symmetric] s bex_Un bex_simps card crit ..
  have st: "re_State r = agent_state (sv_running e) es'" "re_Timeline r = es'"
    and desc: "(re_StatusDescription r, refresh) = (if agent_state (sv_running e) es' = ''attention'' \<and> buildSummaryPrompt es' \<noteq> []
      then get_read digest now (buildSummaryPrompt es') su else ([], False))"
    using build_fields [of digest fmt now su e] unfolding assms base_def [symmetric] es'_def [symmetric] fst_conv snd_conv .
  have att: "agent_state (sv_running e) es' = ''attention'' \<longleftrightarrow> sv_running e = [] \<and> hasAttention es'"
    "agent_state (sv_running e) es' = ''active'' \<longleftrightarrow> sv_running e \<noteq> []"
    "agent_state (sv_running e) es' \<in> {''active'', ''attention'', ''idle''}"
    by (simp_all add: agent_state_def)
  have p: "sv_running e = [] \<and> hasAttention es' \<and> buildSummaryPrompt es' \<noteq> [] \<longleftrightarrow> sv_running e = [] \<and> hasAttention es'"
    using attention_has_prompt [of es'] by blast
  have b: "(case sv_timeline e of None \<Rightarrow> False | Some es \<Rightarrow> list_ex P es) \<longleftrightarrow> list_ex P base" "(case sv_timeline e of None \<Rightarrow> {} | Some es \<Rightarrow> set es) = set base" for P
    by (simp_all add: base_def split: option.split)
  have d: "(re_StatusDescription r, refresh) = (if sv_running e = [] \<and> hasAttention es' then get_read digest now (buildSummaryPrompt es') su else ([], False))"
    using desc unfolding att(1) conj_assoc p .
  show ?thesis unfolding b st s att(1) a [symmetric] d get_read_def using att(2,3) by (intro conjI refl) simp_all
qed

definition demo_status :: status_env where
  "demo_status = \<lparr>sv_timeline = None,
     sv_states = [\<lparr>sk_Skill = ''disk'', sk_Health = ''critical'', sk_Summary = ''full'', sk_Time = []\<rparr>], sv_running = [], sv_patchedAttr = None, sv_patcher = None,
     sv_diskTrends = None, sv_smartTrends = None, sv_memBytes = 0, sv_tasks = None,
     sv_info = \<lparr>if_Hostname = ''h'', if_OS = ''linux'', if_Distribution = [], if_Version = []\<rparr>, sv_purpose = [], sv_buildTime = []\<rparr>"

theorem status_reported_witness:
  "re_State (fst (status_build (\<lambda>p. p) (\<lambda>_. []) 0 (newSummarizer (\<lambda>_. None) []) demo_status)) = ''attention'' \<and>
   snd (status_build (\<lambda>p. p) (\<lambda>_. []) 0 (newSummarizer (\<lambda>_. None) []) demo_status)"
proof -
  obtain r refresh where b: "status_build (\<lambda>p. p) (\<lambda>_. []) 0 (newSummarizer (\<lambda>_. None) []) demo_status = (r, refresh)"
    by (rule prod.exhaust)
  have d: "sv_running demo_status = []" "list_ex (\<lambda>st. sk_Health st = ''critical'') (sv_states demo_status)"
    by (simp_all add: demo_status_def)
  have st: "re_State r = ''attention''" using status_reported [OF b] d by blast
  have "(re_StatusDescription r, refresh) = (su_cached (newSummarizer (\<lambda>_. None) []),
      stale_summary 0 (buildSummaryPrompt (re_Timeline r)) (newSummarizer (\<lambda>_. None) []) \<and> \<not> su_running (newSummarizer (\<lambda>_. None) []))"
    using status_reported [OF b] unfolding if_P [OF st] by (elim conjE)
  then have refresh by (simp add: newSummarizer_def stale_summary_def)
  with st show ?thesis by (simp add: b)
qed

section \<open>The log of executions\<close>

lemma scan_app:
  assumes "list_all (\<lambda>l. 0 < line_len l \<and> line_len l < maxScanToken \<and> line_record l \<noteq> None) ls"
  shows "scan_records (ls @ ls') rs = scan_records ls' (rs @ map (the \<circ> line_record) ls)"
  using assms
proof (induction ls arbitrary: rs)
  case (Cons l ls)
  then show ?case by (cases l) auto
qed simp

text \<open>Records that were appended.\<close>

fun append_all :: "(TaskRecord \<Rightarrow> nat option) \<Rightarrow> TaskRecord list \<Rightarrow> task_log \<Rightarrow> task_log" where
  "append_all enc [] f = f"
| "append_all enc (r # rs) f = append_all enc rs (snd (task_Append enc True r f))"

lemma append_all_lines:
  "list_all (\<lambda>r. enc r \<noteq> None) rs \<Longrightarrow> append_all enc rs (Some ls) = Some (ls @ map (\<lambda>r. TaskLine (the (enc r)) (Some (task_json r))) rs)"
proof (induction rs arbitrary: ls)
  case (Cons r rs)
  then show ?case by (auto simp: task_Append_def)
qed simp

text \<open>
  The log gives back what was recorded, as long as no record is too long. Reading the log after any appends returns the records in order, each
  as its JSON text keeps it; and if a record takes 64 KiB or more of text, reading stops there with an error: the records after
  it cannot be read any more.
\<close>

theorem task_log_read_back:
  assumes "list_all (\<lambda>r. case enc r of None \<Rightarrow> False | Some n \<Rightarrow> 0 < n \<and> n < 65536) rs" "enc big = Some n" "65536 \<le> n" "list_all (\<lambda>r. enc r \<noteq> None) rs'"
  shows "task_All (append_all enc rs None) = (map task_json rs, None) \<and>
    task_All (append_all enc (rs @ big # rs') None) = (map task_json rs, Some (Invalid ''token too long''))"
proof -
  define line where "line = (\<lambda>r. TaskLine (the (enc r)) (Some (task_json r)))"
  have enc: "list_all (\<lambda>r. enc r \<noteq> None) rs" using assms(1) by (auto simp: list_all_iff split: option.splits)
  have none: "append_all enc xs None = (if xs = [] then None else append_all enc xs (Some []))" if "list_all (\<lambda>r. enc r \<noteq> None) xs" for xs
    using that by (cases xs) (auto simp: task_Append_def)
  have ok: "list_all (\<lambda>l. 0 < line_len l \<and> line_len l < maxScanToken \<and> line_record l \<noteq> None) (map line rs)"
    using assms(1) by (auto simp: list_all_iff line_def maxScanToken_def split: option.splits)
  have recs: "map (the \<circ> line_record) (map line rs) = map task_json rs" by (simp add: line_def comp_def)
  have "task_All (append_all enc rs None) = (map task_json rs, None)"
    using scan_app [OF ok, of "[]" "[]"] none [OF enc] append_all_lines [OF enc, of "[]"] recs
    by (auto simp: task_All_def line_def [symmetric])
  moreover have all: "list_all (\<lambda>r. enc r \<noteq> None) (rs @ big # rs')" using enc assms(2,4) by simp
  have "task_All (append_all enc (rs @ big # rs') None) = scan_records (map line rs @ map line (big # rs')) []"
    using none [OF all] append_all_lines [OF all, of "[]"] by (simp add: task_All_def line_def)
  then have "task_All (append_all enc (rs @ big # rs') None) = (map task_json rs, Some (Invalid ''token too long''))"
    using scan_app [OF ok, of "map line (big # rs')" "[]"] recs assms(2,3) by (simp add: line_def maxScanToken_def comp_def)
  ultimately show ?thesis by blast
qed

definition demo_task :: "string \<Rightarrow> TaskRecord" where
  "demo_task n = \<lparr>tr_ID = ''1'', tr_Name = n, tr_Input = ''{}'', tr_Result = ''ok'', tr_Error = [], tr_ExecutedAt = 0\<rparr>"

definition demo_enc :: "TaskRecord \<Rightarrow> nat option" where
  "demo_enc r = Some (if tr_Name r = ''big'' then 70000 else 90)"

theorem task_log_read_back_witness:
  "task_All (append_all demo_enc [demo_task ''df'', demo_task ''big'', demo_task ''ls''] None) =
     (map task_json [demo_task ''df''], Some (Invalid ''token too long''))"
proof -
  have "list_all (\<lambda>r. case demo_enc r of None \<Rightarrow> False | Some n \<Rightarrow> 0 < n \<and> n < 65536) [demo_task ''df'']"
    "demo_enc (demo_task ''big'') = Some 70000" "list_all (\<lambda>r. demo_enc r \<noteq> None) [demo_task ''ls'']"
    by (simp_all add: demo_enc_def demo_task_def)
  from task_log_read_back [OF this(1,2) _ this(3)] show ?thesis by simp
qed

end
