(* ===== verification/Agent_Tools.thy ===== *)
theory Agent_Tools
  imports Incidents Scheduler Patch_Assess
begin

text \<open>
  Tools of the agent over the stores: \<open>skills/report_findings\<close>, \<open>skills/manage_incidents\<close>, \<open>skills/read_agent_memory\<close> and
  \<open>skills/compare_to_baseline\<close>. Schemas and descriptions of the tools are left out; \<open>quote\<close> is the verb \<open>%q\<close>, and an answer that is
  JSON text is the value it is made from.
\<close>

section \<open>Reporting findings\<close>

record Finding =
  fi_Type :: string
  fi_Title :: string
  fi_Detail :: string
  fi_Severity :: string
  fi_Risk :: string
  fi_ProposedAction :: string
  fi_Status :: string

definition maxEntries :: nat where "maxEntries = 50"

definition ptrOrNil :: "string \<Rightarrow> string option" where
  "ptrOrNil s = (if s = [] then None else Some s)"

definition finding_id :: "instant \<Rightarrow> nat \<Rightarrow> string \<Rightarrow> string" where
  "finding_id now i ty = ty @ ''-'' @ show_int now @ ''-'' @ show_nat i"

definition finding_entry :: "(instant \<Rightarrow> string) \<Rightarrow> instant \<Rightarrow> nat \<Rightarrow> Finding \<Rightarrow> TimelineEntry" where
  "finding_entry fmt now i f = zero_entry\<lparr>te_ID := finding_id now i (fi_Type f), te_Time := fmt now, te_Type := fi_Type f, te_Title := fi_Title f,
     te_Detail := fi_Detail f, te_Severity := fi_Severity f, te_Risk := fi_Risk f, te_ProposedAction := ptrOrNil (fi_ProposedAction f),
     te_Status := ptrOrNil (fi_Status f)\<rparr>"

fun add_findings :: "(instant \<Rightarrow> string) \<Rightarrow> instant \<Rightarrow> nat \<Rightarrow> Finding list \<Rightarrow> TimelineEntry list \<Rightarrow> TimelineEntry list" where
  "add_findings fmt now i [] es = es"
| "add_findings fmt now i (f # fs) es = add_findings fmt now (Suc i) fs (finding_entry fmt now i f # es)"

definition state_line :: "skill_State \<Rightarrow> string" where
  "state_line st = ''- '' @ sk_Skill st @ '': '' @ sk_Health st @ dash @ sk_Summary st @ '' (as of '' @ sk_Time st @ '')'' @ nl"

definition findings_answer :: "skill_State list \<Rightarrow> Finding list \<Rightarrow> string" where
  "findings_answer states fs = ''recorded '' @ show_nat (length fs) @ '' finding(s)'' @
     (if states = [] then [] else nl @ nl @ ''Last known state from check/analyze skills:'' @ nl @ concat (map state_line states))"

text \<open>\<open>ok\<close>: the snapshot of the timeline is written. The skill states are read afterwards, in the order \<open>ks\<close> of the map.\<close>

definition report_findings ::
    "bool \<Rightarrow> (instant \<Rightarrow> string) \<Rightarrow> instant \<Rightarrow> string list \<Rightarrow> loop_mem option \<Rightarrow> Finding list \<Rightarrow> amem \<Rightarrow> string result \<times> amem" where
  "report_findings ok fmt now ks mem fs m =
     (let old = (case am_timeline m of None \<Rightarrow> [] | Some es \<Rightarrow> es);
          entries = take maxEntries (add_findings fmt now 0 fs old)
      in if \<not> ok then (Inl (IOError ''report_findings''), m)
         else (Inr (findings_answer (skill_LoadAll ks mem) fs), m\<lparr>am_timeline := Some entries\<rparr>))"

section \<open>Managing incidents\<close>

record manageIncidentsInput =
  mi_Action :: string
  mi_Fingerprint :: string
  mi_Title :: string
  mi_Detail :: string
  mi_Severity :: string
  mi_Note :: string

datatype incidents_answer = IncidentList "Incident list" | IncidentText string

definition recurrence_text :: "(string \<Rightarrow> string) \<Rightarrow> Incident \<Rightarrow> string" where
  "recurrence_text quote i = ''incident '' @ quote (in_Fingerprint i) @ '' already open'' @ dash @
     ''recorded recurrence (first seen '' @ in_FirstSeen i @ '', now seen '' @ show_int (in_TimesSeen i) @ '' times)''"

definition manage_incidents ::
    "(string \<Rightarrow> string) \<Rightarrow> bool \<Rightarrow> (instant \<Rightarrow> string) \<Rightarrow> instant \<Rightarrow> manageIncidentsInput \<Rightarrow> ledger option \<Rightarrow>
      incidents_answer result \<times> ledger option" where
  "manage_incidents quote ok fmt now inp st =
     (if mi_Action inp = ''list'' then
        (case Incidents_All st of Inl e \<Rightarrow> (Inl e, st) | Inr all \<Rightarrow> (Inr (IncidentList all), st))
      else if mi_Action inp = ''report'' then
        (if mi_Fingerprint inp = [] then (Inl (Invalid ''report requires a fingerprint''), st)
         else if mi_Title inp = [] then (Inl (Invalid ''report requires a title''), st)
         else case Report ok fmt now (mi_Fingerprint inp) (mi_Title inp) (mi_Detail inp) (mi_Severity inp) st of
           (Inl e, st) \<Rightarrow> (Inl e, st)
         | (Inr (i, isNew), st) \<Rightarrow>
             (Inr (IncidentText (if isNew then ''opened new incident '' @ quote (in_Fingerprint i) else recurrence_text quote i)), st))
      else if mi_Action inp = ''log_action'' then
        (if mi_Fingerprint inp = [] \<or> mi_Note inp = [] then (Inl (Invalid ''log_action requires fingerprint and note''), st)
         else case LogAction ok fmt now (mi_Fingerprint inp) (mi_Note inp) st of
           (Inl e, st) \<Rightarrow> (Inl e, st)
         | (Inr i, st) \<Rightarrow> (Inr (IncidentText (''logged action on incident '' @ quote (in_Fingerprint i) @ '' ('' @
             show_nat (length (in_Actions i)) @ '' actions recorded)'')), st))
      else if mi_Action inp = ''resolve'' then
        (if mi_Fingerprint inp = [] then (Inl (Invalid ''resolve requires a fingerprint''), st)
         else case Resolve ok fmt now (mi_Fingerprint inp) (mi_Note inp) st of
           (Inl e, st) \<Rightarrow> (Inl e, st)
         | (Inr i, st) \<Rightarrow> (Inr (IncidentText (''resolved incident '' @ quote (in_Fingerprint i) @ '' (open since '' @ in_FirstSeen i @ '', seen '' @
             show_int (in_TimesSeen i) @ '' times)'')), st))
      else (Inl (Invalid ''unknown action''), st))"

section \<open>Reading memory\<close>

record readMemoryInput =
  ri_Domain :: string
  ri_History :: bool
  ri_Window :: string

definition defaultHistoryWindow :: duration where "defaultHistoryWindow = hour"

text \<open>The JSON of a domain without snapshots, of the snapshots in the window, or of the current one.\<close>

datatype 'd memory_answer = NoSnapshot | Snapshots "(instant \<times> 'd) list" | CurrentSnapshot 'd

definition history_window :: "(string \<Rightarrow> duration option) \<Rightarrow> string \<Rightarrow> duration option" where
  "history_window dur window =
     (if window = [] then Some defaultHistoryWindow
      else case dur window of None \<Rightarrow> None | Some w \<Rightarrow> if w \<le> 0 then None else Some w)"

definition read_agent_memory ::
    "(string \<Rightarrow> duration option) \<Rightarrow> instant \<Rightarrow> readMemoryInput \<Rightarrow> ('d, 'r) Store \<Rightarrow> 'd memory_answer result" where
  "read_agent_memory dur now inp s =
     (let d = Some (Store_Domain (ri_Domain inp) s) in
      if ri_History inp then
        (case history_window dur (ri_Window inp) of
           None \<Rightarrow> Inl (Invalid ''window'')
         | Some w \<Rightarrow> Inr (Snapshots (filter (\<lambda>p. \<not> fst p < now - w) (Domain_ReadHistory d))))
      else case Domain_ReadCurrent Some d of Inl _ \<Rightarrow> Inr NoSnapshot | Inr x \<Rightarrow> Inr (CurrentSnapshot x))"

section \<open>Comparison with a baseline\<close>

definition baselineOffsets :: "(string \<times> duration) list" where
  "baselineOffsets = [(''hour_ago'', hour), (''day_ago'', 24 * hour), (''week_ago'', 7 * 24 * hour)]"

definition baseline_point ::
    "instant \<Rightarrow> 'd domain \<Rightarrow> string \<times> duration \<Rightarrow> instant list \<times> (string \<times> instant \<times> 'd) list \<Rightarrow>
      instant list \<times> (string \<times> instant \<times> 'd) list" where
  "baseline_point now d b acc =
     (case Domain_ReadNearest (now - snd b) d of
        Inl _ \<Rightarrow> acc
      | Inr snap \<Rightarrow> if fst snap \<in> set (fst acc) then acc else (fst snap # fst acc, snd acc @ [(fst b, snap)]))"

text \<open>The points of the answer, the current one first, or none when there is no snapshot.\<close>

definition compare_to_baseline :: "instant \<Rightarrow> string \<Rightarrow> ('d, 'r) Store \<Rightarrow> (string \<times> instant \<times> 'd) list result" where
  "compare_to_baseline now name s =
     (if name = [] then Inl (Invalid ''domain must not be empty'')
      else
        let d = Some (Store_Domain name s) in
        case Domain_ReadNearest now d of
          Inl _ \<Rightarrow> Inr []
        | Inr cur \<Rightarrow> Inr (snd (fold (baseline_point now d) baselineOffsets ([fst cur], [(''current'', cur)]))))"

section \<open>Identifiers of findings\<close>

lemma show_nat_no_dash: "CHR ''-'' \<notin> set (show_nat n)"
  using digits_of_digits [of n] by (auto simp: show_nat_def show_int_def list_all_iff is_digit_def code_def)

lemma show_nat_inj: "show_nat i = show_nat j \<Longrightarrow> i = j"
  by (simp add: show_nat_def show_int_def) (metis digits_value_digits_of)

lemma finding_id_inj: "finding_id now i ty = finding_id now j ty' \<Longrightarrow> i = j"
proof -
  have seg: "rev (takeWhile (\<lambda>c. c \<noteq> CHR ''-'') (rev (finding_id now k t))) = show_nat k" for k t
  proof -
    have "rev (finding_id now k t) = rev (show_nat k) @ CHR ''-'' # rev (t @ ''-'' @ show_int now)" by (simp add: finding_id_def)
    moreover have "takeWhile (\<lambda>c. c \<noteq> CHR ''-'') (rev (show_nat k) @ CHR ''-'' # zs) = rev (show_nat k)" for zs
      using show_nat_no_dash [of k] by (subst takeWhile_append2) (auto simp: )
    ultimately show ?thesis by simp
  qed
  assume "finding_id now i ty = finding_id now j ty'"
  then have "show_nat i = show_nat j" using seg [of i ty] seg [of j ty'] by simp
  then show "i = j" by (rule show_nat_inj)
qed

definition new_cards :: "(instant \<Rightarrow> string) \<Rightarrow> instant \<Rightarrow> Finding list \<Rightarrow> TimelineEntry list" where
  "new_cards fmt now fs = rev (map (\<lambda>i. finding_entry fmt now i (fs ! i)) [0..<length fs])"

lemma add_findings_eq:
  "add_findings fmt now k fs es = rev (map (\<lambda>i. finding_entry fmt now (k + i) (fs ! i)) [0..<length fs]) @ es"
proof (induction fs arbitrary: k es)
  case (Cons f fs)
  have "map (\<lambda>i. finding_entry fmt now (k + i) ((f # fs) ! i)) [0..<Suc (length fs)] =
      finding_entry fmt now k f # map (\<lambda>i. finding_entry fmt now (Suc k + i) (fs ! i)) [0..<length fs]"
    by (simp add: upt_conv_Cons map_Suc_upt [symmetric] comp_def del: upt_Suc)
  then show ?case using Cons.IH [of "Suc k" "finding_entry fmt now k f # es"] by (simp del: upt_Suc)
qed simp

lemma new_cards_ids: "distinct (map te_ID (new_cards fmt now fs))"
proof -
  have "map te_ID (new_cards fmt now fs) = rev (map (\<lambda>i. finding_id now i (fi_Type (fs ! i))) [0..<length fs])"
    by (simp add: new_cards_def rev_map [symmetric] comp_def finding_entry_def)
  moreover have "inj_on (\<lambda>i. finding_id now i (fi_Type (fs ! i))) A" for A by (rule inj_onI) (rule finding_id_inj)
  ultimately show ?thesis by (simp add: distinct_map)
qed

section \<open>The nearest snapshot\<close>

definition in_range :: "instant \<Rightarrow> 'd entries \<Rightarrow> bool" where
  "in_range now es = list_all (\<lambda>e. case entry_ns e of None \<Rightarrow> True | Some ns \<Rightarrow> \<bar>now - ns\<bar> < 2 ^ 62) es"

definition ns_dist :: "instant \<Rightarrow> instant \<Rightarrow> int" where
  "ns_dist target ns = (let s = time_Sub target ns in if s < 0 then neg64 s else s)"

lemma ns_dist_abs: "\<bar>target - ns\<bar> < 2 ^ 63 \<Longrightarrow> ns_dist target ns = \<bar>target - ns\<bar>"
  by (auto simp: ns_dist_def time_Sub_def neg64_def Let_def)

lemma entry_ns_name: "entry_ns e = Some ns \<Longrightarrow> fst e \<noteq> []"
  by (auto simp: entry_ns_def HasSuffix_def json_ext_def split: if_splits)

definition nearest_of :: "instant \<Rightarrow> 'd entries \<Rightarrow> string \<times> instant \<times> duration \<Rightarrow> bool" where
  "nearest_of target es b \<longleftrightarrow>
     (if fst b = [] then \<forall>e \<in> set es. entry_ns e = None
      else (\<exists>e \<in> set es. fst e = fst b \<and> entry_ns e = Some (fst (snd b))) \<and> snd (snd b) = ns_dist target (fst (snd b)) \<and>
        (\<forall>e \<in> set es. \<forall>ns. entry_ns e = Some ns \<longrightarrow> snd (snd b) \<le> ns_dist target ns))"

lemma nearest_step_eq:
  "nearest_step target e b = (case entry_ns e of None \<Rightarrow> b | Some ns \<Rightarrow>
     if fst b = [] \<or> ns_dist target ns < snd (snd b) then (fst e, ns, ns_dist target ns) else b)"
  by (simp add: nearest_step_def ns_dist_def Let_def split: option.split)

lemma nearest_of_step:
  assumes "nearest_of target es b"
  shows "nearest_of target (es @ [e]) (nearest_step target e b)"
proof (cases "entry_ns e")
  case None
  then show ?thesis using assms by (auto simp: nearest_of_def nearest_step_eq)
next
  case (Some ns)
  note name = entry_ns_name [OF Some]
  show ?thesis
  proof (cases "fst b = [] \<or> ns_dist target ns < snd (snd b)")
    case True
    then have "ns_dist target ns \<le> ns_dist target ns'" if "e' \<in> set es" "entry_ns e' = Some ns'" for e' ns'
      using assms that by (cases "fst b = []") (auto simp: nearest_of_def intro: order.trans [OF less_imp_le])
    then show ?thesis using True Some name by (simp add: nearest_of_def nearest_step_eq)
  next
    case False
    then show ?thesis using assms Some by (auto simp: nearest_of_def nearest_step_eq)
  qed
qed

lemma fold_nearest: "nearest_of target es (fold (nearest_step target) es ([], 0, 0))"
proof (induction es rule: rev_induct)
  case (snoc e es)
  then show ?case using nearest_of_step [OF snoc] by simp
qed (simp add: nearest_of_def)

text \<open>A snapshot of a directory and its time.\<close>

definition snapshots_of :: "'d entries \<Rightarrow> (instant \<times> 'd) set" where
  "snapshots_of es = set (read_snapshots es)"

lemma case_snap:
  "(case (t, n) of (Some ns, File x) \<Rightarrow> Some (ns, x) | _ \<Rightarrow> None) = Some (ns, x) \<longleftrightarrow> t = Some ns \<and> n = File x"
  by (cases t; cases n) auto

lemma snapshots_of_iff: "(ns, x) \<in> snapshots_of es \<longleftrightarrow> (\<exists>n. (n, File x) \<in> set es \<and> entry_ns (n, File x) = Some ns)"
proof -
  have "(ns, x) \<in> snapshots_of es \<longleftrightarrow> (\<exists>e \<in> set es. (case (entry_ns e, snd e) of (Some ns, File x) \<Rightarrow> Some (ns, x) | _ \<Rightarrow> None) = Some (ns, x))"
    by (force simp: snapshots_of_def read_snapshots_def List.map_filter_def image_iff)
  also have "\<dots> \<longleftrightarrow> (\<exists>e \<in> set es. entry_ns e = Some ns \<and> snd e = File x)" unfolding case_snap ..
  also have "\<dots> \<longleftrightarrow> (\<exists>n. (n, File x) \<in> set es \<and> entry_ns (n, File x) = Some ns)" by (metis prod.collapse snd_conv)
  finally show ?thesis .
qed

lemma ReadNearest_nearest:
  assumes "distinct (map fst es)" "snapshots_of es \<noteq> {}" "in_range now es" "now - 2 ^ 62 \<le> target" "target \<le> now"
  shows "\<exists>ns x. Domain_ReadNearest target (Some (Some es)) = Inr (ns, x) \<and> (ns, x) \<in> snapshots_of es \<and>
    (\<forall>(ns', x') \<in> snapshots_of es. \<bar>target - ns\<bar> \<le> \<bar>target - ns'\<bar>)"
proof -
  obtain name ns dist where f: "fold (nearest_step target) es ([], 0, 0) = (name, ns, dist)" by (cases "fold (nearest_step target) es ([], 0, 0)")
  have n: "nearest_of target es (name, ns, dist)" using fold_nearest [of target es] f by simp
  have range: "ns_dist target ns' = \<bar>target - ns'\<bar>" if "e \<in> set es" "entry_ns e = Some ns'" for e ns'
    using assms(3-5) that by (intro ns_dist_abs) (fastforce simp: in_range_def list_all_iff)
  have "name \<noteq> []" using n assms(2) by (auto simp: nearest_of_def snapshots_of_iff split: if_splits)
  then obtain e where e: "e \<in> set es" "fst e = name" "entry_ns e = Some ns" using n by (auto simp: nearest_of_def)
  have "snd e \<noteq> Dir" using e(3) by (auto simp: entry_ns_def)
  then obtain x where "snd e = File x" by (cases "snd e") auto
  then have x: "e = (name, File x)" using e(2) by (metis prod.collapse)
  have r: "Domain_ReadNearest target (Some (Some es)) = Inr (ns, x)"
    using f e(1) x assms(1) \<open>name \<noteq> []\<close> by (simp add: Domain_ReadNearest_def read_file_def map_of_is_SomeI)
  have "\<bar>target - ns\<bar> \<le> \<bar>target - ns'\<bar>" if "(ns', x') \<in> snapshots_of es" for ns' x'
    using that n \<open>name \<noteq> []\<close> range [OF e(1,3)] range by (fastforce simp: nearest_of_def snapshots_of_iff)
  then show ?thesis using r e x by (auto simp: snapshots_of_iff)
qed

definition nearest_at :: "instant \<Rightarrow> 'd entries \<Rightarrow> duration \<Rightarrow> instant \<Rightarrow> bool" where
  "nearest_at now es off ns \<longleftrightarrow> (\<forall>p \<in> snapshots_of es. \<bar>now - off - ns\<bar> \<le> \<bar>now - off - fst p\<bar>)"

text \<open>The points found so far, for the offsets \<open>bs\<close>.\<close>

definition points_ok ::
    "instant \<Rightarrow> 'd entries \<Rightarrow> (string \<times> duration) list \<Rightarrow> instant list \<times> (string \<times> instant \<times> 'd) list \<Rightarrow> bool" where
  "points_ok now es bs acc \<longleftrightarrow> set (fst acc) = (fst \<circ> snd) ` set (snd acc) \<and> distinct (map (fst \<circ> snd) (snd acc)) \<and>
     (\<forall>p \<in> set (snd acc). snd p \<in> snapshots_of es \<and> (\<exists>off. (fst p, off) \<in> set bs \<and> nearest_at now es off (fst (snd p)))) \<and>
     (\<forall>b \<in> set bs. \<exists>p \<in> set (snd acc). nearest_at now es (snd b) (fst (snd p)))"

lemma points_ok_step:
  assumes "distinct (map fst es)" "snapshots_of es \<noteq> {}" "in_range now es" "0 \<le> snd b" "snd b \<le> 2 ^ 62" "points_ok now es bs acc"
  shows "points_ok now es (bs @ [b]) (baseline_point now (Some (Some es)) b acc) \<and> (\<exists>ps. snd (baseline_point now (Some (Some es)) b acc) = snd acc @ ps)"
proof -
  obtain ns x where r: "Domain_ReadNearest (now - snd b) (Some (Some es)) = Inr (ns, x)" "(ns, x) \<in> snapshots_of es" "nearest_at now es (snd b) ns"
    using ReadNearest_nearest [OF assms(1-3), of "now - snd b"] assms(4,5) by (force simp: nearest_at_def)
  show ?thesis
  proof (cases "ns \<in> set (fst acc)")
    case True
    then have "\<exists>p \<in> set (snd acc). nearest_at now es (snd b) (fst (snd p))" using r(3) assms(6) by (auto simp: points_ok_def)
    then show ?thesis using True assms(6) r(1) by (auto simp: baseline_point_def points_ok_def)
  next
    case False
    then have a: "baseline_point now (Some (Some es)) b acc = (ns # fst acc, snd acc @ [(fst b, ns, x)])" using r(1) by (simp add: baseline_point_def)
    have "points_ok now es (bs @ [b]) (ns # fst acc, snd acc @ [(fst b, ns, x)])"
      using assms(6) r(2,3) False unfolding points_ok_def by (cases b) (auto simp: image_iff)
    then show ?thesis using a by simp
  qed
qed

text \<open>
  The comparison shows the host's own past. For a domain with snapshots, every point of the answer is a stored snapshot nearest to the time its
  name stands for, no snapshot is listed twice, the current one comes first, and each of now, an hour, a day and a week ago has its nearest
  snapshot among the points.
\<close>

theorem baseline_points_nearest:
  assumes "name \<noteq> []" "Store_Domain name s = Some es" "distinct (map fst es)" "snapshots_of es \<noteq> {}" "in_range now es"
  shows "\<exists>cur pts. compare_to_baseline now name s = Inr pts \<and> hd pts = (''current'', cur) \<and> distinct (map (fst \<circ> snd) pts) \<and>
    (\<forall>p \<in> set pts. snd p \<in> set (read_snapshots es) \<and>
      (\<exists>off. (fst p, off) \<in> set ((''current'', 0) # baselineOffsets) \<and> nearest_at now es off (fst (snd p)))) \<and>
    (\<forall>b \<in> set ((''current'', 0) # baselineOffsets). \<exists>p \<in> set pts. nearest_at now es (snd b) (fst (snd p)))"
proof -
  let ?d = "Some (Some es)"
  obtain ns x where r: "Domain_ReadNearest now ?d = Inr (ns, x)" "(ns, x) \<in> snapshots_of es" "nearest_at now es 0 ns"
    using ReadNearest_nearest [OF assms(3-5), of now] by (force simp: nearest_at_def)
  let ?a0 = "([ns], [(''current'', ns, x)])"
  have ok0: "points_ok now es [(''current'', 0)] ?a0" using r by (simp add: points_ok_def)
  note step = points_ok_step [OF assms(3-5)]
  obtain b1 b2 b3 where b: "baselineOffsets = [b1, b2, b3]" by (simp add: baselineOffsets_def)
  have o: "0 \<le> snd b1" "snd b1 \<le> 2 ^ 62" "0 \<le> snd b2" "snd b2 \<le> 2 ^ 62" "0 \<le> snd b3" "snd b3 \<le> 2 ^ 62"
    using b by (auto simp: baselineOffsets_def hour_def minute_def second_def)
  define a1 where "a1 = baseline_point now ?d b1 ?a0"
  define a2 where "a2 = baseline_point now ?d b2 a1"
  define a3 where "a3 = baseline_point now ?d b3 a2"
  note s1 = step [OF o(1,2) ok0, folded a1_def]
  note s2 = step [OF o(3,4) conjunct1 [OF s1], folded a2_def]
  note s3 = step [OF o(5,6) conjunct1 [OF s2], folded a3_def]
  have c: "compare_to_baseline now name s = Inr (snd a3)"
    using assms(1,2) r(1) by (simp add: compare_to_baseline_def b a1_def a2_def a3_def Let_def)
  obtain ps where ps: "snd a3 = (''current'', ns, x) # ps" using s1 s2 s3 by auto
  show ?thesis using c ps conjunct1 [OF s3] unfolding points_ok_def snapshots_of_def b
    by (intro exI [of _ "(ns, x)"] exI [of _ "snd a3"]) simp
qed

definition demo_past :: "(nat, nat) Store" where
  "demo_past = \<lparr>s_doms = [(''cpu'', [(snapshot_name 5, File 4), (snapshot_name 9, File 2)])], s_attrs = Missing, sizeBytes = 0\<rparr>"

theorem baseline_points_nearest_witness:
  "\<exists>cur pts. compare_to_baseline 10 ''cpu'' demo_past = Inr pts \<and> hd pts = (''current'', cur) \<and> length pts = 2 \<and> distinct (map (fst \<circ> snd) pts)"
proof -
  have d: "Store_Domain ''cpu'' demo_past = Some [(snapshot_name 5, File 4), (snapshot_name 9, File 2)]" by (simp add: Store_Domain_def demo_past_def)
  have n: "entry_ns (snapshot_name 5, File (4::nat)) = Some 5" "entry_ns (snapshot_name 9, File (2::nat)) = Some 9" by code_simp+
  have "distinct (map fst [(snapshot_name 5, File (4::nat)), (snapshot_name 9, File 2)])" by code_simp
  moreover have "snapshots_of [(snapshot_name 5, File (4::nat)), (snapshot_name 9, File 2)] \<noteq> {}"
    unfolding snapshots_of_def using n by (simp add: read_snapshots_def List.map_filter_def)
  moreover have "in_range 10 [(snapshot_name 5, File (4::nat)), (snapshot_name 9, File 2)]" by (simp add: in_range_def n)
  moreover have "map_sum id length (compare_to_baseline 10 ''cpu'' demo_past) = Inr 2" by code_simp
  ultimately show ?thesis using baseline_points_nearest [OF _ d, of 10] by (auto; fastforce)
qed

section \<open>Findings reach the timeline\<close>

text \<open>
  What the agent reports reaches the operator. A call that succeeds puts one card per finding before the timeline, the last
  finding first, with the finding's fields and identifiers that differ from each other, and keeps the newest fifty cards; a call that fails changes
  nothing. No other record is touched.
\<close>

theorem findings_recorded:
  assumes "report_findings ok fmt now ks mem fs m = (r, m')"
  shows "am_attrs m' = am_attrs m \<and>
    (if ok then am_timeline m' = Some (take 50 (new_cards fmt now fs @ (case am_timeline m of None \<Rightarrow> [] | Some es \<Rightarrow> es))) else m' = m) \<and>
    distinct (map te_ID (new_cards fmt now fs)) \<and> length (new_cards fmt now fs) = length fs"
  using assms new_cards_ids [of fmt now fs] add_findings_eq [of fmt now 0 fs]
  by (auto simp: report_findings_def Let_def new_cards_def maxEntries_def split: if_splits)

definition demo_finding :: Finding where
  "demo_finding = \<lparr>fi_Type = ''observation'', fi_Title = ''disk'', fi_Detail = [], fi_Severity = ''warning'', fi_Risk = [], fi_ProposedAction = [], fi_Status = []\<rparr>"

theorem findings_recorded_witness:
  "\<exists>r m. report_findings True (\<lambda>_. ''t'') 7 [] None [demo_finding, demo_finding] \<lparr>am_attrs = Missing, am_timeline = None\<rparr> = (r, m) \<and>
     map_option length (am_timeline m) = Some 2"
proof -
  obtain r m where e: "report_findings True (\<lambda>_. ''t'') 7 [] None [demo_finding, demo_finding] \<lparr>am_attrs = Missing, am_timeline = None\<rparr> = (r, m)"
    by (rule prod.exhaust)
  from findings_recorded [OF e] have "map_option length (am_timeline m) = Some 2" by (simp add: new_cards_def)
  with e show ?thesis by blast
qed

end
