(* ===== verification/Config.thy ===== *)
theory Config
  imports Conn_Monitor Login_Monitor Posture "HOL-Library.Sublist"
begin

text \<open>
  The configuration of the endpoint server (\<open>utils/config/config.go\<close>) and what \<open>main.go\<close> makes of its list of responsibilities. The YAML
  decoder is not modelled: a file is missing, unreadable, or holds the value it decodes to. The text of the built-in prompt is an argument.
\<close>

section \<open>Settings\<close>

record Settings =
  st_Agent :: agent_cfg
  st_Model :: string
  st_SystemPrompt :: string
  st_APIKey :: string
  st_BaseURL :: string
  st_LogLevel :: string
  st_LogFile :: string
  st_MaxBackups :: int
  st_Enabled :: "string list"
  st_TasksFile :: string
  st_Host :: string
  st_Port :: int
  st_Name :: string
  st_PublicURL :: string
  st_Scheme :: string
  st_Token :: string
  st_Root :: string
  st_Heartbeat :: string
  st_LoginMonitor :: LoginMonitorSettings
  st_PollInterval :: string
  st_HistoryLimit :: int
  st_NetworkMonitor :: NetworkMonitorSettings
  st_SummaryTTL :: string
  st_Responsibilities :: "ResponsibilitySettings list"
  st_ResponsibilitySystemPrompt :: string
  st_SystemPurpose :: string
  st_BaselinePorts :: "BaselinePortEntry list"

datatype 'a conf_file = NoFile | BadFile string | Contents 'a

record conf_dir =
  cd_main :: "(string + Settings) conf_file"
  cd_prompt :: "string conf_file"
  cd_purpose :: "string conf_file"
  cd_ports :: "string list list csv_file"
  cd_responsibilities :: "(string + ResponsibilitySettings list) conf_file"

definition filePath :: "string \<Rightarrow> string" where
  "filePath env = (if env \<noteq> [] then env else ''config.yaml'')"

section \<open>The files beside the configuration\<close>

definition loadPurpose :: "string conf_file \<Rightarrow> string + string" where
  "loadPurpose f = (case f of NoFile \<Rightarrow> Inr [] | BadFile e \<Rightarrow> Inl e | Contents t \<Rightarrow> Inr (TrimSpace t))"

definition loadOSSystemPrompt :: "string conf_file \<Rightarrow> string + string" where
  "loadOSSystemPrompt f = (case f of NoFile \<Rightarrow> Inr [] | BadFile e \<Rightarrow> Inl e | Contents t \<Rightarrow> Inr (TrimSpace t))"

definition loadOSResponsibilities :: "(string + ResponsibilitySettings list) conf_file \<Rightarrow> string + ResponsibilitySettings list" where
  "loadOSResponsibilities f = (case f of NoFile \<Rightarrow> Inr [] | BadFile e \<Rightarrow> Inl e | Contents (Inl e) \<Rightarrow> Inl e | Contents (Inr rs) \<Rightarrow> Inr rs)"

definition purposePromptBlock :: "string \<Rightarrow> string" where
  "purposePromptBlock purpose = nl @ nl @ ''System purpose: '' @ purpose @ nl @
     ''Weigh this stated purpose when judging severity and remediation: normal '' @
     ''resource usage, running processes, or open connections that serve this '' @
     ''purpose are not incidents on their own. Do not recommend stopping, '' @
     ''disabling, or removing a service that is core to this system'' @ [CHR 0x27] @ ''s purpose '' @
     ''in order to free resources'' @ dash @ ''flag it only if it is genuinely malfunctioning.''"

definition mergeResponsibilities :: "ResponsibilitySettings list \<Rightarrow> ResponsibilitySettings list \<Rightarrow> ResponsibilitySettings list" where
  "mergeResponsibilities base override =
     (if base = [] then override
      else filter (\<lambda>r. rc_Name r \<notin> rc_Name ` set override) base @ override)"

section \<open>Loading\<close>

definition or_text :: "string \<Rightarrow> string \<Rightarrow> string" where
  "or_text s d = (if s = [] then d else s)"

definition apply_defaults :: "string option \<Rightarrow> Settings \<Rightarrow> Settings" where
  "apply_defaults hostname s =
     (let port = (if st_Port s = 0 then 8080 else st_Port s); lm = st_LoginMonitor s in
      s\<lparr>st_Host := or_text (st_Host s) ''0.0.0.0'',
        st_Name := (if st_Name s = [] then (case hostname of Some h \<Rightarrow> h | None \<Rightarrow> []) else st_Name s),
        st_Port := port,
        st_NetworkMonitor := (st_NetworkMonitor s)\<lparr>nc_OwnPort := port\<rparr>,
        st_Scheme := or_text (st_Scheme s) ''none'',
        st_Root := or_text (st_Root s) ''./agent_memory'',
        st_Heartbeat := or_text (st_Heartbeat s) ''1s'',
        st_MaxBackups := (if st_MaxBackups s = 0 then 10 else st_MaxBackups s),
        st_Agent := (st_Agent s)\<lparr>ag_RequestTimeout := or_text (ag_RequestTimeout (st_Agent s)) ''6m''\<rparr>,
        st_Model := or_text (st_Model s) ''DEFAULT'',
        st_LoginMonitor := lm\<lparr>lc_FailedLoginThreshold := (if lc_FailedLoginThreshold lm \<le> 0 then 3 else lc_FailedLoginThreshold lm),
                              lc_BaselineMinEvents := (if lc_BaselineMinEvents lm \<le> 0 then 5 else lc_BaselineMinEvents lm)\<rparr>,
        st_SummaryTTL := or_text (st_SummaryTTL s) ''5m''\<rparr>)"

definition with_prompt :: "string \<Rightarrow> string conf_file \<Rightarrow> Settings \<Rightarrow> Settings" where
  "with_prompt builtin f s =
     (if st_ResponsibilitySystemPrompt s \<noteq> [] then s
      else s\<lparr>st_ResponsibilitySystemPrompt := or_text (case loadOSSystemPrompt f of Inl _ \<Rightarrow> [] | Inr t \<Rightarrow> t) builtin\<rparr>)"

definition with_purpose :: "string conf_file \<Rightarrow> Settings \<Rightarrow> Settings" where
  "with_purpose f s =
     (case loadPurpose f of
        Inr (c # t) \<Rightarrow>
          s\<lparr>st_SystemPurpose := c # t, st_SystemPrompt := st_SystemPrompt s @ purposePromptBlock (c # t),
            st_ResponsibilitySystemPrompt := st_ResponsibilitySystemPrompt s @ purposePromptBlock (c # t)\<rparr>
      | _ \<Rightarrow> s)"

definition config_Load :: "string \<Rightarrow> string option \<Rightarrow> conf_dir \<Rightarrow> string + Settings" where
  "config_Load builtin hostname d =
     (case cd_main d of
        NoFile \<Rightarrow> Inl ''config: reading''
      | BadFile e \<Rightarrow> Inl (''config: reading: '' @ e)
      | Contents (Inl e) \<Rightarrow> Inl (''config: parsing: '' @ e)
      | Contents (Inr s) \<Rightarrow>
          let s = with_purpose (cd_purpose d) (with_prompt builtin (cd_prompt d) (apply_defaults hostname s)) in
          Inr (s\<lparr>st_BaselinePorts := (case loadBaselinePorts (cd_ports d) of Inl _ \<Rightarrow> [] | Inr bs \<Rightarrow> bs),
                 st_Responsibilities := mergeResponsibilities
                   (case loadOSResponsibilities (cd_responsibilities d) of Inl _ \<Rightarrow> [] | Inr rs \<Rightarrow> rs) (st_Responsibilities s)\<rparr>))"

section \<open>Responsibilities of the host\<close>

text \<open>
  \<open>runServer\<close> adds a responsibility for each survey that finds something to watch (NFS mounts, containers, temperature sensors), unless one
  of that name is configured, and then builds the schedule.
\<close>

definition inject :: "ResponsibilitySettings option \<Rightarrow> ResponsibilitySettings list \<Rightarrow> ResponsibilitySettings list" where
  "inject auto rs = (case auto of None \<Rightarrow> rs | Some r \<Rightarrow> if list_ex (\<lambda>x. rc_Name x = rc_Name r) rs then rs else rs @ [r])"

definition host_responsibilities :: "ResponsibilitySettings option list \<Rightarrow> ResponsibilitySettings list \<Rightarrow> ResponsibilitySettings list" where
  "host_responsibilities autos rs = fold inject autos rs"

text \<open>The name of the host's first address that has one.\<close>

definition lookupFQDN :: "resolver \<Rightarrow> string option \<Rightarrow> string option" where
  "lookupFQDN dns hostname =
     (case Option.bind hostname (LookupHost dns) of
        None \<Rightarrow> None
      | Some addrs \<Rightarrow>
          (case List.map_filter (\<lambda>a. case LookupAddr dns a of Some (n # _) \<Rightarrow> Some (TrimSuffix n ''.'') | _ \<Rightarrow> None) addrs of
             [] \<Rightarrow> None | n # _ \<Rightarrow> Some n))"

definition cardURL :: "Settings \<Rightarrow> string option \<Rightarrow> string option \<Rightarrow> string" where
  "cardURL s fqdn hostname =
     (if st_PublicURL s \<noteq> [] then st_PublicURL s
      else
        let host = (if st_Host s = ''0.0.0.0'' \<or> st_Host s = []
                    then (case fqdn of Some f \<Rightarrow> f | None \<Rightarrow> (case hostname of Some h \<Rightarrow> h | None \<Rightarrow> ''localhost'')) else st_Host s)
        in ''http://'' @ host @ '':'' @ show_int (st_Port s))"

section \<open>A complete configuration\<close>

lemma or_text_simps [simp]: "d \<noteq> [] \<Longrightarrow> or_text s d \<noteq> []" "s \<noteq> [] \<Longrightarrow> or_text s d = s"
  by (simp_all add: or_text_def)

definition prompted :: "string \<Rightarrow> string option \<Rightarrow> conf_dir \<Rightarrow> Settings \<Rightarrow> Settings" where
  "prompted builtin hostname d s0 = with_purpose (cd_purpose d) (with_prompt builtin (cd_prompt d) (apply_defaults hostname s0))"

lemma load_value:
  assumes "config_Load builtin hostname d = Inr s" "cd_main d = Contents (Inr s0)"
  shows "s = (prompted builtin hostname d s0)\<lparr>st_BaselinePorts := (case loadBaselinePorts (cd_ports d) of Inl _ \<Rightarrow> [] | Inr bs \<Rightarrow> bs),
    st_Responsibilities := mergeResponsibilities (case loadOSResponsibilities (cd_responsibilities d) of Inl _ \<Rightarrow> [] | Inr rs \<Rightarrow> rs)
      (st_Responsibilities (prompted builtin hostname d s0))\<rparr>"
  using assms by (simp add: config_Load_def prompted_def Let_def)

text \<open>The fields that the prompt and the purpose do not touch.\<close>

definition same_core :: "Settings \<Rightarrow> Settings \<Rightarrow> bool" where
  "same_core s t \<longleftrightarrow> st_Host s = st_Host t \<and> st_Port s = st_Port t \<and> st_NetworkMonitor s = st_NetworkMonitor t \<and> st_Scheme s = st_Scheme t \<and>
     st_Token s = st_Token t \<and> st_Root s = st_Root t \<and> st_Heartbeat s = st_Heartbeat t \<and> st_MaxBackups s = st_MaxBackups t \<and> st_Agent s = st_Agent t \<and>
     st_Model s = st_Model t \<and> st_LoginMonitor s = st_LoginMonitor t \<and> st_SummaryTTL s = st_SummaryTTL t \<and>
     st_Responsibilities s = st_Responsibilities t"

lemma same_core_prompt: "same_core (with_prompt builtin f s) s"
  by (simp add: same_core_def with_prompt_def)

lemma same_core_purpose: "same_core (with_purpose f s) s"
  by (simp add: same_core_def with_purpose_def split: sum.split list.split)

lemma same_core_trans: "same_core s t \<Longrightarrow> same_core t u \<Longrightarrow> same_core s u"
  by (simp add: same_core_def)

lemma same_core_load: "same_core (prompted builtin hostname d s0) (apply_defaults hostname s0)"
  unfolding prompted_def by (rule same_core_trans [OF same_core_purpose same_core_prompt])

lemma prompt_complete:
  assumes "builtin \<noteq> []"
  shows "st_ResponsibilitySystemPrompt (with_purpose f (with_prompt builtin g s)) \<noteq> []"
  using assms by (auto simp: with_purpose_def with_prompt_def split: sum.split list.split)

text \<open>
  A configuration that loads is complete. Whatever the file leaves out, after loading there is an address and a port to listen on, the
  monitor of connections knows that port as its own, a scheme, a memory directory, a heartbeat, a timeout, a model, a system prompt and positive thresholds; and
  a value that the file gives is kept.
\<close>

theorem settings_complete:
  assumes "config_Load builtin hostname d = Inr s" "cd_main d = Contents (Inr s0)" "builtin \<noteq> []"
  shows "(st_Host s \<noteq> [] \<and> st_Port s \<noteq> 0 \<and> nc_OwnPort (st_NetworkMonitor s) = st_Port s \<and> st_Scheme s \<noteq> [] \<and> st_Root s \<noteq> [] \<and>
      st_Heartbeat s \<noteq> [] \<and> st_MaxBackups s \<noteq> 0 \<and> ag_RequestTimeout (st_Agent s) \<noteq> [] \<and> st_Model s \<noteq> [] \<and> st_SummaryTTL s \<noteq> [] \<and>
      st_ResponsibilitySystemPrompt s \<noteq> [] \<and> 0 < lc_FailedLoginThreshold (st_LoginMonitor s) \<and> 0 < lc_BaselineMinEvents (st_LoginMonitor s)) \<and>
    (st_Host s0 \<noteq> [] \<longrightarrow> st_Host s = st_Host s0) \<and> (st_Port s0 \<noteq> 0 \<longrightarrow> st_Port s = st_Port s0) \<and> (st_Scheme s0 \<noteq> [] \<longrightarrow> st_Scheme s = st_Scheme s0) \<and>
    st_Token s = st_Token s0 \<and> (st_Root s0 \<noteq> [] \<longrightarrow> st_Root s = st_Root s0) \<and> (st_Model s0 \<noteq> [] \<longrightarrow> st_Model s = st_Model s0) \<and>
    ag_MaxIter (st_Agent s) = ag_MaxIter (st_Agent s0) \<and> lc_AllowedSources (st_LoginMonitor s) = lc_AllowedSources (st_LoginMonitor s0) \<and>
    (0 < lc_FailedLoginThreshold (st_LoginMonitor s0) \<longrightarrow> lc_FailedLoginThreshold (st_LoginMonitor s) = lc_FailedLoginThreshold (st_LoginMonitor s0))"
proof -
  note c = same_core_load [of builtin hostname d s0]
  have p: "st_ResponsibilitySystemPrompt (prompted builtin hostname d s0) \<noteq> []" unfolding prompted_def by (rule prompt_complete [OF assms(3)])
  note s = load_value [OF assms(1,2)]
  show ?thesis using c p by (simp add: s same_core_def apply_defaults_def Let_def)
qed

section \<open>The list of responsibilities\<close>

lemma set_merge: "set (mergeResponsibilities base override) = set override \<union> {r \<in> set base. rc_Name r \<notin> rc_Name ` set override}"
  by (auto simp: mergeResponsibilities_def)

lemma distinct_merge:
  "distinct (map rc_Name base) \<Longrightarrow> distinct (map rc_Name override) \<Longrightarrow> distinct (map rc_Name (mergeResponsibilities base override))"
  by (auto simp: mergeResponsibilities_def distinct_map_filter)

lemma inject_facts:
  shows "set rs \<subseteq> set (inject auto rs)" "set (inject auto rs) \<subseteq> set rs \<union> set_option auto"
    and "distinct (map rc_Name rs) \<Longrightarrow> distinct (map rc_Name (inject auto rs))"
    and "r \<in> set_option auto \<Longrightarrow> rc_Name r \<in> rc_Name ` set (inject auto rs)"
  by (auto simp: inject_def list_ex_iff split: option.split) (metis imageI)

lemma host_keeps: "set rs \<subseteq> set (host_responsibilities autos rs)"
  unfolding host_responsibilities_def
proof (induction autos arbitrary: rs)
  case (Cons a autos)
  show ?case using Cons.IH [of "inject a rs"] inject_facts(1) [of rs a] by simp
qed simp

lemma host_only: "set (host_responsibilities autos rs) \<subseteq> set rs \<union> {r. Some r \<in> set autos}"
  unfolding host_responsibilities_def
proof (induction autos arbitrary: rs)
  case (Cons a autos)
  have "set_option a \<subseteq> {r. Some r \<in> set (a # autos)}" by auto
  then show ?case using Cons.IH [of "inject a rs"] inject_facts(2) [of a rs] by auto
qed simp

lemma host_autos: "Some r \<in> set autos \<Longrightarrow> rc_Name r \<in> rc_Name ` set (host_responsibilities autos rs)"
proof (induction autos arbitrary: rs)
  case (Cons a autos)
  have h: "host_responsibilities (a # autos) rs = host_responsibilities autos (inject a rs)" by (simp add: host_responsibilities_def)
  show ?case
  proof (cases "a = Some r")
    case True
    then show ?thesis unfolding h using inject_facts(4) [of r a rs] host_keeps [of "inject a rs" autos] by auto
  next
    case False
    then show ?thesis unfolding h using Cons by simp
  qed
qed simp

lemma host_distinct: "distinct (map rc_Name rs) \<Longrightarrow> distinct (map rc_Name (host_responsibilities autos rs))"
  unfolding host_responsibilities_def
proof (induction autos arbitrary: rs)
  case (Cons a autos)
  show ?case using Cons.IH [OF inject_facts(3) [OF Cons.prems]] by simp
qed simp

lemma NewResponsibility_cfg: "NewResponsibility dur now rc delay = Inr r \<Longrightarrow> rs_cfg r = rc"
  by (auto simp: NewResponsibility_def fresh_responsibility_def split: if_splits option.splits)

lemma distinct_sub: "subseq xs ys \<Longrightarrow> distinct ys \<Longrightarrow> distinct xs"
  by (auto simp: subseq_conv_nths distinct_nthsI)

lemma set_sub: "subseq xs ys \<Longrightarrow> set xs \<subseteq> set ys"
  by (auto simp: subseq_conv_nths dest: in_set_nthsD)

lemma loop_New_sub: "subseq (map rs_cfg (loop_New dur delay rcs)) (map fst rcs)"
proof (induction rcs)
  case (Cons x rcs)
  obtain rc now where x: "x = (rc, now)" by (cases x)
  show ?case
  proof (cases "NewResponsibility dur now rc delay")
    case (Inl e)
    then show ?thesis using Cons by (simp add: x list_emb_Cons)
  next
    case (Inr r)
    then show ?thesis using Cons NewResponsibility_cfg [OF Inr] by (simp add: x)
  qed
qed simp

text \<open>
  The schedule is the configured one. When the names within each file are distinct, no two responsibilities of the host share a name, so
  each has its own run state; every entry of the host's own file is there, an entry of the file for the operating system is there exactly unless
  the host's file has one of its name, a survey adds one only for a name that is not configured, nothing else is scheduled, and the scheduler
  is built from these.
\<close>

theorem responsibilities_configured:
  assumes "config_Load builtin hostname d = Inr s" "cd_main d = Contents (Inr s0)" "loadOSResponsibilities (cd_responsibilities d) = Inr base"
    and "distinct (map rc_Name base)" "distinct (map rc_Name (st_Responsibilities s0))"
    and "rs = host_responsibilities autos (st_Responsibilities s)" "map fst rcs = rs"
  shows "distinct (map rc_Name rs) \<and> set (st_Responsibilities s0) \<subseteq> set rs \<and>
    {r \<in> set base. rc_Name r \<notin> rc_Name ` set (st_Responsibilities s0)} \<subseteq> set rs \<and>
    set rs \<subseteq> set (st_Responsibilities s0) \<union> {r \<in> set base. rc_Name r \<notin> rc_Name ` set (st_Responsibilities s0)} \<union> {r. Some r \<in> set autos} \<and>
    (\<forall>r. Some r \<in> set autos \<longrightarrow> rc_Name r \<in> rc_Name ` set rs) \<and>
    distinct (map (rc_Name \<circ> rs_cfg) (loop_New dur delay rcs)) \<and> rs_cfg ` set (loop_New dur delay rcs) \<subseteq> set rs"
proof -
  have "st_Responsibilities (prompted builtin hostname d s0) = st_Responsibilities s0"
    using same_core_load [of builtin hostname d s0] by (simp add: same_core_def apply_defaults_def Let_def)
  then have m: "st_Responsibilities s = mergeResponsibilities base (st_Responsibilities s0)"
    by (simp add: load_value [OF assms(1,2)] assms(3))
  have d: "distinct (map rc_Name rs)" using host_distinct distinct_merge [OF assms(4,5)] by (simp add: assms(6) m)
  have sub: "subseq (map rs_cfg (loop_New dur delay rcs)) rs" using loop_New_sub [of dur delay rcs] assms(7) by simp
  then have "subseq (map rc_Name (map rs_cfg (loop_New dur delay rcs))) (map rc_Name rs)" by (rule subseq_map)
  then have n: "distinct (map (rc_Name \<circ> rs_cfg) (loop_New dur delay rcs))" using distinct_sub [OF _ d] by simp
  have c: "rs_cfg ` set (loop_New dur delay rcs) \<subseteq> set rs" using set_sub [OF sub] by simp
  have k: "set (st_Responsibilities s0) \<union> {r \<in> set base. rc_Name r \<notin> rc_Name ` set (st_Responsibilities s0)} \<subseteq> set rs"
    using host_keeps [of "st_Responsibilities s" autos] unfolding assms(6) m set_merge .
  have o: "set rs \<subseteq> set (st_Responsibilities s0) \<union> {r \<in> set base. rc_Name r \<notin> rc_Name ` set (st_Responsibilities s0)} \<union> {r. Some r \<in> set autos}"
    using host_only [of autos "st_Responsibilities s"] unfolding assms(6) m set_merge .
  have a: "\<forall>r. Some r \<in> set autos \<longrightarrow> rc_Name r \<in> rc_Name ` set rs" using host_autos by (simp add: assms(6))
  from k have "set (st_Responsibilities s0) \<subseteq> set rs" "{r \<in> set base. rc_Name r \<notin> rc_Name ` set (st_Responsibilities s0)} \<subseteq> set rs" by simp_all
  then show ?thesis using d n c o a by (intro conjI)
qed

definition demo_duty :: "string \<Rightarrow> string \<Rightarrow> ResponsibilitySettings" where
  "demo_duty name freq = \<lparr>rc_Name = name, rc_Frequency = freq, rc_Time = [], rc_Instruction = ''check'', rc_Tools = [], rc_WhenToNotify = ''always''\<rparr>"

definition demo_config :: Settings where
  "demo_config = \<lparr>st_Agent = \<lparr>ag_MaxTokens = 1000, ag_ResponsibilityMaxTokens = 0, ag_MaxIter = 10, ag_RequestTimeout = []\<rparr>,
     st_Model = [], st_SystemPrompt = [], st_APIKey = [], st_BaseURL = [], st_LogLevel = [], st_LogFile = [], st_MaxBackups = 0, st_Enabled = [],
     st_TasksFile = [], st_Host = [], st_Port = 9001, st_Name = [], st_PublicURL = [], st_Scheme = ''bearer'', st_Token = ''t'', st_Root = [],
     st_Heartbeat = [], st_LoginMonitor = \<lparr>lc_AllowedSources = [], lc_FailedLoginThreshold = 0, lc_DisableBaseline = False, lc_BaselineMinEvents = 0\<rparr>,
     st_PollInterval = [], st_HistoryLimit = 0, st_NetworkMonitor = \<lparr>nc_DisableBaseline = False, nc_OwnPort = 0\<rparr>, st_SummaryTTL = [],
     st_Responsibilities = [demo_duty ''disk-space-check'' ''5m''], st_ResponsibilitySystemPrompt = [], st_SystemPurpose = [], st_BaselinePorts = []\<rparr>"

definition demo_dir :: conf_dir where
  "demo_dir = \<lparr>cd_main = Contents (Inr demo_config), cd_prompt = NoFile, cd_purpose = Contents ''build host'', cd_ports = CsvMissing,
     cd_responsibilities = Contents (Inr [demo_duty ''disk-space-check'' ''1h'', demo_duty ''cpu-utilization-check'' ''10m''])\<rparr>"

theorem settings_complete_witness:
  "\<exists>s. config_Load ''You are'' (Some ''host1'') demo_dir = Inr s \<and> st_Port s = 9001 \<and> nc_OwnPort (st_NetworkMonitor s) = 9001 \<and> st_Scheme s = ''bearer'' \<and>
     st_Host s \<noteq> [] \<and> 0 < lc_FailedLoginThreshold (st_LoginMonitor s)"
proof -
  have main: "cd_main demo_dir = Contents (Inr demo_config)" by (simp add: demo_dir_def)
  then obtain s where s: "config_Load ''You are'' (Some ''host1'') demo_dir = Inr s" by (simp add: config_Load_def Let_def)
  have c: "st_Port demo_config = 9001" "st_Scheme demo_config = ''bearer''" by (simp_all add: demo_config_def)
  from settings_complete [OF s main] c s show ?thesis by simp
qed

theorem responsibilities_configured_witness:
  "\<exists>s rs. config_Load ''You are'' None demo_dir = Inr s \<and> rs = host_responsibilities [Some (demo_duty ''nfs-health-check'' ''5m''), None] (st_Responsibilities s) \<and>
     distinct (map rc_Name rs) \<and> rc_Name ` set rs = {''disk-space-check'', ''cpu-utilization-check'', ''nfs-health-check''} \<and> demo_duty ''disk-space-check'' ''5m'' \<in> set rs"
proof -
  have main: "cd_main demo_dir = Contents (Inr demo_config)" by (simp add: demo_dir_def)
  then obtain s where s: "config_Load ''You are'' None demo_dir = Inr s" by (simp add: config_Load_def Let_def)
  define autos where "autos = [Some (demo_duty ''nfs-health-check'' ''5m''), None]"
  define rs where "rs = host_responsibilities autos (st_Responsibilities s)"
  define base where "base = [demo_duty ''disk-space-check'' ''1h'', demo_duty ''cpu-utilization-check'' ''10m'']"
  have b: "loadOSResponsibilities (cd_responsibilities demo_dir) = Inr base" by (simp add: loadOSResponsibilities_def demo_dir_def base_def)
  have own: "st_Responsibilities demo_config = [demo_duty ''disk-space-check'' ''5m'']" by (simp add: demo_config_def)
  have d: "distinct (map rc_Name base)" "distinct (map rc_Name (st_Responsibilities demo_config))" by (simp_all add: base_def own demo_duty_def)
  have rcs: "map fst (map (\<lambda>r. (r, zero_time)) rs) = rs" by (simp add: comp_def)
  note t = responsibilities_configured [OF s main b d rs_def rcs, of "\<lambda>_. None" 0]
  have n: "{r \<in> set base. rc_Name r \<notin> rc_Name ` set (st_Responsibilities demo_config)} = {demo_duty ''cpu-utilization-check'' ''10m''}"
    by (auto simp: base_def own demo_duty_def)
  have a: "{r. Some r \<in> set autos} = {demo_duty ''nfs-health-check'' ''5m''}" by (auto simp: autos_def)
  have sub: "rc_Name ` set rs \<subseteq> {''disk-space-check'', ''cpu-utilization-check'', ''nfs-health-check''}"
    using t unfolding n a unfolding own by (auto simp: demo_duty_def)
  have in_rs: "demo_duty ''disk-space-check'' ''5m'' \<in> set rs" "demo_duty ''cpu-utilization-check'' ''10m'' \<in> set rs" "''nfs-health-check'' \<in> rc_Name ` set rs"
    using t unfolding n unfolding own by (auto simp: autos_def demo_duty_def)
  then have "{''disk-space-check'', ''cpu-utilization-check'', ''nfs-health-check''} \<subseteq> rc_Name ` set rs"
    using imageI [OF in_rs(1), of rc_Name] imageI [OF in_rs(2), of rc_Name] by (simp add: demo_duty_def)
  with sub have "rc_Name ` set rs = {''disk-space-check'', ''cpu-utilization-check'', ''nfs-health-check''}" by (rule equalityI)
  then show ?thesis using in_rs(1) conjunct1 [OF t] s rs_def unfolding autos_def by (intro exI [of _ s] exI [of _ rs] conjI)
qed

end
