(* ===== verification/Http_Api.thy ===== *)
theory Http_Api
  imports Config Status_Report Agent_Tools Approved_Command
begin

text \<open>
  The HTTP interface of the endpoint server: the handlers of \<open>policyapi\<close>, \<open>findingsapi\<close>, \<open>memoryapi\<close>, \<open>logapi\<close>, \<open>loginapi\<close> and \<open>networkapi\<close>,
  and the routes and the authentication of \<open>main.go\<close> that join them with the endpoints for approvals, manual runs, responsibilities and status. The
  JSON-RPC server behind the remaining paths is a parameter, and so is what the body of a request decodes to.
\<close>

section \<open>Requests\<close>

record http_request =
  hr_method :: string
  hr_raw :: string                \<comment> \<open>the path as sent, escaped\<close>
  hr_path :: string               \<comment> \<open>the path, decoded\<close>
  hr_auth :: "string list"        \<comment> \<open>the values of the header \<open>Authorization\<close>\<close>
  hr_priority :: string           \<comment> \<open>the header \<open>X-Priority\<close>\<close>
  hr_decision :: "(string \<times> string) option"            \<comment> \<open>the body as a decision with its reason\<close>
  hr_result :: "(string \<times> string) option"              \<comment> \<open>the body as the status and output of a manual run\<close>
  hr_policy :: "(string \<times> string \<times> string) option"   \<comment> \<open>the body as description, pattern and risk\<close>

section \<open>Policies\<close>

definition trim_slashes :: "string \<Rightarrow> string" where
  "trim_slashes s = rev (dropWhile (\<lambda>c. c = CHR ''/'') (rev (dropWhile (\<lambda>c. c = CHR ''/'') s)))"

datatype policy_body = PolicyList "Policy list" | PolicyOne Policy | PolicyNone

definition policies_create ::
    "compiler \<Rightarrow> wr \<Rightarrow> (instant \<Rightarrow> string) \<Rightarrow> instant \<Rightarrow> instant \<Rightarrow> (string \<times> string \<times> string) option \<Rightarrow> amem \<Rightarrow> nat \<times> policy_body \<times> amem" where
  "policies_create compile wr fmt t1 t2 body m =
     (case body of
        None \<Rightarrow> (400, PolicyNone, m)
      | Some (description, pattern, risk) \<Rightarrow>
          (case Policy_Add compile wr fmt t1 t2 description pattern risk (Some m) of
             (Inl e, m') \<Rightarrow> (400, PolicyNone, the m')
           | (Inr p, m') \<Rightarrow> (201, PolicyOne p, the m')))"

definition policies_delete :: "wr \<Rightarrow> string \<Rightarrow> amem \<Rightarrow> nat \<times> policy_body \<times> amem" where
  "policies_delete wr i m =
     (case Policy_Delete wr i (Some m) of
        (Inl e, m') \<Rightarrow> (404, PolicyNone, the m')
      | (Inr _, m') \<Rightarrow> (204, PolicyNone, the m'))"

definition policies_handler ::
    "compiler \<Rightarrow> wr \<Rightarrow> (instant \<Rightarrow> string) \<Rightarrow> instant \<Rightarrow> instant \<Rightarrow> http_request \<Rightarrow> amem \<Rightarrow> nat \<times> policy_body \<times> amem" where
  "policies_handler compile wr fmt t1 t2 r m =
     (let i = trim_slashes (TrimPrefix (hr_path r) ''/policies'') in
      if hr_method r = ''GET'' \<and> i = [] then (200, PolicyList (Policy_All (Some m)), m)
      else if hr_method r = ''POST'' \<and> i = [] then policies_create compile wr fmt t1 t2 (hr_policy r) m
      else if hr_method r = ''DELETE'' \<and> i \<noteq> [] then policies_delete wr i m
      else (405, PolicyNone, m))"

section \<open>Findings\<close>

datatype resolve_result = NoFinding | NotAFinding | ResolveFailed | ResolvedFinding

definition resolve_finding :: "wr \<Rightarrow> string \<Rightarrow> amem \<Rightarrow> resolve_result \<times> amem" where
  "resolve_finding wr i m =
     (let es = (case am_timeline m of None \<Rightarrow> [] | Some es \<Rightarrow> es) in
      case find_first (\<lambda>e. te_ID e = i) es of
        None \<Rightarrow> (NoFinding, m)
      | Some e \<Rightarrow>
          if te_Severity e = [] then (NotAFinding, m)
          else (case tl_write wr i (update_first (\<lambda>e. te_ID e = i) (\<lambda>e. e\<lparr>te_Status := Some ''resolved''\<rparr>) es) m of
                  (Inl _, m) \<Rightarrow> (ResolveFailed, m)
                | (Inr _, m) \<Rightarrow> (ResolvedFinding, m)))"

definition findings_handler :: "wr \<Rightarrow> http_request \<Rightarrow> amem \<Rightarrow> nat \<times> amem" where
  "findings_handler wr r m =
     (if hr_method r \<noteq> ''POST'' then (405, m)
      else case path_id ''/findings/'' ''resolve'' (hr_path r) of
        None \<Rightarrow> (404, m)
      | Some i \<Rightarrow>
          (case resolve_finding wr i m of
             (ResolveFailed, m) \<Rightarrow> (500, m)
           | (NoFinding, m) \<Rightarrow> (404, m)
           | (NotAFinding, m) \<Rightarrow> (400, m)
           | (ResolvedFinding, m) \<Rightarrow> (200, m)))"

section \<open>The log\<close>

definition maxLogBytes :: nat where "maxLogBytes = 2 ^ 20"

text \<open>The content of the answer and whether it is truncated.\<close>

definition log_handler :: "string \<Rightarrow> string conf_file \<Rightarrow> string \<Rightarrow> nat \<times> string \<times> bool" where
  "log_handler path f verb =
     (if verb \<noteq> ''GET'' then (405, [], False)
      else if path = [] then (200, [], False)
      else case f of
        NoFile \<Rightarrow> (200, [], False)
      | BadFile _ \<Rightarrow> (500, [], False)
      | Contents t \<Rightarrow> if length t > maxLogBytes then (200, drop (length t - maxLogBytes) t, True) else (200, t, False))"

section \<open>Logins and connections\<close>

record SessionItem =
  se_EventType :: string
  se_SessionID :: string
  se_Username :: string
  se_Class :: string
  se_SessionType :: string
  se_Remote :: bool
  se_RemoteHost :: string
  se_SourceIP :: string
  se_ResolvedHostname :: string
  se_TTY :: string
  se_Timestamp :: string

record FailedItem =
  fa_Username :: string
  fa_SourceIP :: string
  fa_RemoteHost :: string
  fa_ResolvedHostname :: string
  fa_Timestamp :: string
  fa_Service :: string
  fa_Reason :: string

record login_response =
  lr_Active :: "SessionItem list"
  lr_RecentActivity :: "SessionItem list"
  lr_RecentFailedAttempts :: "FailedItem list"
  lr_HistoryCount :: nat
  lr_FailedCount :: nat
  lr_Live :: bool
  lr_Note :: string

definition maxRecentActivity :: nat where "maxRecentActivity = 50"
definition maxRecentFailed :: nat where "maxRecentFailed = 20"

definition event_text :: "login_EventType \<Rightarrow> string" where
  "event_text t = (case t of SessionExisting \<Rightarrow> ''existing'' | SessionLogin \<Rightarrow> ''login'' | SessionLogout \<Rightarrow> ''logout'')"

definition toSessionItems :: "(instant \<Rightarrow> string) \<Rightarrow> LoginEvent list \<Rightarrow> SessionItem list" where
  "toSessionItems fmt es = map (\<lambda>e. \<lparr>se_EventType = event_text (le_EventType e), se_SessionID = le_SessionID e, se_Username = le_Username e, se_Class = le_Class e,
     se_SessionType = le_SessionType e, se_Remote = le_Remote e, se_RemoteHost = le_RemoteHost e, se_SourceIP = le_SourceIP e,
     se_ResolvedHostname = le_ResolvedHostname e, se_TTY = le_TTY e, se_Timestamp = fmt (le_Timestamp e)\<rparr>) es"

definition toFailedItems :: "(instant \<Rightarrow> string) \<Rightarrow> FailedLoginEvent list \<Rightarrow> FailedItem list" where
  "toFailedItems fmt es = map (\<lambda>e. \<lparr>fa_Username = fl_Username e, fa_SourceIP = fl_SourceIP e, fa_RemoteHost = fl_RemoteHost e,
     fa_ResolvedHostname = fl_ResolvedHostname e, fa_Timestamp = fmt (fl_Timestamp e), fa_Service = fl_Service e, fa_Reason = fl_Reason e\<rparr>) es"

definition login_buildFromHistory :: "(instant \<Rightarrow> string) \<Rightarrow> LoginEvent list \<Rightarrow> FailedLoginEvent list \<Rightarrow> login_response" where
  "login_buildFromHistory fmt h failed =
     \<lparr>lr_Active = toSessionItems fmt (ActiveSessions h),
      lr_RecentActivity = toSessionItems fmt (rev (drop (length h - maxRecentActivity) h)),
      lr_RecentFailedAttempts = toFailedItems fmt (rev (drop (length failed - maxRecentFailed) failed)),
      lr_HistoryCount = length h, lr_FailedCount = length failed, lr_Live = False, lr_Note = []\<rparr>"

text \<open>\<open>fmt0\<close> formats the time of a session, which may be the zero time.\<close>

definition login_buildLive :: "(instant option \<Rightarrow> string) \<Rightarrow> SessionInfo list \<Rightarrow> string \<Rightarrow> login_response" where
  "login_buildLive fmt0 ss msg =
     \<lparr>lr_Active = map (\<lambda>s. \<lparr>se_EventType = ''existing'', se_SessionID = si_ID s, se_Username = si_Username s, se_Class = si_Class s,
        se_SessionType = si_SessionType s, se_Remote = si_Remote s, se_RemoteHost = si_RemoteHost s, se_SourceIP = [], se_ResolvedHostname = [],
        se_TTY = si_TTY s, se_Timestamp = fmt0 (si_Timestamp s)\<rparr>) ss,
      lr_RecentActivity = [], lr_RecentFailedAttempts = [], lr_HistoryCount = 0, lr_FailedCount = 0, lr_Live = True, lr_Note = msg\<rparr>"

definition logins_handler ::
    "(instant \<Rightarrow> string) \<Rightarrow> (instant option \<Rightarrow> string) \<Rightarrow> string + SessionInfo list \<Rightarrow> string \<Rightarrow> login_mem \<Rightarrow> nat \<times> login_response option" where
  "logins_handler fmt fmt0 listed verb m =
     (if verb \<noteq> ''GET'' then (405, None)
      else
        let h = or_nil (login_ReadHistory m) in
        (200, Some (if h \<noteq> [] then login_buildFromHistory fmt h (or_nil (ReadFailedHistory m))
           else case listed of
             Inl e \<Rightarrow> login_buildLive fmt0 [] (''session enumeration unavailable: '' @ e)
           | Inr ss \<Rightarrow> login_buildLive fmt0 ss ''background login monitor has not recorded any history yet'')))"

record ConnItem =
  ci_EventType :: string
  ci_Direction :: string
  ci_Proto :: string
  ci_LocalAddr :: string
  ci_LocalPort :: int
  ci_RemoteAddr :: string
  ci_RemotePort :: int
  ci_State :: string
  ci_PID :: string
  ci_Process :: string
  ci_Timestamp :: string

record conn_response =
  cr_Active :: "ConnItem list"
  cr_RecentActivity :: "ConnItem list"
  cr_HistoryCount :: nat
  cr_Live :: bool
  cr_Note :: string

definition conn_event_text :: "EventType \<Rightarrow> string" where
  "conn_event_text t = (case t of EventExisting \<Rightarrow> ''existing'' | EventOpen \<Rightarrow> ''open'' | EventClose \<Rightarrow> ''close'')"

definition direction_text :: "Direction \<Rightarrow> string" where
  "direction_text d = (case d of DirectionInbound \<Rightarrow> ''inbound'' | DirectionOutbound \<Rightarrow> ''outbound'' | DirectionUnknown \<Rightarrow> ''unknown'')"

definition toItems :: "(instant \<Rightarrow> string) \<Rightarrow> ConnEvent list \<Rightarrow> ConnItem list" where
  "toItems fmt es = map (\<lambda>e. \<lparr>ci_EventType = conn_event_text (ce_EventType e), ci_Direction = direction_text (ce_Direction e), ci_Proto = ce_Proto e,
     ci_LocalAddr = ce_LocalAddr e, ci_LocalPort = ce_LocalPort e, ci_RemoteAddr = ce_RemoteAddr e, ci_RemotePort = ce_RemotePort e, ci_State = ce_State e,
     ci_PID = ce_PID e, ci_Process = ce_Process e, ci_Timestamp = fmt (ce_Timestamp e)\<rparr>) es"

definition conn_buildFromHistory :: "(instant \<Rightarrow> string) \<Rightarrow> ConnEvent list \<Rightarrow> conn_response" where
  "conn_buildFromHistory fmt h =
     \<lparr>cr_Active = toItems fmt (ActiveConnections h), cr_RecentActivity = toItems fmt (rev (drop (length h - maxRecentActivity) h)),
      cr_HistoryCount = length h, cr_Live = False, cr_Note = []\<rparr>"

definition conn_buildLive :: "(instant \<Rightarrow> string) \<Rightarrow> instant \<Rightarrow> Conn list \<Rightarrow> string \<Rightarrow> conn_response" where
  "conn_buildLive fmt now cs msg =
     \<lparr>cr_Active = toItems fmt (ExistingEvents cs now), cr_RecentActivity = [], cr_HistoryCount = 0, cr_Live = True, cr_Note = msg\<rparr>"

definition network_handler ::
    "(instant \<Rightarrow> string) \<Rightarrow> instant \<Rightarrow> string + Conn list \<Rightarrow> string \<Rightarrow> net_mem \<Rightarrow> nat \<times> conn_response option" where
  "network_handler fmt now sampled verb m =
     (if verb \<noteq> ''GET'' then (405, None)
      else
        let h = conn_ReadHistory m in
        (200, Some (if h \<noteq> [] then conn_buildFromHistory fmt h
           else case sampled of
             Inl e \<Rightarrow> conn_buildLive fmt now [] (''connection snapshot unavailable: '' @ e)
           | Inr cs \<Rightarrow> conn_buildLive fmt now cs ''background connection monitor has not recorded any history yet'')))"

section \<open>Policies come and go\<close>

lemma load_policies_set: "attrs_ok wr attrsKey \<Longrightarrow> load_policies (snd (mem_set wr attrsKey (RPolicies ps) m)) = ps"
proof -
  assume "attrs_ok wr attrsKey"
  then have "mem_get dec_policies attrsKey (snd (mem_set wr attrsKey (RPolicies ps) m)) = Inr ps"
    by (simp add: mem_get_iff mem_set_get dec_policies_def)
  then show ?thesis by (simp add: load_policies_def)
qed

lemma trim_id:
  assumes "i \<noteq> []" "hd i \<noteq> CHR ''/''" "last i \<noteq> CHR ''/''"
  shows "trim_slashes (TrimPrefix (''/policies/'' @ i) ''/policies'') = i"
proof -
  have "''/policies/'' @ i = ''/policies'' @ CHR ''/'' # i" by simp
  then have "TrimPrefix (''/policies/'' @ i) ''/policies'' = CHR ''/'' # i" by (simp only: TrimPrefix_append)
  moreover have "dropWhile (\<lambda>c. c = CHR ''/'') i = i" using assms(1,2) by (cases i) simp_all
  moreover have "dropWhile (\<lambda>c. c = CHR ''/'') (rev i) = rev i" using assms(1,3) by (cases "rev i") (auto simp: last_rev [symmetric] hd_rev)
  ultimately show ?thesis by (simp add: trim_slashes_def)
qed

lemma policy_id_shape: "hd (''policy-'' @ show_int t) \<noteq> CHR ''/''" "last (''policy-'' @ show_int t) \<noteq> CHR ''/''"
proof -
  have d: "\<forall>c \<in> set (digits_of n). c \<noteq> CHR ''/''" "digits_of n \<noteq> []" for n
    using digits_of_digits [of n] by (auto simp: list_all_iff is_digit_def code_def)
  have l: "last (digits_of n) \<noteq> CHR ''/''" for n using d(1) [of n] last_in_set [OF d(2) [of n]] by blast
  have "last (show_int t) \<noteq> CHR ''/'' \<and> show_int t \<noteq> []" by (simp add: show_int_def l d(2))
  then show "last (''policy-'' @ show_int t) \<noteq> CHR ''/''" by simp
qed simp

lemma Policy_Add_inv:
  assumes "Policy_Add compile wr fmt t1 t2 description pattern risk (Some m) = (Inr p, m')"
  shows "attrs_ok wr attrsKey \<and> m' = Some (snd (mem_set wr attrsKey (RPolicies (load_policies m @ [p])) m)) \<and> po_ID p = ''policy-'' @ show_int t1"
proof -
  define q where "q = \<lparr>po_ID = ''policy-'' @ show_int t1, po_Description = TrimSpace description, po_Pattern = pattern,
    po_Risk = ToLower (TrimSpace risk), po_CreatedAt = fmt t2, po_Enabled = True\<rparr>"
  have "attrs_ok wr attrsKey \<and> p = q \<and> m' = Some (snd (mem_set wr attrsKey (RPolicies (load_policies m @ [q])) m))"
    using assms unfolding Policy_Add_def Let_def q_def [symmetric] by (auto simp: mem_set_def split: if_splits)
  then show ?thesis by (simp add: q_def)
qed

lemma create_inv:
  assumes "policies_handler compile wr fmt t1 t2 post m = (201, PolicyOne p, m1)"
  shows "attrs_ok wr attrsKey \<and> m1 = snd (mem_set wr attrsKey (RPolicies (load_policies m @ [p])) m) \<and> po_ID p = ''policy-'' @ show_int t1"
proof -
  have "policies_create compile wr fmt t1 t2 (hr_policy post) m = (201, PolicyOne p, m1)"
    using assms by (auto simp: policies_handler_def policies_delete_def Let_def split: if_splits sum.splits prod.splits)
  then obtain description pattern risk m' where a: "Policy_Add compile wr fmt t1 t2 description pattern risk (Some m) = (Inr p, m')" "m1 = the m'"
    by (auto simp: policies_create_def split: option.splits sum.splits prod.splits)
  from Policy_Add_inv [OF a(1)] a(2) show ?thesis by simp
qed

text \<open>
  A standing policy lasts exactly until it is deleted. A policy that was created with the answer 201 is listed last after the others; deleting it by the
  identifier of that answer is answered 204, gives back the policies there were before, so that no command is covered that was not covered
  before, and touches no other attribute.
\<close>

theorem policy_lifecycle:
  assumes "policies_handler compile wr fmt t1 t2 post m = (201, PolicyOne p, m1)" "po_ID p \<notin> po_ID ` set (load_policies m)"
    and "hr_method get = ''GET''" "hr_path get = ''/policies''" "hr_method del = ''DELETE''" "hr_path del = ''/policies/'' @ po_ID p"
  shows "policies_handler compile wr fmt t3 t4 get m1 = (200, PolicyList (load_policies m @ [p]), m1) \<and>
    (\<exists>m2. policies_handler compile wr fmt t5 t6 del m1 = (204, PolicyNone, m2) \<and> load_policies m2 = load_policies m \<and>
      Policy_Match compile command (Some m2) = Policy_Match compile command (Some m) \<and>
      (k = attrsKey \<or> attrs_get k (am_attrs m2) = attrs_get k (am_attrs m)))"
proof -
  have c: "attrs_ok wr attrsKey" "m1 = snd (mem_set wr attrsKey (RPolicies (load_policies m @ [p])) m)" "po_ID p = ''policy-'' @ show_int t1"
    using create_inv [OF assms(1)] by blast+
  have l1: "load_policies m1 = load_policies m @ [p]" unfolding c(2) by (rule load_policies_set [OF c(1)])
  have g: "trim_slashes (TrimPrefix ''/policies'' ''/policies'') = []" by (simp add: trim_slashes_def TrimPrefix_def HasPrefix_def)
  have d: "trim_slashes (TrimPrefix (''/policies/'' @ po_ID p) ''/policies'') = po_ID p"
    unfolding c(3) using policy_id_shape [of t1] by (intro trim_id) simp_all
  have ne: "po_ID p \<noteq> []" by (simp add: c(3))
  have f: "filter (\<lambda>q. po_ID q \<noteq> po_ID p) (load_policies m @ [p]) = load_policies m" using assms(2) by (auto simp: filter_id_conv) (metis imageI)
  define m2 where "m2 = snd (mem_set wr attrsKey (RPolicies (load_policies m)) m1)"
  have "Policy_Delete wr (po_ID p) (Some m1) = (Inr (), Some m2)"
    using c(1) by (simp only: Policy_Delete_def l1 f Let_def option.case m2_def) (simp add: mem_set_def)
  then have del: "policies_handler compile wr fmt t5 t6 del m1 = (204, PolicyNone, m2)"
    unfolding policies_handler_def assms(5,6) d Let_def using ne by (simp add: policies_delete_def)
  have l2: "load_policies m2 = load_policies m" unfolding m2_def by (rule load_policies_set [OF c(1)])
  have get: "policies_handler compile wr fmt t3 t4 get m1 = (200, PolicyList (load_policies m @ [p]), m1)"
    unfolding policies_handler_def assms(3,4) g Let_def by (simp add: Policy_All_def l1)
  have other: "k = attrsKey \<or> attrs_get k (am_attrs m2) = attrs_get k (am_attrs m)" by (simp add: m2_def c(2) mem_set_get)
  show ?thesis using get del l2 other by (auto simp: Policy_Match_def)
qed

definition demo_post :: "string \<Rightarrow> string \<Rightarrow> http_request" where
  "demo_post verb path = \<lparr>hr_method = verb, hr_raw = path, hr_path = path, hr_auth = [], hr_priority = [], hr_decision = None, hr_result = None,
     hr_policy = Some (''updates'', ''apt .*'', ''Low'')\<rparr>"

theorem policy_lifecycle_witness:
  "\<exists>p m1 m2. policies_handler demo_compile wr_ok (\<lambda>_. ''t'') 7 8 (demo_post ''POST'' ''/policies'') \<lparr>am_attrs = Missing, am_timeline = None\<rparr> = (201, PolicyOne p, m1) \<and>
     policies_handler demo_compile wr_ok (\<lambda>_. ''t'') 9 9 (demo_post ''DELETE'' (''/policies/'' @ po_ID p)) m1 = (204, PolicyNone, m2) \<and> load_policies m2 = []"
proof -
  let ?m = "\<lparr>am_attrs = Missing, am_timeline = None\<rparr>"
  have no: "load_policies ?m = []" by code_simp
  have "case policies_handler demo_compile wr_ok (\<lambda>_. ''t'') 7 8 (demo_post ''POST'' ''/policies'') ?m of (c, PolicyOne p, m1) \<Rightarrow> c = 201 | _ \<Rightarrow> False"
    by code_simp
  then obtain p m1 where c: "policies_handler demo_compile wr_ok (\<lambda>_. ''t'') 7 8 (demo_post ''POST'' ''/policies'') ?m = (201, PolicyOne p, m1)"
    by (auto split: prod.splits policy_body.splits)
  have d: "hr_method (demo_post v q) = v" "hr_path (demo_post v q) = q" for v q by (simp_all add: demo_post_def)
  have "po_ID p \<notin> po_ID ` set (load_policies ?m)" by (simp add: no)
  from conjunct2 [OF policy_lifecycle [OF c this d d, where ?t5.0 = 9 and ?t6.0 = 9]] c no show ?thesis by auto
qed

section \<open>Findings are resolved\<close>

lemma update_first_nth:
  "k < length xs \<Longrightarrow> P (xs ! k) \<Longrightarrow> (\<And>j. j < k \<Longrightarrow> \<not> P (xs ! j)) \<Longrightarrow> update_first P f xs = xs[k := f (xs ! k)]"
proof (induction xs arbitrary: k)
  case (Cons x xs)
  then show ?case using Cons.prems(3) [of 0] Cons.IH [of "k - 1"] Cons.prems(3) [of "Suc _"] by (cases k) auto
qed simp

lemma find_first_nth:
  "k < length xs \<Longrightarrow> P (xs ! k) \<Longrightarrow> (\<And>j. j < k \<Longrightarrow> \<not> P (xs ! j)) \<Longrightarrow> find_first P xs = Some (xs ! k)"
proof (induction xs arbitrary: k)
  case (Cons x xs)
  then show ?case using Cons.prems(3) [of 0] Cons.IH [of "k - 1"] Cons.prems(3) [of "Suc _"] by (cases k) auto
qed simp

lemma path_id_of:
  assumes "CHR ''/'' \<notin> set i" "i \<noteq> []"
  shows "path_id ''/findings/'' ''resolve'' (''/findings/'' @ i @ ''/resolve'') = Some i"
proof -
  have "index_byte (CHR ''/'') (i @ CHR ''/'' # ''resolve'') = Some (length i)" using assms(1) by (intro index_byte_at)
  then have "SplitN2 (i @ ''/resolve'') = [i, ''resolve'']" by (simp add: SplitN2_def)
  then show ?thesis unfolding path_id_def TrimPrefix_append using assms(2) by simp
qed

lemma finding_id_plain: "CHR ''/'' \<notin> set ty \<Longrightarrow> CHR ''/'' \<notin> set (finding_id now n ty)"
proof -
  have "CHR ''/'' \<notin> set (show_int k)" for k
    using digits_of_digits [of "nat k"] digits_of_digits [of "nat (- k)"] by (auto simp: show_int_def list_all_iff is_digit_def code_def)
  then show "CHR ''/'' \<notin> set ty \<Longrightarrow> CHR ''/'' \<notin> set (finding_id now n ty)" by (simp add: finding_id_def show_nat_def)
qed

text \<open>
  An operator can resolve what the agent reported. After a report of at most fifty findings, posting to the path of the card of a finding with a severity, whose
  type has no slash, is answered 200 and marks exactly that card as resolved; every other card and every attribute stays.
\<close>

theorem finding_resolved:
  assumes "report_findings True fmt now ks mem fs m = (answer, m1)" "n < length fs" "length fs \<le> 50"
    and "fi_Severity (fs ! n) \<noteq> []" "CHR ''/'' \<notin> set (fi_Type (fs ! n))" "i = finding_id now n (fi_Type (fs ! n))"
    and "hr_method q = ''POST''" "hr_path q = ''/findings/'' @ i @ ''/resolve''" "tl_ok wr i" "am_timeline m1 = Some es"
  shows "\<exists>m2. findings_handler wr q m1 = (200, m2) \<and> am_attrs m2 = am_attrs m1 \<and> length fs - Suc n < length es \<and>
    es ! (length fs - Suc n) = finding_entry fmt now n (fs ! n) \<and>
    am_timeline m2 = Some (es[length fs - Suc n := (finding_entry fmt now n (fs ! n))\<lparr>te_Status := Some ''resolved''\<rparr>])"
proof -
  let ?k = "length fs - Suc n" and ?old = "case am_timeline m of None \<Rightarrow> [] | Some es \<Rightarrow> es"
  have es: "es = take 50 (new_cards fmt now fs @ ?old)"
    using assms(1,10) add_findings_eq [of fmt now 0 fs ?old] by (auto simp: report_findings_def Let_def new_cards_def maxEntries_def)
  have len: "length (new_cards fmt now fs) = length fs" by (simp add: new_cards_def)
  have nth: "es ! j = finding_entry fmt now (length fs - Suc j) (fs ! (length fs - Suc j))" if "j < length fs" for j
    using that assms(3) len by (simp add: es nth_append) (simp add: new_cards_def rev_nth)
  have k: "?k < length es" "?k < length fs" using assms(2,3) len by (auto simp: es)
  have at: "es ! ?k = finding_entry fmt now n (fs ! n)" using nth [OF k(2)] assms(2) by simp
  have card: "te_ID (es ! ?k) = i" "te_Severity (es ! ?k) \<noteq> []" using assms(4,6) unfolding at by (simp_all add: finding_entry_def)
  have before: "te_ID (es ! j) \<noteq> i" if "j < ?k" for j
  proof
    assume "te_ID (es ! j) = i"
    moreover have "j < length fs" using that by linarith
    ultimately have "finding_id now (length fs - Suc j) (fi_Type (fs ! (length fs - Suc j))) = finding_id now n (fi_Type (fs ! n))"
      using nth assms(6) by (simp add: finding_entry_def)
    then show False using finding_id_inj that assms(2) by fastforce
  qed
  have u: "update_first (\<lambda>e. te_ID e = i) f es = es[?k := f (es ! ?k)]" for f using k(1) card(1) before by (intro update_first_nth) auto
  have f: "find_first (\<lambda>e. te_ID e = i) es = Some (es ! ?k)" using k(1) card(1) before by (intro find_first_nth) auto
  have ne: "i \<noteq> []" by (simp add: assms(6) finding_id_def)
  have p: "path_id ''/findings/'' ''resolve'' (hr_path q) = Some i"
    unfolding assms(8) using finding_id_plain [OF assms(5)] ne by (intro path_id_of) (simp_all add: assms(6))
  have r: "resolve_finding wr i m1 = (ResolvedFinding, m1\<lparr>am_timeline := Some (es[?k := (es ! ?k)\<lparr>te_Status := Some ''resolved''\<rparr>])\<rparr>)"
    using card(2) assms(9) by (simp add: resolve_finding_def assms(10) f u tl_write_def)
  show ?thesis using r k(1) at by (simp add: findings_handler_def assms(7) p)
qed

theorem finding_resolved_witness:
  "\<exists>m1 m2 es. am_timeline m1 = Some es \<and> length es = 2 \<and>
     findings_handler wr_ok (demo_post ''POST'' (''/findings/'' @ finding_id 7 0 ''observation'' @ ''/resolve'')) m1 = (200, m2) \<and>
     map_option (map te_Status) (am_timeline m2) = Some [None, Some ''resolved'']"
proof -
  let ?fs = "[demo_finding, demo_finding]" and ?m = "\<lparr>am_attrs = Missing, am_timeline = None\<rparr>"
  obtain a m1 where c: "report_findings True (\<lambda>_. ''t'') 7 [] None ?fs ?m = (a, m1)" by (rule prod.exhaust)
  then obtain es where es: "am_timeline m1 = Some es" by (auto simp: report_findings_def Let_def)
  have len: "length es = 2" "map te_Status es = [None, None]"
    using c es by (auto simp: report_findings_def Let_def maxEntries_def finding_entry_def ptrOrNil_def demo_finding_def)
  have d: "fi_Severity (?fs ! 0) \<noteq> []" "CHR ''/'' \<notin> set (fi_Type (?fs ! 0))" "fi_Type (?fs ! 0) = ''observation''" by (simp_all add: demo_finding_def)
  define q where "q = demo_post ''POST'' (''/findings/'' @ finding_id 7 0 ''observation'' @ ''/resolve'')"
  have q: "hr_method q = ''POST''" "hr_path q = ''/findings/'' @ finding_id 7 0 (fi_Type (?fs ! 0)) @ ''/resolve''" by (simp_all add: q_def demo_post_def demo_finding_def)
  have "0 < length ?fs" "length ?fs \<le> 50" "tl_ok wr_ok (finding_id 7 0 (fi_Type (?fs ! 0)))" by (simp_all add: wr_ok_def)
  from finding_resolved [OF c this(1,2) d(1,2) refl q this(3) es] obtain m2 where m2: "findings_handler wr_ok q m1 = (200, m2)"
    "am_timeline m2 = Some (es[1 := (finding_entry (\<lambda>_. ''t'') 7 0 (?fs ! 0))\<lparr>te_Status := Some ''resolved''\<rparr>])" by auto
  have "map te_Status (es[1 := (finding_entry (\<lambda>_. ''t'') 7 0 (?fs ! 0))\<lparr>te_Status := Some ''resolved''\<rparr>]) = [None, Some ''resolved'']"
    by (simp add: map_update len)
  then have "map_option (map te_Status) (am_timeline m2) = Some [None, Some ''resolved'']" unfolding m2(2) option.map by (rule arg_cong)
  with m2(1) es len(1) show ?thesis unfolding q_def by (intro exI conjI)
qed

text \<open>A critical finding that was resolved still puts the host in the state \<open>attention\<close>: only the severity of a card is looked at.\<close>

lemma resolved_finding_keeps_attention:
  assumes "e \<in> set es" "te_Severity e = ''critical''"
  shows "hasAttention (update_first (\<lambda>c. te_ID c = i) (\<lambda>c. c\<lparr>te_Status := Some ''resolved''\<rparr>) es)"
proof -
  have "''critical'' \<in> set (map te_Severity es)" using assms by (metis image_eqI set_map)
  then have "''critical'' \<in> set (map te_Severity (update_first (\<lambda>c. te_ID c = i) (\<lambda>c. c\<lparr>te_Status := Some ''resolved''\<rparr>) es))"
    by (subst map_update_first) simp_all
  then show ?thesis by (auto simp: hasAttention_def list_ex_iff)
qed

end
