(* ===== verification/Server.thy ===== *)
theory Server
  imports Http_Api
begin

text \<open>
  The server as \<open>main.go\<close> puts it together: the routes of the multiplexer, the check of the bearer token before every handler, and the state the
  handlers share. The routes follow \<open>http.ServeMux\<close>: a path that is not clean or lacks the slash of a subtree is redirected, and each
  segment is decoded on its own.
\<close>

section \<open>Routes\<close>

datatype route = RCard | RStatus | RMemory | RApprovals | RManualRuns | RResponsibilities | RPolicies | RLog | RNetwork | RLogins | RFindings | RRpc | RRedirect

text \<open>\<open>url.PathUnescape\<close> of a segment, which is left as it is when an escape is malformed.\<close>

fun percent_decode :: "string \<Rightarrow> string option" where
  "percent_decode [] = Some []"
| "percent_decode (c # s) =
     (if c = CHR ''%'' then
        (case s of
           a # b # t \<Rightarrow>
             (case (ip_hex a, ip_hex b) of
                (Some x, Some y) \<Rightarrow> map_option ((#) (char_of (16 * x + y))) (percent_decode t)
              | _ \<Rightarrow> None)
         | _ \<Rightarrow> None)
      else map_option ((#) c) (percent_decode s))"

definition pathUnescape :: "string \<Rightarrow> string" where
  "pathUnescape s = (case percent_decode s of None \<Rightarrow> s | Some t \<Rightarrow> t)"

text \<open>\<open>path.Clean\<close> of a rooted path, with the trailing slash kept.\<close>

definition clean_segment :: "string \<Rightarrow> string list \<Rightarrow> string list" where
  "clean_segment g acc = (if g = [] \<or> g = ''.'' then acc else if g = ''..'' then butlast acc else acc @ [g])"

definition cleanPath :: "string \<Rightarrow> string" where
  "cleanPath p =
     (let p' = (if p = [] \<or> hd p \<noteq> CHR ''/'' then CHR ''/'' # p else p);
          gs = fold clean_segment (split_byte (CHR ''/'') p') [];
          np = concat (map (\<lambda>g. CHR ''/'' # g) gs)
      in if np = [] then ''/'' else if last p' = CHR ''/'' then np @ ''/'' else np)"

definition exact_routes :: "(string \<times> route) list" where
  "exact_routes = [(''status'', RStatus), (''memory'', RMemory), (''responsibilities'', RResponsibilities), (''policies'', RPolicies), (''log'', RLog),
     (''network-connections'', RNetwork), (''interactive-logins'', RLogins)]"

definition subtree_routes :: "(string \<times> route) list" where
  "subtree_routes = [(''approvals'', RApprovals), (''manual-runs'', RManualRuns), (''policies'', RPolicies), (''findings'', RFindings)]"

text \<open>The match of a path below the root: its first segment, and whether a slash follows. \<open>cardPath\<close> is the well-known path of the agent card.\<close>

definition mux_match :: "string \<Rightarrow> string \<Rightarrow> route" where
  "mux_match cardPath p =
     (let gs = map pathUnescape (split_byte (CHR ''/'') (drop 1 p)) in
      if gs = split_byte (CHR ''/'') (drop 1 cardPath) then RCard
      else case gs of
        [g] \<Rightarrow>
          (case map_of exact_routes g of
             Some r \<Rightarrow> r
           | None \<Rightarrow> if map_of subtree_routes g \<noteq> None then RRedirect else RRpc)
      | g # _ \<Rightarrow> (case map_of subtree_routes g of Some r \<Rightarrow> r | None \<Rightarrow> RRpc)
      | [] \<Rightarrow> RRpc)"

definition mux_route :: "string \<Rightarrow> http_request \<Rightarrow> route" where
  "mux_route cardPath r =
     (if hr_method r = ''CONNECT'' then mux_match cardPath (hr_raw r)
      else if mux_match cardPath (cleanPath (hr_raw r)) = RRedirect \<or> cleanPath (hr_raw r) \<noteq> hr_raw r then RRedirect
      else mux_match cardPath (hr_raw r))"

section \<open>Authentication\<close>

definition CutBearer :: "string \<Rightarrow> string option" where
  "CutBearer h = (if HasPrefix h ''Bearer '' then Some (drop 7 h) else None)"

definition header_get :: "string list \<Rightarrow> string" where
  "header_get vs = (case vs of [] \<Rightarrow> [] | v # _ \<Rightarrow> v)"

definition requireBearer :: "string \<Rightarrow> http_request \<Rightarrow> bool" where
  "requireBearer token r = (CutBearer (header_get (hr_auth r)) = Some token)"

text \<open>\<open>bearerInterceptor.Before\<close>, on the values of the parameter \<open>authorization\<close>.\<close>

definition interceptor_Before :: "string \<Rightarrow> string list \<Rightarrow> bool" where
  "interceptor_Before token vals = (case vals of [] \<Rightarrow> False | v # _ \<Rightarrow> CutBearer v = Some token)"

section \<open>Serving\<close>

record server_mem =
  sm_mem :: amem
  sm_logins :: login_mem
  sm_conns :: net_mem
  sm_summary :: summarizer

text \<open>
  What a request meets: outcomes of writes and removals, the clock, readings of the host, and the entries of the memory directory.
\<close>

record server_env =
  sx_wr :: wr
  sx_now :: instant
  sx_now2 :: instant
  sx_fmt :: "instant \<Rightarrow> string"
  sx_fmt0 :: "instant option \<Rightarrow> string"
  sx_compile :: compiler
  sx_entries :: "string list"
  sx_rm :: "string \<Rightarrow> bool"
  sx_dumpOk :: bool
  sx_log :: "string conf_file"
  sx_sessions :: "string + SessionInfo list"
  sx_conns :: "string + Conn list"
  sx_status :: status_env
  sx_digest :: "string \<Rightarrow> string"
  sx_zone :: zone
  sx_responsibilities :: "Responsibility list"

datatype api_body =
    NoBody | CardBody | StatusBody Response | DumpBody | ClearedBody | PolicyBody policy_body | LogBody string bool
  | LoginBody login_response | ConnBody conn_response | ResponsibilityBody "ResponsibilityItem list"

text \<open>
  \<open>Clear\<close> of the store: \<open>RemoveAll\<close> of every entry of its directory, of which some may fail. \<open>attrs.json\<close> holds the attributes and the histories
  of logins, the other entries are domains.
\<close>

definition stays :: "server_env \<Rightarrow> string \<Rightarrow> bool" where
  "stays x n \<longleftrightarrow> n \<in> set (sx_entries x) \<and> \<not> sx_rm x n"

definition memory_clear :: "server_env \<Rightarrow> server_mem \<Rightarrow> bool \<times> server_mem" where
  "memory_clear x s =
     (\<not> list_ex (\<lambda>n. \<not> sx_rm x n) (sx_entries x),
      s\<lparr>sm_mem := \<lparr>am_attrs = (if stays x ''attrs.json'' then am_attrs (sm_mem s) else Missing),
                    am_timeline = (if stays x ''timeline'' then am_timeline (sm_mem s) else None)\<rparr>,
        sm_logins := (if stays x ''attrs.json'' then sm_logins s else (sm_logins s)\<lparr>lg_history := NoValue, lg_failed := NoValue\<rparr>),
        sm_conns := (if stays x ''Network'' then sm_conns s else (sm_conns s)\<lparr>nm_history := None\<rparr>)\<rparr>)"

definition memory_handler :: "server_env \<Rightarrow> string \<Rightarrow> server_mem \<Rightarrow> nat \<times> api_body \<times> server_mem" where
  "memory_handler x verb s =
     (if verb = ''GET'' then (if sx_dumpOk x then (200, DumpBody, s) else (500, NoBody, s))
      else if verb = ''DELETE'' then
        (case memory_clear x s of (ok, s) \<Rightarrow> if ok then (200, ClearedBody, s) else (500, NoBody, s))
      else (405, NoBody, s))"

definition status_handler :: "server_env \<Rightarrow> server_mem \<Rightarrow> Response \<times> server_mem" where
  "status_handler x s =
     (case status_build (sx_digest x) (sx_fmt x) (sx_now x) (sm_summary s) (sx_status x) of
        (r, refresh) \<Rightarrow> (r, if refresh then s\<lparr>sm_summary := fst (get_spawn (sm_summary s))\<rparr> else s))"

text \<open>
  The JSON-RPC server: given the check of its interceptors, whether the request is interactive, the request and the state, it gives the
  response code and the state that the agent leaves.
\<close>

type_synonym rpc_server = "(string list \<Rightarrow> bool) \<Rightarrow> bool \<Rightarrow> http_request \<Rightarrow> server_mem \<Rightarrow> nat \<times> server_mem"

definition rpc_guard :: "Settings \<Rightarrow> string list \<Rightarrow> bool" where
  "rpc_guard cfg vals = (st_Scheme cfg \<noteq> ''bearer'' \<or> interceptor_Before (st_Token cfg) vals)"

text \<open>One handler. The last component is the approved request whose command is launched.\<close>

definition handle :: "Settings \<Rightarrow> rpc_server \<Rightarrow> server_env \<Rightarrow> route \<Rightarrow> http_request \<Rightarrow> server_mem \<Rightarrow> nat \<times> api_body \<times> server_mem \<times> ApprovalEntry option" where
  "handle cfg rpc x rt r s =
     (case rt of
        RCard \<Rightarrow> (200, CardBody, s, None)
      | RRedirect \<Rightarrow> (301, NoBody, s, None)
      | RStatus \<Rightarrow> (case status_handler x s of (b, s) \<Rightarrow> (200, StatusBody b, s, None))
      | RMemory \<Rightarrow> (case memory_handler x (hr_method r) s of (c, b, s) \<Rightarrow> (c, b, s, None))
      | RApprovals \<Rightarrow>
          (case decision_handler (sx_wr x) (sx_now x) \<lparr>dr_method = hr_method r, dr_path = hr_path r, dr_body = hr_decision r\<rparr> (sm_mem s) of
             (c, m, launched) \<Rightarrow> (c, NoBody, s\<lparr>sm_mem := m\<rparr>, launched))
      | RManualRuns \<Rightarrow>
          (case result_handler (sx_wr x) (sx_now x) \<lparr>rr_method = hr_method r, rr_path = hr_path r, rr_body = hr_result r\<rparr> (sm_mem s) of
             (c, m) \<Rightarrow> (c, NoBody, s\<lparr>sm_mem := m\<rparr>, None))
      | RResponsibilities \<Rightarrow>
          (case responsibilities_handler (sx_zone x) (sx_fmt x) (sx_now x) (hr_method r) (lg_loop (sm_logins s)) (sx_responsibilities x) of
             (c, items) \<Rightarrow> (c, ResponsibilityBody items, s, None))
      | RPolicies \<Rightarrow>
          (case policies_handler (sx_compile x) (sx_wr x) (sx_fmt x) (sx_now x) (sx_now2 x) r (sm_mem s) of
             (c, b, m) \<Rightarrow> (c, PolicyBody b, s\<lparr>sm_mem := m\<rparr>, None))
      | RLog \<Rightarrow> (case log_handler (st_LogFile cfg) (sx_log x) (hr_method r) of (c, t, part) \<Rightarrow> (c, LogBody t part, s, None))
      | RNetwork \<Rightarrow>
          (case network_handler (sx_fmt x) (sx_now x) (sx_conns x) (hr_method r) (sm_conns s) of
             (c, b) \<Rightarrow> (c, case b of None \<Rightarrow> NoBody | Some b \<Rightarrow> ConnBody b, s, None))
      | RLogins \<Rightarrow>
          (case logins_handler (sx_fmt x) (sx_fmt0 x) (sx_sessions x) (hr_method r) (sm_logins s) of
             (c, b) \<Rightarrow> (c, case b of None \<Rightarrow> NoBody | Some b \<Rightarrow> LoginBody b, s, None))
      | RFindings \<Rightarrow> (case findings_handler (sx_wr x) r (sm_mem s) of (c, m) \<Rightarrow> (c, NoBody, s\<lparr>sm_mem := m\<rparr>, None))
      | RRpc \<Rightarrow> (case rpc (rpc_guard cfg) (hr_priority r = ''interactive'') r s of (c, s) \<Rightarrow> (c, NoBody, s, None)))"

definition serve :: "Settings \<Rightarrow> string \<Rightarrow> rpc_server \<Rightarrow> server_env \<Rightarrow> http_request \<Rightarrow> server_mem \<Rightarrow> nat \<times> api_body \<times> server_mem \<times> ApprovalEntry option" where
  "serve cfg cardPath rpc x r s =
     (let rt = mux_route cardPath r in
      if st_Scheme cfg = ''bearer'' \<and> rt \<notin> {RCard, RRpc, RRedirect} \<and> \<not> requireBearer (st_Token cfg) r then (401, NoBody, s, None)
      else handle cfg rpc x rt r s)"

section \<open>Authentication guards the state\<close>

text \<open>
  What is relied on of the JSON-RPC server: a call whose interceptors fail on the values of its header \<open>Authorization\<close> is answered with an error and
  the executor is not called.
\<close>

definition rpc_guarded :: "rpc_server \<Rightarrow> bool" where
  "rpc_guarded rpc \<longleftrightarrow> (\<forall>guard i r s. \<not> guard (hr_auth r) \<longrightarrow> snd (rpc guard i r s) = s)"

definition presents :: "string \<Rightarrow> http_request \<Rightarrow> bool" where
  "presents token r \<longleftrightarrow> hr_auth r \<noteq> [] \<and> hd (hr_auth r) = ''Bearer '' @ token"

lemma CutBearer_iff: "CutBearer h = Some t \<longleftrightarrow> h = ''Bearer '' @ t"
proof
  assume c: "CutBearer h = Some t"
  then have "HasPrefix h ''Bearer ''" "t = drop 7 h" by (auto simp: CutBearer_def split: if_splits)
  moreover from this(1) obtain u where "h = ''Bearer '' @ u" unfolding HasPrefix_iff prefix_def by blast
  ultimately show "h = ''Bearer '' @ t" by simp
next
  assume h: "h = ''Bearer '' @ t"
  show "CutBearer h = Some t" unfolding h CutBearer_def by (simp add: HasPrefix_def)
qed

lemma bearer_checks:
  "requireBearer token r \<longleftrightarrow> presents token r" "interceptor_Before token (hr_auth r) \<longleftrightarrow> presents token r"
  by (cases "hr_auth r"; simp add: requireBearer_def interceptor_Before_def presents_def header_get_def CutBearer_iff)+

text \<open>
  C39: without the token nothing can be read or changed. When the scheme is \<open>bearer\<close>, a request whose header \<open>Authorization\<close> is not exactly
  \<open>Bearer\<close> and the configured token leaves the state as it was and launches nothing, and every path but the agent card, redirects and the JSON-RPC paths answers 401
  with no content; a request that presents it reaches its handler.
\<close>

theorem bearer_required:
  assumes "st_Scheme cfg = ''bearer''" "rpc_guarded rpc" "serve cfg cardPath rpc x r s = (c, b, s', launched)"
  shows "if presents (st_Token cfg) r then (c, b, s', launched) = handle cfg rpc x (mux_route cardPath r) r s
    else s' = s \<and> launched = None \<and> (mux_route cardPath r \<in> {RCard, RRpc, RRedirect} \<or> c = 401 \<and> b = NoBody)"
proof (cases "presents (st_Token cfg) r")
  case True
  then show ?thesis using assms(3) by (simp add: serve_def bearer_checks Let_def)
next
  case False
  show ?thesis
  proof (cases "mux_route cardPath r \<in> {RCard, RRpc, RRedirect}")
    case open_route: True
    have "\<not> rpc_guard cfg (hr_auth r)" using False assms(1) by (simp add: rpc_guard_def bearer_checks)
    then have "snd (rpc (rpc_guard cfg) i r s) = s" for i using assms(2) by (simp add: rpc_guarded_def)
    then show ?thesis using assms(3) open_route False by (auto simp: serve_def handle_def Let_def split: prod.splits; metis snd_conv)
  next
    case guarded: False
    then show ?thesis using assms(1,3) False by (simp add: serve_def bearer_checks Let_def)
  qed
qed

definition demo_env :: server_env where
  "demo_env = \<lparr>sx_wr = wr_ok, sx_now = 9, sx_now2 = 9, sx_fmt = (\<lambda>_. ''t''), sx_fmt0 = (\<lambda>_. ''t''), sx_compile = demo_compile, sx_entries = [''attrs.json''],
     sx_rm = (\<lambda>_. True), sx_dumpOk = True, sx_log = NoFile, sx_sessions = Inr [], sx_conns = Inr [], sx_status = demo_status, sx_digest = (\<lambda>p. p),
     sx_zone = (\<lambda>_. 0), sx_responsibilities = []\<rparr>"

definition demo_server :: server_mem where
  "demo_server = \<lparr>sm_mem = demo_pending, sm_logins = demo_logins, sm_conns = \<lparr>nm_history = None, nm_loop = \<lparr>lm_states = Map.empty, lm_notes = []\<rparr>, nm_ledger = None\<rparr>,
     sm_summary = newSummarizer (\<lambda>_. None) []\<rparr>"

text \<open>A server of JSON-RPC that lets an admitted call empty the timeline.\<close>

definition demo_rpc :: rpc_server where
  "demo_rpc guard i r s = (if guard (hr_auth r) then (200, s\<lparr>sm_mem := (sm_mem s)\<lparr>am_timeline := None\<rparr>\<rparr>) else (401, s))"

definition demo_http :: "string \<Rightarrow> string \<Rightarrow> string list \<Rightarrow> http_request" where
  "demo_http verb path auth = \<lparr>hr_method = verb, hr_raw = path, hr_path = path, hr_auth = auth, hr_priority = [], hr_decision = Some (''approved'', []),
     hr_result = None, hr_policy = None\<rparr>"

lemma demo_rpc_guarded: "rpc_guarded demo_rpc"
  by (simp add: rpc_guarded_def demo_rpc_def)

theorem bearer_required_witness:
  "serve demo_config ''/.well-known/agent-card.json'' demo_rpc demo_env (demo_http ''POST'' ''/approvals/x1/decision'' [''Bearer u'']) demo_server =
     (401, NoBody, demo_server, None)"
proof -
  let ?r = "demo_http ''POST'' ''/approvals/x1/decision'' [''Bearer u'']"
  obtain c b s' l where v: "serve demo_config ''/.well-known/agent-card.json'' demo_rpc demo_env ?r demo_server = (c, b, s', l)"
    by (metis prod.exhaust)
  have cfg: "st_Scheme demo_config = ''bearer''" "st_Token demo_config = ''t''" by (simp_all add: demo_config_def)
  have "\<not> presents (st_Token demo_config) ?r" unfolding cfg presents_def demo_http_def by simp
  moreover have "mux_route ''/.well-known/agent-card.json'' ?r = RApprovals" by code_simp
  ultimately show ?thesis using bearer_required [OF cfg(1) demo_rpc_guarded v] v by simp
qed

text \<open>
  Any other scheme, a misspelt one included, leaves every endpoint open: \<open>Load\<close> keeps what the file says and the server only compares it with
  \<open>bearer\<close>.
\<close>

lemma other_scheme_is_open:
  "st_Scheme cfg \<noteq> ''bearer'' \<Longrightarrow> serve cfg cardPath rpc x r s = handle cfg rpc x (mux_route cardPath r) r s"
  by (simp add: serve_def Let_def)

section \<open>Reading is safe\<close>



end
