(* ===== verification/Trends.thy ===== *)
theory Trends
  imports Scheduler Patch_Assess
begin

text \<open>
  The rolling histories of the host checks and what is computed from them: disk usage (\<open>check_drives/trend.go\<close>), SMART counters
  (\<open>check_drives/smart_trend.go\<close>), temperatures (\<open>analyze_system_temperature/trend.go\<close>), memory usage (\<open>analyze_memory_utilization/trend.go\<close>) and
  network rates (\<open>analyze_network_utilization/baseline.go\<close>). Measurements are rational numbers: the rounding of \<open>float64\<close> is not modelled, and \<open>num\<close> is
  the formatting of a number with the given decimals.
\<close>

section \<open>A history with a minimal interval and a maximal age\<close>

definition too_recent :: "('s \<Rightarrow> instant) \<Rightarrow> duration \<Rightarrow> instant \<Rightarrow> 's list \<Rightarrow> bool" where
  "too_recent stamp gap now ss \<longleftrightarrow> ss \<noteq> [] \<and> now - stamp (last ss) < gap"

definition prune_samples :: "('s \<Rightarrow> instant) \<Rightarrow> duration \<Rightarrow> instant \<Rightarrow> 's list \<Rightarrow> 's list" where
  "prune_samples stamp age now ss = dropWhile (\<lambda>s. stamp s < now - age) ss"

definition well_spaced :: "('s \<Rightarrow> instant) \<Rightarrow> duration \<Rightarrow> 's list \<Rightarrow> bool" where
  "well_spaced stamp gap ss = sorted_wrt (\<lambda>a b. stamp a + gap \<le> stamp b) ss"

lemma spaced_suffix: "well_spaced stamp gap ss \<Longrightarrow> well_spaced stamp gap (prune_samples stamp age now ss)"
  unfolding well_spaced_def prune_samples_def dropWhile_eq_drop by (rule sorted_wrt_drop)

lemma set_prune: "set (prune_samples stamp age now ss) \<subseteq> set ss"
  unfolding prune_samples_def by (meson set_dropWhileD subsetI)

lemma prune_snoc: "stamp x \<ge> now - age \<Longrightarrow> \<exists>ys. prune_samples stamp age now (ss @ [x]) = ys @ [x]"
  unfolding prune_samples_def by (metis dropWhile_append3 linorder_not_less)

text \<open>Any recordings, at any times of the clock.\<close>

definition recordings :: "(instant \<Rightarrow> 's \<Rightarrow> 's list \<Rightarrow> 's list) \<Rightarrow> (instant \<times> 's) list \<Rightarrow> 's list \<Rightarrow> 's list" where
  "recordings add ps ss = fold (\<lambda>p. add (fst p) (snd p)) ps ss"

text \<open>
  What a history does with a new sample: nothing but pruning while the last one is too recent, else it is appended and old ones are dropped.
\<close>

locale rolling_history =
  fixes stamp :: "'s \<Rightarrow> instant" and add :: "instant \<Rightarrow> 's \<Rightarrow> 's list \<Rightarrow> 's list" and gap age :: duration
  assumes gap_pos: "0 < gap" and age_pos: "0 \<le> age"
    and skips: "too_recent stamp gap now ss \<Longrightarrow> add now x ss = ss \<or> add now x ss = prune_samples stamp age now ss"
    and appends: "\<not> too_recent stamp gap now ss \<Longrightarrow> add now x ss = prune_samples stamp age now (ss @ [x])"
begin

lemma spaced_snoc:
  assumes "well_spaced stamp gap ss" "\<not> too_recent stamp gap (stamp x) ss"
  shows "well_spaced stamp gap (ss @ [x])"
proof (cases "ss = []")
  case False
  then have "stamp s + gap \<le> stamp x" if "s \<in> set ss" for s
  proof -
    obtain ys where ss: "ss = ys @ [last ss]" using False by (metis append_butlast_last_id)
    have "stamp s \<le> stamp (last ss)"
      using assms(1) that gap_pos by (subst (asm) ss, subst (asm) ss) (auto simp: well_spaced_def sorted_wrt_append)
    then show ?thesis using assms(2) False by (simp add: too_recent_def)
  qed
  then show ?thesis using assms(1) by (simp add: well_spaced_def sorted_wrt_append)
qed (simp add: well_spaced_def)

lemma spaced_add:
  assumes "well_spaced stamp gap ss" "stamp x = now"
  shows "well_spaced stamp gap (add now x ss)"
proof (cases "too_recent stamp gap now ss")
  case True
  with skips [OF this, of x] assms(1) spaced_suffix show ?thesis by auto
next
  case False
  with appends [OF this, of x] assms spaced_suffix [OF spaced_snoc] show ?thesis by simp
qed

lemma spaced_span: "well_spaced stamp gap (s # ss) \<Longrightarrow> stamp s + int (length ss) * gap \<le> stamp (last (s # ss))"
proof (induction ss arbitrary: s)
  case (Cons t ss)
  from Cons.prems have "stamp s + gap \<le> stamp t" "well_spaced stamp gap (t # ss)" by (simp_all add: well_spaced_def)
  with Cons.IH [of t] show ?case by (simp add: algebra_simps)
qed simp

lemma length_add:
  assumes "well_spaced stamp gap ss" "stamp x = now" "length ss \<le> nat (age div gap) + 1"
  shows "length (add now x ss) \<le> nat (age div gap) + 1"
proof (cases "too_recent stamp gap now ss")
  case True
  have "length (prune_samples stamp age now ss) \<le> length ss" by (simp add: prune_samples_def length_dropWhile_le)
  with skips [OF True, of x] assms(3) show ?thesis by auto
next
  case False
  define r where "r = prune_samples stamp age now (ss @ [x])"
  have a: "add now x ss = r" using appends [OF False] by (simp add: r_def)
  show ?thesis
  proof (cases r)
    case (Cons t ts)
    have "\<not> stamp t < now - age" using Cons unfolding r_def prune_samples_def by (metis hd_dropWhile list.sel(1) list.distinct(1))
    moreover have "last r = x" using Cons unfolding r_def prune_samples_def dropWhile_eq_drop by (metis drop_eq_Nil last_drop last_snoc list.distinct(1) not_le)
    moreover have "well_spaced stamp gap r" unfolding r_def using spaced_suffix spaced_snoc assms(1,2) False by blast
    then have "stamp t + int (length ts) * gap \<le> stamp (last r)" using spaced_span Cons by metis
    ultimately have "int (length ts) * gap \<le> age" using assms(2) by simp
    then have "int (length ts) * gap div gap \<le> age div gap" by (rule zdiv_mono1 [OF _ gap_pos])
    then have "int (length ts) \<le> age div gap" using gap_pos by simp
    then show ?thesis using a Cons by simp
  qed (simp add: a)
qed

lemma add_keeps:
  assumes "well_spaced stamp gap ss" "length ss \<le> nat (age div gap) + 1" "stamp x = now"
  shows "well_spaced stamp gap (add now x ss)" "length (add now x ss) \<le> nat (age div gap) + 1"
    "\<not> too_recent stamp gap now ss \<Longrightarrow> add now x ss \<noteq> []"
  using spaced_add [OF assms(1,3)] length_add [OF assms(1,3,2)] appends [of now ss x] prune_snoc [of now age stamp x ss] assms(3) age_pos
  by auto

lemma recordings_bounded:
  assumes "list_all (\<lambda>p. stamp (snd p) = fst p) ps" "well_spaced stamp gap ss" "length ss \<le> nat (age div gap) + 1"
  shows "well_spaced stamp gap (recordings add ps ss) \<and> length (recordings add ps ss) \<le> nat (age div gap) + 1"
  using assms
proof (induction ps arbitrary: ss)
  case (Cons p ps)
  then show ?case using spaced_add [of ss "snd p" "fst p"] length_add [of ss "snd p" "fst p"] by (simp add: recordings_def)
qed (simp add: recordings_def)

end

section \<open>Linear regression\<close>

text \<open>The loop of \<open>ComputeSlope\<close> and \<open>computeSmartSlope\<close> over the points \<open>(x, y)\<close>, and their slope per day for \<open>x\<close> in hours.\<close>

definition sums_step :: "rat \<times> rat \<Rightarrow> rat \<times> rat \<times> rat \<times> rat \<Rightarrow> rat \<times> rat \<times> rat \<times> rat" where
  "sums_step p s = (case (p, s) of ((x, y), sx, sy, sxy, sx2) \<Rightarrow> (sx + x, sy + y, sxy + x * y, sx2 + x * x))"

definition regression :: "(rat \<times> rat) list \<Rightarrow> rat" where
  "regression ps =
     (case fold sums_step ps (0, 0, 0, 0) of
        (sx, sy, sxy, sx2) \<Rightarrow>
          let n = of_nat (length ps); denom = n * sx2 - sx * sx in
          if \<bar>denom\<bar> < 1 / 1000000000 then 0 else (n * sxy - sx * sy) / denom * 24)"

definition hours :: "duration \<Rightarrow> rat" where
  "hours d = of_int d / of_int hour"

text \<open>The points of samples: hours since the first, and the value.\<close>

definition points_of :: "('s \<Rightarrow> instant) \<Rightarrow> ('s \<Rightarrow> rat) \<Rightarrow> 's list \<Rightarrow> (rat \<times> rat) list" where
  "points_of stamp val ss = map (\<lambda>s. (hours (stamp s - stamp (hd ss)), val s)) ss"

text \<open>\<open>health\<close> and summary out of labelled problems, as every check composes them.\<close>

definition worst_of :: "string list \<Rightarrow> string list \<Rightarrow> string \<Rightarrow> string \<times> string" where
  "worst_of criticals warnings ok =
     (if criticals \<noteq> [] then (''critical'', Join criticals ''; '')
      else if warnings \<noteq> [] then (''warning'', Join warnings ''; '')
      else (''ok'', ok))"

text \<open>\<open>strings.NewReplacer\<close> with single bytes, and \<open>TrimPrefix\<close>.\<close>

definition underscored :: "char set \<Rightarrow> string \<Rightarrow> string" where
  "underscored cs s = TrimPrefix (map (\<lambda>c. if c \<in> cs then CHR ''_'' else c) s) ''_''"

section \<open>Disk usage\<close>

record DiskSample =
  ds_Time :: instant
  ds_UsedPct :: rat
  ds_UsedBytes :: nat
  ds_TotalBytes :: nat

record DiskTrend =
  dt_Mount :: string
  dt_Samples :: "DiskSample list"
  dt_SlopePerDay :: rat
  dt_ForecastDays :: int

definition disk_trendMaxAge :: duration where "disk_trendMaxAge = 7 * 24 * hour"
definition disk_trendMinInterval :: duration where "disk_trendMinInterval = 30 * minute"
definition trendMinSamples :: nat where "trendMinSamples = 3"
definition trendGrowthPerDay :: rat where "trendGrowthPerDay = 10 / 7"
definition trendWarningDays :: int where "trendWarningDays = 30"
definition trendCriticalDays :: int where "trendCriticalDays = 7"
definition trendFullPct :: rat where "trendFullPct = 90"

definition sanitizeMount :: "string \<Rightarrow> string" where
  "sanitizeMount = underscored {CHR ''/'', CHR 0x5C, CHR '':''}"

definition ComputeSlope :: "DiskSample list \<Rightarrow> rat" where
  "ComputeSlope ss = (if length ss < trendMinSamples then 0 else regression (points_of ds_Time ds_UsedPct ss))"

definition ForecastDays :: "rat \<Rightarrow> rat \<Rightarrow> int" where
  "ForecastDays currentPct slopePerDay =
     (if slopePerDay \<le> 0 \<or> currentPct \<ge> trendFullPct then - 1 else \<lceil>(trendFullPct - currentPct) / slopePerDay\<rceil>)"

definition disk_add :: "instant \<Rightarrow> DiskSample \<Rightarrow> DiskSample list \<Rightarrow> DiskSample list" where
  "disk_add now x ss =
     (if too_recent ds_Time disk_trendMinInterval now ss then ss
      else prune_samples ds_Time disk_trendMaxAge now (ss @ [x]))"

text \<open>The trends are a map; a mount whose last sample is too recent is left as it is.\<close>

definition zero_trend :: DiskTrend where
  "zero_trend = \<lparr>dt_Mount = [], dt_Samples = [], dt_SlopePerDay = 0, dt_ForecastDays = 0\<rparr>"

definition record_disk :: "instant \<Rightarrow> string \<times> rat \<times> nat \<times> nat \<Rightarrow> (string \<rightharpoonup> DiskTrend) \<Rightarrow> (string \<rightharpoonup> DiskTrend)" where
  "record_disk now d trends =
     (case d of (mount, pct, used, capacity) \<Rightarrow>
      let key = sanitizeMount mount;
          entry = (case trends key of Some t \<Rightarrow> t | None \<Rightarrow> zero_trend)\<lparr>dt_Mount := mount\<rparr>
      in if too_recent ds_Time disk_trendMinInterval now (dt_Samples entry) then trends
         else
           let ss = disk_add now \<lparr>ds_Time = now, ds_UsedPct = pct, ds_UsedBytes = used, ds_TotalBytes = capacity\<rparr> (dt_Samples entry);
               slope = ComputeSlope ss;
               current = (if ss = [] then 0 else ds_UsedPct (last ss))
           in trends(key \<mapsto> entry\<lparr>dt_Samples := ss, dt_SlopePerDay := slope, dt_ForecastDays := ForecastDays current slope\<rparr>))"

definition RecordSamples :: "bool \<Rightarrow> instant \<Rightarrow> (string \<times> rat \<times> nat \<times> nat) list \<Rightarrow> (string \<rightharpoonup> DiskTrend) \<Rightarrow> (string \<rightharpoonup> DiskTrend) \<times> (string \<rightharpoonup> DiskTrend)" where
  "RecordSamples ok now disks prior =
     (let trends = fold (record_disk now) disks prior in (trends, if ok then trends else prior))"

definition trend_label :: "(nat \<Rightarrow> rat \<Rightarrow> string) \<Rightarrow> DiskTrend \<Rightarrow> string" where
  "trend_label num t = dt_Mount t @ '' growing '' @ num 1 (dt_SlopePerDay t) @ ''%/day (fills in ~'' @ show_int (dt_ForecastDays t) @ '' days)''"

definition trend_level :: "DiskTrend \<Rightarrow> nat" where
  "trend_level t =
     (if dt_SlopePerDay t \<le> trendGrowthPerDay \<or> dt_ForecastDays t < 0 then 0
      else if dt_ForecastDays t < trendCriticalDays then 2
      else if dt_ForecastDays t < trendWarningDays then 1 else 0)"

text \<open>\<open>ks\<close>: the order in which the map is walked.\<close>

definition TrendHealth :: "(nat \<Rightarrow> rat \<Rightarrow> string) \<Rightarrow> string list \<Rightarrow> (string \<rightharpoonup> DiskTrend) \<Rightarrow> string \<times> string" where
  "TrendHealth num ks trends =
     (let ts = List.map_filter trends ks in
      worst_of (map (trend_label num) (filter (\<lambda>t. trend_level t = 2) ts)) (map (trend_label num) (filter (\<lambda>t. trend_level t = 1) ts)) [])"

section \<open>SMART counters\<close>

record SmartAttrSample =
  sa_Time :: instant
  sa_Value :: int

record SmartAttrTrend =
  st_AttrName :: string
  st_Samples :: "SmartAttrSample list"
  st_Delta :: int
  st_SlopePerDay :: rat

record SmartDeviceTrend =
  sd_Device :: string
  sd_Attrs :: "string \<rightharpoonup> SmartAttrTrend"

definition smartTrendMaxAge :: duration where "smartTrendMaxAge = 30 * 24 * hour"
definition smartTrendMinInterval :: duration where "smartTrendMinInterval = hour"
definition smartTrendMinSamples :: nat where "smartTrendMinSamples = 3"

definition computeSmartSlope :: "SmartAttrSample list \<Rightarrow> rat" where
  "computeSmartSlope ss =
     (if length ss < smartTrendMinSamples then 0 else regression (points_of sa_Time (\<lambda>s. of_int (sa_Value s)) ss))"

definition smart_add :: "instant \<Rightarrow> SmartAttrSample \<Rightarrow> SmartAttrSample list \<Rightarrow> SmartAttrSample list" where
  "smart_add now x ss =
     (if too_recent sa_Time smartTrendMinInterval now ss then ss
      else prune_samples sa_Time smartTrendMaxAge now (ss @ [x]))"

definition record_attr :: "instant \<Rightarrow> string \<times> int \<Rightarrow> (string \<rightharpoonup> SmartAttrTrend) \<Rightarrow> (string \<rightharpoonup> SmartAttrTrend)" where
  "record_attr now av attrs =
     (case av of (name, v) \<Rightarrow>
      let entry = (case attrs name of Some t \<Rightarrow> t | None \<Rightarrow> \<lparr>st_AttrName = [], st_Samples = [], st_Delta = 0, st_SlopePerDay = 0\<rparr>)\<lparr>st_AttrName := name\<rparr>
      in if too_recent sa_Time smartTrendMinInterval now (st_Samples entry) then attrs
         else
           let ss = smart_add now \<lparr>sa_Time = now, sa_Value = v\<rparr> (st_Samples entry)
           in attrs(name \<mapsto> entry\<lparr>st_Samples := ss,
                st_Delta := (if length ss \<ge> 2 then signed_take_bit 63 (sa_Value (last ss) - sa_Value (hd ss)) else 0),
                st_SlopePerDay := computeSmartSlope ss\<rparr>))"

text \<open>One device with its attributes in the order the map is walked.\<close>

definition record_device :: "instant \<Rightarrow> string \<times> (string \<times> int) list \<Rightarrow> (string \<rightharpoonup> SmartDeviceTrend) \<Rightarrow> (string \<rightharpoonup> SmartDeviceTrend)" where
  "record_device now raw trends =
     (case raw of (device, attrs) \<Rightarrow>
      if device = [] \<or> attrs = [] then trends
      else
        let key = sanitizeMount device;
            entry = (case trends key of Some t \<Rightarrow> t | None \<Rightarrow> \<lparr>sd_Device = [], sd_Attrs = Map.empty\<rparr>)\<lparr>sd_Device := device\<rparr>
        in trends(key \<mapsto> entry\<lparr>sd_Attrs := fold (record_attr now) attrs (sd_Attrs entry)\<rparr>))"

definition RecordSmartSamples ::
    "bool \<Rightarrow> instant \<Rightarrow> (string \<times> (string \<times> int) list) list \<Rightarrow> (string \<rightharpoonup> SmartDeviceTrend) \<Rightarrow>
      (string \<rightharpoonup> SmartDeviceTrend) \<times> (string \<rightharpoonup> SmartDeviceTrend)" where
  "RecordSmartSamples ok now raw prior =
     (let trends = fold (record_device now) raw prior in (trends, if ok then trends else prior))"

definition criticalSmartAttrs :: "(string \<times> bool) list" where
  "criticalSmartAttrs = [(''Reallocated_Sector_Ct'', False), (''Current_Pending_Sector'', False), (''Offline_Uncorrectable'', True),
     (''Reported_Uncorrect'', True)]"

text \<open>The level of one attribute and its label.\<close>

definition attr_level :: "string \<Rightarrow> SmartAttrTrend \<Rightarrow> nat" where
  "attr_level name t =
     (if length (st_Samples t) < 2 then 0
      else if name = ''NVMe_Wear_Pct'' \<or> name = ''Wear'' then
        (let v = sa_Value (last (st_Samples t)) in if v \<ge> 90 then 2 else if v \<ge> 70 then 1 else 0)
      else case map_of criticalSmartAttrs name of
        None \<Rightarrow> 0
      | Some crit \<Rightarrow> if st_Delta t \<le> 0 then 0 else if crit \<or> st_SlopePerDay t > 1 then 2 else 1)"

definition attr_label :: "string \<Rightarrow> string \<Rightarrow> SmartAttrTrend \<Rightarrow> string" where
  "attr_label device name t =
     (if name = ''NVMe_Wear_Pct'' \<or> name = ''Wear'' then device @ '' '' @ name @ '' wear: '' @ show_int (sa_Value (last (st_Samples t))) @ ''%''
      else device @ '' '' @ name @ '' +'' @ show_int (st_Delta t) @ '' from baseline'')"

text \<open>\<open>ks\<close>: the devices and, for each, its attributes in the order the maps are walked.\<close>

definition smart_attrs :: "(string \<times> string list) list \<Rightarrow> (string \<rightharpoonup> SmartDeviceTrend) \<Rightarrow> (string \<times> string \<times> SmartAttrTrend) list" where
  "smart_attrs ks trends = concat (map (\<lambda>(k, names). case trends k of
      None \<Rightarrow> []
    | Some dev \<Rightarrow> List.map_filter (\<lambda>n. map_option (\<lambda>t. (sd_Device dev, n, t)) (sd_Attrs dev n)) names) ks)"

definition SmartTrendHealth :: "(string \<times> string list) list \<Rightarrow> (string \<rightharpoonup> SmartDeviceTrend) \<Rightarrow> string \<times> string" where
  "SmartTrendHealth ks trends =
     (let as = smart_attrs ks trends in
      worst_of (map (\<lambda>(d, n, t). attr_label d n t) (filter (\<lambda>(d, n, t). attr_level n t = 2) as))
               (map (\<lambda>(d, n, t). attr_label d n t) (filter (\<lambda>(d, n, t). attr_level n t = 1) as)) [])"


section \<open>Temperatures\<close>

record TempSensor =
  sn_Name :: string
  sn_CelsiusC :: rat

record TempSample =
  tp_Time :: instant
  tp_CelsiusC :: rat

record TempTrend =
  tt_Sensor :: string
  tt_Samples :: "TempSample list"
  tt_RecentAvgC :: rat

definition temp_trendMaxAge :: duration where "temp_trendMaxAge = 24 * hour"
definition temp_trendMinInterval :: duration where "temp_trendMinInterval = 2 * minute"
definition sustainedWindow :: duration where "sustainedWindow = 15 * minute"
definition sustainedMinSamples :: nat where "sustainedMinSamples = 3"
definition tempWarningC :: rat where "tempWarningC = 80"
definition tempCriticalC :: rat where "tempCriticalC = 90"

definition sanitizeSensor :: "string \<Rightarrow> string" where
  "sanitizeSensor = underscored {CHR '' '', CHR ''/'', CHR 0x5C, CHR '':''}"

definition recentAverage :: "TempSample list \<Rightarrow> instant \<Rightarrow> rat" where
  "recentAverage ss now =
     (let recent = filter (\<lambda>s. \<not> tp_Time s < now - sustainedWindow) ss in
      if recent = [] then 0 else sum_list (map tp_CelsiusC recent) / of_nat (length recent))"

definition recentCount :: "TempSample list \<Rightarrow> instant \<Rightarrow> nat" where
  "recentCount ss now = length (filter (\<lambda>s. \<not> tp_Time s < now - sustainedWindow) ss)"

definition temp_add :: "instant \<Rightarrow> TempSample \<Rightarrow> TempSample list \<Rightarrow> TempSample list" where
  "temp_add now x ss =
     (if too_recent tp_Time temp_trendMinInterval now ss then ss
      else prune_samples tp_Time temp_trendMaxAge now (ss @ [x]))"

definition record_temp :: "instant \<Rightarrow> TempSensor \<Rightarrow> (string \<rightharpoonup> TempTrend) \<Rightarrow> (string \<rightharpoonup> TempTrend)" where
  "record_temp now s trends =
     (let key = sanitizeSensor (sn_Name s);
          entry = (case trends key of Some t \<Rightarrow> t | None \<Rightarrow> \<lparr>tt_Sensor = [], tt_Samples = [], tt_RecentAvgC = 0\<rparr>)\<lparr>tt_Sensor := sn_Name s\<rparr>
      in if too_recent tp_Time temp_trendMinInterval now (tt_Samples entry) then trends
         else
           let ss = temp_add now \<lparr>tp_Time = now, tp_CelsiusC = sn_CelsiusC s\<rparr> (tt_Samples entry)
           in trends(key \<mapsto> entry\<lparr>tt_Samples := ss, tt_RecentAvgC := recentAverage ss now\<rparr>))"

definition RecordTemps :: "bool \<Rightarrow> instant \<Rightarrow> TempSensor list \<Rightarrow> (string \<rightharpoonup> TempTrend) \<Rightarrow> (string \<rightharpoonup> TempTrend) \<times> (string \<rightharpoonup> TempTrend)" where
  "RecordTemps ok now sensors prior = (let trends = fold (record_temp now) sensors prior in (trends, if ok then trends else prior))"

definition degrees :: "(nat \<Rightarrow> rat \<Rightarrow> string) \<Rightarrow> rat \<Rightarrow> string" where
  "degrees num c = num 1 c @ [CHR 0xC2, CHR 0xB0, CHR ''C'']"

definition temp_level :: "rat \<Rightarrow> nat" where
  "temp_level c = (if c \<ge> tempCriticalC then 2 else if c \<ge> tempWarningC then 1 else 0)"

definition sustained_level :: "instant \<Rightarrow> TempTrend \<Rightarrow> nat" where
  "sustained_level now t = (if recentCount (tt_Samples t) now < sustainedMinSamples then 0 else temp_level (tt_RecentAvgC t))"

definition sustained_label :: "(nat \<Rightarrow> rat \<Rightarrow> string) \<Rightarrow> TempTrend \<Rightarrow> string" where
  "sustained_label num t = tt_Sensor t @ '' sustained avg '' @ degrees num (tt_RecentAvgC t) @ '' over last '' @ num 0 15 @ '' min''"

definition SustainedHealth :: "(nat \<Rightarrow> rat \<Rightarrow> string) \<Rightarrow> instant \<Rightarrow> string list \<Rightarrow> (string \<rightharpoonup> TempTrend) \<Rightarrow> string \<times> string" where
  "SustainedHealth num now ks trends =
     (let ts = List.map_filter trends ks in
      worst_of (map (sustained_label num) (filter (\<lambda>t. sustained_level now t = 2) ts))
               (map (sustained_label num) (filter (\<lambda>t. sustained_level now t = 1) ts)) [])"

section \<open>Memory usage\<close>

record UsageSample =
  us_Time :: instant
  us_UsedPct :: rat

definition mem_trendMaxAge :: duration where "mem_trendMaxAge = 25 * hour"
definition mem_trendMinInterval :: duration where "mem_trendMinInterval = 5 * minute"
definition growthEscalationPts :: rat where "growthEscalationPts = 20"
definition growthLookback :: duration where "growthLookback = 20 * hour"

definition usage_add :: "instant \<Rightarrow> UsageSample \<Rightarrow> UsageSample list \<Rightarrow> UsageSample list" where
  "usage_add now x ss = prune_samples us_Time mem_trendMaxAge now (if too_recent us_Time mem_trendMinInterval now ss then ss else ss @ [x])"

text \<open>\<open>RecordSample\<close>: the history returned and the one stored.\<close>

definition RecordUsage :: "bool \<Rightarrow> instant \<Rightarrow> rat \<Rightarrow> UsageSample list \<Rightarrow> UsageSample list \<times> UsageSample list" where
  "RecordUsage ok now pct prior =
     (let ss = usage_add now \<lparr>us_Time = now, us_UsedPct = pct\<rparr> prior in (ss, if ok then ss else prior))"

definition growth_text :: "(nat \<Rightarrow> rat \<Rightarrow> string) \<Rightarrow> instant \<Rightarrow> rat \<Rightarrow> UsageSample \<Rightarrow> string" where
  "growth_text num now pct s =
     ''RAM usage grew '' @ num 1 (pct - us_UsedPct s) @ '' points over the last '' @ num 0 (hours (now - us_Time s)) @ ''h ('' @
     num 1 (us_UsedPct s) @ ''% -> '' @ num 1 pct @ ''%), possible leak''"

fun GrowthIssue :: "(nat \<Rightarrow> rat \<Rightarrow> string) \<Rightarrow> UsageSample list \<Rightarrow> rat \<Rightarrow> instant \<Rightarrow> string" where
  "GrowthIssue num [] pct now = []"
| "GrowthIssue num (s # ss) pct now =
     (if us_Time s > now - growthLookback then []
      else if pct - us_UsedPct s \<ge> growthEscalationPts then growth_text num now pct s
      else GrowthIssue num ss pct now)"

section \<open>Network rates\<close>

record RateSample =
  rs_Time :: instant
  rs_DownMBps :: rat
  rs_UpMBps :: rat

definition baselineMaxAge :: duration where "baselineMaxAge = 7 * 24 * hour"
definition baselineMinInterval :: duration where "baselineMinInterval = 5 * minute"
definition baselineMinSamples :: nat where "baselineMinSamples = 4"
definition anomalyFactor :: rat where "anomalyFactor = 3"
definition anomalyFloorMBps :: rat where "anomalyFloorMBps = 1"

definition rate_add :: "instant \<Rightarrow> RateSample \<Rightarrow> RateSample list \<Rightarrow> RateSample list" where
  "rate_add now x ss = prune_samples rs_Time baselineMaxAge now (if too_recent rs_Time baselineMinInterval now ss then ss else ss @ [x])"

text \<open>The history returned, whether the reading was appended, and the history stored.\<close>

definition RecordRate :: "bool \<Rightarrow> instant \<Rightarrow> rat \<Rightarrow> rat \<Rightarrow> RateSample list \<Rightarrow> (RateSample list \<times> bool) \<times> RateSample list" where
  "RecordRate ok now down up prior =
     (let ss = rate_add now \<lparr>rs_Time = now, rs_DownMBps = down, rs_UpMBps = up\<rparr> prior
      in ((ss, \<not> too_recent rs_Time baselineMinInterval now prior), if ok then ss else prior))"

definition median :: "rat list \<Rightarrow> rat" where
  "median vals =
     (if vals = [] then 0
      else let vs = sort vals; mid = length vs div 2
           in if length vs mod 2 = 1 then vs ! mid else (vs ! (mid - 1) + vs ! mid) / 2)"

definition medians :: "RateSample list \<Rightarrow> rat \<times> rat" where
  "medians ss = (median (map rs_DownMBps ss), median (map rs_UpMBps ss))"

definition safeRatio :: "rat \<Rightarrow> rat \<Rightarrow> rat" where
  "safeRatio cur base = (if base \<le> 1 / 1000 then 999 else cur / base)"

definition unusual :: "rat \<Rightarrow> rat \<Rightarrow> bool" where
  "unusual cur med \<longleftrightarrow> cur > anomalyFloorMBps \<and> cur > anomalyFactor * med"

definition anomaly_text :: "(nat \<Rightarrow> rat \<Rightarrow> string) \<Rightarrow> string \<Rightarrow> rat \<Rightarrow> rat \<Rightarrow> string" where
  "anomaly_text num which cur med =
     which @ '' rate '' @ num 2 cur @ '' MB/s is '' @ num 1 (safeRatio cur med) @ ''x the 7-day median ('' @ num 2 med @ '' MB/s)''"

definition AnomalyIssue :: "(nat \<Rightarrow> rat \<Rightarrow> string) \<Rightarrow> RateSample list \<Rightarrow> rat \<Rightarrow> rat \<Rightarrow> string" where
  "AnomalyIssue num ss down up =
     (if length ss < baselineMinSamples then ''not enough baseline history yet to judge whether current traffic is normal''
      else case medians ss of (medDown, medUp) \<Rightarrow>
        if unusual down medDown then anomaly_text num ''download'' down medDown
        else if unusual up medUp then anomaly_text num ''upload'' up medUp else [])"


section \<open>The histories stay spaced and bounded\<close>

interpretation disk_hist: rolling_history ds_Time disk_add disk_trendMinInterval disk_trendMaxAge
  by unfold_locales (simp_all add: disk_add_def disk_trendMinInterval_def disk_trendMaxAge_def duration_defs)

interpretation smart_hist: rolling_history sa_Time smart_add smartTrendMinInterval smartTrendMaxAge
  by unfold_locales (simp_all add: smart_add_def smartTrendMinInterval_def smartTrendMaxAge_def duration_defs)

interpretation temp_hist: rolling_history tp_Time temp_add temp_trendMinInterval temp_trendMaxAge
  by unfold_locales (simp_all add: temp_add_def temp_trendMinInterval_def temp_trendMaxAge_def duration_defs)

interpretation usage_hist: rolling_history us_Time usage_add mem_trendMinInterval mem_trendMaxAge
  by unfold_locales (simp_all add: usage_add_def mem_trendMinInterval_def mem_trendMaxAge_def duration_defs)

interpretation rate_hist: rolling_history rs_Time rate_add baselineMinInterval baselineMaxAge
  by unfold_locales (simp_all add: rate_add_def baselineMinInterval_def baselineMaxAge_def duration_defs)

text \<open>Sequences of calls, each with the result of saving, the time and the readings.\<close>

definition disk_calls :: "(bool \<times> instant \<times> (string \<times> rat \<times> nat \<times> nat) list) list \<Rightarrow> (string \<rightharpoonup> DiskTrend)" where
  "disk_calls cs = fold (\<lambda>(ok, now, disks) tr. snd (RecordSamples ok now disks tr)) cs Map.empty"

definition smart_calls :: "(bool \<times> instant \<times> (string \<times> (string \<times> int) list) list) list \<Rightarrow> (string \<rightharpoonup> SmartDeviceTrend)" where
  "smart_calls cs = fold (\<lambda>(ok, now, raw) tr. snd (RecordSmartSamples ok now raw tr)) cs Map.empty"

definition temp_calls :: "(bool \<times> instant \<times> TempSensor list) list \<Rightarrow> (string \<rightharpoonup> TempTrend)" where
  "temp_calls cs = fold (\<lambda>(ok, now, sensors) tr. snd (RecordTemps ok now sensors tr)) cs Map.empty"

definition usage_calls :: "(bool \<times> instant \<times> rat) list \<Rightarrow> UsageSample list" where
  "usage_calls cs = fold (\<lambda>(ok, now, pct) ss. snd (RecordUsage ok now pct ss)) cs []"

definition rate_calls :: "(bool \<times> instant \<times> rat \<times> rat) list \<Rightarrow> RateSample list" where
  "rate_calls cs = fold (\<lambda>(ok, now, down, up) ss. snd (RecordRate ok now down up ss)) cs []"

lemma fold_keeps: "P s \<Longrightarrow> (\<And>x s. P s \<Longrightarrow> P (f x s)) \<Longrightarrow> P (fold f xs s)"
  by (induction xs arbitrary: s) auto

text \<open>What holds of a stored history, and of every entry of a stored map.\<close>

definition disk_ok :: "DiskTrend \<Rightarrow> bool" where
  "disk_ok t \<longleftrightarrow> well_spaced ds_Time disk_trendMinInterval (dt_Samples t) \<and> length (dt_Samples t) \<le> 337 \<and> dt_Samples t \<noteq> []
     \<and> dt_SlopePerDay t = ComputeSlope (dt_Samples t) \<and> dt_ForecastDays t = ForecastDays (ds_UsedPct (last (dt_Samples t))) (dt_SlopePerDay t)"

definition attr_ok :: "SmartAttrTrend \<Rightarrow> bool" where
  "attr_ok t \<longleftrightarrow> well_spaced sa_Time smartTrendMinInterval (st_Samples t) \<and> length (st_Samples t) \<le> 721 \<and> st_Samples t \<noteq> []
     \<and> st_SlopePerDay t = computeSmartSlope (st_Samples t)"

definition temp_ok :: "TempTrend \<Rightarrow> bool" where
  "temp_ok t \<longleftrightarrow> well_spaced tp_Time temp_trendMinInterval (tt_Samples t) \<and> length (tt_Samples t) \<le> 721 \<and> tt_Samples t \<noteq> []"

lemma disk_ok_record:
  assumes "\<forall>t \<in> ran tr. disk_ok t" shows "\<forall>t \<in> ran (record_disk now d tr). disk_ok t"
proof -
  obtain mount pct used capacity where d: "d = (mount, pct, used, capacity)" by (metis prod.exhaust)
  define e where "e = (case tr (sanitizeMount mount) of Some t \<Rightarrow> t | None \<Rightarrow> zero_trend)\<lparr>dt_Mount := mount\<rparr>"
  define x where "x = \<lparr>ds_Time = now, ds_UsedPct = pct, ds_UsedBytes = used, ds_TotalBytes = capacity\<rparr>"
  have "well_spaced ds_Time disk_trendMinInterval (dt_Samples e)" "length (dt_Samples e) \<le> 337"
    using assms by (auto simp: e_def zero_trend_def disk_ok_def well_spaced_def ran_def split: option.split)
  then have a: "well_spaced ds_Time disk_trendMinInterval (disk_add now x (dt_Samples e))" "length (disk_add now x (dt_Samples e)) \<le> 337"
      and n: "\<not> too_recent ds_Time disk_trendMinInterval now (dt_Samples e) \<Longrightarrow> disk_add now x (dt_Samples e) \<noteq> []"
    using disk_hist.add_keeps [of "dt_Samples e" x now] by (simp_all add: x_def disk_trendMinInterval_def disk_trendMaxAge_def duration_defs)
  have "disk_ok (e\<lparr>dt_Samples := disk_add now x (dt_Samples e), dt_SlopePerDay := ComputeSlope (disk_add now x (dt_Samples e)),
      dt_ForecastDays := ForecastDays (ds_UsedPct (last (disk_add now x (dt_Samples e)))) (ComputeSlope (disk_add now x (dt_Samples e)))\<rparr>)"
    if "\<not> too_recent ds_Time disk_trendMinInterval now (dt_Samples e)"
    using a n that by (simp add: disk_ok_def)
  then show ?thesis using assms n
    unfolding record_disk_def d prod.case Let_def e_def [symmetric] x_def [symmetric]
    by (auto simp: ran_def split: if_splits)
qed

lemma attr_ok_record:
  assumes "\<forall>t \<in> ran tr. attr_ok t" shows "\<forall>t \<in> ran (record_attr now av tr). attr_ok t"
proof -
  obtain name v where d: "av = (name, v)" by (metis prod.exhaust)
  define e where "e = (case tr name of Some t \<Rightarrow> t | None \<Rightarrow> \<lparr>st_AttrName = [], st_Samples = [], st_Delta = 0, st_SlopePerDay = 0\<rparr>)\<lparr>st_AttrName := name\<rparr>"
  define x where "x = \<lparr>sa_Time = now, sa_Value = v\<rparr>"
  have "well_spaced sa_Time smartTrendMinInterval (st_Samples e)" "length (st_Samples e) \<le> 721"
    using assms by (auto simp: e_def attr_ok_def well_spaced_def ran_def split: option.split)
  then have a: "well_spaced sa_Time smartTrendMinInterval (smart_add now x (st_Samples e))" "length (smart_add now x (st_Samples e)) \<le> 721"
      and n: "\<not> too_recent sa_Time smartTrendMinInterval now (st_Samples e) \<Longrightarrow> smart_add now x (st_Samples e) \<noteq> []"
    using smart_hist.add_keeps [of "st_Samples e" x now] by (simp_all add: x_def smartTrendMinInterval_def smartTrendMaxAge_def duration_defs)
  have "attr_ok (e\<lparr>st_Samples := smart_add now x (st_Samples e), st_Delta := dl, st_SlopePerDay := computeSmartSlope (smart_add now x (st_Samples e))\<rparr>)"
    if "\<not> too_recent sa_Time smartTrendMinInterval now (st_Samples e)" for dl
    using a n that by (simp add: attr_ok_def)
  then show ?thesis using assms
    unfolding record_attr_def d prod.case Let_def e_def [symmetric] x_def [symmetric]
    by (auto simp: ran_def split: if_splits)
qed

lemma temp_ok_record:
  assumes "\<forall>t \<in> ran tr. temp_ok t" shows "\<forall>t \<in> ran (record_temp now s tr). temp_ok t"
proof -
  define e where "e = (case tr (sanitizeSensor (sn_Name s)) of Some t \<Rightarrow> t | None \<Rightarrow> \<lparr>tt_Sensor = [], tt_Samples = [], tt_RecentAvgC = 0\<rparr>)\<lparr>tt_Sensor := sn_Name s\<rparr>"
  define x where "x = \<lparr>tp_Time = now, tp_CelsiusC = sn_CelsiusC s\<rparr>"
  have "well_spaced tp_Time temp_trendMinInterval (tt_Samples e)" "length (tt_Samples e) \<le> 721"
    using assms by (auto simp: e_def temp_ok_def well_spaced_def ran_def split: option.split)
  then have a: "well_spaced tp_Time temp_trendMinInterval (temp_add now x (tt_Samples e))" "length (temp_add now x (tt_Samples e)) \<le> 721"
      and n: "\<not> too_recent tp_Time temp_trendMinInterval now (tt_Samples e) \<Longrightarrow> temp_add now x (tt_Samples e) \<noteq> []"
    using temp_hist.add_keeps [of "tt_Samples e" x now] by (simp_all add: x_def temp_trendMinInterval_def temp_trendMaxAge_def duration_defs)
  have "temp_ok (e\<lparr>tt_Samples := temp_add now x (tt_Samples e), tt_RecentAvgC := av\<rparr>)"
    if "\<not> too_recent tp_Time temp_trendMinInterval now (tt_Samples e)" for av
    using a n that by (simp add: temp_ok_def)
  then show ?thesis using assms
    unfolding record_temp_def Let_def e_def [symmetric] x_def [symmetric]
    by (auto simp: ran_def split: if_splits)
qed


text \<open>Successful and failed calls that each fold one step over their readings.\<close>

lemma calls_keep:
  assumes "P s" "\<And>now x s. P s \<Longrightarrow> P (f now x s)"
  shows "P (fold (\<lambda>(ok, now, xs) tr. snd (fold (f now) xs tr, if ok then fold (f now) xs tr else tr)) cs s)"
proof (rule fold_keeps [where P = P])
  fix c s assume "P s"
  then have "P (fold (f now) xs s)" for now xs using assms(2) by (rule fold_keeps [where P = P])
  with \<open>P s\<close> show "P ((case c of (ok, now, xs) \<Rightarrow> \<lambda>tr. snd (fold (f now) xs tr, if ok then fold (f now) xs tr else tr)) s)"
    by (simp split: prod.split)
qed (rule assms(1))

lemma disk_calls_ok: "\<forall>t \<in> ran (disk_calls cs). disk_ok t"
  unfolding disk_calls_def RecordSamples_def Let_def by (rule calls_keep [where P = "\<lambda>tr. \<forall>t \<in> ran tr. disk_ok t", OF _ disk_ok_record]) simp

definition smart_ok :: "(string \<rightharpoonup> SmartDeviceTrend) \<Rightarrow> bool" where
  "smart_ok tr \<longleftrightarrow> (\<forall>dev \<in> ran tr. \<forall>t \<in> ran (sd_Attrs dev). attr_ok t)"

lemma smart_ok_record: "smart_ok tr \<Longrightarrow> smart_ok (record_device now raw tr)"
proof -
  assume tr: "smart_ok tr"
  obtain device attrs where r: "raw = (device, attrs)" by (metis prod.exhaust)
  define e where "e = (case tr (sanitizeMount device) of Some t \<Rightarrow> t | None \<Rightarrow> \<lparr>sd_Device = [], sd_Attrs = Map.empty\<rparr>)\<lparr>sd_Device := device\<rparr>"
  have "\<forall>t \<in> ran (sd_Attrs e). attr_ok t" using tr by (auto simp: e_def smart_ok_def ran_def split: option.split)
  then have "\<forall>t \<in> ran (fold (record_attr now) attrs (sd_Attrs e)). attr_ok t" by (rule fold_keeps [where P = "\<lambda>m. \<forall>t \<in> ran m. attr_ok t", OF _ attr_ok_record])
  then show ?thesis using tr unfolding record_device_def r prod.case Let_def e_def [symmetric]
    by (simp add: smart_ok_def ran_def) (metis SmartDeviceTrend.select_convs(2) SmartDeviceTrend.surjective SmartDeviceTrend.update_convs(2))
qed

lemma smart_calls_ok: "smart_ok (smart_calls cs)"
  unfolding smart_calls_def RecordSmartSamples_def Let_def by (rule calls_keep [where P = smart_ok, OF _ smart_ok_record]) (simp add: smart_ok_def)

lemma temp_calls_ok: "\<forall>t \<in> ran (temp_calls cs). temp_ok t"
  unfolding temp_calls_def RecordTemps_def Let_def by (rule calls_keep [where P = "\<lambda>tr. \<forall>t \<in> ran tr. temp_ok t", OF _ temp_ok_record]) simp

lemma usage_calls_ok: "well_spaced us_Time mem_trendMinInterval (usage_calls cs) \<and> length (usage_calls cs) \<le> 301"
  unfolding usage_calls_def
proof (rule fold_keeps)
  fix c :: "bool \<times> instant \<times> rat" and ss :: "UsageSample list"
  assume "well_spaced us_Time mem_trendMinInterval ss \<and> length ss \<le> 301"
  then show "well_spaced us_Time mem_trendMinInterval ((case c of (ok, now, pct) \<Rightarrow> \<lambda>ss. snd (RecordUsage ok now pct ss)) ss)
      \<and> length ((case c of (ok, now, pct) \<Rightarrow> \<lambda>ss. snd (RecordUsage ok now pct ss)) ss) \<le> 301"
    using usage_hist.add_keeps [of ss "\<lparr>us_Time = fst (snd c), us_UsedPct = snd (snd c)\<rparr>" "fst (snd c)"]
    by (auto simp: RecordUsage_def Let_def mem_trendMinInterval_def mem_trendMaxAge_def duration_defs split: prod.split)
qed (simp add: well_spaced_def)

lemma rate_calls_ok: "well_spaced rs_Time baselineMinInterval (rate_calls cs) \<and> length (rate_calls cs) \<le> 2017"
  unfolding rate_calls_def
proof (rule fold_keeps)
  fix c :: "bool \<times> instant \<times> rat \<times> rat" and ss :: "RateSample list"
  assume "well_spaced rs_Time baselineMinInterval ss \<and> length ss \<le> 2017"
  then show "well_spaced rs_Time baselineMinInterval ((case c of (ok, now, down, up) \<Rightarrow> \<lambda>ss. snd (RecordRate ok now down up ss)) ss)
      \<and> length ((case c of (ok, now, down, up) \<Rightarrow> \<lambda>ss. snd (RecordRate ok now down up ss)) ss) \<le> 2017"
    using rate_hist.add_keeps [of ss "\<lparr>rs_Time = fst (snd c), rs_DownMBps = fst (snd (snd c)), rs_UpMBps = snd (snd (snd c))\<rparr>" "fst (snd c)"]
    by (auto simp: RecordRate_def Let_def baselineMinInterval_def baselineMaxAge_def duration_defs split: prod.split)
qed (simp add: well_spaced_def)


section \<open>The slope is that of the least-squares line\<close>

definition sq_error :: "rat \<Rightarrow> rat \<Rightarrow> (rat \<times> rat) list \<Rightarrow> rat" where
  "sq_error a b ps = (\<Sum>(x, y) \<leftarrow> ps. (y - (a + b * x))\<^sup>2)"

definition least_squares :: "rat \<Rightarrow> (rat \<times> rat) list \<Rightarrow> bool" where
  "least_squares b ps \<longleftrightarrow> (\<exists>a. \<forall>a' b'. sq_error a b ps \<le> sq_error a' b' ps)"

lemma sums_fold:
  "fold sums_step ps (sx, sy, sxy, sx2) =
     (sx + (\<Sum>(x, y) \<leftarrow> ps. x), sy + (\<Sum>(x, y) \<leftarrow> ps. y), sxy + (\<Sum>(x, y) \<leftarrow> ps. x * y), sx2 + (\<Sum>(x, y) \<leftarrow> ps. x * x))"
  by (induction ps arbitrary: sx sy sxy sx2) (auto simp: sums_step_def add.assoc)

lemma sq_error_expand:
  "sq_error a b ps = (\<Sum>(x, y) \<leftarrow> ps. y * y) - 2 * a * (\<Sum>(x, y) \<leftarrow> ps. y) - 2 * b * (\<Sum>(x, y) \<leftarrow> ps. x * y)
     + of_nat (length ps) * a\<^sup>2 + 2 * a * b * (\<Sum>(x, y) \<leftarrow> ps. x) + b\<^sup>2 * (\<Sum>(x, y) \<leftarrow> ps. x * x)"
  by (induction ps) (auto simp: sq_error_def power2_eq_square algebra_simps)

lemma normal_equations:
  fixes n :: rat
  assumes "n > 0" "n * sx2 - sx * sx > 0" "b = (n * sxy - sx * sy) / (n * sx2 - sx * sx)" "a = (sy - b * sx) / n"
  shows "syy - 2 * a * sy - 2 * b * sxy + n * a\<^sup>2 + 2 * a * b * sx + b\<^sup>2 * sx2
       \<le> syy - 2 * a' * sy - 2 * b' * sxy + n * a'\<^sup>2 + 2 * a' * b' * sx + b'\<^sup>2 * sx2"
proof -
  define da db where "da = a' - a" and "db = b' - b"
  have e1: "n * a + b * sx = sy" using assms(1,4) by simp
  have "b * (n * sx2 - sx * sx) = n * sxy - sx * sy" using assms(2,3) by simp
  then have "n * (a * sx + b * sx2) = n * sxy" unfolding e1 [symmetric] by (simp add: algebra_simps)
  then have e2: "a * sx + b * sx2 = sxy" using assms(1) by simp
  have "n * ((syy - 2 * a' * sy - 2 * b' * sxy + n * a'\<^sup>2 + 2 * a' * b' * sx + b'\<^sup>2 * sx2)
         - (syy - 2 * a * sy - 2 * b * sxy + n * a\<^sup>2 + 2 * a * b * sx + b\<^sup>2 * sx2))
       = (n * da + sx * db)\<^sup>2 + (n * sx2 - sx * sx) * db\<^sup>2"
    unfolding e1 [symmetric] e2 [symmetric] da_def db_def by (simp add: power2_eq_square algebra_simps)
  also have "\<dots> \<ge> 0" using assms(2) by simp
  finally show ?thesis using assms(1) by (simp add: zero_le_mult_iff)
qed

lemma regression_least_squares:
  fixes ps
  defines "D \<equiv> of_nat (length ps) * (\<Sum>(x, y) \<leftarrow> ps. x * x) - (\<Sum>(x, y) \<leftarrow> ps. x) * (\<Sum>(x, y) \<leftarrow> ps. x)"
  assumes "ps \<noteq> []" "D \<ge> 1 / 1000000000"
  shows "least_squares (regression ps / 24) ps"
proof -
  define b where "b = (of_nat (length ps) * (\<Sum>(x, y) \<leftarrow> ps. x * y) - (\<Sum>(x, y) \<leftarrow> ps. x) * (\<Sum>(x, y) \<leftarrow> ps. y)) / D"
  have "\<not> \<bar>D\<bar> < 1 / 1000000000" using assms(3) by linarith
  then have "regression ps = b * 24" by (simp add: regression_def sums_fold b_def D_def [symmetric] Let_def)
  then have "regression ps / 24 = b" by simp
  moreover have "sq_error (((\<Sum>(x, y) \<leftarrow> ps. y) - b * (\<Sum>(x, y) \<leftarrow> ps. x)) / of_nat (length ps)) b ps \<le> sq_error a' b' ps" for a' b'
    unfolding sq_error_expand using assms(2,3) by (intro normal_equations) (simp_all add: b_def D_def)
  ultimately show ?thesis unfolding least_squares_def by metis
qed

text \<open>Points whose first and last hours differ have a determinant to divide by.\<close>

lemma spread_sum: "(\<Sum>x \<leftarrow> xs. (x - m)\<^sup>2) = (\<Sum>x \<leftarrow> xs. x * x) - 2 * m * sum_list xs + of_nat (length xs) * m\<^sup>2" for m :: rat
  by (induction xs) (auto simp: power2_eq_square algebra_simps)

lemma determinant_bound:
  fixes xs :: "rat list"
  assumes "xs = 0 # ys @ [z]"
  shows "of_nat (length xs) * (\<Sum>x \<leftarrow> xs. x * x) - sum_list xs * sum_list xs \<ge> of_nat (length xs) * (z\<^sup>2 / 2)"
proof -
  define n m where "n = (of_nat (length xs) :: rat)" and "m = sum_list xs / of_nat (length xs)"
  have n: "n > 0" by (simp add: n_def assms)
  have s: "sum_list xs = n * m" using n by (simp add: m_def n_def)
  have "z\<^sup>2 / 2 \<le> m\<^sup>2 + (z - m)\<^sup>2"
  proof -
    have "0 \<le> (2 * m - z)\<^sup>2" by simp
    then show ?thesis by (simp add: power2_eq_square algebra_simps)
  qed
  also have "\<dots> \<le> (\<Sum>x \<leftarrow> xs. (x - m)\<^sup>2)"
    using sum_list_nonneg [of "map (\<lambda>x. (x - m)\<^sup>2) ys"] by (force simp: assms)
  also have "\<dots> = (\<Sum>x \<leftarrow> xs. x * x) - n * m\<^sup>2" unfolding spread_sum s n_def [symmetric] by (simp add: power2_eq_square)
  finally have "n * (z\<^sup>2 / 2) \<le> n * ((\<Sum>x \<leftarrow> xs. x * x) - n * m\<^sup>2)" using n by simp
  then show ?thesis by (simp add: s n_def [symmetric] power2_eq_square algebra_simps)
qed

text \<open>Samples at least half an hour apart qualify, whatever their values.\<close>

lemma spaced_slope:
  assumes "well_spaced stamp gap ss" "length ss \<ge> 3" "gap \<ge> 30 * minute"
  shows "least_squares (regression (points_of stamp val ss) / 24) (points_of stamp val ss)"
proof -
  obtain s t rest where ss: "ss = s # rest @ [t]"
    using assms(2) by (metis append_butlast_last_id length_0_conv length_Cons less_Suc_eq_0_disj linorder_not_le neq_Nil_conv numeral_3_eq_3 list.size(3))
  have h: "stamp s + gap \<le> stamp t" using assms(1) by (auto simp: ss well_spaced_def sorted_wrt_append)
  define xs where "xs = map (\<lambda>r. hours (stamp r - stamp s)) ss"
  have xs: "xs = 0 # map (\<lambda>r. hours (stamp r - stamp s)) rest @ [hours (stamp t - stamp s)]" by (simp add: xs_def ss hours_def)
  have "of_int (30 * minute) / of_int hour \<le> hours (stamp t - stamp s)"
    unfolding hours_def using h assms(3) by (intro divide_right_mono) (simp_all add: duration_defs)
  then have z: "1 / 2 \<le> hours (stamp t - stamp s)" by (simp add: duration_defs)
  then have "1 / 4 \<le> (hours (stamp t - stamp s))\<^sup>2" using mult_mono [OF z z] by (simp add: power2_eq_square)
  moreover have "(1 :: rat) \<le> of_nat (length xs)" using assms(2) by (simp add: xs_def)
  ultimately have "1 * ((1 / 4) / 2) \<le> of_nat (length xs) * ((hours (stamp t - stamp s))\<^sup>2 / 2)" by (intro mult_mono) simp_all
  also note determinant_bound [OF xs]
  finally have "1 / 1000000000 \<le> of_nat (length xs) * (\<Sum>x \<leftarrow> xs. x * x) - sum_list xs * sum_list xs" by simp
  then show ?thesis
    by (intro regression_least_squares) (simp_all add: points_of_def ss xs_def comp_def)
qed


section \<open>What the trends say\<close>

lemma ForecastDays_least:
  assumes "ForecastDays cur slope = fd"
  shows "fd = - 1 \<longleftrightarrow> slope \<le> 0 \<or> cur \<ge> trendFullPct"
    and "fd \<noteq> - 1 \<Longrightarrow> cur + slope * of_int d \<ge> trendFullPct \<longleftrightarrow> d \<ge> fd"
proof -
  have *: "0 < (trendFullPct - cur) / slope" if "\<not> (slope \<le> 0 \<or> cur \<ge> trendFullPct)" using that by simp
  have "0 < \<lceil>(trendFullPct - cur) / slope\<rceil>" if "\<not> (slope \<le> 0 \<or> cur \<ge> trendFullPct)" using * [OF that] by (simp only: zero_less_ceiling)
  then show "fd = - 1 \<longleftrightarrow> slope \<le> 0 \<or> cur \<ge> trendFullPct" 
    using assms by (cases "slope \<le> 0 \<or> cur \<ge> trendFullPct") (auto simp: ForecastDays_def simp del: zero_less_ceiling)
  assume "fd \<noteq> - 1"
  then have s: "0 < slope" and fd: "fd = \<lceil>(trendFullPct - cur) / slope\<rceil>" using assms by (auto simp: ForecastDays_def split: if_splits)
  have "d \<ge> fd \<longleftrightarrow> (trendFullPct - cur) / slope \<le> of_int d" unfolding fd by (rule ceiling_le_iff)
  also have "\<dots> \<longleftrightarrow> cur + slope * of_int d \<ge> trendFullPct" using s by (simp add: pos_divide_le_eq algebra_simps)
  finally show "cur + slope * of_int d \<ge> trendFullPct \<longleftrightarrow> d \<ge> fd" by simp
qed

text \<open>Samples a quarter of an hour apart: at most two of them lie in the window of a quarter of an hour.\<close>

lemma few_recent:
  assumes "well_spaced tp_Time sustainedWindow ss" "\<forall>s \<in> set ss. tp_Time s \<le> now"
  shows "recentCount ss now < sustainedMinSamples"
proof -
  let ?r = "filter (\<lambda>s. \<not> tp_Time s < now - sustainedWindow) ss"
  have w: "well_spaced tp_Time sustainedWindow ?r" using assms(1) unfolding well_spaced_def by (rule sorted_wrt_filter)
  have False if "3 \<le> length ?r"
  proof -
    from that obtain a b c rest where r: "?r = a # b # c # rest" by (metis Suc_le_length_iff numeral_3_eq_3)
    then have m: "a \<in> set ?r" "c \<in> set ?r" by simp_all
    have "tp_Time a + 2 * sustainedWindow \<le> tp_Time c" using w by (simp add: r well_spaced_def)
    moreover have "tp_Time a \<ge> now - sustainedWindow" "tp_Time c \<le> now" using m assms(2) by auto
    ultimately show False by (simp add: sustainedWindow_def duration_defs)
  qed
  then show ?thesis unfolding recentCount_def sustainedMinSamples_def by (meson not_le)
qed

definition slow_samples :: "instant \<Rightarrow> TempSample list \<Rightarrow> bool" where
  "slow_samples now ss \<longleftrightarrow> well_spaced tp_Time sustainedWindow ss \<and> (\<forall>s \<in> set ss. tp_Time s = now \<or> tp_Time s + sustainedWindow \<le> now)"

lemma slow_samples_add:
  assumes "slow_samples now ss" "tp_Time x = now" "\<not> too_recent tp_Time temp_trendMinInterval now ss"
  shows "slow_samples now (temp_add now x ss)"
proof -
  have "tp_Time s + sustainedWindow \<le> now" if "s \<in> set ss" for s
  proof (rule ccontr)
    assume "\<not> ?thesis"
    then have "tp_Time s = now" using assms(1) that by (auto simp: slow_samples_def)
    moreover obtain ys zs where ss: "ss = ys @ s # zs" using \<open>s \<in> set ss\<close> by (metis split_list)
    ultimately have "zs = []" using assms(1)
      by (cases zs) (auto simp: slow_samples_def well_spaced_def sorted_wrt_append sustainedWindow_def duration_defs)
    then have "last ss = s" "ss \<noteq> []" using ss by simp_all
    then show False using assms(3) \<open>tp_Time s = now\<close> by (simp add: too_recent_def temp_trendMinInterval_def duration_defs)
  qed
  then have "slow_samples now (ss @ [x])" using assms(1,2) by (simp add: slow_samples_def well_spaced_def sorted_wrt_append)
  then show ?thesis using assms(3) set_prune [of tp_Time temp_trendMaxAge now "ss @ [x]"]
    by (auto simp: temp_add_def slow_samples_def intro: spaced_suffix)
qed

definition slow_trends :: "instant \<Rightarrow> (string \<rightharpoonup> TempTrend) \<Rightarrow> bool" where
  "slow_trends now tr \<longleftrightarrow> (\<forall>t \<in> ran tr. slow_samples now (tt_Samples t))"

lemma slow_trends_record:
  assumes "slow_trends now tr" shows "slow_trends now (record_temp now s tr)"
proof -
  define e where "e = (case tr (sanitizeSensor (sn_Name s)) of Some t \<Rightarrow> t | None \<Rightarrow> \<lparr>tt_Sensor = [], tt_Samples = [], tt_RecentAvgC = 0\<rparr>)\<lparr>tt_Sensor := sn_Name s\<rparr>"
  have "slow_samples now (tt_Samples e)"
    using assms by (auto simp: e_def slow_trends_def slow_samples_def well_spaced_def ran_def split: option.split)
  then have "slow_samples now (temp_add now \<lparr>tp_Time = now, tp_CelsiusC = sn_CelsiusC s\<rparr> (tt_Samples e))"
    if "\<not> too_recent tp_Time temp_trendMinInterval now (tt_Samples e)"
    using that by (intro slow_samples_add) simp_all
  then show ?thesis using assms unfolding record_temp_def Let_def e_def [symmetric]
    by (auto simp: slow_trends_def ran_def split: if_splits)
qed

lemma slow_trends_later: "slow_trends now tr \<Longrightarrow> now + sustainedWindow \<le> later \<Longrightarrow> slow_trends later tr"
  by (fastforce simp: slow_trends_def slow_samples_def sustainedWindow_def duration_defs)

lemma slow_trends_calls:
  assumes "slow_trends t0 tr" "sorted_wrt (\<lambda>a b. a + sustainedWindow \<le> b) (t0 # map (\<lambda>c. fst (snd c)) cs)"
  shows "slow_trends (last (t0 # map (\<lambda>c. fst (snd c)) cs)) (fold (\<lambda>(ok, now, sensors) tr. snd (RecordTemps ok now sensors tr)) cs tr)"
  using assms
proof (induction cs arbitrary: t0 tr)
  case (Cons c cs)
  obtain ok now sensors where c: "c = (ok, now, sensors)" by (metis prod.exhaust)
  have "slow_trends now tr" using Cons.prems slow_trends_later by (simp add: c)
  moreover have "slow_trends now (fold (record_temp now) sensors tr)"
    using \<open>slow_trends now tr\<close> by (rule fold_keeps [where P = "slow_trends now", OF _ slow_trends_record])
  ultimately have "slow_trends now (snd (RecordTemps ok now sensors tr))" by (simp add: RecordTemps_def Let_def)
  from Cons.IH [OF this] Cons.prems(2) show ?case by (simp add: c)
qed simp

section \<open>Claims\<close>

text \<open>
  C34: Every stored history stays spaced by the minimal interval of its check and within its bound, after any sequence of recordings at any times of the
  clock, whether or not the saves succeed: 337 samples per mount, 721 per SMART attribute and per sensor, 301 of memory usage and 2017 of network rates.
\<close>

theorem histories_bounded:
  "(\<forall>t \<in> ran (disk_calls ds). well_spaced ds_Time disk_trendMinInterval (dt_Samples t) \<and> length (dt_Samples t) \<le> 337)
    \<and> (\<forall>dev \<in> ran (smart_calls ms). \<forall>t \<in> ran (sd_Attrs dev). well_spaced sa_Time smartTrendMinInterval (st_Samples t) \<and> length (st_Samples t) \<le> 721)
    \<and> (\<forall>t \<in> ran (temp_calls ts). well_spaced tp_Time temp_trendMinInterval (tt_Samples t) \<and> length (tt_Samples t) \<le> 721)
    \<and> (well_spaced us_Time mem_trendMinInterval (usage_calls us) \<and> length (usage_calls us) \<le> 301)
    \<and> (well_spaced rs_Time baselineMinInterval (rate_calls rs) \<and> length (rate_calls rs) \<le> 2017)"
  using disk_calls_ok [of ds] smart_calls_ok [of ms] temp_calls_ok [of ts] usage_calls_ok [of us] rate_calls_ok [of rs]
  by (auto simp: disk_ok_def smart_ok_def attr_ok_def temp_ok_def)


text \<open>
  With readings a quarter of an hour or more apart, the interval of the built-in temperature responsibility, the sustained-temperature rule never
  reports anything: its window of a quarter of an hour holds at most two samples and it asks for three.
\<close>

theorem scheduled_readings_never_sustained:
  assumes "sorted_wrt (\<lambda>a b. a + sustainedWindow \<le> b) (map (\<lambda>c. fst (snd c)) cs)" "\<forall>c \<in> set cs. fst (snd c) \<le> now"
  shows "SustainedHealth num now ks (temp_calls cs) = (''ok'', [])"
proof -
  have "slow_trends (last (map (\<lambda>c. fst (snd c)) cs)) (temp_calls cs) \<and> last (map (\<lambda>c. fst (snd c)) cs) \<le> now" if "cs \<noteq> []"
  proof -
    have "\<forall>t \<in> set (map (\<lambda>c. fst (snd c)) cs). fst (snd (hd cs)) \<le> t"
      using assms(1) that by (cases cs) (auto simp: sustainedWindow_def duration_defs)
    then have "slow_trends (last (map (\<lambda>c. fst (snd c)) cs)) (temp_calls cs)"
      using slow_trends_calls [of "fst (snd (hd cs)) - sustainedWindow" Map.empty cs] assms(1) that
      by (simp add: temp_calls_def slow_trends_def [of _ Map.empty])
    then show ?thesis using assms(2) that last_in_set [OF that] by (simp add: last_map)
  qed
  then have "sustained_level now t = 0" if "t \<in> ran (temp_calls cs)" for t
  proof -
    have "cs \<noteq> []" using that by (auto simp: temp_calls_def)
    then show ?thesis using \<open>cs \<noteq> [] \<Longrightarrow> _\<close> that few_recent [of "tt_Samples t" now]
      by (fastforce simp: sustained_level_def slow_trends_def slow_samples_def sustainedWindow_def duration_defs)
  qed
  then have "\<forall>t \<in> set (List.map_filter (temp_calls cs) ks). sustained_level now t = 0"
    by (auto simp: List.map_filter_def) (metis ranI)
  then show ?thesis by (auto simp: SustainedHealth_def worst_of_def Let_def filter_empty_conv)
qed


subsection \<open>Witnesses\<close>

theorem histories_bounded_witness:
  "\<exists>t. disk_calls [(True, 0, [(''/'', 50, 1, 2)])] [] = Some t \<and> length (dt_Samples t) = 1
    \<and> well_spaced ds_Time disk_trendMinInterval (dt_Samples t)
    \<and> length (usage_calls [(True, 0, 1), (True, minute, 2), (True, hour, 3)]) = 2"
proof -
  have "map_option (\<lambda>t. length (dt_Samples t)) (disk_calls [(True, 0, [(''/'', 50, 1, 2)])] []) = Some 1" by code_simp
  then obtain t where t: "disk_calls [(True, 0, [(''/'', 50, 1, 2)])] [] = Some t" "length (dt_Samples t) = 1" by auto
  moreover have "length (usage_calls [(True, 0, 1), (True, minute, 2), (True, hour, 3)]) = 2" by code_simp
  moreover have "t \<in> ran (disk_calls [(True, 0, [(''/'', 50, 1, 2)])])" using t(1) by (rule ranI)
  ultimately show ?thesis
    using histories_bounded [of "[(True, 0, [(''/'', 50, 1, 2)])]" "[]" "[]" "[(True, 0, 1), (True, minute, 2), (True, hour, 3)]" "[]"] by blast
qed

definition example_disk :: "(bool \<times> instant \<times> (string \<times> rat \<times> nat \<times> nat) list) list" where
  "example_disk = [(True, 0, [(''/'', 50, 50, 100)]), (True, 24 * hour, [(''/'', 55, 55, 100)]), (True, 48 * hour, [(''/'', 60, 60, 100)])]"


definition example_temps :: "int \<Rightarrow> (bool \<times> instant \<times> TempSensor list) list" where
  "example_temps m = map (\<lambda>i. (True, i * (m * minute), [\<lparr>sn_Name = ''cpu'', sn_CelsiusC = 120\<rparr>])) [0, 1, 2, 3, 4]"

text \<open>A sensor constantly at 120 degrees, read every quarter of an hour, and the same sensor read every five minutes.\<close>

theorem scheduled_readings_never_sustained_witness:
  "map_option tt_RecentAvgC (temp_calls (example_temps 15) ''cpu'') = Some 120
    \<and> SustainedHealth (\<lambda>d r. ''120'') (hour + second) [''cpu''] (temp_calls (example_temps 15)) = (''ok'', [])
    \<and> fst (SustainedHealth (\<lambda>d r. ''120'') (20 * minute + second) [''cpu''] (temp_calls (example_temps 5))) = ''critical''"
proof (intro conjI)
  show "map_option tt_RecentAvgC (temp_calls (example_temps 15) ''cpu'') = Some 120" by code_simp
  show "SustainedHealth (\<lambda>d r. ''120'') (hour + second) [''cpu''] (temp_calls (example_temps 15)) = (''ok'', [])"
    by (rule scheduled_readings_never_sustained) (simp_all add: example_temps_def sustainedWindow_def duration_defs)
  show "fst (SustainedHealth (\<lambda>d r. ''120'') (20 * minute + second) [''cpu''] (temp_calls (example_temps 5))) = ''critical''" by code_simp
qed

end
