(* ===== verification/Host_Checks.thy ===== *)
theory Host_Checks
  imports Trends Patch_Info "HOL-Library.Word"
begin

text \<open>
  The checks of a host's processor, memory, network and temperatures: packages \<open>analyze_cpu_utilization\<close>, \<open>analyze_memory_utilization\<close>,
  \<open>analyze_network_utilization\<close> and \<open>analyze_system_temperature\<close>, each with its Linux reader, the health it records and the pre-check that decides
  whether a scheduled run needs the model. The files of the host are arguments, as the lines \<open>bufio.Scanner\<close> yields and the error it ends with; \<open>num\<close>
  formats a number with the given decimals, \<open>pf\<close> is the value \<open>strconv.ParseFloat\<close> returns, also beside an error. Kernel counters are 64-bit words.
\<close>

section \<open>State and shared helpers\<close>

text \<open>What the checks keep: the skill states, and the five histories.\<close>

record check_mem =
  cm_loop :: loop_mem
  cm_disks :: "string \<rightharpoonup> DiskTrend"
  cm_smart :: "string \<rightharpoonup> SmartDeviceTrend"
  cm_temps :: "string \<rightharpoonup> TempTrend"
  cm_usage :: "UsageSample list"
  cm_rates :: "RateSample list"

text \<open>\<open>skillstate.Save\<close>, whose error every check ignores.\<close>

definition put_state :: "bool \<Rightarrow> (instant \<Rightarrow> string) \<Rightarrow> instant \<Rightarrow> string \<Rightarrow> string \<Rightarrow> string \<Rightarrow> check_mem \<Rightarrow> check_mem" where
  "put_state ok fmt now skill health summary m = m\<lparr>cm_loop := the (skill_Save ok fmt now skill health summary (Some (cm_loop m)))\<rparr>"

text \<open>The health recorded for a skill.\<close>

definition recorded_health :: "string \<Rightarrow> check_mem \<Rightarrow> string option" where
  "recorded_health skill m = map_option (\<lambda>v. sk_Health (dec_skill v)) (lm_states (cm_loop m) (keyPrefix @ skill))"

definition severityOf :: "string \<Rightarrow> nat" where
  "severityOf h = (if h = ''warning'' then 1 else if h = ''critical'' then 2 else 0)"

text \<open>The later finding replaces the earlier one only when it is more severe.\<close>

definition escalate :: "string \<times> string \<Rightarrow> string \<times> string \<Rightarrow> string \<times> string" where
  "escalate a b = (if severityOf (fst b) > severityOf (fst a) then b else a)"

definition usedPctWarning :: rat where "usedPctWarning = 80"
definition usedPctCritical :: rat where "usedPctCritical = 90"

definition pct_health :: "rat \<Rightarrow> string" where
  "pct_health pct = (if pct \<ge> usedPctCritical then ''critical'' else if pct \<ge> usedPctWarning then ''warning'' else ''ok'')"

definition formatBytes :: "(nat \<Rightarrow> rat \<Rightarrow> string) \<Rightarrow> nat \<Rightarrow> string" where
  "formatBytes num b =
     (if b \<ge> 2 ^ 40 then num 2 (of_nat b / 2 ^ 40) @ '' TB''
      else if b \<ge> 2 ^ 30 then num 2 (of_nat b / 2 ^ 30) @ '' GB''
      else if b \<ge> 2 ^ 20 then num 2 (of_nat b / 2 ^ 20) @ '' MB''
      else show_nat b @ '' B'')"

text \<open>\<open>strconv.ParseUint(s, 10, 64)\<close>: \<open>Inr\<close> the value, or \<open>Inl\<close> the value returned beside an error.\<close>

definition ParseUint :: "string \<Rightarrow> 64 word + 64 word" where
  "ParseUint s =
     (if s = [] \<or> \<not> list_all is_digit s then Inl 0
      else if digits_value s \<ge> 2 ^ 64 then Inl (- 1) else Inr (of_nat (digits_value s)))"

text \<open>What a pre-check tells the scheduler.\<close>

type_synonym pre_result = "bool \<times> string \<times> string option"

section \<open>Processor\<close>

record CPUStat =
  cs_UsedPct :: rat
  cs_NumCPU :: int
  cs_LoadAvg1 :: rat
  cs_LoadAvg5 :: rat
  cs_LoadAvg15 :: rat

record cpuTicks =
  ck_user :: "64 word"
  ck_nice :: "64 word"
  ck_system :: "64 word"
  ck_idle :: "64 word"
  ck_iowait :: "64 word"
  ck_irq :: "64 word"
  ck_softirq :: "64 word"
  ck_steal :: "64 word"

definition ticks_total :: "cpuTicks \<Rightarrow> 64 word" where
  "ticks_total t = ck_user t + ck_nice t + ck_system t + ck_idle t + ck_iowait t + ck_irq t + ck_softirq t + ck_steal t"

definition idleTotal :: "cpuTicks \<Rightarrow> 64 word" where
  "idleTotal t = ck_idle t + ck_iowait t"

text \<open>\<open>readProcStat\<close> on the lines of \<open>/proc/stat\<close>.\<close>

definition tick_field :: "string list \<Rightarrow> nat \<Rightarrow> 64 word" where
  "tick_field fs i = (if i \<ge> length fs then 0 else case ParseUint (fs ! i) of Inl v \<Rightarrow> v | Inr v \<Rightarrow> v)"

fun stat_scan :: "string list \<Rightarrow> string + cpuTicks" where
  "stat_scan [] = Inl ''cpu_usage: cpu line not found in /proc/stat''"
| "stat_scan (line # rest) =
     (if \<not> HasPrefix line ''cpu '' then stat_scan rest
      else
        let fs = Fields line in
        if length fs < 5 then Inl ''cpu_usage: unexpected /proc/stat format''
        else Inr \<lparr>ck_user = tick_field fs 1, ck_nice = tick_field fs 2, ck_system = tick_field fs 3, ck_idle = tick_field fs 4,
                  ck_iowait = tick_field fs 5, ck_irq = tick_field fs 6, ck_softirq = tick_field fs 7, ck_steal = tick_field fs 8\<rparr>)"

definition readProcStat :: "string + string list \<Rightarrow> string + cpuTicks" where
  "readProcStat f = (case f of Inl e \<Rightarrow> Inl (''cpu_usage: open /proc/stat: '' @ e) | Inr ls \<Rightarrow> stat_scan ls)"

text \<open>\<open>readLoadAvg\<close>: its callers ignore the error, with which all three values are zero.\<close>

definition readLoadAvg :: "(string \<Rightarrow> rat) \<Rightarrow> string option \<Rightarrow> rat \<times> rat \<times> rat" where
  "readLoadAvg pf f =
     (case f of
        None \<Rightarrow> (0, 0, 0)
      | Some s \<Rightarrow> let fs = Fields s in if length fs < 3 then (0, 0, 0) else (pf (fs ! 0), pf (fs ! 1), pf (fs ! 2)))"

definition used_share :: "64 word \<Rightarrow> 64 word \<Rightarrow> rat" where
  "used_share totalDelta idleDelta =
     (if totalDelta > 0 then (1 - of_nat (unat idleDelta) / of_nat (unat totalDelta)) * 100 else 0)"

text \<open>\<open>r1\<close> and \<open>r2\<close> are the two readings of \<open>/proc/stat\<close>; \<open>stopped\<close> is the error of a context that ends in the second between them.\<close>

definition localCPU ::
    "(string \<Rightarrow> rat) \<Rightarrow> int \<Rightarrow> string + string list \<Rightarrow> string option \<Rightarrow> string + string list \<Rightarrow> string option \<Rightarrow> string + CPUStat" where
  "localCPU pf ncpu r1 stopped r2 loads =
     (case readProcStat r1 of Inl e \<Rightarrow> Inl e
      | Inr t1 \<Rightarrow>
          (case stopped of Some e \<Rightarrow> Inl e
           | None \<Rightarrow>
               (case readProcStat r2 of Inl e \<Rightarrow> Inl e
                | Inr t2 \<Rightarrow>
                    (case readLoadAvg pf loads of (l1, l5, l15) \<Rightarrow>
                       Inr \<lparr>cs_UsedPct = used_share (ticks_total t2 - ticks_total t1) (idleTotal t2 - idleTotal t1), cs_NumCPU = ncpu,
                            cs_LoadAvg1 = l1, cs_LoadAvg5 = l5, cs_LoadAvg15 = l15\<rparr>))))"

definition cpuHealth :: "(nat \<Rightarrow> rat \<Rightarrow> string) \<Rightarrow> CPUStat \<Rightarrow> string \<times> string" where
  "cpuHealth num st =
     (pct_health (cs_UsedPct st),
      ''CPU used: '' @ num 1 (cs_UsedPct st) @ ''% ('' @ show_int (cs_NumCPU st) @ '' logical CPUs, load avg '' @
      num 2 (cs_LoadAvg1 st) @ ''/'' @ num 2 (cs_LoadAvg5 st) @ ''/'' @ num 2 (cs_LoadAvg15 st) @ '')'')"

definition cpu_report :: "(nat \<Rightarrow> rat \<Rightarrow> string) \<Rightarrow> CPUStat \<Rightarrow> string" where
  "cpu_report num st =
     ''CPU'' @ nl @ ''  Logical CPUs: '' @ show_int (cs_NumCPU st) @ nl @ ''  Usage:        '' @ num 1 (cs_UsedPct st) @ ''%'' @ nl @
     (if cs_LoadAvg1 st > 0 \<or> cs_LoadAvg5 st > 0 \<or> cs_LoadAvg15 st > 0
      then ''  Load avg:     '' @ num 2 (cs_LoadAvg1 st) @ '' (1m)  '' @ num 2 (cs_LoadAvg5 st) @ '' (5m)  '' @ num 2 (cs_LoadAvg15 st) @ '' (15m)'' @ nl
      else [])"

definition NeedsInvestigation :: "CPUStat \<Rightarrow> bool" where
  "NeedsInvestigation st \<longleftrightarrow>
     cs_UsedPct st \<ge> usedPctWarning
     \<or> cs_NumCPU st > 0
       \<and> (cs_LoadAvg1 st > of_int (cs_NumCPU st) \<or> cs_LoadAvg5 st > of_int (cs_NumCPU st) \<or> cs_LoadAvg15 st > of_int (cs_NumCPU st))"

definition cpu_runCheck ::
    "bool \<Rightarrow> (instant \<Rightarrow> string) \<Rightarrow> (nat \<Rightarrow> rat \<Rightarrow> string) \<Rightarrow> instant \<Rightarrow> string + CPUStat \<Rightarrow> check_mem \<Rightarrow> (string + CPUStat \<times> string) \<times> check_mem" where
  "cpu_runCheck ok fmt num now reading m =
     (case reading of
        Inl e \<Rightarrow> (Inl (''cpu_usage: '' @ e), put_state ok fmt now ''analyze_cpu_utilization'' ''critical'' (''failed to read CPU usage: '' @ e) m)
      | Inr st \<Rightarrow>
          (case cpuHealth num st of (health, summary) \<Rightarrow>
             (Inr (st, cpu_report num st), put_state ok fmt now ''analyze_cpu_utilization'' health summary m)))"

definition cpu_PreCheck ::
    "bool \<Rightarrow> (instant \<Rightarrow> string) \<Rightarrow> (nat \<Rightarrow> rat \<Rightarrow> string) \<Rightarrow> instant \<Rightarrow> string + CPUStat \<Rightarrow> check_mem \<Rightarrow> pre_result \<times> check_mem" where
  "cpu_PreCheck ok fmt num now reading m =
     (case cpu_runCheck ok fmt num now reading m of
        (Inl e, m) \<Rightarrow> ((True, [], Some e), m)
      | (Inr (st, report), m) \<Rightarrow> ((NeedsInvestigation st, report, None), m))"


definition cpu_tool ::
    "bool \<Rightarrow> (instant \<Rightarrow> string) \<Rightarrow> (nat \<Rightarrow> rat \<Rightarrow> string) \<Rightarrow> instant \<Rightarrow> string + CPUStat \<Rightarrow> check_mem \<Rightarrow> (string + string) \<times> check_mem" where
  "cpu_tool ok fmt num now reading m = (case cpu_runCheck ok fmt num now reading m of (r, m) \<Rightarrow> (map_sum id snd r, m))"

section \<open>Memory\<close>

record MemStat =
  ms_Total :: "64 word"
  ms_Available :: "64 word"
  ms_SwapTotal :: "64 word"
  ms_SwapFree :: "64 word"

definition mem_Used :: "MemStat \<Rightarrow> 64 word" where
  "mem_Used s = (if ms_Available s > ms_Total s then 0 else ms_Total s - ms_Available s)"

definition mem_UsedPct :: "MemStat \<Rightarrow> rat" where
  "mem_UsedPct s = (if ms_Total s = 0 then 0 else of_nat (unat (mem_Used s)) / of_nat (unat (ms_Total s)) * 100)"

definition SwapUsed :: "MemStat \<Rightarrow> 64 word" where
  "SwapUsed s = (if ms_SwapFree s > ms_SwapTotal s then 0 else ms_SwapTotal s - ms_SwapFree s)"

definition SwapUsedPct :: "MemStat \<Rightarrow> rat" where
  "SwapUsedPct s = (if ms_SwapTotal s = 0 then 0 else of_nat (unat (SwapUsed s)) / of_nat (unat (ms_SwapTotal s)) * 100)"

text \<open>\<open>localMemory\<close> on the lines of \<open>/proc/meminfo\<close>, with the error the scanner ends with; the last line of a key counts.\<close>

definition meminfo_line :: "string \<Rightarrow> (string \<rightharpoonup> 64 word) \<Rightarrow> (string \<rightharpoonup> 64 word)" where
  "meminfo_line line vals =
     (let fs = Fields line in
      if length fs < 2 then vals
      else case ParseUint (fs ! 1) of Inl v \<Rightarrow> vals | Inr v \<Rightarrow> vals(TrimSuffix (fs ! 0) '':'' \<mapsto> v * 1024))"

definition word_at :: "string \<Rightarrow> (string \<rightharpoonup> 64 word) \<Rightarrow> 64 word" where
  "word_at k vals = (case vals k of None \<Rightarrow> 0 | Some v \<Rightarrow> v)"

definition localMemory :: "string + string list \<times> string option \<Rightarrow> string + MemStat" where
  "localMemory f =
     (case f of
        Inl e \<Rightarrow> Inl (''memory_monitor: open /proc/meminfo: '' @ e)
      | Inr (ls, Some e) \<Rightarrow> Inl (''memory_monitor: reading /proc/meminfo: '' @ e)
      | Inr (ls, None) \<Rightarrow>
          let vals = fold meminfo_line ls Map.empty; avail = word_at ''MemAvailable'' vals
          in Inr \<lparr>ms_Total = word_at ''MemTotal'' vals, ms_Available = (if avail = 0 then word_at ''MemFree'' vals else avail),
                  ms_SwapTotal = word_at ''SwapTotal'' vals, ms_SwapFree = word_at ''SwapFree'' vals\<rparr>)"

definition memoryHealth :: "(nat \<Rightarrow> rat \<Rightarrow> string) \<Rightarrow> MemStat \<Rightarrow> string \<times> string" where
  "memoryHealth num s =
     (pct_health (mem_UsedPct s),
      ''RAM used: '' @ num 1 (mem_UsedPct s) @ ''% ('' @ formatBytes num (unat (mem_Used s)) @ '' / '' @ formatBytes num (unat (ms_Total s)) @ '')'')"

definition memory_report :: "(nat \<Rightarrow> rat \<Rightarrow> string) \<Rightarrow> MemStat \<Rightarrow> string" where
  "memory_report num s =
     ''RAM'' @ nl @ ''  Total:     '' @ formatBytes num (unat (ms_Total s)) @ nl @
     ''  Used:      '' @ formatBytes num (unat (mem_Used s)) @ '' ('' @ num 1 (mem_UsedPct s) @ ''%)'' @ nl @
     ''  Available: '' @ formatBytes num (unat (ms_Available s)) @ nl @
     (if ms_SwapTotal s > 0
      then nl @ ''Swap'' @ nl @ ''  Total:     '' @ formatBytes num (unat (ms_SwapTotal s)) @ nl @
           ''  Used:      '' @ formatBytes num (unat (SwapUsed s)) @ '' ('' @ num 1 (SwapUsedPct s) @ ''%)'' @ nl @
           ''  Free:      '' @ formatBytes num (unat (ms_SwapFree s)) @ nl
      else [])"

definition memory_runCheck ::
    "bool \<Rightarrow> (instant \<Rightarrow> string) \<Rightarrow> (nat \<Rightarrow> rat \<Rightarrow> string) \<Rightarrow> instant \<Rightarrow> string + MemStat \<Rightarrow> check_mem \<Rightarrow> (string + MemStat \<times> string) \<times> check_mem" where
  "memory_runCheck ok fmt num now reading m =
     (case reading of
        Inl e \<Rightarrow> (Inl (''memory_usage: '' @ e), put_state ok fmt now ''analyze_memory_utilization'' ''critical'' (''failed to read memory usage: '' @ e) m)
      | Inr st \<Rightarrow>
          (case memoryHealth num st of (health, summary) \<Rightarrow>
             (Inr (st, memory_report num st), put_state ok fmt now ''analyze_memory_utilization'' health summary m)))"

definition memory_tool ::
    "bool \<Rightarrow> (instant \<Rightarrow> string) \<Rightarrow> (nat \<Rightarrow> rat \<Rightarrow> string) \<Rightarrow> instant \<Rightarrow> string + MemStat \<Rightarrow> check_mem \<Rightarrow> (string + string) \<times> check_mem" where
  "memory_tool ok fmt num now reading m = (case memory_runCheck ok fmt num now reading m of (r, m) \<Rightarrow> (map_sum id snd r, m))"

text \<open>\<open>ok1\<close> is the outcome of saving the skill state and \<open>ok2\<close> that of saving the history.\<close>

definition memory_PreCheck ::
    "bool \<Rightarrow> bool \<Rightarrow> (instant \<Rightarrow> string) \<Rightarrow> (nat \<Rightarrow> rat \<Rightarrow> string) \<Rightarrow> instant \<Rightarrow> string + MemStat \<Rightarrow> check_mem \<Rightarrow> pre_result \<times> check_mem" where
  "memory_PreCheck ok1 ok2 fmt num now reading m =
     (case memory_runCheck ok1 fmt num now reading m of
        (Inl e, m) \<Rightarrow> ((True, [], Some e), m)
      | (Inr (st, report), m) \<Rightarrow>
          (case RecordUsage ok2 now (mem_UsedPct st) (cm_usage m) of (samples, saved) \<Rightarrow>
             let m = m\<lparr>cm_usage := saved\<rparr>; growth = GrowthIssue num samples (mem_UsedPct st) now
             in if mem_UsedPct st \<ge> usedPctWarning then ((True, report, None), m)
                else if growth \<noteq> [] then ((True, report @ nl @ ''Trend: '' @ growth @ nl, None), m)
                else ((False, report, None), m)))"

section \<open>Network\<close>

definition defaultSampleSeconds :: rat where "defaultSampleSeconds = 1"
definition minSampleSeconds :: rat where "minSampleSeconds = 1 / 10"
definition maxSampleSeconds :: rat where "maxSampleSeconds = 10"
definition preCheckSampleSeconds :: rat where "preCheckSampleSeconds = 5"

definition sample_seconds :: "rat \<Rightarrow> rat" where
  "sample_seconds d =
     (let d = (if d \<le> 0 then defaultSampleSeconds else d);
          d = (if d < minSampleSeconds then minSampleSeconds else d)
      in if d > maxSampleSeconds then maxSampleSeconds else d)"

text \<open>\<open>snapshot\<close> on the lines of \<open>/proc/net/dev\<close>; the first two are headers.\<close>

definition netdev_line :: "string \<Rightarrow> 64 word \<times> 64 word \<Rightarrow> 64 word \<times> 64 word" where
  "netdev_line line acc =
     (case index_byte (CHR '':'') line of
        None \<Rightarrow> acc
      | Some colon \<Rightarrow>
          if TrimSpace (take colon line) = ''lo'' then acc
          else
            let fs = Fields (drop (colon + 1) line) in
            if length fs < 9 then acc
            else case (ParseUint (fs ! 0), ParseUint (fs ! 8)) of
                (Inr r, Inr t) \<Rightarrow> (fst acc + r, snd acc + t)
              | _ \<Rightarrow> acc)"

definition snapshot :: "string + string list \<times> string option \<Rightarrow> string + 64 word \<times> 64 word" where
  "snapshot f =
     (case f of
        Inl e \<Rightarrow> Inl (''netmon: open /proc/net/dev: '' @ e)
      | Inr (ls, Some e) \<Rightarrow> Inl (''netmon: reading /proc/net/dev: '' @ e)
      | Inr (ls, None) \<Rightarrow> Inr (fold netdev_line (drop 2 ls) (0, 0)))"

definition rate_of :: "64 word \<Rightarrow> 64 word \<Rightarrow> rat \<Rightarrow> rat" where
  "rate_of b1 b2 d = (if b2 \<ge> b1 then of_nat (unat (b2 - b1)) / d / (1024 * 1024) else 0)"

definition formatBandwidth :: "(nat \<Rightarrow> rat \<Rightarrow> string) \<Rightarrow> rat \<Rightarrow> string" where
  "formatBandwidth num mbps =
     (if mbps \<ge> 1024 then num 2 (mbps / 1024) @ '' GB/s''
      else if mbps \<ge> 1 then num 2 mbps @ '' MB/s'' else num 2 (mbps * 1024) @ '' KB/s'')"

definition network_report :: "(nat \<Rightarrow> rat \<Rightarrow> string) \<Rightarrow> rat \<Rightarrow> rat \<Rightarrow> string" where
  "network_report num down up = ''Download: '' @ formatBandwidth num down @ nl @ ''Upload:   '' @ formatBandwidth num up @ nl"

text \<open>\<open>s1\<close> and \<open>s2\<close> are the two snapshots, \<open>stopped\<close> the error of a context that ends between them; only then nothing is recorded.\<close>

definition sampleRates ::
    "bool \<Rightarrow> (instant \<Rightarrow> string) \<Rightarrow> (nat \<Rightarrow> rat \<Rightarrow> string) \<Rightarrow> instant \<Rightarrow> rat \<Rightarrow> string + 64 word \<times> 64 word \<Rightarrow> string option \<Rightarrow>
      string + 64 word \<times> 64 word \<Rightarrow> check_mem \<Rightarrow> (string + rat \<times> rat) \<times> check_mem" where
  "sampleRates ok fmt num now seconds s1 stopped s2 m =
     (let d = sample_seconds seconds;
          failed = (\<lambda>e. (Inl (''network_usage: '' @ e), put_state ok fmt now ''analyze_network_utilization'' ''critical'' (''failed to read network counters: '' @ e) m))
      in case s1 of Inl e \<Rightarrow> failed e
         | Inr (in1, out1) \<Rightarrow>
             (case stopped of Some e \<Rightarrow> (Inl e, m)
              | None \<Rightarrow>
                  (case s2 of Inl e \<Rightarrow> failed e
                   | Inr (in2, out2) \<Rightarrow>
                       let down = rate_of in1 in2 d; up = rate_of out1 out2 d
                       in (Inr (down, up), put_state ok fmt now ''analyze_network_utilization'' ''ok''
                             (''Download: '' @ formatBandwidth num down @ '', Upload: '' @ formatBandwidth num up) m))))"

definition network_tool ::
    "bool \<Rightarrow> (instant \<Rightarrow> string) \<Rightarrow> (nat \<Rightarrow> rat \<Rightarrow> string) \<Rightarrow> instant \<Rightarrow> rat \<Rightarrow> string + 64 word \<times> 64 word \<Rightarrow> string option \<Rightarrow>
      string + 64 word \<times> 64 word \<Rightarrow> check_mem \<Rightarrow> (string + string) \<times> check_mem" where
  "network_tool ok fmt num now seconds s1 stopped s2 m =
     (case sampleRates ok fmt num now seconds s1 stopped s2 m of (r, m) \<Rightarrow> (map_sum id (\<lambda>(down, up). network_report num down up) r, m))"

definition judged_history :: "RateSample list \<times> bool \<Rightarrow> RateSample list" where
  "judged_history sa = (if snd sa then take (length (fst sa) - 1) (fst sa) else fst sa)"

definition network_PreCheck ::
    "bool \<Rightarrow> bool \<Rightarrow> (instant \<Rightarrow> string) \<Rightarrow> (nat \<Rightarrow> rat \<Rightarrow> string) \<Rightarrow> instant \<Rightarrow> string + 64 word \<times> 64 word \<Rightarrow> string option \<Rightarrow>
      string + 64 word \<times> 64 word \<Rightarrow> check_mem \<Rightarrow> pre_result \<times> check_mem" where
  "network_PreCheck ok1 ok2 fmt num now s1 stopped s2 m =
     (case sampleRates ok1 fmt num now preCheckSampleSeconds s1 stopped s2 m of
        (Inl e, m) \<Rightarrow> ((True, [], Some e), m)
      | (Inr (down, up), m) \<Rightarrow>
          (case RecordRate ok2 now down up (cm_rates m) of (sa, saved) \<Rightarrow>
             let m = m\<lparr>cm_rates := saved\<rparr>; report = network_report num down up; issue = AnomalyIssue num (judged_history sa) down up
             in if issue \<noteq> [] then ((True, report @ ''Anomaly: '' @ issue @ nl, None), m)
                else ((False, report @ ''Traffic is within this host'' @ [CHR 0x27] @ ''s 7-day baseline.'', None), m)))"

section \<open>Temperatures\<close>

text \<open>A thermal zone: its base name and the contents of its files \<open>temp\<close> and \<open>type\<close>, if they can be read.\<close>

type_synonym zone = "string \<times> string option \<times> string option"

definition zone_sensor :: "zone \<Rightarrow> TempSensor option" where
  "zone_sensor z =
     (case z of (base, temp, typ) \<Rightarrow>
        (case temp of None \<Rightarrow> None
         | Some raw \<Rightarrow>
             (case parse_int64 (TrimSpace raw) of None \<Rightarrow> None
              | Some milliC \<Rightarrow>
                  let t = (case typ of None \<Rightarrow> [] | Some s \<Rightarrow> TrimSpace s)
                  in Some \<lparr>sn_Name = (if t \<noteq> [] then t else base), sn_CelsiusC = of_int milliC / 1000\<rparr>)))"

text \<open>\<open>stopped\<close>: the error of a context found done before some zone. Sensors of equal names may come in any order; here they keep theirs.\<close>

definition localTemps :: "string + zone list \<Rightarrow> string option \<Rightarrow> string + TempSensor list" where
  "localTemps zones stopped =
     (case zones of
        Inl e \<Rightarrow> Inl (''analyze_system_temperature: glob thermal zones: '' @ e)
      | Inr zs \<Rightarrow>
          (case stopped of Some e \<Rightarrow> Inl e
           | None \<Rightarrow> Inr (sort_by (\<lambda>a b. str_less (sn_Name a) (sn_Name b)) (List.map_filter zone_sensor zs))))"

definition sensor_label :: "(nat \<Rightarrow> rat \<Rightarrow> string) \<Rightarrow> TempSensor \<Rightarrow> string" where
  "sensor_label num s = sn_Name s @ '' '' @ degrees num (sn_CelsiusC s)"

definition tempHealth :: "(nat \<Rightarrow> rat \<Rightarrow> string) \<Rightarrow> TempSensor list \<Rightarrow> string \<times> string" where
  "tempHealth num ss =
     worst_of (map (sensor_label num) (filter (\<lambda>s. temp_level (sn_CelsiusC s) = 2) ss))
              (map (sensor_label num) (filter (\<lambda>s. temp_level (sn_CelsiusC s) = 1) ss)) ''all sensors within normal range''"

definition pad_right :: "nat \<Rightarrow> string \<Rightarrow> string" where
  "pad_right n s = s @ replicate (n - length (runes s)) (CHR '' '')"

definition sensor_line :: "(nat \<Rightarrow> rat \<Rightarrow> string) \<Rightarrow> TempSensor \<Rightarrow> string" where
  "sensor_line num s =
     ''  '' @ pad_right 28 (sn_Name s @ '':'') @ '' '' @ degrees num (sn_CelsiusC s) @
     (if temp_level (sn_CelsiusC s) = 2 then '' (CRITICAL)'' else if temp_level (sn_CelsiusC s) = 1 then '' (WARNING)'' else []) @ nl"

definition temp_report :: "(nat \<Rightarrow> rat \<Rightarrow> string) \<Rightarrow> TempSensor list \<Rightarrow> string" where
  "temp_report num ss = ''Temperature'' @ nl @ concat (map (sensor_line num) ss)"

text \<open>The outcome is the health and the report; \<open>now2\<close> is the clock \<open>SustainedHealth\<close> reads, \<open>ks\<close> its order of the map.\<close>

definition temp_runCheck ::
    "bool \<Rightarrow> bool \<Rightarrow> (instant \<Rightarrow> string) \<Rightarrow> (nat \<Rightarrow> rat \<Rightarrow> string) \<Rightarrow> instant \<Rightarrow> instant \<Rightarrow> string list \<Rightarrow> string + TempSensor list \<Rightarrow> check_mem \<Rightarrow>
      (string + string \<times> string) \<times> check_mem" where
  "temp_runCheck ok1 ok2 fmt num now now2 ks reading m =
     (case reading of
        Inl e \<Rightarrow> (Inl (''analyze_system_temperature: '' @ e),
                  put_state ok1 fmt now ''analyze_system_temperature'' ''critical'' (''failed to read temperature sensors: '' @ e) m)
      | Inr [] \<Rightarrow> (Inr (''ok'', ''no temperature sensors detected on this host.''),
                   put_state ok1 fmt now ''analyze_system_temperature'' ''ok'' ''no temperature sensors detected on this host'' m)
      | Inr ss \<Rightarrow>
          (case RecordTemps ok2 now ss (cm_temps m) of (trends, saved) \<Rightarrow>
           (case escalate (tempHealth num ss) (SustainedHealth num now2 ks trends) of (health, summary) \<Rightarrow>
              (Inr (health, temp_report num ss), put_state ok1 fmt now ''analyze_system_temperature'' health summary (m\<lparr>cm_temps := saved\<rparr>)))))"

definition temp_tool ::
    "bool \<Rightarrow> bool \<Rightarrow> (instant \<Rightarrow> string) \<Rightarrow> (nat \<Rightarrow> rat \<Rightarrow> string) \<Rightarrow> instant \<Rightarrow> instant \<Rightarrow> string list \<Rightarrow> string + TempSensor list \<Rightarrow> check_mem \<Rightarrow>
      (string + string) \<times> check_mem" where
  "temp_tool ok1 ok2 fmt num now now2 ks reading m =
     (case temp_runCheck ok1 ok2 fmt num now now2 ks reading m of (r, m) \<Rightarrow> (map_sum id snd r, m))"

definition temp_PreCheck ::
    "bool \<Rightarrow> bool \<Rightarrow> (instant \<Rightarrow> string) \<Rightarrow> (nat \<Rightarrow> rat \<Rightarrow> string) \<Rightarrow> instant \<Rightarrow> instant \<Rightarrow> string list \<Rightarrow> string + TempSensor list \<Rightarrow> check_mem \<Rightarrow>
      pre_result \<times> check_mem" where
  "temp_PreCheck ok1 ok2 fmt num now now2 ks reading m =
     (case temp_runCheck ok1 ok2 fmt num now now2 ks reading m of
        (Inl e, m) \<Rightarrow> ((True, [], Some e), m)
      | (Inr (health, report), m) \<Rightarrow> ((health \<noteq> ''ok'', report, None), m))"


section \<open>Lemmas\<close>

lemma as_json_health [simp]: "as_json ''ok'' = ''ok''" "as_json ''warning'' = ''warning''" "as_json ''critical'' = ''critical''"
  by code_simp+

lemma recorded_put_state [simp]: "recorded_health skill (put_state True fmt now skill health summary m) = Some (as_json health)"
  by (simp add: recorded_health_def put_state_def skill_Save_def skill_SetKey_def dec_skill_def)

lemma recorded_histories [simp]:
  "recorded_health skill (m\<lparr>cm_usage := us\<rparr>) = recorded_health skill m" "recorded_health skill (m\<lparr>cm_rates := rs\<rparr>) = recorded_health skill m"
  "cm_rates (put_state ok fmt now skill' health summary m) = cm_rates m" "cm_usage (put_state ok fmt now skill' health summary m) = cm_usage m"
  by (simp_all add: recorded_health_def put_state_def)

lemma pct_health_ok: "pct_health pct = ''ok'' \<longleftrightarrow> pct < usedPctWarning"
  by (simp add: pct_health_def usedPctWarning_def usedPctCritical_def)

text \<open>Counters that advance by \<open>n\<close>, also past \<open>2 ^ 64\<close>, differ by \<open>n\<close>.\<close>

lemma unat64: "n < 2 ^ 64 \<Longrightarrow> unat (of_nat n :: 64 word) = n"
  by (simp add: unat_of_nat take_bit_eq_mod)

lemma used_share_forward:
  assumes "busy + idle < 2 ^ 64"
  shows "used_share (of_nat (busy + idle)) (of_nat idle) = (if busy + idle = 0 then 0 else of_nat busy / of_nat (busy + idle) * 100)"
proof (cases "busy + idle = 0")
  case False
  have u: "unat (of_nat (busy + idle) :: 64 word) = busy + idle" "unat (of_nat idle :: 64 word) = idle"
    using unat64 [of "busy + idle"] unat64 [of idle] assms by simp_all
  then have "(of_nat (busy + idle) :: 64 word) > 0" using False by (metis unat_0 word_gt_0)
  moreover have "1 - of_nat idle / of_nat (busy + idle) = (of_nat busy / of_nat (busy + idle) :: rat)"
    using False of_nat_0_less_iff [of "busy + idle", where 'a = rat] by (simp add: divide_simps)
  ultimately show ?thesis using u False by (simp add: used_share_def)
qed (simp add: used_share_def)

text \<open>Idle time that steps back by \<open>k\<close> wraps to almost \<open>2 ^ 64\<close>.\<close>

lemma used_share_back:
  assumes "0 < k" "0 < n" "n + k < 2 ^ 64"
  shows "used_share (of_nat n) (- of_nat k) < 0"
proof -
  have "of_nat (2 ^ 64 - k) = (- of_nat k :: 64 word)" using assms(3) by (subst of_nat_diff) simp_all
  then have "unat (- of_nat k :: 64 word) = 2 ^ 64 - k" using unat64 [of "2 ^ 64 - k"] assms(1) by simp
  moreover have "unat (of_nat n :: 64 word) = n" using unat64 [of n] assms(3) by simp
  moreover have "(of_nat n :: rat) < of_nat (2 ^ 64 - k)" using assms(3) by (simp only: of_nat_less_iff)
  moreover have "(of_nat n :: 64 word) > 0" using \<open>unat (of_nat n) = n\<close> assms(2) by (metis unat_0 word_gt_0 less_irrefl)
  ultimately show ?thesis using assms(2) by (simp add: used_share_def field_simps del: of_nat_diff)
qed

text \<open>At least half of the values are at most, and at least half are at least, their median.\<close>

lemma filter_prefix: "k \<le> length vs \<Longrightarrow> \<forall>i < k. P (vs ! i) \<Longrightarrow> k \<le> length (filter P vs)"
proof -
  assume k: "k \<le> length vs" "\<forall>i < k. P (vs ! i)"
  then have "filter P (take k vs) = take k vs" by (subst filter_id_conv) (auto simp: in_set_conv_nth)
  then have "length (filter P (take k vs)) = k" using k(1) by simp
  moreover have "length (filter P vs) = length (filter P (take k vs)) + length (filter P (drop k vs))"
    by (metis append_take_drop_id filter_append length_append)
  ultimately show ?thesis by simp
qed

lemma length_filter_sort: "length (filter P (sort vs)) = length (filter P vs)" for vs :: "'a::linorder list"
  by (simp add: filter_sort)

lemma median_splits:
  assumes "vals \<noteq> []"
  shows "length vals \<le> 2 * length (filter (\<lambda>v. v \<le> median vals) vals)" "length vals \<le> 2 * length (filter (\<lambda>v. median vals \<le> v) vals)"
proof -
  define vs n where "vs = sort vals" and "n = length vals"
  have n: "0 < n" "length vs = n" "sorted vs" using assms by (simp_all add: vs_def n_def)
  define lo hi where "lo = (if n mod 2 = 1 then n div 2 else n div 2 - 1)" and "hi = n div 2"
  have lh: "lo \<le> hi" "hi < n" "n \<le> 2 * Suc lo" "n \<le> 2 * (n - hi)" using n(1) by (auto simp: lo_def hi_def; presburger)+
  then have le: "vs ! lo \<le> vs ! hi" using n by (simp add: sorted_nth_mono)
  have "median vals = (vs ! lo + vs ! hi) / 2"
    using n(2) assms by (simp add: median_def Let_def vs_def [symmetric] n_def [symmetric] lo_def hi_def)
  then have m: "vs ! lo \<le> median vals" "median vals \<le> vs ! hi" using le by simp_all
  have "Suc lo \<le> length (filter (\<lambda>v. v \<le> median vals) vs)"
    using n lh by (intro filter_prefix) (auto intro!: order_trans [OF _ m(1)] sorted_nth_mono)
  then show "length vals \<le> 2 * length (filter (\<lambda>v. v \<le> median vals) vals)" using lh(3) by (simp add: vs_def length_filter_sort n_def)
  have "n - hi \<le> length (filter (\<lambda>v. median vals \<le> v) (rev vs))"
    using n lh m(2) by (intro filter_prefix) (auto simp: rev_nth intro!: order_trans [OF m(2)] sorted_nth_mono)
  then show "length vals \<le> 2 * length (filter (\<lambda>v. median vals \<le> v) vals)"
    using lh(4) by (simp add: vs_def length_filter_sort n_def rev_filter [symmetric])
qed

lemma filter_mono_length: "(\<And>x. P x \<Longrightarrow> Q x) \<Longrightarrow> length (filter P xs) \<le> length (filter Q xs)"
  by (induction xs) auto

text \<open>A rate that is unusual against the median exceeds three times at least half of the history, and else not.\<close>

lemma unusual_half:
  assumes "vals \<noteq> []"
  shows "unusual cur (median vals) \<Longrightarrow> anomalyFloorMBps < cur \<and> length vals \<le> 2 * length (filter (\<lambda>v. anomalyFactor * v < cur) vals)"
    and "\<not> unusual cur (median vals) \<Longrightarrow> cur \<le> anomalyFloorMBps \<or> length vals \<le> 2 * length (filter (\<lambda>v. cur \<le> anomalyFactor * v) vals)"
proof -
  assume "unusual cur (median vals)"
  then show "anomalyFloorMBps < cur \<and> length vals \<le> 2 * length (filter (\<lambda>v. anomalyFactor * v < cur) vals)"
    using median_splits(1) [OF assms] filter_mono_length [of "\<lambda>v. v \<le> median vals" "\<lambda>v. anomalyFactor * v < cur" vals]
    by (force simp: unusual_def anomalyFactor_def)
next
  assume "\<not> unusual cur (median vals)"
  then show "cur \<le> anomalyFloorMBps \<or> length vals \<le> 2 * length (filter (\<lambda>v. cur \<le> anomalyFactor * v) vals)"
    using median_splits(2) [OF assms] filter_mono_length [of "\<lambda>v. median vals \<le> v" "\<lambda>v. cur \<le> anomalyFactor * v" vals]
    by (force simp: unusual_def anomalyFactor_def)
qed

text \<open>The history a reading is judged against is what was stored before it, less what is too old.\<close>

lemma judged_history_prior:
  "judged_history (fst (RecordRate ok now down up prior)) = prune_samples rs_Time baselineMaxAge now prior"
proof -
  have "prune_samples rs_Time baselineMaxAge now (prior @ [x]) = prune_samples rs_Time baselineMaxAge now prior @ [x]" if "rs_Time x = now" for x
    using that by (simp add: prune_samples_def baselineMaxAge_def duration_defs dropWhile_append)
  then show ?thesis by (simp add: judged_history_def RecordRate_def rate_add_def Let_def)
qed

lemma anomaly_text_nonempty: "AnomalyIssue num ss down up = [] \<longleftrightarrow>
    baselineMinSamples \<le> length ss \<and> \<not> unusual down (median (map rs_DownMBps ss)) \<and> \<not> unusual up (median (map rs_UpMBps ss))"
  by (auto simp: AnomalyIssue_def medians_def anomaly_text_def)


lemma escalate_severity: "severityOf (fst a) \<le> severityOf (fst (escalate a b))"
  by (simp add: escalate_def)

lemma escalate_critical: "fst a = ''critical'' \<Longrightarrow> fst (escalate a b) = ''critical''"
  by (simp add: escalate_def severityOf_def)

lemma local_cpu_used:
  assumes "readProcStat r1 = Inr t1" "readProcStat r2 = Inr t2"
  shows "\<exists>st. localCPU pf ncpu r1 None r2 loads = Inr st \<and> cs_NumCPU st = ncpu
    \<and> (cs_LoadAvg1 st, cs_LoadAvg5 st, cs_LoadAvg15 st) = readLoadAvg pf loads
    \<and> cs_UsedPct st = used_share (ticks_total t2 - ticks_total t1) (idleTotal t2 - idleTotal t1)"
  using assms by (simp add: localCPU_def split: prod.split)

text \<open>
  The kernel's time spent waiting for I/O may step back between two readings. Then the difference wraps, the usage comes out negative, the state is
  recorded as \<open>ok\<close>, and only the load averages can still ask for the model.
\<close>

lemma idle_step_back_hides_load:
  assumes "readProcStat r1 = Inr t1" "readProcStat r2 = Inr t2"
    and "ticks_total t2 = ticks_total t1 + of_nat n" "idleTotal t2 = idleTotal t1 - of_nat k" "0 < k" "0 < n" "n + k < 2 ^ 64"
  shows "\<exists>st. localCPU pf ncpu r1 None r2 loads = Inr st \<and> cs_UsedPct st < 0
    \<and> recorded_health ''analyze_cpu_utilization'' (snd (cpu_runCheck True fmt num now (Inr st) m)) = Some ''ok''"
proof -
  obtain st where st: "localCPU pf ncpu r1 None r2 loads = Inr st"
      "cs_UsedPct st = used_share (ticks_total t2 - ticks_total t1) (idleTotal t2 - idleTotal t1)"
    using local_cpu_used [OF assms(1,2)] by blast
  then have "cs_UsedPct st < 0" using used_share_back [OF assms(5-7)] assms(3,4) by simp
  moreover from this have "pct_health (cs_UsedPct st) = ''ok''" by (simp add: pct_health_ok usedPctWarning_def)
  ultimately show ?thesis using st(1) by (auto simp: cpu_runCheck_def cpuHealth_def)
qed

section \<open>Claims\<close>


text \<open>A rate above the floor and above three times at least half of the samples; a rate at most the floor, or at most three times at least half of them.\<close>

definition above_half :: "(RateSample \<Rightarrow> rat) \<Rightarrow> RateSample list \<Rightarrow> rat \<Rightarrow> bool" where
  "above_half f h cur \<longleftrightarrow> anomalyFloorMBps < cur \<and> length h \<le> 2 * length (filter (\<lambda>s. anomalyFactor * f s < cur) h)"

definition under_half :: "(RateSample \<Rightarrow> rat) \<Rightarrow> RateSample list \<Rightarrow> rat \<Rightarrow> bool" where
  "under_half f h cur \<longleftrightarrow> cur \<le> anomalyFloorMBps \<or> length h \<le> 2 * length (filter (\<lambda>s. cur \<le> anomalyFactor * f s) h)"

lemma unusual_above_half:
  assumes "baselineMinSamples \<le> length h"
  shows "unusual cur (median (map f h)) \<Longrightarrow> above_half f h cur" "\<not> unusual cur (median (map f h)) \<Longrightarrow> under_half f h cur"
proof -
  have ne: "map f h \<noteq> []" using assms by (auto simp: baselineMinSamples_def)
  have len: "length (filter P (map f h)) = length (filter (\<lambda>s. P (f s)) h)" for P by (simp add: filter_map comp_def)
  show "unusual cur (median (map f h)) \<Longrightarrow> above_half f h cur" "\<not> unusual cur (median (map f h)) \<Longrightarrow> under_half f h cur"
    using unusual_half [OF ne, of cur] unfolding above_half_def under_half_def len length_map by blast+
qed

lemma network_needs:
  "fst (fst (network_PreCheck ok1 ok2 fmt num now (Inr (in1, out1)) None (Inr (in2, out2)) m)) \<longleftrightarrow>
     AnomalyIssue num (prune_samples rs_Time baselineMaxAge now (cm_rates m))
       (rate_of in1 in2 preCheckSampleSeconds) (rate_of out1 out2 preCheckSampleSeconds) \<noteq> []"
  using judged_history_prior [of ok2 now "rate_of in1 in2 preCheckSampleSeconds" "rate_of out1 out2 preCheckSampleSeconds" "cm_rates m"]
  by (simp add: network_PreCheck_def sampleRates_def preCheckSampleSeconds_def sample_seconds_def minSampleSeconds_def maxSampleSeconds_def Let_def
      RecordRate_def)

text \<open>
  A scheduled network check judges the two rates against the stored history that is at most seven days old, without the current reading. With at
  least four samples it asks for the model only if a rate is above 1 MB/s and above three times at least half of the samples; and when it does not,
  neither rate is above 1 MB/s unless at least half of the samples reach a third of it. With fewer samples it always asks.
\<close>

theorem traffic_judged:
  "case network_PreCheck ok1 ok2 fmt num now (Inr (in1, out1)) None (Inr (in2, out2)) m of ((needs, report, err), m') \<Rightarrow>
     let h = prune_samples rs_Time baselineMaxAge now (cm_rates m);
         down = rate_of in1 in2 preCheckSampleSeconds; up = rate_of out1 out2 preCheckSampleSeconds
     in (length h < baselineMinSamples \<longrightarrow> needs)
      \<and> (baselineMinSamples \<le> length h \<and> needs \<longrightarrow> above_half rs_DownMBps h down \<or> above_half rs_UpMBps h up)
      \<and> (\<not> needs \<longrightarrow> under_half rs_DownMBps h down \<and> under_half rs_UpMBps h up)"
proof -
  obtain needs report err m' where r: "network_PreCheck ok1 ok2 fmt num now (Inr (in1, out1)) None (Inr (in2, out2)) m = ((needs, report, err), m')"
    by (metis prod.exhaust)
  from network_needs [of ok1 ok2 fmt num now in1 out1 in2 out2 m] show ?thesis
    unfolding r fst_conv prod.case Let_def anomaly_text_nonempty using unusual_above_half by (meson not_le)
qed


subsection \<open>Witnesses\<close>

definition example_stat :: "string \<Rightarrow> string \<Rightarrow> string + string list" where
  "example_stat user idle = Inr [''cpu  '' @ user @ '' 0 0 '' @ idle @ '' 0 0 0 0 0 0'', ''cpu0 1 2 3 4'']"


definition example_rates :: "RateSample list" where
  "example_rates = map (\<lambda>i. \<lparr>rs_Time = i * hour, rs_DownMBps = 2, rs_UpMBps = 1 / 2\<rparr>) [0, 1, 2, 3]"

definition example_checks :: check_mem where
  "example_checks = \<lparr>cm_loop = \<lparr>lm_states = Map.empty, lm_notes = []\<rparr>, cm_disks = Map.empty, cm_smart = Map.empty, cm_temps = Map.empty, cm_usage = [],
     cm_rates = example_rates\<rparr>"

text \<open>50 MiB in five seconds are 10 MB/s, five times the median; 25 MiB are not above three times of it.\<close>

theorem traffic_judged_witness:
  "fst (fst (network_PreCheck True True (\<lambda>t. []) (\<lambda>d r. []) (4 * hour) (Inr (0, 0)) None (Inr (52428800, 0)) example_checks))
    \<and> above_half rs_DownMBps example_rates 10
    \<and> \<not> fst (fst (network_PreCheck True True (\<lambda>t. []) (\<lambda>d r. []) (4 * hour) (Inr (0, 0)) None (Inr (26214400, 0)) example_checks))
    \<and> under_half rs_DownMBps example_rates 5"
proof -
  have n: "fst (fst (network_PreCheck True True (\<lambda>t. []) (\<lambda>d r. []) (4 * hour) (Inr (0, 0)) None (Inr (52428800, 0)) example_checks))"
    "\<not> fst (fst (network_PreCheck True True (\<lambda>t. []) (\<lambda>d r. []) (4 * hour) (Inr (0, 0)) None (Inr (26214400, 0)) example_checks))" by code_simp+
  have h: "prune_samples rs_Time baselineMaxAge (4 * hour) (cm_rates example_checks) = example_rates" "baselineMinSamples \<le> length example_rates" by code_simp+
  have d: "rate_of 0 52428800 preCheckSampleSeconds = 10" "rate_of 0 26214400 preCheckSampleSeconds = 5" "rate_of 0 0 preCheckSampleSeconds = 0" by code_simp+
  have up: "\<not> above_half rs_UpMBps example_rates 0" by code_simp
  show ?thesis
    using traffic_judged [where ?ok1.0 = True and ?ok2.0 = True and fmt = "\<lambda>t. []" and num = "\<lambda>d r. []" and now = "4 * hour" and ?in1.0 = 0 and ?out1.0 = 0
          and ?in2.0 = 52428800 and ?out2.0 = 0 and m = example_checks]
      traffic_judged [where ?ok1.0 = True and ?ok2.0 = True and fmt = "\<lambda>t. []" and num = "\<lambda>d r. []" and now = "4 * hour" and ?in1.0 = 0 and ?out1.0 = 0
          and ?in2.0 = 26214400 and ?out2.0 = 0 and m = example_checks] n h(2) up
    unfolding h(1) d Let_def by (simp add: split_beta)
qed

end
