(* ===== verification/Largest.thy ===== *)
theory Largest
  imports Patch_Info "HOL-Library.Word"
begin

text \<open>
  The search for the largest files and directories below a mount, \<open>check_drives/largest.go\<close>. Nodes are cells of a list and refer to their parents by index,
  so that \<open>propagate\<close> updates the shared totals in place. The file system is an argument: the entries of a directory that can be read, each with its name,
  whether it is a directory, and for others the mode and size if they can be had; and the device of a path. Paths are clean and absolute. \<open>sort.Slice\<close> may
  order equal sizes differently from \<open>sort_by\<close>, which keeps their order.
\<close>

section \<open>Nodes\<close>

record SizedEntry =
  se_Path :: string
  se_Size :: "64 word"

record dirNode =
  dn_path :: string
  dn_total :: "64 word"
  dn_parent :: "nat option"
  dn_dev :: "nat option"

record dirent =
  en_Name :: string
  en_IsDir :: bool
  en_Info :: "(bool \<times> 64 word) option"      \<comment> \<open>a regular file, and its size\<close>

record file_system =
  fs_ReadDir :: "string \<Rightarrow> dirent list option"
  fs_deviceID :: "string \<Rightarrow> nat option"

definition maxDirsExplored :: nat where "maxDirsExplored = 50"
definition maxChildrenPerDir :: nat where "maxChildrenPerDir = 20"
definition promoteThreshold :: "64 word" where "promoteThreshold = 50 * 1024 * 1024"
definition pseudoFSDirs :: "string list" where "pseudoFSDirs = [''proc'', ''sys'', ''dev'', ''run'']"

definition staticSystemDirs :: "string list" where
  "staticSystemDirs = [''usr'', ''lib'', ''lib32'', ''lib64'', ''libx32'', ''bin'', ''sbin'', ''snap'']"

definition path_join :: "string \<Rightarrow> string \<Rightarrow> string" where
  "path_join p n = (if HasSuffix p ''/'' then p @ n else p @ ''/'' @ n)"

definition regular_size :: "dirent \<Rightarrow> 64 word option" where
  "regular_size e = (if en_IsDir e then None else case en_Info e of Some (True, n) \<Rightarrow> Some n | _ \<Rightarrow> None)"

definition dirSelfSize :: "file_system \<Rightarrow> string \<Rightarrow> 64 word" where
  "dirSelfSize fs dir = (case fs_ReadDir fs dir of None \<Rightarrow> 0 | Some es \<Rightarrow> sum_list (List.map_filter regular_size es))"

text \<open>The chain of parents leads to smaller indices.\<close>

function propagate :: "nat \<Rightarrow> 64 word \<Rightarrow> dirNode list \<Rightarrow> dirNode list" where
  "propagate i n nodes =
     (if i < length nodes then
        let nodes' = nodes[i := (nodes ! i)\<lparr>dn_total := dn_total (nodes ! i) + n\<rparr>]
        in case dn_parent (nodes ! i) of
             None \<Rightarrow> nodes'
           | Some p \<Rightarrow> if p < i then propagate p n nodes' else nodes'
      else nodes)"
  by pat_completeness auto
termination by (relation "measure (\<lambda>(i, n, nodes). i)") auto

declare propagate.simps [simp del]

section \<open>The scan\<close>

record scan_state =
  sc_nodes :: "dirNode list"
  sc_queue :: "nat list"
  sc_candidates :: "nat list"
  sc_files :: "SizedEntry list"
  sc_opened :: "string list"                \<comment> \<open>the directories opened, last first\<close>

definition promoted :: "dirNode list \<Rightarrow> nat \<Rightarrow> nat \<Rightarrow> bool" where
  "promoted nodes i j \<longleftrightarrow> dn_total (nodes ! i) \<ge> promoteThreshold \<and> dn_total (nodes ! j) < promoteThreshold"

text \<open>The subdirectory entries of a directory that become nodes, and the files it adds.\<close>

definition child_nodes :: "file_system \<Rightarrow> nat \<Rightarrow> dirNode \<Rightarrow> dirent list \<Rightarrow> dirNode list" where
  "child_nodes fs cur node es =
     List.map_filter (\<lambda>e.
       let path = path_join (dn_path node) (en_Name e); dev = fs_deviceID fs path in
       if \<not> en_IsDir e \<or> (dn_parent node = None \<and> en_Name e \<in> set pseudoFSDirs)
          \<or> (dn_dev node \<noteq> None \<and> dev \<noteq> None \<and> dev \<noteq> dn_dev node) then None
       else Some \<lparr>dn_path = path, dn_total = dirSelfSize fs path, dn_parent = Some cur, dn_dev = dev\<rparr>) es"

definition dir_files :: "dirNode \<Rightarrow> dirent list \<Rightarrow> SizedEntry list" where
  "dir_files node es =
     List.map_filter (\<lambda>e. map_option (\<lambda>n. \<lparr>se_Path = path_join (dn_path node) (en_Name e), se_Size = n\<rparr>) (regular_size e)) es"

definition capped :: "dirNode list \<Rightarrow> dirNode list" where
  "capped cs =
     (if length cs > maxChildrenPerDir then take maxChildrenPerDir (sort_by (\<lambda>a b. dn_total a > dn_total b) cs) else cs)"

definition base_name :: "string \<Rightarrow> string" where
  "base_name p = rev (takeWhile (\<lambda>c. c \<noteq> CHR ''/'') (rev p))"

text \<open>One child: it becomes a candidate, its size is added to its ancestors, and it is queued unless it is a static system directory at the top.\<close>

definition add_child :: "nat \<Rightarrow> dirNode \<Rightarrow> scan_state \<Rightarrow> scan_state" where
  "add_child cur c st =
     (let i = length (sc_nodes st);
          top = (dn_parent (sc_nodes st ! cur) = None)
      in st\<lparr>sc_nodes := propagate cur (dn_total c) (sc_nodes st) @ [c], sc_candidates := sc_candidates st @ [i],
            sc_queue := (if top \<and> base_name (dn_path c) \<in> set staticSystemDirs then sc_queue st else sc_queue st @ [i])\<rparr>)"

definition explore :: "file_system \<Rightarrow> scan_state \<Rightarrow> scan_state" where
  "explore fs st =
     (case sort_by (promoted (sc_nodes st)) (sc_queue st) of
        [] \<Rightarrow> st
      | cur # rest \<Rightarrow>
          let node = sc_nodes st ! cur; st = st\<lparr>sc_queue := rest, sc_opened := dn_path node # sc_opened st\<rparr>
          in case fs_ReadDir fs (dn_path node) of
               None \<Rightarrow> st
             | Some es \<Rightarrow>
                 fold (add_child cur) (capped (child_nodes fs cur node es)) (st\<lparr>sc_files := sc_files st @ dir_files node es\<rparr>))"

text \<open>\<open>n\<close> directories may still be opened; \<open>stopped k\<close> is the error of a context found done before the \<open>k\<close>-th of them.\<close>

fun scan_loop :: "file_system \<Rightarrow> (nat \<Rightarrow> string option) \<Rightarrow> nat \<Rightarrow> scan_state \<Rightarrow> string + scan_state" where
  "scan_loop fs stopped 0 st = Inr st"
| "scan_loop fs stopped (Suc n) st =
     (if sc_queue st = [] then Inr st
      else case stopped (length (sc_opened st)) of
          Some e \<Rightarrow> Inl e
        | None \<Rightarrow> scan_loop fs stopped n (explore fs st))"

definition topNDirs :: "dirNode list \<Rightarrow> nat list \<Rightarrow> nat \<Rightarrow> SizedEntry list" where
  "topNDirs nodes cs topN =
     map (\<lambda>i. \<lparr>se_Path = dn_path (nodes ! i), se_Size = dn_total (nodes ! i)\<rparr>)
       (take topN (sort_by (\<lambda>i j. dn_total (nodes ! i) > dn_total (nodes ! j)) cs))"

definition topNFiles :: "SizedEntry list \<Rightarrow> nat \<Rightarrow> SizedEntry list" where
  "topNFiles es topN = take topN (sort_by (\<lambda>a b. se_Size a > se_Size b) es)"

definition scan_start :: "file_system \<Rightarrow> string \<Rightarrow> scan_state" where
  "scan_start fs top_dir =
     \<lparr>sc_nodes = [\<lparr>dn_path = top_dir, dn_total = 0, dn_parent = None, dn_dev = fs_deviceID fs top_dir\<rparr>], sc_queue = [0], sc_candidates = [],
      sc_files = [], sc_opened = []\<rparr>"

definition TopLargest :: "file_system \<Rightarrow> (nat \<Rightarrow> string option) \<Rightarrow> string \<Rightarrow> nat \<Rightarrow> string + SizedEntry list \<times> SizedEntry list" where
  "TopLargest fs stopped top_dir topN =
     (case scan_loop fs stopped maxDirsExplored (scan_start fs top_dir) of
        Inl e \<Rightarrow> Inl e
      | Inr st \<Rightarrow> Inr (topNDirs (sc_nodes st) (sc_candidates st) topN, topNFiles (sc_files st) topN))"


section \<open>The totals add up\<close>

definition self_size :: "file_system \<Rightarrow> dirNode \<Rightarrow> 64 word" where
  "self_size fs n = (if dn_parent n = None then 0 else dirSelfSize fs (dn_path n))"

definition children_of :: "dirNode list \<Rightarrow> nat \<Rightarrow> nat set" where
  "children_of nodes k = {j. j < length nodes \<and> dn_parent (nodes ! j) = Some k}"

definition children_total :: "dirNode list \<Rightarrow> nat \<Rightarrow> 64 word" where
  "children_total nodes k = (\<Sum>j \<in> children_of nodes k. dn_total (nodes ! j))"

text \<open>Parents come first, and only the first node has none.\<close>

definition tree_shape :: "dirNode list \<Rightarrow> bool" where
  "tree_shape nodes \<longleftrightarrow> nodes \<noteq> [] \<and> (\<forall>i < length nodes. case dn_parent (nodes ! i) of None \<Rightarrow> i = 0 | Some p \<Rightarrow> p < i)"

text \<open>The totals add up, but for \<open>n\<close> that node \<open>i\<close> still lacks.\<close>

definition lacks :: "file_system \<Rightarrow> nat \<Rightarrow> 64 word \<Rightarrow> dirNode list \<Rightarrow> bool" where
  "lacks fs i n nodes \<longleftrightarrow>
     (\<forall>k < length nodes. dn_total (nodes ! k) + (if k = i then n else 0) = self_size fs (nodes ! k) + children_total nodes k)"

lemma finite_children [simp]: "finite (children_of nodes k)"
  by (simp add: children_of_def)

lemma parent_update [simp]:
  "i < length nodes \<Longrightarrow> dn_parent (nodes[i := (nodes ! i)\<lparr>dn_total := t\<rparr>] ! j) = dn_parent (nodes ! j)"
  "i < length nodes \<Longrightarrow> dn_path (nodes[i := (nodes ! i)\<lparr>dn_total := t\<rparr>] ! j) = dn_path (nodes ! j)"
  by (cases "i = j"; simp)+

lemma children_update [simp]: "i < length nodes \<Longrightarrow> children_of (nodes[i := (nodes ! i)\<lparr>dn_total := t\<rparr>]) k = children_of nodes k"
  by (simp add: children_of_def)

lemma children_total_update:
  assumes "i < length nodes"
  shows "children_total (nodes[i := (nodes ! i)\<lparr>dn_total := dn_total (nodes ! i) + n\<rparr>]) k
       = children_total nodes k + (if dn_parent (nodes ! i) = Some k then n else 0)"
proof -
  let ?nodes' = "nodes[i := (nodes ! i)\<lparr>dn_total := dn_total (nodes ! i) + n\<rparr>]"
  have "children_total ?nodes' k = (\<Sum>j \<in> children_of nodes k. dn_total (nodes ! j) + (if j = i then n else 0))"
    unfolding children_total_def using assms by (auto simp: nth_list_update intro!: sum.cong)
  also have "\<dots> = children_total nodes k + (if i \<in> children_of nodes k then n else 0)"
    by (simp add: sum.distrib children_total_def)
  finally show ?thesis using assms by (simp add: children_of_def)
qed

lemma tree_shape_update: "i < length nodes \<Longrightarrow> tree_shape nodes \<Longrightarrow> tree_shape (nodes[i := (nodes ! i)\<lparr>dn_total := t\<rparr>])"
  by (simp add: tree_shape_def)

lemma propagate_settles:
  assumes "i < length nodes" "tree_shape nodes" "lacks fs i n nodes"
  shows "lacks fs 0 0 (propagate i n nodes)"
  using assms
proof (induction i n nodes rule: propagate.induct)
  case (1 i n nodes)
  let ?nodes' = "nodes[i := (nodes ! i)\<lparr>dn_total := dn_total (nodes ! i) + n\<rparr>]"
  have self: "self_size fs (?nodes' ! k) = self_size fs (nodes ! k)" for k using "1.prems"(1) by (simp add: self_size_def)
  have tot: "dn_total (?nodes' ! k) = dn_total (nodes ! k) + (if k = i then n else 0)" if "k < length nodes" for k
    using that by (simp add: nth_list_update)
  show ?case
  proof (cases "dn_parent (nodes ! i)")
    case None
    then have "lacks fs 0 0 ?nodes'" using "1.prems" by (simp add: lacks_def self tot children_total_update)
    then show ?thesis using None "1.prems"(1) by (simp add: propagate.simps [of i n nodes])
  next
    case (Some p)
    then have p: "p < i" using "1.prems"(1,2) by (auto simp: tree_shape_def split: option.splits)
    have "lacks fs p n ?nodes'" using "1.prems" Some p by (simp add: lacks_def self tot children_total_update)
    then have "lacks fs 0 0 (propagate p n ?nodes')"
      using "1.IH" [OF "1.prems"(1) refl Some p] "1.prems"(1,2) p tree_shape_update by simp
    then show ?thesis using Some p "1.prems"(1) by (simp add: propagate.simps [of i n nodes])
  qed
qed

lemma propagate_append: "i < length nodes \<Longrightarrow> propagate i n (nodes @ [c]) = propagate i n nodes @ [c]"
proof (induction i n nodes rule: propagate.induct)
  case (1 i n nodes)
  show ?case
  proof (cases "dn_parent (nodes ! i)")
    case (Some p)
    with 1 show ?thesis by (simp add: propagate.simps [of i n] nth_append list_update_append Let_def)
  qed (use 1 in \<open>simp add: propagate.simps [of i n] nth_append list_update_append Let_def\<close>)
qed

lemma propagate_keeps:
  "length (propagate i n nodes) = length nodes"
  "map dn_parent (propagate i n nodes) = map dn_parent nodes" "map dn_path (propagate i n nodes) = map dn_path nodes"
proof (induction i n nodes rule: propagate.induct)
  case (1 i n nodes)
  have same: "map f (nodes[i := (nodes ! i)\<lparr>dn_total := t\<rparr>]) = map f nodes" if "\<And>x t. f (x\<lparr>dn_total := t\<rparr>) = f x" for f :: "dirNode \<Rightarrow> 'b" and t
    by (cases "i < length nodes") (simp_all add: map_update that list_update_same_conv list_update_beyond)
  { case 1 show ?case using "1.IH"(1) by (auto simp: propagate.simps [of i n nodes] Let_def split: option.split)
  next
    case 2 show ?case using "1.IH"(2) same [of dn_parent] by (auto simp: propagate.simps [of i n nodes] Let_def split: option.split)
  next
    case 3 show ?case using "1.IH"(3) same [of dn_path] by (auto simp: propagate.simps [of i n nodes] Let_def split: option.split) }
qed


text \<open>What holds of the state of a scan between two steps.\<close>

definition scan_ok :: "file_system \<Rightarrow> scan_state \<Rightarrow> bool" where
  "scan_ok fs st \<longleftrightarrow>
     tree_shape (sc_nodes st) \<and> lacks fs 0 0 (sc_nodes st) \<and> sc_candidates st = [1..<length (sc_nodes st)]
     \<and> (\<forall>i \<in> set (sc_queue st). i < length (sc_nodes st))"

lemma tree_shape_maps: "map dn_parent nodes = map dn_parent nodes' \<Longrightarrow> tree_shape nodes \<longleftrightarrow> tree_shape nodes'"
proof -
  assume m: "map dn_parent nodes = map dn_parent nodes'"
  then have "length nodes = length nodes'" by (rule map_eq_imp_length_eq)
  moreover from this m have "dn_parent (nodes ! i) = dn_parent (nodes' ! i)" if "i < length nodes" for i using that by (metis nth_map)
  ultimately show ?thesis by (auto simp: tree_shape_def)
qed

lemma lacks_child:
  assumes "tree_shape nodes" "lacks fs 0 0 nodes" "cur < length nodes" "dn_parent c = Some cur" "dn_total c = dirSelfSize fs (dn_path c)"
  shows "lacks fs cur (dn_total c) (nodes @ [c])"
proof -
  have ch: "children_of (nodes @ [c]) k = children_of nodes k \<union> (if k = cur then {length nodes} else {})" if "k \<le> length nodes" for k
    using assms(1,3,4) that by (auto simp: children_of_def nth_append tree_shape_def less_Suc_eq split: option.splits if_splits)
  have out: "length nodes \<notin> children_of nodes k" for k by (simp add: children_of_def)
  have sum: "(\<Sum>j \<in> children_of nodes k. dn_total ((nodes @ [c]) ! j)) = children_total nodes k" for k
    unfolding children_total_def by (rule sum.cong) (auto simp: children_of_def nth_append)
  have tot: "children_total (nodes @ [c]) k = children_total nodes k + (if k = cur then dn_total c else 0)" if "k \<le> length nodes" for k
    unfolding children_total_def [of "nodes @ [c]"] ch [OF that] using out sum by (simp add: add.commute)
  have "children_of nodes (length nodes) = {}" using assms(1) by (fastforce simp: children_of_def tree_shape_def split: option.splits)
  then have "children_total nodes (length nodes) = 0" by (simp add: children_total_def)
  then show ?thesis using assms(2-5) by (auto simp: lacks_def tot nth_append self_size_def less_Suc_eq_le)
qed

lemma scan_ok_add:
  assumes "scan_ok fs st" "cur < length (sc_nodes st)" "dn_parent c = Some cur" "dn_total c = dirSelfSize fs (dn_path c)"
  shows "scan_ok fs (add_child cur c st) \<and> cur < length (sc_nodes (add_child cur c st))"
proof -
  have sh: "tree_shape (sc_nodes st)" and l0: "lacks fs 0 0 (sc_nodes st)" using assms(1) by (simp_all add: scan_ok_def)
  have "tree_shape (sc_nodes st @ [c])" using sh assms(2,3) by (auto simp: tree_shape_def nth_append less_Suc_eq)
  moreover have "lacks fs 0 0 (propagate cur (dn_total c) (sc_nodes st @ [c]))"
    using calculation lacks_child [OF sh l0 assms(2-4)] assms(2) by (intro propagate_settles) simp_all
  moreover have "tree_shape (propagate cur (dn_total c) (sc_nodes st) @ [c])"
    using calculation(1) tree_shape_maps [of "propagate cur (dn_total c) (sc_nodes st) @ [c]" "sc_nodes st @ [c]"] by (simp add: propagate_keeps)
  ultimately show ?thesis using assms(1,2)
    by (auto simp: scan_ok_def add_child_def Let_def propagate_append propagate_keeps less_SucI)
qed

lemma scan_ok_adds:
  assumes "scan_ok fs st" "cur < length (sc_nodes st)" "\<forall>c \<in> set cs. dn_parent c = Some cur \<and> dn_total c = dirSelfSize fs (dn_path c)"
  shows "scan_ok fs (fold (add_child cur) cs st)"
  using assms
proof (induction cs arbitrary: st)
  case (Cons c cs)
  then show ?case using scan_ok_add [of fs st cur c] by simp
qed simp

lemma capped_children: "c \<in> set (capped (child_nodes fs cur node es)) \<Longrightarrow> dn_parent c = Some cur \<and> dn_total c = dirSelfSize fs (dn_path c)"
  by (auto simp: capped_def child_nodes_def List.map_filter_def Let_def split: if_splits dest!: in_set_takeD)

lemma opened_adds [simp]: "sc_opened (fold (add_child cur) cs st) = sc_opened st"
  by (induction cs arbitrary: st) (simp_all add: add_child_def Let_def)

lemma explore_ok:
  assumes "scan_ok fs st" "sc_queue st \<noteq> []"
  shows "scan_ok fs (explore fs st)" "length (sc_opened (explore fs st)) = Suc (length (sc_opened st))"
proof -
  obtain cur rest where q: "sort_by (promoted (sc_nodes st)) (sc_queue st) = cur # rest"
    using assms(2) by (metis length_0_conv length_sort_by neq_Nil_conv)
  then have "set (cur # rest) = set (sc_queue st)" by (metis set_sort_by)
  then have cur: "cur < length (sc_nodes st)" and rest: "\<forall>i \<in> set rest. i < length (sc_nodes st)" using assms(1) by (auto simp: scan_ok_def)
  have "scan_ok fs (st\<lparr>sc_queue := rest, sc_opened := ds, sc_files := fl\<rparr>)" "scan_ok fs (st\<lparr>sc_queue := rest, sc_opened := ds\<rparr>)" for ds fl
    using assms(1) rest by (simp_all add: scan_ok_def)
  then show "scan_ok fs (explore fs st)"
    using cur capped_children by (auto simp: explore_def q Let_def intro!: scan_ok_adds split: option.split)
  show "length (sc_opened (explore fs st)) = Suc (length (sc_opened st))" by (simp add: explore_def q Let_def split: option.split)
qed

lemma scan_loop_ok:
  assumes "scan_loop fs stopped n st = Inr st'" "scan_ok fs st"
  shows "scan_ok fs st' \<and> length (sc_opened st') \<le> length (sc_opened st) + n"
  using assms
proof (induction n arbitrary: st)
  case (Suc n)
  show ?case
  proof (cases "sc_queue st = []")
    case False
    with Suc.prems have "scan_loop fs stopped n (explore fs st) = Inr st'" by (simp split: option.splits)
    from Suc.IH [OF this] explore_ok [OF Suc.prems(2) False] show ?thesis by simp
  qed (use Suc.prems in simp)
qed simp

lemma scan_start_ok: "scan_ok fs (scan_start fs top_dir)"
  by (auto simp: scan_ok_def scan_start_def tree_shape_def lacks_def self_size_def children_total_def children_of_def)

section \<open>The largest entries\<close>

text \<open>Taking the first of a list in descending order.\<close>

lemma take_largest:
  fixes f :: "'a \<Rightarrow> 64 word" and xs :: "'a list"
  defines "s \<equiv> sort_by (\<lambda>a b. f a > f b) xs"
  shows "sorted_wrt (\<lambda>a b. f b \<le> f a) (take n s)"
    and "x \<in> set xs \<Longrightarrow> x \<in> set (take n s) \<or> length (take n s) = n \<and> (\<forall>y \<in> set (take n s). f x \<le> f y)"
proof -
  have "strict_weak (\<lambda>a b. f a > f b)" by (auto simp: strict_weak_def)
  then have st: "sorted_wrt (\<lambda>a b. f b \<le> f a) s" using sorted_sort_by [of "\<lambda>a b. f a > f b" xs] by (simp add: s_def not_less)
  then show "sorted_wrt (\<lambda>a b. f b \<le> f a) (take n s)" by (rule sorted_wrt_take)
  assume "x \<in> set xs"
  then have "x \<in> set s" by (simp add: s_def)
  show "x \<in> set (take n s) \<or> length (take n s) = n \<and> (\<forall>y \<in> set (take n s). f x \<le> f y)"
  proof (cases "x \<in> set (take n s)")
    case False
    then have "x \<in> set (drop n s)" using \<open>x \<in> set s\<close> by (metis Un_iff append_take_drop_id set_append)
    moreover from this have "n \<le> length s" by (metis drop_eq_Nil empty_iff empty_set linorder_le_cases)
    moreover have "sorted_wrt (\<lambda>a b. f b \<le> f a) (take n s @ drop n s)" using st by simp
    ultimately show ?thesis unfolding sorted_wrt_append by simp
  qed simp
qed



definition example_fs :: file_system where
  "example_fs =
     \<lparr>fs_ReadDir = (\<lambda>p. if p = ''/'' then Some [\<lparr>en_Name = ''opt'', en_IsDir = True, en_Info = None\<rparr>, \<lparr>en_Name = ''proc'', en_IsDir = True, en_Info = None\<rparr>]
        else if p = ''/opt'' then Some [\<lparr>en_Name = ''db'', en_IsDir = True, en_Info = None\<rparr>, \<lparr>en_Name = ''a'', en_IsDir = False, en_Info = Some (True, 5)\<rparr>]
        else if p = ''/opt/db'' then Some [\<lparr>en_Name = ''data'', en_IsDir = False, en_Info = Some (True, 70)\<rparr>] else None),
      fs_deviceID = (\<lambda>p. None)\<rparr>"


end
