(* ===== verification/Drives.thy ===== *)
theory Drives
  imports Host_Checks Largest Json
begin

text \<open>
  The disk check, package \<open>check_drives\<close>: the mounts of a Linux host, the collapsing of mounts that share storage, the S.M.A.R.T. reports of the
  physical devices behind them, the health recorded and the pre-check. The mount table, \<open>statfs\<close>, the \<open>slaves\<close> directories of \<open>/sys/class/block\<close> and the
  commands of the host are arguments; \<open>num\<close> formats a number with the given decimals. Sizes are 64-bit words.
\<close>

section \<open>Disks\<close>

record DiskStat =
  dk_Mount :: string
  dk_Device :: string
  dk_Total :: "64 word"
  dk_Free :: "64 word"
  dk_FSType :: string

definition disk_Used :: "DiskStat \<Rightarrow> 64 word" where
  "disk_Used d = (if dk_Free d > dk_Total d then 0 else dk_Total d - dk_Free d)"

definition disk_UsedPct :: "DiskStat \<Rightarrow> rat" where
  "disk_UsedPct d = (if dk_Total d = 0 then 0 else of_nat (unat (disk_Used d)) / of_nat (unat (dk_Total d)) * 100)"

definition localFSTypes :: "string list" where
  "localFSTypes = [''ext2'', ''ext3'', ''ext4'', ''xfs'', ''btrfs'', ''f2fs'', ''vfat'', ''exfat'', ''zfs'', ''reiserfs'', ''jfs'', ''fuseblk'']"

text \<open>One line of \<open>/proc/mounts\<close>; \<open>statfs\<close> gives the block size, the blocks and the free blocks of a mount it can read.\<close>

definition mount_line :: "(string \<Rightarrow> (64 word \<times> 64 word \<times> 64 word) option) \<Rightarrow> string \<Rightarrow> string set \<times> DiskStat list \<Rightarrow> string set \<times> DiskStat list" where
  "mount_line statfs line st =
     (case st of (visited, disks) \<Rightarrow>
      let fs = Fields line in
      if length fs < 3 \<or> fs ! 2 \<notin> set localFSTypes \<or> fs ! 1 \<in> visited then (visited, disks)
      else case statfs (fs ! 1) of
          None \<Rightarrow> (insert (fs ! 1) visited, disks)
        | Some (bsize, blocks, bfree) \<Rightarrow>
            (insert (fs ! 1) visited,
             disks @ [\<lparr>dk_Mount = fs ! 1, dk_Device = fs ! 0, dk_Total = bsize * blocks, dk_Free = bsize * bfree, dk_FSType = fs ! 2\<rparr>]))"

definition localDisks ::
    "(string \<Rightarrow> (64 word \<times> 64 word \<times> 64 word) option) \<Rightarrow> string + string list \<times> string option \<Rightarrow> string + DiskStat list" where
  "localDisks statfs f =
     (case f of
        Inl e \<Rightarrow> Inl (''disk_monitor: open /proc/mounts: '' @ e)
      | Inr (ls, Some e) \<Rightarrow> Inl (''disk_monitor: reading /proc/mounts: '' @ e)
      | Inr (ls, None) \<Rightarrow> Inr (snd (fold (mount_line statfs) ls ({}, []))))"

definition dedupeFreeTolerance :: rat where "dedupeFreeTolerance = 1 / 100"

definition preferredMounts :: "string list" where "preferredMounts = [''/'', ''/System/Volumes/Data'']"

definition isPreferredMount :: "string \<Rightarrow> bool" where
  "isPreferredMount mount \<longleftrightarrow> mount \<in> set preferredMounts"

definition sameStorage :: "DiskStat \<Rightarrow> DiskStat \<Rightarrow> bool" where
  "sameStorage a b \<longleftrightarrow>
     \<not> (dk_Total a = 0 \<or> dk_Total a \<noteq> dk_Total b)
     \<and> of_nat (unat (if dk_Free a > dk_Free b then dk_Free a - dk_Free b else dk_Free b - dk_Free a)) / of_nat (unat (dk_Total a)) < dedupeFreeTolerance"

fun first_index :: "('a \<Rightarrow> bool) \<Rightarrow> 'a list \<Rightarrow> nat option" where
  "first_index P [] = None"
| "first_index P (x # xs) = (if P x then Some 0 else map_option Suc (first_index P xs))"

definition dedupe_step :: "DiskStat \<Rightarrow> DiskStat list \<Rightarrow> DiskStat list" where
  "dedupe_step d out =
     (if dk_FSType d = ''devfs'' then out
      else case first_index (\<lambda>o'. sameStorage o' d) out of
          None \<Rightarrow> out @ [d]
        | Some i \<Rightarrow> if isPreferredMount (dk_Mount d) \<and> \<not> isPreferredMount (dk_Mount (out ! i)) then out[i := d] else out)"

definition DedupeDisks :: "DiskStat list \<Rightarrow> DiskStat list" where
  "DedupeDisks disks = fold dedupe_step disks []"

section \<open>Physical devices\<close>

text \<open>
  \<open>partitionRe\<close> of Linux, an optional partition number after a disk name: the letters or digits of the name are taken greedily, and what remains
  must be empty or the number.
\<close>

definition digits1 :: "string \<Rightarrow> (string \<times> string) option" where
  "digits1 s = (if takeWhile is_digit s = [] then None else Some (takeWhile is_digit s, dropWhile is_digit s))"

definition is_lower :: "char \<Rightarrow> bool" where
  "is_lower c \<longleftrightarrow> 97 \<le> (of_char c :: nat) \<and> (of_char c :: nat) \<le> 122"

definition disk_name :: "string \<Rightarrow> (string \<times> string) option" where
  "disk_name s =
     (if HasPrefix s ''sd'' \<or> HasPrefix s ''hd'' \<or> HasPrefix s ''vd'' then
        (let t = drop 2 s in
         if takeWhile is_lower t = [] then None else Some (take 2 s @ takeWhile is_lower t, dropWhile is_lower t))
      else if HasPrefix s ''nvme'' then
        (case digits1 (drop 4 s) of
           Some (a, CHR ''n'' # t) \<Rightarrow> map_option (\<lambda>(b, r). (''nvme'' @ a @ ''n'' @ b, r)) (digits1 t)
         | _ \<Rightarrow> None)
      else if HasPrefix s ''mmcblk'' then map_option (\<lambda>(a, r). (''mmcblk'' @ a, r)) (digits1 (drop 6 s))
      else None)"

definition partition_number :: "string \<Rightarrow> bool" where
  "partition_number r \<longleftrightarrow> (let d = TrimPrefix r ''p'' in r = [] \<or> d \<noteq> [] \<and> list_all is_digit d)"

definition partitionRe :: "string \<Rightarrow> string option" where
  "partitionRe dev =
     (if \<not> HasPrefix dev ''/dev/'' then None
      else case disk_name (drop 5 dev) of
          None \<Rightarrow> None
        | Some (disk, r) \<Rightarrow> if partition_number r then Some (''/dev/'' @ disk) else None)"

text \<open>\<open>entries\<close> are the names in the \<open>slaves\<close> directory of a device, after symbolic links, if it can be read.\<close>

definition dmSlaves :: "(string \<Rightarrow> string list option) \<Rightarrow> string \<Rightarrow> string list" where
  "dmSlaves entries dev = (case entries dev of None \<Rightarrow> [] | Some es \<Rightarrow> map (\<lambda>e. ''/dev/'' @ e) es)"

text \<open>The calls of \<open>visit\<close> still to be made, the devices seen and the disks found.\<close>

partial_function (option) visit_all :: "(string \<Rightarrow> string list option) \<Rightarrow> string list \<Rightarrow> string list \<Rightarrow> string list \<Rightarrow> string list option" where
  [code]: "visit_all entries todo visited results =
     (case todo of
        [] \<Rightarrow> Some results
      | dev # rest \<Rightarrow>
          if dev \<in> set visited then visit_all entries rest visited results
          else case partitionRe dev of
              Some disk \<Rightarrow> visit_all entries rest (dev # visited) (if disk \<in> set results then results else results @ [disk])
            | None \<Rightarrow> visit_all entries (dmSlaves entries dev @ rest) (dev # visited) results)"

definition parentDevices :: "(string \<Rightarrow> string list option) \<Rightarrow> string \<Rightarrow> string list option" where
  "parentDevices entries device = visit_all entries [device] [] []"

section \<open>S.M.A.R.T. reports\<close>

record SmartReport =
  sr_Device :: string
  sr_Available :: bool
  sr_Healthy :: bool
  sr_Findings :: "string list"

text \<open>The attributes are pairs of identifier and raw value, the NVMe log is critical warning, percentage used and media errors.\<close>

record smartctlOutput =
  so_SmartStatus :: "bool option"
  so_Table :: "(int \<times> int) list option"
  so_NvmeLog :: "(int \<times> int \<times> int) option"
  so_Temperature :: "int option"

definition criticalATAAttrs :: "(int \<times> string) list" where
  "criticalATAAttrs = [(5, ''Reallocated_Sector_Ct''), (197, ''Current_Pending_Sector''), (198, ''Offline_Uncorrectable''), (187, ''Reported_Uncorrect'')]"

text \<open>\<open>json.Unmarshal\<close>: a pointer to a struct is nil for \<open>null\<close> and for a missing member.\<close>

fun as_bool :: "bool \<Rightarrow> json \<Rightarrow> bool option" where
  "as_bool old (JBool b) = Some b"
| "as_bool old JNull = Some old"
| "as_bool old _ = None"

fun as_pointer :: "((string \<times> json) list \<Rightarrow> 'a option) \<Rightarrow> 'a option \<Rightarrow> json \<Rightarrow> 'a option option" where
  "as_pointer f old JNull = Some None"
| "as_pointer f old (JObject ms) = map_option Some (f ms)"
| "as_pointer f old _ = None"

definition pointer_field :: "((string \<times> json) list \<Rightarrow> 'a option) \<Rightarrow> string \<Rightarrow> (string \<times> json) list \<Rightarrow> 'a option option" where
  "pointer_field f name ms = decode_field (as_pointer f) (field_values name ms) None"

definition dec_raw :: "int \<Rightarrow> json \<Rightarrow> int option" where
  "dec_raw old v = (case object_members v of None \<Rightarrow> None | Some ms \<Rightarrow> decode_field as_int64 (field_values ''value'' ms) old)"

definition dec_attr :: "json \<Rightarrow> (int \<times> int) option" where
  "dec_attr v =
     (case object_members v of None \<Rightarrow> None
      | Some ms \<Rightarrow>
          (case (int_field ''id'' ms, string_field ''name'' ms, decode_field dec_raw (field_values ''raw'' ms) 0) of
             (Some i, Some _, Some r) \<Rightarrow> Some (i, r)
           | _ \<Rightarrow> None))"

fun all_some :: "'a option list \<Rightarrow> 'a list option" where
  "all_some [] = Some []"
| "all_some (None # xs) = None"
| "all_some (Some x # xs) = map_option ((#) x) (all_some xs)"

fun as_table :: "(int \<times> int) list \<Rightarrow> json \<Rightarrow> (int \<times> int) list option" where
  "as_table old (JArray vs) = all_some (map dec_attr vs)"
| "as_table old JNull = Some []"
| "as_table old _ = None"

definition dec_nvme :: "(string \<times> json) list \<Rightarrow> (int \<times> int \<times> int) option" where
  "dec_nvme ms =
     (case (int_field ''critical_warning'' ms, int_field ''percentage_used'' ms, int_field ''media_errors'' ms) of
        (Some w, Some p, Some e) \<Rightarrow> Some (w, p, e)
      | _ \<Rightarrow> None)"

definition dec_smartctl :: "string \<Rightarrow> smartctlOutput option" where
  "dec_smartctl data =
     (case parse_json data of None \<Rightarrow> None
      | Some v \<Rightarrow>
          (case object_members v of None \<Rightarrow> None
           | Some ms \<Rightarrow>
               (case (pointer_field (\<lambda>ms. decode_field as_bool (field_values ''passed'' ms) False) ''smart_status'' ms,
                      pointer_field (\<lambda>ms. decode_field as_table (field_values ''table'' ms) []) ''ata_smart_attributes'' ms,
                      pointer_field dec_nvme ''nvme_smart_health_information_log'' ms,
                      pointer_field (int_field ''current'') ''temperature'' ms) of
                  (Some s, Some t, Some n, Some c) \<Rightarrow> Some \<lparr>so_SmartStatus = s, so_Table = t, so_NvmeLog = n, so_Temperature = c\<rparr>
                | _ \<Rightarrow> None)))"


text \<open>
  \<open>checkSmartDevice\<close>: \<open>present\<close> tells whether \<open>smartctl\<close> is installed, \<open>sudo\<close> whether the agent runs on Linux without being root, and \<open>exec\<close> is the
  output of a command and whether it failed.
\<close>

definition smartctl_run :: "bool \<Rightarrow> (string \<Rightarrow> string list \<Rightarrow> string \<times> bool) \<Rightarrow> string list \<Rightarrow> string option" where
  "smartctl_run sudo exec args =
     (case (if sudo then exec ''sudo'' ([''-n'', ''smartctl''] @ args) else exec ''smartctl'' args) of
        (data, failed) \<Rightarrow> if failed \<and> data = [] then None else Some data)"

definition ata_findings :: "(int \<times> int) list \<Rightarrow> string list" where
  "ata_findings table = List.map_filter (\<lambda>(i, v). case map_of criticalATAAttrs i of
      None \<Rightarrow> None
    | Some name \<Rightarrow> if v \<le> 0 then None else Some (name @ '' is '' @ show_int v @ '' (nonzero indicates degrading sectors)'')) table"

definition smart_summary :: "(int \<Rightarrow> string) \<Rightarrow> string \<Rightarrow> smartctlOutput \<Rightarrow> SmartReport" where
  "smart_summary hex device out =
     (let ata = (case so_Table out of None \<Rightarrow> [] | Some t \<Rightarrow> ata_findings t);
          nvme = (case so_NvmeLog out of
                    None \<Rightarrow> []
                  | Some (w, p, e) \<Rightarrow>
                      (if w \<noteq> 0 then [(True, ''NVMe critical warning flags: 0x'' @ hex w)] else []) @
                      (if e > 0 then [(True, ''NVMe media errors: '' @ show_int e)] else []) @
                      (if p \<ge> 90 then [(False, ''NVMe endurance used: '' @ show_int p @ ''%'')] else []));
          fs = (if so_SmartStatus out = Some False then [''Overall SMART health check: FAILED''] else []) @ ata @ map snd nvme @
               (case so_Temperature out of
                  Some c \<Rightarrow> if c > 0 then [''Temperature: '' @ show_int c @ [CHR 0xC2, CHR 0xB0, CHR ''C'']] else []
                | None \<Rightarrow> [])
      in \<lparr>sr_Device = device, sr_Available = True,
          sr_Healthy = (so_SmartStatus out \<noteq> Some False \<and> ata = [] \<and> \<not> list_ex fst nvme),
          sr_Findings = (if fs = [] then [''No issues detected''] else fs)\<rparr>)"

definition checkSmartDevice :: "bool \<Rightarrow> bool \<Rightarrow> (string \<Rightarrow> string list \<Rightarrow> string \<times> bool) \<Rightarrow> (int \<Rightarrow> string) \<Rightarrow> string \<Rightarrow> SmartReport" where
  "checkSmartDevice present sudo exec hex device =
     (let none = \<lparr>sr_Device = device, sr_Available = False, sr_Healthy = False, sr_Findings = []\<rparr> in
      if \<not> present then none
      else case smartctl_run sudo exec [''-H'', ''-A'', ''-j'', device] of
          None \<Rightarrow> none
        | Some data \<Rightarrow> (case dec_smartctl data of None \<Rightarrow> none | Some out \<Rightarrow> smart_summary hex device out))"

text \<open>The host the check runs on.\<close>

record drive_env =
  de_entries :: "string \<Rightarrow> string list option"
  de_present :: bool
  de_sudo :: bool
  de_exec :: "string \<Rightarrow> string list \<Rightarrow> string \<times> bool"
  de_hex :: "int \<Rightarrow> string"

definition CheckSmart :: "drive_env \<Rightarrow> string \<Rightarrow> SmartReport list option" where
  "CheckSmart env device =
     map_option (map (checkSmartDevice (de_present env) (de_sudo env) (de_exec env) (de_hex env))) (parentDevices (de_entries env) device)"

text \<open>The cache of reports, by device; \<open>None\<close> when a device cannot be resolved in finitely many steps.\<close>

fun collectSmartReports :: "drive_env \<Rightarrow> DiskStat list \<Rightarrow> (string \<rightharpoonup> SmartReport list) \<Rightarrow> (string \<rightharpoonup> SmartReport list) option" where
  "collectSmartReports env [] cache = Some cache"
| "collectSmartReports env (d # ds) cache =
     (if dk_Device d = [] \<or> cache (dk_Device d) \<noteq> None then collectSmartReports env ds cache
      else case CheckSmart env (dk_Device d) of
          None \<Rightarrow> None
        | Some rs \<Rightarrow> collectSmartReports env ds (cache(dk_Device d \<mapsto> rs)))"

definition reports_of :: "(string \<rightharpoonup> SmartReport list) \<Rightarrow> string \<Rightarrow> SmartReport list" where
  "reports_of cache device = (case cache device of None \<Rightarrow> [] | Some rs \<Rightarrow> rs)"

text \<open>\<open>parseSmartAttrsJSON\<close> and \<open>CollectRawSmartAttrs\<close>, with the attributes of a device as an association list.\<close>

definition parseSmartAttrsJSON :: "string \<Rightarrow> (string \<times> int) list" where
  "parseSmartAttrsJSON data =
     (case dec_smartctl data of
        None \<Rightarrow> []
      | Some out \<Rightarrow>
          let ata = (case so_Table out of None \<Rightarrow> [] | Some t \<Rightarrow> List.map_filter (\<lambda>(i, v). map_option (\<lambda>n. (n, v)) (map_of criticalATAAttrs i)) t);
              nvme = (case so_NvmeLog out of None \<Rightarrow> [] | Some (w, p, e) \<Rightarrow> [(''NVMe_Wear_Pct'', p)])
          in rev (AList.clearjunk (rev (ata @ nvme))))"

definition raw_attrs :: "drive_env \<Rightarrow> string \<Rightarrow> (string \<times> (string \<times> int) list) option" where
  "raw_attrs env device =
     (case smartctl_run (de_sudo env) (de_exec env) [''-A'', ''-j'', device] of
        None \<Rightarrow> None
      | Some data \<Rightarrow> let as = parseSmartAttrsJSON data in if as = [] then None else Some (device, as))"

definition CollectRawSmartAttrs :: "drive_env \<Rightarrow> DiskStat list \<Rightarrow> (string \<times> (string \<times> int) list) list" where
  "CollectRawSmartAttrs env disks =
     (if \<not> de_present env then []
      else List.map_filter (raw_attrs env) (rev (remdups (rev (filter (\<lambda>dev. dev \<noteq> []) (map dk_Device disks))))))"

section \<open>The check\<close>

definition full_label :: "(nat \<Rightarrow> rat \<Rightarrow> string) \<Rightarrow> DiskStat \<Rightarrow> string" where
  "full_label num d = dk_Mount d @ '' is '' @ num 1 (disk_UsedPct d) @ ''% full''"

definition failed_label :: "SmartReport \<Rightarrow> string" where
  "failed_label sr = ''SMART status FAILED for '' @ sr_Device sr @ '' ('' @ Join (sr_Findings sr) ''; '' @ '')''"

definition disk_criticals :: "(nat \<Rightarrow> rat \<Rightarrow> string) \<Rightarrow> (string \<rightharpoonup> SmartReport list) \<Rightarrow> DiskStat \<Rightarrow> string list" where
  "disk_criticals num cache d =
     (if disk_UsedPct d \<ge> usedPctCritical then [full_label num d] else []) @
     map failed_label (filter (\<lambda>sr. sr_Available sr \<and> \<not> sr_Healthy sr) (reports_of cache (dk_Device d)))"

definition diskHealth :: "(nat \<Rightarrow> rat \<Rightarrow> string) \<Rightarrow> DiskStat list \<Rightarrow> (string \<rightharpoonup> SmartReport list) \<Rightarrow> string \<times> string" where
  "diskHealth num disks cache =
     worst_of (concat (map (disk_criticals num cache) disks))
              (map (full_label num) (filter (\<lambda>d. usedPctWarning \<le> disk_UsedPct d \<and> disk_UsedPct d < usedPctCritical) disks))
              ''all disks healthy''"

definition usageSummary :: "(nat \<Rightarrow> rat \<Rightarrow> string) \<Rightarrow> DiskStat list \<Rightarrow> string \<Rightarrow> string" where
  "usageSummary num disks summary =
     summary @ concat (map (\<lambda>d. nl @ dk_Mount d @ '': '' @ num 1 (disk_UsedPct d) @ ''% used ('' @ formatBytes num (unat (dk_Free d)) @ '' free of '' @
       formatBytes num (unat (dk_Total d)) @ '')'') disks)"

record checkOutcome =
  co_disks :: "DiskStat list"
  co_smartCache :: "string \<rightharpoonup> SmartReport list"
  co_health :: string
  co_summary :: string

definition disk_reading :: "DiskStat \<Rightarrow> string \<times> rat \<times> nat \<times> nat" where
  "disk_reading d = (dk_Mount d, disk_UsedPct d, unat (disk_Used d), unat (dk_Total d))"

text \<open>
  \<open>ok1\<close>, \<open>ok2\<close> and \<open>ok3\<close> are the outcomes of saving the skill state and the two histories, \<open>ks\<close> and \<open>ks'\<close> the orders in which their maps are walked.
\<close>

definition drives_runCheck ::
    "bool \<times> bool \<times> bool \<Rightarrow> (instant \<Rightarrow> string) \<Rightarrow> (nat \<Rightarrow> rat \<Rightarrow> string) \<Rightarrow> instant \<Rightarrow> string list \<Rightarrow> (string \<times> string list) list \<Rightarrow> drive_env \<Rightarrow>
      string + DiskStat list \<Rightarrow> check_mem \<Rightarrow> ((string + checkOutcome) \<times> check_mem) option" where
  "drives_runCheck oks fmt num now ks ks' env reading m =
     (case oks of (ok1, ok2, ok3) \<Rightarrow>
      case reading of
        Inl e \<Rightarrow> Some (Inl (''disk_usage: '' @ e), put_state ok1 fmt now ''check_drives'' ''critical'' (''failed to read disk usage: '' @ e) m)
      | Inr found \<Rightarrow>
          let disks = DedupeDisks found in
          if disks = [] then
            Some (Inr \<lparr>co_disks = [], co_smartCache = Map.empty, co_health = ''ok'', co_summary = ''no local disks found''\<rparr>,
                  put_state ok1 fmt now ''check_drives'' ''ok'' ''no local disks found'' m)
          else case collectSmartReports env disks Map.empty of
              None \<Rightarrow> None
            | Some cache \<Rightarrow>
                (case RecordSamples ok2 now (map disk_reading disks) (cm_disks m) of (trends, saved) \<Rightarrow>
                 (case RecordSmartSamples ok3 now (CollectRawSmartAttrs env disks) (cm_smart m) of (smartTrends, smartSaved) \<Rightarrow>
                  (case escalate (escalate (diskHealth num disks cache) (TrendHealth num ks trends)) (SmartTrendHealth ks' smartTrends) of
                     (health, summary) \<Rightarrow>
                       Some (Inr \<lparr>co_disks = disks, co_smartCache = cache, co_health = health, co_summary = summary\<rparr>,
                             put_state ok1 fmt now ''check_drives'' health summary (m\<lparr>cm_disks := saved, cm_smart := smartSaved\<rparr>))))))"

section \<open>The report\<close>

definition topLargestCount :: nat where "topLargestCount = 3"

definition smart_lines :: "SmartReport \<Rightarrow> string" where
  "smart_lines sr =
     (if \<not> sr_Available sr then []
      else ''SMART:      '' @ (if sr_Healthy sr then ''PASSED'' else ''FAILED'') @ '' ('' @ sr_Device sr @ '')'' @ nl @
           concat (map (\<lambda>f. ''  '' @ f @ nl) (sr_Findings sr)))"

definition entry_lines :: "(nat \<Rightarrow> rat \<Rightarrow> string) \<Rightarrow> string \<Rightarrow> SizedEntry list \<Rightarrow> string" where
  "entry_lines num title es =
     (if es = [] then [] else title @ nl @ concat (map (\<lambda>e. ''  '' @ se_Path e @ '' ('' @ formatBytes num (unat (se_Size e)) @ '')'' @ nl) es))"

text \<open>\<open>stopped\<close> gives, for a mount and the number of directories opened, the error of a context found done.\<close>

definition disk_block ::
    "(nat \<Rightarrow> rat \<Rightarrow> string) \<Rightarrow> file_system \<Rightarrow> (string \<Rightarrow> nat \<Rightarrow> string option) \<Rightarrow> (string \<rightharpoonup> SmartReport list) \<Rightarrow> DiskStat \<Rightarrow> string" where
  "disk_block num fs stopped cache d =
     ''Mount:      '' @ dk_Mount d @ nl @ (if dk_FSType d \<noteq> [] then ''Filesystem: '' @ dk_FSType d @ nl else []) @
     ''Total:      '' @ formatBytes num (unat (dk_Total d)) @ nl @
     ''Used:       '' @ formatBytes num (unat (disk_Used d)) @ '' ('' @ num 1 (disk_UsedPct d) @ ''%)'' @ nl @
     ''Free:       '' @ formatBytes num (unat (dk_Free d)) @ nl @
     (if dk_Device d \<noteq> [] then concat (map smart_lines (reports_of cache (dk_Device d))) else []) @
     (case TopLargest fs (stopped (dk_Mount d)) (dk_Mount d) topLargestCount of
        Inl e \<Rightarrow> []
      | Inr (dirs, files) \<Rightarrow> entry_lines num ''Top directories:'' dirs @ entry_lines num ''Top files:'' files)"

definition buildReport ::
    "(nat \<Rightarrow> rat \<Rightarrow> string) \<Rightarrow> file_system \<Rightarrow> (string \<Rightarrow> nat \<Rightarrow> string option) \<Rightarrow> DiskStat list \<Rightarrow> (string \<rightharpoonup> SmartReport list) \<Rightarrow> string" where
  "buildReport num fs stopped disks cache = Join (map (disk_block num fs stopped cache) disks) nl"

text \<open>The tool and the pre-check, on the outcome of \<open>drives_runCheck\<close>.\<close>

definition drives_tool ::
    "(nat \<Rightarrow> rat \<Rightarrow> string) \<Rightarrow> file_system \<Rightarrow> (string \<Rightarrow> nat \<Rightarrow> string option) \<Rightarrow> string + checkOutcome \<Rightarrow> string + string" where
  "drives_tool num fs stopped r = (case r of
      Inl e \<Rightarrow> Inl e
    | Inr out \<Rightarrow> Inr (if co_disks out = [] then ''No local disks found.'' else buildReport num fs stopped (co_disks out) (co_smartCache out)))"

definition drives_PreCheck ::
    "(nat \<Rightarrow> rat \<Rightarrow> string) \<Rightarrow> file_system \<Rightarrow> (string \<Rightarrow> nat \<Rightarrow> string option) \<Rightarrow> string + checkOutcome \<Rightarrow> pre_result" where
  "drives_PreCheck num fs stopped r = (case r of
      Inl e \<Rightarrow> (True, [], Some e)
    | Inr out \<Rightarrow>
        if co_health out = ''ok'' then (False, usageSummary num (co_disks out) (co_summary out), None)
        else (True, buildReport num fs stopped (co_disks out) (co_smartCache out), None))"


section \<open>Which physical disks a device leads to\<close>

definition backing :: "(string \<Rightarrow> string list option) \<Rightarrow> (string \<times> string) set" where
  "backing entries = {(d, s). partitionRe d = None \<and> s \<in> set (dmSlaves entries d)}"

text \<open>The disks named by the devices reachable from a list of devices.\<close>

definition disks_behind :: "(string \<Rightarrow> string list option) \<Rightarrow> string set \<Rightarrow> string set" where
  "disks_behind entries ds = {disk. \<exists>d \<in> (backing entries)\<^sup>* `` ds. partitionRe d = Some disk}"

text \<open>
  What the search keeps: all devices to come are in the finite set \<open>U\<close>, the slaves of a seen device are seen or to come, and the disks found are those
  of the seen devices.
\<close>

definition visit_inv :: "(string \<Rightarrow> string list option) \<Rightarrow> string set \<Rightarrow> string list \<Rightarrow> string list \<Rightarrow> string list \<Rightarrow> bool" where
  "visit_inv entries U todo visited results \<longleftrightarrow>
     set todo \<union> set visited \<subseteq> U \<and> backing entries `` set visited \<subseteq> set visited \<union> set todo
     \<and> set results = {disk. \<exists>d \<in> set visited. partitionRe d = Some disk} \<and> distinct results"

lemma visit_all_returns:
  assumes "finite U" "backing entries `` U \<subseteq> U" "visit_inv entries U todo visited results"
  shows "\<exists>visited' rs. visit_all entries todo visited results = Some rs \<and> visit_inv entries U [] visited' rs \<and> set todo \<union> set visited \<subseteq> set visited'"
  using assms(3)
proof (induction "(U - set visited, length todo)" arbitrary: todo visited results rule: wf_induct_rule [OF wf_lex_prod [OF wf_finite_psubset wf_less_than]])
  case (1 todo visited results)
  note inv = "1.prems"
  note IH = "1.hyps"
  show ?case
  proof (cases todo)
    case Nil
    then show ?thesis using inv by (auto simp: visit_all.simps [of entries "[]"])
  next
    case (Cons dev rest)
    consider (seen) "dev \<in> set visited" | (disk) disk where "dev \<notin> set visited" "partitionRe dev = Some disk" | (mapped) "dev \<notin> set visited" "partitionRe dev = None"
      by (cases "partitionRe dev") auto
    then show ?thesis
    proof cases
      case seen
      have "visit_inv entries U rest visited results" using inv seen by (auto simp: visit_inv_def Cons)
      from IH [OF _ this] seen show ?thesis by (auto simp: Cons visit_all.simps [of entries "dev # rest"])
    next
      case disk
      let ?rs = "if disk \<in> set results then results else results @ [disk]"
      have b: "backing entries `` {dev} = {}" using disk by (auto simp: backing_def)
      have "visit_inv entries U rest (dev # visited) ?rs"
        using inv disk b by (auto simp: visit_inv_def Cons)
      moreover have "(U - set (dev # visited), U - set visited) \<in> finite_psubset" using inv assms(1) disk by (auto simp: visit_inv_def Cons finite_psubset_def)
      ultimately show ?thesis using IH [of "dev # visited" rest ?rs] disk by (auto simp: Cons visit_all.simps [of entries "dev # rest"])
    next
      case mapped
      have b: "backing entries `` {dev} = set (dmSlaves entries dev)" using mapped by (auto simp: backing_def)
      have "set (dmSlaves entries dev) \<subseteq> U" using assms(2) inv b by (auto simp: visit_inv_def Cons)
      then have "visit_inv entries U (dmSlaves entries dev @ rest) (dev # visited) results"
        using inv mapped b by (auto simp: visit_inv_def Cons)
      moreover have "(U - set (dev # visited), U - set visited) \<in> finite_psubset" using inv assms(1) mapped by (auto simp: visit_inv_def Cons finite_psubset_def)
      ultimately show ?thesis using IH [of "dev # visited" "dmSlaves entries dev @ rest" results] mapped
        by (auto simp: Cons visit_all.simps [of entries "dev # rest"])
    qed
  qed
qed

lemma closed_rtrancl: "r `` X \<subseteq> X \<Longrightarrow> r\<^sup>* `` X = X"
  by (simp add: Image_closed_trancl)

lemma parentDevices_returns:
  assumes "finite ((backing entries)\<^sup>* `` {device})"
  shows "\<exists>rs. parentDevices entries device = Some rs \<and> set rs = disks_behind entries {device} \<and> distinct rs"
proof -
  let ?U = "(backing entries)\<^sup>* `` {device}"
  have "backing entries `` ?U \<subseteq> ?U" by (auto intro: rtrancl_into_rtrancl)
  moreover have "visit_inv entries ?U [device] [] []" by (simp add: visit_inv_def)
  ultimately obtain visited rs where r: "visit_all entries [device] [] [] = Some rs" "visit_inv entries ?U [] visited rs" "device \<in> set visited"
    using visit_all_returns [OF assms, of entries "[device]" "[]" "[]"] by auto
  then have "backing entries `` set visited \<subseteq> set visited" by (simp add: visit_inv_def)
  then have "(backing entries)\<^sup>* `` set visited = set visited" by (rule closed_rtrancl)
  then have "?U \<subseteq> set visited" using r(3) by auto
  then have "set visited = ?U" using r(2) by (auto simp: visit_inv_def)
  then show ?thesis using r(1,2) by (auto simp: parentDevices_def visit_inv_def disks_behind_def)
qed


section \<open>Collapsed mounts\<close>

text \<open>Free space that differs by less than \<open>k\<close> percent of an equal total.\<close>

definition near :: "nat \<Rightarrow> DiskStat \<Rightarrow> DiskStat \<Rightarrow> bool" where
  "near k a b \<longleftrightarrow> dk_Total a = dk_Total b \<and> (a = b \<or> 100 * \<bar>int (unat (dk_Free a)) - int (unat (dk_Free b))\<bar> < int k * int (unat (dk_Total a)))"

lemma near_refl [simp]: "near k d d"
  by (simp add: near_def)

lemma near_sym: "near k a b \<Longrightarrow> near k b a"
  by (auto simp: near_def abs_minus_commute)

lemma near_trans: "near j a b \<Longrightarrow> near k b c \<Longrightarrow> near (j + k) a c"
proof (cases "a = b \<or> b = c")
  case False
  assume "near j a b" "near k b c"
  with False show ?thesis
    by (auto simp: near_def algebra_simps abs_if split: if_splits)
next
  case True
  have "near i x y \<Longrightarrow> i \<le> l \<Longrightarrow> near l x y" for i l x y
    unfolding near_def using mult_right_mono [of "int i" "int l" "int (unat (dk_Total x))"] by fastforce
  moreover assume "near j a b" "near k b c"
  ultimately show ?thesis using True by (metis le_add1 le_add2)
qed

lemma unat_guarded: "unat (if b > a then 0 else a - b) = unat a - unat b" for a b :: "64 word"
  by (auto simp: word_less_nat_alt word_le_nat_alt unat_sub not_less)

lemma unat_distance: "unat (if a > b then a - b else b - a) = (unat a - unat b) + (unat b - unat a)" for a b :: "64 word"
  by (auto simp: word_less_nat_alt word_le_nat_alt unat_sub not_less)

lemma int_scaled: "100 * m < n \<Longrightarrow> 100 * int m < int n"
  by presburger

lemma int_monus: "int (m - n) = max 0 (int m - int n)" "int ((m - n) + (n - m)) = \<bar>int m - int n\<bar>"
  by arith+

lemma sameStorage_near: "sameStorage a b \<Longrightarrow> near 1 a b"
proof -
  assume s: "sameStorage a b"
  let ?d = "if dk_Free a > dk_Free b then dk_Free a - dk_Free b else dk_Free b - dk_Free a"
  have t: "dk_Total a \<noteq> 0" "dk_Total a = dk_Total b" using s by (auto simp: sameStorage_def)
  then have pos: "(0 :: rat) < of_nat (unat (dk_Total a))" by (metis of_nat_0_less_iff unat_gt_0)
  have "of_nat (unat ?d) / of_nat (unat (dk_Total a)) < (1 / 100 :: rat)" using s unfolding sameStorage_def dedupeFreeTolerance_def by (rule conjunct2)
  then have "(of_nat (100 * unat ?d) :: rat) < of_nat (unat (dk_Total a))" unfolding pos_divide_less_eq [OF pos] of_nat_mult by linarith
  then have "100 * unat ?d < unat (dk_Total a)" by (simp only: of_nat_less_iff)
  then have "100 * int (unat ?d) < int (unat (dk_Total a))" by (rule int_scaled)
  then show ?thesis unfolding unat_distance int_monus near_def using t(2) by simp
qed

lemma used_distance: "100 * \<bar>f - g\<bar> < K \<Longrightarrow> 100 * max 0 (t - f) \<le> 100 * max 0 (t - g) + K" for f g t K :: int
  by (auto simp: max_def abs_if split: if_splits)

lemma near_pct:
  assumes "near k a b"
  shows "disk_UsedPct a \<le> disk_UsedPct b + of_nat k"
proof (cases "a = b \<or> dk_Total a = 0")
  case True
  then show ?thesis using assms by (auto simp: near_def disk_UsedPct_def)
next
  case False
  define T where "T = unat (dk_Total a)"
  have T: "0 < T" "unat (dk_Total b) = T" "dk_Total b \<noteq> 0" using False assms by (auto simp: T_def near_def unat_gt_0)
  have u: "int (unat (disk_Used d)) = max 0 (int (unat (dk_Total d)) - int (unat (dk_Free d)))" for d
    unfolding disk_Used_def unat_guarded by (rule int_monus)
  have "100 * int (unat (disk_Used a)) \<le> 100 * int (unat (disk_Used b)) + int k * int T"
    unfolding u T(2) T_def [symmetric] using assms False by (intro used_distance) (auto simp only: near_def T_def)
  then have "(100 * of_nat (unat (disk_Used a)) :: rat) \<le> 100 * of_nat (unat (disk_Used b)) + of_nat k * of_nat T"
    by (metis (mono_tags, lifting) of_int_add of_int_le_iff of_int_mult of_int_numeral of_int_of_nat_eq)
  then have "100 * of_nat (unat (disk_Used a)) / (of_nat T :: rat) \<le> (100 * of_nat (unat (disk_Used b)) + of_nat k * of_nat T) / of_nat T"
    using T(1) by (intro divide_right_mono) simp_all
  then show ?thesis using T False by (simp add: disk_UsedPct_def T_def [symmetric] add_divide_distrib mult.commute)
qed

lemma first_index_Some: "first_index P xs = Some i \<Longrightarrow> i < length xs \<and> P (xs ! i)"
  by (induction xs arbitrary: i) (auto split: if_splits)

text \<open>Every mount is represented by one at most one percent away, or by a preferred one at most two percent away.\<close>

definition represented :: "DiskStat \<Rightarrow> DiskStat list \<Rightarrow> bool" where
  "represented d out \<longleftrightarrow> (\<exists>o' \<in> set out. near 1 d o' \<or> isPreferredMount (dk_Mount o') \<and> near 2 d o')"

lemma represented_step: "represented e out \<Longrightarrow> represented e (dedupe_step d out)"
proof (cases "dk_FSType d = ''devfs'' \<or> first_index (\<lambda>o'. sameStorage o' d) out = None")
  case True
  moreover assume "represented e out"
  ultimately show ?thesis by (auto simp: dedupe_step_def represented_def)
next
  case False
  then obtain i where i: "first_index (\<lambda>o'. sameStorage o' d) out = Some i" "i < length out" "near 1 (out ! i) d"
    using first_index_Some sameStorage_near by blast
  assume "represented e out"
  then obtain o' where o': "o' \<in> set out" "near 1 e o' \<or> isPreferredMount (dk_Mount o') \<and> near 2 e o'" by (auto simp: represented_def)
  show ?thesis
  proof (cases "isPreferredMount (dk_Mount d) \<and> \<not> isPreferredMount (dk_Mount (out ! i))")
    case True
    then have st: "dedupe_step d out = out[i := d]" using False i by (simp add: dedupe_step_def)
    have "d \<in> set (out[i := d])" using i(2) by (rule set_update_memI)
    moreover have "near 2 e d" if "o' = out ! i" using o'(2) that True near_trans [of 1 e "out ! i" 1 d] i(3) by (simp add: numeral_2_eq_2)
    moreover have "o' \<in> set (out[i := d])" if "o' \<noteq> out ! i"
      using o'(1) that by (metis in_set_conv_nth length_list_update nth_list_update_neq)
    ultimately show ?thesis using o'(2) True unfolding st represented_def by blast
  next
    case nochange: False
    then have "dedupe_step d out = out" using False i by (auto simp: dedupe_step_def)
    then show ?thesis using \<open>represented e out\<close> by simp
  qed
qed

lemma represented_new: "dk_FSType d \<noteq> ''devfs'' \<Longrightarrow> represented d (dedupe_step d out)"
proof (cases "first_index (\<lambda>o'. sameStorage o' d) out")
  case None
  assume "dk_FSType d \<noteq> ''devfs''"
  with None show ?thesis by (auto simp: dedupe_step_def represented_def intro: bexI [of _ d])
next
  case (Some i)
  then have i: "i < length out" "near 1 d (out ! i)" using first_index_Some sameStorage_near near_sym by blast+
  assume "dk_FSType d \<noteq> ''devfs''"
  then have "dedupe_step d out = (if isPreferredMount (dk_Mount d) \<and> \<not> isPreferredMount (dk_Mount (out ! i)) then out[i := d] else out)"
    using Some by (simp add: dedupe_step_def)
  then show ?thesis using i set_update_memI [OF i(1), of d] by (auto simp: represented_def intro: bexI [of _ d] bexI [of _ "out ! i"])
qed

lemma represented_all: "d \<in> set disks \<Longrightarrow> dk_FSType d \<noteq> ''devfs'' \<Longrightarrow> represented d (fold dedupe_step disks out)"
proof (induction disks arbitrary: out)
  case (Cons e disks)
  have keep: "represented d out' \<Longrightarrow> represented d (fold dedupe_step disks out')" for out'
    by (induction disks arbitrary: out') (auto intro: represented_step)
  show ?case
  proof (cases "d = e")
    case True
    then show ?thesis using keep represented_new Cons.prems(2) by simp
  qed (use Cons in auto)
qed simp

lemma dedupe_near: "d \<in> set disks \<Longrightarrow> dk_FSType d \<noteq> ''devfs'' \<Longrightarrow> \<exists>o' \<in> set (DedupeDisks disks). disk_UsedPct d \<le> disk_UsedPct o' + 2"
proof -
  assume "d \<in> set disks" "dk_FSType d \<noteq> ''devfs''"
  then obtain o' where "o' \<in> set (DedupeDisks disks)" "near 1 d o' \<or> near 2 d o'"
    using represented_all [of d disks "[]"] by (auto simp: DedupeDisks_def represented_def)
  moreover from this(2) have "disk_UsedPct d \<le> disk_UsedPct o' + 2" using near_pct [of 1 d o'] near_pct [of 2 d o'] by auto
  ultimately show ?thesis by blast
qed


section \<open>Claims\<close>

lemma worst_of_critical: "fst (worst_of cs ws ok) = ''critical'' \<longleftrightarrow> cs \<noteq> []"
  and worst_of_ok: "fst (worst_of cs ws ok) = ''ok'' \<longleftrightarrow> cs = [] \<and> ws = []"
  by (auto simp: worst_of_def)

lemma diskHealth_full:
  assumes "d \<in> set disks"
  shows "disk_UsedPct d \<ge> usedPctCritical \<Longrightarrow> fst (diskHealth num disks cache) = ''critical''"
    and "disk_UsedPct d \<ge> usedPctWarning \<Longrightarrow> fst (diskHealth num disks cache) \<noteq> ''ok''"
proof -
  assume full: "disk_UsedPct d \<ge> usedPctCritical"
  then have "full_label num d \<in> set (disk_criticals num cache d)" by (simp add: disk_criticals_def)
  then have "disk_criticals num cache d \<noteq> []" by auto
  then show "fst (diskHealth num disks cache) = ''critical''" using assms by (auto simp: diskHealth_def worst_of_critical)
next
  assume "disk_UsedPct d \<ge> usedPctWarning"
  then have "full_label num d \<in> set (disk_criticals num cache d)
      \<or> d \<in> set (filter (\<lambda>d. usedPctWarning \<le> disk_UsedPct d \<and> disk_UsedPct d < usedPctCritical) disks)"
    using assms by (auto simp: disk_criticals_def)
  then show "fst (diskHealth num disks cache) \<noteq> ''ok''" using assms by (auto simp: diskHealth_def worst_of_ok filter_empty_conv)
qed

text \<open>The outcome of a check that read the disks.\<close>

lemma drives_outcome:
  assumes "drives_runCheck (True, ok2, ok3) fmt num now ks ks' env (Inr found) m = Some (Inr out, m')"
  shows "co_disks out = DedupeDisks found" "recorded_health ''check_drives'' m' = Some (as_json (co_health out))"
    and "DedupeDisks found \<noteq> [] \<Longrightarrow> \<exists>t s. co_health out = fst (escalate (escalate (diskHealth num (DedupeDisks found) (co_smartCache out)) t) s)"
proof -
  have "co_disks out = DedupeDisks found \<and> recorded_health ''check_drives'' m' = Some (as_json (co_health out))
      \<and> (DedupeDisks found \<noteq> [] \<longrightarrow> (\<exists>t s. co_health out = fst (escalate (escalate (diskHealth num (DedupeDisks found) (co_smartCache out)) t) s)))"
  proof (cases "DedupeDisks found = []")
    case True
    then show ?thesis using assms by (auto simp: drives_runCheck_def)
  next
    case False
    then obtain cache where c: "collectSmartReports env (DedupeDisks found) Map.empty = Some cache"
      using assms by (auto simp: drives_runCheck_def Let_def split: option.splits)
    obtain tr sv where tr: "RecordSamples ok2 now (map disk_reading (DedupeDisks found)) (cm_disks m) = (tr, sv)" by (metis prod.exhaust)
    obtain st sv' where st: "RecordSmartSamples ok3 now (CollectRawSmartAttrs env (DedupeDisks found)) (cm_smart m) = (st, sv')" by (metis prod.exhaust)
    obtain h sm where h: "escalate (escalate (diskHealth num (DedupeDisks found) cache) (TrendHealth num ks tr)) (SmartTrendHealth ks' st) = (h, sm)"
      by (metis prod.exhaust)
    have "co_disks out = DedupeDisks found" "co_smartCache out = cache" "co_health out = h" "recorded_health ''check_drives'' m' = Some (as_json h)"
      using assms False by (auto simp: drives_runCheck_def Let_def c tr st h)
    then show ?thesis using h by (metis fst_conv)
  qed
  then show "co_disks out = DedupeDisks found" "recorded_health ''check_drives'' m' = Some (as_json (co_health out))"
    "DedupeDisks found \<noteq> [] \<Longrightarrow> \<exists>t s. co_health out = fst (escalate (escalate (diskHealth num (DedupeDisks found) (co_smartCache out)) t) s)"
    by blast+
qed

lemma reports_return:
  assumes "\<forall>x \<in> set ds. finite ((backing (de_entries env))\<^sup>* `` {dk_Device x})"
  shows "\<exists>cache'. collectSmartReports env ds cache = Some cache'"
  using assms
proof (induction ds arbitrary: cache)
  case (Cons d ds)
  obtain rs where "parentDevices (de_entries env) (dk_Device d) = Some rs" using parentDevices_returns Cons.prems by (meson list.set_intros(1))
  then show ?case using Cons by (auto simp: CheckSmart_def)
qed simp

lemma dedupe_step_subset: "set (dedupe_step d out) \<subseteq> insert d (set out)"
  by (auto simp: dedupe_step_def split: option.splits if_splits dest: subsetD [OF set_update_subset_insert])

lemma dedupe_subset: "set (fold dedupe_step ds out) \<subseteq> set ds \<union> set out"
  using dedupe_step_subset by (induction ds arbitrary: out) fastforce+

lemma drives_return:
  assumes "\<forall>x \<in> set found. finite ((backing (de_entries env))\<^sup>* `` {dk_Device x})"
  shows "\<exists>out m'. drives_runCheck oks fmt num now ks ks' env (Inr found) m = Some (Inr out, m')"
proof -
  have "set (DedupeDisks found) \<subseteq> set found" using dedupe_subset [of found "[]"] by (simp add: DedupeDisks_def)
  then obtain cache where "collectSmartReports env (DedupeDisks found) Map.empty = Some cache"
    using reports_return [of "DedupeDisks found" env Map.empty] assms by blast
  then show ?thesis by (simp add: drives_runCheck_def Let_def split: prod.split)
qed

lemma escalate_ok: "fst (escalate a b) = ''ok'' \<Longrightarrow> severityOf (fst a) = 0"
  using escalate_severity [of a b] by (simp add: severityOf_def)

text \<open>
  C31: Collapsing mounts does not hide a full disk: when finitely many devices back each mount, the check returns, and whatever the other mounts, a mount
  (not of type devfs) at 92 percent or more makes it critical, and as long as a scheduled check does not ask for the model, every such mount is below
  82 percent. The health is also what is recorded.
\<close>

theorem full_disk_reported:
  assumes "\<forall>x \<in> set found. finite ((backing (de_entries env))\<^sup>* `` {dk_Device x})"
    and "d \<in> set found" "dk_FSType d \<noteq> ''devfs''"
  shows "\<exists>out m'. drives_runCheck (True, ok2, ok3) fmt num now ks ks' env (Inr found) m = Some (Inr out, m')
    \<and> recorded_health ''check_drives'' m' = Some (as_json (co_health out))
    \<and> (92 \<le> disk_UsedPct d \<longrightarrow> co_health out = ''critical'')
    \<and> (\<not> fst (drives_PreCheck num fs stopped (Inr out)) \<longrightarrow> disk_UsedPct d < 82)"
proof -
  obtain out m' where run: "drives_runCheck (True, ok2, ok3) fmt num now ks ks' env (Inr found) m = Some (Inr out, m')"
    using drives_return [OF assms(1)] by blast
  obtain o' where o': "o' \<in> set (DedupeDisks found)" "disk_UsedPct d \<le> disk_UsedPct o' + 2" using dedupe_near assms(2,3) by blast
  then obtain t s where h: "co_health out = fst (escalate (escalate (diskHealth num (DedupeDisks found) (co_smartCache out)) t) s)"
    using drives_outcome(3) [OF run] by (metis empty_iff empty_set)
  have "co_health out = ''critical''" if "92 \<le> disk_UsedPct d"
    unfolding h using that o' diskHealth_full(1) [OF o'(1)] by (intro escalate_critical) (simp add: usedPctCritical_def)
  moreover have "disk_UsedPct d < 82" if "co_health out = ''ok''"
  proof (rule ccontr)
    assume "\<not> ?thesis"
    then have w: "disk_UsedPct o' \<ge> usedPctWarning" using o'(2) by (simp add: usedPctWarning_def)
    let ?h = "diskHealth num (DedupeDisks found) (co_smartCache out)"
    have "severityOf (fst (escalate ?h t)) = 0" using that h escalate_ok by metis
    then have "severityOf (fst ?h) = 0" using escalate_severity [of ?h t] by simp
    moreover have "fst ?h \<in> {''ok'', ''warning'', ''critical''}" by (simp add: diskHealth_def worst_of_def)
    ultimately show False using diskHealth_full(2) [OF o'(1) w] by (auto simp: severityOf_def)
  qed
  ultimately show ?thesis using run drives_outcome(2) [OF run] by (auto simp: drives_PreCheck_def)
qed

text \<open>
  C35: Whenever only finitely many devices back a device, the search for its physical disks ends, and returns without duplicates exactly the disks
  named by the devices reachable from it through mapped devices.
\<close>

theorem physical_disks_found:
  assumes "finite ((backing entries)\<^sup>* `` {device})"
  shows "\<exists>rs. parentDevices entries device = Some rs \<and> distinct rs
    \<and> set rs = {disk. \<exists>d. (device, d) \<in> (backing entries)\<^sup>* \<and> partitionRe d = Some disk}"
  using parentDevices_returns [OF assms] by (auto simp: disks_behind_def)

text \<open>
  A scheduled check that does not ask for the model has recorded the state \<open>ok\<close> for its skill, for each of the processor, memory, network,
  temperature and disk checks; and a check that fails asks for the model.
\<close>

theorem quiet_checks_are_ok:
  "(case cpu_PreCheck True fmt num now cpu m of ((needs, report, err), m') \<Rightarrow>
      (\<not> needs \<longrightarrow> recorded_health ''analyze_cpu_utilization'' m' = Some ''ok'') \<and> (err \<noteq> None \<longrightarrow> needs))
   \<and> (case memory_PreCheck True ok2 fmt num now mem m of ((needs, report, err), m') \<Rightarrow>
      (\<not> needs \<longrightarrow> recorded_health ''analyze_memory_utilization'' m' = Some ''ok'') \<and> (err \<noteq> None \<longrightarrow> needs))
   \<and> (case network_PreCheck True ok2 fmt num now s1 stopped s2 m of ((needs, report, err), m') \<Rightarrow>
      (\<not> needs \<longrightarrow> recorded_health ''analyze_network_utilization'' m' = Some ''ok'') \<and> (err \<noteq> None \<longrightarrow> needs))
   \<and> (case temp_PreCheck True ok2 fmt num now now2 ks temps m of ((needs, report, err), m') \<Rightarrow>
      (\<not> needs \<longrightarrow> recorded_health ''analyze_system_temperature'' m' = Some ''ok'') \<and> (err \<noteq> None \<longrightarrow> needs))
   \<and> (case drives_runCheck (True, ok2, ok3) fmt num now ks ks' env disks m of
        None \<Rightarrow> True
      | Some (r, m') \<Rightarrow> (case drives_PreCheck num fs halted r of (needs, report, err) \<Rightarrow>
          (\<not> needs \<longrightarrow> recorded_health ''check_drives'' m' = Some ''ok'') \<and> (err \<noteq> None \<longrightarrow> needs)))"
proof (intro conjI, goal_cases)
  case 1
  show ?case by (auto simp: cpu_PreCheck_def cpu_runCheck_def cpuHealth_def NeedsInvestigation_def pct_health_def usedPctWarning_def usedPctCritical_def split: sum.split)
next
  case 2
  show ?case by (auto simp: memory_PreCheck_def memory_runCheck_def memoryHealth_def Let_def pct_health_def usedPctWarning_def usedPctCritical_def split: sum.split prod.split)
next
  case 3
  show ?case by (auto simp: network_PreCheck_def sampleRates_def Let_def split: sum.split prod.split option.split)
next
  case 4
  show ?case by (auto simp: temp_PreCheck_def temp_runCheck_def Let_def split: sum.split prod.split list.split)
next
  case 5
  show ?case by (auto simp: drives_PreCheck_def drives_runCheck_def Let_def split: sum.split prod.split option.split)
qed


subsection \<open>Witnesses\<close>

definition example_disks :: "DiskStat list" where
  "example_disks =
     [\<lparr>dk_Mount = ''/boot'', dk_Device = ''/dev/sda1'', dk_Total = 1000, dk_Free = 60, dk_FSType = ''ext4''\<rparr>,
      \<lparr>dk_Mount = ''/'', dk_Device = ''/dev/sda2'', dk_Total = 1000, dk_Free = 65, dk_FSType = ''ext4''\<rparr>]"

definition example_entries :: "string \<Rightarrow> string list option" where
  "example_entries d = (if d = ''/dev/mapper/vg-root'' then Some [''sda3'', ''dm-1''] else if d = ''/dev/dm-1'' then Some [''nvme0n1p2'', ''sda5''] else None)"

definition example_env :: drive_env where
  "example_env = \<lparr>de_entries = example_entries, de_present = False, de_sudo = False, de_exec = (\<lambda>c as. ([], True)), de_hex = (\<lambda>n. [])\<rparr>"

definition example_run :: "DiskStat list \<Rightarrow> ((string + checkOutcome) \<times> check_mem) option" where
  "example_run ds = drives_runCheck (True, True, True) (\<lambda>t. []) (\<lambda>d r. []) 0 [] [] example_env (Inr ds) example_checks"

text \<open>Two mounts of one size collapse to the preferred one.\<close>

lemma backing_finite:
  assumes "list_all (\<lambda>d. partitionRe d \<noteq> None \<or> list_all (\<lambda>s. s \<in> set xs) (dmSlaves entries d)) xs" "device \<in> set xs"
  shows "finite ((backing entries)\<^sup>* `` {device})"
proof (rule finite_subset)
  have "backing entries `` set xs \<subseteq> set xs" using assms(1) by (auto simp: backing_def list_all_iff)
  then show "(backing entries)\<^sup>* `` {device} \<subseteq> set xs" using assms(2) closed_rtrancl [of "backing entries" "set xs"] by auto
qed simp

theorem full_disk_reported_witness:
  "\<exists>out m'. example_run example_disks = Some (Inr out, m') \<and> map dk_Mount (co_disks out) = [''/''] \<and> co_health out = ''critical''
    \<and> recorded_health ''check_drives'' m' = Some ''critical''"
proof -
  have "list_all (\<lambda>d. partitionRe d \<noteq> None \<or> list_all (\<lambda>s. s \<in> set [''/dev/sda1'', ''/dev/sda2'']) (dmSlaves example_entries d)) [''/dev/sda1'', ''/dev/sda2'']"
    by code_simp
  note f = backing_finite [OF this]
  have "\<forall>x \<in> set example_disks. finite ((backing (de_entries example_env))\<^sup>* `` {dk_Device x})"
    using f [of "''/dev/sda1''"] f [of "''/dev/sda2''"] by (simp add: example_disks_def example_env_def)
  note * = full_disk_reported [OF this, where ?ok2.0 = True and ?ok3.0 = True and fmt = "\<lambda>t. []" and num = "\<lambda>d r. []" and now = 0 and ks = "[]" and ks' = "[]"
      and m = example_checks and fs = example_fs and stopped = "\<lambda>p k. None"]
  let ?d = "\<lparr>dk_Mount = ''/boot'', dk_Device = ''/dev/sda1'', dk_Total = 1000, dk_Free = 60, dk_FSType = ''ext4''\<rparr>"
  have "?d \<in> set example_disks" "dk_FSType ?d \<noteq> ''devfs''" by (simp_all add: example_disks_def)
  from * [OF this] obtain out m' where o: "example_run example_disks = Some (Inr out, m')"
      "recorded_health ''check_drives'' m' = Some (as_json (co_health out))" "92 \<le> disk_UsedPct ?d \<longrightarrow> co_health out = ''critical''"
    unfolding example_run_def by blast
  have "map_option (\<lambda>(r, m'). case r of Inl e \<Rightarrow> [] | Inr out \<Rightarrow> map dk_Mount (co_disks out)) (example_run example_disks) = Some [''/'']" by code_simp
  then have "map dk_Mount (co_disks out) = [''/'']" by (simp add: o(1))
  moreover have "92 \<le> disk_UsedPct ?d" by code_simp
  ultimately show ?thesis using o by auto
qed

theorem physical_disks_found_witness:
  "parentDevices example_entries ''/dev/mapper/vg-root'' = Some [''/dev/sda'', ''/dev/nvme0n1'']
    \<and> {disk. \<exists>d. (''/dev/mapper/vg-root'', d) \<in> (backing example_entries)\<^sup>* \<and> partitionRe d = Some disk} = {''/dev/sda'', ''/dev/nvme0n1''}"
proof -
  let ?xs = "[''/dev/mapper/vg-root'', ''/dev/sda3'', ''/dev/dm-1'', ''/dev/nvme0n1p2'', ''/dev/sda5'']"
  have "list_all (\<lambda>d. partitionRe d \<noteq> None \<or> list_all (\<lambda>s. s \<in> set ?xs) (dmSlaves example_entries d)) ?xs" by code_simp
  then have f: "finite ((backing example_entries)\<^sup>* `` {''/dev/mapper/vg-root''})" by (rule backing_finite) simp
  have r: "parentDevices example_entries ''/dev/mapper/vg-root'' = Some [''/dev/sda'', ''/dev/nvme0n1'']" by code_simp
  from physical_disks_found [OF f] obtain rs where "parentDevices example_entries ''/dev/mapper/vg-root'' = Some rs"
      "set rs = {disk. \<exists>d. (''/dev/mapper/vg-root'', d) \<in> (backing example_entries)\<^sup>* \<and> partitionRe d = Some disk}" by blast
  with r show ?thesis by (intro conjI) (simp_all only: option.inject, metis list.set(1) list.set(2))
qed

definition example_cpu :: CPUStat where
  "example_cpu = \<lparr>cs_UsedPct = 10, cs_NumCPU = 4, cs_LoadAvg1 = 1, cs_LoadAvg5 = 1, cs_LoadAvg15 = 1\<rparr>"

theorem quiet_checks_are_ok_witness:
  "\<not> fst (fst (cpu_PreCheck True (\<lambda>t. []) (\<lambda>d r. []) 0 (Inr example_cpu) example_checks))
    \<and> recorded_health ''analyze_cpu_utilization'' (snd (cpu_PreCheck True (\<lambda>t. []) (\<lambda>d r. []) 0 (Inr example_cpu) example_checks)) = Some ''ok''"
proof -
  have "\<not> fst (fst (cpu_PreCheck True (\<lambda>t. []) (\<lambda>d r. []) 0 (Inr example_cpu) example_checks))" by code_simp
  with quiet_checks_are_ok [THEN conjunct1, of "\<lambda>t. []" "\<lambda>d r. []" 0 "Inr example_cpu" example_checks] show ?thesis by (simp add: split_beta)
qed

end
