(* ===== verification/Nfs.thy ===== *)
theory Nfs
  imports Host_Checks
begin

text \<open>
  The check of NFS mounts, package \<open>check_nfs\<close> on Linux: the mounts, their statistics in \<open>/proc/self/mountstats\<close>, the processes that wait for them, the
  assessment of a mount and the emergency unmount of one with too many pending operations. The files of the host are arguments, as lines where a
  scanner reads them; \<open>um\<close> is the error of an unmount command, and the commands run are part of the result. \<open>math.Round\<close> is rounding half away from zero.
\<close>

section \<open>Statistics\<close>

definition pendingOpsWarning :: int where "pendingOpsWarning = 500"
definition pendingOpsCritical :: int where "pendingOpsCritical = 2000"
definition dStateProcWarning :: int where "dStateProcWarning = 1"
definition dStateProcCritical :: int where "dStateProcCritical = 5"
definition getattrMsWarning :: rat where "getattrMsWarning = 1000"
definition getattrMsCritical :: rat where "getattrMsCritical = 5000"

record NFSMountStats =
  nf_Mount :: string
  nf_Remote :: string
  nf_PendingOps :: int
  nf_GETATTRMs :: rat
  nf_DStateProcs :: int

record RawNFSStats =
  rw_PendingOps :: int
  rw_GETATTRMs :: rat
  rw_GETATTROps :: int

text \<open>\<open>strconv.ParseInt\<close> with its error ignored: zero for a syntax error, the nearest value for one of range.\<close>

definition ParseInt_value :: "string \<Rightarrow> int" where
  "ParseInt_value s =
     (case parse_int64 s of
        Some n \<Rightarrow> n
      | None \<Rightarrow>
          let t = (if s \<noteq> [] \<and> hd s \<in> {CHR ''+'', CHR ''-''} then drop 1 s else s) in
          if t = [] \<or> \<not> list_all is_digit t then 0
          else if hd s = CHR ''-'' then - (2 ^ 63) else 2 ^ 63 - 1)"

definition parsePendingOps :: "string \<Rightarrow> string list \<Rightarrow> int" where
  "parsePendingOps proto vals =
     (if proto = ''tcp'' \<or> proto = ''tcp6'' then
        (if length vals \<ge> 13 then ParseInt_value (vals ! 12) else if length vals \<ge> 9 then ParseInt_value (vals ! 8) else 0)
      else 0)"

definition round_tenths :: "rat \<Rightarrow> rat" where
  "round_tenths x = of_int (if x * 10 \<ge> 0 then \<lfloor>x * 10 + 1 / 2\<rfloor> else - \<lfloor>1 / 2 - x * 10\<rfloor>) / 10"

text \<open>The loop over \<open>parts\<close> of a device line, on the rest of the list, and the search for the type after the mount.\<close>

fun fstype_of :: "string list \<Rightarrow> string" where
  "fstype_of (a # b # ps) = (if a = ''fstype'' then b else fstype_of (b # ps))"
| "fstype_of _ = []"

fun device_line :: "string list \<Rightarrow> (string \<times> bool) option" where
  "device_line (a # b # c # d # e # ps) =
     (if a = ''mounted'' \<and> b = ''on'' \<and> d = ''with'' then Some (c, HasPrefix (fstype_of (d # e # ps)) ''nfs'')
      else device_line (b # c # d # e # ps))"
| "device_line _ = None"

record mount_scan =
  mc_result :: "string \<rightharpoonup> RawNFSStats"
  mc_mount :: string
  mc_inNFS :: bool
  mc_current :: RawNFSStats

definition no_stats :: RawNFSStats where "no_stats = \<lparr>rw_PendingOps = 0, rw_GETATTRMs = 0, rw_GETATTROps = 0\<rparr>"

definition flush :: "mount_scan \<Rightarrow> mount_scan" where
  "flush st = (if mc_mount st \<noteq> [] \<and> mc_inNFS st then st\<lparr>mc_result := (mc_result st)(mc_mount st \<mapsto> mc_current st)\<rparr> else st)"

definition getattr_line :: "(string \<Rightarrow> rat) \<Rightarrow> string list \<Rightarrow> RawNFSStats \<Rightarrow> RawNFSStats" where
  "getattr_line pf fs cur =
     (if length fs \<ge> 8 \<and> ParseInt_value (fs ! 1) > 0
      then cur\<lparr>rw_GETATTROps := ParseInt_value (fs ! 1), rw_GETATTRMs := round_tenths (pf (fs ! 7) / of_int (ParseInt_value (fs ! 1)))\<rparr>
      else cur)"

definition mountstats_line :: "(string \<Rightarrow> rat) \<Rightarrow> string \<Rightarrow> mount_scan \<Rightarrow> mount_scan" where
  "mountstats_line pf line st =
     (let t = TrimSpace line; fs = Fields t in
      if HasPrefix t ''device '' then
        (case device_line fs of
           None \<Rightarrow> (flush st)\<lparr>mc_mount := [], mc_inNFS := False, mc_current := no_stats\<rparr>
         | Some (mount, nfs) \<Rightarrow> (flush st)\<lparr>mc_mount := mount, mc_inNFS := nfs, mc_current := no_stats\<rparr>)
      else if \<not> mc_inNFS st \<or> mc_mount st = [] then st
      else if HasPrefix t ''xprt:'' then
        (if length fs \<ge> 3 then st\<lparr>mc_current := (mc_current st)\<lparr>rw_PendingOps := parsePendingOps (fs ! 1) (drop 2 fs)\<rparr>\<rparr> else st)
      else if HasPrefix t ''GETATTR:'' then st\<lparr>mc_current := getattr_line pf fs (mc_current st)\<rparr>
      else st)"

definition ParseMountstats :: "(string \<Rightarrow> rat) \<Rightarrow> string list \<Rightarrow> (string \<rightharpoonup> RawNFSStats)" where
  "ParseMountstats pf ls =
     mc_result (flush (fold (mountstats_line pf) ls \<lparr>mc_result = Map.empty, mc_mount = [], mc_inNFS = False, mc_current = no_stats\<rparr>))"

text \<open>The mounts are pairs of mount point and remote; the error of the scanner is only logged.\<close>

definition nfs_mount_line :: "string \<Rightarrow> (string \<times> string) option" where
  "nfs_mount_line line =
     (let fs = Fields line in if length fs < 3 \<or> fs ! 2 \<notin> {''nfs'', ''nfs4''} then None else Some (fs ! 1, fs ! 0))"

definition listNFSMounts :: "string + string list \<Rightarrow> (string \<times> string) list" where
  "listNFSMounts f = (case f of Inl e \<Rightarrow> [] | Inr ls \<Rightarrow> List.map_filter nfs_mount_line ls)"

definition gatherStats :: "(string \<Rightarrow> rat) \<Rightarrow> string list option \<Rightarrow> (string \<times> string) list \<Rightarrow> NFSMountStats list" where
  "gatherStats pf f mounts =
     (let parsed = (case f of None \<Rightarrow> Map.empty | Some ls \<Rightarrow> ParseMountstats pf ls) in
      map (\<lambda>(mount, remote).
        let raw = (case parsed mount of Some r \<Rightarrow> r | None \<Rightarrow> no_stats)
        in \<lparr>nf_Mount = mount, nf_Remote = remote, nf_PendingOps = rw_PendingOps raw, nf_GETATTRMs = rw_GETATTRMs raw, nf_DStateProcs = 0\<rparr>) mounts)"

text \<open>An entry of \<open>/proc\<close>: its name, whether it is a directory, and its files \<open>status\<close> and \<open>wchan\<close> if they can be read.\<close>

definition waits_for_nfs :: "string \<times> bool \<times> string option \<times> string option \<Rightarrow> bool" where
  "waits_for_nfs e =
     (case e of (pid, dir, status, wchan) \<Rightarrow>
        dir \<and> pid \<noteq> [] \<and> is_digit (hd pid)
        \<and> (case status of None \<Rightarrow> False | Some s \<Rightarrow> Contains s (''State:'' @ [CHR 0x09] @ ''D''))
        \<and> (case wchan of None \<Rightarrow> False
           | Some w \<Rightarrow> let wc = TrimSpace w in Contains wc ''nfs'' \<or> Contains wc ''rpc'' \<or> Contains wc ''sunrpc''))"

definition countDStateProcs :: "(string \<times> bool \<times> string option \<times> string option) list option \<Rightarrow> int" where
  "countDStateProcs entries = (case entries of None \<Rightarrow> 0 | Some es \<Rightarrow> int (length (filter waits_for_nfs es)))"

section \<open>Assessment\<close>

definition worseHealth :: "string \<Rightarrow> string \<Rightarrow> string" where
  "worseHealth a b = (if severityOf b > severityOf a then b else a)"

text \<open>One of the three measures: its level, \<open>0\<close> to \<open>2\<close>, and its label.\<close>

definition level_of :: "'a::linorder \<Rightarrow> 'a \<Rightarrow> 'a \<Rightarrow> nat" where
  "level_of warn crit x = (if x \<ge> crit then 2 else if x \<ge> warn then 1 else 0)"

definition raise_to :: "nat \<Rightarrow> string \<Rightarrow> string" where
  "raise_to l worst = (if l = 2 then ''critical'' else if l = 1 then worseHealth worst ''warning'' else worst)"

definition AssessMount :: "(nat \<Rightarrow> rat \<Rightarrow> string) \<Rightarrow> NFSMountStats \<Rightarrow> string \<times> string" where
  "AssessMount num s =
     (let p = level_of pendingOpsWarning pendingOpsCritical (nf_PendingOps s);
          g = level_of getattrMsWarning getattrMsCritical (nf_GETATTRMs s);
          d = level_of dStateProcWarning dStateProcCritical (nf_DStateProcs s);
          tag = (\<lambda>l. if l = 2 then '' (critical)'' else '' (warning)'');
          issues = (if p = 0 then [] else [show_int (nf_PendingOps s) @ '' pending ops'' @ tag p]) @
                   (if g = 0 then [] else [''GETATTR '' @ num 0 (nf_GETATTRMs s) @ ''ms'' @ tag g]) @
                   (if d = 0 then [] else [show_int (nf_DStateProcs s) @ (if d = 2 then '' D-state NFS processes'' else '' D-state NFS process(es)'') @ tag d])
      in if issues = [] then (''ok'', []) else (raise_to d (raise_to g (raise_to p ''ok'')), nf_Mount s @ '': '' @ Join issues '', ''))"

definition nfsSummary :: "string list \<Rightarrow> nat \<Rightarrow> string" where
  "nfsSummary issues n =
     (if issues = [] then ''all '' @ show_nat n @ '' NFS mount(s) healthy''
      else Join (take 3 issues) ''; '' @ (if length issues > 3 then '' (+'' @ show_nat (length issues - 3) @ '' more)'' else []))"

definition buildMountSection :: "(nat \<Rightarrow> rat \<Rightarrow> string) \<Rightarrow> NFSMountStats \<Rightarrow> string \<Rightarrow> string \<Rightarrow> string" where
  "buildMountSection num s h issue =
     (if h = ''critical'' then ''!!'' else if h = ''warning'' then '' !'' else ''  '') @ '' Mount:       '' @ nf_Mount s @ nl @
     (if nf_Remote s \<noteq> [] then ''   Remote:      '' @ nf_Remote s @ nl else []) @
     ''   Pending ops: '' @ show_int (nf_PendingOps s) @ nl @
     (if nf_GETATTRMs s > 0 then ''   GETATTR avg: '' @ num 1 (nf_GETATTRMs s) @ '' ms'' @ nl else []) @
     ''   D-state:     '' @ show_int (nf_DStateProcs s) @ '' process(es)'' @ nl @
     (if issue \<noteq> [] then ''   Issue:       '' @ issue @ nl else [])"

text \<open>The command of \<open>lazyUnmount\<close>, and its error with the output of the command.\<close>

definition umount_cmd :: "bool \<Rightarrow> string \<Rightarrow> string list" where
  "umount_cmd is_root mount = (if is_root then [''umount'', ''-l'', mount] else [''sudo'', ''-n'', ''umount'', ''-l'', mount])"

definition lazyUnmount :: "bool \<Rightarrow> (string list \<Rightarrow> (string \<times> string) option) \<Rightarrow> string \<Rightarrow> string option" where
  "lazyUnmount is_root um mount =
     (case um (umount_cmd is_root mount) of None \<Rightarrow> None | Some (e, out) \<Rightarrow> Some (''umount -l '' @ mount @ '': '' @ e @ '': '' @ TrimSpace out))"

record nfs_scan =
  ns_unmounted :: "string list"
  ns_sections :: "string list"
  ns_worst :: string
  ns_issues :: "string list"
  ns_commands :: "string list list"

definition hung :: "(nat \<Rightarrow> rat \<Rightarrow> string) \<Rightarrow> NFSMountStats \<Rightarrow> bool" where
  "hung num s \<longleftrightarrow> fst (AssessMount num s) = ''critical'' \<and> nf_PendingOps s \<ge> pendingOpsCritical"

definition visit_mount ::
    "(nat \<Rightarrow> rat \<Rightarrow> string) \<Rightarrow> bool \<Rightarrow> (string list \<Rightarrow> (string \<times> string) option) \<Rightarrow> NFSMountStats \<Rightarrow> nfs_scan \<Rightarrow> nfs_scan" where
  "visit_mount num is_root um s st =
     (case AssessMount num s of (h, issue0) \<Rightarrow>
      let err = lazyUnmount is_root um (nf_Mount s);
          issue = (if \<not> hung num s then issue0
                   else case err of Some e \<Rightarrow> issue0 @ '' (auto-unmount failed: '' @ e @ '')'' | None \<Rightarrow> issue0 @ '' [AUTO-UNMOUNTED]'')
      in \<lparr>ns_unmounted = ns_unmounted st @ (if hung num s \<and> err = None then [nf_Mount s] else []),
          ns_sections = ns_sections st @ [buildMountSection num s h issue],
          ns_worst = worseHealth (ns_worst st) h,
          ns_issues = ns_issues st @ (if issue \<noteq> [] then [issue] else []),
          ns_commands = ns_commands st @ (if hung num s then [umount_cmd is_root (nf_Mount s)] else [])\<rparr>)"

text \<open>The result is the health, the report and the commands run.\<close>

definition nfs_runCheck ::
    "bool \<Rightarrow> (instant \<Rightarrow> string) \<Rightarrow> (nat \<Rightarrow> rat \<Rightarrow> string) \<Rightarrow> (string \<Rightarrow> rat) \<Rightarrow> instant \<Rightarrow> bool \<Rightarrow> (string list \<Rightarrow> (string \<times> string) option) \<Rightarrow>
      string + string list \<Rightarrow> string list option \<Rightarrow> (string \<times> bool \<times> string option \<times> string option) list option \<Rightarrow> check_mem \<Rightarrow>
      (string \<times> string \<times> string list list) \<times> check_mem" where
  "nfs_runCheck ok fmt num pf now is_root um mounts_file stats_file procs m =
     (let mounts = listNFSMounts mounts_file in
      if mounts = [] then ((''ok'', ''no NFS mounts found on this host'', []), m)
      else
        let d = countDStateProcs procs;
            stats = map (\<lambda>s. s\<lparr>nf_DStateProcs := d\<rparr>) (gatherStats pf stats_file mounts);
            st = fold (visit_mount num is_root um) stats \<lparr>ns_unmounted = [], ns_sections = [], ns_worst = ''ok'', ns_issues = [], ns_commands = []\<rparr>;
            report = Join (ns_sections st) (nl @ nl) @
              (if ns_unmounted st \<noteq> [] then nl @ nl @ ''EMERGENCY LAZY UNMOUNT executed for: '' @ Join (ns_unmounted st) '', '' else [])
        in ((ns_worst st, report, ns_commands st), put_state ok fmt now ''check_nfs'' (ns_worst st) (nfsSummary (ns_issues st) (length mounts)) m))"

definition nfs_PreCheck :: "(string \<times> string \<times> string list list) \<times> check_mem \<Rightarrow> pre_result" where
  "nfs_PreCheck r = (case r of ((health, report, cmds), m) \<Rightarrow> (health \<noteq> ''ok'', report, None))"


section \<open>Lemmas\<close>

definition healths :: "string set" where "healths = {''ok'', ''warning'', ''critical''}"

lemma worst_fold:
  assumes "set hs \<subseteq> healths" "w \<in> healths"
  shows "(fold (\<lambda>h w. worseHealth w h) hs w = ''critical'' \<longleftrightarrow> w = ''critical'' \<or> ''critical'' \<in> set hs)
    \<and> (fold (\<lambda>h w. worseHealth w h) hs w = ''ok'' \<longleftrightarrow> w = ''ok'' \<and> set hs \<subseteq> {''ok''})"
  using assms
proof (induction hs arbitrary: w)
  case (Cons h hs)
  have "worseHealth w h \<in> healths" using Cons.prems by (simp add: worseHealth_def)
  moreover have "worseHealth w h = ''critical'' \<longleftrightarrow> w = ''critical'' \<or> h = ''critical''" "worseHealth w h = ''ok'' \<longleftrightarrow> w = ''ok'' \<and> h = ''ok''"
    using Cons.prems by (auto simp: worseHealth_def severityOf_def healths_def)
  moreover have "set hs \<subseteq> healths" using Cons.prems(1) by simp
  ultimately show ?case using Cons.IH [of "worseHealth w h"] by auto
qed simp

lemma assess_raised:
  "fst (AssessMount num s) = raise_to (level_of dStateProcWarning dStateProcCritical (nf_DStateProcs s))
     (raise_to (level_of getattrMsWarning getattrMsCritical (nf_GETATTRMs s))
       (raise_to (level_of pendingOpsWarning pendingOpsCritical (nf_PendingOps s)) ''ok''))"
proof -
  have "fst (if (if p = 0 then [] else [a]) @ (if g = 0 then [] else [b]) @ (if d = 0 then [] else [c]) = [] then (''ok'', x) else (raise_to d (raise_to g (raise_to p ''ok'')), y))
      = raise_to d (raise_to g (raise_to p ''ok''))" for p g d :: nat and a b c x y :: string
    by (simp add: raise_to_def)
  then show ?thesis unfolding AssessMount_def Let_def by blast
qed

lemma raise_levels:
  assumes "p \<in> {0, 1, 2}" "g \<in> {0, 1, 2}" "d \<in> {0, 1, 2}"
  shows "raise_to d (raise_to g (raise_to p ''ok'')) = ''critical'' \<longleftrightarrow> p = 2 \<or> g = 2 \<or> d = 2"
    and "raise_to d (raise_to g (raise_to p ''ok'')) = ''ok'' \<longleftrightarrow> p = 0 \<and> g = 0 \<and> d = 0"
    and "raise_to d (raise_to g (raise_to p ''ok'')) \<in> healths"
  using assms by (auto simp: raise_to_def worseHealth_def severityOf_def healths_def)

lemma level_of_range: "level_of warn crit x \<in> {0, 1, 2}"
  by (simp add: level_of_def)

lemma assess_levels:
  "fst (AssessMount num s) = ''critical'' \<longleftrightarrow> level_of pendingOpsWarning pendingOpsCritical (nf_PendingOps s) = 2
     \<or> level_of getattrMsWarning getattrMsCritical (nf_GETATTRMs s) = 2 \<or> level_of dStateProcWarning dStateProcCritical (nf_DStateProcs s) = 2"
  "fst (AssessMount num s) = ''ok'' \<longleftrightarrow> level_of pendingOpsWarning pendingOpsCritical (nf_PendingOps s) = 0
     \<and> level_of getattrMsWarning getattrMsCritical (nf_GETATTRMs s) = 0 \<and> level_of dStateProcWarning dStateProcCritical (nf_DStateProcs s) = 0"
  "fst (AssessMount num s) \<in> healths"
  unfolding assess_raised by (rule raise_levels [OF level_of_range level_of_range level_of_range])+

lemma level_of_cases: "level_of warn crit x = 2 \<longleftrightarrow> crit \<le> x" "warn \<le> crit \<Longrightarrow> level_of warn crit x = 0 \<longleftrightarrow> x < warn"
  by (auto simp: level_of_def)

lemmas nfs_limits = pendingOpsWarning_def pendingOpsCritical_def getattrMsWarning_def getattrMsCritical_def dStateProcWarning_def dStateProcCritical_def

lemma hung_iff: "hung num s \<longleftrightarrow> nf_PendingOps s \<ge> pendingOpsCritical"
  by (auto simp: hung_def assess_levels level_of_cases)

lemma fold_mounts:
  "ns_commands (fold (visit_mount num is_root um) stats st)
     = ns_commands st @ map (\<lambda>s. umount_cmd is_root (nf_Mount s)) (filter (\<lambda>s. nf_PendingOps s \<ge> pendingOpsCritical) stats)"
  "ns_worst (fold (visit_mount num is_root um) stats st) = fold (\<lambda>h w. worseHealth w h) (map (\<lambda>s. fst (AssessMount num s)) stats) (ns_worst st)"
  by (induction stats arbitrary: st) (simp_all add: visit_mount_def hung_iff Let_def split_beta)

section \<open>Claims\<close>



text \<open>A mount with 5000 pending operations beside a healthy one.\<close>

definition example_mounts :: "string + string list" where
  "example_mounts = Inr [''nas:/a /mnt/a nfs4 rw 0 0'', ''/dev/sda1 / ext4 rw 0 0'', ''nas:/b /mnt/b nfs rw 0 0'']"

definition example_stats :: "string list" where
  "example_stats = [''device nas:/a mounted on /mnt/a with fstype nfs4 statvers=1.1'', ''xprt: tcp 0 0 1 0 0 9 9 0 40 0 2 3 5000'',
     ''device nas:/b mounted on /mnt/b with fstype nfs statvers=1.1'', ''xprt: tcp 0 0 1 0 0 9 9 0 40 0 2 3 0'', ''GETATTR: 10 10 0 1 1 1 30 30'']"

definition example_nfs :: "(string \<times> string \<times> string list list) \<times> check_mem" where
  "example_nfs = nfs_runCheck True (\<lambda>t. []) (\<lambda>d r. []) (\<lambda>s. of_nat (digits_value s)) 0 False (\<lambda>c. None) example_mounts (Some example_stats) None example_checks"


text \<open>
  On an old kernel, whose statistics have fewer than thirteen values, the total number of requests since the mount stands for the pending ones, so that
  a healthy mount is unmounted once it has served 2000 requests.
\<close>

lemma old_kernel_total_counts_as_pending:
  assumes "9 \<le> length vals" "length vals < 13" "vals ! 8 = show_int n" "2000 \<le> n" "n < 2 ^ 63"
  shows "pendingOpsCritical \<le> parsePendingOps ''tcp'' vals"
  using assms parse_show_int [of n] by (simp add: parsePendingOps_def ParseInt_value_def pendingOpsCritical_def)

end
