(* ===== verification/Containers.thy ===== *)
theory Containers
  imports Nfs Json
begin

text \<open>
  The check of Docker and Podman containers, package \<open>check_containers\<close>. What a runtime lists is an argument: whether it is installed, and the lines of its
  output or the error of the command or of the scanner.
\<close>

section \<open>Listing\<close>

record psEntry =
  ps_ID :: string
  ps_Names :: string
  ps_Image :: string
  ps_State :: string
  ps_Status :: string
  ps_Ports :: string

definition dec_ps :: "string \<Rightarrow> psEntry option" where
  "dec_ps line =
     (case parse_json line of None \<Rightarrow> None
      | Some v \<Rightarrow>
          (case object_members v of None \<Rightarrow> None
           | Some ms \<Rightarrow>
               (case (string_field ''ID'' ms, string_field ''Names'' ms, string_field ''Image'' ms, string_field ''State'' ms, string_field ''Status'' ms,
                      string_field ''Ports'' ms) of
                  (Some i, Some n, Some im, Some st, Some su, Some p) \<Rightarrow>
                    Some \<lparr>ps_ID = i, ps_Names = n, ps_Image = im, ps_State = st, ps_Status = su, ps_Ports = p\<rparr>
                | _ \<Rightarrow> None)))"

text \<open>Empty lines and lines that do not parse are skipped.\<close>

definition listContainers :: "string + string list \<Rightarrow> string + psEntry list" where
  "listContainers out =
     (case out of Inl e \<Rightarrow> Inl e
      | Inr ls \<Rightarrow> Inr (List.map_filter (\<lambda>l. let t = TrimSpace l in if t = [] then None else dec_ps t) ls))"

section \<open>Assessment\<close>

text \<open>\<open>exitCodeRe\<close>: the digits of the leftmost \<open>Exited (n)\<close>.\<close>

fun exitCodeRe :: "string \<Rightarrow> string option" where
  "exitCodeRe [] = None"
| "exitCodeRe (c # s) =
     (let t = drop 8 (c # s); d = takeWhile is_digit t in
      if HasPrefix (c # s) ''Exited ('' \<and> d \<noteq> [] \<and> HasPrefix (dropWhile is_digit t) '')'' then Some d else exitCodeRe s)"

definition container_ExitCode :: "string \<Rightarrow> int" where
  "container_ExitCode status = (case exitCodeRe status of None \<Rightarrow> 0 | Some d \<Rightarrow> ParseInt_value d)"

definition assessContainer :: "string \<Rightarrow> string \<Rightarrow> string \<Rightarrow> string \<times> string" where
  "assessContainer name state status =
     (if state = ''dead'' then (''critical'', name @ '': dead'')
      else if state = ''restarting'' then (''warning'', name @ '': restarting (possible restart loop)'')
      else if state = ''paused'' then (''warning'', name @ '': paused'')
      else if state = ''exited'' then
        (if container_ExitCode status = 137 then (''critical'', name @ '': OOM killed (exit 137)'')
         else if container_ExitCode status \<noteq> 0 then (''warning'', name @ '': exited with code '' @ show_int (container_ExitCode status))
         else (''ok'', []))
      else if state = ''running'' \<and> Contains status ''(unhealthy)'' then (''critical'', name @ '': health check failing'')
      else (''ok'', []))"

definition container_name :: "psEntry \<Rightarrow> string" where
  "container_name c = (if ps_Names c = [] then take 12 (ps_ID c) else ps_Names c)"

definition assess_entry :: "psEntry \<Rightarrow> string \<times> string" where
  "assess_entry c = assessContainer (container_name c) (ToLower (ps_State c)) (ps_Status c)"

definition container_line :: "psEntry \<Rightarrow> string" where
  "container_line c =
     (case assess_entry c of (h, issue) \<Rightarrow>
        (if h = ''critical'' then ''!!'' else if h = ''warning'' then '' !'' else ''  '') @ '' '' @ pad_right 30 (container_name c) @ ''  '' @
        pad_right 12 (ToLower (ps_State c)) @ ''  '' @ ps_Status c @
        (if ps_Ports c \<noteq> [] then ''  ['' @ ps_Ports c @ '']'' else []) @ (if issue \<noteq> [] then ''  <- '' @ issue else []) @ nl)"

definition buildSection :: "string \<Rightarrow> psEntry list \<Rightarrow> string \<times> string list \<times> string" where
  "buildSection rt cs =
     (''=== '' @ rt @ '' ('' @ show_nat (length cs) @ '' container(s)) ==='' @ nl @ concat (map container_line cs),
      map (\<lambda>c. snd (assess_entry c)) (filter (\<lambda>c. fst (assess_entry c) \<in> {''critical'', ''warning''}) cs),
      fold (\<lambda>h w. worseHealth w h) (map (\<lambda>c. fst (assess_entry c)) cs) ''ok'')"

definition HealthSummary :: "string list \<Rightarrow> string" where
  "HealthSummary issues =
     (if issues = [] then ''all containers healthy''
      else Join (take 3 issues) ''; '' @ (if length issues > 3 then '' (+'' @ show_nat (length issues - 3) @ '' more)'' else []))"

section \<open>The check\<close>

text \<open>One runtime: \<open>None\<close> when it is not installed, else its section, issues and health.\<close>

definition survey :: "string \<times> (string + string list) option \<Rightarrow> (string \<times> string list \<times> string) option" where
  "survey r =
     (case r of (rt, None) \<Rightarrow> None
      | (rt, Some out) \<Rightarrow>
          (case listContainers out of
             Inl e \<Rightarrow> let issue = rt @ '': failed to list containers ('' @ e @ '')''
                      in Some (''=== '' @ rt @ '' ==='' @ nl @ issue, [issue], ''warning'')
           | Inr [] \<Rightarrow> Some (''=== '' @ rt @ '' ==='' @ nl @ ''No containers found.'', [], ''ok'')
           | Inr cs \<Rightarrow> Some (buildSection rt cs)))"

definition containers_runCheck ::
    "bool \<Rightarrow> (instant \<Rightarrow> string) \<Rightarrow> instant \<Rightarrow> (string + string list) option \<Rightarrow> (string + string list) option \<Rightarrow> check_mem \<Rightarrow> (string \<times> string) \<times> check_mem" where
  "containers_runCheck ok fmt now docker podman m =
     (let found = List.map_filter survey [(''docker'', docker), (''podman'', podman)] in
      if found = [] then
        let msg = ''no container runtime (docker/podman) found on this host'' in ((''ok'', msg), put_state ok fmt now ''check_containers'' ''ok'' msg m)
      else
        let worst = fold (\<lambda>h w. worseHealth w h) (map (\<lambda>s. snd (snd s)) found) ''ok''
        in ((worst, Join (map fst found) (nl @ nl)),
            put_state ok fmt now ''check_containers'' worst (HealthSummary (concat (map (\<lambda>s. fst (snd s)) found))) m))"

definition containers_PreCheck :: "(string \<times> string) \<times> check_mem \<Rightarrow> pre_result" where
  "containers_PreCheck r = (case r of ((health, report), m) \<Rightarrow> (health \<noteq> ''ok'', report, None))"

text \<open>Whether the built-in responsibility is added: some runtime lists a container.\<close>

definition containers_found :: "(string + string list) option \<Rightarrow> (string + string list) option \<Rightarrow> bool" where
  "containers_found docker podman \<longleftrightarrow>
     list_ex (\<lambda>r. case r of None \<Rightarrow> False | Some out \<Rightarrow> (case listContainers out of Inl e \<Rightarrow> False | Inr cs \<Rightarrow> cs \<noteq> [])) [docker, podman]"

section \<open>Claims\<close>

text \<open>The containers a runtime lists, and whether listing them failed.\<close>

definition listed :: "(string + string list) option \<Rightarrow> psEntry list" where
  "listed r = (case r of None \<Rightarrow> [] | Some out \<Rightarrow> (case listContainers out of Inl e \<Rightarrow> [] | Inr cs \<Rightarrow> cs))"

definition list_failed :: "(string + string list) option \<Rightarrow> bool" where
  "list_failed r \<longleftrightarrow> (\<exists>out e. r = Some out \<and> listContainers out = Inl e)"

definition runtime_health :: "(string + string list) option \<Rightarrow> string" where
  "runtime_health r = (if list_failed r then ''warning'' else fold (\<lambda>h w. worseHealth w h) (map (\<lambda>c. fst (assess_entry c)) (listed r)) ''ok'')"

lemma assess_healths: "fst (assess_entry c) \<in> healths"
  by (simp add: assess_entry_def assessContainer_def healths_def)

lemma runtime_health_cases:
  "runtime_health r \<in> healths"
  "runtime_health r = ''critical'' \<longleftrightarrow> (\<exists>c \<in> set (listed r). fst (assess_entry c) = ''critical'')"
  "runtime_health r = ''ok'' \<longleftrightarrow> \<not> list_failed r \<and> (\<forall>c \<in> set (listed r). fst (assess_entry c) = ''ok'')"
proof -
  have sub: "set (map (\<lambda>c. fst (assess_entry c)) (listed r)) \<subseteq> healths" using assess_healths by auto
  have "fold (\<lambda>h w. worseHealth w h) hs w \<in> healths" if "set hs \<subseteq> healths" "w \<in> healths" for hs w
    using that by (induction hs arbitrary: w) (auto simp: worseHealth_def)
  from this [OF sub, of "''ok''"] show "runtime_health r \<in> healths" by (simp add: runtime_health_def healths_def)
  have e: "listed r = []" if "list_failed r" using that by (auto simp: listed_def list_failed_def)
  note w = worst_fold [OF sub, of "''ok''"]
  show "runtime_health r = ''critical'' \<longleftrightarrow> (\<exists>c \<in> set (listed r). fst (assess_entry c) = ''critical'')"
    using w [THEN conjunct1] e by (simp add: runtime_health_def healths_def image_iff) metis
  show "runtime_health r = ''ok'' \<longleftrightarrow> \<not> list_failed r \<and> (\<forall>c \<in> set (listed r). fst (assess_entry c) = ''ok'')"
    using w [THEN conjunct2] by (auto simp: runtime_health_def healths_def)
qed

lemma survey_health: "survey (rt, r) = (case r of None \<Rightarrow> None | Some out \<Rightarrow> Some (fst (the (survey (rt, r))), fst (snd (the (survey (rt, r)))), runtime_health r))"
  by (auto simp: survey_def runtime_health_def list_failed_def listed_def buildSection_def Let_def split: option.split sum.split list.split)

lemma containers_worst:
  "fst (fst (containers_runCheck ok fmt now docker podman m)) = worseHealth (runtime_health docker) (runtime_health podman)"
proof -
  have none: "runtime_health None = ''ok''" by (simp add: runtime_health_def list_failed_def listed_def)
  have ok: "worseHealth ''ok'' h = h" "worseHealth h ''ok'' = h" if "h \<in> healths" for h using that by (auto simp: worseHealth_def severityOf_def healths_def)
  obtain a b where d: "survey (''docker'', docker) = map_option (\<lambda>out. (a, b, runtime_health docker)) docker"
    using survey_health [of "''docker''" docker] by (cases docker) auto
  obtain a' b' where p: "survey (''podman'', podman) = map_option (\<lambda>out. (a', b', runtime_health podman)) podman"
    using survey_health [of "''podman''" podman] by (cases podman) auto
  have found: "List.map_filter survey [(''docker'', docker), (''podman'', podman)]
      = (if docker = None then [] else [(a, b, runtime_health docker)]) @ (if podman = None then [] else [(a', b', runtime_health podman)])"
    using d p by (cases docker; cases podman) (simp_all add: List.map_filter_def)
  show ?thesis using runtime_health_cases(1) [of docker] runtime_health_cases(1) [of podman]
    unfolding containers_runCheck_def found by (cases docker; cases podman) (simp_all add: Let_def none ok)
qed

text \<open>
  C38: The health of the container check is critical exactly when some listed container is dead, was killed with exit code 137 or fails its health check,
  and ok exactly when no runtime failed to list its containers and every listed container is ok; it is the health recorded.
\<close>

theorem container_health_exact:
  assumes "containers_runCheck True fmt now docker podman m = ((health, report), m')"
  shows "(health = ''critical'' \<longleftrightarrow> (\<exists>c \<in> set (listed docker) \<union> set (listed podman).
            let state = ToLower (ps_State c) in
            state = ''dead'' \<or> (state = ''exited'' \<and> container_ExitCode (ps_Status c) = 137) \<or> (state = ''running'' \<and> Contains (ps_Status c) ''(unhealthy)'')))
    \<and> (health = ''ok'' \<longleftrightarrow> \<not> list_failed docker \<and> \<not> list_failed podman
         \<and> (\<forall>c \<in> set (listed docker) \<union> set (listed podman). fst (assess_entry c) = ''ok''))
    \<and> recorded_health ''check_containers'' m' = Some (as_json health)"
proof -
  have h: "health = worseHealth (runtime_health docker) (runtime_health podman)"
    using containers_worst [of True fmt now docker podman m] assms by simp
  have w: "worseHealth a b = ''critical'' \<longleftrightarrow> a = ''critical'' \<or> b = ''critical''" "worseHealth a b = ''ok'' \<longleftrightarrow> a = ''ok'' \<and> b = ''ok''"
    if "a \<in> healths" "b \<in> healths" for a b using that by (auto simp: worseHealth_def severityOf_def healths_def)
  have crit: "fst (assess_entry c) = ''critical'' \<longleftrightarrow> (let state = ToLower (ps_State c) in
      state = ''dead'' \<or> (state = ''exited'' \<and> container_ExitCode (ps_Status c) = 137) \<or> (state = ''running'' \<and> Contains (ps_Status c) ''(unhealthy)''))" for c
    by (auto simp: assess_entry_def assessContainer_def Let_def)
  have "recorded_health ''check_containers'' m' = Some (as_json health)"
    using assms by (auto simp: containers_runCheck_def Let_def split: if_splits)
  then show ?thesis unfolding h w [OF runtime_health_cases(1) runtime_health_cases(1)] runtime_health_cases(2,3) crit [symmetric] by blast
qed


definition example_docker :: "string list" where
  "example_docker = [concat [[CHR 0x7B], quote_json ''Names'', '':'', quote_json ''web'', [CHR 0x2C], quote_json ''State'', '':'', quote_json ''exited'', [CHR 0x2C],
     quote_json ''Status'', '':'', quote_json ''Exited (137) 3 minutes ago'', [CHR 0x7D]]]"

theorem container_health_exact_witness:
  "\<exists>report m'. containers_runCheck True (\<lambda>t. []) 0 (Some (Inr example_docker)) None example_checks = ((''critical'', report), m')
    \<and> (\<exists>c \<in> set (listed (Some (Inr example_docker))). ToLower (ps_State c) = ''exited'' \<and> container_ExitCode (ps_Status c) = 137)
    \<and> recorded_health ''check_containers'' m' = Some (as_json ''critical'')"
proof -
  obtain h report m' where r: "containers_runCheck True (\<lambda>t. []) 0 (Some (Inr example_docker)) None example_checks = ((h, report), m')" by (metis prod.exhaust)
  have "fst (fst (containers_runCheck True (\<lambda>t. []) 0 (Some (Inr example_docker)) None example_checks)) = ''critical''" by code_simp
  then have h: "h = ''critical''" by (simp add: r)
  have "list_ex (\<lambda>c. ToLower (ps_State c) = ''exited'' \<and> container_ExitCode (ps_Status c) = 137) (listed (Some (Inr example_docker)))" by code_simp
  then have "\<exists>c \<in> set (listed (Some (Inr example_docker))). ToLower (ps_State c) = ''exited'' \<and> container_ExitCode (ps_Status c) = 137" by (simp add: list_ex_iff)
  with container_health_exact [OF r] r h show ?thesis by blast
qed

end
