(* ===== verification/Listings.thy ===== *)
theory Listings
  imports Http_Api Host_Checks Patching "HOL-Library.Sublist"
begin

text \<open>
  The tools that tell the model about the host: \<open>check_network_connections\<close> and \<open>check_interactive_logins\<close> read the histories of the monitors,
  \<open>check_reboot_required\<close> asks the package manager, and \<open>capture_system_info\<close> surveys a Linux host. The files under \<open>/etc\<close>, \<open>/proc\<close> and \<open>/sys\<close>, the
  system bus and the interfaces of the host are arguments; \<open>stamp\<close> formats a time. \<open>sort.Slice\<close> may order connections of one port and one remote address
  differently from \<open>sort_by\<close>, which keeps their order.
\<close>

section \<open>Connections\<close>

definition maxListedConnections :: nat where "maxListedConnections = 100"
definition maxRecentEvents :: nat where "maxRecentEvents = 50"

definition process_label :: "ConnEvent \<Rightarrow> string" where
  "process_label e = (if ce_Process e \<noteq> [] then ce_Process e else if ce_PID e \<noteq> [] then ''pid '' @ ce_PID e else [])"

definition in_parens :: "string \<Rightarrow> string" where
  "in_parens s = (if s \<noteq> [] then '' ('' @ s @ '')'' else [])"

definition conn_before :: "ConnEvent \<Rightarrow> ConnEvent \<Rightarrow> bool" where
  "conn_before a b \<longleftrightarrow>
     (if ce_LocalPort a \<noteq> ce_LocalPort b then ce_LocalPort a < ce_LocalPort b else str_less (ce_RemoteAddr a) (ce_RemoteAddr b))"

definition filterDirection :: "ConnEvent list \<Rightarrow> Direction \<Rightarrow> ConnEvent list" where
  "filterDirection events d = sort_by conn_before (filter (\<lambda>e. ce_Direction e = d) events)"

definition countByDirection :: "ConnEvent list \<Rightarrow> nat \<times> nat" where
  "countByDirection events =
     (length (filter (\<lambda>e. ce_Direction e = DirectionInbound) events), length (filter (\<lambda>e. ce_Direction e = DirectionOutbound) events))"

definition endpoints_text :: "ConnEvent \<Rightarrow> string" where
  "endpoints_text e = ToUpper (ce_Proto e) @ '' '' @ ce_LocalAddr e @ '':'' @ show_int (ce_LocalPort e) @ '' -> '' @ ce_RemoteAddr e @ '':'' @ show_int (ce_RemotePort e)"

definition conn_line :: "ConnEvent \<Rightarrow> string" where
  "conn_line e = ''  '' @ endpoints_text e @ (if ce_State e \<noteq> [] then '' ['' @ ce_State e @ '']'' else []) @ in_parens (process_label e) @ nl"

definition writeConnGroup :: "string \<Rightarrow> ConnEvent list \<Rightarrow> string" where
  "writeConnGroup label events =
     label @ '' ('' @ show_nat (length events) @ ''):'' @ nl @
     (if events = [] then ''  none'' @ nl
      else concat (map conn_line (take maxListedConnections events)) @
        (if maxListedConnections < length events
         then ''  '' @ ellipsis @ '' and '' @ show_nat (length events - maxListedConnections) @ '' more'' @ nl else []))"

definition heading :: "string \<Rightarrow> string" where
  "heading title = ''=== '' @ title @ '' ==='' @ nl"

definition writeActiveSection :: "ConnEvent list \<Rightarrow> string" where
  "writeActiveSection active =
     heading ''Active Connections'' @
     (if active = [] then ''No active connections.'' @ nl
      else writeConnGroup ''Inbound'' (filterDirection active DirectionInbound) @
        writeConnGroup ''Outbound'' (filterDirection active DirectionOutbound) @
        (if filterDirection active DirectionUnknown \<noteq> [] then writeConnGroup ''Unknown direction'' (filterDirection active DirectionUnknown) else []))"

definition activity_line :: "(instant \<Rightarrow> string) \<Rightarrow> ConnEvent \<Rightarrow> string" where
  "activity_line stamp e =
     ''['' @ stamp (ce_Timestamp e) @ ''] '' @ pad_right 8 (conn_event_text (ce_EventType e)) @ '' '' @ pad_right 8 (direction_text (ce_Direction e)) @ '' '' @
     endpoints_text e @ in_parens (process_label e) @ nl"

text \<open>The last \<open>n\<close> entries of a history, newest first.\<close>

definition newest_first :: "nat \<Rightarrow> 'a list \<Rightarrow> 'a list" where
  "newest_first n h = rev (drop (length h - n) h)"

definition writeActivitySection :: "(instant \<Rightarrow> string) \<Rightarrow> ConnEvent list \<Rightarrow> string" where
  "writeActivitySection stamp history =
     nl @ heading ''Recent Activity'' @ concat (map (activity_line stamp) (newest_first maxRecentEvents history))"

definition connections_skill :: string where "connections_skill = ''check_network_connections''"
definition logins_skill :: string where "logins_skill = ''check_interactive_logins''"

definition no_history_note :: "string \<Rightarrow> string" where
  "no_history_note kind = nl @ ''(Background '' @ kind @ '' monitor has not recorded any history yet.)''"

definition active_counts :: "ConnEvent list \<Rightarrow> string" where
  "active_counts active =
     (case countByDirection active of (inbound, outbound) \<Rightarrow>
        '' active connection(s) ('' @ show_nat inbound @ '' inbound, '' @ show_nat outbound @ '' outbound)'')"

definition direction_counts :: "ConnEvent list \<Rightarrow> string" where
  "direction_counts active = show_nat (length active) @ active_counts active"

definition save_net :: "bool \<Rightarrow> (instant \<Rightarrow> string) \<Rightarrow> instant \<Rightarrow> string \<Rightarrow> net_mem \<Rightarrow> net_mem" where
  "save_net ok fmt now summary m = m\<lparr>nm_loop := the (skill_Save ok fmt now connections_skill ''ok'' summary (Some (nm_loop m)))\<rparr>"

definition conn_reportFromHistory ::
    "bool \<Rightarrow> (instant \<Rightarrow> string) \<Rightarrow> (instant \<Rightarrow> string) \<Rightarrow> instant \<Rightarrow> ConnEvent list \<Rightarrow> net_mem \<Rightarrow> string \<times> net_mem" where
  "conn_reportFromHistory ok fmt stamp now history m =
     (let active = ActiveConnections history
      in (writeActiveSection active @ writeActivitySection stamp history,
          save_net ok fmt now (direction_counts active @ ''; '' @ show_nat (length history) @ '' history event(s)'') m))"

definition conn_liveReport ::
    "bool \<Rightarrow> (instant \<Rightarrow> string) \<Rightarrow> instant \<Rightarrow> string + Conn list \<Rightarrow> net_mem \<Rightarrow> string \<times> net_mem" where
  "conn_liveReport ok fmt now live_snapshot m =
     (case live_snapshot of
        Inl e \<Rightarrow>
          (''Network connection snapshot unavailable: '' @ e @ no_history_note ''connection'',
           save_net ok fmt now (''connection snapshot unavailable: '' @ e) m)
      | Inr conns \<Rightarrow>
          let active = ExistingEvents conns now
          in (writeActiveSection active @ no_history_note ''connection'', save_net ok fmt now (direction_counts active @ '' [live snapshot]'') m))"

definition check_network_connections ::
    "bool \<Rightarrow> (instant \<Rightarrow> string) \<Rightarrow> (instant \<Rightarrow> string) \<Rightarrow> instant \<Rightarrow> string + Conn list \<Rightarrow> net_mem \<Rightarrow> string \<times> net_mem" where
  "check_network_connections ok fmt stamp now live_snapshot m =
     (let history = conn_ReadHistory m
      in if history \<noteq> [] then conn_reportFromHistory ok fmt stamp now history m else conn_liveReport ok fmt now live_snapshot m)"

section \<open>Logins\<close>

definition line_of :: "string \<Rightarrow> string \<Rightarrow> string" where
  "line_of label v = label @ v @ nl"

definition opt_line :: "string \<Rightarrow> string \<Rightarrow> string" where
  "opt_line label v = (if v \<noteq> [] then line_of label v else [])"

definition session_block :: "(instant \<Rightarrow> string) \<Rightarrow> LoginEvent \<Rightarrow> string" where
  "session_block rfc ev =
     line_of ''Session ID:   '' (le_SessionID ev) @
     line_of ''User:         '' (le_Username ev) @
     opt_line ''Class:        '' (le_Class ev) @
     opt_line ''Session type: '' (le_SessionType ev) @
     opt_line ''TTY:          '' (le_TTY ev) @
     (if le_Remote ev
      then line_of ''Origin:       '' ''remote'' @
        opt_line ''Remote host:  '' (le_RemoteHost ev) @
        opt_line ''Source IP:    '' (le_SourceIP ev) @
        (if le_ResolvedHostname ev \<noteq> le_RemoteHost ev then opt_line ''Hostname:     '' (le_ResolvedHostname ev) else [])
      else line_of ''Origin:       '' ''local console'') @
     line_of ''Since:        '' (rfc (le_Timestamp ev))"

definition login_origin :: "LoginEvent \<Rightarrow> string" where
  "login_origin ev =
     (if le_Remote ev
      then Join ([''remote''] @
        (if le_SourceIP ev \<noteq> [] then [le_SourceIP ev] else if le_RemoteHost ev \<noteq> [] then [le_RemoteHost ev] else []) @
        (if le_ResolvedHostname ev \<noteq> [] \<and> le_ResolvedHostname ev \<noteq> le_RemoteHost ev \<and> le_ResolvedHostname ev \<noteq> le_SourceIP ev
         then [le_ResolvedHostname ev] else [])) '':''
      else ''local'')"

definition login_line :: "(instant \<Rightarrow> string) \<Rightarrow> LoginEvent \<Rightarrow> string" where
  "login_line stamp ev =
     ''['' @ stamp (le_Timestamp ev) @ ''] '' @ pad_right 8 (event_text (le_EventType ev)) @ '' '' @ pad_right 16 (le_Username ev) @ '' '' @
     pad_right 12 (if le_TTY ev = [] then le_SessionType ev else le_TTY ev) @ '' ('' @ login_origin ev @ '')'' @ nl"

definition failed_source :: "FailedLoginEvent \<Rightarrow> string" where
  "failed_source ev =
     (let src = (if fl_SourceIP ev = [] then fl_RemoteHost ev else fl_SourceIP ev); hostname = fl_ResolvedHostname ev
      in if hostname \<noteq> [] \<and> hostname \<noteq> fl_RemoteHost ev \<and> hostname \<noteq> fl_SourceIP ev then src @ '' ('' @ hostname @ '')'' else src)"

definition attempt_line :: "(instant \<Rightarrow> string) \<Rightarrow> FailedLoginEvent \<Rightarrow> string" where
  "attempt_line stamp ev =
     ''['' @ stamp (fl_Timestamp ev) @ ''] '' @ pad_right 16 (fl_Username ev) @ '' '' @ pad_right 20 (failed_source ev) @ '' '' @ fl_Reason ev @ nl"

definition sessions_section :: "(instant \<Rightarrow> string) \<Rightarrow> LoginEvent list \<Rightarrow> string" where
  "sessions_section rfc active =
     heading ''Active Sessions'' @
     (if active = [] then ''No active login sessions.'' @ nl else Join (map (session_block rfc) active) nl)"

definition failed_section :: "(instant \<Rightarrow> string) \<Rightarrow> FailedLoginEvent list \<Rightarrow> string" where
  "failed_section stamp failed =
     nl @ heading ''Recent Failed Login Attempts'' @
     (if failed = [] then ''No failed login attempts recorded.'' @ nl else concat (map (attempt_line stamp) (newest_first 20 failed)))"

definition save_login :: "bool \<Rightarrow> (instant \<Rightarrow> string) \<Rightarrow> instant \<Rightarrow> string \<Rightarrow> login_mem \<Rightarrow> login_mem" where
  "save_login ok fmt now summary m = m\<lparr>lg_loop := the (skill_Save ok fmt now logins_skill ''ok'' summary (Some (lg_loop m)))\<rparr>"

definition login_reportFromHistory ::
    "bool \<Rightarrow> (instant \<Rightarrow> string) \<Rightarrow> (instant \<Rightarrow> string) \<Rightarrow> (instant \<Rightarrow> string) \<Rightarrow> instant \<Rightarrow> LoginEvent list \<Rightarrow> FailedLoginEvent list \<Rightarrow>
      login_mem \<Rightarrow> string \<times> login_mem" where
  "login_reportFromHistory ok fmt rfc stamp now history failed m =
     (let active = ActiveSessions history
      in (sessions_section rfc active @
          nl @ heading ''Recent Activity'' @ concat (map (login_line stamp) (newest_first 50 history)) @
          failed_section stamp failed,
          save_login ok fmt now (show_nat (length active) @ '' active session(s); '' @ show_nat (length history) @ '' history events; '' @
            show_nat (length failed) @ '' failed attempts'') m))"

text \<open>\<open>logind.BuildReport\<close>.\<close>

definition info_block :: "(instant \<Rightarrow> string) \<Rightarrow> SessionInfo \<Rightarrow> string" where
  "info_block rfc s =
     line_of ''Session ID:   '' (si_ID s) @
     line_of ''User:         '' (si_Username s) @
     opt_line ''Class:        '' (si_Class s) @
     line_of ''Session type: '' (si_SessionType s) @
     opt_line ''Seat:         '' (si_Seat s) @
     opt_line ''TTY:          '' (si_TTY s) @
     opt_line ''Display:      '' (si_Display s) @
     (if si_Remote s
      then line_of ''Origin:       '' ''remote'' @ opt_line ''From host:    '' (si_RemoteHost s) @ opt_line ''Remote user:  '' (si_RemoteUser s)
      else line_of ''Origin:       '' ''local console'') @
     (if 0 < si_Leader s then line_of ''Leader PID:   '' (show_nat (si_Leader s)) else []) @
     (case si_Timestamp s of None \<Rightarrow> [] | Some t \<Rightarrow> line_of ''Started:      '' (rfc t))"

definition logind_BuildReport :: "(instant \<Rightarrow> string) \<Rightarrow> SessionInfo list \<Rightarrow> string" where
  "logind_BuildReport rfc sessions = Join (map (info_block rfc) sessions) nl"

definition login_liveReport ::
    "bool \<Rightarrow> (instant \<Rightarrow> string) \<Rightarrow> (instant \<Rightarrow> string) \<Rightarrow> instant \<Rightarrow> string + SessionInfo list \<Rightarrow> login_mem \<Rightarrow> string \<times> login_mem" where
  "login_liveReport ok fmt rfc now listed m =
     (case listed of
        Inl e \<Rightarrow>
          (''Login session enumeration unavailable: '' @ e @ no_history_note ''login'', save_login ok fmt now (''session enumeration unavailable: '' @ e) m)
      | Inr [] \<Rightarrow> (''No active login sessions.'' @ no_history_note ''login'', save_login ok fmt now ''no active login sessions'' m)
      | Inr sessions \<Rightarrow>
          (logind_BuildReport rfc sessions @ no_history_note ''login'',
           save_login ok fmt now (show_nat (length sessions) @ '' active login session(s)'') m))"

definition check_interactive_logins ::
    "bool \<Rightarrow> (instant \<Rightarrow> string) \<Rightarrow> (instant \<Rightarrow> string) \<Rightarrow> (instant \<Rightarrow> string) \<Rightarrow> instant \<Rightarrow> string + SessionInfo list \<Rightarrow> login_mem \<Rightarrow> string \<times> login_mem" where
  "check_interactive_logins ok fmt rfc stamp now listed m =
     (let history = or_nil (login_ReadHistory m)
      in if history \<noteq> [] then login_reportFromHistory ok fmt rfc stamp now history (or_nil (ReadFailedHistory m)) m
         else login_liveReport ok fmt rfc now listed m)"

section \<open>A pending reboot\<close>

text \<open>The tool makes a patcher of its own, which has not installed anything.\<close>

definition check_reboot_required ::
    "'w commander \<Rightarrow> string + bool \<Rightarrow> string \<Rightarrow> string + OSType \<Rightarrow> 'w host \<Rightarrow> string \<times> 'w host" where
  "check_reboot_required run sentinel host detected h =
     (case detected of
        Inl e \<Rightarrow> (''OS detection failed: '' @ e, h)
      | Inr os \<Rightarrow>
          let name = host @ '' ('' @ os_text os @ '')'' in
          (case NeedsReboot run sentinel os (h\<lparr>ho_darwinReboot := False\<rparr>) of
             (Inl e, h) \<Rightarrow> (''Reboot check failed on '' @ name @ '': '' @ e, h)
           | (Inr True, h) \<Rightarrow>
               (''Yes'' @ dash @ name @ '' has a pending reboot flagged by the OS. A restart is required to complete a previous update.'', h)
           | (Inr False, h) \<Rightarrow> (''No'' @ dash @ name @ '' does not have a pending reboot. No restart is required.'', h)))"

section \<open>The survey of a host\<close>

record Disk =
  di_Device :: string
  di_SizeBytes :: "64 word"
  di_Model :: string

record NetInterface =
  ni_Name :: string
  ni_MAC :: string
  ni_SpeedMbps :: int

text \<open>The part of \<open>Info\<close> that the status report reads, and the rest.\<close>

record HostInfo = Info +
  sy_Kernel :: string
  sy_CPUModel :: string
  sy_CPUCores :: int
  sy_MemoryBytes :: "64 word"
  sy_Disks :: "Disk list"
  sy_NetInterfaces :: "NetInterface list"

text \<open>\<open>strings.Cut\<close> at a separator of one byte.\<close>

definition Cut_at :: "char \<Rightarrow> string \<Rightarrow> (string \<times> string) option" where
  "Cut_at c s = (if c \<in> set s then Some (takeWhile (\<lambda>x. x \<noteq> c) s, List.tl (dropWhile (\<lambda>x. x \<noteq> c) s)) else None)"

text \<open>The lines a scanner yields of a file, or \<open>None\<close> when it cannot be opened. The state is the distribution, the name and the version.\<close>

definition release_line :: "string \<Rightarrow> string \<times> string \<times> string \<Rightarrow> string \<times> string \<times> string" where
  "release_line line st =
     (case st of (distribution, name, version) \<Rightarrow>
        (case Cut_at (CHR ''='') line of
           None \<Rightarrow> st
         | Some (key, val) \<Rightarrow>
             if key = ''PRETTY_NAME'' then (Trim_quotes val, name, version)
             else if key = ''NAME'' then (distribution, Trim_quotes val, version)
             else if key = ''VERSION_ID'' then (distribution, name, Trim_quotes val)
             else st))"

definition osRelease :: "string list option \<Rightarrow> string \<times> string" where
  "osRelease file =
     (case file of
        None \<Rightarrow> ([], [])
      | Some ls \<Rightarrow>
          (case fold release_line ls ([], [], []) of (distribution, name, version) \<Rightarrow>
             (if distribution = [] then name else distribution, version)))"

definition cpuinfo_line :: "string \<Rightarrow> string \<times> nat \<Rightarrow> string \<times> nat" where
  "cpuinfo_line line st =
     (case st of (model, cores) \<Rightarrow>
        (case Cut_at (CHR '':'') line of
           None \<Rightarrow> st
         | Some (key, val) \<Rightarrow>
             if TrimSpace key = ''model name'' then (if model = [] then TrimSpace val else model, cores)
             else if TrimSpace key = ''processor'' then (model, cores + 1)
             else st))"

definition cpuInfo :: "string list option \<Rightarrow> string \<times> nat" where
  "cpuInfo file = (case file of None \<Rightarrow> ([], 0) | Some ls \<Rightarrow> fold cpuinfo_line ls ([], 0))"

fun memTotal_scan :: "string list \<Rightarrow> 64 word" where
  "memTotal_scan [] = 0"
| "memTotal_scan (line # ls) =
     (case Cut_at (CHR '':'') line of
        None \<Rightarrow> memTotal_scan ls
      | Some (key, val) \<Rightarrow>
          if key \<noteq> ''MemTotal'' then memTotal_scan ls
          else (case Fields val of
              [] \<Rightarrow> 0
            | f # _ \<Rightarrow> (case ParseUint f of Inl _ \<Rightarrow> 0 | Inr kb \<Rightarrow> kb * 1024)))"

definition memTotal :: "string list option \<Rightarrow> 64 word" where
  "memTotal file = (case file of None \<Rightarrow> 0 | Some ls \<Rightarrow> memTotal_scan ls)"

text \<open>An entry of \<open>/sys/block\<close>: its name and the files \<open>size\<close> and \<open>device/model\<close>.\<close>

type_synonym block_entry = "string \<times> string option \<times> string option"

definition is_virtual :: "string \<Rightarrow> bool" where
  "is_virtual name \<longleftrightarrow> HasPrefix name ''loop'' \<or> HasPrefix name ''ram'' \<or> HasPrefix name ''dm-'' \<or> HasPrefix name ''sr''"

definition block_device :: "block_entry \<Rightarrow> Disk option" where
  "block_device e =
     (case e of (name, sizeData, modelData) \<Rightarrow>
        if is_virtual name then None
        else case sizeData of
            None \<Rightarrow> None
          | Some d \<Rightarrow>
              (case ParseUint (TrimSpace d) of
                 Inl _ \<Rightarrow> None
               | Inr sectors \<Rightarrow>
                   Some \<lparr>di_Device = name, di_SizeBytes = sectors * 512, di_Model = (case modelData of None \<Rightarrow> [] | Some s \<Rightarrow> TrimSpace s)\<rparr>))"

definition blockDevices :: "block_entry list option \<Rightarrow> Disk list" where
  "blockDevices entries = (case entries of None \<Rightarrow> [] | Some es \<Rightarrow> List.map_filter block_device es)"

text \<open>An interface of \<open>net.Interfaces\<close>: its name, its address, is it a loopback, and the file \<open>speed\<close>.\<close>

type_synonym iface = "string \<times> string \<times> bool \<times> string option"

definition link_speed :: "string option \<Rightarrow> int" where
  "link_speed file =
     (case file of
        None \<Rightarrow> 0
      | Some d \<Rightarrow> let mbps = atoi_value (TrimSpace d) in if 0 < mbps \<and> int (digits_value (TrimPrefix (TrimSpace d) ''+'')) < 2 ^ 63 then mbps else 0)"

definition net_interface :: "iface \<Rightarrow> NetInterface option" where
  "net_interface i =
     (case i of (name, mac, loopback, speedFile) \<Rightarrow>
        if loopback then None else Some \<lparr>ni_Name = name, ni_MAC = mac, ni_SpeedMbps = link_speed speedFile\<rparr>)"

definition linuxNetInterfaces :: "iface list option \<Rightarrow> NetInterface list" where
  "linuxNetInterfaces ifaces = (case ifaces of None \<Rightarrow> [] | Some is \<Rightarrow> List.map_filter net_interface is)"

record survey_env =
  su_hostname :: "string option"
  su_release :: "string list option"
  su_uname :: "string option"
  su_cpuinfo :: "string list option"
  su_meminfo :: "string list option"
  su_block :: "block_entry list option"
  su_ifaces :: "iface list option"

definition or_empty :: "string option \<Rightarrow> string" where
  "or_empty s = (case s of None \<Rightarrow> [] | Some x \<Rightarrow> x)"

definition info_gather :: "survey_env \<Rightarrow> HostInfo" where
  "info_gather e =
     (case osRelease (su_release e) of (distribution, version) \<Rightarrow>
        case cpuInfo (su_cpuinfo e) of (model, cores) \<Rightarrow>
        \<lparr>if_Hostname = or_empty (su_hostname e), if_OS = ''linux'', if_Distribution = distribution, if_Version = version, sy_Kernel = or_empty (su_uname e),
         sy_CPUModel = model, sy_CPUCores = int cores, sy_MemoryBytes = memTotal (su_meminfo e), sy_Disks = blockDevices (su_block e),
         sy_NetInterfaces = linuxNetInterfaces (su_ifaces e)\<rparr>)"

definition pad_left :: "nat \<Rightarrow> string \<Rightarrow> string" where
  "pad_left n s = replicate (n - length (runes s)) (CHR '' '') @ s"

definition info_disk_line :: "(nat \<Rightarrow> rat \<Rightarrow> string) \<Rightarrow> Disk \<Rightarrow> string" where
  "info_disk_line num d =
     ''  '' @ pad_right 12 (di_Device d) @ '' '' @ pad_left 10 (formatBytes num (unat (di_SizeBytes d))) @
     (if di_Model d \<noteq> [] then ''  ('' @ di_Model d @ '')'' else []) @ nl"

definition info_iface_line :: "NetInterface \<Rightarrow> string" where
  "info_iface_line n =
     ''  '' @ pad_right 12 (ni_Name n) @ '' MAC='' @ pad_right 17 (ni_MAC n) @ '' Speed='' @
     (if 0 < ni_SpeedMbps n then show_int (ni_SpeedMbps n) @ '' Mbps'' else ''unknown'') @ nl"

definition info_BuildReport :: "(nat \<Rightarrow> rat \<Rightarrow> string) \<Rightarrow> HostInfo \<Rightarrow> string" where
  "info_BuildReport num i =
     line_of ''Hostname:     '' (if_Hostname i) @
     line_of ''OS:           '' (if_OS i) @
     opt_line ''Distribution: '' (if_Distribution i) @
     opt_line ''Version:      '' (if_Version i) @
     opt_line ''Kernel:       '' (sy_Kernel i) @
     (if sy_CPUModel i \<noteq> [] then line_of ''CPU:          '' (sy_CPUModel i @ '' ('' @ show_int (sy_CPUCores i) @ '' cores)'') else []) @
     (if 0 < sy_MemoryBytes i then line_of ''Memory:       '' (formatBytes num (unat (sy_MemoryBytes i))) else []) @
     (if sy_Disks i \<noteq> [] then nl @ ''Disks:'' @ nl @ concat (map (info_disk_line num) (sy_Disks i)) else []) @
     (if sy_NetInterfaces i \<noteq> [] then nl @ ''Network Interfaces:'' @ nl @ concat (map info_iface_line (sy_NetInterfaces i)) else [])"


section \<open>Lemmas\<close>

lemma sublist_app: "sublist x b \<Longrightarrow> sublist x (a @ b)" "sublist x a \<Longrightarrow> sublist x (a @ b)"
  by (auto simp: sublist_def) (metis append_assoc)+

lemma concat_lists: "e \<in> set xs \<Longrightarrow> sublist (f e) (concat (map f xs))"
  by (auto dest!: split_list)

lemma join_lists: "x \<in> set xs \<Longrightarrow> sublist x (Join xs sep)"
  by (induction xs sep rule: Join.induct) (auto intro: sublist_app)

lemma in_set_nonempty: "e \<in> set xs \<Longrightarrow> xs \<noteq> []"
  by auto

lemma group_lists: "e \<in> set events \<Longrightarrow> length events \<le> maxListedConnections \<Longrightarrow> sublist (conn_line e) (writeConnGroup label events)"
proof -
  assume e: "e \<in> set events" and n: "length events \<le> maxListedConnections"
  then have "writeConnGroup label events =
      (label @ '' ('' @ show_nat (length events) @ ''):'' @ nl) @ concat (map conn_line events)" by (auto simp: writeConnGroup_def)
  then show ?thesis using concat_lists [OF e, of conn_line] by (simp only: sublist_app(1))
qed

lemma active_lists:
  assumes "e \<in> set active" "length (filterDirection active (ce_Direction e)) \<le> maxListedConnections"
  shows "sublist (conn_line e) (writeActiveSection active)"
proof -
  have e: "e \<in> set (filterDirection active (ce_Direction e))" using assms(1) by (simp add: filterDirection_def)
  then have "filterDirection active (ce_Direction e) \<noteq> []" by auto
  moreover note group_lists [OF e assms(2)]
  ultimately show ?thesis using in_set_nonempty [OF assms(1)] unfolding writeActiveSection_def
    by (cases "ce_Direction e") (simp_all add: sublist_app in_set_nonempty)
qed

lemma newest_first_set: "x \<in> set (newest_first n h) \<longleftrightarrow> (\<exists>i < n. i < length h \<and> x = h ! (length h - Suc i))"
proof -
  have "newest_first n h = take n (rev h)" by (cases "n \<le> length h") (simp_all add: newest_first_def rev_drop)
  then show ?thesis by (auto simp: in_set_conv_nth rev_nth)
qed

lemma polls_length:
  assumes "mon_ok mon" "follows mon m" "good_polls quote fm es mon m" "polls quote fm es mon m = (evs, mon', m')"
    and "length (conn_ReadHistory m) + length evs \<le> cm_limit mon"
  shows "length (conn_ReadHistory m') = length (conn_ReadHistory m) + length evs"
  using assms
proof (induction es arbitrary: mon m evs)
  case (Cons e es)
  obtain r mon1 m1 where p: "PollOnce quote fm e mon m = (r, mon1, m1)" by (metis prod.exhaust)
  define new where "new = (case r of Inl _ \<Rightarrow> [] | Inr x \<Rightarrow> x)"
  obtain evs1 where ps: "polls quote fm es mon1 m1 = (evs1, mon', m')" and evs: "evs = new @ evs1"
    using Cons.prems(4) p by (auto simp: new_def split: prod.splits)
  have g: "good_poll e mon" "good_polls quote fm es mon1 m1" using Cons.prems(3) p by simp_all
  note s = poll_follows [OF Cons.prems(1,2) g(1) p, folded new_def]
  show ?case using Cons.IH [OF _ _ g(2) ps] s Cons.prems(5) by (auto simp: evs tracked_def)
qed simp

lemma fresh_watch:
  assumes "nm_history m = None" "good_polls quote fm es (NewWithGatherer limit cfg) m"
    and "polls quote fm es (NewWithGatherer limit cfg) m = (evs, mon, m')" "length evs \<le> cm_limit (NewWithGatherer limit cfg)"
  shows "open_keys (conn_ReadHistory m') = dom (cm_prev mon)" "length (conn_ReadHistory m') = length evs"
proof -
  let ?mon = "NewWithGatherer limit cfg"
  have "ActiveConnections [] = []" by (simp add: ActiveConnections_def active_log_def List.map_filter_def)
  then have i: "mon_ok ?mon" "follows ?mon m" "same_keys ?mon m" "conn_ReadHistory m = []"
    using assms(1) by (auto simp: mon_ok_def keyed_def follows_def same_keys_def NewWithGatherer_def conn_ReadHistory_def)
  from polls_follow [OF i(1,2) assms(2,3)] show "open_keys (conn_ReadHistory m') = dom (cm_prev mon)"
    using i(3,4) assms(4) by (simp add: same_keys_def)
  show "length (conn_ReadHistory m') = length evs" using polls_length [OF i(1,2) assms(2,3)] i(4) assms(4) by simp
qed

lemma reboot_query:
  "ho_log (snd (NeedsReboot run sentinel os h))
     \<in> {ho_log h, ho_log h @ [[''needs-restarting'', ''-r'']], ho_log h @ [[''reg'', ''query'', reboot_key, ''/v'', ''RebootRequired'']]}"
  by (cases os) (simp_all add: NeedsReboot_def cmd_def split: prod.split option.split)

section \<open>Claims\<close>

text \<open>
  C26: From a fresh start, after any polls whose events fit the history, the connections the tool reports are exactly those of the last successful poll,
  each once: the line of each is in the report whenever at most a hundred of them share its direction, and the recorded summary counts them.
\<close>

theorem open_connections_listed:
  assumes "nm_history m = None" "good_polls quote fm es (NewWithGatherer limit cfg) m"
    and "polls quote fm es (NewWithGatherer limit cfg) m = (evs, mon, m')" "length evs \<le> cm_limit (NewWithGatherer limit cfg)"
    and "conn_ReadHistory m' \<noteq> []" "active = ActiveConnections (conn_ReadHistory m')"
    and "check_network_connections True fmt stamp now live_snapshot m' = (report, m'')"
  shows "connEventKey ` set active = dom (cm_prev mon) \<and> distinct (map connEventKey active)
    \<and> (\<forall>e \<in> set active. length (filterDirection active (ce_Direction e)) \<le> maxListedConnections \<longrightarrow> sublist (conn_line e) report)
    \<and> map_option (\<lambda>v. sk_Summary (dec_skill v)) (lm_states (nm_loop m'') (keyPrefix @ connections_skill))
        = Some (as_json (show_nat (card (dom (cm_prev mon))) @ active_counts active @ ''; '' @ show_nat (length evs) @ '' history event(s)''))"
proof -
  let ?h = "conn_ReadHistory m'"
  have k: "connEventKey ` set active = dom (cm_prev mon)" and l: "length ?h = length evs"
    using fresh_watch [OF assms(1-4)] assms(6) by auto
  have d: "distinct (map connEventKey active)" using conns.one_per_key assms(6) by simp
  have "length active = card (connEventKey ` set active)" using distinct_card [OF d] by simp
  then have n: "length active = card (dom (cm_prev mon))" by (simp only: k)
  have r: "report = writeActiveSection active @ writeActivitySection stamp ?h"
    and m: "m'' = save_net True fmt now (direction_counts active @ ''; '' @ show_nat (length ?h) @ '' history event(s)'') m'"
    using assms(5-7) by (simp_all add: check_network_connections_def conn_reportFromHistory_def Let_def)
  have "map_option (\<lambda>v. sk_Summary (dec_skill v)) (lm_states (nm_loop m'') (keyPrefix @ connections_skill))
      = Some (as_json (direction_counts active @ ''; '' @ show_nat (length evs) @ '' history event(s)''))"
    unfolding m save_net_def l by (simp add: skill_Save_def skill_SetKey_def dec_skill_def)
  moreover have "\<forall>e \<in> set active. length (filterDirection active (ce_Direction e)) \<le> maxListedConnections \<longrightarrow> sublist (conn_line e) report"
    unfolding r using active_lists sublist_app(2) by blast
  ultimately show ?thesis using k d by (simp add: n direction_counts_def)
qed

text \<open>
  With a recorded history the login tool shows every session that is open, however many there are, the last fifty events and the last twenty failed
  attempts.
\<close>

theorem sessions_listed:
  assumes "login_ReadHistory m = Inr h" "h \<noteq> []" and "report = fst (check_interactive_logins ok fmt rfc stamp now listed m)"
  shows "(\<forall>s \<in> set (ActiveSessions h). sublist (session_block rfc s) report)
    \<and> (\<forall>i < 50. i < length h \<longrightarrow> sublist (login_line stamp (h ! (length h - Suc i))) report)
    \<and> (\<forall>f i. ReadFailedHistory m = Inr f \<and> i < 20 \<and> i < length f \<longrightarrow> sublist (attempt_line stamp (f ! (length f - Suc i))) report)"
proof -
  let ?f = "or_nil (ReadFailedHistory m)"
  have r: "report = sessions_section rfc (ActiveSessions h) @
      nl @ heading ''Recent Activity'' @ concat (map (login_line stamp) (newest_first 50 h)) @ failed_section stamp ?f"
    using assms by (simp add: check_interactive_logins_def login_reportFromHistory_def or_nil_def Let_def)
  have "sublist (session_block rfc s) (sessions_section rfc (ActiveSessions h))" if "s \<in> set (ActiveSessions h)" for s
  proof -
    have "sublist (session_block rfc s) (Join (map (session_block rfc) (ActiveSessions h)) nl)" using that by (intro join_lists) simp
    moreover have "ActiveSessions h \<noteq> []" using that by auto
    ultimately show ?thesis unfolding sessions_section_def by (simp add: sublist_app del: append.simps)
  qed
  moreover have "sublist (login_line stamp (h ! (length h - Suc i))) (concat (map (login_line stamp) (newest_first 50 h)))" if "i < 50" "i < length h" for i
    using that newest_first_set [of "h ! (length h - Suc i)" 50 h] by (intro concat_lists) blast
  moreover have "sublist (attempt_line stamp (f ! (length f - Suc i))) (failed_section stamp f)" if "i < 20" "i < length f" for i f
  proof -
    have "sublist (attempt_line stamp (f ! (length f - Suc i))) (concat (map (attempt_line stamp) (newest_first 20 f)))"
      using that newest_first_set [of "f ! (length f - Suc i)" 20 f] by (intro concat_lists) blast
    moreover have "f \<noteq> []" using that by auto
    ultimately show ?thesis unfolding failed_section_def by (simp add: sublist_app del: append.simps)
  qed
  ultimately show ?thesis unfolding r by (auto simp: or_nil_def sublist_app)
qed

text \<open>
  The tool that asks for a pending reboot runs at most one command, one that only asks; and on macOS, where only the patcher that installed updates
  knows of a pending restart, its answer is always no.
\<close>

theorem reboot_check_asks_only:
  "ho_log (snd (check_reboot_required run sentinel host detected h))
     \<in> {ho_log h, ho_log h @ [[''needs-restarting'', ''-r'']], ho_log h @ [[''reg'', ''query'', reboot_key, ''/v'', ''RebootRequired'']]}
   \<and> HasPrefix (fst (check_reboot_required run sentinel host (Inr OSDarwin) h)) ''No''"
proof
  have "snd (check_reboot_required run sentinel host (Inr os) h) = snd (NeedsReboot run sentinel os (h\<lparr>ho_darwinReboot := False\<rparr>))" for os
    unfolding check_reboot_required_def by (simp add: Let_def split: sum.split prod.split bool.split)
  then show "ho_log (snd (check_reboot_required run sentinel host detected h))
     \<in> {ho_log h, ho_log h @ [[''needs-restarting'', ''-r'']], ho_log h @ [[''reg'', ''query'', reboot_key, ''/v'', ''RebootRequired'']]}"
    using reboot_query [of run sentinel _ "h\<lparr>ho_darwinReboot := False\<rparr>"] by (cases detected) (auto simp: check_reboot_required_def)
  show "HasPrefix (fst (check_reboot_required run sentinel host (Inr OSDarwin) h)) ''No''"
    by (simp add: check_reboot_required_def NeedsReboot_def HasPrefix_def)
qed


subsection \<open>Witnesses\<close>

definition demo_listing :: "string \<times> net_mem" where
  "demo_listing = check_network_connections True (\<lambda>t. []) (\<lambda>t. ''t'') 9 (Inl ''not asked'') (snd (snd demo_watch))"

text \<open>After the two polls of the demonstration, one connection is open and its line is in the report.\<close>

theorem open_connections_listed_witness:
  "\<exists>e. ActiveConnections (conn_ReadHistory (snd (snd demo_watch))) = [e]
    \<and> conn_line e = ''  TCP 10.0.0.5:40001 -> 2.2.2.2:443 [ESTAB] (curl)'' @ nl \<and> sublist (conn_line e) (fst demo_listing)"
proof -
  let ?active = "ActiveConnections (conn_ReadHistory (snd (snd demo_watch)))"
  have c: "map conn_line ?active = [''  TCP 10.0.0.5:40001 -> 2.2.2.2:443 [ESTAB] (curl)'' @ nl]"
    "length (fst demo_watch) = 3" "length (conn_ReadHistory (snd (snd demo_watch))) = 3" by code_simp+
  then obtain e where e: "?active = [e]" "conn_line e = ''  TCP 10.0.0.5:40001 -> 2.2.2.2:443 [ESTAB] (curl)'' @ nl" by auto
  have "nm_history demo_net = None" by (simp add: demo_net_def)
  moreover have "length (fst demo_watch) \<le> cm_limit (NewWithGatherer 0 \<lparr>nc_DisableBaseline = False, nc_OwnPort = 8080\<rparr>)"
    unfolding c by (simp add: NewWithGatherer_def defaultHistoryLimit_def)
  moreover have "polls (\<lambda>s. s) demo_formats demo_polls (NewWithGatherer 0 \<lparr>nc_DisableBaseline = False, nc_OwnPort = 8080\<rparr>) demo_net =
    (fst demo_watch, fst (snd demo_watch), snd (snd demo_watch))" by (simp add: demo_watch_def)
  moreover have "conn_ReadHistory (snd (snd demo_watch)) \<noteq> []" using c(3) by auto
  moreover have "check_network_connections True (\<lambda>t. []) (\<lambda>t. ''t'') 9 (Inl ''not asked'') (snd (snd demo_watch)) = (fst demo_listing, snd demo_listing)"
    by (simp add: demo_listing_def)
  ultimately have "\<forall>e \<in> set ?active. length (filterDirection ?active (ce_Direction e)) \<le> maxListedConnections \<longrightarrow> sublist (conn_line e) (fst demo_listing)"
    using open_connections_listed [OF _ demo_watch_good _ _ _ refl] by blast
  then show ?thesis using e by (simp add: filterDirection_def maxListedConnections_def)
qed

end
