(* ===== verification/Migration.thy ===== *)
theory Migration
  imports Host_Checks Memory_Store
begin

text \<open>
  The command \<open>migrate-memory\<close>, which moves what old agents kept in the attribute file to domains of its own. The store is that of \<open>Memory_Store\<close>;
  the clock and the outcome of the system calls of the n-th write are arguments, and so are the JSON encodings of a map and of a raw value. A failing
  step ends the program with its message.
\<close>

section \<open>The command\<close>

definition networkDomain :: string where "networkDomain = ''Network''"
definition diskTrendsDomain :: string where "diskTrendsDomain = ''Disk Trends''"
definition incidentsDomain :: string where "incidentsDomain = ''Incidents''"
definition skillStatesDomain :: string where "skillStatesDomain = ''Skill States''"

definition connectionHistoryKey :: string where "connectionHistoryKey = ''connection_history''"
definition rateBaselineKey :: string where "rateBaselineKey = ''network_rate_baseline''"
definition diskTrendsKey :: string where "diskTrendsKey = ''disk_trends''"
definition smartTrendsKey :: string where "smartTrendsKey = ''smart_trends''"
definition incidentsKey :: string where "incidentsKey = ''incidents''"

definition skillStatePrefix :: string where "skillStatePrefix = ''skill_state:''"
definition responsibilityRunPrefix :: string where "responsibilityRunPrefix = ''responsibility_run:''"

record ('d, 'r) mig_env =
  me_len :: "'d \<Rightarrow> nat"
  me_mlen :: "(string \<rightharpoonup> 'r) \<Rightarrow> nat"
  me_dec :: "'d \<Rightarrow> (string \<rightharpoonup> 'r) option"
  me_enc :: "(string \<rightharpoonup> 'r) \<Rightarrow> 'd"
  me_raw :: "'r \<Rightarrow> 'd"
  me_now :: "nat \<Rightarrow> instant"
  me_io :: "nat \<Rightarrow> io"

text \<open>The variables of \<open>main\<close>: the store, the writes made so far, \<open>purgeKeys\<close> and \<open>actions\<close>.\<close>

record ('d, 'r) mig =
  mg_store :: "('d, 'r) Store"
  mg_count :: nat
  mg_keys :: "string list"
  mg_actions :: "string list"

definition quoted :: "string \<Rightarrow> string" where "quoted s = [CHR 0x22] @ s @ [CHR 0x22]"

definition action_line :: "bool \<Rightarrow> string \<Rightarrow> string \<Rightarrow> string" where
  "action_line dryRun key domain =
     ''  '' @ (if dryRun then ''would migrate'' else ''migrating'') @ '' '' @ pad_right 32 key @ '' -> domain '' @ quoted domain"

text \<open>A write of one domain: how the directory and the size counter of the store change.\<close>

definition put_domain :: "string \<Rightarrow> unit result \<times> 'd domain \<times> int \<Rightarrow> ('d, 'r) Store \<Rightarrow> unit result \<times> ('d, 'r) Store" where
  "put_domain name res s =
     (case res of (r, d, delta) \<Rightarrow> (r, (set_domain name (case d of None \<Rightarrow> None | Some dir \<Rightarrow> dir) s)\<lparr>sizeBytes := sizeBytes s + delta\<rparr>))"

definition write_failed :: "string \<Rightarrow> string \<Rightarrow> string" where
  "write_failed key domain = ''write '' @ quoted key @ '' into domain '' @ quoted domain"

definition moved :: "bool \<Rightarrow> string \<Rightarrow> string \<Rightarrow> string \<Rightarrow> unit result \<times> ('d, 'r) Store \<Rightarrow> ('d, 'r) mig \<Rightarrow> string \<times> ('d, 'r) Store + ('d, 'r) mig" where
  "moved dryRun key domain note res st =
     (let st = st\<lparr>mg_actions := mg_actions st @ [action_line dryRun key domain @ note]\<rparr> in
      if dryRun then Inr (st\<lparr>mg_keys := mg_keys st @ [key]\<rparr>)
      else case res of
          (Inl e, s) \<Rightarrow> Inl (write_failed key domain, s)
        | (Inr _, s) \<Rightarrow> Inr (st\<lparr>mg_store := s, mg_count := mg_count st + 1, mg_keys := mg_keys st @ [key]\<rparr>))"

definition moveKey ::
    "('d, 'r) mig_env \<Rightarrow> bool \<Rightarrow> (string \<rightharpoonup> 'r) \<Rightarrow> string \<times> string \<Rightarrow> ('d, 'r) mig \<Rightarrow> string \<times> ('d, 'r) Store + ('d, 'r) mig" where
  "moveKey env dryRun attrs kd st =
     (case kd of (key, domain) \<Rightarrow>
      case attrs key of
        None \<Rightarrow> Inr st
      | Some raw \<Rightarrow>
          let n = mg_count st; s = mg_store st in
          moved dryRun key domain []
            (put_domain domain (Domain_SetKey (me_len env) (me_io env n) (me_now env n) (me_dec env) (me_enc env) key raw (Some (Store_Domain domain s))) s) st)"

definition moveIncidents ::
    "('d, 'r) mig_env \<Rightarrow> bool \<Rightarrow> (string \<rightharpoonup> 'r) \<Rightarrow> ('d, 'r) mig \<Rightarrow> string \<times> ('d, 'r) Store + ('d, 'r) mig" where
  "moveIncidents env dryRun attrs st =
     (case attrs incidentsKey of
        None \<Rightarrow> Inr st
      | Some raw \<Rightarrow>
          let n = mg_count st; s = mg_store st in
          moved dryRun incidentsKey incidentsDomain '' (whole blob)''
            (put_domain incidentsDomain (Domain_Write (me_len env) (me_io env n) (me_now env n) (me_raw env raw) (Some (Store_Domain incidentsDomain s))) s) st)"

text \<open>The key of the incidents is moved as a whole blob, every other one into a map.\<close>

definition move_one ::
    "('d, 'r) mig_env \<Rightarrow> bool \<Rightarrow> (string \<rightharpoonup> 'r) \<Rightarrow> string \<times> string \<Rightarrow> ('d, 'r) mig \<Rightarrow> string \<times> ('d, 'r) Store + ('d, 'r) mig" where
  "move_one env dryRun attrs kd st = (if fst kd = incidentsKey then moveIncidents env dryRun attrs st else moveKey env dryRun attrs kd st)"

fun move_all ::
    "('d, 'r) mig_env \<Rightarrow> bool \<Rightarrow> (string \<rightharpoonup> 'r) \<Rightarrow> (string \<times> string) list \<Rightarrow> ('d, 'r) mig \<Rightarrow> string \<times> ('d, 'r) Store + ('d, 'r) mig" where
  "move_all env dryRun attrs [] st = Inr st"
| "move_all env dryRun attrs (kd # kds) st =
     (case move_one env dryRun attrs kd st of Inl e \<Rightarrow> Inl e | Inr st \<Rightarrow> move_all env dryRun attrs kds st)"

definition is_dynamic :: "string \<Rightarrow> bool" where
  "is_dynamic k \<longleftrightarrow> HasPrefix k skillStatePrefix \<or> HasPrefix k responsibilityRunPrefix"

text \<open>\<open>ks\<close> is the order in which the map of attributes is walked.\<close>

definition dynamicKeys :: "string list \<Rightarrow> string list" where
  "dynamicKeys ks = sort_by str_less (filter is_dynamic ks)"

definition all_moves :: "string list \<Rightarrow> (string \<times> string) list" where
  "all_moves ks =
     [(connectionHistoryKey, networkDomain), (rateBaselineKey, networkDomain), (diskTrendsKey, diskTrendsDomain), (smartTrendsKey, diskTrendsDomain),
      (incidentsKey, incidentsDomain)] @ map (\<lambda>k. (k, skillStatesDomain)) (dynamicKeys ks)"

fun delete_keys :: "('d, 'r) mig_env \<Rightarrow> string list \<Rightarrow> nat \<Rightarrow> ('d, 'r) Store \<Rightarrow> string option \<times> ('d, 'r) Store" where
  "delete_keys env [] n s = (None, s)"
| "delete_keys env (k # ks) n s =
     (case Store_AttrsDelete (me_mlen env) (me_io env n) k s of
        (Inl e, s) \<Rightarrow> (Some (''delete '' @ quoted k @ '' from attrs.json''), s)
      | (Inr _, s) \<Rightarrow> delete_keys env ks (n + 1) s)"

text \<open>The result is the output, the message of \<open>log.Fatalf\<close> if the program ends that way, and the store.\<close>

definition migrate ::
    "('d, 'r) mig_env \<Rightarrow> bool \<Rightarrow> bool \<Rightarrow> string list \<Rightarrow> ('d, 'r) Store \<Rightarrow> string list \<times> string option \<times> ('d, 'r) Store" where
  "migrate env dryRun purge ks disk =
     (let s = Store_New (me_len env) (me_mlen env) disk in
      case Attrs_All (Some (s_attrs s)) of
        Inl e \<Rightarrow> ([], Some ''read attrs.json'', s)
      | Inr attrs \<Rightarrow>
          if ks = [] then ([''no attrs.json (or empty)'' @ dash @ ''nothing to migrate''], None, s)
          else case move_all env dryRun attrs (all_moves ks) \<lparr>mg_store = s, mg_count = 0, mg_keys = [], mg_actions = []\<rparr> of
              Inl (e, s) \<Rightarrow> ([], Some e, s)
            | Inr st \<Rightarrow>
                let actions = sort_by str_less (mg_actions st); count = show_nat (length (mg_actions st)); s = mg_store st in
                if mg_actions st = [] then ([''nothing to migrate'' @ dash @ ''attrs.json has none of the old keys''], None, s)
                else if dryRun then (actions @ [[], count @ '' key(s) would be migrated (dry run'' @ dash @ ''nothing written)''], None, s)
                else let out = actions @ [[], count @ '' key(s) migrated''] in
                  if \<not> purge then
                    (out @ [''old copies left in attrs.json (re-run with -purge once you'' @ [CHR 0x27] @ ''ve verified the new domains look right)''], None, s)
                  else case delete_keys env (mg_keys st) (mg_count st) s of
                      (Some e, s) \<Rightarrow> (out, Some e, s)
                    | (None, s) \<Rightarrow> (out @ [show_nat (length (mg_keys st)) @ '' old key(s) removed from attrs.json''], None, s))"

section \<open>What a migration should do\<close>

definition target :: "string \<Rightarrow> string option" where
  "target k =
     (if k \<in> {connectionHistoryKey, rateBaselineKey} then Some networkDomain
      else if k \<in> {diskTrendsKey, smartTrendsKey} then Some diskTrendsDomain
      else if k = incidentsKey then Some incidentsDomain
      else if is_dynamic k then Some skillStatesDomain else None)"

text \<open>The value of a key is what its new domain now reads.\<close>

definition arrived :: "('d, 'r) mig_env \<Rightarrow> string \<Rightarrow> 'r \<Rightarrow> ('d, 'r) Store \<Rightarrow> bool" where
  "arrived env k v s \<longleftrightarrow>
     (case target k of
        None \<Rightarrow> False
      | Some d \<Rightarrow>
          if k = incidentsKey then Domain_ReadCurrent Some (Some (Store_Domain d s)) = Inr (me_raw env v)
          else Domain_AllKeys (me_dec env) (Some (Store_Domain d s)) k = Some v)"

text \<open>Every directory is well formed and behind the clock; the clock advances at each of \<open>n\<close> writes.\<close>

definition store_ready :: "instant \<Rightarrow> ('d, 'r) Store \<Rightarrow> bool" where
  "store_ready t s \<longleftrightarrow> 0 < t \<and> t < 2 ^ 63 \<and> list_all (\<lambda>d. dir_ok (snd d) \<and> clock_ahead t (snd d)) (s_doms s)"

definition clock_ok :: "('d, 'r) mig_env \<Rightarrow> nat \<Rightarrow> bool" where
  "clock_ok env n \<longleftrightarrow> list_all (\<lambda>i. me_now env i < me_now env (Suc i) \<and> me_now env (Suc i) < 2 ^ 63) [0 ..< n]"

section \<open>Lemmas\<close>

lemmas key_defs = connectionHistoryKey_def rateBaselineKey_def diskTrendsKey_def smartTrendsKey_def incidentsKey_def
lemmas domain_defs = networkDomain_def diskTrendsDomain_def incidentsDomain_def skillStatesDomain_def

lemma static_not_dynamic:
  "\<not> is_dynamic connectionHistoryKey" "\<not> is_dynamic rateBaselineKey" "\<not> is_dynamic diskTrendsKey" "\<not> is_dynamic smartTrendsKey" "\<not> is_dynamic incidentsKey"
  by code_simp+

lemma moves_target: "(k, d) \<in> set (all_moves ks) \<Longrightarrow> target k = Some d"
  using static_not_dynamic by (auto simp: all_moves_def dynamicKeys_def target_def key_defs)

lemma target_moves: "target k = Some d \<Longrightarrow> k \<in> set ks \<Longrightarrow> (k, d) \<in> set (all_moves ks)"
  by (auto simp: all_moves_def dynamicKeys_def target_def split: if_splits)

lemma target_incidents: "target k = Some incidentsDomain \<longleftrightarrow> k = incidentsKey"
  by (auto simp: target_def domain_defs key_defs split: if_splits)

lemma length_all_moves: "length (all_moves ks) \<le> length ks + 5"
  by (simp add: all_moves_def dynamicKeys_def)

lemma ready_domain:
  assumes "store_ready t s"
  shows "dir_ok (dir_entries (Store_Domain name s))" "clock_ahead t (dir_entries (Store_Domain name s))"
  using assms by (cases "map_of (s_doms s) name";
      force simp: store_ready_def Store_Domain_def dir_entries_def list_all_iff dir_ok_def clock_ahead_def dest: map_of_SomeD)+

lemma Store_Domain_set [simp]: "Store_Domain n (set_domain name (Some es) s) = (if n = name then Some es else Store_Domain n s)"
  by (simp add: Store_Domain_def set_domain_def update_conv)

lemma Store_Domain_size [simp]: "Store_Domain n (s\<lparr>sizeBytes := z\<rparr>) = Store_Domain n s"
  by (simp add: Store_Domain_def)

lemma put_domain_write:
  "put_domain name (Domain_Write len io now data (Some (Store_Domain name s))) s = Store_Write len io now name data s"
  "put_domain name (Domain_SetKey len io now dec enc k v (Some (Store_Domain name s))) s
     = Store_Write len io now name (enc ((Domain_AllKeys dec (Some (Store_Domain name s)))(k \<mapsto> v))) s"
  by (auto simp: put_domain_def Domain_Write_def Domain_SetKey_def Domain_Update_def Store_Write_def Domain_AllKeys_def Domain_ReadCurrent_def split: prod.split)

lemma Store_Write_attrs: "Store_Write len io now name data s = (r, s') \<Longrightarrow> s_attrs s' = s_attrs s"
  by (auto simp: Store_Write_def set_domain_def split: prod.splits option.splits)

lemma prune_behind:
  assumes "clock_ahead now es" "now < t" "t < 2 ^ 63"
  shows "clock_ahead t (fst (prune len io now (put_snapshot now data es)))"
proof -
  have "ns < t" if "e \<in> set (fst (prune len io now (put_snapshot now data es)))" "entry_ns e = Some ns" for e ns
    using subsetD [OF prune_subset that(1)] that(2) entry_ns_new [OF assms(1), of data] clock_aheadD [OF assms(1)] assms(2)
    unfolding set_put_snapshot by fastforce
  then show ?thesis using assms by (auto simp: clock_ahead_def list_all_iff split: option.split)
qed

lemma Store_Write_ok:
  assumes w: "Store_Write len io now name data s = (Inr u, s')" and r: "store_ready now s" and t: "now < t" "t < 2 ^ 63"
  shows "store_ready t s'" "n \<noteq> name \<Longrightarrow> Store_Domain n s' = Store_Domain n s" "dec data = Some v \<Longrightarrow> readCurrentLocked dec (Store_Domain name s') = Inr v"
proof -
  let ?d = "Store_Domain name s"
  let ?es = "fst (prune len io now (put_snapshot now data (dir_entries ?d)))"
  note d = ready_domain [OF r, of name]
  have io: "mkdir_ok io" "write_ok io" "rename_ok io"
    using w by (auto simp: Store_Write_def writeLocked_def Let_def split: if_splits prod.splits)
  have wl: "writeLocked len io now data ?d = (Inr (), Some ?es, int (len data) - int (snd (prune len io now (put_snapshot now data (dir_entries ?d)))))"
    using writeLocked_ok [OF io, of len now data ?d] by (simp add: Let_def dir_entries_def split_beta)
  then have s': "s' = (set_domain name (Some ?es) s)\<lparr>sizeBytes := sizeBytes s' \<rparr>" using w by (auto simp: Store_Write_def)
  have es: "dir_ok ?es" "clock_ahead t ?es"
    using prune_dir_ok [OF dir_ok_put_snapshot [OF d]] prune_behind [OF d(2) t] by auto
  let ?P = "\<lambda>d. dir_ok (snd d) \<and> clock_ahead t (snd d)"
  have "clock_ahead t e" if "clock_ahead now e" for e :: "'a entries"
    using that t by (auto simp: clock_ahead_def list_all_iff split: option.splits)
  then have "\<forall>x \<in> insert (name, ?es) (set (s_doms s)). ?P x" using r es by (auto simp: store_ready_def list_all_iff)
  then have "list_all ?P (AList.update name ?es (s_doms s))" using set_update_subset [of name ?es "s_doms s"] unfolding list_all_iff by blast
  then show "store_ready t s'" using r t by (subst s') (simp add: store_ready_def set_domain_def)
  show "Store_Domain n s' = Store_Domain n s" if "n \<noteq> name" using that by (subst s') simp
  show "readCurrentLocked dec (Store_Domain name s') = Inr v" if "dec data = Some v"
    using write_then_read [where dec = dec and data = data and v = v and len = len, OF d io that] wl by (subst s') auto
qed

definition writes_to :: "('d, 'r) mig_env \<Rightarrow> string \<Rightarrow> 'r \<Rightarrow> ('d, 'r) Store \<Rightarrow> 'd" where
  "writes_to env k v s =
     (if k = incidentsKey then me_raw env v else me_enc env ((Domain_AllKeys (me_dec env) (Some (Store_Domain (the (target k)) s)))(k \<mapsto> v)))"

lemma move_one_absent: "a k = None \<Longrightarrow> move_one env dryRun a (k, d) st = Inr st"
  by (auto simp: move_one_def moveIncidents_def moveKey_def)


lemma move_one_write:
  assumes "a k = Some v" "target k = Some d"
  shows "move_one env False a (k, d) st =
    (case Store_Write (me_len env) (me_io env (mg_count st)) (me_now env (mg_count st)) d (writes_to env k v (mg_store st)) (mg_store st) of
       (Inl e, s) \<Rightarrow> Inl (write_failed k d, s)
     | (Inr _, s) \<Rightarrow> Inr (st\<lparr>mg_actions := mg_actions st @ [action_line False k d @ (if k = incidentsKey then '' (whole blob)'' else [])],
          mg_store := s, mg_count := mg_count st + 1, mg_keys := mg_keys st @ [k]\<rparr>))"
proof (cases "k = incidentsKey")
  case True
  then have "d = incidentsDomain" using assms(2) target_incidents by (metis option.inject)
  then show ?thesis using True assms by (simp add: move_one_def moveIncidents_def moved_def put_domain_write writes_to_def Let_def split: prod.split sum.split)
next
  case False
  then show ?thesis using assms by (simp add: move_one_def moveKey_def moved_def put_domain_write writes_to_def Let_def split: prod.split sum.split)
qed

definition same_json :: "('d, 'r) mig_env \<Rightarrow> bool" where
  "same_json env \<longleftrightarrow> (\<forall>m. me_dec env (me_enc env m) = Some m)"

text \<open>A write brings its key to its domain and keeps what has arrived before.\<close>

lemma write_arrives:
  assumes w: "Store_Write len io now d (writes_to env k v s) s = (Inr u, s')" and t: "target k = Some d"
    and r: "store_ready now s" "now < t'" "t' < 2 ^ 63" and j: "same_json env"
  shows "arrived env k v s'" "arrived env k' v' s \<Longrightarrow> k' \<noteq> k \<Longrightarrow> arrived env k' v' s'"
proof -
  note ok = Store_Write_ok [OF w r]
  let ?m = "Domain_AllKeys (me_dec env) (Some (Store_Domain d s))"
  have m: "Domain_AllKeys (me_dec env) (Some (Store_Domain d s')) = ?m(k \<mapsto> v)" if "k \<noteq> incidentsKey"
    using ok(3) [of "me_dec env" "?m(k \<mapsto> v)"] that t j by (simp add: writes_to_def same_json_def Domain_AllKeys_def Domain_ReadCurrent_def)
  have b: "Domain_ReadCurrent Some (Some (Store_Domain d s')) = Inr (me_raw env v)" if "k = incidentsKey"
    using ok(3) [of Some "me_raw env v"] that by (simp add: writes_to_def Domain_ReadCurrent_def)
  show "arrived env k v s'" using m b t by (auto simp: arrived_def)
  show "arrived env k' v' s'" if a: "arrived env k' v' s" "k' \<noteq> k"
  proof -
    obtain d' where d': "target k' = Some d'" using a(1) by (auto simp: arrived_def split: option.splits)
    show ?thesis
    proof (cases "d' = d")
      case True
      then have "k \<noteq> incidentsKey" "k' \<noteq> incidentsKey" using a(2) t d' target_incidents by (metis option.inject)+
      then show ?thesis using a d' True m by (simp add: arrived_def)
    next
      case False
      then show ?thesis using a(1) d' ok(2) [OF False] by (simp add: arrived_def)
    qed
  qed
qed

lemma move_all_arrives:
  assumes "move_all env False a kds st = Inr st'" "\<forall>(k, d) \<in> set kds. target k = Some d" "same_json env"
    and "store_ready (me_now env (mg_count st)) (mg_store st)" "clock_ok env N" "mg_count st + length kds \<le> N"
    and "\<forall>k \<in> set (mg_keys st). \<exists>v. a k = Some v \<and> arrived env k v (mg_store st)"
  shows "s_attrs (mg_store st') = s_attrs (mg_store st)
    \<and> set (mg_keys st') = set (mg_keys st) \<union> {k \<in> fst ` set kds. a k \<noteq> None}
    \<and> (\<forall>k \<in> set (mg_keys st'). \<exists>v. a k = Some v \<and> arrived env k v (mg_store st'))"
  using assms
proof (induction kds arbitrary: st)
  case (Cons kd kds)
  obtain k d where kd: "kd = (k, d)" by fastforce
  then have t: "target k = Some d" using Cons.prems(2) by auto
  show ?case
  proof (cases "a k")
    case None
    then show ?thesis using Cons.prems Cons.IH [of st] by (auto simp: kd move_one_absent)
  next
    case (Some v)
    let ?n = "mg_count st"
    obtain u s where w: "Store_Write (me_len env) (me_io env ?n) (me_now env ?n) d (writes_to env k v (mg_store st)) (mg_store st) = (Inr u, s)"
      using Cons.prems(1) by (auto simp: kd move_one_write [of a k, OF Some t] split: sum.splits prod.splits)
    let ?st = "st\<lparr>mg_actions := mg_actions st @ [action_line False k d @ (if k = incidentsKey then '' (whole blob)'' else [])],
          mg_store := s, mg_count := ?n + 1, mg_keys := mg_keys st @ [k]\<rparr>"
    have c: "me_now env ?n < me_now env (Suc ?n)" "me_now env (Suc ?n) < 2 ^ 63"
      using Cons.prems(5,6) by (auto simp: clock_ok_def list_all_iff)
    note wa = write_arrives [OF w t Cons.prems(4) c Cons.prems(3)]
    have "\<forall>k' \<in> set (mg_keys ?st). \<exists>v. a k' = Some v \<and> arrived env k' v s"
      using Cons.prems(7) wa Some by auto (metis option.inject)
    moreover have "move_all env False a kds ?st = Inr st'" using Cons.prems(1) by (simp add: kd move_one_write [of a k, OF Some t] w)
    moreover have "store_ready (me_now env (mg_count ?st)) s" using Store_Write_ok(1) [OF w Cons.prems(4) c] by simp
    ultimately show ?thesis using Cons.IH [of ?st] Cons.prems(2,3,5,6) Store_Write_attrs [OF w] Some by (auto simp: kd)
  qed
qed auto

lemma move_all_fails:
  assumes "move_all env False a kds st = Inl (e, s')" "\<forall>(k, d) \<in> set kds. target k = Some d"
  shows "s_attrs s' = s_attrs (mg_store st)"
  using assms
proof (induction kds arbitrary: st)
  case (Cons kd kds)
  obtain k d where kd: "kd = (k, d)" by fastforce
  then have t: "target k = Some d" using Cons.prems(2) by auto
  show ?case
  proof (cases "a k")
    case None
    then show ?thesis using Cons by (simp add: kd move_one_absent)
  next
    case (Some v)
    then show ?thesis using Cons Store_Write_attrs by (fastforce simp: kd move_one_write [of a k, OF Some t] split: sum.splits prod.splits)
  qed
qed simp

lemma move_all_dry: "move_all env True a kds st = Inr st' \<Longrightarrow> mg_store st' = mg_store st"
  "move_all env True a kds st \<noteq> Inl e"
  by (induction kds arbitrary: st) (auto simp: move_one_def moveIncidents_def moveKey_def moved_def Let_def split: option.splits if_splits)

lemma move_all_actions:
  "move_all env dryRun a kds st = Inr st' \<Longrightarrow> length (mg_actions st) = length (mg_keys st) \<Longrightarrow> length (mg_actions st') = length (mg_keys st')"
  by (induction kds arbitrary: st)
    (auto simp: move_one_def moveIncidents_def moveKey_def moved_def Let_def split: option.splits if_splits sum.splits prod.splits)

lemma delete_keys_spec:
  assumes "s_attrs s = Attrs a" "delete_keys env ks n s = (e, s')"
  shows "s_doms s' = s_doms s \<and> (\<exists>a'. s_attrs s' = Attrs a' \<and> (\<forall>k. k \<notin> set ks \<longrightarrow> a' k = a k) \<and> (e = None \<longrightarrow> (\<forall>k \<in> set ks. a' k = None)))"
  using assms
proof (induction ks arbitrary: n s a)
  case (Cons k ks)
  obtain r s1 where d: "Store_AttrsDelete (me_mlen env) (me_io env n) k s = (r, s1)" by fastforce
  then have s1: "s_doms s1 = s_doms s" "s_attrs s1 = (if r = Inr () then Attrs (a(k := None)) else Attrs a)"
    using Cons.prems(1) by (auto simp: Store_AttrsDelete_def Attrs_Delete_def attrs_map_def attrs_write_def fun_upd_idem split: if_splits option.splits)
  show ?case
  proof (cases r)
    case (Inl x)
    then show ?thesis using Cons.prems s1 by (auto simp: d)
  next
    case (Inr u)
    then have "delete_keys env ks (n + 1) s1 = (e, s')" "s_attrs s1 = Attrs (a(k := None))" using Cons.prems(2) s1 by (auto simp: d)
    from Cons.IH [OF this(2,1)] show ?thesis using s1(1) by (auto split: if_splits)
  qed
qed auto

lemma New_simps [simp]: "s_attrs (Store_New len mlen s) = s_attrs s" "s_doms (Store_New len mlen s) = s_doms s"
  by (simp_all add: Store_New_def)

lemma arrived_doms: "s_doms s = s_doms s' \<Longrightarrow> arrived env k v s = arrived env k v s'"
  by (simp add: arrived_def Store_Domain_def split: option.split)

definition mig_start :: "('d, 'r) mig_env \<Rightarrow> ('d, 'r) Store \<Rightarrow> ('d, 'r) mig" where
  "mig_start env s = \<lparr>mg_store = Store_New (me_len env) (me_mlen env) s, mg_count = 0, mg_keys = [], mg_actions = []\<rparr>"

lemma mig_start_arrives:
  assumes "move_all env False a (all_moves ks) (mig_start env s) = Inr st" "set ks = dom a"
    and "store_ready (me_now env 0) s" "clock_ok env (length ks + 5)" "same_json env"
  shows "s_attrs (mg_store st) = s_attrs s" "set (mg_keys st) = {k. a k \<noteq> None \<and> target k \<noteq> None}"
    "a k = Some v \<Longrightarrow> target k \<noteq> None \<Longrightarrow> arrived env k v (mg_store st)"
proof -
  have i: "store_ready (me_now env (mg_count (mig_start env s))) (mg_store (mig_start env s))" "\<forall>(k, d) \<in> set (all_moves ks). target k = Some d"
    "mg_count (mig_start env s) + length (all_moves ks) \<le> length ks + 5"
    "\<forall>k \<in> set (mg_keys (mig_start env s)). \<exists>v. a k = Some v \<and> arrived env k v (mg_store (mig_start env s))"
    using assms(3) length_all_moves [of ks] moves_target by (auto simp: mig_start_def store_ready_def)
  have "s_attrs (mg_store (mig_start env s)) = s_attrs s" "mg_keys (mig_start env s) = []" by (simp_all add: mig_start_def)
  with move_all_arrives [OF assms(1) i(2) assms(5) i(1) assms(4) i(3,4)] have r: "s_attrs (mg_store st) = s_attrs s" "set (mg_keys st) = {k \<in> fst ` set (all_moves ks). a k \<noteq> None}"
    "\<forall>k \<in> set (mg_keys st). \<exists>v. a k = Some v \<and> arrived env k v (mg_store st)"
    by simp_all
  have "k \<in> fst ` set (all_moves ks) \<longleftrightarrow> target k \<noteq> None" if "k \<in> set ks" for k
  proof
    assume "k \<in> fst ` set (all_moves ks)"
    then obtain d where "(k, d) \<in> set (all_moves ks)" unfolding image_iff by (metis prod.collapse)
    then show "target k \<noteq> None" using moves_target by fastforce
  next
    assume "target k \<noteq> None"
    then show "k \<in> fst ` set (all_moves ks)" using target_moves that by (metis image_iff fst_conv not_None_eq)
  qed
  then have k: "{k \<in> fst ` set (all_moves ks). a k \<noteq> None} = {k. a k \<noteq> None \<and> target k \<noteq> None}" using assms(2) by blast
  show "s_attrs (mg_store st) = s_attrs s" by (rule r(1))
  show "set (mg_keys st) = {k. a k \<noteq> None \<and> target k \<noteq> None}" using r(2) k by simp
  then show "arrived env k v (mg_store st)" if "a k = Some v" "target k \<noteq> None" using r(3) that by auto
qed

lemma restrict_same: "(\<And>k. a k = None \<or> k \<in> A) \<Longrightarrow> a |` A = a"
  by (rule ext) (metis restrict_in restrict_out)

text \<open>The end of a run that has written everything: with \<open>-purge\<close> the keys are deleted one by one.\<close>

lemma finished:
  assumes m: "migrate env dryRun purge ks s = (out, err, s')" and ks: "ks \<noteq> []" and run: "move_all env dryRun a (all_moves ks) (mig_start env s) = Inr st"
    and d: "\<not> dryRun" and a: "s_attrs s = Attrs a" and attrs: "s_attrs (mg_store st) = s_attrs s"
    and keys: "set (mg_keys st) = {k. a k \<noteq> None \<and> target k \<noteq> None}"
    and here: "\<And>k v. a k = Some v \<Longrightarrow> target k \<noteq> None \<Longrightarrow> arrived env k v (mg_store st)"
  shows "(\<forall>k v. a k = Some v \<longrightarrow> attrs_map (s_attrs s') k = Some v \<or> arrived env k v s')
    \<and> (err = None \<longrightarrow> (\<forall>k v. a k = Some v \<and> target k \<noteq> None \<longrightarrow> arrived env k v s')
         \<and> attrs_map (s_attrs s') = (if purge then a |` {k. target k = None} else a))"
proof -
  have n: "length (mg_actions st) = length (mg_keys st)" using move_all_actions [OF run] by (simp add: mig_start_def)
  show ?thesis
  proof (cases "mg_keys st = [] \<or> \<not> purge")
    case True
    then have s': "s' = mg_store st" using m ks run d a n by (auto simp: migrate_def Let_def Attrs_All_def mig_start_def split: if_splits)
    have "a |` {k. target k = None} = a" if "mg_keys st = []" using keys that by (intro restrict_same) auto
    then show ?thesis using True here attrs a by (auto simp: s' attrs_map_def)
  next
    case False
    obtain e t where del: "delete_keys env (mg_keys st) (mg_count st) (mg_store st) = (e, t)" by fastforce
    then have e: "err = e" "s' = t" using m ks run d a n False by (auto simp: migrate_def Let_def Attrs_All_def mig_start_def split: option.splits if_splits)
    obtain a' where a': "s_doms t = s_doms (mg_store st)" "s_attrs t = Attrs a'" "\<forall>k. k \<notin> set (mg_keys st) \<longrightarrow> a' k = a k"
        "e = None \<longrightarrow> (\<forall>k \<in> set (mg_keys st). a' k = None)"
      using delete_keys_spec [OF _ del, of a] attrs a by auto
    have "arrived env k v t" if "a k = Some v" "target k \<noteq> None" for k v using here [OF that] arrived_doms [OF a'(1)] by simp
    moreover have "a' k = a k" if "target k = None" for k using a'(3) keys that by simp
    moreover have "a' = a |` {k. target k = None}" if "e = None"
      using a'(3,4) that keys by (auto simp: restrict_map_def fun_eq_iff)
    ultimately show ?thesis using False unfolding e a'(2) attrs_map_def attrs_file.case by metis
  qed
qed

section \<open>Claims\<close>

text \<open>
  C6: Whatever writes fail, each attribute of the old file is, when the migration ends, in the attribute file or readable in its new domain. A dry run
  changes nothing. A run that ends without a message has brought every key to be migrated to its domain, and leaves the attribute file as it was or,
  with \<open>-purge\<close>, with the other keys only.
\<close>

theorem migration_loses_nothing:
  assumes "s_attrs s = Attrs a" "set ks = dom a" "store_ready (me_now env 0) s" "clock_ok env (length ks + 5)" "same_json env"
    and m: "migrate env dryRun purge ks s = (out, err, s')"
  shows "(\<forall>k v. a k = Some v \<longrightarrow> attrs_map (s_attrs s') k = Some v \<or> arrived env k v s')
    \<and> (dryRun \<longrightarrow> s_attrs s' = s_attrs s \<and> s_doms s' = s_doms s)
    \<and> (err = None \<and> \<not> dryRun \<longrightarrow>
         (\<forall>k v. a k = Some v \<and> target k \<noteq> None \<longrightarrow> arrived env k v s')
         \<and> attrs_map (s_attrs s') = (if purge then a |` {k. target k = None} else a))"
proof (cases "ks = []")
  case True
  then have "a = Map.empty" using assms(2) by (metis dom_eq_empty_conv empty_set)
  then show ?thesis using True assms(1) m by (auto simp: migrate_def Let_def Attrs_All_def attrs_map_def)
next
  case ks: False
  let ?run = "move_all env dryRun a (all_moves ks) (mig_start env s)"
  have targets: "\<forall>(k, d) \<in> set (all_moves ks). target k = Some d" using moves_target by auto
  show ?thesis
  proof (cases ?run)
    case (Inl x)
    obtain e t where x: "x = (e, t)" by fastforce
    have "\<not> dryRun" using Inl move_all_dry(2) by (metis (full_types))
    then have "s_attrs t = s_attrs s" using move_all_fails [OF _ targets] Inl x by (fastforce simp: mig_start_def)
    moreover have "err = Some e" "s' = t" using m ks Inl x assms(1) by (auto simp: migrate_def Let_def Attrs_All_def mig_start_def)
    ultimately show ?thesis using assms(1) \<open>\<not> dryRun\<close> by (simp add: attrs_map_def)
  next
    case (Inr st)
    show ?thesis
    proof (cases dryRun)
      case True
      then have "mg_store st = Store_New (me_len env) (me_mlen env) s" using Inr move_all_dry(1) by (fastforce simp: mig_start_def)
      moreover have "s' = mg_store st" using m ks Inr True assms(1) by (simp add: migrate_def Let_def Attrs_All_def mig_start_def split: if_splits)
      ultimately have "s_attrs s' = s_attrs s" "s_doms s' = s_doms s" by simp_all
      then show ?thesis using assms(1) True by (simp add: attrs_map_def)
    next
      case False
      then have "move_all env False a (all_moves ks) (mig_start env s) = Inr st" using Inr by simp
      note r = mig_start_arrives [OF this assms(2-5)]
      show ?thesis using finished [OF m ks Inr False assms(1) r] False by blast
    qed
  qed
qed


subsection \<open>Witnesses\<close>

lemma entry_ns_code [code]:
  "entry_ns (n, f) = (case f of Dir \<Rightarrow> None | File _ \<Rightarrow> if HasSuffix n json_ext then parse_int64 (TrimSuffix n json_ext) else None)"
  by (simp add: entry_ns_def split: node.split)

text \<open>A snapshot is a map, or the blob of the incidents.\<close>

definition mig_demo :: "((string \<rightharpoonup> nat) + nat, nat) mig_env" where
  "mig_demo = \<lparr>me_len = (\<lambda>_. 1), me_mlen = (\<lambda>_. 0), me_dec = (\<lambda>d. case d of Inl m \<Rightarrow> Some m | Inr _ \<Rightarrow> None), me_enc = Inl, me_raw = Inr,
     me_now = (\<lambda>n. 100 + int n), me_io = (\<lambda>_. io_ok)\<rparr>"

definition mig_attrs :: "string \<rightharpoonup> nat" where
  "mig_attrs = [''connection_history'' \<mapsto> 1, ''incidents'' \<mapsto> 2, ''other'' \<mapsto> 3]"

definition mig_keys :: "string list" where "mig_keys = [''incidents'', ''other'', ''connection_history'']"

definition mig_store :: "((string \<rightharpoonup> nat) + nat, nat) Store" where
  "mig_store = \<lparr>s_doms = [(''Network'', [(''50.json'', File (Inl [''connection_history'' \<mapsto> 9, ''x'' \<mapsto> 5]))])], s_attrs = Attrs mig_attrs, sizeBytes = 1\<rparr>"

lemma mig_demo_ready:
  "set mig_keys = dom mig_attrs" "store_ready (me_now mig_demo 0) mig_store" "clock_ok mig_demo (length mig_keys + 5)" "same_json mig_demo"
proof -
  show "set mig_keys = dom mig_attrs" by (auto simp: mig_keys_def mig_attrs_def)
  have "list_all (\<lambda>d. clock_ahead 100 (snd d)) (s_doms mig_store)" by code_simp
  then show "store_ready (me_now mig_demo 0) mig_store" by (simp add: store_ready_def mig_demo_def mig_store_def dir_ok_def)
  show "clock_ok mig_demo (length mig_keys + 5)" by code_simp
  show "same_json mig_demo" by (simp add: same_json_def mig_demo_def)
qed

definition mig_result :: "string list \<times> string option \<times> ((string \<rightharpoonup> nat) + nat, nat) Store" where
  "mig_result = migrate mig_demo False True mig_keys mig_store"

theorem migration_loses_nothing_witness:
  "fst (snd mig_result) = None \<and> arrived mig_demo ''connection_history'' 1 (snd (snd mig_result)) \<and> arrived mig_demo ''incidents'' 2 (snd (snd mig_result))
    \<and> attrs_map (s_attrs (snd (snd mig_result))) = mig_attrs |` {k. target k = None}"
proof -
  have e: "fst (snd mig_result) = None" by code_simp
  have "migrate mig_demo False True mig_keys mig_store = (fst mig_result, fst (snd mig_result), snd (snd mig_result))" by (simp add: mig_result_def)
  moreover have "s_attrs mig_store = Attrs mig_attrs" by (simp add: mig_store_def)
  moreover have "mig_attrs ''connection_history'' = Some 1" "mig_attrs ''incidents'' = Some 2" by (simp_all add: mig_attrs_def)
  moreover have "target ''connection_history'' \<noteq> None" "target ''incidents'' \<noteq> None" by code_simp+
  ultimately show ?thesis using migration_loses_nothing [of mig_store mig_attrs, OF _ mig_demo_ready] e by auto
qed

text \<open>
  A second run, made only to purge, moves the keys again: what the agent has stored in the new domain since the first run is replaced by the old copy.
\<close>

lemma second_run_restores_old_value:
  "Domain_AllKeys (me_dec mig_demo) (Some (Store_Domain networkDomain mig_store)) connectionHistoryKey = Some 9
    \<and> Domain_AllKeys (me_dec mig_demo) (Some (Store_Domain networkDomain (snd (snd mig_result)))) connectionHistoryKey = Some 1"
  by (intro conjI; code_simp)

end
