(* ===== verification/Platforms.thy ===== *)
theory Platforms
  imports Drives Posture Listings
begin

text \<open>
  The readers of hosts that run Windows or macOS, which feed the checks, the connection monitor, the posture check and the survey. The output of
  commands, the results of system calls and the bytes of \<open>sysctl\<close> are arguments.
\<close>

section \<open>Words\<close>

text \<open>\<open>strings.EqualFold\<close> with a literal of upper-case ASCII letters: the long s and the Kelvin sign fold to them too.\<close>

definition fold_rune :: "rune \<Rightarrow> rune" where
  "fold_rune r = (if 97 \<le> r \<and> r \<le> 122 then r - 32 else if r = 383 then 83 else if r = 8490 then 75 else r)"

definition fold_equal :: "string \<Rightarrow> string \<Rightarrow> bool" where
  "fold_equal s lit \<longleftrightarrow> map fold_rune (runes s) = runes lit"

text \<open>\<open>binary.LittleEndian\<close> on a slice of bytes.\<close>

definition le_value :: "8 word list \<Rightarrow> nat" where
  "le_value bs = foldr (\<lambda>b acc. unat b + 256 * acc) bs 0"

definition le_uint32 :: "8 word list \<Rightarrow> nat \<Rightarrow> 32 word" where
  "le_uint32 raw off = of_nat (le_value (take 4 (drop off raw)))"

definition le_uint64 :: "8 word list \<Rightarrow> nat \<Rightarrow> 64 word" where
  "le_uint64 raw off = of_nat (le_value (take 8 (drop off raw)))"

section \<open>Processor\<close>

record filetime =
  ft_Low :: "32 word"
  ft_High :: "32 word"

definition filetime_uint64 :: "filetime \<Rightarrow> 64 word" where
  "filetime_uint64 f = or (push_bit 32 (ucast (ft_High f))) (ucast (ft_Low f))"

text \<open>The idle, kernel and user times of \<open>GetSystemTimes\<close>.\<close>

type_synonym system_times = "filetime \<times> filetime \<times> filetime"

definition windows_localCPU :: "int \<Rightarrow> string + system_times \<Rightarrow> string option \<Rightarrow> string + system_times \<Rightarrow> string + CPUStat" where
  "windows_localCPU ncpu r1 stopped r2 =
     (case r1 of Inl e \<Rightarrow> Inl (''cpu_usage: GetSystemTimes: '' @ e)
      | Inr (idle1, kernel1, user1) \<Rightarrow>
          (case stopped of Some e \<Rightarrow> Inl e
           | None \<Rightarrow>
               (case r2 of Inl e \<Rightarrow> Inl (''cpu_usage: GetSystemTimes: '' @ e)
                | Inr (idle2, kernel2, user2) \<Rightarrow>
                    Inr \<lparr>cs_UsedPct = used_share
                           ((filetime_uint64 kernel2 + filetime_uint64 user2) - (filetime_uint64 kernel1 + filetime_uint64 user1))
                           (filetime_uint64 idle2 - filetime_uint64 idle1),
                         cs_NumCPU = ncpu, cs_LoadAvg1 = 0, cs_LoadAvg5 = 0, cs_LoadAvg15 = 0\<rparr>)))"

record darwin_ticks =
  dt_user :: "64 word"
  dt_nice :: "64 word"
  dt_sys :: "64 word"
  dt_intr :: "64 word"
  dt_idle :: "64 word"

definition darwin_total :: "darwin_ticks \<Rightarrow> 64 word" where
  "darwin_total t = dt_user t + dt_nice t + dt_sys t + dt_intr t + dt_idle t"

text \<open>\<open>kern.cp_time\<close>: five counters of 32 bits.\<close>

definition readCPTime :: "string + 8 word list \<Rightarrow> string + darwin_ticks" where
  "readCPTime r =
     (case r of Inl e \<Rightarrow> Inl (''cpu_usage: kern.cp_time: '' @ e)
      | Inr raw \<Rightarrow>
          if length raw < 20 then Inl (''cpu_usage: kern.cp_time: short read ('' @ show_nat (length raw) @ '' bytes)'')
          else let field = \<lambda>i. ucast (le_uint32 raw (i * 4))
            in Inr \<lparr>dt_user = field 0, dt_nice = field 1, dt_sys = field 2, dt_intr = field 3, dt_idle = field 4\<rparr>)"

definition darwin_readLoadAvg :: "8 word list option \<Rightarrow> rat \<times> rat \<times> rat" where
  "darwin_readLoadAvg r =
     (case r of None \<Rightarrow> (0, 0, 0)
      | Some raw \<Rightarrow>
          if length raw < 20 then (0, 0, 0)
          else
            let fscale = of_nat (unat (le_uint64 raw 12)); load = \<lambda>off. of_nat (unat (le_uint32 raw off)) / fscale
            in if fscale = 0 then (0, 0, 0) else (load 0, load 4, load 8))"

definition darwin_localCPU ::
    "int \<Rightarrow> string + 8 word list \<Rightarrow> string option \<Rightarrow> string + 8 word list \<Rightarrow> 8 word list option \<Rightarrow> string + CPUStat" where
  "darwin_localCPU ncpu r1 stopped r2 loads =
     (case readCPTime r1 of Inl e \<Rightarrow> Inl e
      | Inr t1 \<Rightarrow>
          (case stopped of Some e \<Rightarrow> Inl e
           | None \<Rightarrow>
               (case readCPTime r2 of Inl e \<Rightarrow> Inl e
                | Inr t2 \<Rightarrow>
                    (case darwin_readLoadAvg loads of (l1, l5, l15) \<Rightarrow>
                       Inr \<lparr>cs_UsedPct = used_share (darwin_total t2 - darwin_total t1) (dt_idle t2 - dt_idle t1), cs_NumCPU = ncpu,
                            cs_LoadAvg1 = l1, cs_LoadAvg5 = l5, cs_LoadAvg15 = l15\<rparr>))))"

section \<open>Memory\<close>

record memoryStatusEx =
  mx_TotalPhys :: "64 word"
  mx_AvailPhys :: "64 word"
  mx_TotalPageFile :: "64 word"
  mx_AvailPageFile :: "64 word"

definition windows_localMemory :: "string + memoryStatusEx \<Rightarrow> string + MemStat" where
  "windows_localMemory r =
     (case r of Inl e \<Rightarrow> Inl (''memory_monitor: GlobalMemoryStatusEx: '' @ e)
      | Inr ms \<Rightarrow>
          let paged = mx_TotalPageFile ms > mx_TotalPhys ms
          in Inr \<lparr>ms_Total = mx_TotalPhys ms, ms_Available = mx_AvailPhys ms,
                  ms_SwapTotal = (if paged then mx_TotalPageFile ms - mx_TotalPhys ms else 0),
                  ms_SwapFree = (if paged \<and> mx_AvailPageFile ms > mx_AvailPhys ms then mx_AvailPageFile ms - mx_AvailPhys ms else 0)\<rparr>)"

text \<open>The values of \<open>sysctl\<close>: a failed \<open>vm.page_speculative_count\<close> or \<open>vm.swapusage\<close> is ignored.\<close>

record darwin_memory =
  dm_memsize :: "string + 64 word"
  dm_pagesize :: "string + 32 word"
  dm_free :: "string + 32 word"
  dm_speculative :: "32 word option"
  dm_swapusage :: "8 word list option"

definition darwin_localMemory :: "darwin_memory \<Rightarrow> string + MemStat" where
  "darwin_localMemory d =
     (case dm_memsize d of Inl e \<Rightarrow> Inl (''memory_monitor: hw.memsize: '' @ e)
      | Inr totalMem \<Rightarrow>
     (case dm_pagesize d of Inl e \<Rightarrow> Inl (''memory_monitor: hw.pagesize: '' @ e)
      | Inr pageSize \<Rightarrow>
     (case dm_free d of Inl e \<Rightarrow> Inl (''memory_monitor: vm.page_free_count: '' @ e)
      | Inr freePages \<Rightarrow>
          let specPages = (case dm_speculative d of None \<Rightarrow> 0 | Some n \<Rightarrow> n);
              (swapTotal, swapFree) = (case dm_swapusage d of None \<Rightarrow> (0, 0)
                | Some raw \<Rightarrow> if length raw \<ge> 16 then (le_uint64 raw 0, le_uint64 raw 8) else (0, 0))
          in Inr \<lparr>ms_Total = totalMem, ms_Available = (ucast freePages + ucast specPages) * ucast pageSize,
                  ms_SwapTotal = swapTotal, ms_SwapFree = swapFree\<rparr>)))"

section \<open>Connections\<close>

text \<open>\<open>strings.Split(line, sep)\<close> is needed for its first two parts only: the separator is a quote, a comma and a quote.\<close>

definition csv_sep :: string where "csv_sep = [CHR 0x22, CHR 0x2C, CHR 0x22]"

definition pid_line :: "string \<Rightarrow> (string \<rightharpoonup> string) \<Rightarrow> (string \<rightharpoonup> string)" where
  "pid_line line names =
     (case split_n csv_sep 3 line of
        p0 # p1 # _ \<Rightarrow> if parse_int64 p1 \<noteq> None then names(p1 \<mapsto> TrimPrefix p0 [CHR 0x22]) else names
      | _ \<Rightarrow> names)"

definition pidNames :: "string option \<Rightarrow> (string \<rightharpoonup> string)" where
  "pidNames out = (case out of None \<Rightarrow> Map.empty | Some s \<Rightarrow> fold pid_line (split_lines s) Map.empty)"

definition netstat_line :: "(string \<rightharpoonup> string) \<Rightarrow> string \<Rightarrow> Conn option" where
  "netstat_line names line =
     (let fs = Fields line in
      if length fs < 5 \<or> \<not> fold_equal (fs ! 0) ''TCP'' \<or> fold_equal (fs ! 3) ''LISTENING'' then None
      else
        let (la, lp) = splitHostPort (fs ! 1); (ra, rp) = splitHostPort (fs ! 2)
        in Some \<lparr>cn_Proto = ''tcp'', cn_LocalAddr = la, cn_LocalPort = lp, cn_RemoteAddr = ra, cn_RemotePort = rp, cn_State = fs ! 3, cn_PID = fs ! 4,
             cn_Process = (case names (fs ! 4) of None \<Rightarrow> [] | Some n \<Rightarrow> n)\<rparr>)"

definition parseNetstatConns :: "string \<Rightarrow> (string \<rightharpoonup> string) \<Rightarrow> Conn list" where
  "parseNetstatConns out names = List.map_filter (netstat_line names) (split_lines out)"

definition windows_snapshot :: "string + string \<Rightarrow> string option \<Rightarrow> string + Conn list" where
  "windows_snapshot netstat tasklist =
     (case netstat of Inl e \<Rightarrow> Inl (''connmonitor: netstat: '' @ e) | Inr out \<Rightarrow> Inr (parseNetstatConns out (pidNames tasklist)))"

definition trim_parens :: "string \<Rightarrow> string" where
  "trim_parens s = rev (dropWhile (\<lambda>c. c \<in> {CHR ''('', CHR '')''}) (rev (dropWhile (\<lambda>c. c \<in> {CHR ''('', CHR '')''}) s)))"

definition lsof_line :: "string \<Rightarrow> Conn option" where
  "lsof_line line =
     (let fs = Fields line in
      if length fs < 9 \<or> fs ! 0 = ''COMMAND'' then None
      else
        let proto = ToLower (fs ! 7) in
        if proto \<noteq> ''tcp'' \<and> proto \<noteq> ''udp'' then None
        else case split_n ''->'' 2 (fs ! 8) of
            [src, dst] \<Rightarrow>
              let (la, lp) = splitHostPort src; (ra, rp) = splitHostPort dst
              in Some \<lparr>cn_Proto = proto, cn_LocalAddr = la, cn_LocalPort = lp, cn_RemoteAddr = ra, cn_RemotePort = rp,
                   cn_State = (if length fs > 9 then trim_parens (fs ! 9) else []), cn_PID = fs ! 1, cn_Process = fs ! 0\<rparr>
          | _ \<Rightarrow> None)"

definition parseLsofConns :: "string \<Rightarrow> Conn list" where
  "parseLsofConns out = List.map_filter lsof_line (split_lines out)"

definition darwin_snapshot :: "string + string \<Rightarrow> string + Conn list" where
  "darwin_snapshot lsof = (case lsof of Inl e \<Rightarrow> Inl (''connmonitor: lsof: '' @ e) | Inr out \<Rightarrow> Inr (parseLsofConns out))"

section \<open>Network counters\<close>

text \<open>An adapter of \<open>GetAdaptersInfo\<close>: is it a software loopback, and its row if \<open>GetIfEntry2Ex\<close> succeeds: is it up, and its octets. The size
  that the first call gives is not zero when it reports an overflow.\<close>

type_synonym adapter = "bool \<times> (bool \<times> 64 word \<times> 64 word) option"

definition add_adapter :: "adapter \<Rightarrow> 64 word \<times> 64 word \<Rightarrow> 64 word \<times> 64 word" where
  "add_adapter ai acc =
     (case ai of
        (False, Some (True, inOctets, outOctets)) \<Rightarrow> (fst acc + inOctets, snd acc + outOctets)
      | _ \<Rightarrow> acc)"

definition windows_net :: "string option \<Rightarrow> string + adapter list \<Rightarrow> string + 64 word \<times> 64 word" where
  "windows_net sizing adapters =
     (case sizing of Some e \<Rightarrow> Inl (''netmon: GetAdaptersInfo size: '' @ e)
      | None \<Rightarrow> (case adapters of Inl e \<Rightarrow> Inl (''netmon: GetAdaptersInfo: '' @ e) | Inr ais \<Rightarrow> Inr (fold add_adapter ais (0, 0))))"

text \<open>
  The routing messages of macOS: the first two bytes are the length, the fourth is the type. \<open>info\<close> reads the fields of a message of type
  \<open>RTM_IFINFO2\<close>: does it count (up and no loopback), and its octets; \<open>hdr\<close> is the least length of such a message.
\<close>

function iflist_loop ::
    "8 word \<Rightarrow> nat \<Rightarrow> (8 word list \<Rightarrow> bool \<times> 64 word \<times> 64 word) \<Rightarrow> 8 word list \<Rightarrow> 64 word \<times> 64 word \<Rightarrow> 64 word \<times> 64 word" where
  "iflist_loop ty hdr info bytes acc =
     (let n = le_value (take 2 bytes) in
      if length bytes < 4 \<or> n < 4 \<or> n > length bytes then acc
      else iflist_loop ty hdr info (drop n bytes)
        (if bytes ! 3 = ty \<and> n \<ge> hdr
         then case info (take hdr bytes) of (counts, i, out) \<Rightarrow> if counts then (fst acc + i, snd acc + out) else acc
         else acc))"
  by pat_completeness auto
termination
  by (relation "measure (\<lambda>(ty, hdr, info, bytes, acc). length bytes)") auto

declare iflist_loop.simps [simp del]

definition darwin_net ::
    "8 word \<Rightarrow> nat \<Rightarrow> (8 word list \<Rightarrow> bool \<times> 64 word \<times> 64 word) \<Rightarrow> string + 8 word list \<Rightarrow> string + 64 word \<times> 64 word" where
  "darwin_net ty hdr info r =
     (case r of Inl e \<Rightarrow> Inl (''netmon: sysctl NET_RT_IFLIST2: '' @ e) | Inr bytes \<Rightarrow> Inr (iflist_loop ty hdr info bytes (0, 0)))"

section \<open>PowerShell objects\<close>

text \<open>PowerShell prints a bare object when there is exactly one. \<open>None\<close> stands for the empty output and for \<open>null\<close>.\<close>

definition ps_array :: "(json \<Rightarrow> 'a option) \<Rightarrow> string \<Rightarrow> 'a list option + unit" where
  "ps_array dec data =
     (let trimmed = TrimSpace data in
      if trimmed = [] \<or> trimmed = ''null'' then Inl None
      else case parse_json (if HasPrefix trimmed ''['' then trimmed else ''['' @ trimmed @ '']'') of
          Some (JArray vs) \<Rightarrow> (case all_some (map dec vs) of None \<Rightarrow> Inr () | Some xs \<Rightarrow> Inl (Some xs))
        | _ \<Rightarrow> Inr ())"

definition ps_list :: "'a list option + unit \<Rightarrow> 'a list option" where
  "ps_list r = (case r of Inr _ \<Rightarrow> None | Inl None \<Rightarrow> Some [] | Inl (Some xs) \<Rightarrow> Some xs)"

record PSThermalZone =
  tz_InstanceName :: string
  tz_CurrentTemperature :: int

definition dec_zone :: "json \<Rightarrow> PSThermalZone option" where
  "dec_zone v =
     (case object_members v of None \<Rightarrow> None
      | Some ms \<Rightarrow> (case (string_field ''InstanceName'' ms, int_field ''CurrentTemperature'' ms) of
            (Some n, Some t) \<Rightarrow> Some \<lparr>tz_InstanceName = n, tz_CurrentTemperature = t\<rparr>
          | _ \<Rightarrow> None))"

definition ParsePSThermalZones :: "string \<Rightarrow> PSThermalZone list option" where
  "ParsePSThermalZones data = ps_list (ps_array dec_zone data)"

text \<open>Tenths of a Kelvin. The output of the command, and whether it failed.\<close>

definition zone_temp :: "PSThermalZone \<Rightarrow> TempSensor" where
  "zone_temp z =
     \<lparr>sn_Name = (if tz_InstanceName z = [] then ''ACPI Thermal Zone'' else tz_InstanceName z),
      sn_CelsiusC = of_int (tz_CurrentTemperature z) / 10 - 27315 / 100\<rparr>"

definition windows_localTemps :: "string \<times> bool \<Rightarrow> TempSensor list" where
  "windows_localTemps r =
     (case r of (out, failed) \<Rightarrow>
        if failed \<and> out = [] then []
        else case ParsePSThermalZones out of None \<Rightarrow> [] | Some zones \<Rightarrow> map zone_temp zones)"

section \<open>Drives\<close>

record PSPhysicalDisk =
  pd_DeviceId :: int
  pd_FriendlyName :: string
  pd_MediaType :: string
  pd_HealthStatus :: string
  pd_OperationalStatus :: string

definition dec_physical :: "json \<Rightarrow> PSPhysicalDisk option" where
  "dec_physical v =
     (case object_members v of None \<Rightarrow> None
      | Some ms \<Rightarrow>
          (case (int_field ''DeviceId'' ms, string_field ''FriendlyName'' ms, string_field ''MediaType'' ms, string_field ''HealthStatus'' ms,
                 string_field ''OperationalStatus'' ms) of
             (Some i, Some n, Some t, Some h, Some s) \<Rightarrow>
               Some \<lparr>pd_DeviceId = i, pd_FriendlyName = n, pd_MediaType = t, pd_HealthStatus = h, pd_OperationalStatus = s\<rparr>
           | _ \<Rightarrow> None))"

definition ParsePSPhysicalDisks :: "string \<Rightarrow> PSPhysicalDisk list option" where
  "ParsePSPhysicalDisks data = ps_list (ps_array dec_physical data)"

definition drive_name :: "int \<Rightarrow> string" where "drive_name n = ''PhysicalDrive'' @ show_int n"

definition PhysicalDiskToReport :: "PSPhysicalDisk \<Rightarrow> SmartReport" where
  "PhysicalDiskToReport d =
     (let fs = (if pd_HealthStatus d \<noteq> ''Healthy'' then [''HealthStatus: '' @ pd_HealthStatus d] else []) @
               (if pd_OperationalStatus d \<noteq> ''OK'' then [''OperationalStatus: '' @ pd_OperationalStatus d] else []) @
               (if pd_MediaType d \<noteq> [] \<and> pd_MediaType d \<noteq> ''Unspecified'' then [''MediaType: '' @ pd_MediaType d] else [])
      in \<lparr>sr_Device = drive_name (pd_DeviceId d) @ '' ('' @ pd_FriendlyName d @ '')'', sr_Available = True, sr_Healthy = (pd_HealthStatus d = ''Healthy''),
          sr_Findings = (if fs = [] then [''No issues detected''] else fs)\<rparr>)"

text \<open>\<open>fmt.Sscanf(s, "%d", &n)\<close>: blanks, a sign and digits; what follows is not read.\<close>

definition scan_int :: "string \<Rightarrow> int option" where
  "scan_int s =
     (let t = dropWhile (\<lambda>c. c = CHR '' '' \<or> c = CHR 0x09) s;
          sign = takeWhile (\<lambda>c. c = CHR 0x2D \<or> c = CHR 0x2B) (take 1 t)
      in parse_int64 (sign @ takeWhile is_digit (drop (length sign) t)))"

definition drive_number :: "string \<Rightarrow> int option" where
  "drive_number device = scan_int (TrimPrefix device ''PhysicalDrive'')"

text \<open>\<open>query n\<close>: the output of the query for disk \<open>n\<close>, and whether it failed.\<close>

definition windows_CheckSmart :: "(int \<Rightarrow> string \<times> bool) \<Rightarrow> string \<Rightarrow> SmartReport list" where
  "windows_CheckSmart query device =
     (if device = [] then []
      else case drive_number device of
          None \<Rightarrow> []
        | Some n \<Rightarrow>
            (case query n of (out, failed) \<Rightarrow>
               if failed \<and> out = [] then []
               else case ParsePSPhysicalDisks out of None \<Rightarrow> [] | Some ds \<Rightarrow> map PhysicalDiskToReport ds))"

definition dec_counter :: "json \<Rightarrow> (string \<times> int) list option" where
  "dec_counter v =
     (case object_members v of None \<Rightarrow> None
      | Some ms \<Rightarrow>
          (case (int_field ''DeviceId'' ms, int_field ''Temperature'' ms, int_field ''Wear'' ms, int_field ''ReadErrorsTotal'' ms, int_field ''WriteErrorsTotal'' ms) of
             (Some _, Some t, Some w, Some r, Some e) \<Rightarrow> Some [(''Wear'', w), (''Temperature_C'', t), (''ReadErrors'', r), (''WriteErrors'', e)]
           | _ \<Rightarrow> None))"

definition ParseReliabilityCounter :: "string \<Rightarrow> (string \<times> int) list option" where
  "ParseReliabilityCounter data =
     (case ps_list (ps_array dec_counter data) of None \<Rightarrow> None | Some [] \<Rightarrow> Some [] | Some (c # _) \<Rightarrow> Some c)"

definition windows_raw_attrs :: "(int \<Rightarrow> string \<times> bool) \<Rightarrow> string \<Rightarrow> (string \<times> (string \<times> int) list) option" where
  "windows_raw_attrs query device =
     (case drive_number device of
        None \<Rightarrow> None
      | Some n \<Rightarrow>
          (case query n of (out, failed) \<Rightarrow>
             if failed \<and> out = [] then None
             else case ParseReliabilityCounter out of None \<Rightarrow> None | Some as \<Rightarrow> if as = [] then None else Some (device, as)))"

definition windows_CollectRawSmartAttrs :: "(int \<Rightarrow> string \<times> bool) \<Rightarrow> DiskStat list \<Rightarrow> (string \<times> (string \<times> int) list) list" where
  "windows_CollectRawSmartAttrs query disks =
     List.map_filter (windows_raw_attrs query) (rev (remdups (rev (filter (\<lambda>dev. dev \<noteq> []) (map dk_Device disks)))))"

definition dec_partition :: "json \<Rightarrow> (string \<times> int) option" where
  "dec_partition v =
     (case object_members v of None \<Rightarrow> None
      | Some ms \<Rightarrow> (case (string_field ''DriveLetter'' ms, int_field ''DiskNumber'' ms) of (Some l, Some n) \<Rightarrow> Some (l, n) | _ \<Rightarrow> None))"

text \<open>A nil map is read like an empty one.\<close>

definition driveLetterToDiskNumber :: "string option \<Rightarrow> (string \<rightharpoonup> int)" where
  "driveLetterToDiskNumber out =
     (case out of None \<Rightarrow> Map.empty
      | Some s \<Rightarrow>
          (case ps_list (ps_array dec_partition s) of
             None \<Rightarrow> Map.empty
           | Some ps \<Rightarrow> fold (\<lambda>(l, n) m. if l \<noteq> [] then m(ToUpper l \<mapsto> n) else m) ps Map.empty))"

definition drive_letters :: string where "drive_letters = ''ABCDEFGHIJKLMNOPQRSTUVWXYZ''"

text \<open>\<open>fixed\<close>: the drives of type \<open>DRIVE_FIXED\<close>; \<open>space\<close>: the total and the free bytes.\<close>

definition windows_drive :: "(string \<rightharpoonup> int) \<Rightarrow> (char \<Rightarrow> bool) \<Rightarrow> (char \<Rightarrow> (64 word \<times> 64 word) option) \<Rightarrow> char \<Rightarrow> DiskStat option" where
  "windows_drive diskMap fixed space l =
     (if \<not> fixed l then None
      else case space l of
          None \<Rightarrow> None
        | Some (totalBytes, freeBytes) \<Rightarrow>
            Some \<lparr>dk_Mount = [l, CHR '':'', CHR 0x5C], dk_Device = (case diskMap [l] of None \<Rightarrow> [] | Some n \<Rightarrow> drive_name n),
                  dk_Total = totalBytes, dk_Free = freeBytes, dk_FSType = []\<rparr>)"

definition windows_localDisks :: "string option \<Rightarrow> (char \<Rightarrow> bool) \<Rightarrow> (char \<Rightarrow> (64 word \<times> 64 word) option) \<Rightarrow> DiskStat list" where
  "windows_localDisks partitions fixed space = List.map_filter (windows_drive (driveLetterToDiskNumber partitions) fixed space) drive_letters"

text \<open>A mount of \<open>getfsstat\<close>: is it local, its names, and its block size and blocks.\<close>

record darwin_mount =
  dw_local :: bool
  dw_on :: string
  dw_from :: string
  dw_fstype :: string
  dw_Bsize :: "32 word"
  dw_Blocks :: "64 word"
  dw_Bfree :: "64 word"

definition darwin_disk :: "darwin_mount \<Rightarrow> DiskStat option" where
  "darwin_disk m =
     (if dw_local m
      then Some \<lparr>dk_Mount = dw_on m, dk_Device = dw_from m, dk_Total = ucast (dw_Bsize m) * dw_Blocks m, dk_Free = ucast (dw_Bsize m) * dw_Bfree m, dk_FSType = dw_fstype m\<rparr>
      else None)"

definition darwin_localDisks :: "string + nat \<Rightarrow> string + darwin_mount list \<Rightarrow> string + DiskStat list" where
  "darwin_localDisks count mounts =
     (case count of Inl e \<Rightarrow> Inl (''disk_monitor: getfsstat count: '' @ e)
      | Inr n \<Rightarrow>
          if n = 0 then Inr []
          else case mounts of Inl e \<Rightarrow> Inl (''disk_monitor: getfsstat: '' @ e) | Inr ms \<Rightarrow> Inr (List.map_filter darwin_disk ms))"

definition darwin_parentDevices :: "string \<Rightarrow> string list" where
  "darwin_parentDevices device =
     (if device = [] then []
      else
        let d1 = takeWhile is_digit (drop 9 device); rest = drop (9 + length d1) device; d2 = List.tl rest in
        if HasPrefix device ''/dev/disk'' \<and> d1 \<noteq> [] \<and> rest \<noteq> [] \<and> hd rest = CHR ''s'' \<and> d2 \<noteq> [] \<and> list_all is_digit d2
        then [''/dev/disk'' @ d1] else [device])"

section \<open>Posture\<close>

definition win_port_entry :: "(string \<rightharpoonup> string) \<Rightarrow> string \<Rightarrow> string option" where
  "win_port_entry names line =
     (let fs = Fields line;
          entry = \<lambda>proto local pid. proto @ '' '' @ local @
            (case names pid of Some n \<Rightarrow> '' ('' @ n @ '')'' | None \<Rightarrow> if pid \<noteq> [] then '' (pid '' @ pid @ '')'' else [])
      in if length fs < 4 then None
         else if ToUpper (fs ! 0) = ''TCP'' then
           (if length fs < 5 \<or> \<not> fold_equal (fs ! 3) ''LISTENING'' then None else Some (entry ''tcp'' (fs ! 1) (fs ! 4)))
         else if ToUpper (fs ! 0) = ''UDP'' then Some (entry ''udp'' (fs ! 1) (fs ! 3))
         else None)"

definition win_listeningPorts :: "string + string \<Rightarrow> string option \<Rightarrow> string + string list" where
  "win_listeningPorts netstat tasklist =
     (case netstat of Inl e \<Rightarrow> Inl e
      | Inr out \<Rightarrow> Inr (rev (remdups (rev (List.map_filter (win_port_entry (pidNames tasklist)) (split_lines out))))))"

definition nonempty_lines :: "string \<Rightarrow> string list" where
  "nonempty_lines out = filter (\<lambda>l. l \<noteq> []) (map TrimSpace (split_lines out))"

definition win_localUsers :: "string + string \<Rightarrow> string + string list" where
  "win_localUsers r = map_sum id nonempty_lines r"

definition admin_line :: "string \<Rightarrow> bool \<times> string list \<Rightarrow> bool \<times> string list" where
  "admin_line line st =
     (let t = TrimSpace line in
      if HasPrefix t ''----'' then (True, snd st)
      else if HasPrefix t ''The command completed'' then (False, snd st)
      else if fst st \<and> t \<noteq> [] then (True, snd st @ [t]) else st)"

definition administrators :: "string + string \<Rightarrow> string + string list" where
  "administrators r = map_sum id (\<lambda>out. snd (fold admin_line (split_lines out) (False, []))) r"

definition err_note :: "string \<Rightarrow> string + string list \<Rightarrow> string list" where
  "err_note what r = (case r of Inl e \<Rightarrow> [what @ '': '' @ e] | Inr _ \<Rightarrow> [])"

definition windows_gather :: "string + string \<Rightarrow> string option \<Rightarrow> string + string \<Rightarrow> string + string \<Rightarrow> PostureSnapshot" where
  "windows_gather netstat tasklist localUsers localGroup =
     (let ports = win_listeningPorts netstat tasklist; users = win_localUsers localUsers; admins = administrators localGroup
      in \<lparr>sn_ListeningPorts = sort_strings (or_nil ports), sn_Users = sort_strings (or_nil users), sn_AdminUsers = sort_strings (or_nil admins),
          sn_SudoersHash = [], sn_AuthorizedKeys = [], sn_SetuidBinaries = [],
          sn_Errors = err_note ''listening ports'' ports @ err_note ''users'' users @ err_note ''admin users'' admins\<rparr>)"

section \<open>The shell and the survey of Windows\<close>

definition powershell_argv :: "string \<Rightarrow> string list" where
  "powershell_argv script = [''powershell.exe'', ''-NoProfile'', ''-NonInteractive'', ''-Command'', script]"

text \<open>The program and its arguments; \<open>None\<close> is the panic of an index out of range.\<close>

definition windows_runShell :: "string \<Rightarrow> string list option" where
  "windows_runShell command =
     (case Fields command of
        [] \<Rightarrow> None
      | f # _ \<Rightarrow>
          let first = ToLower f in
          Some (if first = ''powershell'' \<or> first = ''powershell.exe'' then
                  (case split_n '' '' 2 command of [p, remainder] \<Rightarrow> powershell_argv (TrimSpace remainder) | ps \<Rightarrow> [hd ps])
                else if isPowerShellReadOnlyCmdlet first then powershell_argv command
                else [''cmd'', ''/c'', command]))"

definition psValue :: "string option \<Rightarrow> string" where
  "psValue r = (case r of None \<Rightarrow> [] | Some out \<Rightarrow> TrimSpace out)"

definition psLines :: "string option \<Rightarrow> string list" where
  "psLines r = (case r of None \<Rightarrow> [] | Some out \<Rightarrow> nonempty_lines out)"

definition ParseUint_value :: "string \<Rightarrow> 64 word" where
  "ParseUint_value s = (case ParseUint s of Inl v \<Rightarrow> v | Inr v \<Rightarrow> v)"

definition windows_disk_line :: "string \<Rightarrow> Disk option" where
  "windows_disk_line line =
     (case split_n ''|'' 3 line of
        [d, sz, model] \<Rightarrow> Some \<lparr>di_Device = d, di_SizeBytes = ParseUint_value sz, di_Model = model\<rparr>
      | _ \<Rightarrow> None)"

definition windows_iface_line :: "string \<Rightarrow> NetInterface option" where
  "windows_iface_line line =
     (case split_n ''|'' 3 line of
        [n, mac, speed] \<Rightarrow>
          Some \<lparr>ni_Name = n, ni_MAC = mac, ni_SpeedMbps = (case ParseUint speed of Inl _ \<Rightarrow> 0 | Inr bps \<Rightarrow> int (unat bps div 1000000))\<rparr>
      | _ \<Rightarrow> None)"

record windows_survey =
  ws_hostname :: "string option"
  ws_caption :: "string option"
  ws_version :: "string option"
  ws_cpu :: "string option"
  ws_cores :: "string option"
  ws_memory :: "string option"
  ws_disks :: "string option"
  ws_adapters :: "string option"

definition windows_info :: "windows_survey \<Rightarrow> HostInfo" where
  "windows_info w =
     \<lparr>if_Hostname = or_empty (ws_hostname w), if_OS = ''windows'', if_Distribution = psValue (ws_caption w), if_Version = psValue (ws_version w),
      sy_Kernel = psValue (ws_version w), sy_CPUModel = psValue (ws_cpu w), sy_CPUCores = atoi_value (psValue (ws_cores w)),
      sy_MemoryBytes = ParseUint_value (psValue (ws_memory w)),
      sy_Disks = List.map_filter windows_disk_line (psLines (ws_disks w)),
      sy_NetInterfaces = List.map_filter windows_iface_line (psLines (ws_adapters w))\<rparr>"


section \<open>Lemmas and theorems\<close>


lemma filetime_value: "unat (filetime_uint64 f) = unat (ft_High f) * 2 ^ 32 + unat (ft_Low f)"
proof -
  let ?h = "unat (ft_High f)" and ?l = "unat (ft_Low f)"
  have b: "?h < 2 ^ 32" "?l < 2 ^ 32" using unsigned_less [of "ft_High f", where 'a = nat] unsigned_less [of "ft_Low f", where 'a = nat] by simp_all
  have "unat (filetime_uint64 f) = or (take_bit 64 (push_bit 32 (take_bit 64 ?h))) (take_bit 64 ?l)"
    by (simp add: filetime_uint64_def unsigned_or_eq unsigned_push_bit_eq unsigned_ucast_eq)
  also have "\<dots> = or (push_bit 32 ?h) ?l"
    using b by (simp add: take_bit_nat_eq_self_iff push_bit_eq_mult take_bit_eq_mod)
  also have "\<dots> = push_bit 32 ?h + ?l"
    by (rule disjunctive_add_eq_or [symmetric]) (auto simp: bit_eq_iff bit_simps dest: bit_imp_le_length)
  finally show ?thesis by (simp add: push_bit_eq_mult)
qed

lemma drive_number_name:
  assumes "0 \<le> n" "n < 2 ^ 63"
  shows "drive_number (drive_name n) = Some n"
proof -
  have d: "list_all is_digit (show_int n)" "show_int n \<noteq> []" using assms(1) digits_of_digits [of "nat n"] by (simp_all add: show_int_def show_nat_def)
  have "\<not> is_digit (CHR '' '')" "\<not> is_digit (CHR 0x09)" "\<not> is_digit (CHR 0x2D)" "\<not> is_digit (CHR 0x2B)" by code_simp+
  then have c: "hd (show_int n) \<notin> {CHR '' '', CHR 0x09, CHR 0x2D, CHR 0x2B}" using d by (cases "show_int n") auto
  obtain x xs where x: "show_int n = x # xs" using d(2) by (cases "show_int n") auto
  then have "takeWhile is_digit xs = xs" using d(1) by (simp add: list_all_iff)
  then have "scan_int (show_int n) = parse_int64 (show_int n)" using d(1) c by (simp add: x scan_int_def Let_def del: takeWhile_eq_all_conv)
  then show ?thesis using parse_show_int [of n] assms by (simp add: drive_number_def drive_name_def TrimPrefix_def HasPrefix_def)
qed

text \<open>
  The times of \<open>GetSystemTimes\<close> count in units of 100 nanoseconds, idle time within kernel time: the usage is the share that was not idle.
\<close>

lemma windows_cpu_usage_exact:
  assumes "unat (filetime_uint64 i2) = unat (filetime_uint64 i1) + idle"
    and "unat (filetime_uint64 k2) + unat (filetime_uint64 u2) = unat (filetime_uint64 k1) + unat (filetime_uint64 u1) + (busy + idle)"
    and "0 < busy + idle" "busy + idle < 2 ^ 64"
  shows "\<exists>st. windows_localCPU ncpu (Inr (i1, k1, u1)) None (Inr (i2, k2, u2)) = Inr st \<and> cs_UsedPct st = of_nat busy / of_nat (busy + idle) * 100"
proof -
  have i: "filetime_uint64 i2 - filetime_uint64 i1 = of_nat idle"
    using arg_cong [OF assms(1), of "of_nat :: nat \<Rightarrow> 64 word"] by simp
  have "filetime_uint64 k2 + filetime_uint64 u2 = filetime_uint64 k1 + filetime_uint64 u1 + of_nat (busy + idle)"
    using arg_cong [OF assms(2), of "of_nat :: nat \<Rightarrow> 64 word"] by simp
  then have t: "(filetime_uint64 k2 + filetime_uint64 u2) - (filetime_uint64 k1 + filetime_uint64 u1) = of_nat (busy + idle)"
    by (simp only: add_diff_cancel_left')
  show ?thesis using used_share_forward [OF assms(4)] assms(3) unfolding windows_localCPU_def by (simp only: sum.case prod.case option.case i t) simp
qed

text \<open>
  The counters of \<open>kern.cp_time\<close> have 32 bits and are widened before they are subtracted. When the idle counter wraps between the readings, the
  differences lose \<open>2 ^ 32\<close>, the usage comes out below one percent whatever the load, and the state is recorded as \<open>ok\<close>.
\<close>

lemma darwin_idle_wrap_hides_load:
  assumes "readCPTime r1 = Inr t1" "readCPTime r2 = Inr t2"
    and "dt_idle t2 + 2 ^ 32 = dt_idle t1 + of_nat idle" "darwin_total t2 + 2 ^ 32 = darwin_total t1 + of_nat (busy + idle)"
    and "busy + idle < 2 ^ 32"
  shows "\<exists>st. darwin_localCPU ncpu r1 None r2 loads = Inr st \<and> cs_UsedPct st < 1
    \<and> recorded_health ''analyze_cpu_utilization'' (snd (cpu_runCheck True fmt num now (Inr st) m)) = Some ''ok''"
proof -
  define off :: nat where "off = 2 ^ 64 - 2 ^ 32"
  have off: "of_nat off = (- (2 ^ 32) :: 64 word)" by (simp add: off_def)
  have i: "dt_idle t2 - dt_idle t1 = of_nat (off + idle)" using assms(3) unfolding of_nat_add off by (simp add: algebra_simps)
  have t: "darwin_total t2 - darwin_total t1 = of_nat (busy + (off + idle))"
    using assms(4) unfolding of_nat_add off by (simp add: algebra_simps)
  obtain st where st: "darwin_localCPU ncpu r1 None r2 loads = Inr st"
      "cs_UsedPct st = used_share (darwin_total t2 - darwin_total t1) (dt_idle t2 - dt_idle t1)"
    using assms(1,2) by (cases "darwin_readLoadAvg loads") (simp add: darwin_localCPU_def)
  have "cs_UsedPct st = of_nat busy / of_nat (busy + (off + idle)) * 100"
    unfolding st(2) i t using used_share_forward [of busy "off + idle"] assms(5) by (simp add: off_def)
  moreover have "100 * busy < busy + (off + idle)" using assms(5) by (simp add: off_def)
  then have "100 * (of_nat busy :: rat) < of_nat (busy + (off + idle))"
    using of_nat_less_iff [where 'a = rat, of "100 * busy" "busy + (off + idle)"] by simp
  moreover from this have "0 < (of_nat (busy + (off + idle)) :: rat)" by (rule le_less_trans [rotated]) simp
  ultimately have lt: "cs_UsedPct st < 1" by (simp only: times_divide_eq_left pos_divide_less_eq mult_1 mult.commute [of "of_nat busy"])
  then have "pct_health (cs_UsedPct st) = ''ok''" by (simp add: pct_health_ok usedPctWarning_def)
  then show ?thesis using st(1) lt by (auto simp: cpu_runCheck_def cpuHealth_def)
qed

text \<open>Each readable fixed drive is listed with its space, and the health check of its device queries the disk the partition table names.\<close>

lemma windows_disk_listed:
  assumes "l \<in> set drive_letters" "fixed l" "space l = Some (tb, fb)" "driveLetterToDiskNumber ps [l] = Some n" "0 \<le> n" "n < 2 ^ 63"
  shows "\<exists>d \<in> set (windows_localDisks ps fixed space). dk_Mount d = [l, CHR '':'', CHR 0x5C] \<and> dk_Total d = tb \<and> dk_Free d = fb
    \<and> (query n = (out, False) \<longrightarrow> ParsePSPhysicalDisks out = Some ds \<longrightarrow> windows_CheckSmart query (dk_Device d) = map PhysicalDiskToReport ds)"
proof -
  have "drive_name n \<noteq> []" by (simp add: drive_name_def)
  then have "query n = (out, False) \<longrightarrow> ParsePSPhysicalDisks out = Some ds \<longrightarrow> windows_CheckSmart query (drive_name n) = map PhysicalDiskToReport ds"
    using drive_number_name [OF assms(5,6)] by (simp add: windows_CheckSmart_def)
  moreover have "\<lparr>dk_Mount = [l, CHR '':'', CHR 0x5C], dk_Device = drive_name n, dk_Total = tb, dk_Free = fb, dk_FSType = []\<rparr>
      \<in> set (windows_localDisks ps fixed space)"
    using assms(1-4) by (auto simp: windows_localDisks_def in_set_map_filter windows_drive_def intro!: bexI [of _ l])
  ultimately show ?thesis by (auto elim!: bexI [rotated])
qed

end
