(* ===== verification/Spec2Isabelle.thy ===== *)
theory Spec2Isabelle
  imports Sanitize Diagnostic Memory_Store Approval_Sweep Approved_Command Gateway_Safety Incidents Agent_Loop Scheduler Patching Conn_Monitor
    Login_Monitor Posture Status_Report Agent_Tools Server Drives Containers Listings Migration Platforms
begin

text \<open>
  A verification library for the Go programs of the repository: the endpoint server
  (\<open>src/endpoint-server\<close>), an autonomous maintenance agent that runs on a managed host, and the model
  gateway (\<open>src/llm-gateway\<close>), the proxy all agents talk to the language model through; and for the
  command \<open>src/migrate-memory\<close>, which brings the memory of old agents up to date.

  \<^bold>\<open>The program.\<close> The agent runs a tool-use loop: it sends the conversation to the model, executes the tools
  the model calls and appends their sanitised results. Read-only commands pass a gate and run at once;
  commands that change the host need the approval of an operator, either a standing policy or a request
  that the operator decides, and commands the agent may not run at all become manual-run requests. A scheduler
  starts the agent's responsibilities, each a prompt with its tools, every so often or at a time of day; pending
  updates are listed, assessed and applied after an approval; monitors follow logins and network connections beside
  it, compare them with what is usual and alert; checks of the host (drives, network mounts, containers, load, traffic,
  temperature) keep histories of their readings and judge them; a status report puts it all together. All
  the records, the activity timeline and the incidents live in the memory store, a directory of snapshots
  with tiered retention and a file of attributes. The gateway queues requests of all agents in two classes,
  forwards a bounded number of them at a time, and keeps statistics that survive a restart.

  \<^bold>\<open>Theories.\<close>

  \<^item> \<open>Prelude\<close>: durations, errors, results, the collections \<open>store_laws\<close>, \<open>string_simps\<close> and \<open>invs\<close>, and lemmas on
    lists and maps that several components use.
  \<^item> \<open>Go_Strings\<close>, \<open>Regex\<close>, \<open>Json\<close>: what the sources use of Go's \<open>strings\<close>, \<open>unicode/utf8\<close>, \<open>regexp\<close> and
    \<open>encoding/json\<close>. A Go string is a list of bytes; its runes are decoded the way \<open>range\<close> decodes them. A
    regular expression has a relational semantics (\<open>matches\<close>) and an executable backtracking matcher that is
    proved to agree with it, so that facts about patterns are proved on the relation and witnesses run the
    matcher.
  \<^item> \<open>Sanitize\<close>: \<open>utils/sanitize/sanitize.go\<close>. No hidden rune reaches the model, the output is bounded, and
    nothing is reported exactly when nothing changed.
  \<^item> \<open>Diagnostic\<close>: \<open>skills/run_diagnostic_command\<close>. The shape of every accepted command, the rejection of service
    changes, and that only accepted commands reach the shell.
  \<^item> \<open>Memory_Store\<close>: \<open>memory/memory.go\<close>. Domains of snapshots with pruning by tiers, typed keys, attributes and
    the size counter of the store. Round trips, the exact set of snapshots kept, and the size invariant over
    every history of operations (\<open>store_reach\<close>).
  \<^item> \<open>Migration\<close>: \<open>migrate-memory\<close>, the command that moves attributes of old agents to domains. No value is lost whatever write fails; a second run
    puts old values back.
  \<^item> \<open>Agent_Data\<close>: the records of \<open>status/types.go\<close> and the stores of the other components, with the timeline of
    \<open>status/timeline.go\<close> on the abstract memory and on the snapshot files.
  \<^item> \<open>Approval\<close>, \<open>Approval_Sweep\<close>: \<open>skills/request_approval\<close> and \<open>approvalapi\<close>. The step relation \<open>astep\<close>
    interleaves submissions, the decision endpoint, the sweeper and waiters; an approved command is launched
    at most once, expiry and pruning touch exactly the records they should, reminders are sent once.
  \<^item> \<open>Manual_Run\<close>, \<open>Policy\<close>, \<open>Approved_Command\<close>: \<open>skills/request_manual_run\<close>, \<open>policy\<close>,
    \<open>skills/run_approved_command\<close>. A policy covers a whole command, counts of approvals are bounded, and a
    command runs without a decision only under a policy.
  \<^item> \<open>Incidents\<close>: \<open>incidents/incidents.go\<close>, the ledger as a map from fingerprints, with the slice that the
    filter of \<open>save\<close> overwrites in place.
  \<^item> \<open>Agent_Loop\<close>: \<open>a2a/agent/agent.go\<close>. The loop ends, and no call is executed twice.
  \<^item> \<open>Scheduler\<close>: \<open>loop/loop.go\<close>, \<open>loop/responsibility.go\<close>, \<open>skillstate\<close>, \<open>utils/notifier\<close>. Ticks and the ends of executions
    interleave (\<open>loop_reach\<close>); runs of a responsibility are spaced and do not overlap, and a daily one runs every day.
  \<^item> \<open>Patch_Assess\<close>, \<open>Patch_Info\<close>, \<open>Patching\<close>: \<open>skills/check_for_pending_system_patches\<close>. The parsers of the package managers,
    the CVEs a changelog names between two versions, the levels of importance and risk, the calls of the vulnerability
    database (\<open>nvd_step\<close>), and the tool that installs or reboots only after an approval of its own.
  \<^item> \<open>Event_Log\<close>, \<open>Monitor_Base\<close>, \<open>Net_Addr\<close>: what the monitors share: histories of openings and closings with a cap, the
    escalation of a deviation, and addresses and prefixes of package \<open>net\<close>.
  \<^item> \<open>Conn_Monitor\<close>, \<open>Login_Monitor\<close>: \<open>connmonitor\<close>, \<open>loginmonitor\<close> and \<open>logind\<close> on Linux. The history of a monitor refines
    the set of what is open; a baseline flags exactly what is new; repeated failures of a login alert once.
  \<^item> \<open>Posture\<close>: \<open>skills/check_security_posture\<close>. Every drift between two snapshots is noticed and stored.
  \<^item> \<open>Status_Report\<close>: \<open>status/status.go\<close>, \<open>status/summarizer.go\<close>, \<open>utils/storage\<close>. The state that is reported, one refresh of the
    summary at a time in every interleaving (\<open>sum_step\<close>), and the log of executions.
  \<^item> \<open>Trends\<close>: the histories behind the checks of the host, \<open>trend.go\<close> and \<open>smart_trend.go\<close> of \<open>check_drives\<close>, the \<open>trend.go\<close> of the
    temperature check and the histories of memory and traffic. Each history is bounded; the slope of a disk is the least-squares slope
    and its forecast is exact; with a reading every fifteen minutes the rule for sustained heat never fires.
  \<^item> \<open>Host_Checks\<close>: \<open>skills/analyze_cpu_utilization\<close>, \<open>analyze_memory_utilization\<close>, \<open>analyze_network_utilization\<close> and
    \<open>analyze_system_temperature\<close> on Linux, from the text of \<open>/proc\<close> to the skill state, with the jiffies as \<open>64 word\<close>.
  \<^item> \<open>Largest\<close>, \<open>Drives\<close>: \<open>skills/check_drives\<close>. The walk that finds the largest directories within its budget, the devices that share
    storage, the physical disks behind a device mapper (a graph that may have cycles), SMART readings and the verdict on each disk.
  \<^item> \<open>Nfs\<close>: \<open>skills/check_nfs\<close>. The statistics of a mount, its assessment, and that only mounts judged hung are unmounted.
  \<^item> \<open>Containers\<close>: \<open>skills/check_containers\<close>. What the runtimes list, how each container is judged, and the state that is reported.
  \<^item> \<open>Listings\<close>: \<open>skills/check_network_connections\<close>, \<open>check_interactive_logins\<close>, \<open>check_reboot_required\<close>, \<open>capture_system_info\<close> and the report of
    \<open>logind\<close>. What the model is told of open connections is what the last poll saw.
  \<^item> \<open>Platforms\<close>: the readers for Windows and macOS behind these checks: processor, memory, connections, network counters, drives, posture, the
    shell and the survey. Usage on Windows is exact and each fixed drive is listed with the disk that is asked for its health; on macOS a
    counter of 32 bits that wraps hides the load.
  \<^item> \<open>Agent_Tools\<close>: \<open>skills/report_findings\<close>, \<open>manage_incidents\<close>, \<open>read_agent_memory\<close>, \<open>compare_to_baseline\<close>. Findings become cards with
    identifiers of their own, and a comparison shows the snapshots nearest to its times.
  \<^item> \<open>Config\<close>: \<open>utils/config/config.go\<close> and the list of responsibilities \<open>main.go\<close> builds. Every setting has a value after loading, and no two
    responsibilities share a name.
  \<^item> \<open>Http_Api\<close>, \<open>Server\<close>: the handlers of \<open>policyapi\<close>, \<open>findingsapi\<close>, \<open>memoryapi\<close>, \<open>logapi\<close>, \<open>loginapi\<close> and \<open>networkapi\<close>, and the routes and
    bearer checks of \<open>main.go\<close> that join them with the other endpoints. Without the token nothing changes, and a GET changes no record.
  \<^item> \<open>Gateway_Stats\<close>, \<open>Gateway_Windows\<close>, \<open>Gateway_Persist\<close>: \<open>stats.go\<close>. The tracker on 64-bit counters, its event
    logs against a specification by the full history, and \<open>Load\<close> and \<open>Save\<close> through the JSON file.
  \<^item> \<open>Gateway\<close>: \<open>config.go\<close>, \<open>main.go\<close> and the request-local part of \<open>gateway.go\<close>: routing, the bearer check, model
    resolution, the relay of a response, \<open>resetStats\<close>.
  \<^item> \<open>Gateway_System\<close>, \<open>Gateway_Safety\<close>: the handlers, the dispatcher and the forwarders of \<open>gateway.go\<close> as atomic
    steps on a shared state; \<open>reach\<close> is every interleaving of them. Bounds of queues and concurrency, the
    settlement of the pending and ghost counters, progress of the dispatcher, and two races.

  \<^bold>\<open>Interfaces.\<close> Five locales state what one part relies on of another. \<open>snapshot_cell\<close> (\<open>Agent_Data\<close>) is a cell
  that a reader sees as last written; it is interpreted by \<open>Domain_Write\<close> and \<open>Domain_ReadCurrent\<close>, and carries the timeline
  from the abstract memory to the files. \<open>kv\<close> (\<open>Memory_Store\<close>) is the contract of the attribute file.
  \<open>sliding_window\<close> (\<open>Gateway_Windows\<close>) is an event log that is appended to and pruned from the front; its five
  interpretations are the error, duration, outcome, endpoint and responsibility logs. \<open>open_log\<close> (\<open>Event_Log\<close>) is a history
  of openings and closings whose replay gives what is open; it is interpreted by connections and by login sessions.
  \<open>rolling_history\<close> (\<open>Trends\<close>) is a history of samples with a minimal interval and a maximal age; it is interpreted by the histories of
  disks, SMART attributes, temperature, memory and traffic.

  \<^bold>\<open>State, errors, numbers.\<close> State is passed explicitly; a failing call returns \<open>Inl\<close> with its error. Outcomes of
  system calls (does this write succeed), the clock, fresh identifiers and the order in which a Go map is walked
  are arguments, so a theorem holds for each of them. Gateway counters are \<open>64 word\<close>; instants and durations are
  integers in nanoseconds, and lengths are natural numbers. Measurements that the program keeps in \<open>float64\<close> are rational numbers, so the
  rounding of floating point is not in the model, and their decimal text is a parameter. The shell, the language model, the tools,
  \<open>regexp.Compile\<close> on a pattern an operator wrote, \<open>time.ParseDuration\<close> and the formatting of times are parameters.

  \<^bold>\<open>Bounds and fuel.\<close> The JSON reader has fuel twice the length of its input plus two: every call consumes a byte
  or descends from a call that did. The decoding of UTF-8 and the matcher recurse on measures. The agent's loop
  recurses on the iterations left, as the \<open>for\<close> loop does. The waiters recurse on the list of their wake-ups. The search for
  the physical disks behind a device follows a graph the host gives, so it is a partial function with values in \<open>option\<close>; it returns whenever
  finitely many devices are reachable, and so does the whole drive check. The directory walk recurses on its budget of 50 directories.

  \<^bold>\<open>Not modelled.\<close> The HTTP server and transport, log lines, tracing, JSON schemas of tools and the text of prompts,
  which have no state of their own; the system calls behind the checks of the host, whose results are
  arguments; the survey and the temperature reader of macOS, which search the output of \<open>diskutil\<close> and \<open>powermetrics\<close>; the decoding of YAML; the construction of tools and services in \<open>main.go\<close> of the endpoint
  server, the command line client, which wire components together; the central backend and the
  user interface, written in other languages.
\<close>

end
